(* ===== verification/Prelude.thy ===== *)
theory Prelude
  imports Main "HOL-Library.Sublist"
begin

text \<open>
  What every component of the development shares: the Go string operations the source
  calls (\<open>strings.HasPrefix\<close>, \<open>strings.Contains\<close>, \<open>strings.TrimSpace\<close>, \<open>strings.Split\<close>,
  \<open>strconv.Itoa\<close>, \<open>strconv.Atoi\<close>, \<open>filepath.Join\<close>), Go errors as values, and the list
  lemmas the component proofs use.

  A Go string is a byte sequence and is modelled as a \<^typ>\<open>string\<close>, a list of 8-bit
  characters. \<open>TrimSpace\<close> and \<open>Fields\<close> are modelled on ASCII white space. A Go \<open>int\<close> that
  only counts (rounds, attempts, issue numbers) is an \<^typ>\<open>int\<close>; the 64-bit range appears
  where the source parses a number.
\<close>

section \<open>Collections of facts\<close>

named_theorems go_string \<open>definitions of the Go string operations\<close>
named_theorems grows \<open>operations that only extend the history\<close>
named_theorems emits \<open>which calls an operation can add to the history\<close>
named_theorems wp_simps \<open>weakest-precondition equations of the runner's monad\<close>
named_theorems ends \<open>what holds of the result of an operation, from any state\<close>
named_theorems counted \<open>how many calls of a kind an operation makes\<close>
named_theorems op_defs \<open>definitions of operations, for symbolic evaluation\<close>

section \<open>Go strings\<close>

definition has_prefix :: "string \<Rightarrow> string \<Rightarrow> bool" where
  "has_prefix p s \<longleftrightarrow> take (length p) s = p"

fun contains_sub :: "string \<Rightarrow> string \<Rightarrow> bool" where
  "contains_sub sub [] \<longleftrightarrow> sub = []"
| "contains_sub sub (c # cs) \<longleftrightarrow> has_prefix sub (c # cs) \<or> contains_sub sub cs"

definition is_space :: "char \<Rightarrow> bool" where
  "is_space c \<longleftrightarrow> c \<in> {CHR '' '', CHR 0x09, CHR 0x0A, CHR 0x0B, CHR 0x0C, CHR 0x0D}"

definition trim_left :: "(char \<Rightarrow> bool) \<Rightarrow> string \<Rightarrow> string" where
  "trim_left p s = dropWhile p s"

definition trim_right :: "(char \<Rightarrow> bool) \<Rightarrow> string \<Rightarrow> string" where
  "trim_right p s = rev (dropWhile p (rev s))"

definition trim_space :: "string \<Rightarrow> string" where
  "trim_space s = trim_right is_space (trim_left is_space s)"

fun split_on :: "char \<Rightarrow> string \<Rightarrow> string list" where
  "split_on c [] = [[]]"
| "split_on c (x # xs) =
     (if x = c then [] # split_on c xs
      else (case split_on c xs of [] \<Rightarrow> [[x]] | w # ws \<Rightarrow> (x # w) # ws))"

definition newline :: char where
  "newline = CHR 0x0A"

fun split_fields_acc :: "string \<Rightarrow> string \<Rightarrow> string list" where
  "split_fields_acc acc [] = (if acc = [] then [] else [rev acc])"
| "split_fields_acc acc (c # cs) =
     (if is_space c then (if acc = [] then split_fields_acc [] cs else rev acc # split_fields_acc [] cs)
      else split_fields_acc (c # acc) cs)"

definition split_fields :: "string \<Rightarrow> string list" where
  "split_fields s = split_fields_acc [] s"

fun join_with :: "string \<Rightarrow> string list \<Rightarrow> string" where
  "join_with sep [] = []"
| "join_with sep [x] = x"
| "join_with sep (x # y # ys) = x @ sep @ join_with sep (y # ys)"

definition to_lower_char :: "char \<Rightarrow> char" where
  "to_lower_char c =
     (let n = of_char c :: nat in if 65 \<le> n \<and> n \<le> 90 then char_of (n + 32) else c)"

definition to_lower :: "string \<Rightarrow> string" where
  "to_lower s = map to_lower_char s"

text \<open>\<open>filepath.Join\<close> on components that are already clean: joined with a slash.\<close>

definition path_join :: "string list \<Rightarrow> string" where
  "path_join ps = join_with ''/'' (filter (\<lambda>p. p \<noteq> []) ps)"

lemma has_prefix_append [simp]: "has_prefix p (p @ s)"
  by (simp add: has_prefix_def)

lemma has_prefix_iff: "has_prefix p s \<longleftrightarrow> (\<exists>t. s = p @ t)"
  unfolding has_prefix_def by (metis append_take_drop_id append_eq_conv_conj)

lemma contains_sub_iff: "contains_sub sub s \<longleftrightarrow> (\<exists>a b. s = a @ sub @ b)"
proof (induction s)
  case Nil
  then show ?case by simp
next
  case (Cons c cs)
  have "(\<exists>a b. c # cs = a @ sub @ b) \<longleftrightarrow>
      (\<exists>b. c # cs = sub @ b) \<or> (\<exists>a b. cs = a @ sub @ b)"
    by (metis append_Cons append_Nil list.inject neq_Nil_conv)
  with Cons show ?case by (simp add: has_prefix_iff)
qed

lemma contains_sub_append_right: "contains_sub sub s \<Longrightarrow> contains_sub sub (s @ t)"
  unfolding contains_sub_iff by (metis append.assoc)

lemma contains_sub_append_left: "contains_sub sub t \<Longrightarrow> contains_sub sub (s @ t)"
  unfolding contains_sub_iff by (metis append.assoc)

lemma split_on_nonempty [simp]: "split_on c s \<noteq> []"
  by (cases s) (auto split: list.split)

lemma split_on_append_line: "split_on c (a @ c # b) = split_on c a @ split_on c b"
proof (induction a)
  case (Cons x xs)
  then show ?case using split_on_nonempty [of c xs] by (cases "split_on c xs") auto
qed simp

lemma contains_sub_self [simp]: "contains_sub s s"
  unfolding contains_sub_iff by (intro exI [of _ "[]"]) simp

lemma to_lower_append [simp]: "to_lower (s @ t) = to_lower s @ to_lower t"
  by (simp add: to_lower_def)

section \<open>Decimal numbers\<close>

definition digit_char :: "nat \<Rightarrow> char" where
  "digit_char d = char_of (48 + d)"

fun nat_digits :: "nat \<Rightarrow> string" where
  "nat_digits n = (if n < 10 then [digit_char n] else nat_digits (n div 10) @ [digit_char (n mod 10)])"

declare nat_digits.simps [simp del]

definition itoa :: "int \<Rightarrow> string" where
  "itoa i = (if i < 0 then CHR ''-'' # nat_digits (nat (- i)) else nat_digits (nat i))"

definition digit_val :: "char \<Rightarrow> nat option" where
  "digit_val c = (let n = of_char c :: nat in if 48 \<le> n \<and> n \<le> 57 then Some (n - 48) else None)"

fun digits_val :: "nat \<Rightarrow> string \<Rightarrow> nat option" where
  "digits_val acc [] = Some acc"
| "digits_val acc (c # cs) =
     (case digit_val c of None \<Rightarrow> None | Some d \<Rightarrow> digits_val (10 * acc + d) cs)"

definition max_int64 :: int where
  "max_int64 = 9223372036854775807"

text \<open>\<open>strconv.Atoi\<close>: an optional sign, at least one digit, and the 64-bit range.\<close>

definition atoi :: "string \<Rightarrow> int option" where
  "atoi s =
     (let (neg, ds) = (case s of [] \<Rightarrow> (False, [])
                       | c # cs \<Rightarrow> if c = CHR ''-'' then (True, cs)
                                   else if c = CHR ''+'' then (False, cs) else (False, s))
      in if ds = [] then None
         else (case digits_val 0 ds of None \<Rightarrow> None
               | Some n \<Rightarrow> (let v = (if neg then - int n else int n)
                            in if - max_int64 - 1 \<le> v \<and> v \<le> max_int64 then Some v else None)))"

lemma digit_val_digit_char [simp]: "d < 10 \<Longrightarrow> digit_val (digit_char d) = Some d"
  by (simp add: digit_val_def digit_char_def)

lemma digits_val_append:
  "digits_val acc (xs @ ys) = (case digits_val acc xs of None \<Rightarrow> None | Some n \<Rightarrow> digits_val n ys)"
  by (induction acc xs rule: digits_val.induct) (auto split: option.splits)

lemma nat_digits_nonempty [simp]: "nat_digits n \<noteq> []"
  by (subst nat_digits.simps) simp

lemma digits_val_nat_digits: "digits_val 0 (nat_digits n) = Some n"
proof (induction n rule: nat_digits.induct)
  case (1 n)
  show ?case
  proof (cases "n < 10")
    case True
    then show ?thesis by (subst nat_digits.simps) simp
  next
    case False
    with 1 have "digits_val 0 (nat_digits (n div 10)) = Some (n div 10)" by simp
    with False show ?thesis by (subst nat_digits.simps) (simp add: digits_val_append)
  qed
qed

lemma nat_digits_all_digits: "c \<in> set (nat_digits n) \<Longrightarrow> \<exists>d<10. c = digit_char d"
proof (induction n rule: nat_digits.induct)
  case (1 n)
  show ?case
  proof (cases "n < 10")
    case True
    with "1.prems" show ?thesis by (subst (asm) nat_digits.simps) auto
  next
    case False
    with "1.prems" have "c \<in> set (nat_digits (n div 10)) \<or> c = digit_char (n mod 10)"
      by (subst (asm) nat_digits.simps) auto
    then show ?thesis
    proof
      assume "c \<in> set (nat_digits (n div 10))"
      with "1.IH" False show ?thesis by blast
    next
      assume "c = digit_char (n mod 10)"
      then show ?thesis by (intro exI [of _ "n mod 10"]) simp
    qed
  qed
qed

lemma digit_char_ne_sign:
  assumes "d < 10"
  shows "digit_char d \<noteq> CHR ''-''" and "digit_char d \<noteq> CHR ''+''"
proof -
  have "digit_val (digit_char d) = Some d" using assms by simp
  then show "digit_char d \<noteq> CHR ''-''" and "digit_char d \<noteq> CHR ''+''"
    by (auto simp: digit_val_def)
qed

lemma atoi_nat_digits:
  assumes "int n \<le> max_int64"
  shows "atoi (nat_digits n) = Some (int n)"
proof (cases "nat_digits n")
  case Nil
  then show ?thesis by simp
next
  case (Cons c cs)
  then obtain d where d: "d < 10" "c = digit_char d"
    using nat_digits_all_digits [of c n] by auto
  have "digits_val 0 (c # cs) = Some n"
    using digits_val_nat_digits [of n] Cons by simp
  with assms d digit_char_ne_sign [OF d(1)] show ?thesis
    unfolding atoi_def Cons by (simp add: max_int64_def del: digits_val.simps)
qed

lemma atoi_minus_nat_digits:
  assumes "int n \<le> max_int64 + 1"
  shows "atoi (CHR ''-'' # nat_digits n) = Some (- int n)"
  using assms by (simp add: atoi_def digits_val_nat_digits max_int64_def)

lemma atoi_itoa:
  assumes "- max_int64 - 1 \<le> i" and "i \<le> max_int64"
  shows "atoi (itoa i) = Some i"
proof (cases "i < 0")
  case True
  with assms show ?thesis
    using atoi_minus_nat_digits [of "nat (- i)"] by (simp add: itoa_def)
next
  case False
  with assms show ?thesis
    using atoi_nat_digits [of "nat i"] by (simp add: itoa_def)
qed

lemma itoa_nonempty [simp]: "itoa i \<noteq> []"
  by (simp add: itoa_def)

text \<open>The decimal text of a number determines it, whatever its size.\<close>

lemma itoa_inj: "itoa i = itoa j \<longleftrightarrow> i = j"
proof
  assume eq: "itoa i = itoa j"
  have nd: "nat_digits m = nat_digits n \<Longrightarrow> m = n" for m n
    by (metis digits_val_nat_digits option.inject)
  have sign: "CHR ''-'' # xs \<noteq> nat_digits n" for xs n
    using nat_digits_all_digits [of "CHR ''-''" n] digit_char_ne_sign(1)
    by (metis list.set_intros(1))
  show "i = j"
    using eq nd [of "nat (- i)" "nat (- j)"] nd [of "nat i" "nat j"] sign sign [symmetric]
    by (auto simp: itoa_def split: if_splits)
qed simp

section \<open>Sorted strings\<close>

text \<open>Go compares strings byte by byte.\<close>

fun bytes_le :: "string \<Rightarrow> string \<Rightarrow> bool" where
  "bytes_le [] ys \<longleftrightarrow> True"
| "bytes_le (x # xs) [] \<longleftrightarrow> False"
| "bytes_le (x # xs) (y # ys) \<longleftrightarrow>
     (of_char x :: nat) < of_char y \<or> (x = y \<and> bytes_le xs ys)"

fun insert_sorted :: "string \<Rightarrow> string list \<Rightarrow> string list" where
  "insert_sorted x [] = [x]"
| "insert_sorted x (y # ys) = (if bytes_le x y then x # y # ys else y # insert_sorted x ys)"

definition sort_strings :: "string list \<Rightarrow> string list" where
  "sort_strings xs = foldr insert_sorted xs []"

section \<open>Go errors\<close>

text \<open>
  An error is what the source can observe of it: which sentinel or error type
  \<open>errors.Is\<close> / \<open>errors.As\<close> finds in its chain, and its text. Wrapping with \<open>%w\<close> keeps
  the first and prefixes the second (\<open>wrap_err\<close>); formatting with \<open>%v\<close> keeps the text only
  (\<open>msg_err\<close>).
\<close>

datatype err_kind =
    KPlain
  | KExit int              \<comment> \<open>a \<open>preflight.ErrExit\<close> with its exit code\<close>
  | KMergeConflict         \<comment> \<open>\<open>errMergeConflict\<close>\<close>
  | KCapExhausted          \<comment> \<open>\<open>errConflictCapExhausted\<close>\<close>
  | KNotExist              \<comment> \<open>\<open>os.ErrNotExist\<close>\<close>

datatype gerr = Err (err_kind: err_kind) (err_text: string)

definition msg_err :: "string \<Rightarrow> gerr" where
  "msg_err t = Err KPlain t"

definition wrap_err :: "string \<Rightarrow> gerr \<Rightarrow> gerr" where
  "wrap_err p e = Err (err_kind e) (p @ err_text e)"

definition exit_code_is :: "int \<Rightarrow> gerr \<Rightarrow> bool" where
  "exit_code_is n e \<longleftrightarrow> err_kind e = KExit n"

lemma err_kind_wrap [simp]: "err_kind (wrap_err p e) = err_kind e"
  by (simp add: wrap_err_def)

lemma err_text_wrap [simp]: "err_text (wrap_err p e) = p @ err_text e"
  by (simp add: wrap_err_def)

lemma err_kind_msg [simp]: "err_kind (msg_err t) = KPlain"
  by (simp add: msg_err_def)

lemma err_text_msg [simp]: "err_text (msg_err t) = t"
  by (simp add: msg_err_def)

text \<open>A failed call is \<open>Inl\<close> of its error, a successful one \<open>Inr\<close> of its value.\<close>

type_synonym 'a result = "gerr + 'a"

section \<open>Lists\<close>

text \<open>The last element a backward scan (\<open>for i := len - 1; i >= 0; i--\<close>) finds.\<close>

fun find_last :: "('a \<Rightarrow> bool) \<Rightarrow> 'a list \<Rightarrow> 'a option" where
  "find_last p [] = None"
| "find_last p (x # xs) =
     (case find_last p xs of Some y \<Rightarrow> Some y | None \<Rightarrow> if p x then Some x else None)"

lemma find_last_None [simp]: "find_last p xs = None \<longleftrightarrow> (\<forall>x\<in>set xs. \<not> p x)"
  by (induction xs) (auto split: option.splits)

lemma find_last_append:
  "find_last p (xs @ ys) = (case find_last p ys of Some y \<Rightarrow> Some y | None \<Rightarrow> find_last p xs)"
  by (induction xs) (simp_all del: find_last_None split: option.split)

lemma find_last_Some_iff:
  "find_last p xs = Some y \<longleftrightarrow> (\<exists>us vs. xs = us @ y # vs \<and> p y \<and> (\<forall>v\<in>set vs. \<not> p v))"
proof
  show "find_last p xs = Some y \<Longrightarrow> \<exists>us vs. xs = us @ y # vs \<and> p y \<and> (\<forall>v\<in>set vs. \<not> p v)"
  proof (induction xs)
    case (Cons x xs)
    show ?case
    proof (cases "find_last p xs")
      case None
      with Cons.prems show ?thesis by (auto split: if_splits)
    next
      case (Some z)
      with Cons.prems have "find_last p xs = Some y" by simp
      then obtain us vs where "xs = us @ y # vs \<and> p y \<and> (\<forall>v\<in>set vs. \<not> p v)"
        using Cons.IH by blast
      then show ?thesis by (intro exI [of _ "x # us"] exI [of _ vs]) simp
    qed
  qed simp
next
  assume "\<exists>us vs. xs = us @ y # vs \<and> p y \<and> (\<forall>v\<in>set vs. \<not> p v)"
  then obtain us vs where *: "xs = us @ y # vs" "p y" "\<forall>v\<in>set vs. \<not> p v" by blast
  then have "find_last p vs = None" by simp
  with * have "find_last p (y # vs) = Some y" by (simp del: find_last_None)
  with * show "find_last p xs = Some y" by (simp add: find_last_append)
qed

lemma find_last_in: "find_last p xs = Some y \<Longrightarrow> y \<in> set xs \<and> p y"
  by (auto simp: find_last_Some_iff)

end
