(* ===== verification/Utf8.thy ===== *)
theory Utf8
  imports Prelude
begin

text \<open>
  UTF-8 as \<open>unicode/utf8\<close> and \<open>encoding/json\<close> treat it: a Go string is any sequence of bytes, a byte
  that does not start a valid rune counts as a rune of one byte, and \<open>encoding/json\<close> replaces each such
  byte by U+FFFD, when it writes and when it reads.
\<close>

section \<open>Runes\<close>

definition byte_in :: "nat \<Rightarrow> nat \<Rightarrow> char \<Rightarrow> bool" where
  "byte_in lo hi c \<longleftrightarrow> lo \<le> (of_char c :: nat) \<and> (of_char c :: nat) \<le> hi"

abbreviation continuation :: "char \<Rightarrow> bool" where
  "continuation \<equiv> byte_in 128 191"

definition starts_two :: "char \<Rightarrow> char \<Rightarrow> bool" where
  "starts_two a b \<longleftrightarrow> byte_in 194 223 a \<and> continuation b"

definition starts_three :: "char \<Rightarrow> char \<Rightarrow> char \<Rightarrow> bool" where
  "starts_three a b c \<longleftrightarrow>
     (byte_in 224 224 a \<and> byte_in 160 191 b \<or> byte_in 225 236 a \<and> continuation b \<or>
      byte_in 237 237 a \<and> byte_in 128 159 b \<or> byte_in 238 239 a \<and> continuation b) \<and> continuation c"

definition starts_four :: "char \<Rightarrow> char \<Rightarrow> char \<Rightarrow> char \<Rightarrow> bool" where
  "starts_four a b c d \<longleftrightarrow>
     (byte_in 240 240 a \<and> byte_in 144 191 b \<or> byte_in 241 243 a \<and> continuation b \<or>
      byte_in 244 244 a \<and> byte_in 128 143 b) \<and> continuation c \<and> continuation d"

text \<open>
  How many bytes the first rune of a string has: 1 for an ASCII character and for a byte that
  does not start valid UTF-8.
\<close>

fun rune_length :: "string \<Rightarrow> nat" where
  "rune_length (a # b # c # d # s) =
     (if starts_two a b then 2 else if starts_three a b c then 3 else if starts_four a b c d then 4 else 1)"
| "rune_length [a, b, c] = (if starts_two a b then 2 else if starts_three a b c then 3 else 1)"
| "rune_length [a, b] = (if starts_two a b then 2 else 1)"
| "rune_length _ = 1"

text \<open>Each byte that starts no rune becomes the three bytes of U+FFFD.\<close>

definition replacement :: string where
  "replacement = [CHR 0xEF, CHR 0xBF, CHR 0xBD]"

definition is_ascii :: "char \<Rightarrow> bool" where
  "is_ascii c \<longleftrightarrow> (of_char c :: nat) < 128"

fun to_valid :: "string \<Rightarrow> string" where
  "to_valid [] = []"
| "to_valid (c # cs) =
     (if is_ascii c then c # to_valid cs
      else if rune_length (c # cs) = 1 then replacement @ to_valid cs
      else take (rune_length (c # cs)) (c # cs) @ to_valid (drop (rune_length (c # cs) - 1) cs))"

fun valid_utf8 :: "string \<Rightarrow> bool" where
  "valid_utf8 [] = True"
| "valid_utf8 (c # cs) =
     (if is_ascii c then valid_utf8 cs
      else rune_length (c # cs) \<noteq> 1 \<and> valid_utf8 (drop (rune_length (c # cs) - 1) cs))"

text \<open>UTF-8 encoding of a code point.\<close>

definition utf8 :: "nat \<Rightarrow> string" where
  "utf8 n =
     (if n < 128 then [char_of n]
      else if n < 2048 then [char_of (192 + n div 64), char_of (128 + n mod 64)]
      else if n < 65536 then
        [char_of (224 + n div 4096), char_of (128 + n div 64 mod 64), char_of (128 + n mod 64)]
      else [char_of (240 + n div 262144), char_of (128 + n div 4096 mod 64),
            char_of (128 + n div 64 mod 64), char_of (128 + n mod 64)])"

section \<open>Lemmas\<close>

lemma of_char_of_small [simp]: "n < 256 \<Longrightarrow> of_char (char_of n :: char) = (n :: nat)"
  by (simp add: take_bit_nat_eq_self)

text \<open>On a literal character the highest bit decides.\<close>

lemma is_ascii_Char [simp, code]: "is_ascii (Char b0 b1 b2 b3 b4 b5 b6 b7) \<longleftrightarrow> \<not> b7"
proof -
  have "of_bool b0 + 2 * (of_bool b1 + 2 * (of_bool b2 + 2 * (of_bool b3 + 2 * (of_bool b4 +
      2 * (of_bool b5 + 2 * of_bool b6))))) < (128 :: nat)"
    by (simp add: of_bool_def)
  then show ?thesis by (cases b7) (simp_all add: is_ascii_def)
qed

lemma starts_apart:
  "starts_two a b \<Longrightarrow> \<not> starts_three a b' c" "starts_two a b \<Longrightarrow> \<not> starts_four a b' c d"
  "starts_three a b c \<Longrightarrow> \<not> starts_two a b'" "starts_three a b c \<Longrightarrow> \<not> starts_four a b' c' d"
  "starts_four a b c d \<Longrightarrow> \<not> starts_two a b'" "starts_four a b c d \<Longrightarrow> \<not> starts_three a b' c'"
  by (auto simp: starts_two_def starts_three_def starts_four_def byte_in_def)

lemma starts_high:
  "starts_two a b \<Longrightarrow> \<not> is_ascii a \<and> \<not> is_ascii b"
  "starts_three a b c \<Longrightarrow> \<not> is_ascii a \<and> \<not> is_ascii b \<and> \<not> is_ascii c"
  "starts_four a b c d \<Longrightarrow> \<not> is_ascii a \<and> \<not> is_ascii b \<and> \<not> is_ascii c \<and> \<not> is_ascii d"
  by (auto simp: starts_two_def starts_three_def starts_four_def byte_in_def is_ascii_def)

lemma rune_two: "starts_two a b \<Longrightarrow> rune_length (a # b # s) = 2"
  by (cases s; cases "tl s") auto

lemma rune_three: "starts_three a b c \<Longrightarrow> rune_length (a # b # c # s) = 3"
  by (cases s) (auto dest: starts_apart)

lemma rune_four: "starts_four a b c d \<Longrightarrow> rune_length (a # b # c # d # s) = 4"
  by (auto dest: starts_apart)

lemma rune_cases:
  obtains "rune_length s = 1"
  | a b t where "s = a # b # t" "starts_two a b"
  | a b c t where "s = a # b # c # t" "starts_three a b c"
  | a b c d t where "s = a # b # c # d # t" "starts_four a b c d"
proof -
  have "rune_length s = 1"
    if "\<And>a b t. s = a # b # t \<Longrightarrow> \<not> starts_two a b" "\<And>a b c t. s = a # b # c # t \<Longrightarrow> \<not> starts_three a b c"
      "\<And>a b c d t. s = a # b # c # d # t \<Longrightarrow> \<not> starts_four a b c d"
    by (cases s rule: rune_length.cases) (simp_all add: that)
  then show thesis using that by metis
qed

lemma ascii_rune: "is_ascii c \<Longrightarrow> rune_length (c # cs) = 1"
  by (cases "c # cs" rule: rune_cases) (auto dest: starts_high)

text \<open>A rune of several bytes, or of one byte below 128, in front of any text.\<close>

definition rune_text :: "string \<Rightarrow> bool" where
  "rune_text p \<longleftrightarrow> (case p of
     [a] \<Rightarrow> is_ascii a | [a, b] \<Rightarrow> starts_two a b | [a, b, c] \<Rightarrow> starts_three a b c
   | [a, b, c, d] \<Rightarrow> starts_four a b c d | _ \<Rightarrow> False)"

lemma replacement_rune: "rune_text replacement"
  by (simp add: replacement_def rune_text_def starts_three_def byte_in_def)

lemma rune_text_cases:
  assumes "rune_text p"
  obtains a where "p = [a]" "is_ascii a"
  | a b where "p = [a, b]" "starts_two a b"
  | a b c where "p = [a, b, c]" "starts_three a b c"
  | a b c d where "p = [a, b, c, d]" "starts_four a b c d"
  using assms by (auto simp: rune_text_def split: list.splits)

lemma valid_rune_text: "rune_text p \<Longrightarrow> valid_utf8 (p @ t) \<longleftrightarrow> valid_utf8 t"
  by (erule rune_text_cases)
    (auto simp: rune_two rune_three rune_four simp del: rune_length.simps dest: starts_high)

lemma to_valid_rune_text: "rune_text p \<Longrightarrow> to_valid (p @ t) = p @ to_valid t"
  by (erule rune_text_cases)
    (auto simp: rune_two rune_three rune_four simp del: rune_length.simps dest: starts_high)

text \<open>A text is empty, or starts with a rune, or with a byte that starts none.\<close>

lemma text_cases:
  obtains "s = []" | p t where "s = p @ t" "rune_text p" "p \<noteq> []"
  | c cs where "s = c # cs" "\<not> is_ascii c" "rune_length (c # cs) = 1"
proof (cases s)
  case (Cons c cs)
  note part = that(2)
  show thesis
  proof (cases "is_ascii c")
    case True
    then show thesis using part [of "[c]" cs] Cons by (simp add: rune_text_def)
  next
    case False
    show thesis
    proof (cases "c # cs" rule: rune_cases)
      case 1
      then show thesis using that(3) Cons False by blast
    next
      case (2 a b t)
      then show thesis using part [of "[a, b]" t] Cons by (simp add: rune_text_def)
    next
      case (3 a b d t)
      then show thesis using part [of "[a, b, d]" t] Cons by (simp add: rune_text_def)
    next
      case (4 a b d e t)
      then show thesis using part [of "[a, b, d, e]" t] Cons by (simp add: rune_text_def)
    qed
  qed
qed (rule that(1))

lemma text_induct [case_names empty rune broken]:
  assumes "P []"
    and "\<And>p t. rune_text p \<Longrightarrow> p \<noteq> [] \<Longrightarrow> P t \<Longrightarrow> P (p @ t)"
    and "\<And>c cs. \<not> is_ascii c \<Longrightarrow> rune_length (c # cs) = 1 \<Longrightarrow> P cs \<Longrightarrow> P (c # cs)"
  shows "P s"
proof (induction s rule: length_induct)
  case (1 s)
  show ?case
  proof (cases s rule: text_cases)
    case (2 p t)
    then have "length t < length s" by (cases p) auto
    then show ?thesis using 1 2 assms(2) by blast
  qed (use 1 assms in auto)
qed

lemma to_valid_broken: "\<not> is_ascii c \<Longrightarrow> rune_length (c # cs) = 1 \<Longrightarrow> to_valid (c # cs) = replacement @ to_valid cs"
  by simp

lemma valid_broken: "\<not> is_ascii c \<Longrightarrow> rune_length (c # cs) = 1 \<Longrightarrow> \<not> valid_utf8 (c # cs)"
  by simp

lemma valid_to_valid [simp]: "valid_utf8 (to_valid s)"
  by (induction s rule: text_induct)
    (simp_all add: to_valid_rune_text valid_rune_text to_valid_broken replacement_rune
      del: to_valid.simps(2) valid_utf8.simps(2))

lemma to_valid_id: "valid_utf8 s \<Longrightarrow> to_valid s = s"
  by (induction s rule: text_induct)
    (simp_all add: to_valid_rune_text valid_rune_text valid_broken del: to_valid.simps(2) valid_utf8.simps(2))

lemma valid_append: "valid_utf8 p \<Longrightarrow> valid_utf8 (p @ t) \<longleftrightarrow> valid_utf8 t"
  by (induction p rule: text_induct)
    (simp_all add: valid_rune_text valid_broken del: valid_utf8.simps(2))

lemma valid_ascii: "list_all is_ascii s \<Longrightarrow> valid_utf8 s"
  by (induction s) simp_all

lemma utf8_rune:
  assumes "n < 1114112" "\<not> (55296 \<le> n \<and> n < 57344)"
  shows "rune_text (utf8 n)"
proof -
  consider "n < 128" | "128 \<le> n" "n < 2048" | "2048 \<le> n" "n < 65536" | "65536 \<le> n" by linarith
  then show ?thesis
  proof cases
    case 1
    then show ?thesis by (simp add: utf8_def rune_text_def is_ascii_def)
  next
    case 2
    moreover have "2 \<le> n div 64" "n div 64 < 32" "n mod 64 < 64" using 2 by auto
    ultimately show ?thesis by (simp add: utf8_def rune_text_def starts_two_def byte_in_def)
  next
    case 3
    let ?b = "n div 64 mod 64"
    have a: "n div 4096 < 16" "?b < 64" "n mod 64 < 64" using 3 by auto
    have "n div 4096 = n div 64 div 64" by (simp add: div_mult2_eq [symmetric])
    then have n: "n = 4096 * (n div 4096) + 64 * ?b + n mod 64"
      using div_mult_mod_eq [of n 64] div_mult_mod_eq [of "n div 64" 64] by linarith
    have "n div 4096 = 0 \<Longrightarrow> 32 \<le> ?b" using n a 3 by linarith
    moreover have "n div 4096 = 13 \<Longrightarrow> ?b < 32" using n a 3 assms(2) by linarith
    ultimately show ?thesis
      using 3 a by (auto simp: utf8_def rune_text_def starts_three_def byte_in_def)
  next
    case 4
    let ?b = "n div 4096 mod 64" and ?c = "n div 64 mod 64"
    have a: "n div 262144 < 5" "?b < 64" "?c < 64" "n mod 64 < 64" using assms(1) by auto
    have "n div 4096 = n div 64 div 64" "n div 262144 = n div 4096 div 64"
      by (simp_all add: div_mult2_eq [symmetric])
    then have n: "n = 262144 * (n div 262144) + 4096 * ?b + 64 * ?c + n mod 64"
      using div_mult_mod_eq [of n 64] div_mult_mod_eq [of "n div 64" 64] div_mult_mod_eq [of "n div 4096" 64]
      by linarith
    have "n div 262144 = 0 \<Longrightarrow> 16 \<le> ?b" using n a 4 by linarith
    moreover have "n div 262144 = 4 \<Longrightarrow> ?b < 16" using n a assms(1) by linarith
    moreover have "n div 262144 = 0 \<or> 1 \<le> n div 262144 \<and> n div 262144 \<le> 3 \<or> n div 262144 = 4"
      using a(1) by linarith
    ultimately show ?thesis
      using 4 a by (auto simp: utf8_def rune_text_def starts_four_def byte_in_def)
  qed
qed

lemma valid_rune [simp]: "rune_text p \<Longrightarrow> valid_utf8 p"
  using valid_rune_text [of p "[]"] by simp

end
