(* ===== verification/Json.thy ===== *)
theory Json
  imports Utf8
begin

text \<open>
  What the source uses of \<open>encoding/json\<close>: the value tree, the text parser, and the decoding of
  a value into Go fields. Decoding follows \<open>json.Unmarshal\<close>: keys match without regard to case,
  an absent key leaves the zero value, \<open>null\<close> leaves a scalar as it is and clears a pointer or
  a slice, a value of another type is an error, and a repeated key is decoded again over the
  first. A number keeps its literal text, so an integer field rejects \<open>1.5\<close> and \<open>1e3\<close> as Go
  does. Text is bytes: the parser and the printer put U+FFFD in the place of each byte that starts no
  valid rune.
\<close>

datatype json =
    JNull
  | JBool bool
  | JNum string
  | JStr string
  | JArr "json list"
  | JObj "(string \<times> json) list"

definition jint :: "int \<Rightarrow> json" where
  "jint i = JNum (itoa i)"

section \<open>Decoding values into fields\<close>

definition dec_str :: "string \<Rightarrow> json \<Rightarrow> string option" where
  "dec_str cur j = (case j of JNull \<Rightarrow> Some cur | JStr s \<Rightarrow> Some s | _ \<Rightarrow> None)"

definition dec_int :: "int \<Rightarrow> json \<Rightarrow> int option" where
  "dec_int cur j = (case j of JNull \<Rightarrow> Some cur | JNum t \<Rightarrow> atoi t | _ \<Rightarrow> None)"

definition dec_bool :: "bool \<Rightarrow> json \<Rightarrow> bool option" where
  "dec_bool cur j = (case j of JNull \<Rightarrow> Some cur | JBool b \<Rightarrow> Some b | _ \<Rightarrow> None)"

definition dec_ptr :: "('a \<Rightarrow> json \<Rightarrow> 'a option) \<Rightarrow> 'a \<Rightarrow> 'a option \<Rightarrow> json \<Rightarrow> 'a option option" where
  "dec_ptr d z cur j =
     (if j = JNull then Some None
      else map_option Some (d (case cur of Some c \<Rightarrow> c | None \<Rightarrow> z) j))"

fun dec_all :: "(json \<Rightarrow> 'a option) \<Rightarrow> json list \<Rightarrow> 'a list option" where
  "dec_all d [] = Some []"
| "dec_all d (j # js) =
     (case d j of None \<Rightarrow> None
      | Some a \<Rightarrow> (case dec_all d js of None \<Rightarrow> None | Some as \<Rightarrow> Some (a # as)))"

definition dec_list :: "(json \<Rightarrow> 'a option) \<Rightarrow> 'a list \<Rightarrow> json \<Rightarrow> 'a list option" where
  "dec_list d cur j = (case j of JNull \<Rightarrow> Some [] | JArr xs \<Rightarrow> dec_all d xs | _ \<Rightarrow> None)"

definition key_matches :: "string \<Rightarrow> string \<Rightarrow> bool" where
  "key_matches k k' \<longleftrightarrow> k' = k \<or> to_lower k' = to_lower k"

fun dec_over :: "('a \<Rightarrow> json \<Rightarrow> 'a option) \<Rightarrow> string \<Rightarrow> 'a \<Rightarrow> (string \<times> json) list \<Rightarrow> 'a option" where
  "dec_over d k cur [] = Some cur"
| "dec_over d k cur ((k', v) # kvs) =
     (if key_matches k k'
      then (case d cur v of None \<Rightarrow> None | Some c \<Rightarrow> dec_over d k c kvs)
      else dec_over d k cur kvs)"

text \<open>One field of a struct: the decoder, the field's zero value, its JSON name.\<close>

definition get_field :: "('a \<Rightarrow> json \<Rightarrow> 'a option) \<Rightarrow> 'a \<Rightarrow> string \<Rightarrow> json \<Rightarrow> 'a option" where
  "get_field d z k j = (case j of JObj kvs \<Rightarrow> dec_over d k z kvs | JNull \<Rightarrow> Some z | _ \<Rightarrow> None)"

definition get_str :: "string \<Rightarrow> json \<Rightarrow> string option" where
  "get_str = get_field dec_str []"

definition get_int :: "string \<Rightarrow> json \<Rightarrow> int option" where
  "get_int = get_field dec_int 0"

definition get_bool :: "string \<Rightarrow> json \<Rightarrow> bool option" where
  "get_bool = get_field dec_bool False"

definition get_int_ptr :: "string \<Rightarrow> json \<Rightarrow> int option option" where
  "get_int_ptr = get_field (dec_ptr dec_int 0) None"

definition get_list :: "(json \<Rightarrow> 'a option) \<Rightarrow> string \<Rightarrow> json \<Rightarrow> 'a list option" where
  "get_list d = get_field (dec_list d) []"

text \<open>A field that is a struct of its own: decoded by \<open>d\<close>, whose zero value is its value on \<open>null\<close>.\<close>

definition get_struct :: "(json \<Rightarrow> 'a option) \<Rightarrow> string \<Rightarrow> json \<Rightarrow> 'a option" where
  "get_struct d k j =
     (case get_field (\<lambda>cur v. Some (if v = JNull then cur else v)) JNull k j of
        None \<Rightarrow> None | Some v \<Rightarrow> d v)"

lemmas json_dec_defs =
  get_field_def get_str_def get_int_def get_bool_def get_int_ptr_def get_list_def get_struct_def
  dec_str_def dec_int_def dec_bool_def dec_ptr_def dec_list_def key_matches_def

section \<open>Parsing text\<close>

definition is_json_ws :: "char \<Rightarrow> bool" where
  "is_json_ws c \<longleftrightarrow> c \<in> {CHR '' '', CHR 0x09, CHR 0x0A, CHR 0x0D}"

definition is_digit :: "char \<Rightarrow> bool" where
  "is_digit c \<longleftrightarrow> digit_val c \<noteq> None"

definition hex_val :: "char \<Rightarrow> nat option" where
  "hex_val c =
     (let n = of_char c :: nat in
      if 48 \<le> n \<and> n \<le> 57 then Some (n - 48)
      else if 65 \<le> n \<and> n \<le> 70 then Some (n - 55)
      else if 97 \<le> n \<and> n \<le> 102 then Some (n - 87)
      else None)"

definition hex4 :: "char \<Rightarrow> char \<Rightarrow> char \<Rightarrow> char \<Rightarrow> nat option" where
  "hex4 a b c d =
     (case (hex_val a, hex_val b, hex_val c, hex_val d) of
        (Some w, Some x, Some y, Some z) \<Rightarrow> Some (((w * 16 + x) * 16 + y) * 16 + z)
      | _ \<Rightarrow> None)"

definition is_high_surrogate :: "nat \<Rightarrow> bool" where
  "is_high_surrogate n \<longleftrightarrow> 55296 \<le> n \<and> n < 56320"

definition is_low_surrogate :: "nat \<Rightarrow> bool" where
  "is_low_surrogate n \<longleftrightarrow> 56320 \<le> n \<and> n < 57344"

definition simple_escape :: "char \<Rightarrow> char option" where
  "simple_escape c =
     (if c = CHR 0x22 then Some (CHR 0x22) else if c = CHR 0x5C then Some (CHR 0x5C)
      else if c = CHR ''/'' then Some (CHR ''/'') else if c = CHR ''b'' then Some (CHR 0x08)
      else if c = CHR ''f'' then Some (CHR 0x0C) else if c = CHR ''n'' then Some (CHR 0x0A)
      else if c = CHR ''r'' then Some (CHR 0x0D) else if c = CHR ''t'' then Some (CHR 0x09)
      else None)"

definition prepend :: "string \<Rightarrow> (string \<times> string) option \<Rightarrow> (string \<times> string) option" where
  "prepend p r = (case r of None \<Rightarrow> None | Some (s, rest) \<Rightarrow> Some (p @ s, rest))"

text \<open>The body of a string, after its opening quote; the fuel is the length of the text.\<close>

fun parse_chars :: "nat \<Rightarrow> string \<Rightarrow> (string \<times> string) option" where
  "parse_chars 0 _ = None"
| "parse_chars (Suc n) [] = None"
| "parse_chars (Suc n) (c # cs) =
     (if c = CHR 0x22 then Some ([], cs)
      else if (of_char c :: nat) < 32 then None
      else if \<not> is_ascii c then
        (if rune_length (c # cs) = 1 then prepend replacement (parse_chars n cs)
         else prepend (take (rune_length (c # cs)) (c # cs)) (parse_chars n (drop (rune_length (c # cs) - 1) cs)))
      else if c \<noteq> CHR 0x5C then prepend [c] (parse_chars n cs)
      else (case cs of
          [] \<Rightarrow> None
        | e # es \<Rightarrow>
            (if e = CHR ''u'' then
               (case es of
                  h1 # h2 # h3 # h4 # rest \<Rightarrow>
                    (case hex4 h1 h2 h3 h4 of
                       None \<Rightarrow> None
                     | Some v \<Rightarrow>
                         (case (if is_high_surrogate v then
                                  (case rest of
                                     b # u # l1 # l2 # l3 # l4 # rest' \<Rightarrow>
                                       (if b = CHR 0x5C \<and> u = CHR ''u'' then
                                          (case hex4 l1 l2 l3 l4 of
                                             Some w \<Rightarrow>
                                               if is_low_surrogate w
                                               then Some (65536 + (v - 55296) * 1024 + (w - 56320), rest')
                                               else None
                                           | None \<Rightarrow> None)
                                        else None)
                                   | _ \<Rightarrow> None)
                                else None) of
                            Some (cp, rest') \<Rightarrow> prepend (utf8 cp) (parse_chars n rest')
                          | None \<Rightarrow>
                              prepend (utf8 (if is_high_surrogate v \<or> is_low_surrogate v then 65533 else v))
                                (parse_chars n rest)))
                | _ \<Rightarrow> None)
             else (case simple_escape e of
                 None \<Rightarrow> None
               | Some d \<Rightarrow> prepend [d] (parse_chars n es)))))"

definition take_digits :: "string \<Rightarrow> string \<times> string" where
  "take_digits s = (takeWhile is_digit s, dropWhile is_digit s)"

definition parse_int_part :: "string \<Rightarrow> (string \<times> string) option" where
  "parse_int_part s =
     (case s of [] \<Rightarrow> None
      | c # cs \<Rightarrow> if c = CHR ''0'' then Some ([c], cs)
                  else if is_digit c then Some (take_digits s) else None)"

definition parse_frac_part :: "string \<Rightarrow> (string \<times> string) option" where
  "parse_frac_part s =
     (case s of [] \<Rightarrow> Some ([], [])
      | c # cs \<Rightarrow> if c = CHR ''.''
                  then (case take_digits cs of (ds, rest) \<Rightarrow>
                          if ds = [] then None else Some (c # ds, rest))
                  else Some ([], s))"

definition parse_exp_part :: "string \<Rightarrow> (string \<times> string) option" where
  "parse_exp_part s =
     (case s of [] \<Rightarrow> Some ([], [])
      | c # cs \<Rightarrow> if c = CHR ''e'' \<or> c = CHR ''E''
                  then (case (case cs of [] \<Rightarrow> ([], cs)
                              | g # gs \<Rightarrow> if g = CHR ''+'' \<or> g = CHR ''-'' then ([g], gs) else ([], cs)) of
                          (sg, cs') \<Rightarrow>
                            (case take_digits cs' of (ds, rest) \<Rightarrow>
                               if ds = [] then None else Some (c # sg @ ds, rest)))
                  else Some ([], s))"

definition parse_number :: "string \<Rightarrow> (string \<times> string) option" where
  "parse_number s =
     (case (case s of c # cs \<Rightarrow> if c = CHR ''-'' then ([c], cs) else ([], s) | [] \<Rightarrow> ([], [])) of
        (sg, s1) \<Rightarrow>
        (case parse_int_part s1 of None \<Rightarrow> None
         | Some (ip, s2) \<Rightarrow>
            (case parse_frac_part s2 of None \<Rightarrow> None
             | Some (fp, s3) \<Rightarrow>
                (case parse_exp_part s3 of None \<Rightarrow> None
                 | Some (ep, s4) \<Rightarrow> Some (sg @ ip @ fp @ ep, s4)))))"

definition skip_ws :: "string \<Rightarrow> string" where
  "skip_ws s = dropWhile is_json_ws s"

definition literal :: "string \<Rightarrow> json \<Rightarrow> string \<Rightarrow> (json \<times> string) option" where
  "literal w v s = (if has_prefix w s then Some (v, drop (length w) s) else None)"

text \<open>
  Values, array elements after \<open>[\<close> and members after \<open>{\<close>. Every call spends one unit of fuel
  and consumes at least one character before the next call of its kind, so twice the length
  of the text is enough.
\<close>

fun parse_value :: "nat \<Rightarrow> string \<Rightarrow> (json \<times> string) option"
and parse_elems :: "nat \<Rightarrow> string \<Rightarrow> (json list \<times> string) option"
and parse_members :: "nat \<Rightarrow> string \<Rightarrow> ((string \<times> json) list \<times> string) option" where
  "parse_value 0 s = None"
| "parse_value (Suc n) s =
     (case skip_ws s of
        [] \<Rightarrow> None
      | c # cs \<Rightarrow>
          (if c = CHR 0x7B then
             (case skip_ws cs of
                [] \<Rightarrow> None
              | d # ds \<Rightarrow> if d = CHR 0x7D then Some (JObj [], ds)
                          else (case parse_members n cs of None \<Rightarrow> None
                                | Some (kvs, rest) \<Rightarrow> Some (JObj kvs, rest)))
           else if c = CHR ''['' then
             (case skip_ws cs of
                [] \<Rightarrow> None
              | d # ds \<Rightarrow> if d = CHR '']'' then Some (JArr [], ds)
                          else (case parse_elems n cs of None \<Rightarrow> None
                                | Some (vs, rest) \<Rightarrow> Some (JArr vs, rest)))
           else if c = CHR 0x22 then
             (case parse_chars (Suc (length cs)) cs of None \<Rightarrow> None
              | Some (str, rest) \<Rightarrow> Some (JStr str, rest))
           else if c = CHR ''t'' then literal ''true'' (JBool True) (c # cs)
           else if c = CHR ''f'' then literal ''false'' (JBool False) (c # cs)
           else if c = CHR ''n'' then literal ''null'' JNull (c # cs)
           else (case parse_number (c # cs) of None \<Rightarrow> None
                 | Some (t, rest) \<Rightarrow> Some (JNum t, rest))))"
| "parse_elems 0 s = None"
| "parse_elems (Suc n) s =
     (case parse_value n s of None \<Rightarrow> None
      | Some (v, rest) \<Rightarrow>
          (case skip_ws rest of
             [] \<Rightarrow> None
           | c # cs \<Rightarrow> if c = CHR '']'' then Some ([v], cs)
                       else if c = CHR '','' then
                         (case parse_elems n cs of None \<Rightarrow> None
                          | Some (vs, rest') \<Rightarrow> Some (v # vs, rest'))
                       else None))"
| "parse_members 0 s = None"
| "parse_members (Suc n) s =
     (case skip_ws s of
        [] \<Rightarrow> None
      | q # qs \<Rightarrow>
          if q \<noteq> CHR 0x22 then None
          else (case parse_chars (Suc (length qs)) qs of None \<Rightarrow> None
            | Some (k, rest) \<Rightarrow>
                (case skip_ws rest of
                   [] \<Rightarrow> None
                 | c # cs \<Rightarrow>
                     if c \<noteq> CHR '':'' then None
                     else (case parse_value n cs of None \<Rightarrow> None
                       | Some (v, rest1) \<Rightarrow>
                           (case skip_ws rest1 of
                              [] \<Rightarrow> None
                            | d # ds \<Rightarrow>
                                if d = CHR 0x7D then Some ([(k, v)], ds)
                                else if d = CHR '','' then
                                  (case parse_members n ds of None \<Rightarrow> None
                                   | Some (kvs, rest') \<Rightarrow> Some ((k, v) # kvs, rest'))
                                else None)))))"

definition unmarshal :: "string \<Rightarrow> json option" where
  "unmarshal s =
     (case parse_value (2 * length s + 2) s of
        None \<Rightarrow> None
      | Some (v, rest) \<Rightarrow> if skip_ws rest = [] then Some v else None)"

text \<open>\<open>json.Unmarshal\<close> of a text into a struct whose fields \<open>d\<close> reads.\<close>

definition unmarshal_into :: "(json \<Rightarrow> 'a option) \<Rightarrow> string \<Rightarrow> 'a option" where
  "unmarshal_into d s = (case unmarshal s of None \<Rightarrow> None | Some j \<Rightarrow> d j)"

lemma unmarshal_examples:
  "unmarshal ''[]'' = Some (JArr [])"
  "unmarshal ''[{}, -12, true ]'' = Some (JArr [JObj [], JNum ''-12'', JBool True])"
  "unmarshal ''[1,]'' = None"
  by code_simp+

section \<open>Printing\<close>

text \<open>
  \<open>json.Marshal\<close>: strings with the escapes Go writes (quotes, backslashes, control characters, the
  three characters of HTML, U+2028 and U+2029, and the escape of U+FFFD for each byte that starts no
  valid rune), arrays and objects without blanks.
\<close>

definition hex_digit :: "nat \<Rightarrow> char" where
  "hex_digit n = (if n < 10 then char_of (48 + n) else char_of (87 + n))"

definition escape_char :: "char \<Rightarrow> string" where
  "escape_char c =
     (let n = of_char c :: nat in
      if n = 34 then [CHR 0x5C, CHR 0x22] else if n = 92 then [CHR 0x5C, CHR 0x5C]
      else if n = 10 then [CHR 0x5C, CHR ''n''] else if n = 13 then [CHR 0x5C, CHR ''r'']
      else if n = 9 then [CHR 0x5C, CHR ''t''] else if n = 8 then [CHR 0x5C, CHR ''b'']
      else if n = 12 then [CHR 0x5C, CHR ''f'']
      else if n < 32 \<or> n = 38 \<or> n = 60 \<or> n = 62
      then [CHR 0x5C, CHR ''u'', CHR ''0'', CHR ''0'', hex_digit (n div 16), hex_digit (n mod 16)]
      else [c])"

definition is_separator :: "string \<Rightarrow> bool" where
  "is_separator r \<longleftrightarrow> r = [CHR 0xE2, CHR 0x80, CHR 0xA8] \<or> r = [CHR 0xE2, CHR 0x80, CHR 0xA9]"

definition escape_separator :: "string \<Rightarrow> string" where
  "escape_separator r =
     [CHR 0x5C, CHR ''u'', CHR ''2'', CHR ''0'', CHR ''2'', (if last r = CHR 0xA8 then CHR ''8'' else CHR ''9'')]"

fun escape_text :: "string \<Rightarrow> string" where
  "escape_text [] = []"
| "escape_text (c # cs) =
     (if is_ascii c then escape_char c @ escape_text cs
      else if rune_length (c # cs) = 1
      then [CHR 0x5C, CHR ''u'', CHR ''f'', CHR ''f'', CHR ''f'', CHR ''d''] @ escape_text cs
      else (let r = take (rune_length (c # cs)) (c # cs)
            in (if is_separator r then escape_separator r else r) @
               escape_text (drop (rune_length (c # cs) - 1) cs)))"

definition quote_string :: "string \<Rightarrow> string" where
  "quote_string s = [CHR 0x22] @ escape_text s @ [CHR 0x22]"

fun json_text :: "json \<Rightarrow> string" where
  "json_text JNull = ''null''"
| "json_text (JBool b) = (if b then ''true'' else ''false'')"
| "json_text (JNum t) = t"
| "json_text (JStr s) = quote_string s"
| "json_text (JArr xs) = ''['' @ join_with '','' (map json_text xs) @ '']''"
| "json_text (JObj kvs) =
     ''{'' @ join_with '','' (map (\<lambda>kv. quote_string (fst kv) @ '':'' @ json_text (snd kv)) kvs) @ ''}''"

text \<open>
  What \<open>json.Marshal\<close> makes of a \<open>json.RawMessage\<close>: blanks between the tokens are dropped, the
  characters of HTML and the two line separators of Unicode are escaped, the rest stays.
\<close>

definition html_escape :: "char \<Rightarrow> string" where
  "html_escape c =
     (if c \<in> {CHR ''<'', CHR ''>'', CHR ''&''} then escape_char c else [c])"

fun compact :: "bool \<Rightarrow> string \<Rightarrow> string" where
  "compact in_str [] = []"
| "compact False (c # cs) =
     (if is_json_ws c then compact False cs else html_escape c @ compact (c = CHR 0x22) cs)"
| "compact True (c # cs) =
     (if c = CHR 0x5C then (case cs of [] \<Rightarrow> [c] | d # ds \<Rightarrow> c # html_escape d @ compact True ds)
      else if c = CHR 0xE2 \<and> 2 \<le> length cs \<and> is_separator (c # take 2 cs)
      then escape_separator (c # take 2 cs) @ compact True (drop 2 cs)
      else html_escape c @ compact (c \<noteq> CHR 0x22) cs)"

lemma dec_over_append:
  "dec_over d k cur (xs @ ys) = (case dec_over d k cur xs of None \<Rightarrow> None | Some c \<Rightarrow> dec_over d k c ys)"
  by (induction d k cur xs rule: dec_over.induct) (auto split: option.split)

end
