(* ===== verification/Event_Log.thy ===== *)
theory Event_Log
  imports Json
begin

text \<open>
  The package \<open>internal/eventlog\<close>: the event types, the payload constructors and validators,
  what \<open>Writer.Write\<close> accepts, \<open>Reader.Read\<close> on the text of a log file, the lookup of the
  last event of a type and the resolution of the log path. A \<open>json.RawMessage\<close> is a value tree,
  \<open>None\<close> when it is empty. A validator returns \<open>None\<close> for Go's \<open>nil\<close> error.
\<close>

section \<open>Event types\<close>

definition EventRunStarted :: string where "EventRunStarted = ''run_started''"
definition EventWorktreeCreated :: string where "EventWorktreeCreated = ''worktree_created''"
definition EventPROpened :: string where "EventPROpened = ''pr_opened''"
definition EventReviewSubmitted :: string where "EventReviewSubmitted = ''review_submitted''"
definition EventRunFinished :: string where "EventRunFinished = ''run_finished''"
definition EventAgentCompleted :: string where "EventAgentCompleted = ''agent_completed''"
definition EventCIWaitFinished :: string where "EventCIWaitFinished = ''ci_wait_finished''"
definition EventPRMerged :: string where "EventPRMerged = ''pr_merged''"
definition EventAutomergeSkipped :: string where "EventAutomergeSkipped = ''automerge_skipped''"
definition EventAutomergeFailed :: string where "EventAutomergeFailed = ''automerge_failed''"
definition EventAutomergeConflictRetry :: string where
  "EventAutomergeConflictRetry = ''automerge_conflict_retry''"
definition EventAutomergeOutOfDateRetry :: string where
  "EventAutomergeOutOfDateRetry = ''automerge_out_of_date_retry''"
definition EventIssueClaimed :: string where "EventIssueClaimed = ''issue_claimed''"
definition EventIssueReleased :: string where "EventIssueReleased = ''issue_released''"
definition EventReviewerPrecheck :: string where "EventReviewerPrecheck = ''reviewer_precheck''"
definition EventStepTransition :: string where "EventStepTransition = ''step_transition''"

lemmas event_type_defs =
  EventRunStarted_def EventWorktreeCreated_def EventPROpened_def EventReviewSubmitted_def
  EventRunFinished_def EventAgentCompleted_def EventCIWaitFinished_def EventPRMerged_def
  EventAutomergeSkipped_def EventAutomergeFailed_def EventAutomergeConflictRetry_def
  EventAutomergeOutOfDateRetry_def EventIssueClaimed_def EventIssueReleased_def
  EventReviewerPrecheck_def EventStepTransition_def

definition all_event_types :: "string list" where
  "all_event_types =
    [EventRunStarted, EventWorktreeCreated, EventPROpened, EventReviewSubmitted,
     EventRunFinished, EventAgentCompleted, EventCIWaitFinished, EventPRMerged,
     EventAutomergeSkipped, EventAutomergeFailed, EventAutomergeConflictRetry,
     EventAutomergeOutOfDateRetry, EventIssueClaimed, EventIssueReleased,
     EventReviewerPrecheck, EventStepTransition]"

type_synonym raw = "json option"

record event =
  ev_type :: string
  ev_ts :: string
  ev_run_id :: string
  ev_turn_id :: int
  ev_payload :: raw

section \<open>Payloads\<close>

definition fails :: "string \<Rightarrow> gerr option" where
  "fails t = Some (msg_err t)"

text \<open>
  The common start of the validators: an empty payload and one that does not decode are
  errors, otherwise the fields are checked.
\<close>

definition with_payload :: "string \<Rightarrow> (json \<Rightarrow> 'a option) \<Rightarrow> raw \<Rightarrow> ('a \<Rightarrow> gerr option) \<Rightarrow> gerr option" where
  "with_payload name d raw check =
     (case raw of None \<Rightarrow> fails (name @ '' payload is empty'')
      | Some j \<Rightarrow> (case d j of None \<Rightarrow> fails (name @ '' payload: invalid JSON'')
                   | Some v \<Rightarrow> check v))"

definition dec_ci_wait :: "json \<Rightarrow> (string \<times> int) option" where
  "dec_ci_wait j = (case (get_str ''result'' j, get_int ''round'' j) of
     (Some r, Some n) \<Rightarrow> Some (r, n) | _ \<Rightarrow> None)"

definition validate_ci_wait_finished :: "raw \<Rightarrow> gerr option" where
  "validate_ci_wait_finished raw =
     with_payload ''ci_wait_finished'' dec_ci_wait raw (\<lambda>(result, _).
       if result \<in> {''green'', ''red'', ''timeout'', ''no_checks''} then None
       else fails (''ci_wait_finished payload: result must be one of green, red, timeout, no_checks''))"

definition marshal_ci_wait_finished :: "string \<Rightarrow> int \<Rightarrow> json" where
  "marshal_ci_wait_finished result round = JObj [(''result'', JStr result), (''round'', jint round)]"

definition dec_issue_claimed :: "json \<Rightarrow> (int \<times> string) option" where
  "dec_issue_claimed j = (case (get_int ''issue_number'' j, get_str ''verify_result'' j) of
     (Some n, Some r) \<Rightarrow> Some (n, r) | _ \<Rightarrow> None)"

definition validate_issue_claimed :: "raw \<Rightarrow> gerr option" where
  "validate_issue_claimed raw =
     with_payload ''issue_claimed'' dec_issue_claimed raw (\<lambda>(n, _).
       if n \<le> 0 then fails ''issue_claimed payload: issue_number is required'' else None)"

definition marshal_issue_claimed :: "int \<Rightarrow> string \<Rightarrow> json" where
  "marshal_issue_claimed n r = JObj [(''issue_number'', jint n), (''verify_result'', JStr r)]"

definition dec_issue_released :: "json \<Rightarrow> (int \<times> string) option" where
  "dec_issue_released j = (case (get_int ''issue_number'' j, get_str ''reason'' j) of
     (Some n, Some r) \<Rightarrow> Some (n, r) | _ \<Rightarrow> None)"

definition validate_issue_released :: "raw \<Rightarrow> gerr option" where
  "validate_issue_released raw =
     with_payload ''issue_released'' dec_issue_released raw (\<lambda>(n, reason).
       if n \<le> 0 then fails ''issue_released payload: issue_number is required''
       else if reason \<in> {''done'', ''failed'', ''abandoned''} then None
       else fails ''issue_released payload: reason must be one of done, failed, abandoned'')"

definition marshal_issue_released :: "int \<Rightarrow> string \<Rightarrow> json" where
  "marshal_issue_released n reason = JObj [(''issue_number'', jint n), (''reason'', JStr reason)]"

definition dec_conflict_retry :: "json \<Rightarrow> (string list \<times> string \<times> int \<times> int) option" where
  "dec_conflict_retry j =
     (case (get_list (dec_str []) ''conflictedFiles'' j, get_str ''result'' j,
            get_int ''turnId'' j, get_int ''attempt'' j) of
        (Some fs, Some r, Some t, Some a) \<Rightarrow> Some (fs, r, t, a) | _ \<Rightarrow> None)"

definition validate_conflict_retry :: "raw \<Rightarrow> gerr option" where
  "validate_conflict_retry raw =
     with_payload ''automerge_conflict_retry'' dec_conflict_retry raw (\<lambda>(files, result, _, _).
       if files = [] then fails ''automerge_conflict_retry payload: conflictedFiles must be non-empty''
       else if result \<in> {''resolved'', ''unresolved''} then None
       else fails ''automerge_conflict_retry payload: result must be one of resolved, unresolved'')"

definition jstrs :: "string list \<Rightarrow> json" where
  "jstrs xs = JArr (map JStr xs)"

text \<open>A nil slice is marshalled as \<open>null\<close>; \<open>parseConflictedFiles\<close> returns nil for no files.\<close>

definition marshal_conflict_retry :: "string list \<Rightarrow> string \<Rightarrow> int \<Rightarrow> int \<Rightarrow> json" where
  "marshal_conflict_retry files result turn attempt =
     JObj [(''conflictedFiles'', if files = [] then JNull else jstrs files),
           (''result'', JStr result), (''turnId'', jint turn), (''attempt'', jint attempt)]"

definition marshal_agent_completed :: "string \<Rightarrow> int \<Rightarrow> string \<Rightarrow> string \<Rightarrow> json" where
  "marshal_agent_completed role code activity errpath =
     JObj [(''role'', JStr role), (''exitCode'', jint code),
           (''activityPath'', JStr activity), (''stderrPath'', JStr errpath)]"

definition dec_step_transition :: "json \<Rightarrow> (string \<times> string \<times> string \<times> bool \<times> int) option" where
  "dec_step_transition j =
     (case (get_str ''from'' j, get_str ''event'' j, get_str ''to'' j,
            get_bool ''guarded'' j, get_int ''seq'' j) of
        (Some f, Some e, Some t, Some g, Some n) \<Rightarrow> Some (f, e, t, g, n) | _ \<Rightarrow> None)"

definition validate_step_transition :: "raw \<Rightarrow> gerr option" where
  "validate_step_transition raw =
     with_payload ''step_transition'' dec_step_transition raw (\<lambda>(f, e, t, _, seq).
       if f = [] then fails ''step_transition payload: from is required''
       else if e = [] then fails ''step_transition payload: event is required''
       else if t = [] then fails ''step_transition payload: to is required''
       else if seq \<le> 0 then fails ''step_transition payload: seq must be >= 1''
       else None)"

definition marshal_step_transition :: "string \<Rightarrow> string \<Rightarrow> string \<Rightarrow> bool \<Rightarrow> int \<Rightarrow> json" where
  "marshal_step_transition f e t g seq =
     JObj [(''from'', JStr f), (''event'', JStr e), (''to'', JStr t),
           (''guarded'', JBool g), (''seq'', jint seq)]"

definition validate_pr_opened :: "raw \<Rightarrow> gerr option" where
  "validate_pr_opened raw =
     with_payload ''pr_opened'' (get_str ''prNumber'') raw (\<lambda>n.
       if n = [] then fails ''pr_opened payload: prNumber field is required'' else None)"

record review_data =
  rd_verdict :: string
  rd_confidence :: string
  rd_review_id :: string
  rd_inline_count :: "int option"
  rd_head_sha :: string
  rd_review_round :: int

definition dec_review :: "json \<Rightarrow> review_data option" where
  "dec_review j =
     (case (get_str ''verdict'' j, get_str ''confidence'' j, get_str ''reviewId'' j,
            get_int_ptr ''inlineCommentCount'' j, get_str ''headSha'' j, get_int ''reviewRound'' j) of
        (Some v, Some c, Some i, Some n, Some h, Some r) \<Rightarrow>
          Some \<lparr>rd_verdict = v, rd_confidence = c, rd_review_id = i, rd_inline_count = n,
                rd_head_sha = h, rd_review_round = r\<rparr>
      | _ \<Rightarrow> None)"

definition validate_review_submitted :: "raw \<Rightarrow> gerr option" where
  "validate_review_submitted raw =
     with_payload ''review_submitted'' dec_review raw (\<lambda>d.
       if rd_verdict d \<notin> {''approved'', ''changes_requested''}
       then fails ''review_submitted payload: verdict''
       else if rd_confidence d \<notin> {''high'', ''medium'', ''low''}
       then fails ''review_submitted payload: confidence''
       else if rd_review_id d = [] then fails ''review_submitted payload: reviewId is required''
       else (case rd_inline_count d of
               None \<Rightarrow> fails ''review_submitted payload: inlineCommentCount is required''
             | Some n \<Rightarrow> if n < 0 then fails ''review_submitted payload: inlineCommentCount must be >= 0''
                         else None))"

lemmas validator_defs =
  validate_ci_wait_finished_def validate_issue_claimed_def validate_issue_released_def
  validate_conflict_retry_def validate_step_transition_def validate_pr_opened_def
  validate_review_submitted_def with_payload_def

definition validate_event_payload :: "event \<Rightarrow> gerr option" where
  "validate_event_payload e =
     (if ev_type e = EventPROpened then validate_pr_opened (ev_payload e)
      else if ev_type e = EventReviewSubmitted then validate_review_submitted (ev_payload e)
      else if ev_type e = EventCIWaitFinished then validate_ci_wait_finished (ev_payload e)
      else if ev_type e = EventIssueClaimed then validate_issue_claimed (ev_payload e)
      else if ev_type e = EventIssueReleased then validate_issue_released (ev_payload e)
      else if ev_type e = EventAutomergeConflictRetry then validate_conflict_retry (ev_payload e)
      else if ev_type e = EventStepTransition then validate_step_transition (ev_payload e)
      else None)"

section \<open>Writing\<close>

text \<open>
  \<open>Writer.Write\<close> on the log's events: a payload that does not validate is refused before
  anything is written; \<open>io_ok\<close> says whether the \<open>write(2)\<close> succeeds.
\<close>

definition log_write :: "bool \<Rightarrow> event \<Rightarrow> event list \<Rightarrow> gerr option \<times> event list" where
  "log_write io_ok e log =
     (case validate_event_payload e of
        Some err \<Rightarrow> (Some err, log)
      | None \<Rightarrow> if io_ok then (None, log @ [e]) else (fails ''failed to write event'', log))"

section \<open>Reading\<close>

definition last_event_of_type :: "event list \<Rightarrow> string \<Rightarrow> event result" where
  "last_event_of_type events ty =
     (case find_last (\<lambda>e. ev_type e = ty) events of
        Some e \<Rightarrow> Inr e
      | None \<Rightarrow> Inl (msg_err (''EVENT_TYPE_NOT_FOUND: no event of type '' @ ty @ '' found in log'')))"

definition dec_event :: "json \<Rightarrow> event option" where
  "dec_event j =
     (case (get_str ''type'' j, get_str ''ts'' j, get_str ''runId'' j, get_int ''turnId'' j,
            get_field (\<lambda>_ v. Some (Some v)) None ''payload'' j) of
        (Some ty, Some ts, Some r, Some t, Some p) \<Rightarrow>
          Some \<lparr>ev_type = ty, ev_ts = ts, ev_run_id = r, ev_turn_id = t, ev_payload = p\<rparr>
      | _ \<Rightarrow> None)"

text \<open>
  \<open>bufio.Scanner\<close> with its default limits: the lines of the text without their line ends and
  without a last empty one; a line of 65536 bytes or more stops the scan with an error.
\<close>

definition max_scan_token :: nat where
  "max_scan_token = 65536"

definition drop_cr :: "string \<Rightarrow> string" where
  "drop_cr l = (if l \<noteq> [] \<and> last l = CHR 0x0D then butlast l else l)"

definition scan_lines :: "string \<Rightarrow> string list result" where
  "scan_lines text =
     (let ls = split_on newline text;
          ls' = (if last ls = [] then butlast ls else ls)
      in if \<exists>l\<in>set ls'. length l \<ge> max_scan_token
         then Inl (msg_err ''bufio.Scanner: token too long'')
         else Inr (map drop_cr ls'))"

fun parse_lines :: "nat \<Rightarrow> string list \<Rightarrow> event list result" where
  "parse_lines n [] = Inr []"
| "parse_lines n (l # ls) =
     (let t = trim_space l in
      if t = [] then Inl (msg_err (''MALFORMED_LINE: malformed event log line '' @ itoa (int n) @ '': empty line''))
      else (case unmarshal_into dec_event t of
              None \<Rightarrow> Inl (msg_err (''MALFORMED_LINE: malformed event log line '' @ itoa (int n)))
            | Some e \<Rightarrow> (case parse_lines (Suc n) ls of
                           Inl err \<Rightarrow> Inl err | Inr es \<Rightarrow> Inr (e # es))))"

definition drop_blank_last :: "string list \<Rightarrow> string list" where
  "drop_blank_last ls = (if ls \<noteq> [] \<and> trim_space (last ls) = [] then butlast ls else ls)"

text \<open>\<open>Reader.Read\<close>: \<open>None\<close> is a file that does not exist.\<close>

definition read_log :: "string option \<Rightarrow> event list result" where
  "read_log file =
     (case file of
        None \<Rightarrow> Inl (msg_err ''LOG_FILE_NOT_FOUND'')
      | Some text \<Rightarrow>
          (case scan_lines text of
             Inl e \<Rightarrow> Inl (wrap_err ''failed to read event log file: '' e)
           | Inr ls \<Rightarrow> parse_lines 1 (drop_blank_last ls)))"

section \<open>Where the log is\<close>

definition resolve_context ::
    "string \<Rightarrow> string \<Rightarrow> string \<Rightarrow> string \<Rightarrow> (string \<times> string) result" where
  "resolve_context env_event_log env_run_id home project =
     (if env_event_log \<noteq> [] \<and> env_run_id \<noteq> [] then Inr (env_run_id, env_event_log)
      else if env_event_log = [] \<and> env_run_id \<noteq> [] \<and> project \<noteq> []
      then Inr (env_run_id, path_join [home, ''.golemic'', project, ''runs'', env_run_id, ''events.jsonl''])
      else if env_event_log = [] \<and> env_run_id = []
      then Inl (msg_err ''missing required environment variables: GOLEMIC_RUN_ID, GOLEMIC_EVENT_LOG'')
      else Inl (msg_err ''insufficient context to determine event log path''))"

section \<open>Lemmas\<close>

lemma dec_over_distinct [simp]:
  "dec_over d k cur ((k, v) # kvs) = (case d cur v of None \<Rightarrow> None | Some c \<Rightarrow> dec_over d k c kvs)"
  by (simp add: key_matches_def)

definition int64 :: "int \<Rightarrow> bool" where
  "int64 i \<longleftrightarrow> - max_int64 - 1 \<le> i \<and> i \<le> max_int64"

lemma dec_int_jint [simp]: "int64 i \<Longrightarrow> dec_int cur (jint i) = Some i"
  by (simp add: dec_int_def jint_def int64_def atoi_itoa)

lemma dec_str_JStr [simp]: "dec_str cur (JStr s) = Some s"
  by (simp add: dec_str_def)

lemma dec_bool_JBool [simp]: "dec_bool cur (JBool b) = Some b"
  by (simp add: dec_bool_def)

lemma dec_all_JStr [simp]: "dec_all (dec_str []) (map JStr xs) = Some xs"
  by (induction xs) simp_all

lemma log_write_append_only: "\<exists>es. snd (log_write io e log) = log @ es"
  by (auto simp: log_write_def split: option.splits)

lemma log_write_ok_iff:
  "fst (log_write io e log) = None \<longleftrightarrow> validate_event_payload e = None \<and> io"
  by (auto simp: log_write_def fails_def split: option.splits)

lemma log_write_ok: "fst (log_write io e log) = None \<Longrightarrow> snd (log_write io e log) = log @ [e]"
  by (auto simp: log_write_def fails_def split: option.splits if_splits)

text \<open>Each constructor's payload decodes to what went in.\<close>

lemma dec_ci_wait_marshal: "int64 n \<Longrightarrow> dec_ci_wait (marshal_ci_wait_finished r n) = Some (r, n)"
  by (simp add: dec_ci_wait_def marshal_ci_wait_finished_def get_str_def get_int_def get_field_def
      key_matches_def to_lower_def to_lower_char_def)

lemma dec_issue_claimed_marshal: "int64 n \<Longrightarrow> dec_issue_claimed (marshal_issue_claimed n r) = Some (n, r)"
  by (simp add: dec_issue_claimed_def marshal_issue_claimed_def get_str_def get_int_def get_field_def
      key_matches_def to_lower_def to_lower_char_def)

lemma dec_issue_released_marshal:
  "int64 n \<Longrightarrow> dec_issue_released (marshal_issue_released n r) = Some (n, r)"
  by (simp add: dec_issue_released_def marshal_issue_released_def get_str_def get_int_def
      get_field_def key_matches_def to_lower_def to_lower_char_def)

lemma dec_step_transition_marshal:
  "int64 n \<Longrightarrow> dec_step_transition (marshal_step_transition f e t g n) = Some (f, e, t, g, n)"
  by (simp add: dec_step_transition_def marshal_step_transition_def get_str_def get_int_def
      get_bool_def get_field_def key_matches_def to_lower_def to_lower_char_def)

lemma dec_conflict_retry_marshal:
  "int64 t \<Longrightarrow> int64 a \<Longrightarrow>
     dec_conflict_retry (marshal_conflict_retry fs r t a) = Some (fs, r, t, a)"
  by (simp add: dec_conflict_retry_def marshal_conflict_retry_def jstrs_def get_str_def get_int_def
      get_list_def dec_list_def get_field_def key_matches_def to_lower_def to_lower_char_def)

lemma find_last_validated:
  assumes "\<forall>e\<in>set log. validate_event_payload e = None"
    and "last_event_of_type log ty = Inr e"
  shows "validate_event_payload e = None \<and> ev_type e = ty \<and> e \<in> set log"
  using assms by (auto simp: last_event_of_type_def split: option.splits dest: find_last_in)

end
