(* ===== verification/Token_Usage.thy ===== *)
theory Token_Usage
  imports Json
begin

text \<open>
  \<open>internal/runner/tokenusage.go\<close>: the usage record of an invocation and the aggregate by role and
  round that the \<open>run_finished\<close> event carries. The aggregate is a Go map of maps; here it is an
  association list with distinct keys in the order of first use, and its JSON form has the keys
  sorted as \<open>json.Marshal\<close> writes them. Counts are Go integers far from their bounds.
\<close>

record token_usage =
  tu_input :: int
  tu_output :: int
  tu_cache_read :: int
  tu_cache_write :: int
  tu_turns :: int

record invocation_usage =
  iu_role :: string
  iu_round :: int
  iu_attempt :: int
  iu_usage :: token_usage

definition usage_zero :: token_usage where
  "usage_zero = \<lparr>tu_input = 0, tu_output = 0, tu_cache_read = 0, tu_cache_write = 0, tu_turns = 0\<rparr>"

definition usage_add :: "token_usage \<Rightarrow> token_usage \<Rightarrow> token_usage" where
  "usage_add a b =
     \<lparr>tu_input = tu_input a + tu_input b, tu_output = tu_output a + tu_output b,
      tu_cache_read = tu_cache_read a + tu_cache_read b,
      tu_cache_write = tu_cache_write a + tu_cache_write b, tu_turns = tu_turns a + tu_turns b\<rparr>"

type_synonym usage_agg = "string \<Rightarrow> string \<Rightarrow> token_usage option"

text \<open>One entry added to the aggregate: a missing key counts as the zero usage.\<close>

definition agg_add :: "usage_agg \<Rightarrow> invocation_usage \<Rightarrow> usage_agg" where
  "agg_add agg e =
     (let cur = (case agg (iu_role e) (itoa (iu_round e)) of Some u \<Rightarrow> u | None \<Rightarrow> usage_zero)
      in agg(iu_role e := (agg (iu_role e))(itoa (iu_round e) \<mapsto> usage_add cur (iu_usage e))))"

definition build_token_usage_aggregate :: "invocation_usage list \<Rightarrow> usage_agg" where
  "build_token_usage_aggregate log = foldl agg_add (\<lambda>_ _. None) log"

section \<open>The aggregate as JSON\<close>

definition usage_json :: "token_usage \<Rightarrow> json" where
  "usage_json u =
     JObj [(''inputTokens'', jint (tu_input u)), (''outputTokens'', jint (tu_output u)),
           (''cacheReadTokens'', jint (tu_cache_read u)), (''cacheWriteTokens'', jint (tu_cache_write u)),
           (''turns'', jint (tu_turns u))]"

definition role_json :: "usage_agg \<Rightarrow> string \<Rightarrow> invocation_usage list \<Rightarrow> json" where
  "role_json agg role log =
     JObj (map (\<lambda>k. (k, usage_json (case agg role k of Some u \<Rightarrow> u | None \<Rightarrow> usage_zero)))
       (sort_strings (remdups (map (\<lambda>e. itoa (iu_round e)) (filter (\<lambda>e. iu_role e = role) log)))))"

definition aggregate_json :: "invocation_usage list \<Rightarrow> json" where
  "aggregate_json log =
     JObj (map (\<lambda>r. (r, role_json (build_token_usage_aggregate log) r log))
       (sort_strings (remdups (map iu_role log))))"

section \<open>Lemmas\<close>

lemma usage_add_zero [simp]: "usage_add usage_zero u = u" "usage_add u usage_zero = u"
  by (simp_all add: usage_add_def usage_zero_def)

lemma usage_add_assoc: "usage_add (usage_add a b) c = usage_add a (usage_add b c)"
  by (simp add: usage_add_def)

definition usage_total :: "invocation_usage list \<Rightarrow> token_usage" where
  "usage_total log = foldr (\<lambda>e u. usage_add (iu_usage e) u) log usage_zero"

lemma usage_total_snoc: "usage_total (log @ [e]) = usage_add (usage_total log) (iu_usage e)"
proof -
  have "foldr (\<lambda>e u. usage_add (iu_usage e) u) log (usage_add (iu_usage e) usage_zero) =
      usage_add (foldr (\<lambda>e u. usage_add (iu_usage e) u) log usage_zero) (iu_usage e)"
    by (induction log) (simp_all add: usage_add_assoc)
  then show ?thesis by (simp add: usage_total_def)
qed

definition entries_for :: "string \<Rightarrow> int \<Rightarrow> invocation_usage list \<Rightarrow> invocation_usage list" where
  "entries_for role round log = filter (\<lambda>e. iu_role e = role \<and> iu_round e = round) log"

section \<open>Properties\<close>

text \<open>
  The token-usage aggregate of a run has an entry for a role and a round exactly when some
  invocation of that role ran in that round, and the entry is the sum of the usage of all of
  its attempts, with no invocation counted under another role or round.
\<close>

theorem usage_aggregate_sums:
  "build_token_usage_aggregate log role (itoa round) =
     (if entries_for role round log = [] then None else Some (usage_total (entries_for role round log)))"
proof (induction log rule: rev_induct)
  case Nil
  show ?case by (simp add: build_token_usage_aggregate_def entries_for_def)
next
  case (snoc e log)
  have step: "build_token_usage_aggregate (log @ [e]) = agg_add (build_token_usage_aggregate log) e"
    by (simp add: build_token_usage_aggregate_def)
  show ?case
  proof (cases "iu_role e = role \<and> iu_round e = round")
    case True
    then have "entries_for role round (log @ [e]) = entries_for role round log @ [e]"
      by (simp add: entries_for_def)
    with True snoc step show ?thesis
      by (auto simp: agg_add_def Let_def usage_total_snoc) (simp add: usage_total_def)
  next
    case False
    then have "entries_for role round (log @ [e]) = entries_for role round log"
      by (auto simp: entries_for_def)
    with False snoc step show ?thesis by (auto simp: agg_add_def Let_def itoa_inj)
  qed
qed

end
