(* ===== verification/World.thy ===== *)
theory World
  imports Event_Log Token_Usage "HOL-Library.State_Monad"
begin

text \<open>
  The runner's state and the outside world. The runner talks to git, gh, the agent processes,
  the file system and the clock; none of these is under src/, so what they answer is the
  parameter \<^term>\<open>E\<close> of every operation, a record of functions of the whole history of calls.
  The history (\<open>rs_trace\<close>) records every call with its answer, in order: it is what the safety
  properties speak about. The mutable fields of \<open>Runner\<close> (\<open>turnCounter\<close>, \<open>cachedNWO\<close>) and the
  run's event log are the rest of the state; the fields set once in \<open>initRun\<close> are the record
  \<open>rconfig\<close>.

  Operations are in the library's state monad. \<open>wp\<close> computes what an operation returns and
  leaves; the locale \<open>state_preorder\<close> lifts any reflexive and transitive relation between
  states from the primitive calls to every composed operation.

  Not in the state: what is printed on stderr and stdout, telemetry spans and progress lines,
  none of which the runner reads back.
\<close>

section \<open>Calls\<close>

text \<open>\<open>Cmd env dir argv\<close>: the four \<open>Executor\<close> methods differ in the first two only.\<close>

datatype cmd = Cmd (cmd_env: "(string \<times> string) list") (cmd_dir: string) (cmd_argv: "string list")

datatype agent_err =
    AgentTimeout
  | AgentStalled
  | AgentThinkingLoop
  | AgentChainExhausted "(string \<times> string) list"   \<comment> \<open>the model and the reason of each attempt\<close>
  | AgentOther string

text \<open>The fields of \<open>agent.RoleConfig\<close> that identify one invocation.\<close>

record agent_cfg =
  ac_role :: string
  ac_prompt :: string
  ac_dir :: string
  ac_model :: string
  ac_turn :: int
  ac_round :: int
  ac_attempt :: int
  ac_tools :: "string list"

record dev_done =
  dd_commit_msg :: string
  dd_pr_title :: string
  dd_pr_body :: string

text \<open>What the runner asks the GM broker after a dev invocation.\<close>

record dev_broker =
  db_dev_done :: "dev_done option"
  db_accept_fp :: "string option"
  db_current_fp :: "string option"
  db_recovered :: "dev_done option"
  db_tree_green :: bool
  db_gate_rejected :: bool
  db_gate_reason :: string
  db_terminal_status :: "string option"
  db_terminal_message :: "string option"
  db_last_check_output :: string

record review_params =
  rp_verdict :: string
  rp_body :: string
  rp_confidence :: string

text \<open>\<open>reviewerInvocationState\<close>: what it captures after a reviewer invocation.\<close>

record reviewer_state =
  rv_params :: "review_params option"
  rv_gate_rejected :: bool
  rv_gate_msg :: string
  rv_pending_id :: string

text \<open>
  The result of one agent process: exit code, error, the broker's state and the events the
  process itself appended to the log (it knows the path).
\<close>

record agent_reply =
  ar_exit :: int
  ar_err :: "agent_err option"
  ar_stdout :: string
  ar_stderr :: string
  ar_dev :: dev_broker
  ar_reviewer :: reviewer_state
  ar_events :: "event list"

datatype call =
    CExec cmd "string result"
  | CAgent agent_cfg agent_reply
  | CStat string bool
  | CTicks nat
  | CLogRead bool
  | CLogOpen bool
  | CLogWrite event bool
  | CBroker string bool
  | CAgentFile string "(string \<times> string) result"
  | CPrompt string "string result"
  | CReadEntry string "string result"
  | CVerify string string "string \<times> string \<times> int"
  | CMkTemp bool
  | CMkDir string bool
  | CRemoveAll string bool

record env =
  e_exec :: "call list \<Rightarrow> cmd \<Rightarrow> string result"
  e_agent :: "call list \<Rightarrow> agent_cfg \<Rightarrow> agent_reply"
  e_stat :: "call list \<Rightarrow> string \<Rightarrow> bool"
  e_ticks :: "call list \<Rightarrow> nat"
  e_log_readable :: "call list \<Rightarrow> bool"
  e_log_open :: "call list \<Rightarrow> bool"
  e_log_io :: "call list \<Rightarrow> bool"
  e_broker :: "call list \<Rightarrow> string \<Rightarrow> bool"
  e_agent_file :: "call list \<Rightarrow> string \<Rightarrow> (string \<times> string) result"
  e_prompt :: "call list \<Rightarrow> string \<Rightarrow> string result"
  e_read_entry :: "call list \<Rightarrow> string \<Rightarrow> string result"
  e_verify :: "call list \<Rightarrow> string \<Rightarrow> string \<Rightarrow> string \<times> string \<times> int"
  e_mktemp :: "call list \<Rightarrow> bool"
  e_mkdir :: "call list \<Rightarrow> string \<Rightarrow> bool"
  e_remove_all :: "call list \<Rightarrow> string \<Rightarrow> bool"
  e_usage :: "call list \<Rightarrow> string \<Rightarrow> token_usage"
  e_now :: "call list \<Rightarrow> string"
  e_elapsed :: "call list \<Rightarrow> int"
  e_sha256 :: "string \<Rightarrow> string"

record rconfig =
  r_home :: string
  r_repo_root :: string
  r_project :: string
  r_run_id :: string
  r_branch :: string
  r_issue_num :: int
  r_issue_title :: string
  r_issue_state :: string
  r_issue_labels :: "string list"
  r_dev_token :: string
  r_reviewer_token :: string
  r_verify_command :: string
  r_max_review_rounds :: int
  r_max_conflict_attempts :: int
  r_cbm_enabled :: bool
  r_clean :: bool
  r_resume :: bool

record rstate =
  rs_turn :: int
  rs_nwo :: string
  rs_log :: "event list"
  rs_trace :: "call list"
  rs_usage :: "invocation_usage list"

type_synonym 'a M = "(rstate, 'a) state"

section \<open>Primitive operations\<close>

abbreviation ret :: "'a \<Rightarrow> 'a M" where
  "ret \<equiv> State_Monad.return"

definition call_env :: "(call list \<Rightarrow> 'a) \<Rightarrow> ('a \<Rightarrow> call) \<Rightarrow> 'a M" where
  "call_env f mk = State (\<lambda>s. let a = f (rs_trace s) in (a, s\<lparr>rs_trace := rs_trace s @ [mk a]\<rparr>))"

definition exec :: "env \<Rightarrow> cmd \<Rightarrow> string result M" where
  "exec E c = call_env (\<lambda>t. e_exec E t c) (CExec c)"

text \<open>\<open>Executor.Run\<close>, \<open>RunInDir\<close> and \<open>RunWithEnvInDir\<close> with a \<open>GH_TOKEN\<close>.\<close>

definition run_cmd :: "env \<Rightarrow> string list \<Rightarrow> string result M" where
  "run_cmd E argv = exec E (Cmd [] [] argv)"

definition run_in_dir :: "env \<Rightarrow> string \<Rightarrow> string list \<Rightarrow> string result M" where
  "run_in_dir E dir argv = exec E (Cmd [] dir argv)"

definition run_with_token :: "env \<Rightarrow> string \<Rightarrow> string \<Rightarrow> string list \<Rightarrow> string result M" where
  "run_with_token E token dir argv = exec E (Cmd [(''GH_TOKEN'', token)] dir argv)"

definition stat_path :: "env \<Rightarrow> string \<Rightarrow> bool M" where
  "stat_path E p = call_env (\<lambda>t. e_stat E t p) (CStat p)"

definition ticks_before_deadline :: "env \<Rightarrow> nat M" where
  "ticks_before_deadline E = call_env (e_ticks E) CTicks"

definition start_broker :: "env \<Rightarrow> string \<Rightarrow> bool M" where
  "start_broker E sock = call_env (\<lambda>t. e_broker E t sock) (CBroker sock)"

definition agent_file :: "env \<Rightarrow> string \<Rightarrow> (string \<times> string) result M" where
  "agent_file E role = call_env (\<lambda>t. e_agent_file E t role) (CAgentFile role)"

definition render_prompt :: "env \<Rightarrow> string \<Rightarrow> string result M" where
  "render_prompt E kind = call_env (\<lambda>t. e_prompt E t kind) (CPrompt kind)"

definition read_entry :: "env \<Rightarrow> string \<Rightarrow> string result M" where
  "read_entry E path = call_env (\<lambda>t. e_read_entry E t path) (CReadEntry path)"

definition run_verify :: "env \<Rightarrow> string \<Rightarrow> string \<Rightarrow> (string \<times> string \<times> int) M" where
  "run_verify E dir command = call_env (\<lambda>t. e_verify E t dir command) (CVerify dir command)"

definition make_temp :: "env \<Rightarrow> bool M" where
  "make_temp E = call_env (e_mktemp E) CMkTemp"

definition make_dir :: "env \<Rightarrow> string \<Rightarrow> bool M" where
  "make_dir E p = call_env (\<lambda>t. e_mkdir E t p) (CMkDir p)"

definition remove_all :: "env \<Rightarrow> string \<Rightarrow> bool M" where
  "remove_all E p = call_env (\<lambda>t. e_remove_all E t p) (CRemoveAll p)"

text \<open>\<open>recordTokenUsage\<close> of what \<open>parseActivityUsage\<close> read from the activity file.\<close>

definition record_token_usage :: "env \<Rightarrow> string \<Rightarrow> int \<Rightarrow> int \<Rightarrow> string \<Rightarrow> unit M" where
  "record_token_usage E role round attempt path = State (\<lambda>s.
     ((), s\<lparr>rs_usage := rs_usage s @ [\<lparr>iu_role = role, iu_round = round, iu_attempt = attempt,
                                    iu_usage = e_usage E (rs_trace s) path\<rparr>]\<rparr>))"

definition get_usage :: "invocation_usage list M" where
  "get_usage = State (\<lambda>s. (rs_usage s, s))"

definition now :: "env \<Rightarrow> string M" where
  "now E = State (\<lambda>s. (e_now E (rs_trace s), s))"

definition elapsed_ms :: "env \<Rightarrow> int M" where
  "elapsed_ms E = State (\<lambda>s. (e_elapsed E (rs_trace s), s))"

text \<open>An agent process: its events end up at the end of the log.\<close>

definition run_agent :: "env \<Rightarrow> agent_cfg \<Rightarrow> agent_reply M" where
  "run_agent E cfg = State (\<lambda>s.
     let r = e_agent E (rs_trace s) cfg
     in (r, s\<lparr>rs_trace := rs_trace s @ [CAgent cfg r], rs_log := rs_log s @ ar_events r\<rparr>))"

definition log_open :: "env \<Rightarrow> bool M" where
  "log_open E = call_env (e_log_open E) CLogOpen"

text \<open>\<open>Reader.Read\<close> on the run's log.\<close>

definition read_events :: "env \<Rightarrow> event list result M" where
  "read_events E = State (\<lambda>s.
     let ok = e_log_readable E (rs_trace s)
     in ((if ok then Inr (rs_log s) else Inl (msg_err ''failed to open event log file'')),
         s\<lparr>rs_trace := rs_trace s @ [CLogRead ok]\<rparr>))"

text \<open>\<open>Writer.Write\<close>: \<open>None\<close> is success.\<close>

definition write_event :: "env \<Rightarrow> event \<Rightarrow> gerr option M" where
  "write_event E e = State (\<lambda>s.
     let (err, log) = log_write (e_log_io E (rs_trace s)) e (rs_log s)
     in (err, s\<lparr>rs_log := log, rs_trace := rs_trace s @ [CLogWrite e (err = None)]\<rparr>))"

definition get_turn :: "int M" where
  "get_turn = State (\<lambda>s. (rs_turn s, s))"

definition incr_turn :: "unit M" where
  "incr_turn = State (\<lambda>s. ((), s\<lparr>rs_turn := rs_turn s + 1\<rparr>))"

definition get_nwo :: "string M" where
  "get_nwo = State (\<lambda>s. (rs_nwo s, s))"

definition set_nwo :: "string \<Rightarrow> unit M" where
  "set_nwo n = State (\<lambda>s. ((), s\<lparr>rs_nwo := n\<rparr>))"

text \<open>An event with the run's id, stamped with the clock; \<open>turn\<close> is 0 where the source sets none.\<close>

definition write_run_event :: "env \<Rightarrow> rconfig \<Rightarrow> string \<Rightarrow> int \<Rightarrow> json \<Rightarrow> gerr option M" where
  "write_run_event E R ty turn payload =
     do {
       ts \<leftarrow> now E;
       write_event E \<lparr>ev_type = ty, ev_ts = ts, ev_run_id = r_run_id R, ev_turn_id = turn,
                      ev_payload = Some payload\<rparr>
     }"

text \<open>
  \<open>if err != nil { h } ; k\<close>: the branch most of the source's calls end in.
\<close>

definition handle :: "'a result M \<Rightarrow> (gerr \<Rightarrow> 'b M) \<Rightarrow> ('a \<Rightarrow> 'b M) \<Rightarrow> 'b M" where
  "handle m h k = do { r \<leftarrow> m; (case r of Inl e \<Rightarrow> h e | Inr v \<Rightarrow> k v) }"

definition after :: "'a M \<Rightarrow> 'b M \<Rightarrow> 'b M" where
  "after m n = do { _ \<leftarrow> m; n }"

text \<open>The paths the runner builds from its configuration.\<close>

definition golemic_dir :: "rconfig \<Rightarrow> string" where
  "golemic_dir R = path_join [r_home R, ''.golemic'', r_project R]"

definition dev_worktree_path :: "rconfig \<Rightarrow> string" where
  "dev_worktree_path R = path_join [golemic_dir R, ''worktrees'', ''issue-'' @ itoa (r_issue_num R)]"

definition review_worktree_path :: "rconfig \<Rightarrow> string" where
  "review_worktree_path R =
     path_join [golemic_dir R, ''worktrees'', ''issue-'' @ itoa (r_issue_num R) @ ''-review'']"

definition runs_dir :: "rconfig \<Rightarrow> string" where
  "runs_dir R = path_join [r_home R, ''.golemic'', r_project R, ''runs'']"

text \<open>An event written through a writer opened for it; an open failure is an error.\<close>

definition append_event :: "env \<Rightarrow> rconfig \<Rightarrow> string \<Rightarrow> json \<Rightarrow> gerr option M" where
  "append_event E R ty payload =
     do {
       ok \<leftarrow> log_open E;
       if \<not> ok then ret (Some (msg_err ''failed to open event log file''))
       else do { t \<leftarrow> get_turn; write_run_event E R ty t payload }
     }"

text \<open>\<open>writeAgentCompleted\<close>: errors are dropped.\<close>

definition write_agent_completed :: "env \<Rightarrow> rconfig \<Rightarrow> string \<Rightarrow> int \<Rightarrow> string \<Rightarrow> string \<Rightarrow> unit M" where
  "write_agent_completed E R role code activity errpath =
     do {
       _ \<leftarrow> append_event E R EventAgentCompleted (marshal_agent_completed role code activity errpath);
       ret ()
     }"

section \<open>Running an operation\<close>

definition run_value :: "'a M \<Rightarrow> rstate \<Rightarrow> 'a" where
  "run_value m s = fst (run_state m s)"

definition final_state :: "'a M \<Rightarrow> rstate \<Rightarrow> rstate" where
  "final_state m s = snd (run_state m s)"

definition wp :: "'a M \<Rightarrow> ('a \<Rightarrow> rstate \<Rightarrow> bool) \<Rightarrow> rstate \<Rightarrow> bool" where
  "wp m Q s \<longleftrightarrow> Q (run_value m s) (final_state m s)"

lemma run_value_return [simp]: "run_value (ret a) s = a"
  by (simp add: run_value_def State_Monad.return_def)

lemma final_state_return [simp]: "final_state (ret a) s = s"
  by (simp add: final_state_def State_Monad.return_def)

lemma run_value_bind:
  "run_value (State_Monad.bind m f) s = run_value (f (run_value m s)) (final_state m s)"
  by (simp add: run_value_def final_state_def State_Monad.bind_def split_beta)

lemma final_state_bind:
  "final_state (State_Monad.bind m f) s = final_state (f (run_value m s)) (final_state m s)"
  by (simp add: run_value_def final_state_def State_Monad.bind_def split_beta)

lemmas run_bind [simp] = run_value_bind final_state_bind

lemma wp_return [wp_simps]: "wp (ret a) Q s \<longleftrightarrow> Q a s"
  by (simp add: wp_def)

lemma wp_bind [wp_simps]: "wp (State_Monad.bind m f) Q s \<longleftrightarrow> wp m (\<lambda>a. wp (f a) Q) s"
  by (simp add: wp_def)

lemma wp_mono: "wp m Q s \<Longrightarrow> (\<And>a s'. Q a s' \<Longrightarrow> Q' a s') \<Longrightarrow> wp m Q' s"
  by (simp add: wp_def)

lemma wp_conj: "wp m (\<lambda>a s'. Q a s' \<and> Q' a s') s \<longleftrightarrow> wp m Q s \<and> wp m Q' s"
  by (simp add: wp_def)

lemma wp_true: "wp m (\<lambda>_ _. True) s"
  by (simp add: wp_def)

lemma run_value_call_env: "run_value (call_env f mk) s = f (rs_trace s)"
  by (simp add: run_value_def call_env_def Let_def)

lemma final_state_call_env:
  "final_state (call_env f mk) s = s\<lparr>rs_trace := rs_trace s @ [mk (f (rs_trace s))]\<rparr>"
  by (simp add: final_state_def call_env_def Let_def)

lemma wp_call_env [wp_simps]:
  "wp (call_env f mk) Q s \<longleftrightarrow> Q (f (rs_trace s)) (s\<lparr>rs_trace := rs_trace s @ [mk (f (rs_trace s))]\<rparr>)"
  by (simp add: wp_def run_value_call_env final_state_call_env)

lemmas prim_defs [op_defs] =
  exec_def run_cmd_def run_in_dir_def run_with_token_def stat_path_def ticks_before_deadline_def
  start_broker_def agent_file_def render_prompt_def read_entry_def run_verify_def make_temp_def
  make_dir_def remove_all_def
  log_open_def

lemma now_run [simp]: "run_value (now E) s = e_now E (rs_trace s)" "final_state (now E) s = s"
  by (simp_all add: run_value_def final_state_def now_def)

lemma elapsed_run [simp]:
  "run_value (elapsed_ms E) s = e_elapsed E (rs_trace s)" "final_state (elapsed_ms E) s = s"
  by (simp_all add: run_value_def final_state_def elapsed_ms_def)

lemma get_turn_run [simp]: "run_value get_turn s = rs_turn s" "final_state get_turn s = s"
  by (simp_all add: run_value_def final_state_def get_turn_def)

lemma get_nwo_run [simp]: "run_value get_nwo s = rs_nwo s" "final_state get_nwo s = s"
  by (simp_all add: run_value_def final_state_def get_nwo_def)

lemma set_nwo_run [simp]: "final_state (set_nwo n) s = s\<lparr>rs_nwo := n\<rparr>"
  by (simp add: final_state_def set_nwo_def)

lemma usage_run [simp]:
  "final_state (record_token_usage E role round attempt p) s =
     s\<lparr>rs_usage := rs_usage s @ [\<lparr>iu_role = role, iu_round = round, iu_attempt = attempt,
                                 iu_usage = e_usage E (rs_trace s) p\<rparr>]\<rparr>"
  "run_value get_usage s = rs_usage s" "final_state get_usage s = s"
  by (simp_all add: run_value_def final_state_def record_token_usage_def get_usage_def)

lemma incr_turn_run [simp]: "final_state incr_turn s = s\<lparr>rs_turn := rs_turn s + 1\<rparr>"
  by (simp add: final_state_def incr_turn_def)

lemma read_events_run:
  "run_value (read_events E) s =
     (if e_log_readable E (rs_trace s) then Inr (rs_log s)
      else Inl (msg_err ''failed to open event log file''))"
  "final_state (read_events E) s =
     s\<lparr>rs_trace := rs_trace s @ [CLogRead (e_log_readable E (rs_trace s))]\<rparr>"
  by (simp_all add: run_value_def final_state_def read_events_def Let_def)

lemma write_event_run:
  "run_value (write_event E e) s = fst (log_write (e_log_io E (rs_trace s)) e (rs_log s))"
  "final_state (write_event E e) s =
     s\<lparr>rs_log := snd (log_write (e_log_io E (rs_trace s)) e (rs_log s)),
       rs_trace := rs_trace s @
         [CLogWrite e (fst (log_write (e_log_io E (rs_trace s)) e (rs_log s)) = None)]\<rparr>"
  by (simp_all add: run_value_def final_state_def write_event_def Let_def split_beta)

lemma run_agent_run:
  "run_value (run_agent E cfg) s = e_agent E (rs_trace s) cfg"
  "final_state (run_agent E cfg) s =
     s\<lparr>rs_trace := rs_trace s @ [CAgent cfg (e_agent E (rs_trace s) cfg)],
       rs_log := rs_log s @ ar_events (e_agent E (rs_trace s) cfg)\<rparr>"
  by (simp_all add: run_value_def final_state_def run_agent_def Let_def)

lemmas run_prims =
  run_value_call_env final_state_call_env read_events_run write_event_run run_agent_run

section \<open>Relations every operation keeps\<close>

text \<open>
  \<open>upholds Rel m\<close>: whatever state \<open>m\<close> starts in, it ends in a related one. For a reflexive and
  transitive relation this passes from parts to compositions, so a property of every run of a
  large operation is proved from its primitive calls by \<open>intro\<close> rules alone.
\<close>

definition upholds :: "(rstate \<Rightarrow> rstate \<Rightarrow> bool) \<Rightarrow> 'a M \<Rightarrow> bool" where
  "upholds Rel m \<longleftrightarrow> (\<forall>s. Rel s (final_state m s))"

lemma upholdsD: "upholds Rel m \<Longrightarrow> Rel s (final_state m s)"
  by (simp add: upholds_def)

locale state_preorder =
  fixes Rel :: "rstate \<Rightarrow> rstate \<Rightarrow> bool"
  assumes rel_refl: "Rel s s"
    and rel_trans: "Rel s t \<Longrightarrow> Rel t u \<Longrightarrow> Rel s u"
begin

lemma up_return: "upholds Rel (ret a)"
  by (simp add: upholds_def rel_refl)

lemma up_bind: "upholds Rel m \<Longrightarrow> (\<And>a. upholds Rel (f a)) \<Longrightarrow> upholds Rel (State_Monad.bind m f)"
  by (auto simp: upholds_def intro: rel_trans)

lemma up_if: "(b \<Longrightarrow> upholds Rel m) \<Longrightarrow> (\<not> b \<Longrightarrow> upholds Rel n) \<Longrightarrow> upholds Rel (if b then m else n)"
  by simp

lemma up_sum:
  "(\<And>e. x = Inl e \<Longrightarrow> upholds Rel (f e)) \<Longrightarrow> (\<And>v. x = Inr v \<Longrightarrow> upholds Rel (g v)) \<Longrightarrow>
     upholds Rel (case x of Inl e \<Rightarrow> f e | Inr v \<Rightarrow> g v)"
  by (cases x) simp_all

lemma up_option:
  "upholds Rel f \<Longrightarrow> (\<And>v. x = Some v \<Longrightarrow> upholds Rel (g v)) \<Longrightarrow>
     upholds Rel (case x of None \<Rightarrow> f | Some v \<Rightarrow> g v)"
  by (cases x) simp_all

lemma up_prod: "(\<And>a b. x = (a, b) \<Longrightarrow> upholds Rel (f a b)) \<Longrightarrow> upholds Rel (case x of (a, b) \<Rightarrow> f a b)"
  by (cases x) simp

lemma up_let: "(\<And>v. v = x \<Longrightarrow> upholds Rel (f v)) \<Longrightarrow> upholds Rel (let v = x in f v)"
  by simp

lemma up_list:
  "upholds Rel f \<Longrightarrow> (\<And>x xs. l = x # xs \<Longrightarrow> upholds Rel (g x xs)) \<Longrightarrow>
     upholds Rel (case l of [] \<Rightarrow> f | x # xs \<Rightarrow> g x xs)"
  by (cases l) simp_all

lemma up_now: "upholds Rel (now E)"
  by (simp add: upholds_def rel_refl)

lemma up_elapsed: "upholds Rel (elapsed_ms E)"
  by (simp add: upholds_def rel_refl)

lemma up_get_turn: "upholds Rel get_turn"
  by (simp add: upholds_def rel_refl)

lemma up_get_nwo: "upholds Rel get_nwo"
  by (simp add: upholds_def rel_refl)

lemmas up_rules =
  up_return up_bind up_if up_sum up_option up_prod up_let up_list up_now up_elapsed up_get_turn up_get_nwo

end

text \<open>
  The trace only grows, the log grows by exactly the events the added calls brought, and the
  turn counter never goes back.
\<close>

definition call_events :: "call \<Rightarrow> event list" where
  "call_events c =
     (case c of CAgent _ rep \<Rightarrow> ar_events rep
      | CLogWrite e ok \<Rightarrow> if ok then [e] else []
      | _ \<Rightarrow> [])"

definition events_of :: "call list \<Rightarrow> event list" where
  "events_of cs = concat (map call_events cs)"

definition history_grows :: "rstate \<Rightarrow> rstate \<Rightarrow> bool" where
  "history_grows s t \<longleftrightarrow>
     (\<exists>cs. rs_trace t = rs_trace s @ cs \<and> rs_log t = rs_log s @ events_of cs) \<and>
     rs_turn s \<le> rs_turn t"

lemma call_events_simps [simp]:
  "call_events (CExec x r) = []" "call_events (CAgent cfg rep) = ar_events rep"
  "call_events (CStat p b) = []" "call_events (CTicks n) = []" "call_events (CLogRead b) = []"
  "call_events (CLogOpen b) = []" "call_events (CLogWrite e ok) = (if ok then [e] else [])"
  "call_events (CBroker p b) = []" "call_events (CAgentFile p f) = []" "call_events (CPrompt p g) = []"
  "call_events (CReadEntry p g) = []" "call_events (CVerify p q v) = []" "call_events (CMkTemp b) = []"
  "call_events (CMkDir p b) = []"
  "call_events (CRemoveAll p b) = []"
  by (simp_all add: call_events_def)

lemma events_of_simps [simp]:
  "events_of [] = []" "events_of (c # cs) = call_events c @ events_of cs"
  "events_of (cs @ ds) = events_of cs @ events_of ds"
  by (simp_all add: events_of_def)

lemma history_prefix:
  "history_grows s t \<Longrightarrow> prefix (rs_trace s) (rs_trace t) \<and> prefix (rs_log s) (rs_log t)"
  by (auto simp: history_grows_def)

lemma history_grows_same:
  "rs_trace t = rs_trace s \<Longrightarrow> rs_log t = rs_log s \<Longrightarrow> rs_turn s \<le> rs_turn t \<Longrightarrow> history_grows s t"
  unfolding history_grows_def by (intro conjI exI [of _ "[]"]) simp_all

lemma history_grows_call:
  "rs_trace t = rs_trace s @ [c] \<Longrightarrow> rs_log t = rs_log s @ call_events c \<Longrightarrow>
     rs_turn s \<le> rs_turn t \<Longrightarrow> history_grows s t"
  unfolding history_grows_def by (intro conjI exI [of _ "[c]"]) simp_all

text \<open>Every call added to the trace satisfies \<open>A\<close>.\<close>

definition only_calls :: "(call \<Rightarrow> bool) \<Rightarrow> rstate \<Rightarrow> rstate \<Rightarrow> bool" where
  "only_calls A s t \<longleftrightarrow> (\<exists>cs. rs_trace t = rs_trace s @ cs \<and> list_all A cs)"

interpretation grows: state_preorder history_grows
proof unfold_locales
  fix s t u
  show "history_grows s s" by (rule history_grows_same) simp_all
  assume "history_grows s t" and "history_grows t u"
  then show "history_grows s u"
    unfolding history_grows_def by (force intro: exI [of _ "cs @ ds" for cs ds])
qed

interpretation calls: state_preorder "only_calls A" for A
proof unfold_locales
  fix s t u
  show "only_calls A s s" by (auto simp: only_calls_def)
  assume "only_calls A s t" and "only_calls A t u"
  then show "only_calls A s u" unfolding only_calls_def by (metis append.assoc list_all_append)
qed

declare grows.up_rules [grows]
declare calls.up_rules [emits]

lemma grows_call_env: "(\<And>a. call_events (mk a) = []) \<Longrightarrow> upholds history_grows (call_env f mk)"
  unfolding upholds_def by (rule allI, rule history_grows_call) (simp add: final_state_call_env)+

lemma grows_read_events [grows]: "upholds history_grows (read_events E)"
  unfolding upholds_def by (rule allI, rule history_grows_call) (simp add: run_prims)+

lemma grows_write_event [grows]: "upholds history_grows (write_event E e)"
  unfolding upholds_def
  by (rule allI, rule history_grows_call) (simp add: run_prims log_write_def fails_def split: option.split)+

lemma grows_run_agent [grows]: "upholds history_grows (run_agent E cfg)"
  unfolding upholds_def by (rule allI, rule history_grows_call) (simp add: run_prims)+

lemma grows_incr_turn [grows]: "upholds history_grows incr_turn"
  unfolding upholds_def by (rule allI, rule history_grows_same) simp_all

lemma grows_usage [grows]:
  "upholds history_grows (record_token_usage E role round attempt p)"
  "upholds history_grows get_usage"
  unfolding upholds_def by (rule allI, rule history_grows_same, simp_all)+

lemma calls_usage [emits]:
  "upholds (only_calls A) (record_token_usage E role round attempt p)"
  "upholds (only_calls A) get_usage"
  by (auto simp: upholds_def only_calls_def)

lemma grows_set_nwo [grows]: "upholds history_grows (set_nwo n)"
  unfolding upholds_def by (rule allI, rule history_grows_same) simp_all

lemma calls_call_env [emits]: "(\<And>a. A (mk a)) \<Longrightarrow> upholds (only_calls A) (call_env f mk)"
  by (auto simp: upholds_def only_calls_def final_state_call_env)

lemma calls_read_events [emits]: "(\<And>b. A (CLogRead b)) \<Longrightarrow> upholds (only_calls A) (read_events E)"
  by (auto simp: upholds_def only_calls_def run_prims)

lemma calls_write_event [emits]: "(\<And>b. A (CLogWrite e b)) \<Longrightarrow> upholds (only_calls A) (write_event E e)"
  by (auto simp: upholds_def only_calls_def run_prims)

lemma calls_run_agent [emits]: "(\<And>r. A (CAgent cfg r)) \<Longrightarrow> upholds (only_calls A) (run_agent E cfg)"
  by (auto simp: upholds_def only_calls_def run_prims)

lemma calls_incr_turn [emits]: "upholds (only_calls A) incr_turn"
  by (auto simp: upholds_def only_calls_def)

lemma calls_set_nwo [emits]: "upholds (only_calls A) (set_nwo n)"
  by (auto simp: upholds_def only_calls_def)

lemma grows_exec [grows]: "upholds history_grows (exec E c)"
  by (simp add: op_defs grows_call_env)

lemma grows_run_cmd [grows]: "upholds history_grows (run_cmd E argv)"
  by (simp add: op_defs grows_call_env)

lemma grows_run_in_dir [grows]: "upholds history_grows (run_in_dir E dir argv)"
  by (simp add: op_defs grows_call_env)

lemma grows_run_with_token [grows]: "upholds history_grows (run_with_token E tok dir argv)"
  by (simp add: op_defs grows_call_env)

lemma grows_stat_path [grows]: "upholds history_grows (stat_path E p)"
  by (simp add: op_defs grows_call_env)

lemma grows_ticks_before_deadline [grows]: "upholds history_grows (ticks_before_deadline E)"
  by (simp add: op_defs grows_call_env)

lemma grows_start_broker [grows]: "upholds history_grows (start_broker E sock)"
  by (simp add: op_defs grows_call_env)

lemma grows_agent_file [grows]: "upholds history_grows (agent_file E role)"
  by (simp add: op_defs grows_call_env)

lemma grows_render_prompt [grows]: "upholds history_grows (render_prompt E kind)"
  by (simp add: op_defs grows_call_env)

lemma grows_read_entry [grows]: "upholds history_grows (read_entry E path)"
  by (simp add: op_defs grows_call_env)

lemma grows_run_verify [grows]: "upholds history_grows (run_verify E dir command)"
  by (simp add: op_defs grows_call_env)

lemma grows_make_temp [grows]: "upholds history_grows (make_temp E)"
  by (simp add: op_defs grows_call_env)

lemma grows_make_dir [grows]: "upholds history_grows (make_dir E p)"
  by (simp add: op_defs grows_call_env)

lemma grows_remove_all [grows]: "upholds history_grows (remove_all E p)"
  by (simp add: op_defs grows_call_env)

lemma grows_log_open [grows]: "upholds history_grows (log_open E)"
  by (simp add: op_defs grows_call_env)

lemma calls_exec [emits]: "(\<And>r. A (CExec c r)) \<Longrightarrow> upholds (only_calls A) (exec E c)"
  by (simp add: op_defs calls_call_env)

lemma calls_run_cmd [emits]: "(\<And>r. A (CExec (Cmd [] [] argv) r)) \<Longrightarrow> upholds (only_calls A) (run_cmd E argv)"
  by (simp add: op_defs calls_call_env)

lemma calls_run_in_dir [emits]: "(\<And>r. A (CExec (Cmd [] dir argv) r)) \<Longrightarrow> upholds (only_calls A) (run_in_dir E dir argv)"
  by (simp add: op_defs calls_call_env)

lemma calls_run_with_token [emits]: "(\<And>r. A (CExec (Cmd [(''GH_TOKEN'', tok)] dir argv) r)) \<Longrightarrow> upholds (only_calls A) (run_with_token E tok dir argv)"
  by (simp add: op_defs calls_call_env)

lemma calls_stat_path [emits]: "(\<And>r. A (CStat p r)) \<Longrightarrow> upholds (only_calls A) (stat_path E p)"
  by (simp add: op_defs calls_call_env)

lemma calls_ticks_before_deadline [emits]: "(\<And>r. A (CTicks r)) \<Longrightarrow> upholds (only_calls A) (ticks_before_deadline E)"
  by (simp add: op_defs calls_call_env)

lemma calls_start_broker [emits]: "(\<And>r. A (CBroker sock r)) \<Longrightarrow> upholds (only_calls A) (start_broker E sock)"
  by (simp add: op_defs calls_call_env)

lemma calls_agent_file [emits]: "(\<And>r. A (CAgentFile role r)) \<Longrightarrow> upholds (only_calls A) (agent_file E role)"
  by (simp add: op_defs calls_call_env)

lemma calls_render_prompt [emits]: "(\<And>r. A (CPrompt kind r)) \<Longrightarrow> upholds (only_calls A) (render_prompt E kind)"
  by (simp add: op_defs calls_call_env)

lemma calls_read_entry [emits]: "(\<And>r. A (CReadEntry path r)) \<Longrightarrow> upholds (only_calls A) (read_entry E path)"
  by (simp add: op_defs calls_call_env)

lemma calls_run_verify [emits]: "(\<And>r. A (CVerify dir command r)) \<Longrightarrow> upholds (only_calls A) (run_verify E dir command)"
  by (simp add: op_defs calls_call_env)

lemma calls_make_temp [emits]: "(\<And>r. A (CMkTemp r)) \<Longrightarrow> upholds (only_calls A) (make_temp E)"
  by (simp add: op_defs calls_call_env)

lemma calls_make_dir [emits]: "(\<And>r. A (CMkDir p r)) \<Longrightarrow> upholds (only_calls A) (make_dir E p)"
  by (simp add: op_defs calls_call_env)

lemma calls_remove_all [emits]: "(\<And>r. A (CRemoveAll p r)) \<Longrightarrow> upholds (only_calls A) (remove_all E p)"
  by (simp add: op_defs calls_call_env)

lemma calls_log_open [emits]: "(\<And>r. A (CLogOpen r)) \<Longrightarrow> upholds (only_calls A) (log_open E)"
  by (simp add: op_defs calls_call_env)

lemma grows_write_run_event [grows]: "upholds history_grows (write_run_event E R ty t p)"
  unfolding write_run_event_def by (intro grows)

lemma calls_write_run_event [emits]:
  "(\<And>e b. ev_type e = ty \<Longrightarrow> ev_payload e = Some p \<Longrightarrow> A (CLogWrite e b)) \<Longrightarrow>
     upholds (only_calls A) (write_run_event E R ty t p)"
  unfolding write_run_event_def by (intro emits) simp

lemma grows_handle [grows]:
  "upholds history_grows m \<Longrightarrow> (\<And>e. upholds history_grows (h e)) \<Longrightarrow>
     (\<And>v. upholds history_grows (k v)) \<Longrightarrow> upholds history_grows (handle m h k)"
  unfolding handle_def by (intro grows)

lemma calls_handle [emits]:
  "upholds (only_calls A) m \<Longrightarrow> (\<And>e. upholds (only_calls A) (h e)) \<Longrightarrow>
     (\<And>v. upholds (only_calls A) (k v)) \<Longrightarrow> upholds (only_calls A) (handle m h k)"
  unfolding handle_def by (intro emits)

lemma grows_after [grows]:
  "upholds history_grows m \<Longrightarrow> upholds history_grows n \<Longrightarrow> upholds history_grows (after m n)"
  unfolding after_def by (intro grows)

lemma calls_after [emits]:
  "upholds (only_calls A) m \<Longrightarrow> upholds (only_calls A) n \<Longrightarrow> upholds (only_calls A) (after m n)"
  unfolding after_def by (intro emits)

lemma grows_append_event [grows]: "upholds history_grows (append_event E R ty p)"
  unfolding append_event_def by (intro grows)

lemma calls_append_event [emits]:
  "(\<And>b. A (CLogOpen b)) \<Longrightarrow>
   (\<And>e b. ev_type e = ty \<Longrightarrow> ev_payload e = Some p \<Longrightarrow> A (CLogWrite e b)) \<Longrightarrow>
     upholds (only_calls A) (append_event E R ty p)"
  unfolding append_event_def by (intro emits) simp_all

lemma grows_write_agent_completed [grows]:
  "upholds history_grows (write_agent_completed E R role code a p)"
  unfolding write_agent_completed_def by (intro grows)

lemma calls_write_agent_completed [emits]:
  "(\<And>b. A (CLogOpen b)) \<Longrightarrow> (\<And>e b. ev_type e = EventAgentCompleted \<Longrightarrow> A (CLogWrite e b)) \<Longrightarrow>
     upholds (only_calls A) (write_agent_completed E R role code a p)"
  unfolding write_agent_completed_def by (intro emits) simp_all

lemma only_calls_mono: "only_calls A s t \<Longrightarrow> (\<And>c. A c \<Longrightarrow> B c) \<Longrightarrow> only_calls B s t"
  by (auto simp: only_calls_def list_all_iff)

section \<open>What an operation ends in\<close>

text \<open>
  \<open>ends m Q\<close>: from every state, \<open>m\<close> returns a value and leaves a state with \<open>Q\<close>. The rules follow
  the structure of an operation when only its last part matters.
\<close>

definition ends :: "'a M \<Rightarrow> ('a \<Rightarrow> rstate \<Rightarrow> bool) \<Rightarrow> bool" where
  "ends m Q \<longleftrightarrow> (\<forall>s. wp m Q s)"

lemma endsI: "(\<And>s. wp m Q s) \<Longrightarrow> ends m Q"
  by (simp add: ends_def)

lemma endsD: "ends m Q \<Longrightarrow> wp m Q s"
  by (simp add: ends_def)

lemma ends_value: "ends m Q \<Longrightarrow> Q (run_value m s) (final_state m s)"
  by (simp add: ends_def wp_def)

lemma ends_return [ends]: "(\<And>s. Q a s) \<Longrightarrow> ends (ret a) Q"
  by (simp add: ends_def wp_return)

lemma ends_bind [ends]: "(\<And>a. ends (f a) Q) \<Longrightarrow> ends (State_Monad.bind m f) Q"
  by (simp add: ends_def wp_def)

lemma wp_handle [wp_simps]:
  "wp (handle m h k) Q s \<longleftrightarrow>
     wp m (\<lambda>r t. case r of Inl e \<Rightarrow> wp (h e) Q t | Inr v \<Rightarrow> wp (k v) Q t) s"
  by (simp add: handle_def wp_def split: sum.split)

lemma wp_after [wp_simps]: "wp (after m n) Q s \<longleftrightarrow> wp m (\<lambda>_. wp n Q) s"
  by (simp add: after_def wp_bind)

lemma ends_handle [ends]:
  "(\<And>e. ends (h e) Q) \<Longrightarrow> (\<And>v. ends (k v) Q) \<Longrightarrow> ends (handle m h k) Q"
  by (simp add: ends_def handle_def wp_def split: sum.split)

lemma ends_after [ends]: "ends n Q \<Longrightarrow> ends (after m n) Q"
  by (simp add: ends_def after_def wp_def)

lemma ends_if [ends]: "(b \<Longrightarrow> ends m Q) \<Longrightarrow> (\<not> b \<Longrightarrow> ends n Q) \<Longrightarrow> ends (if b then m else n) Q"
  by simp

lemma ends_sum [ends]:
  "(\<And>e. x = Inl e \<Longrightarrow> ends (f e) Q) \<Longrightarrow> (\<And>v. x = Inr v \<Longrightarrow> ends (g v) Q) \<Longrightarrow>
     ends (case x of Inl e \<Rightarrow> f e | Inr v \<Rightarrow> g v) Q"
  by (cases x) simp_all

lemma ends_option [ends]:
  "(x = None \<Longrightarrow> ends f Q) \<Longrightarrow> (\<And>v. x = Some v \<Longrightarrow> ends (g v) Q) \<Longrightarrow>
     ends (case x of None \<Rightarrow> f | Some v \<Rightarrow> g v) Q"
  by (cases x) simp_all

lemma ends_prod [ends]: "(\<And>a b. x = (a, b) \<Longrightarrow> ends (f a b) Q) \<Longrightarrow> ends (case x of (a, b) \<Rightarrow> f a b) Q"
  by (cases x) simp

lemma ends_let [ends]: "(\<And>v. v = x \<Longrightarrow> ends (f v) Q) \<Longrightarrow> ends (let v = x in f v) Q"
  by simp

lemma ends_list [ends]:
  "(l = [] \<Longrightarrow> ends f Q) \<Longrightarrow> (\<And>x xs. l = x # xs \<Longrightarrow> ends (g x xs) Q) \<Longrightarrow>
     ends (case l of [] \<Rightarrow> f | x # xs \<Rightarrow> g x xs) Q"
  by (cases l) simp_all

lemma ends_mono: "ends m Q \<Longrightarrow> (\<And>a s. Q a s \<Longrightarrow> Q' a s) \<Longrightarrow> ends m Q'"
  by (simp add: ends_def wp_def)

text \<open>When the first part's result matters.\<close>

lemma ends_handle_via:
  assumes "ends m P" and "\<And>e s. P (Inl e) s \<Longrightarrow> wp (h e) Q s" and "\<And>v s. P (Inr v) s \<Longrightarrow> wp (k v) Q s"
  shows "ends (handle m h k) Q"
proof (rule endsI)
  fix s
  have "P (run_value m s) (final_state m s)" by (rule ends_value [OF assms(1)])
  then have "case run_value m s of Inl e \<Rightarrow> wp (h e) Q (final_state m s)
      | Inr v \<Rightarrow> wp (k v) Q (final_state m s)"
    by (cases "run_value m s") (simp_all add: assms(2,3))
  then show "wp (handle m h k) Q s" unfolding wp_handle by (simp add: wp_def [of m])
qed

lemma ends_bind_via:
  "ends m P \<Longrightarrow> (\<And>a s. P a s \<Longrightarrow> wp (f a) Q s) \<Longrightarrow> ends (State_Monad.bind m f) Q"
  by (simp add: ends_def wp_def)

section \<open>Kinds of calls\<close>

text \<open>
  The calls the safety properties single out: merging a PR, running an agent, writing an event.
  Every other call is plain. A predicate that plain calls satisfy is \<open>quiet\<close>; the operations
  that make plain calls only satisfy it whatever it says of the rest.
\<close>

definition is_merge_call :: "call \<Rightarrow> bool" where
  "is_merge_call c \<longleftrightarrow>
     (case c of CExec (Cmd _ _ argv) _ \<Rightarrow> take 3 argv = [''gh'', ''pr'', ''merge''] | _ \<Rightarrow> False)"

definition is_agent_call :: "call \<Rightarrow> bool" where
  "is_agent_call c \<longleftrightarrow> (case c of CAgent _ _ \<Rightarrow> True | _ \<Rightarrow> False)"

definition is_log_write :: "call \<Rightarrow> bool" where
  "is_log_write c \<longleftrightarrow> (case c of CLogWrite _ _ \<Rightarrow> True | _ \<Rightarrow> False)"

definition plain_call :: "call \<Rightarrow> bool" where
  "plain_call c \<longleftrightarrow> \<not> is_merge_call c \<and> \<not> is_agent_call c \<and> \<not> is_log_write c"

definition quiet :: "(call \<Rightarrow> bool) \<Rightarrow> bool" where
  "quiet A \<longleftrightarrow> (\<forall>c. plain_call c \<longrightarrow> A c)"

definition allows_writes :: "(call \<Rightarrow> bool) \<Rightarrow> bool" where
  "allows_writes A \<longleftrightarrow> (\<forall>e b. A (CLogWrite e b))"

definition allows_agents :: "(call \<Rightarrow> bool) \<Rightarrow> bool" where
  "allows_agents A \<longleftrightarrow> (\<forall>cfg r. A (CAgent cfg r))"

lemma call_kind_simps [simp]:
  "is_merge_call (CExec (Cmd env d argv) r) \<longleftrightarrow> take 3 argv = [''gh'', ''pr'', ''merge'']"
  "\<not> is_merge_call (CAgent cfg rep)" "\<not> is_merge_call (CStat p b)" "\<not> is_merge_call (CTicks n)"
  "\<not> is_merge_call (CLogRead b)" "\<not> is_merge_call (CLogOpen b)" "\<not> is_merge_call (CLogWrite e b)"
  "\<not> is_merge_call (CBroker p b)" "\<not> is_merge_call (CAgentFile p f)" "\<not> is_merge_call (CPrompt p f')"
  "\<not> is_merge_call (CReadEntry p f')" "\<not> is_merge_call (CVerify p q v)" "\<not> is_merge_call (CMkTemp b)"
  "\<not> is_merge_call (CMkDir p b)"
  "\<not> is_merge_call (CRemoveAll p b)"
  "\<not> is_agent_call (CExec x r)" "is_agent_call (CAgent cfg rep)" "\<not> is_agent_call (CStat p b)"
  "\<not> is_agent_call (CTicks n)" "\<not> is_agent_call (CLogRead b)" "\<not> is_agent_call (CLogOpen b)"
  "\<not> is_agent_call (CLogWrite e b)" "\<not> is_agent_call (CBroker p b)" "\<not> is_agent_call (CAgentFile p f)"
  "\<not> is_agent_call (CPrompt p f')" "\<not> is_agent_call (CReadEntry p f')"
  "\<not> is_agent_call (CVerify p q v)" "\<not> is_agent_call (CMkTemp b)"
  "\<not> is_agent_call (CMkDir p b)"
  "\<not> is_agent_call (CRemoveAll p b)"
  "\<not> is_log_write (CExec x r)" "\<not> is_log_write (CAgent cfg rep)" "\<not> is_log_write (CStat p b)"
  "\<not> is_log_write (CTicks n)" "\<not> is_log_write (CLogRead b)" "\<not> is_log_write (CLogOpen b)"
  "is_log_write (CLogWrite e b)" "\<not> is_log_write (CBroker p b)" "\<not> is_log_write (CAgentFile p f)"
  "\<not> is_log_write (CPrompt p f')" "\<not> is_log_write (CReadEntry p f')"
  "\<not> is_log_write (CVerify p q v)" "\<not> is_log_write (CMkTemp b)"
  "\<not> is_log_write (CMkDir p b)"
  "\<not> is_log_write (CRemoveAll p b)"
  by (simp_all add: is_merge_call_def is_agent_call_def is_log_write_def)

lemma plain_simps [simp]:
  "plain_call (CExec (Cmd env d argv) r) \<longleftrightarrow> take 3 argv \<noteq> [''gh'', ''pr'', ''merge'']"
  "\<not> plain_call (CAgent cfg rep)" "plain_call (CStat p b)" "plain_call (CTicks n)"
  "plain_call (CLogRead b)" "plain_call (CLogOpen b)" "\<not> plain_call (CLogWrite e b)"
  "plain_call (CBroker p b)" "plain_call (CAgentFile p f)" "plain_call (CPrompt p f')"
  "plain_call (CReadEntry p f')" "plain_call (CVerify p q v)" "plain_call (CMkTemp b)"
  "plain_call (CMkDir p b)"
  "plain_call (CRemoveAll p b)"
  by (simp_all add: plain_call_def)

lemma quietD: "quiet A \<Longrightarrow> plain_call c \<Longrightarrow> A c"
  by (simp add: quiet_def)

lemma writesD: "allows_writes A \<Longrightarrow> A (CLogWrite e b)"
  by (simp add: allows_writes_def)

lemma agentsD: "allows_agents A \<Longrightarrow> A (CAgent cfg r)"
  by (simp add: allows_agents_def)

lemma no_merge_kinds:
  "quiet (\<lambda>c. \<not> is_merge_call c)" "allows_writes (\<lambda>c. \<not> is_merge_call c)"
  "allows_agents (\<lambda>c. \<not> is_merge_call c)"
  by (simp_all add: quiet_def plain_call_def allows_writes_def allows_agents_def)

lemma no_agent_kinds:
  "quiet (\<lambda>c. \<not> is_agent_call c)" "allows_writes (\<lambda>c. \<not> is_agent_call c)"
  by (simp_all add: quiet_def plain_call_def allows_writes_def)

lemma upholds_mono_calls:
  "upholds (only_calls A) m \<Longrightarrow> (\<And>c. A c \<Longrightarrow> B c) \<Longrightarrow> upholds (only_calls B) m"
  unfolding upholds_def by (blast intro: only_calls_mono)

lemma calls_query_ops [emits]:
  "quiet A \<Longrightarrow> allows_writes A \<Longrightarrow> upholds (only_calls A) (append_event E R ty p)"
  "quiet A \<Longrightarrow> allows_writes A \<Longrightarrow> upholds (only_calls A) (write_agent_completed E R role code a q)"
  "allows_writes A \<Longrightarrow> upholds (only_calls A) (write_run_event E R ty t p)"
  by (intro emits; simp add: quietD writesD)+

section \<open>Counting calls\<close>

definition calls_of :: "(call \<Rightarrow> bool) \<Rightarrow> rstate \<Rightarrow> nat" where
  "calls_of P s = length (filter P (rs_trace s))"

text \<open>\<open>m\<close> makes at most \<open>k\<close> calls with \<open>P\<close>, from whatever state.\<close>

definition at_most :: "(call \<Rightarrow> bool) \<Rightarrow> nat \<Rightarrow> 'a M \<Rightarrow> bool" where
  "at_most P k m \<longleftrightarrow> (\<forall>s. calls_of P (final_state m s) \<le> calls_of P s + k)"

lemma at_mostD: "at_most P k m \<Longrightarrow> calls_of P (final_state m s) \<le> calls_of P s + k"
  by (simp add: at_most_def)

lemma at_most_mono: "at_most P i m \<Longrightarrow> i \<le> k \<Longrightarrow> at_most P k m"
  unfolding at_most_def by (meson add_left_mono le_trans)

lemma at_most_none:
  assumes "upholds (only_calls (\<lambda>c. \<not> P c)) m"
  shows "at_most P k m"
  unfolding at_most_def
proof
  fix s
  obtain cs where "rs_trace (final_state m s) = rs_trace s @ cs" and "list_all (\<lambda>c. \<not> P c) cs"
    using assms by (auto simp: upholds_def only_calls_def)
  then show "calls_of P (final_state m s) \<le> calls_of P s + k"
    by (simp add: calls_of_def list_all_iff)
qed

lemma at_most_sum:
  "(\<And>e. at_most P k (f e)) \<Longrightarrow> (\<And>v. at_most P k (g v)) \<Longrightarrow>
     at_most P k (case x of Inl e \<Rightarrow> f e | Inr v \<Rightarrow> g v)"
  by (cases x) simp_all

lemma at_most_bind:
  assumes "at_most P i m" and "\<And>a. at_most P j (f a)" and "i + j \<le> k"
  shows "at_most P k (State_Monad.bind m f)"
  unfolding at_most_def
proof
  fix s
  show "calls_of P (final_state (State_Monad.bind m f) s) \<le> calls_of P s + k"
    using at_mostD [OF assms(1), of s]
      at_mostD [OF assms(2), of "run_value m s" "final_state m s"] assms(3)
    by simp
qed

lemma at_most_handle:
  assumes "at_most P i m" and "\<And>e. at_most P j (h e)" and "\<And>v. at_most P j (f v)" and "i + j \<le> k"
  shows "at_most P k (handle m h f)"
  unfolding handle_def
  by (rule at_most_bind [OF assms(1) _ assms(4)]) (simp add: assms(2,3) split: sum.split)

text \<open>The same, for a part that makes no such call followed by one that does.\<close>

lemma counted_handle [counted]:
  "upholds (only_calls (\<lambda>c. \<not> P c)) m \<Longrightarrow> (\<And>e. at_most P k (h e)) \<Longrightarrow> (\<And>v. at_most P k (f v)) \<Longrightarrow>
     at_most P k (handle m h f)"
  by (rule at_most_handle [where i = 0 and j = k]) (simp_all add: at_most_none)

lemma counted_bind [counted]:
  "upholds (only_calls (\<lambda>c. \<not> P c)) m \<Longrightarrow> (\<And>a. at_most P k (f a)) \<Longrightarrow>
     at_most P k (State_Monad.bind m f)"
  by (rule at_most_bind [where i = 0 and j = k]) (simp_all add: at_most_none)

lemma counted_after [counted]:
  "upholds (only_calls (\<lambda>c. \<not> P c)) m \<Longrightarrow> at_most P k n \<Longrightarrow> at_most P k (after m n)"
  unfolding after_def by (rule counted_bind)

lemma counted_return [counted]: "at_most P k (ret a)"
  by (rule at_most_none) (rule calls.up_return)

lemma counted_if [counted]:
  "at_most P k m \<Longrightarrow> at_most P k n \<Longrightarrow> at_most P k (if b then m else n)"
  by simp

lemma counted_option [counted]:
  "at_most P k f \<Longrightarrow> (\<And>v. at_most P k (g v)) \<Longrightarrow>
     at_most P k (case x of None \<Rightarrow> f | Some v \<Rightarrow> g v)"
  by (cases x) simp_all

lemma counted_prod [counted]:
  "(\<And>a b. at_most P k (f a b)) \<Longrightarrow> at_most P k (case x of (a, b) \<Rightarrow> f a b)"
  by (cases x) simp

declare at_most_sum [counted]

lemma at_most_run_agent: "at_most is_agent_call 1 (run_agent E cfg)"
  by (simp add: at_most_def calls_of_def run_agent_run)

section \<open>Operations that leave the log alone\<close>

lemma log_kept:
  assumes "upholds history_grows m" and "upholds (only_calls plain_call) m"
  shows "rs_log (final_state m s) = rs_log s"
proof -
  obtain cs where t: "rs_trace (final_state m s) = rs_trace s @ cs"
      and l: "rs_log (final_state m s) = rs_log s @ events_of cs"
    using upholdsD [OF assms(1), of s] by (auto simp: history_grows_def)
  obtain ds where "rs_trace (final_state m s) = rs_trace s @ ds" and p: "list_all plain_call ds"
    using upholdsD [OF assms(2), of s] by (auto simp: only_calls_def)
  with t have "list_all plain_call cs" by simp
  then have "events_of cs = []"
  proof (induction cs)
    case (Cons c cs)
    then show ?case by (cases c) (auto simp: plain_call_def)
  qed simp
  with l show ?thesis by simp
qed

lemma plain_kind: "quiet plain_call"
  by (simp add: quiet_def)

section \<open>A small environment\<close>

text \<open>An environment in which every command fails and the log can be written and read.\<close>

definition failing_env :: env where
  "failing_env =
     \<lparr>e_exec = (\<lambda>_ _. Inl (msg_err ''command failed'')),
      e_agent = (\<lambda>_ _. \<lparr>ar_exit = 1, ar_err = None, ar_stdout = [], ar_stderr = [],
        ar_dev = \<lparr>db_dev_done = None, db_accept_fp = None, db_current_fp = None, db_recovered = None,
          db_tree_green = False, db_gate_rejected = False, db_gate_reason = [],
          db_terminal_status = None, db_terminal_message = None, db_last_check_output = []\<rparr>,
        ar_reviewer = \<lparr>rv_params = None, rv_gate_rejected = False, rv_gate_msg = [], rv_pending_id = []\<rparr>,
        ar_events = []\<rparr>),
      e_stat = (\<lambda>_ _. False), e_ticks = (\<lambda>_. 0), e_log_readable = (\<lambda>_. True),
      e_log_open = (\<lambda>_. True), e_log_io = (\<lambda>_. True), e_broker = (\<lambda>_ _. False),
      e_agent_file = (\<lambda>_ _. Inl (msg_err ''no agent file'')),
      e_prompt = (\<lambda>_ _. Inl (msg_err ''no template'')),
      e_read_entry = (\<lambda>_ _. Inl (msg_err ''no such file'')), e_verify = (\<lambda>_ _ _. ([], [], 1)),
      e_mktemp = (\<lambda>_. False), e_mkdir = (\<lambda>_ _. False), e_remove_all = (\<lambda>_ _. True),
      e_usage = (\<lambda>_ _. usage_zero), e_now = (\<lambda>_. []), e_elapsed = (\<lambda>_. 0), e_sha256 = (\<lambda>x. x)\<rparr>"

end
