(* ===== verification/Loop.thy ===== *)
theory Loop
  imports Prelude
begin

text \<open>
  The package \<open>internal/loop\<close>: the keys of the steps and events (\<open>keys.go\<close>), their labels and
  the terminal sets (\<open>labels.go\<close>), and the guarded transition machine (\<open>loop.go\<close>), generic in
  the context the handlers and guards work on.

  \<open>Machine.Run\<close> is an unbounded loop, so \<open>run_from\<close> is a partial function: \<open>None\<close> is a run
  that does not return. The lemmas relate it to the step relation \<open>mstep\<close>; the locales
  \<open>guarded_machine\<close> and \<open>ranked_machine\<close> state what a transition table, its handlers and its
  guards must satisfy for a run never to raise a \<open>StateError\<close> and to return.
\<close>

section \<open>Step and event keys\<close>

datatype step_key =
    StepPrepare | StepRunDev | StepSyncCI | StepRunReviewer | StepMergePR
  | StepTerminalSuccess | StepTerminalDevFailed | StepTerminalReviewFailed
  | StepTerminalEscalated | StepTerminalMergeFailed | StepTerminalTimeout
  | StepTerminalStalled | StepTerminalAborted | StepTerminalSkipped

datatype event_key =
    EventReady | EventNotEligible | EventPrepareFailed | EventDevDone
  | EventDevGateRejected | EventDevFailed | EventCIGreen | EventCIFailed
  | EventReviewApproved | EventChangesRequested | EventPrecheckFailed
  | EventReviewFailed | EventMerged | EventMergeFailed
  | EventConflictResolved | EventConflictUnresolved
  | EventAgentTimedOut | EventAgentStalled | EventAgentAborted

fun step_name :: "step_key \<Rightarrow> string" where
  "step_name StepPrepare = ''PREPARE''"
| "step_name StepRunDev = ''RUN_DEV''"
| "step_name StepSyncCI = ''SYNC_CI''"
| "step_name StepRunReviewer = ''RUN_REVIEWER''"
| "step_name StepMergePR = ''MERGE_PR''"
| "step_name StepTerminalSuccess = ''TERMINAL_SUCCESS''"
| "step_name StepTerminalDevFailed = ''TERMINAL_DEV_FAILED''"
| "step_name StepTerminalReviewFailed = ''TERMINAL_REVIEW_FAILED''"
| "step_name StepTerminalEscalated = ''TERMINAL_ESCALATED''"
| "step_name StepTerminalMergeFailed = ''TERMINAL_MERGE_FAILED''"
| "step_name StepTerminalTimeout = ''TERMINAL_TIMEOUT''"
| "step_name StepTerminalStalled = ''TERMINAL_STALLED''"
| "step_name StepTerminalAborted = ''TERMINAL_ABORTED''"
| "step_name StepTerminalSkipped = ''TERMINAL_SKIPPED''"

fun event_name :: "event_key \<Rightarrow> string" where
  "event_name EventReady = ''READY''"
| "event_name EventNotEligible = ''NOT_ELIGIBLE''"
| "event_name EventPrepareFailed = ''PREPARE_FAILED''"
| "event_name EventDevDone = ''DEV_DONE''"
| "event_name EventDevGateRejected = ''DEV_GATE_REJECTED''"
| "event_name EventDevFailed = ''DEV_FAILED''"
| "event_name EventCIGreen = ''CI_GREEN''"
| "event_name EventCIFailed = ''CI_FAILED''"
| "event_name EventReviewApproved = ''REVIEW_APPROVED''"
| "event_name EventChangesRequested = ''CHANGES_REQUESTED''"
| "event_name EventPrecheckFailed = ''PRECHECK_FAILED''"
| "event_name EventReviewFailed = ''REVIEW_FAILED''"
| "event_name EventMerged = ''MERGED''"
| "event_name EventMergeFailed = ''MERGE_FAILED''"
| "event_name EventConflictResolved = ''CONFLICT_RESOLVED''"
| "event_name EventConflictUnresolved = ''CONFLICT_UNRESOLVED''"
| "event_name EventAgentTimedOut = ''AGENT_TIMED_OUT''"
| "event_name EventAgentStalled = ''AGENT_STALLED''"
| "event_name EventAgentAborted = ''AGENT_ABORTED''"

definition all_steps :: "step_key list" where
  "all_steps =
    [StepPrepare, StepRunDev, StepSyncCI, StepRunReviewer, StepMergePR,
     StepTerminalSuccess, StepTerminalDevFailed, StepTerminalReviewFailed,
     StepTerminalEscalated, StepTerminalMergeFailed, StepTerminalTimeout,
     StepTerminalStalled, StepTerminalAborted, StepTerminalSkipped]"

definition all_events :: "event_key list" where
  "all_events =
    [EventReady, EventNotEligible, EventPrepareFailed, EventDevDone,
     EventDevGateRejected, EventDevFailed, EventCIGreen, EventCIFailed,
     EventReviewApproved, EventChangesRequested, EventPrecheckFailed,
     EventReviewFailed, EventMerged, EventMergeFailed,
     EventConflictResolved, EventConflictUnresolved,
     EventAgentTimedOut, EventAgentStalled, EventAgentAborted]"

text \<open>
  \<open>AllSteps\<close> and \<open>AllEvents\<close> are complete, so they enumerate the two types: a statement
  about every step or every event is checked by evaluation.
\<close>

lemma all_steps_UNIV: "set all_steps = UNIV"
proof -
  have "s \<in> set all_steps" for s by (cases s) (simp_all add: all_steps_def)
  then show ?thesis by blast
qed

lemma all_events_UNIV: "set all_events = UNIV"
proof -
  have "e \<in> set all_events" for e by (cases e) (simp_all add: all_events_def)
  then show ?thesis by blast
qed

instantiation step_key :: enum
begin

definition enum_step_key :: "step_key list" where
  "enum_step_key = all_steps"

definition enum_all_step_key :: "(step_key \<Rightarrow> bool) \<Rightarrow> bool" where
  "enum_all_step_key P \<longleftrightarrow> list_all P all_steps"

definition enum_ex_step_key :: "(step_key \<Rightarrow> bool) \<Rightarrow> bool" where
  "enum_ex_step_key P \<longleftrightarrow> list_ex P all_steps"

instance
  by standard
    (auto simp: enum_step_key_def enum_all_step_key_def enum_ex_step_key_def
       all_steps_UNIV list_all_iff list_ex_iff, simp add: all_steps_def)

end

instantiation event_key :: enum
begin

definition enum_event_key :: "event_key list" where
  "enum_event_key = all_events"

definition enum_all_event_key :: "(event_key \<Rightarrow> bool) \<Rightarrow> bool" where
  "enum_all_event_key P \<longleftrightarrow> list_all P all_events"

definition enum_ex_event_key :: "(event_key \<Rightarrow> bool) \<Rightarrow> bool" where
  "enum_ex_event_key P \<longleftrightarrow> list_ex P all_events"

instance
  by standard
    (auto simp: enum_event_key_def enum_all_event_key_def enum_ex_event_key_def
       all_events_UNIV list_all_iff list_ex_iff, simp add: all_events_def)

end

section \<open>Labels and terminal sets\<close>

definition step_labels :: "(step_key \<times> string) list" where
  "step_labels =
    [(StepPrepare, ''preparing''), (StepRunDev, ''running dev agent''),
     (StepSyncCI, ''waiting for CI''), (StepRunReviewer, ''running reviewer''),
     (StepMergePR, ''merging PR''), (StepTerminalSuccess, ''success''),
     (StepTerminalDevFailed, ''dev failed''), (StepTerminalReviewFailed, ''review failed''),
     (StepTerminalEscalated, ''escalated''), (StepTerminalMergeFailed, ''merge failed''),
     (StepTerminalTimeout, ''timed out''), (StepTerminalStalled, ''stalled''),
     (StepTerminalAborted, ''aborted''), (StepTerminalSkipped, ''skipped'')]"

definition event_labels :: "(event_key \<times> string) list" where
  "event_labels =
    [(EventReady, ''ready''), (EventNotEligible, ''not eligible''),
     (EventPrepareFailed, ''prepare failed''), (EventDevDone, ''dev done''),
     (EventDevGateRejected, ''gate rejected''), (EventDevFailed, ''dev failed''),
     (EventCIGreen, ''CI green''), (EventCIFailed, ''CI failed''),
     (EventReviewApproved, ''review approved''), (EventChangesRequested, ''changes requested''),
     (EventPrecheckFailed, ''precheck failed''), (EventReviewFailed, ''review failed''),
     (EventMerged, ''merged''), (EventMergeFailed, ''merge failed''),
     (EventConflictResolved, ''conflict resolved''),
     (EventConflictUnresolved, ''conflict unresolved''),
     (EventAgentTimedOut, ''agent timed out''), (EventAgentStalled, ''agent stalled''),
     (EventAgentAborted, ''agent aborted'')]"

text \<open>A Go map lookup with the comma-ok form: the zero value and \<open>false\<close> for a missing key.\<close>

definition lookup_ok :: "('k \<times> string) list \<Rightarrow> 'k \<Rightarrow> string \<times> bool" where
  "lookup_ok m k = (case map_of m k of Some v \<Rightarrow> (v, True) | None \<Rightarrow> ([], False))"

definition step_label :: "step_key \<Rightarrow> string \<times> bool" where
  "step_label k = lookup_ok step_labels k"

definition event_label :: "event_key \<Rightarrow> string \<times> bool" where
  "event_label k = lookup_ok event_labels k"

definition terminal_steps :: "step_key list" where
  "terminal_steps =
    [StepTerminalSuccess, StepTerminalDevFailed, StepTerminalReviewFailed,
     StepTerminalEscalated, StepTerminalMergeFailed, StepTerminalTimeout,
     StepTerminalStalled, StepTerminalAborted, StepTerminalSkipped]"

definition success_terminals :: "step_key list" where
  "success_terminals = [StepTerminalSuccess, StepTerminalSkipped]"

definition is_terminal_step :: "step_key \<Rightarrow> bool" where
  "is_terminal_step k \<longleftrightarrow> k \<in> set terminal_steps"

definition is_success_terminal :: "step_key \<Rightarrow> bool" where
  "is_success_terminal k \<longleftrightarrow> k \<in> set success_terminals"

section \<open>The machine\<close>

record 'c transition =
  t_from :: step_key
  t_event :: event_key
  t_to :: step_key
  t_guard :: "('c \<Rightarrow> bool) option"

record state_error =
  se_step :: step_key
  se_event :: "event_key option"
  se_msg :: string

record 'c machine =
  m_transitions :: "'c transition list"
  m_handlers :: "step_key \<Rightarrow> ('c \<Rightarrow> event_key \<times> 'c) option"
  m_start :: step_key
  m_terminals :: "step_key \<Rightarrow> bool"
  m_observer :: "(step_key \<Rightarrow> event_key \<Rightarrow> step_key \<Rightarrow> bool \<Rightarrow> 'c \<Rightarrow> 'c) option"

definition guard_holds :: "'c transition \<Rightarrow> 'c \<Rightarrow> bool" where
  "guard_holds t c \<longleftrightarrow> (case t_guard t of None \<Rightarrow> True | Some g \<Rightarrow> g c)"

definition collect_matches ::
    "'c machine \<Rightarrow> step_key \<Rightarrow> event_key \<Rightarrow> 'c \<Rightarrow> 'c transition list" where
  "collect_matches m step ev c =
     filter (\<lambda>t. t_from t = step \<and> t_event t = ev \<and> guard_holds t c) (m_transitions m)"

definition dispatch_err_msg :: "nat \<Rightarrow> string" where
  "dispatch_err_msg n =
     (if n = 0 then ''no matching transition'' else itoa (int n) @ '' transitions matched'')"

datatype iteration = Halt step_key "state_error option" | Next step_key

text \<open>One iteration of the loop in \<open>Run\<close>.\<close>

definition dispatch :: "'c machine \<Rightarrow> step_key \<Rightarrow> 'c \<Rightarrow> iteration \<times> 'c" where
  "dispatch m step c =
     (if m_terminals m step then (Halt step None, c)
      else case m_handlers m step of
        None \<Rightarrow> (Halt step (Some \<lparr>se_step = step, se_event = None, se_msg = ''no handler''\<rparr>), c)
      | Some handler \<Rightarrow>
          (let (ev, c1) = handler c;
               matched = collect_matches m step ev c1
           in case matched of
                [t] \<Rightarrow>
                  (Next (t_to t),
                   case m_observer m of None \<Rightarrow> c1
                   | Some obs \<Rightarrow> obs step ev (t_to t) (t_guard t \<noteq> None) c1)
              | _ \<Rightarrow>
                  (Halt step (Some \<lparr>se_step = step, se_event = Some ev,
                                    se_msg = dispatch_err_msg (length matched)\<rparr>), c1)))"

partial_function (option) run_from ::
    "'c machine \<Rightarrow> step_key \<Rightarrow> 'c \<Rightarrow> ((step_key \<times> state_error option) \<times> 'c) option" where
  "run_from m step c =
     (case dispatch m step c of
        (Halt s e, c') \<Rightarrow> Some ((s, e), c')
      | (Next s, c') \<Rightarrow> run_from m s c')"

definition machine_run ::
    "'c machine \<Rightarrow> 'c \<Rightarrow> ((step_key \<times> state_error option) \<times> 'c) option" where
  "machine_run m c = run_from m (m_start m) c"

subsection \<open>The step relation\<close>

inductive mstep :: "'c machine \<Rightarrow> step_key \<times> 'c \<Rightarrow> step_key \<times> 'c \<Rightarrow> bool" for m where
  mstepI: "dispatch m s c = (Next s', c') \<Longrightarrow> mstep m (s, c) (s', c')"

inductive_simps mstep_iff: "mstep m (s, c) (s', c')"
inductive_cases mstepE: "mstep m x y"

lemma mstep_deterministic: "mstep m x y \<Longrightarrow> mstep m x z \<Longrightarrow> y = z"
  by (auto elim!: mstepE)

lemma run_from_mstep: "mstep m (s, c) (s', c') \<Longrightarrow> run_from m s c = run_from m s' c'"
  by (subst run_from.simps) (simp add: mstep_iff)

lemma run_from_steps:
  assumes "(mstep m)\<^sup>*\<^sup>* x y"
  shows "run_from m (fst x) (snd x) = run_from m (fst y) (snd y)"
  using assms
proof (induction rule: converse_rtranclp_induct)
  case (step x z)
  then show ?case using run_from_mstep [of m "fst x" "snd x" "fst z" "snd z"] by simp
qed simp

lemma run_from_halt: "dispatch m s c = (Halt t e, c') \<Longrightarrow> run_from m s c = Some ((t, e), c')"
  by (subst run_from.simps) simp

lemma run_from_SomeD:
  assumes "run_from m s c = Some ((t, e), c')"
  shows "\<exists>u d. (mstep m)\<^sup>*\<^sup>* (s, c) (u, d) \<and> dispatch m u d = (Halt t e, c')"
proof -
  have "\<forall>t e c'. r = ((t, e), c') \<longrightarrow>
          (\<exists>u d. (mstep m)\<^sup>*\<^sup>* (s, c) (u, d) \<and> dispatch m u d = (Halt t e, c'))"
    if "run_from m s c = Some r" for r
  proof (rule run_from.raw_induct
      [where P = "\<lambda>m s c r. \<forall>t e c'. r = ((t, e), c') \<longrightarrow>
          (\<exists>u d. (mstep m)\<^sup>*\<^sup>* (s, c) (u, d) \<and> dispatch m u d = (Halt t e, c'))", OF _ that])
    fix rf m s c r
    assume IH: "\<And>m s c r. rf m s c = Some r \<Longrightarrow> \<forall>t e c'. r = ((t, e), c') \<longrightarrow>
          (\<exists>u d. (mstep m)\<^sup>*\<^sup>* (s, c) (u, d) \<and> dispatch m u d = (Halt t e, c'))"
      and eq: "(case dispatch m s c of (Halt s e, c') \<Rightarrow> Some ((s, e), c')
                | (Next s, c') \<Rightarrow> rf m s c') = Some r"
    obtain i c1 where d: "dispatch m s c = (i, c1)" by (cases "dispatch m s c")
    show "\<forall>t e c'. r = ((t, e), c') \<longrightarrow>
          (\<exists>u d. (mstep m)\<^sup>*\<^sup>* (s, c) (u, d) \<and> dispatch m u d = (Halt t e, c'))"
    proof (cases i)
      case (Halt t e)
      with d eq show ?thesis by auto
    next
      case (Next s')
      with d eq have "rf m s' c1 = Some r" by simp
      note tail = IH [OF this, rule_format]
      have st: "mstep m (s, c) (s', c1)" using d Next by (simp add: mstep_iff)
      show ?thesis
        using tail converse_rtranclp_into_rtranclp [of "mstep m", OF st] by blast
    qed
  qed
  with assms show ?thesis by blast
qed

text \<open>
  A run returns exactly when the step relation leads to a halting iteration; the result is
  that iteration's.
\<close>

lemma run_from_Some_iff:
  "run_from m s c = Some ((t, e), c') \<longleftrightarrow>
     (\<exists>u d. (mstep m)\<^sup>*\<^sup>* (s, c) (u, d) \<and> dispatch m u d = (Halt t e, c'))"
  using run_from_SomeD run_from_steps run_from_halt by fastforce

lemma run_from_infinite:
  assumes "f 0 = (s, c)" and "\<And>n::nat. mstep m (f n) (f (Suc n))"
  shows "run_from m s c = None"
proof (rule ccontr)
  assume "run_from m s c \<noteq> None"
  then obtain t e c' where "run_from m s c = Some ((t, e), c')" by auto
  then obtain u d where path: "(mstep m)\<^sup>*\<^sup>* (s, c) (u, d)" and halt: "dispatch m u d = (Halt t e, c')"
    by (blast dest: run_from_SomeD)
  have "\<exists>n. (u, d) = f n"
    using path
  proof (induction rule: rtranclp_induct)
    case base
    show ?case using assms(1) by metis
  next
    case (step y z)
    then show ?case using assms(2) mstep_deterministic by metis
  qed
  then obtain n where "(u, d) = f n" by blast
  then have "mstep m (u, d) (f (Suc n))" using assms(2) [of n] by simp
  with halt show False by (cases "f (Suc n)") (simp add: mstep_iff)
qed

lemma dispatch_terminal: "m_terminals m s \<Longrightarrow> dispatch m s c = (Halt s None, c)"
  by (simp add: dispatch_def)

section \<open>What makes a machine well guarded\<close>

text \<open>
  The contract between the machine and a user of it: an invariant \<open>I\<close> that holds where a run
  starts and under which every non-terminal step has a handler whose event matches exactly
  one transition, into a state that satisfies \<open>I\<close> again.
\<close>

locale guarded_machine =
  fixes m :: "'c machine"
    and I :: "step_key \<Rightarrow> 'c \<Rightarrow> bool"
  assumes one_transition: "I s c \<Longrightarrow> \<not> m_terminals m s \<Longrightarrow>
      \<exists>s' c'. dispatch m s c = (Next s', c') \<and> I s' c'"
begin

lemma step_keeps: "mstep m (s, c) (s', c') \<Longrightarrow> I s c \<Longrightarrow> I s' c'"
  using one_transition [of s c] dispatch_terminal [of m s c] by (auto simp: mstep_iff)

lemma steps_keep: "(mstep m)\<^sup>*\<^sup>* x y \<Longrightarrow> I (fst x) (snd x) \<Longrightarrow> I (fst y) (snd y)"
proof (induction rule: rtranclp_induct)
  case (step y z)
  then show ?case using step_keeps [of "fst y" "snd y" "fst z" "snd z"] by simp
qed simp

lemma halts_terminal:
  assumes "I s c" and "dispatch m s c = (Halt t e, c')"
  shows "m_terminals m t \<and> e = None \<and> t = s \<and> c' = c"
  using assms one_transition [of s c] dispatch_terminal [of m s c] by (cases "m_terminals m s") auto

lemma no_state_error:
  assumes "I s c" and "run_from m s c = Some ((t, e), c')"
  shows "m_terminals m t \<and> e = None \<and> I t c'"
proof -
  obtain u d where path: "(mstep m)\<^sup>*\<^sup>* (s, c) (u, d)" and halt: "dispatch m u d = (Halt t e, c')"
    using assms(2) by (blast dest: run_from_SomeD)
  have "I u d" using steps_keep [OF path] assms(1) by simp
  then show ?thesis using halts_terminal [OF _ halt] by auto
qed

end

text \<open>With a measure that every step decreases, a run returns.\<close>

locale ranked_machine = guarded_machine m I
  for m :: "'c machine" and I :: "step_key \<Rightarrow> 'c \<Rightarrow> bool" +
  fixes rank :: "step_key \<Rightarrow> 'c \<Rightarrow> nat"
  assumes rank_decreases: "I s c \<Longrightarrow> mstep m (s, c) (s', c') \<Longrightarrow> rank s' c' < rank s c"
begin

lemma run_returns: "I s c \<Longrightarrow> \<exists>t c'. run_from m s c = Some ((t, None), c') \<and> m_terminals m t"
proof (induction "rank s c" arbitrary: s c rule: less_induct)
  case less
  show ?case
  proof (cases "m_terminals m s")
    case True
    then show ?thesis using run_from_halt [OF dispatch_terminal [OF True]] by blast
  next
    case False
    then obtain s' c' where st: "dispatch m s c = (Next s', c')" "I s' c'"
      using one_transition less.prems by blast
    then have ms: "mstep m (s, c) (s', c')" by (simp add: mstep_iff)
    have "\<exists>t d. run_from m s' c' = Some ((t, None), d) \<and> m_terminals m t"
      using less.hyps rank_decreases [OF less.prems ms] st(2) by blast
    then show ?thesis using run_from_mstep [OF ms] by simp
  qed
qed

end

end
