(* ===== verification/Outcome.thy ===== *)
theory Outcome
  imports World Loop
begin

text \<open>
  \<open>internal/runner/outcome.go\<close> and the log queries of \<open>reviewer.go\<close>: the outcome strings, the
  mapping of agent failures to loop events, and what the runner reads back from its event log
  (the PR number, the number of reviews, the latest verdict, body, confidence and review id).
  Each query is a function on the events and an operation that reads the log first; an
  unreadable log is the error branch.
\<close>

section \<open>Outcomes\<close>

definition outcomeSuccess :: string where "outcomeSuccess = ''success''"
definition outcomeDevFailed :: string where "outcomeDevFailed = ''dev_failed''"
definition outcomeReviewFailed :: string where "outcomeReviewFailed = ''review_failed''"
definition outcomeEscalated :: string where "outcomeEscalated = ''escalated''"
definition outcomeTimeout :: string where "outcomeTimeout = ''timeout''"
definition outcomeStalled :: string where "outcomeStalled = ''stalled''"
definition outcomeAborted :: string where "outcomeAborted = ''aborted''"
definition outcomeMergeFailed :: string where "outcomeMergeFailed = ''merge_failed''"
definition outcomeSkipped :: string where "outcomeSkipped = ''skipped''"
definition outcomeConflictResolved :: string where "outcomeConflictResolved = ''conflict_resolved''"
definition outcomeConflictUnresolved :: string where "outcomeConflictUnresolved = ''conflict_unresolved''"
definition branchPrefix :: string where "branchPrefix = ''golemic/issue-''"

definition maxMergeReReviewRounds :: int where
  "maxMergeReReviewRounds = 2"

lemmas outcome_defs =
  outcomeSuccess_def outcomeDevFailed_def outcomeReviewFailed_def outcomeEscalated_def
  outcomeTimeout_def outcomeStalled_def outcomeAborted_def outcomeMergeFailed_def
  outcomeSkipped_def outcomeConflictResolved_def outcomeConflictUnresolved_def

definition agent_failure_event :: "string \<Rightarrow> event_key option" where
  "agent_failure_event outcome =
     (if outcome = outcomeTimeout then Some EventAgentTimedOut
      else if outcome = outcomeStalled then Some EventAgentStalled
      else if outcome = outcomeAborted then Some EventAgentAborted
      else None)"

section \<open>Reviews in the log\<close>

definition is_review :: "event \<Rightarrow> bool" where
  "is_review e \<longleftrightarrow> ev_type e = EventReviewSubmitted"

definition count_reviews :: "event list \<Rightarrow> int" where
  "count_reviews log = int (length (filter is_review log))"

definition count_review_submitted_events :: "env \<Rightarrow> int M" where
  "count_review_submitted_events E =
     do { r \<leftarrow> read_events E;
          ret (case r of Inl _ \<Rightarrow> 0 | Inr events \<Rightarrow> count_reviews events) }"

definition no_valid_review :: gerr where
  "no_valid_review = msg_err ''NO_VALID_REVIEW: no review_submitted event found''"

definition last_review_payload :: "event list \<Rightarrow> raw result" where
  "last_review_payload events =
     (case find_last is_review events of
        Some e \<Rightarrow> Inr (ev_payload e) | None \<Rightarrow> Inl no_valid_review)"

definition last_review_submitted_payload :: "env \<Rightarrow> raw result M" where
  "last_review_submitted_payload E =
     do { r \<leftarrow> read_events E;
          ret (case r of Inl e \<Rightarrow> Inl (wrap_err ''NO_VALID_REVIEW: '' e)
               | Inr events \<Rightarrow> last_review_payload events) }"

text \<open>\<open>json.Unmarshal\<close> of a payload: an empty one is an error.\<close>

definition payload_field :: "(json \<Rightarrow> 'a option) \<Rightarrow> raw \<Rightarrow> 'a result" where
  "payload_field d raw =
     (case raw of None \<Rightarrow> Inl (msg_err ''NO_VALID_REVIEW: unexpected end of JSON input'')
      | Some j \<Rightarrow> (case d j of None \<Rightarrow> Inl (msg_err ''NO_VALID_REVIEW: cannot unmarshal'')
                   | Some v \<Rightarrow> Inr v))"

definition latest_review_id :: "env \<Rightarrow> string result M" where
  "latest_review_id E =
     do { p \<leftarrow> last_review_submitted_payload E;
          ret (case p of Inl e \<Rightarrow> Inl e
               | Inr raw \<Rightarrow>
                   (case payload_field (get_str ''reviewId'') raw of Inl e \<Rightarrow> Inl e
                    | Inr i \<Rightarrow> if i = []
                              then Inl (msg_err ''NO_VALID_REVIEW: reviewId is empty in review_submitted event'')
                              else Inr i)) }"

definition latest_review_body :: "env \<Rightarrow> string result M" where
  "latest_review_body E =
     do { p \<leftarrow> last_review_submitted_payload E;
          ret (case p of Inl e \<Rightarrow> Inl e | Inr raw \<Rightarrow> payload_field (get_str ''body'') raw) }"

definition latest_confidence :: "env \<Rightarrow> string result M" where
  "latest_confidence E =
     do { p \<leftarrow> last_review_submitted_payload E;
          ret (case p of Inl e \<Rightarrow> Inl e | Inr raw \<Rightarrow> payload_field (get_str ''confidence'') raw) }"

definition dec_review_meta :: "json \<Rightarrow> (int \<times> string) option" where
  "dec_review_meta j = (case (get_int ''reviewRound'' j, get_str ''headSha'' j) of
     (Some r, Some h) \<Rightarrow> Some (r, h) | _ \<Rightarrow> None)"

definition review_event_matches_criteria :: "raw \<Rightarrow> int \<Rightarrow> string \<Rightarrow> bool" where
  "review_event_matches_criteria raw round sha =
     (case payload_field dec_review_meta raw of
        Inl _ \<Rightarrow> False
      | Inr (r, h) \<Rightarrow> \<not> (round > 0 \<and> r \<noteq> round) \<and> \<not> (sha \<noteq> [] \<and> h \<noteq> sha))"

text \<open>The backward scan of \<open>latestReviewVerdict\<close>, over the events from the last one.\<close>

fun scan_verdict :: "int \<Rightarrow> string \<Rightarrow> event list \<Rightarrow> string result" where
  "scan_verdict round sha [] = Inl no_valid_review"
| "scan_verdict round sha (e # es) =
     (if \<not> is_review e then scan_verdict round sha es
      else (case validate_review_submitted (ev_payload e) of
              Some err \<Rightarrow> Inl (wrap_err ''NO_VALID_REVIEW: '' err)
            | None \<Rightarrow>
                if (round > 0 \<or> sha \<noteq> []) \<and> \<not> review_event_matches_criteria (ev_payload e) round sha
                then scan_verdict round sha es
                else payload_field (get_str ''verdict'') (ev_payload e)))"

definition latest_verdict_in :: "event list \<Rightarrow> int \<Rightarrow> string \<Rightarrow> string result" where
  "latest_verdict_in events round sha = scan_verdict round sha (rev events)"

definition latest_review_verdict :: "env \<Rightarrow> int \<Rightarrow> string \<Rightarrow> string result M" where
  "latest_review_verdict E round sha =
     do { r \<leftarrow> read_events E;
          ret (case r of Inl e \<Rightarrow> Inl (wrap_err ''NO_VALID_REVIEW: '' e)
               | Inr events \<Rightarrow> latest_verdict_in events round sha) }"

section \<open>The PR in the log\<close>

definition is_pr_opened :: "event \<Rightarrow> bool" where
  "is_pr_opened e \<longleftrightarrow> ev_type e = EventPROpened"

definition pr_opened_in :: "event list \<Rightarrow> bool" where
  "pr_opened_in events =
     (case find_last is_pr_opened events of
        None \<Rightarrow> False | Some e \<Rightarrow> validate_pr_opened (ev_payload e) = None)"

definition has_pr_opened_event :: "env \<Rightarrow> bool M" where
  "has_pr_opened_event E =
     do { r \<leftarrow> read_events E;
          ret (case r of Inl _ \<Rightarrow> False | Inr events \<Rightarrow> pr_opened_in events) }"

text \<open>\<open>fmt.Sscanf(s, "%d", &n)\<close>: leading blanks, a sign, then as many digits as follow.\<close>

definition sscanf_d :: "string \<Rightarrow> int option" where
  "sscanf_d s =
     (let t = dropWhile (\<lambda>c. c = CHR '' '' \<or> c = CHR 0x09 \<or> c = CHR 0x0D) s;
          (sg, ds) = (case t of [] \<Rightarrow> ([], [])
                      | c # cs \<Rightarrow> if c = CHR ''-'' \<or> c = CHR ''+'' then ([c], cs) else ([], t))
      in atoi (sg @ takeWhile is_digit ds))"

text \<open>A lookup in \<open>map[string]interface{}\<close>: exact key, the last of repeated ones.\<close>

definition map_lookup :: "string \<Rightarrow> json \<Rightarrow> json option" where
  "map_lookup k j = (case j of JObj kvs \<Rightarrow> map_option snd (find_last (\<lambda>kv. fst kv = k) kvs) | _ \<Rightarrow> None)"

definition pr_number_of :: "raw \<Rightarrow> int result" where
  "pr_number_of raw =
     (case raw of
        None \<Rightarrow> Inl (msg_err ''unexpected end of JSON input'')
      | Some j \<Rightarrow>
          if (case j of JObj _ \<Rightarrow> False | JNull \<Rightarrow> False | _ \<Rightarrow> True)
          then Inl (msg_err ''json: cannot unmarshal into map'')
          else (case map_lookup ''prNumber'' j of
                  Some (JStr s) \<Rightarrow>
                    (case sscanf_d s of None \<Rightarrow> Inl (msg_err ''expected integer'') | Some n \<Rightarrow> Inr n)
                | _ \<Rightarrow> Inl (msg_err ''prNumber field not a string in pr_opened event'')))"

definition pr_number_in :: "event list \<Rightarrow> int result" where
  "pr_number_in events =
     (case find_last is_pr_opened events of
        None \<Rightarrow> Inl (msg_err ''pr_opened event not found'')
      | Some e \<Rightarrow> pr_number_of (ev_payload e))"

definition get_pr_number :: "env \<Rightarrow> int result M" where
  "get_pr_number E =
     do { r \<leftarrow> read_events E;
          ret (case r of Inl e \<Rightarrow> Inl e | Inr events \<Rightarrow> pr_number_in events) }"

section \<open>Lemmas\<close>

lemma count_reviews_append [simp]: "count_reviews (xs @ ys) = count_reviews xs + count_reviews ys"
  by (simp add: count_reviews_def)

lemma count_reviews_nonneg [simp]: "0 \<le> count_reviews xs"
  by (simp add: count_reviews_def)

lemma count_reviews_prefix: "prefix xs ys \<Longrightarrow> count_reviews xs \<le> count_reviews ys"
  by (auto simp: prefix_def)

lemmas log_query_defs =
  count_review_submitted_events_def last_review_submitted_payload_def latest_review_id_def
  latest_review_body_def latest_confidence_def latest_review_verdict_def has_pr_opened_event_def
  get_pr_number_def

lemma grows_log_queries [grows]:
  "upholds history_grows (count_review_submitted_events E)"
  "upholds history_grows (last_review_submitted_payload E)"
  "upholds history_grows (latest_review_id E)"
  "upholds history_grows (latest_review_body E)"
  "upholds history_grows (latest_confidence E)"
  "upholds history_grows (latest_review_verdict E round sha)"
  "upholds history_grows (has_pr_opened_event E)"
  "upholds history_grows (get_pr_number E)"
  unfolding log_query_defs by (intro grows)+

lemma calls_log_queries:
  assumes "\<And>b. A (CLogRead b)"
  shows "upholds (only_calls A) (count_review_submitted_events E)"
    and "upholds (only_calls A) (last_review_submitted_payload E)"
    and "upholds (only_calls A) (latest_review_id E)"
    and "upholds (only_calls A) (latest_review_body E)"
    and "upholds (only_calls A) (latest_confidence E)"
    and "upholds (only_calls A) (latest_review_verdict E round sha)"
    and "upholds (only_calls A) (has_pr_opened_event E)"
    and "upholds (only_calls A) (get_pr_number E)"
  unfolding log_query_defs by (intro emits assms)+

lemma calls_log_queries_quiet [emits]:
  assumes "quiet A"
  shows "upholds (only_calls A) (count_review_submitted_events E)"
    and "upholds (only_calls A) (last_review_submitted_payload E)"
    and "upholds (only_calls A) (latest_review_id E)"
    and "upholds (only_calls A) (latest_review_body E)"
    and "upholds (only_calls A) (latest_confidence E)"
    and "upholds (only_calls A) (latest_review_verdict E round sha)"
    and "upholds (only_calls A) (has_pr_opened_event E)"
    and "upholds (only_calls A) (get_pr_number E)"
  by (rule calls_log_queries, simp add: quietD [OF assms])+

text \<open>The log queries leave the log as it is.\<close>

lemma log_queries_keep_log:
  "rs_log (final_state (count_review_submitted_events E) s) = rs_log s"
  "rs_log (final_state (latest_confidence E) s) = rs_log s"
  "rs_log (final_state (latest_review_verdict E round sha) s) = rs_log s"
  "rs_log (final_state (latest_review_id E) s) = rs_log s"
  "rs_log (final_state (latest_review_body E) s) = rs_log s"
  "rs_log (final_state (has_pr_opened_event E) s) = rs_log s"
  "rs_log (final_state (get_pr_number E) s) = rs_log s"
  by (simp_all add: log_query_defs run_prims)

text \<open>What a verdict rests on: a valid review event of that round and commit.\<close>

lemma scan_verdict_Inr:
  assumes "scan_verdict round sha es = Inr v"
  shows "\<exists>e\<in>set es. is_review e \<and> validate_review_submitted (ev_payload e) = None \<and>
           (round > 0 \<or> sha \<noteq> [] \<longrightarrow> review_event_matches_criteria (ev_payload e) round sha) \<and>
           payload_field (get_str ''verdict'') (ev_payload e) = Inr v"
  using assms
proof (induction es)
  case (Cons e es)
  then show ?case by (auto split: if_splits option.splits)
qed simp

lemma latest_verdict_in_Inr:
  assumes "latest_verdict_in events round sha = Inr v"
  shows "\<exists>e\<in>set events. is_review e \<and> validate_review_submitted (ev_payload e) = None \<and>
           (round > 0 \<or> sha \<noteq> [] \<longrightarrow> review_event_matches_criteria (ev_payload e) round sha) \<and>
           payload_field (get_str ''verdict'') (ev_payload e) = Inr v"
  using scan_verdict_Inr [of round sha "rev events" v] assms by (simp add: latest_verdict_in_def)

lemma validated_verdict:
  assumes "validate_review_submitted raw = None"
    and "payload_field (get_str ''verdict'') raw = Inr v"
  shows "v \<in> {''approved'', ''changes_requested''}"
proof -
  obtain j d where "raw = Some j" and d: "dec_review j = Some d"
      "rd_verdict d \<in> {''approved'', ''changes_requested''}"
    using assms(1) by (auto simp: validate_review_submitted_def with_payload_def fails_def
        split: option.splits if_splits)
  moreover from d(1) have "get_str ''verdict'' j = Some (rd_verdict d)"
    by (auto simp: dec_review_def split: option.splits)
  ultimately show ?thesis using assms(2) by (auto simp: payload_field_def)
qed

lemma latest_verdict_range:
  "latest_verdict_in events round sha = Inr v \<Longrightarrow> v \<in> {''approved'', ''changes_requested''}"
  using latest_verdict_in_Inr validated_verdict by blast

text \<open>An event that was appended is the last of the log, and it is valid.\<close>

lemma append_event_ends:
  "ends (append_event E R ty p) (\<lambda>r s. r = None \<longrightarrow>
     (\<exists>pre e. rs_log s = pre @ [e] \<and> ev_type e = ty \<and> ev_payload e = Some p \<and>
        validate_event_payload e = None))"
  by (auto simp: ends_def wp_def append_event_def write_run_event_def op_defs run_prims log_write_def
      fails_def split: option.splits if_splits)

lemma pr_opened_last:
  "ev_type e = EventPROpened \<Longrightarrow> validate_event_payload e = None \<Longrightarrow> pr_opened_in (pre @ [e])"
  by (simp add: pr_opened_in_def find_last_append is_pr_opened_def validate_event_payload_def
      split: if_splits)

lemma has_pr_opened_ends:
  "wp (has_pr_opened_event E) (\<lambda>b t. rs_log t = rs_log s \<and> (b \<longrightarrow> pr_opened_in (rs_log s))) s"
  by (simp add: wp_def has_pr_opened_event_def read_events_run)

end
