(* ===== verification/Loopdef.thy ===== *)
theory Loopdef
  imports Outcome
begin

text \<open>
  \<open>internal/runner/loopdef.go\<close>: the shared context of the step handlers, the terminal steps and
  their outcomes, and the transition table. The operational fields of \<open>RunContext\<close> that never
  change (the paths, the timeout, the parent span and the event writer) are not in the record:
  the paths come from the run's configuration and the writer is the log of the state.
\<close>

definition DevModeInitial :: string where "DevModeInitial = ''initial''"
definition DevModeRetryWithFindings :: string where
  "DevModeRetryWithFindings = ''retry_with_findings''"

record run_ctx =
  rc_dev_attempt :: int
  rc_round :: int
  rc_max_rounds :: int
  rc_resume :: bool
  rc_resume_verdict :: string
  rc_dev_mode :: string
  rc_worktree_create_failed :: bool
  rc_prepare_fail_kind :: string
  rc_pr_state :: string
  rc_gate_reason :: string
  rc_findings :: string
  rc_findings_json :: string
  rc_reviewer_worktree_exists :: bool
  rc_in_merge_rereview :: bool
  rc_merge_rereview_round :: int
  rc_max_merge_rereview_rounds :: int

text \<open>The context of a run that starts from scratch.\<close>

definition initial_ctx :: "int \<Rightarrow> bool \<Rightarrow> run_ctx" where
  "initial_ctx max_rounds resume =
     \<lparr>rc_dev_attempt = 0, rc_round = 1, rc_max_rounds = max_rounds, rc_resume = resume,
      rc_resume_verdict = [], rc_dev_mode = DevModeInitial, rc_worktree_create_failed = False,
      rc_prepare_fail_kind = [], rc_pr_state = [], rc_gate_reason = [], rc_findings = [],
      rc_findings_json = [], rc_reviewer_worktree_exists = False, rc_in_merge_rereview = False,
      rc_merge_rereview_round = 0, rc_max_merge_rereview_rounds = maxMergeReReviewRounds\<rparr>"

section \<open>Terminals\<close>

definition loop_terminals :: "step_key \<Rightarrow> bool" where
  "loop_terminals s \<longleftrightarrow>
     s \<in> {StepTerminalSuccess, StepTerminalDevFailed, StepTerminalReviewFailed,
          StepTerminalEscalated, StepTerminalMergeFailed, StepTerminalTimeout,
          StepTerminalStalled, StepTerminalAborted, StepTerminalSkipped}"

definition terminal_outcome_table :: "(step_key \<times> string \<times> int) list" where
  "terminal_outcome_table =
    [(StepTerminalSuccess, outcomeSuccess, 0),
     (StepTerminalSkipped, outcomeSkipped, 0),
     (StepTerminalDevFailed, outcomeDevFailed, 1),
     (StepTerminalReviewFailed, outcomeReviewFailed, 1),
     (StepTerminalEscalated, outcomeEscalated, 1),
     (StepTerminalMergeFailed, outcomeMergeFailed, 1),
     (StepTerminalTimeout, outcomeTimeout, 1),
     (StepTerminalStalled, outcomeStalled, 1),
     (StepTerminalAborted, outcomeAborted, 1)]"

text \<open>\<open>None\<close> is the panic on an unknown step.\<close>

definition terminal_outcome :: "step_key \<Rightarrow> (string \<times> int) option" where
  "terminal_outcome s = map_of terminal_outcome_table s"

section \<open>The transition table\<close>

definition tr :: "step_key \<Rightarrow> event_key \<Rightarrow> step_key \<Rightarrow> 'c transition" where
  "tr s e t = \<lparr>t_from = s, t_event = e, t_to = t, t_guard = None\<rparr>"

definition trg :: "step_key \<Rightarrow> event_key \<Rightarrow> step_key \<Rightarrow> ('c \<Rightarrow> bool) \<Rightarrow> 'c transition" where
  "trg s e t g = \<lparr>t_from = s, t_event = e, t_to = t, t_guard = Some g\<rparr>"

definition rounds_left :: "run_ctx \<Rightarrow> bool" where
  "rounds_left rc \<longleftrightarrow> \<not> rc_in_merge_rereview rc \<and> rc_round rc < rc_max_rounds rc"

definition rounds_used :: "run_ctx \<Rightarrow> bool" where
  "rounds_used rc \<longleftrightarrow> \<not> rc_in_merge_rereview rc \<and> rc_round rc \<ge> rc_max_rounds rc"

definition rereviews_left :: "run_ctx \<Rightarrow> bool" where
  "rereviews_left rc \<longleftrightarrow>
     rc_in_merge_rereview rc \<and> rc_merge_rereview_round rc < rc_max_merge_rereview_rounds rc"

definition rereviews_used :: "run_ctx \<Rightarrow> bool" where
  "rereviews_used rc \<longleftrightarrow>
     rc_in_merge_rereview rc \<and> rc_merge_rereview_round rc \<ge> rc_max_merge_rereview_rounds rc"

definition loop_transitions :: "run_ctx transition list" where
  "loop_transitions =
    [tr StepPrepare EventNotEligible StepTerminalSkipped,
     trg StepPrepare EventPrepareFailed StepTerminalDevFailed
       (\<lambda>rc. rc_prepare_fail_kind rc = ''dev_failed'' \<or>
             (rc_worktree_create_failed rc \<and> rc_prepare_fail_kind rc = [])),
     trg StepPrepare EventPrepareFailed StepTerminalReviewFailed
       (\<lambda>rc. rc_prepare_fail_kind rc = ''review_failed''),
     trg StepPrepare EventPrepareFailed StepTerminalEscalated
       (\<lambda>rc. rc_prepare_fail_kind rc = ''escalated''),
     trg StepPrepare EventPrepareFailed StepTerminalAborted
       (\<lambda>rc. \<not> rc_worktree_create_failed rc \<and> rc_prepare_fail_kind rc = []),
     trg StepPrepare EventReady StepRunDev
       (\<lambda>rc. \<not> rc_resume rc \<or> rc_resume_verdict rc = ''changes_requested''),
     trg StepPrepare EventReady StepRunReviewer
       (\<lambda>rc. rc_resume rc \<and> rc_resume_verdict rc = []),
     trg StepPrepare EventReady StepMergePR
       (\<lambda>rc. rc_resume rc \<and> rc_resume_verdict rc = ''approved''),
     tr StepRunDev EventDevDone StepSyncCI,
     tr StepRunDev EventDevFailed StepTerminalDevFailed,
     trg StepRunDev EventDevGateRejected StepRunDev (\<lambda>rc. rc_dev_attempt rc < 3),
     trg StepRunDev EventDevGateRejected StepTerminalDevFailed (\<lambda>rc. rc_dev_attempt rc \<ge> 3),
     tr StepRunDev EventAgentTimedOut StepTerminalTimeout,
     tr StepRunDev EventAgentStalled StepTerminalStalled,
     tr StepRunDev EventAgentAborted StepTerminalAborted,
     tr StepSyncCI EventCIGreen StepRunReviewer,
     tr StepSyncCI EventCIFailed StepTerminalDevFailed,
     tr StepSyncCI EventConflictUnresolved StepTerminalDevFailed,
     tr StepSyncCI EventAgentTimedOut StepTerminalTimeout,
     tr StepSyncCI EventAgentStalled StepTerminalStalled,
     tr StepSyncCI EventAgentAborted StepTerminalAborted,
     tr StepRunReviewer EventReviewApproved StepMergePR,
     tr StepRunReviewer EventReviewFailed StepTerminalReviewFailed,
     trg StepRunReviewer EventChangesRequested StepRunDev rounds_left,
     trg StepRunReviewer EventChangesRequested StepTerminalEscalated rounds_used,
     trg StepRunReviewer EventChangesRequested StepRunDev rereviews_left,
     trg StepRunReviewer EventChangesRequested StepTerminalEscalated rereviews_used,
     trg StepRunReviewer EventPrecheckFailed StepRunDev rounds_left,
     trg StepRunReviewer EventPrecheckFailed StepTerminalEscalated rounds_used,
     trg StepRunReviewer EventPrecheckFailed StepRunDev rereviews_left,
     trg StepRunReviewer EventPrecheckFailed StepTerminalEscalated rereviews_used,
     tr StepRunReviewer EventAgentTimedOut StepTerminalTimeout,
     tr StepRunReviewer EventAgentStalled StepTerminalStalled,
     tr StepRunReviewer EventAgentAborted StepTerminalAborted,
     tr StepMergePR EventMerged StepTerminalSuccess,
     tr StepMergePR EventMergeFailed StepTerminalMergeFailed,
     tr StepMergePR EventConflictResolved StepRunReviewer,
     tr StepMergePR EventConflictUnresolved StepTerminalDevFailed,
     tr StepMergePR EventAgentTimedOut StepTerminalTimeout,
     tr StepMergePR EventAgentStalled StepTerminalStalled,
     tr StepMergePR EventAgentAborted StepTerminalAborted]"

section \<open>Which transitions apply\<close>

definition table_matches :: "step_key \<Rightarrow> event_key \<Rightarrow> run_ctx \<Rightarrow> run_ctx transition list" where
  "table_matches s e rc =
     filter (\<lambda>t. t_from t = s \<and> t_event t = e \<and> guard_holds t rc) loop_transitions"

text \<open>The string values the comments of \<open>RunContext\<close> declare valid.\<close>

definition valid_ctx :: "run_ctx \<Rightarrow> bool" where
  "valid_ctx rc \<longleftrightarrow>
     rc_resume_verdict rc \<in> {[], ''approved'', ''changes_requested''} \<and>
     rc_prepare_fail_kind rc \<in> {[], ''dev_failed'', ''review_failed'', ''escalated''}"

definition in_table :: "step_key \<Rightarrow> event_key \<Rightarrow> bool" where
  "in_table s e \<longleftrightarrow> list_ex (\<lambda>t. t_from t = s \<and> t_event t = e) loop_transitions"

lemmas table_defs = table_matches_def loop_transitions_def tr_def trg_def guard_holds_def

lemma tr_simps [simp]:
  "t_from (tr s e t) = s" "t_event (tr s e t) = e" "t_to (tr s e t) = t"
  "t_guard (tr s e t) = None"
  "t_from (trg s e t g) = s" "t_event (trg s e t g) = e" "t_to (trg s e t g) = t"
  "t_guard (trg s e t g) = Some g"
  by (simp_all add: tr_def trg_def)

lemma guard_simps [simp]: "guard_holds (tr s e t) rc" "guard_holds (trg s e t g) rc = g rc"
  by (simp_all add: guard_holds_def)

lemma in_table_iff:
  "in_table s e \<longleftrightarrow>
     (s = StepPrepare \<and> e \<in> {EventNotEligible, EventPrepareFailed, EventReady}) \<or>
     (s = StepRunDev \<and> e \<in> {EventDevDone, EventDevFailed, EventDevGateRejected,
        EventAgentTimedOut, EventAgentStalled, EventAgentAborted}) \<or>
     (s = StepSyncCI \<and> e \<in> {EventCIGreen, EventCIFailed, EventConflictUnresolved,
        EventAgentTimedOut, EventAgentStalled, EventAgentAborted}) \<or>
     (s = StepRunReviewer \<and> e \<in> {EventReviewApproved, EventReviewFailed, EventChangesRequested,
        EventPrecheckFailed, EventAgentTimedOut, EventAgentStalled, EventAgentAborted}) \<or>
     (s = StepMergePR \<and> e \<in> {EventMerged, EventMergeFailed, EventConflictResolved,
        EventConflictUnresolved, EventAgentTimedOut, EventAgentStalled, EventAgentAborted})"
  by (cases s) (auto simp: in_table_def loop_transitions_def)

lemma rounds_cases:
  "rounds_used rc \<longleftrightarrow> \<not> rc_in_merge_rereview rc \<and> \<not> rounds_left rc"
  "rereviews_used rc \<longleftrightarrow> rc_in_merge_rereview rc \<and> \<not> rereviews_left rc"
  "rereviews_left rc \<Longrightarrow> \<not> rounds_left rc"
  "rounds_left rc \<Longrightarrow> \<not> rc_in_merge_rereview rc"
  "rereviews_left rc \<Longrightarrow> rc_in_merge_rereview rc"
  by (auto simp: rounds_left_def rounds_used_def rereviews_left_def rereviews_used_def)

text \<open>The rows of the table for each pair it mentions.\<close>

definition pair_rows :: "step_key \<Rightarrow> event_key \<Rightarrow> run_ctx transition list" where
  "pair_rows s e = filter (\<lambda>t. t_from t = s \<and> t_event t = e) loop_transitions"

lemma table_matches_rows: "table_matches s e rc = filter (\<lambda>t. guard_holds t rc) (pair_rows s e)"
  by (simp add: table_matches_def pair_rows_def conj_ac)

lemma rows_prepare:
  "pair_rows StepPrepare EventNotEligible = [tr StepPrepare EventNotEligible StepTerminalSkipped]"
  "pair_rows StepPrepare EventPrepareFailed =
    [trg StepPrepare EventPrepareFailed StepTerminalDevFailed
       (\<lambda>rc. rc_prepare_fail_kind rc = ''dev_failed'' \<or>
             (rc_worktree_create_failed rc \<and> rc_prepare_fail_kind rc = [])),
     trg StepPrepare EventPrepareFailed StepTerminalReviewFailed
       (\<lambda>rc. rc_prepare_fail_kind rc = ''review_failed''),
     trg StepPrepare EventPrepareFailed StepTerminalEscalated
       (\<lambda>rc. rc_prepare_fail_kind rc = ''escalated''),
     trg StepPrepare EventPrepareFailed StepTerminalAborted
       (\<lambda>rc. \<not> rc_worktree_create_failed rc \<and> rc_prepare_fail_kind rc = [])]"
  "pair_rows StepPrepare EventReady =
    [trg StepPrepare EventReady StepRunDev
       (\<lambda>rc. \<not> rc_resume rc \<or> rc_resume_verdict rc = ''changes_requested''),
     trg StepPrepare EventReady StepRunReviewer
       (\<lambda>rc. rc_resume rc \<and> rc_resume_verdict rc = []),
     trg StepPrepare EventReady StepMergePR
       (\<lambda>rc. rc_resume rc \<and> rc_resume_verdict rc = ''approved'')]"
  by (simp_all add: pair_rows_def loop_transitions_def)

lemma rows_dev:
  "pair_rows StepRunDev EventDevDone = [tr StepRunDev EventDevDone StepSyncCI]"
  "pair_rows StepRunDev EventDevFailed = [tr StepRunDev EventDevFailed StepTerminalDevFailed]"
  "pair_rows StepRunDev EventDevGateRejected =
    [trg StepRunDev EventDevGateRejected StepRunDev (\<lambda>rc. rc_dev_attempt rc < 3),
     trg StepRunDev EventDevGateRejected StepTerminalDevFailed (\<lambda>rc. rc_dev_attempt rc \<ge> 3)]"
  by (simp_all add: pair_rows_def loop_transitions_def)

lemma rows_agent:
  assumes "s \<in> {StepRunDev, StepSyncCI, StepRunReviewer, StepMergePR}"
  shows "pair_rows s EventAgentTimedOut = [tr s EventAgentTimedOut StepTerminalTimeout]"
    and "pair_rows s EventAgentStalled = [tr s EventAgentStalled StepTerminalStalled]"
    and "pair_rows s EventAgentAborted = [tr s EventAgentAborted StepTerminalAborted]"
  using assms by (elim insertE emptyE; simp add: pair_rows_def loop_transitions_def)+

lemma rows_ci:
  "pair_rows StepSyncCI EventCIGreen = [tr StepSyncCI EventCIGreen StepRunReviewer]"
  "pair_rows StepSyncCI EventCIFailed = [tr StepSyncCI EventCIFailed StepTerminalDevFailed]"
  "pair_rows StepSyncCI EventConflictUnresolved =
     [tr StepSyncCI EventConflictUnresolved StepTerminalDevFailed]"
  by (simp_all add: pair_rows_def loop_transitions_def)

lemma rows_reviewer:
  "pair_rows StepRunReviewer EventReviewApproved =
     [tr StepRunReviewer EventReviewApproved StepMergePR]"
  "pair_rows StepRunReviewer EventReviewFailed =
     [tr StepRunReviewer EventReviewFailed StepTerminalReviewFailed]"
  by (simp_all add: pair_rows_def loop_transitions_def)

lemma rows_review_retry:
  assumes "e \<in> {EventChangesRequested, EventPrecheckFailed}"
  shows "pair_rows StepRunReviewer e =
    [trg StepRunReviewer e StepRunDev rounds_left,
     trg StepRunReviewer e StepTerminalEscalated rounds_used,
     trg StepRunReviewer e StepRunDev rereviews_left,
     trg StepRunReviewer e StepTerminalEscalated rereviews_used]"
  using assms by (elim insertE emptyE; simp add: pair_rows_def loop_transitions_def)

lemma rows_merge:
  "pair_rows StepMergePR EventMerged = [tr StepMergePR EventMerged StepTerminalSuccess]"
  "pair_rows StepMergePR EventMergeFailed = [tr StepMergePR EventMergeFailed StepTerminalMergeFailed]"
  "pair_rows StepMergePR EventConflictResolved = [tr StepMergePR EventConflictResolved StepRunReviewer]"
  "pair_rows StepMergePR EventConflictUnresolved =
     [tr StepMergePR EventConflictUnresolved StepTerminalDevFailed]"
  by (simp_all add: pair_rows_def loop_transitions_def)

lemmas rows = rows_prepare rows_dev rows_agent rows_ci rows_reviewer rows_review_retry rows_merge

text \<open>The single transition that applies, as a function.\<close>

definition next_step :: "step_key \<Rightarrow> event_key \<Rightarrow> run_ctx \<Rightarrow> step_key" where
  "next_step s e rc = t_to (hd (table_matches s e rc))"

lemma table_unique_prepare:
  assumes "valid_ctx rc" and "e \<in> {EventNotEligible, EventPrepareFailed, EventReady}"
  shows "length (table_matches StepPrepare e rc) = 1"
  using assms
  by (cases "rc_resume rc"; cases "rc_worktree_create_failed rc")
    (auto simp: table_matches_rows rows_prepare valid_ctx_def)

lemma table_unique_aux:
  assumes "valid_ctx rc" and "in_table s e"
  shows "length (table_matches s e rc) = 1"
proof -
  have "e \<in> {EventChangesRequested, EventPrecheckFailed} \<Longrightarrow>
      length (table_matches StepRunReviewer e rc) = 1"
    by (cases "rounds_left rc"; cases "rereviews_left rc")
      (simp_all add: table_matches_rows rows_review_retry rounds_cases(1,2) rounds_cases(3-5))
  moreover have "s \<in> {StepRunDev, StepSyncCI, StepRunReviewer, StepMergePR} \<Longrightarrow>
      e \<in> {EventAgentTimedOut, EventAgentStalled, EventAgentAborted} \<Longrightarrow>
      length (table_matches s e rc) = 1"
    by (elim insertE emptyE) (simp_all add: table_matches_rows rows_agent)
  ultimately show ?thesis
    using assms(2) table_unique_prepare [OF assms(1)]
    unfolding in_table_iff
    by (elim disjE conjE insertE emptyE)
      (simp_all add: table_matches_rows rows_dev rows_ci rows_reviewer rows_merge)
qed

section \<open>Properties\<close>

text \<open>
  C7: For every pair of step and event the transition table mentions and every context whose
  resume verdict and prepare-failure kind have one of their documented values, exactly one
  transition applies: the guards of a pair are disjoint and total, so such an event can never
  end a run with the machine's transition error.
\<close>

theorem transitions_disjoint_total:
  assumes "valid_ctx rc" and "in_table s e"
  shows "\<exists>t. table_matches s e rc = [t]"
  using table_unique_aux [OF assms] by (cases "table_matches s e rc") auto

theorem transitions_disjoint_total_witness:
  "\<exists>t. table_matches StepRunReviewer EventChangesRequested (initial_ctx 3 False) = [t]"
  by (rule transitions_disjoint_total) (simp_all add: valid_ctx_def initial_ctx_def in_table_iff)

end
