(* ===== verification/Worktree.thy ===== *)
theory Worktree
  imports World
begin

text \<open>
  The package \<open>internal/worktree\<close>: creation of the dev and reviewer worktrees, the resume path,
  the dirty check and the cleanup, each the exact sequence of git commands of the source with
  its early returns. An operation returns \<open>None\<close> for Go's \<open>nil\<close> error. The fingerprint of a
  worktree (\<open>internal/worktreefingerprint\<close>) is here too: git's answers and the untracked files
  are hashed with a hash that is a parameter.
\<close>

definition worktree_path :: "string \<Rightarrow> int \<Rightarrow> string" where
  "worktree_path gdir n = path_join [gdir, ''worktrees'', ''issue-'' @ itoa n]"

definition branch_name :: "int \<Rightarrow> string" where
  "branch_name n = ''golemic/issue-'' @ itoa n"

definition reviewer_worktree_path :: "string \<Rightarrow> int \<Rightarrow> string" where
  "reviewer_worktree_path gdir n =
     path_join [gdir, ''worktrees'', ''issue-'' @ itoa n @ ''-review'']"

text \<open>
  Run one command; on failure stop with the wrapped error, otherwise go on with its output.
\<close>

definition or_fail ::
    "(gerr \<Rightarrow> gerr) \<Rightarrow> string result M \<Rightarrow> (string \<Rightarrow> gerr option M) \<Rightarrow> gerr option M" where
  "or_fail wrap m k = do { r \<leftarrow> m; (case r of Inl e \<Rightarrow> ret (Some (wrap e)) | Inr out \<Rightarrow> k out) }"

definition cred_helper :: string where
  "cred_helper = ''!f() { echo username=x-access-token; echo password=$GH_TOKEN; }; f''"

definition configure_worktree_git :: "env \<Rightarrow> string \<Rightarrow> string \<Rightarrow> gerr option M" where
  "configure_worktree_git E wt login =
     or_fail (wrap_err ''GIT_CONFIG_FAILED: credential.helper: '')
       (run_cmd E [''git'', ''-C'', wt, ''config'', ''credential.helper'', cred_helper]) (\<lambda>_.
     or_fail (wrap_err ''GIT_CONFIG_FAILED: user.name: '')
       (run_cmd E [''git'', ''-C'', wt, ''config'', ''user.name'', login]) (\<lambda>_.
     or_fail (wrap_err ''GIT_CONFIG_FAILED: user.email: '')
       (run_cmd E [''git'', ''-C'', wt, ''config'', ''user.email'', login]) (\<lambda>_. ret None)))"

text \<open>The \<open>worktree_created\<close> event; a Go map is marshalled with its keys sorted.\<close>

definition worktree_event :: "env \<Rightarrow> string \<Rightarrow> int \<Rightarrow> string \<Rightarrow> string \<Rightarrow> string \<Rightarrow> string \<Rightarrow> gerr option M" where
  "worktree_event E run_id turn path branch base role =
     do {
       ts \<leftarrow> now E;
       err \<leftarrow> write_event E \<lparr>ev_type = EventWorktreeCreated, ev_ts = ts, ev_run_id = run_id,
                ev_turn_id = turn,
                ev_payload = Some (JObj [(''baseSha'', JStr base), (''branch'', JStr branch),
                                         (''path'', JStr path), (''role'', JStr role)])\<rparr>;
       ret (map_option (wrap_err ''EVENT_WRITE_FAILED: '') err)
     }"

definition worktree_create ::
    "env \<Rightarrow> string \<Rightarrow> string \<Rightarrow> string \<Rightarrow> int \<Rightarrow> string \<Rightarrow> int \<Rightarrow> gerr option M" where
  "worktree_create E root gdir run_id n login turn =
     (if n \<le> 0 then ret (Some (msg_err (''INVALID_ISSUE_NUMBER: '' @ itoa n)))
      else
        or_fail (wrap_err ''GIT_FETCH_FAILED: '')
          (run_cmd E [''git'', ''-C'', root, ''fetch'', ''origin'']) (\<lambda>_.
        or_fail (wrap_err ''GIT_REV_PARSE_FAILED: '')
          (run_cmd E [''git'', ''-C'', root, ''rev-parse'', ''origin/main'']) (\<lambda>base_out.
        let base = trim_space base_out;
            wt = worktree_path gdir n;
            branch = branch_name n
        in or_fail (wrap_err ''GIT_WORKTREE_ADD_FAILED: '')
          (run_cmd E [''git'', ''-C'', root, ''worktree'', ''add'', wt, ''-b'', branch, ''origin/main'']) (\<lambda>_.
        do {
          err \<leftarrow> configure_worktree_git E wt login;
          (case err of Some e \<Rightarrow> ret (Some e)
           | None \<Rightarrow> worktree_event E run_id turn wt branch base ''dev'')
        }))))"

definition worktree_create_for_reviewer ::
    "env \<Rightarrow> string \<Rightarrow> string \<Rightarrow> string \<Rightarrow> int \<Rightarrow> string \<Rightarrow> string \<Rightarrow> int \<Rightarrow> gerr option M" where
  "worktree_create_for_reviewer E root gdir run_id n branch login turn =
     (if n \<le> 0 then ret (Some (msg_err (''INVALID_ISSUE_NUMBER: '' @ itoa n)))
      else
        let remote = ''origin/'' @ branch; wt = reviewer_worktree_path gdir n
        in or_fail (wrap_err ''GIT_FETCH_FAILED: '')
          (run_cmd E [''git'', ''-C'', root, ''fetch'', ''origin'']) (\<lambda>_.
        or_fail (\<lambda>_. msg_err (''REMOTE_BRANCH_NOT_FOUND: Remote branch '' @ remote @ '' not found; was the branch pushed?''))
          (run_cmd E [''git'', ''-C'', root, ''rev-parse'', ''--verify'', remote]) (\<lambda>_.
        or_fail (wrap_err ''GIT_REV_PARSE_FAILED: '')
          (run_cmd E [''git'', ''-C'', root, ''rev-parse'', remote]) (\<lambda>base_out.
        or_fail (wrap_err ''GIT_WORKTREE_ADD_FAILED: '')
          (run_cmd E [''git'', ''-C'', root, ''worktree'', ''add'', wt, remote]) (\<lambda>_.
        do {
          err \<leftarrow> configure_worktree_git E wt login;
          (case err of Some e \<Rightarrow> ret (Some e)
           | None \<Rightarrow> worktree_event E run_id turn wt branch (trim_space base_out) ''reviewer'')
        })))))"

text \<open>
  The scan of \<open>git worktree list --porcelain\<close>: the path and branch of the entry being read,
  the lines left.
\<close>

fun scan_worktrees :: "string \<Rightarrow> string \<Rightarrow> string \<Rightarrow> string list \<Rightarrow> bool \<times> string" where
  "scan_worktrees wt cur_path cur_branch [] =
     (if cur_path = wt then (True, cur_branch) else (False, []))"
| "scan_worktrees wt cur_path cur_branch (l # ls) =
     (let line = trim_space l in
      if has_prefix ''worktree '' line then scan_worktrees wt (drop 9 line) [] ls
      else if has_prefix ''branch '' line then scan_worktrees wt cur_path (drop 7 line) ls
      else if line = [] then
        (if cur_path = wt then (True, cur_branch) else scan_worktrees wt [] [] ls)
      else scan_worktrees wt cur_path cur_branch ls)"

definition registered_worktree_branch :: "env \<Rightarrow> string \<Rightarrow> string \<Rightarrow> (bool \<times> string) result M" where
  "registered_worktree_branch E root wt =
     do {
       r \<leftarrow> run_cmd E [''git'', ''-C'', root, ''worktree'', ''list'', ''--porcelain''];
       ret (case r of Inl e \<Rightarrow> Inl e | Inr out \<Rightarrow> Inr (scan_worktrees wt [] [] (split_on newline out)))
     }"

definition create_for_resume ::
    "env \<Rightarrow> string \<Rightarrow> string \<Rightarrow> string \<Rightarrow> int \<Rightarrow> string \<Rightarrow> int \<Rightarrow> gerr option M" where
  "create_for_resume E root gdir run_id n login turn =
     (let branch = branch_name n; wt = worktree_path gdir n; remote = ''origin/'' @ branch in
      or_fail (wrap_err ''GIT_FETCH_FAILED: '')
        (run_cmd E [''git'', ''-C'', root, ''fetch'', ''origin'']) (\<lambda>_.
      or_fail (\<lambda>_. msg_err (''REMOTE_BRANCH_NOT_FOUND: Remote branch origin/'' @ branch @ '' not found; was the branch pushed?''))
        (run_cmd E [''git'', ''-C'', root, ''ls-remote'', ''--exit-code'', ''--heads'', ''origin'', branch]) (\<lambda>ls_out.
      case split_fields ls_out of
        [] \<Rightarrow> ret (Some (msg_err (''REMOTE_BRANCH_NOT_FOUND: Remote branch origin/'' @ branch @ '' returned no ref'')))
      | base # _ \<Rightarrow>
          or_fail (wrap_err ''GIT_WORKTREE_ADD_FAILED: '')
            (run_cmd E [''git'', ''-C'', root, ''worktree'', ''add'', ''--track'', ''-B'', branch, wt, remote]) (\<lambda>_.
          do {
            err \<leftarrow> configure_worktree_git E wt login;
            (case err of Some e \<Rightarrow> ret (Some e)
             | None \<Rightarrow> worktree_event E run_id turn wt branch base ''dev'')
          }))))"

definition ensure_for_resume ::
    "env \<Rightarrow> string \<Rightarrow> string \<Rightarrow> string \<Rightarrow> int \<Rightarrow> string \<Rightarrow> int \<Rightarrow> gerr option M" where
  "ensure_for_resume E root gdir run_id n login turn =
     (if n \<le> 0 then ret (Some (msg_err (''INVALID_ISSUE_NUMBER: '' @ itoa n)))
      else do {
        r \<leftarrow> registered_worktree_branch E root (worktree_path gdir n);
        (case r of
           Inl e \<Rightarrow> ret (Some (wrap_err ''failed to inspect existing worktrees: '' e))
         | Inr (registered, cur_branch) \<Rightarrow>
             if registered then
               (if cur_branch = ''refs/heads/'' @ branch_name n then ret None
                else ret (Some (msg_err ''dev worktree is registered on another branch; resolve manually before resuming'')))
             else create_for_resume E root gdir run_id n login turn)
      })"

definition is_dirty :: "env \<Rightarrow> string \<Rightarrow> bool result M" where
  "is_dirty E wt =
     do {
       r \<leftarrow> run_cmd E [''git'', ''-C'', wt, ''status'', ''--porcelain''];
       ret (case r of Inl e \<Rightarrow> Inl (wrap_err ''GIT_STATUS_FAILED: '' e)
            | Inr out \<Rightarrow> Inr (trim_space out \<noteq> []))
     }"

definition worktree_cleanup :: "env \<Rightarrow> string \<Rightarrow> string \<Rightarrow> int \<Rightarrow> gerr option M" where
  "worktree_cleanup E root gdir n =
     or_fail (wrap_err ''CLEANUP_REMOVE_FAILED: '')
       (run_cmd E [''git'', ''-C'', root, ''worktree'', ''remove'', worktree_path gdir n]) (\<lambda>_.
     or_fail (wrap_err ''CLEANUP_BRANCH_FAILED: '')
       (run_cmd E [''git'', ''-C'', root, ''branch'', ''-D'', branch_name n]) (\<lambda>_. ret None))"

definition worktree_cleanup_reviewer :: "env \<Rightarrow> string \<Rightarrow> string \<Rightarrow> int \<Rightarrow> gerr option M" where
  "worktree_cleanup_reviewer E root gdir n =
     or_fail (wrap_err ''CLEANUP_REMOVE_FAILED: '')
       (run_cmd E [''git'', ''-C'', root, ''worktree'', ''remove'', reviewer_worktree_path gdir n]) (\<lambda>_.
        ret None)"

section \<open>The fingerprint\<close>

definition parse_nul_list :: "string \<Rightarrow> string list" where
  "parse_nul_list out = filter (\<lambda>p. p \<noteq> []) (split_on (CHR 0x00) out)"

text \<open>The framed untracked entries, or the first file that cannot be read.\<close>

fun hash_entries :: "env \<Rightarrow> string \<Rightarrow> string list \<Rightarrow> string \<Rightarrow> string result M" where
  "hash_entries E wt [] acc = ret (Inr acc)"
| "hash_entries E wt (p # ps) acc =
     do {
       r \<leftarrow> read_entry E (path_join [wt, p]);
       (case r of
          Inl e \<Rightarrow> ret (Inl (wrap_err (''worktreefingerprint: read '' @ p @ '': '') e))
        | Inr content \<Rightarrow>
            hash_entries E wt ps
              (acc @ itoa (int (length p)) @ '':'' @ p @ itoa (int (length content)) @ '':'' @ content))
     }"

definition fingerprint_compute :: "env \<Rightarrow> string \<Rightarrow> string result M" where
  "fingerprint_compute E wt =
     do {
       r1 \<leftarrow> run_in_dir E wt [''git'', ''status'', ''--porcelain=v1'', ''--untracked-files=all''];
       (case r1 of Inl e \<Rightarrow> ret (Inl (wrap_err ''worktreefingerprint: git status: '' e))
        | Inr status_out \<Rightarrow> do {
       r2 \<leftarrow> run_in_dir E wt [''git'', ''diff'', ''--binary'', ''HEAD''];
       (case r2 of Inl e \<Rightarrow> ret (Inl (wrap_err ''worktreefingerprint: git diff: '' e))
        | Inr diff_out \<Rightarrow> do {
       r3 \<leftarrow> run_in_dir E wt [''git'', ''ls-files'', ''--others'', ''--exclude-standard'', ''-z''];
       (case r3 of Inl e \<Rightarrow> ret (Inl (wrap_err ''worktreefingerprint: git ls-files: '' e))
        | Inr untracked \<Rightarrow> do {
       h \<leftarrow> hash_entries E wt (sort_strings (parse_nul_list untracked)) (status_out @ diff_out);
       ret (case h of Inl e \<Rightarrow> Inl e | Inr bytes \<Rightarrow> Inr (''sha256:'' @ e_sha256 E bytes)) }) }) })
     }"

section \<open>Lemmas\<close>

lemmas worktree_defs =
  configure_worktree_git_def worktree_event_def worktree_create_def
  worktree_create_for_reviewer_def registered_worktree_branch_def create_for_resume_def
  ensure_for_resume_def is_dirty_def worktree_cleanup_def worktree_cleanup_reviewer_def

lemma grows_or_fail [grows]:
  "upholds history_grows m \<Longrightarrow> (\<And>out. upholds history_grows (k out)) \<Longrightarrow>
     upholds history_grows (or_fail w m k)"
  unfolding or_fail_def by (intro grows)

lemma calls_or_fail [emits]:
  "upholds (only_calls A) m \<Longrightarrow> (\<And>out. upholds (only_calls A) (k out)) \<Longrightarrow>
     upholds (only_calls A) (or_fail w m k)"
  unfolding or_fail_def by (intro emits)

lemma grows_configure [grows]: "upholds history_grows (configure_worktree_git E wt login)"
  unfolding configure_worktree_git_def by (intro grows)

lemma grows_worktree_event [grows]: "upholds history_grows (worktree_event E rid t p b base role)"
  unfolding worktree_event_def by (intro grows)

lemma grows_worktree [grows]:
  "upholds history_grows (worktree_create E root d rid n login t)"
  "upholds history_grows (worktree_create_for_reviewer E root d rid n b login t)"
  "upholds history_grows (registered_worktree_branch E root wt)"
  "upholds history_grows (create_for_resume E root d rid n login t)"
  "upholds history_grows (is_dirty E wt)"
  "upholds history_grows (worktree_cleanup E root d n)"
  "upholds history_grows (worktree_cleanup_reviewer E root d n)"
  unfolding worktree_create_def worktree_create_for_reviewer_def registered_worktree_branch_def
    create_for_resume_def is_dirty_def worktree_cleanup_def worktree_cleanup_reviewer_def
  by (intro grows)+

lemma grows_ensure_for_resume [grows]:
  "upholds history_grows (ensure_for_resume E root d rid n login t)"
  unfolding ensure_for_resume_def by (intro grows)

lemma grows_hash_entries [grows]: "upholds history_grows (hash_entries E wt ps acc)"
proof (induction ps arbitrary: acc)
  case Nil
  show ?case by (simp, intro grows)
next
  case (Cons p ps)
  show ?case by (simp, intro grows Cons.IH)
qed

lemma grows_fingerprint [grows]: "upholds history_grows (fingerprint_compute E wt)"
  unfolding fingerprint_compute_def by (intro grows)

text \<open>None of these operations runs anything but git.\<close>

definition git_call :: "call \<Rightarrow> bool" where
  "git_call c \<longleftrightarrow> (case c of
     CExec (Cmd env _ argv) _ \<Rightarrow> env = [] \<and> (case argv of [] \<Rightarrow> False | a # _ \<Rightarrow> a = ''git'')
   | CLogWrite _ _ \<Rightarrow> True | CReadEntry _ _ \<Rightarrow> True | _ \<Rightarrow> False)"

lemma git_call_simps [simp]:
  "git_call (CExec (Cmd [] d (''git'' # args)) r)"
  "git_call (CLogWrite e b)" "git_call (CReadEntry p c)"
  by (simp_all add: git_call_def)

lemma calls_configure [emits]:
  "(\<And>d args r. A (CExec (Cmd [] d (''git'' # args)) r)) \<Longrightarrow>
     upholds (only_calls A) (configure_worktree_git E wt login)"
  unfolding configure_worktree_git_def by (intro emits) simp_all

lemma calls_worktree_event [emits]:
  "(\<And>e b. A (CLogWrite e b)) \<Longrightarrow> upholds (only_calls A) (worktree_event E rid t p b base role)"
  unfolding worktree_event_def by (intro emits) simp_all

lemma calls_worktree:
  assumes "\<And>d args r. A (CExec (Cmd [] d (''git'' # args)) r)" and "\<And>e b. A (CLogWrite e b)"
  shows "upholds (only_calls A) (worktree_create E root d rid n login t)"
    and "upholds (only_calls A) (worktree_create_for_reviewer E root d rid n b login t)"
    and "upholds (only_calls A) (registered_worktree_branch E root wt)"
    and "upholds (only_calls A) (create_for_resume E root d rid n login t)"
    and "upholds (only_calls A) (is_dirty E wt)"
    and "upholds (only_calls A) (worktree_cleanup E root d n)"
    and "upholds (only_calls A) (worktree_cleanup_reviewer E root d n)"
  unfolding worktree_create_def worktree_create_for_reviewer_def registered_worktree_branch_def
    create_for_resume_def is_dirty_def worktree_cleanup_def worktree_cleanup_reviewer_def
  by (intro emits assms)+

lemma calls_ensure_for_resume:
  assumes "\<And>d args r. A (CExec (Cmd [] d (''git'' # args)) r)" and "\<And>e b. A (CLogWrite e b)"
  shows "upholds (only_calls A) (ensure_for_resume E root d rid n login t)"
  unfolding ensure_for_resume_def by (intro emits calls_worktree assms)

lemma calls_hash_entries [emits]:
  assumes "\<And>p r. A (CReadEntry p r)"
  shows "upholds (only_calls A) (hash_entries E wt ps acc)"
proof (induction ps arbitrary: acc)
  case Nil
  show ?case by (simp, intro emits)
next
  case (Cons p ps)
  show ?case by (simp, intro emits Cons.IH assms)
qed

lemma calls_fingerprint:
  assumes "\<And>d args r. A (CExec (Cmd [] d (''git'' # args)) r)" and "\<And>p r. A (CReadEntry p r)"
  shows "upholds (only_calls A) (fingerprint_compute E wt)"
  unfolding fingerprint_compute_def by (intro emits assms)

end
