(* ===== verification/CI_Gate.thy ===== *)
theory CI_Gate
  imports Loopdef Worktree
begin

text \<open>
  \<open>internal/runner/ciwait.go\<close>: the check-run buckets and their classification, the queries for
  the PR head and for a given commit, the polling loop and the CI gate with its dev retries.
  The poll loop waits on a ticker and a deadline; \<open>ticks_before_deadline\<close> is the number of
  ticks that fire before the deadline does, so the loop is a recursion on that number.
\<close>

definition maxCILogBytes :: nat where "maxCILogBytes = 8000"
definition maxCIFixRounds :: int where "maxCIFixRounds = 2"
definition branchProtectionRequiredCICheck :: string where
  "branchProtectionRequiredCICheck = ''verify''"

record check_item =
  ci_name :: string
  ci_bucket :: string
  ci_link :: string

section \<open>Buckets and classification\<close>

definition check_run_bucket :: "string \<Rightarrow> string \<Rightarrow> string" where
  "check_run_bucket status conclusion =
     (if status \<noteq> ''completed'' then ''pending''
      else if conclusion \<in> {''success'', ''neutral'', ''skipped''} then ''pass''
      else if conclusion \<in> {''failure'', ''cancelled'', ''timed_out'', ''action_required''} then ''fail''
      else ''pending'')"

definition categorize_bucket :: "string \<Rightarrow> string" where
  "categorize_bucket bucket =
     (if bucket \<in> {''pass'', ''skipping''} then ''pass''
      else if bucket \<in> {''fail'', ''cancel'', ''actionRequired''} then ''fail''
      else ''pending'')"

text \<open>The loop of \<open>classifyChecks\<close>: failed checks in order, pending seen, required check seen.\<close>

fun scan_checks :: "check_item list \<Rightarrow> check_item list \<times> bool \<times> bool \<Rightarrow> check_item list \<times> bool \<times> bool" where
  "scan_checks [] acc = acc"
| "scan_checks (c # cs) (failed, pending, required) =
     (let required' = (required \<or> ci_name c = branchProtectionRequiredCICheck);
          cat = categorize_bucket (ci_bucket c)
      in if cat = ''fail'' then scan_checks cs (failed @ [c], pending, required')
         else if cat = ''pending'' then scan_checks cs (failed, True, required')
         else scan_checks cs (failed, pending, required'))"

definition classify_checks :: "check_item list \<Rightarrow> string \<times> check_item list" where
  "classify_checks checks =
     (let (failed, pending, required) = scan_checks checks ([], False, False) in
      if failed \<noteq> [] then (''red'', failed)
      else if pending \<or> \<not> required then (''pending'', [])
      else (''green'', []))"

section \<open>Queries\<close>

definition get_pr_head_sha :: "env \<Rightarrow> rconfig \<Rightarrow> int \<Rightarrow> string result M" where
  "get_pr_head_sha E R pr =
     do {
       r \<leftarrow> run_with_token E (r_dev_token R) (r_repo_root R)
         [''gh'', ''pr'', ''view'', itoa pr, ''--json'', ''headRefOid'', ''--jq'', ''.headRefOid''];
       ret (case r of Inl e \<Rightarrow> Inl (wrap_err ''failed to get PR head SHA: '' e)
            | Inr out \<Rightarrow> Inr (trim_space out))
     }"

definition get_repo_nwo :: "env \<Rightarrow> rconfig \<Rightarrow> string result M" where
  "get_repo_nwo E R =
     do {
       cached \<leftarrow> get_nwo;
       if cached \<noteq> [] then ret (Inr cached)
       else handle (run_with_token E (r_dev_token R) (r_repo_root R)
                [''gh'', ''repo'', ''view'', ''--json'', ''nameWithOwner'', ''--jq'', ''.nameWithOwner''])
              (\<lambda>e. ret (Inl (wrap_err ''failed to get repo NWO: '' e)))
              (\<lambda>out. do { set_nwo (trim_space out); ret (Inr (trim_space out)) })
     }"

definition dec_check_run :: "json \<Rightarrow> check_item option" where
  "dec_check_run j =
     (case (get_str ''name'' j, get_str ''status'' j, get_str ''conclusion'' j, get_str ''html_url'' j) of
        (Some n, Some s, Some c, Some u) \<Rightarrow>
          Some \<lparr>ci_name = n, ci_bucket = check_run_bucket s c, ci_link = u\<rparr>
      | _ \<Rightarrow> None)"

text \<open>What \<open>queryCheckRunsForSHA\<close> makes of the answer of the check-runs API.\<close>

definition parse_check_runs :: "string \<Rightarrow> check_item list result" where
  "parse_check_runs out0 =
     (let out = trim_space out0 in
      if out = [] \<or> out = ''null'' then Inr []
      else (case unmarshal_into (get_list dec_check_run ''check_runs'') out of
              None \<Rightarrow> Inl (msg_err ''CHECKS_QUERY_FAILED: failed to parse check-runs response: '')
            | Some items \<Rightarrow> Inr items))"

definition check_runs_path :: "string \<Rightarrow> string \<Rightarrow> string" where
  "check_runs_path nwo sha = ''repos/'' @ nwo @ ''/commits/'' @ sha @ ''/check-runs''"

definition query_check_runs_for_sha ::
    "env \<Rightarrow> rconfig \<Rightarrow> string \<Rightarrow> string \<Rightarrow> check_item list result M" where
  "query_check_runs_for_sha E R nwo sha =
     do {
       r \<leftarrow> run_with_token E (r_dev_token R) (r_repo_root R) [''gh'', ''api'', check_runs_path nwo sha];
       ret (case r of Inl e \<Rightarrow> Inl (wrap_err ''CHECKS_QUERY_FAILED: check-runs API failed: '' e)
            | Inr out \<Rightarrow> parse_check_runs out)
     }"

definition get_local_head_sha :: "env \<Rightarrow> string \<Rightarrow> string result M" where
  "get_local_head_sha E wt =
     do {
       r \<leftarrow> run_in_dir E wt [''git'', ''rev-parse'', ''HEAD''];
       ret (case r of Inl e \<Rightarrow> Inl (wrap_err ''failed to get local HEAD SHA: '' e)
            | Inr out \<Rightarrow> Inr (trim_space out))
     }"

text \<open>The classification of a query's answer: no checks at all is pending.\<close>

definition settle :: "check_item list \<Rightarrow> string \<times> check_item list" where
  "settle checks = (if checks = [] then (''pending'', []) else classify_checks checks)"

definition query_sha :: "env \<Rightarrow> rconfig \<Rightarrow> string \<Rightarrow> string \<Rightarrow> (string \<times> check_item list) result M" where
  "query_sha E R nwo sha =
     handle (query_check_runs_for_sha E R nwo sha) (\<lambda>e. ret (Inl e)) (\<lambda>checks. ret (Inr (settle checks)))"

definition query_ci_checks :: "env \<Rightarrow> rconfig \<Rightarrow> int \<Rightarrow> (string \<times> check_item list) result M" where
  "query_ci_checks E R pr =
     handle (get_pr_head_sha E R pr) (\<lambda>e. ret (Inl (wrap_err ''CHECKS_QUERY_FAILED: '' e))) (\<lambda>sha.
     handle (get_repo_nwo E R) (\<lambda>e. ret (Inl (wrap_err ''CHECKS_QUERY_FAILED: '' e))) (\<lambda>nwo.
     query_sha E R nwo sha))"

fun poll_ticks :: "nat \<Rightarrow> (string \<times> check_item list) result M \<Rightarrow> (string \<times> check_item list) result M" where
  "poll_ticks 0 query = ret (Inr (''timeout'', []))"
| "poll_ticks (Suc n) query =
     handle query (\<lambda>e. ret (Inl e)) (\<lambda>(result, failed).
       if result \<noteq> ''pending'' then ret (Inr (result, failed)) else poll_ticks n query)"

definition poll_until_settled ::
    "env \<Rightarrow> (string \<times> check_item list) result M \<Rightarrow> (string \<times> check_item list) result M" where
  "poll_until_settled E query =
     handle query (\<lambda>e. ret (Inl e)) (\<lambda>(result, failed).
       if result \<noteq> ''pending'' then ret (Inr (result, failed))
       else do { n \<leftarrow> ticks_before_deadline E; poll_ticks n query })"

definition poll_check_runs_for_sha ::
    "env \<Rightarrow> rconfig \<Rightarrow> string \<Rightarrow> string \<Rightarrow> (string \<times> check_item list) result M" where
  "poll_check_runs_for_sha E R sha nwo = poll_until_settled E (query_sha E R nwo sha)"

definition poll_ci_checks :: "env \<Rightarrow> rconfig \<Rightarrow> int \<Rightarrow> (string \<times> check_item list) result M" where
  "poll_ci_checks E R pr = poll_until_settled E (query_ci_checks E R pr)"

section \<open>Failed check logs\<close>

text \<open>The first match of \<open>/actions/runs/(\d+)\<close> in a link.\<close>

fun find_run_id :: "string \<Rightarrow> string option" where
  "find_run_id [] = None"
| "find_run_id (c # cs) =
     (if has_prefix ''/actions/runs/'' (c # cs) \<and>
         takeWhile is_digit (drop 14 (c # cs)) \<noteq> []
      then Some (takeWhile is_digit (drop 14 (c # cs)))
      else find_run_id cs)"

definition fetch_run_log :: "env \<Rightarrow> rconfig \<Rightarrow> string \<Rightarrow> string M" where
  "fetch_run_log E R run_id =
     handle (run_with_token E (r_dev_token R) (r_repo_root R)
         [''gh'', ''run'', ''view'', run_id, ''--log-failed''])
       (\<lambda>_. ret [])
       (\<lambda>log. ret (if trim_space log = [] then []
                   else if length log > maxCILogBytes
                   then take maxCILogBytes log @ [newline] @ ''... (truncated)''
                   else log))"

definition append_check_log :: "env \<Rightarrow> rconfig \<Rightarrow> check_item \<Rightarrow> string M" where
  "append_check_log E R c =
     (case find_run_id (ci_link c) of
        Some run_id \<Rightarrow> do {
          log \<leftarrow> fetch_run_log E R run_id;
          ret (if log \<noteq> [] then ''```'' @ [newline] @ log @ [newline] @ ''```'' @ [newline]
               else ''(log unavailable; details: '' @ ci_link c @ '')'' @ [newline])
        }
      | None \<Rightarrow>
          ret (if ci_link c \<noteq> [] then ''Details: '' @ ci_link c @ [newline]
               else ''(no details link available)'' @ [newline]))"

fun collect_logs :: "env \<Rightarrow> rconfig \<Rightarrow> check_item list \<Rightarrow> string \<Rightarrow> string M" where
  "collect_logs E R [] acc = ret acc"
| "collect_logs E R (c # cs) acc =
     do {
       t \<leftarrow> append_check_log E R c;
       collect_logs E R cs (acc @ ''### '' @ ci_name c @ [newline] @ t @ [newline])
     }"

definition collect_failed_check_logs :: "env \<Rightarrow> rconfig \<Rightarrow> check_item list \<Rightarrow> string M" where
  "collect_failed_check_logs E R checks =
     (if checks = [] then ret ''No specific failed checks recorded.'' else collect_logs E R checks [])"

definition build_failed_check_info :: "env \<Rightarrow> rconfig \<Rightarrow> string \<Rightarrow> check_item list \<Rightarrow> string M" where
  "build_failed_check_info E R result failed =
     (if result = ''red'' \<and> failed \<noteq> [] then collect_failed_check_logs E R failed
      else ret (''CI checks '' @ result @ ''; no specific failure logs available.''))"

section \<open>The gate\<close>

definition write_ci_wait_finished :: "env \<Rightarrow> rconfig \<Rightarrow> string \<Rightarrow> int \<Rightarrow> unit M" where
  "write_ci_wait_finished E R result round =
     do { _ \<leftarrow> append_event E R EventCIWaitFinished (marshal_ci_wait_finished result round); ret () }"

definition post_ci_escalation_comment :: "env \<Rightarrow> rconfig \<Rightarrow> int \<Rightarrow> string \<Rightarrow> unit M" where
  "post_ci_escalation_comment E R pr message =
     do {
       _ \<leftarrow> run_with_token E (r_dev_token R) (r_repo_root R)
         [''gh'', ''pr'', ''comment'', itoa pr, ''--body'',
          ''golemic: '' @ message @ '' for issue #'' @ itoa (r_issue_num R) @ '' (PR #'' @ itoa pr @
          ''). Human intervention required.''];
       ret ()
     }"

definition get_remote_branch_sha :: "env \<Rightarrow> rconfig \<Rightarrow> string result M" where
  "get_remote_branch_sha E R =
     do {
       r \<leftarrow> run_in_dir E (r_repo_root R) [''git'', ''ls-remote'', ''origin'', r_branch R];
       ret (case r of Inl e \<Rightarrow> Inl e
            | Inr out \<Rightarrow> (case split_fields (trim_space out) of [] \<Rightarrow> Inr [] | f # _ \<Rightarrow> Inr f))
     }"

definition gmDevToolNames :: "string list" where
  "gmDevToolNames = [''gm_slice_get'', ''gm_project_check'', ''gm_dev_done'']"

definition gmCodeToolNames :: "string list" where
  "gmCodeToolNames =
    [''gm_code_search'', ''gm_code_search_graph'', ''gm_code_query_graph'',
     ''gm_code_trace_call_path'', ''gm_code_get_architecture'', ''gm_code_get_graph_schema'',
     ''gm_code_get_snippet'', ''gm_code_detect_changes'']"

definition gmReviewerToolNames :: "string list" where
  "gmReviewerToolNames =
    [''gm_slice_get'', ''gm_pr_view'', ''gm_repo_tree'', ''gm_review_submit_comment'', ''gm_review_submit'']"

definition baseDevTools :: "string list" where
  "baseDevTools = [''read'', ''bash'', ''write'', ''edit'']"

definition handle_ci_retry_agent_result :: "env \<Rightarrow> rconfig \<Rightarrow> agent_reply \<Rightarrow> string option M" where
  "handle_ci_retry_agent_result E R rep =
     (case ar_err rep of
        Some AgentTimeout \<Rightarrow> ret (Some outcomeDevFailed)
      | Some AgentStalled \<Rightarrow> ret (Some outcomeStalled)
      | Some AgentThinkingLoop \<Rightarrow> ret (Some outcomeAborted)
      | Some _ \<Rightarrow> ret (Some outcomeDevFailed)
      | None \<Rightarrow> do {
          write_agent_completed E R ''dev'' (ar_exit rep) (ar_stdout rep) (ar_stderr rep);
          ret (if ar_exit rep \<noteq> 0 then Some outcomeDevFailed else None)
        })"

definition run_dev_ci_retry_agent :: "env \<Rightarrow> rconfig \<Rightarrow> string \<Rightarrow> int \<Rightarrow> string M" where
  "run_dev_ci_retry_agent E R info fix_round =
     handle (agent_file E ''dev'') (\<lambda>_. ret outcomeDevFailed) (\<lambda>(_, model).
     handle (render_prompt E (''dev-ci-retry'' @ info)) (\<lambda>_. ret outcomeDevFailed) (\<lambda>user_prompt.
     do {
       incr_turn;
       gm \<leftarrow> start_broker E (path_join [runs_dir R, r_run_id R, ''gm-ci-retry.sock'']);
       t \<leftarrow> get_turn;
       rep \<leftarrow> run_agent E \<lparr>ac_role = ''dev'', ac_prompt = user_prompt, ac_dir = dev_worktree_path R,
           ac_model = model, ac_turn = t, ac_round = 0, ac_attempt = fix_round,
           ac_tools = baseDevTools @ (if gm then gmDevToolNames else [])\<rparr>;
       oc \<leftarrow> handle_ci_retry_agent_result E R rep;
       ret (case oc of Some outcome \<Rightarrow> outcome | None \<Rightarrow> outcomeSuccess)
     }))"

text \<open>\<open>None\<close> is the empty outcome: go on with the gate loop.\<close>

definition on_ci_check_failed ::
    "env \<Rightarrow> rconfig \<Rightarrow> int \<Rightarrow> int \<Rightarrow> string \<Rightarrow> check_item list \<Rightarrow> string option M" where
  "on_ci_check_failed E R pr fix_round result failed =
     (if fix_round \<ge> maxCIFixRounds then
        after (post_ci_escalation_comment E R pr
                 (''CI build failed after '' @ itoa (1 + maxCIFixRounds) @ '' attempt(s)''))
          (ret (Some outcomeDevFailed))
      else do {
        info \<leftarrow> build_failed_check_info E R result failed;
        before \<leftarrow> get_remote_branch_sha E R;
        (case before of
           Inl _ \<Rightarrow> after (post_ci_escalation_comment E R pr
                       ''failed to read remote branch state before CI retry'')
                    (ret (Some outcomeDevFailed))
         | Inr sha_before \<Rightarrow> do {
             dev \<leftarrow> run_dev_ci_retry_agent E R info fix_round;
             if dev \<noteq> outcomeSuccess then
               after (post_ci_escalation_comment E R pr ''CI retry dev agent failed'')
                 (ret (Some outcomeDevFailed))
             else do {
               sha_after \<leftarrow> get_remote_branch_sha E R;
               (case sha_after of
                  Inr sha \<Rightarrow>
                    if sha \<noteq> [] \<and> sha \<noteq> sha_before then ret None
                    else after (post_ci_escalation_comment E R pr
                           ''CI retry dev agent did not push new commits'')
                         (ret (Some outcomeDevFailed))
                | Inl _ \<Rightarrow> after (post_ci_escalation_comment E R pr
                           ''CI retry dev agent did not push new commits'')
                         (ret (Some outcomeDevFailed)))
             }
           })
      })"

text \<open>The gate loop with the number of rounds left.\<close>

fun ci_gate_rounds :: "env \<Rightarrow> rconfig \<Rightarrow> int \<Rightarrow> nat \<Rightarrow> int \<Rightarrow> string M" where
  "ci_gate_rounds E R pr 0 fix_round = ret outcomeDevFailed"
| "ci_gate_rounds E R pr (Suc n) fix_round =
     handle (poll_ci_checks E R pr)
       (\<lambda>_. after (post_ci_escalation_comment E R pr ''CI check query failed'') (ret outcomeDevFailed))
       (\<lambda>(result, failed). do {
          write_ci_wait_finished E R result fix_round;
          if result = ''green'' then ret outcomeSuccess
          else do {
            oc \<leftarrow> on_ci_check_failed E R pr fix_round result failed;
            (case oc of Some outcome \<Rightarrow> ret outcome
             | None \<Rightarrow> ci_gate_rounds E R pr n (fix_round + 1))
          }
        })"

definition run_ci_gate :: "env \<Rightarrow> rconfig \<Rightarrow> int \<Rightarrow> string M" where
  "run_ci_gate E R pr = ci_gate_rounds E R pr (nat (maxCIFixRounds + 1)) 0"

section \<open>What the operations of the gate add to the history\<close>

lemma grows_queries [grows]:
  "upholds history_grows (get_pr_head_sha E R pr)"
  "upholds history_grows (get_repo_nwo E R)"
  "upholds history_grows (query_check_runs_for_sha E R nwo sha)"
  "upholds history_grows (get_local_head_sha E wt)"
  "upholds history_grows (get_remote_branch_sha E R)"
  "upholds history_grows (fetch_run_log E R i)"
  unfolding get_pr_head_sha_def get_repo_nwo_def query_check_runs_for_sha_def
    get_local_head_sha_def get_remote_branch_sha_def fetch_run_log_def
  by (intro grows)+

lemma grows_query_sha [grows]:
  "upholds history_grows (query_sha E R nwo sha)" "upholds history_grows (query_ci_checks E R pr)"
  unfolding query_ci_checks_def query_sha_def by (intro grows)+

lemma grows_poll_ticks: "upholds history_grows q \<Longrightarrow> upholds history_grows (poll_ticks n q)"
proof (induction n)
  case 0
  show ?case by (simp, intro grows)
next
  case (Suc n)
  show ?case by (simp, intro grows Suc)
qed

lemma grows_poll [grows]:
  "upholds history_grows (poll_check_runs_for_sha E R sha nwo)"
  "upholds history_grows (poll_ci_checks E R pr)"
  unfolding poll_check_runs_for_sha_def poll_ci_checks_def poll_until_settled_def
  by (intro grows grows_poll_ticks)+

lemma grows_append_check_log [grows]: "upholds history_grows (append_check_log E R c)"
  unfolding append_check_log_def by (intro grows)

lemma grows_collect_logs [grows]: "upholds history_grows (collect_logs E R cs acc)"
proof (induction cs arbitrary: acc)
  case Nil
  show ?case by (simp, intro grows)
next
  case (Cons c cs)
  show ?case by (simp, intro grows Cons.IH)
qed

lemma grows_gate_parts [grows]:
  "upholds history_grows (build_failed_check_info E R result failed)"
  "upholds history_grows (write_ci_wait_finished E R result round)"
  "upholds history_grows (post_ci_escalation_comment E R pr msg)"
  unfolding build_failed_check_info_def collect_failed_check_logs_def write_ci_wait_finished_def
    post_ci_escalation_comment_def
  by (intro grows)+

lemma agent_err_cases:
  assumes "upholds Rel f" "upholds Rel a" "upholds Rel b" "upholds Rel c"
    "\<And>xs. upholds Rel (d xs)" "\<And>t. upholds Rel (g t)"
  shows "upholds Rel (case err of None \<Rightarrow> f | Some AgentTimeout \<Rightarrow> a | Some AgentStalled \<Rightarrow> b
      | Some AgentThinkingLoop \<Rightarrow> c | Some (AgentChainExhausted xs) \<Rightarrow> d xs | Some (AgentOther t) \<Rightarrow> g t)"
  using assms by (simp split: option.split agent_err.split)

lemmas [grows] = agent_err_cases [where Rel = history_grows]
lemmas [emits] = agent_err_cases [where Rel = "only_calls A" for A]

lemma grows_ci_retry [grows]:
  "upholds history_grows (handle_ci_retry_agent_result E R rep)"
  "upholds history_grows (run_dev_ci_retry_agent E R info k)"
  unfolding run_dev_ci_retry_agent_def handle_ci_retry_agent_result_def by (intro grows)+

lemma grows_on_ci_check_failed [grows]:
  "upholds history_grows (on_ci_check_failed E R pr k result failed)"
  unfolding on_ci_check_failed_def by (intro grows)

lemma grows_ci_gate [grows]:
  "upholds history_grows (ci_gate_rounds E R pr n k)" "upholds history_grows (run_ci_gate E R pr)"
proof -
  show g: "upholds history_grows (ci_gate_rounds E R pr n k)" for n k
  proof (induction n arbitrary: k)
    case 0
    show ?case by (simp, intro grows)
  next
    case (Suc n)
    show ?case by (simp, intro grows Suc.IH)
  qed
  show "upholds history_grows (run_ci_gate E R pr)" unfolding run_ci_gate_def by (rule g)
qed

lemma calls_ci_queries [emits]:
  assumes "quiet A"
  shows "upholds (only_calls A) (get_pr_head_sha E R pr)"
    and "upholds (only_calls A) (get_repo_nwo E R)"
    and "upholds (only_calls A) (query_check_runs_for_sha E R nwo sha)"
    and "upholds (only_calls A) (get_local_head_sha E wt)"
    and "upholds (only_calls A) (get_remote_branch_sha E R)"
    and "upholds (only_calls A) (fetch_run_log E R i)"
    and "upholds (only_calls A) (post_ci_escalation_comment E R pr msg)"
  unfolding get_pr_head_sha_def get_repo_nwo_def query_check_runs_for_sha_def
    get_local_head_sha_def get_remote_branch_sha_def fetch_run_log_def post_ci_escalation_comment_def
  by (intro emits; simp add: quietD [OF assms])+

lemma calls_query_sha [emits]:
  assumes "quiet A"
  shows "upholds (only_calls A) (query_sha E R nwo sha)"
    and "upholds (only_calls A) (query_ci_checks E R pr)"
  unfolding query_ci_checks_def query_sha_def by (intro emits assms)+

lemma calls_poll_ticks: "upholds (only_calls A) q \<Longrightarrow> upholds (only_calls A) (poll_ticks n q)"
proof (induction n)
  case 0
  show ?case by (simp, intro emits)
next
  case (Suc n)
  show ?case by (simp, intro emits Suc)
qed

lemma calls_poll [emits]:
  assumes "quiet A"
  shows "upholds (only_calls A) (poll_check_runs_for_sha E R sha nwo)"
    and "upholds (only_calls A) (poll_ci_checks E R pr)"
  unfolding poll_check_runs_for_sha_def poll_ci_checks_def poll_until_settled_def
  by (intro emits calls_poll_ticks assms; simp add: quietD [OF assms])+

lemma calls_append_check_log [emits]:
  "quiet A \<Longrightarrow> upholds (only_calls A) (append_check_log E R c)"
  unfolding append_check_log_def by (intro emits)

lemma calls_collect_logs [emits]:
  assumes "quiet A"
  shows "upholds (only_calls A) (collect_logs E R cs acc)"
proof (induction cs arbitrary: acc)
  case Nil
  show ?case by (simp, intro emits)
next
  case (Cons c cs)
  show ?case by (simp, intro emits Cons.IH assms)
qed

lemma calls_failed_info [emits]:
  assumes "quiet A"
  shows "upholds (only_calls A) (build_failed_check_info E R result failed)"
  unfolding build_failed_check_info_def collect_failed_check_logs_def by (intro emits assms)

lemma calls_gate_writes [emits]:
  assumes "quiet A" and "allows_writes A"
  shows "upholds (only_calls A) (write_ci_wait_finished E R result round)"
    and "upholds (only_calls A) (handle_ci_retry_agent_result E R rep)"
  unfolding write_ci_wait_finished_def handle_ci_retry_agent_result_def
  by (intro emits assms; simp add: quietD [OF assms(1)] writesD [OF assms(2)])+

lemma calls_ci_retry [emits]:
  assumes "quiet A" and "allows_writes A" and "allows_agents A"
  shows "upholds (only_calls A) (run_dev_ci_retry_agent E R info k)"
  unfolding run_dev_ci_retry_agent_def
  by (intro emits assms; simp add: quietD [OF assms(1)] agentsD [OF assms(3)])

lemma calls_on_ci_check_failed [emits]:
  assumes "quiet A" and "allows_writes A" and "allows_agents A"
  shows "upholds (only_calls A) (on_ci_check_failed E R pr k result failed)"
  unfolding on_ci_check_failed_def by (intro emits assms)

lemma calls_ci_gate_rounds [emits]:
  assumes "quiet A" and "allows_writes A" and "allows_agents A"
  shows "upholds (only_calls A) (ci_gate_rounds E R pr n k)"
proof (induction n arbitrary: k)
  case 0
  show ?case by (simp, intro emits)
next
  case (Suc n)
  show ?case by (simp, intro emits Suc.IH assms)
qed

lemma calls_ci_gate [emits]:
  assumes "quiet A" and "allows_writes A" and "allows_agents A"
  shows "upholds (only_calls A) (run_ci_gate E R pr)"
  unfolding run_ci_gate_def by (intro emits assms)

section \<open>Green\<close>

text \<open>
  A call is a green answer when it is a query of the check-runs API whose answer classifies as
  green.
\<close>

definition green_answer :: "call \<Rightarrow> bool" where
  "green_answer c \<longleftrightarrow>
     (case c of
        CExec (Cmd _ _ argv) (Inr out) \<Rightarrow>
          take 2 argv = [''gh'', ''api''] \<and> length argv = 3 \<and> has_prefix ''repos/'' (argv ! 2) \<and>
          contains_sub ''/commits/'' (argv ! 2) \<and>
          (case parse_check_runs out of
             Inl _ \<Rightarrow> False | Inr checks \<Rightarrow> fst (settle checks) = ''green'')
      | _ \<Rightarrow> False)"

definition just_green :: "rstate \<Rightarrow> bool" where
  "just_green s \<longleftrightarrow> rs_trace s \<noteq> [] \<and> green_answer (last (rs_trace s))"

lemma check_runs_path_shape:
  "has_prefix ''repos/'' (check_runs_path nwo sha)"
  "contains_sub ''/commits/'' (check_runs_path nwo sha)"
  unfolding check_runs_path_def
  by (rule has_prefix_append, intro contains_sub_append_left contains_sub_append_right contains_sub_self)

definition green_result :: "(string \<times> check_item list) result \<Rightarrow> rstate \<Rightarrow> bool" where
  "green_result r s \<longleftrightarrow> (\<forall>failed. r = Inr (''green'', failed) \<longrightarrow> just_green s)"

lemma green_result_Inl [simp]: "green_result (Inl e) s"
  by (simp add: green_result_def)

lemma query_check_runs_green:
  "ends (query_check_runs_for_sha E R nwo sha)
     (\<lambda>r s. case r of Inl _ \<Rightarrow> True | Inr cs \<Rightarrow> fst (settle cs) = ''green'' \<longrightarrow> just_green s)"
  using check_runs_path_shape
  by (auto simp: ends_def wp_def query_check_runs_for_sha_def op_defs run_prims just_green_def
      green_answer_def split: sum.split)

lemma query_sha_green: "ends (query_sha E R nwo sha) green_result"
  unfolding query_sha_def
  by (rule ends_handle_via [OF query_check_runs_green])
    (auto simp: wp_simps green_result_def)

lemma query_ci_checks_green: "ends (query_ci_checks E R pr) green_result"
  unfolding query_ci_checks_def by (intro ends query_sha_green) simp_all

lemma poll_ticks_green: "ends q green_result \<Longrightarrow> ends (poll_ticks n q) green_result"
proof (induction n)
  case 0
  show ?case by (simp, intro ends) (simp add: green_result_def)
next
  case (Suc n)
  show ?case
    by (simp, rule ends_handle_via [OF Suc.prems])
      (auto simp: wp_simps endsD [OF Suc.IH [OF Suc.prems]])
qed

lemma poll_until_settled_green:
  assumes "ends q green_result"
  shows "ends (poll_until_settled E q) green_result"
  unfolding poll_until_settled_def
proof (rule ends_handle_via [OF assms])
  fix v s
  assume "green_result (Inr v) s"
  moreover have "wp (poll_ticks n q) green_result t" for n t
    by (rule endsD [OF poll_ticks_green [OF assms]])
  ultimately show "wp (case v of (result, failed) \<Rightarrow>
      if result \<noteq> ''pending'' then ret (Inr (result, failed))
      else do { n \<leftarrow> ticks_before_deadline E; poll_ticks n q }) green_result s"
    by (cases v) (simp add: wp_return wp_bind, simp add: wp_def)
qed (simp add: wp_return)

text \<open>A poll that reports green ends with the green answer itself.\<close>

lemma poll_green:
  "ends (poll_ci_checks E R pr) green_result"
  "ends (poll_check_runs_for_sha E R sha nwo) green_result"
  unfolding poll_ci_checks_def poll_check_runs_for_sha_def
  by (rule poll_until_settled_green, rule query_ci_checks_green,
      rule poll_until_settled_green, rule query_sha_green)

section \<open>Classification\<close>

lemma scan_checks_eq:
  "scan_checks cs (failed, pending, required) =
     (failed @ filter (\<lambda>c. categorize_bucket (ci_bucket c) = ''fail'') cs,
      pending \<or> list_ex (\<lambda>c. categorize_bucket (ci_bucket c) = ''pending'') cs,
      required \<or> list_ex (\<lambda>c. ci_name c = branchProtectionRequiredCICheck) cs)"
  by (induction cs arbitrary: failed pending required) (auto simp: Let_def)

lemma categorize_range: "categorize_bucket b \<in> {''pass'', ''fail'', ''pending''}"
  by (simp add: categorize_bucket_def)

lemma classify_green_iff_aux:
  "fst (classify_checks cs) = ''green'' \<longleftrightarrow>
     (\<exists>c\<in>set cs. ci_name c = branchProtectionRequiredCICheck) \<and>
     (\<forall>c\<in>set cs. categorize_bucket (ci_bucket c) = ''pass'')"
proof -
  have pass: "categorize_bucket b = ''pass'' \<longleftrightarrow>
      categorize_bucket b \<noteq> ''fail'' \<and> categorize_bucket b \<noteq> ''pending''" for b
    using categorize_range [of b] by auto
  show ?thesis
    by (auto simp: classify_checks_def scan_checks_eq list_ex_iff filter_empty_conv pass)
qed

section \<open>The gate's bounds and what success means\<close>

lemma no_agents_at_most: "upholds (only_calls (\<lambda>c. \<not> is_agent_call c)) m \<Longrightarrow> at_most is_agent_call k m"
  by (rule at_most_none)

lemma run_agent_then:
  "(\<And>rep. upholds (only_calls (\<lambda>c. \<not> is_agent_call c)) (f rep)) \<Longrightarrow>
     at_most is_agent_call 1 (State_Monad.bind (run_agent E cfg) f)"
  by (rule at_most_bind [where i = 1 and j = 0, OF at_most_run_agent]) (simp_all add: at_most_none)

lemma ci_retry_agents: "at_most is_agent_call 1 (run_dev_ci_retry_agent E R info k)"
  unfolding run_dev_ci_retry_agent_def
  by (intro run_agent_then counted_handle counted_return counted_prod
        counted_bind [where m = incr_turn] counted_bind [where m = get_turn]
        counted_bind [where m = "start_broker E sock" for sock] emits no_agent_kinds; simp)

lemma ci_retry_then:
  "(\<And>out. upholds (only_calls (\<lambda>c. \<not> is_agent_call c)) (f out)) \<Longrightarrow>
     at_most is_agent_call 1 (State_Monad.bind (run_dev_ci_retry_agent E R info k) f)"
  by (rule at_most_bind [where i = 1 and j = 0, OF ci_retry_agents]) (simp_all add: at_most_none)

lemma on_ci_check_failed_agents:
  "at_most is_agent_call (if k < maxCIFixRounds then 1 else 0) (on_ci_check_failed E R pr k result failed)"
proof (cases "k < maxCIFixRounds")
  case False
  then show ?thesis
    unfolding on_ci_check_failed_def by simp (intro counted emits no_agent_kinds)
next
  case True
  then show ?thesis
    unfolding on_ci_check_failed_def
    by simp (intro ci_retry_then [unfolded One_nat_def] emits no_agent_kinds
        counted_bind [where m = "build_failed_check_info E R result failed"]
        counted_bind [where m = "get_remote_branch_sha E R"] counted_return counted_if at_most_sum
        counted_after)
qed

lemma ci_gate_rounds_agents:
  "at_most is_agent_call (nat (maxCIFixRounds - k)) (ci_gate_rounds E R pr n k)"
proof (induction n arbitrary: k)
  case 0
  show ?case by (simp, rule no_agents_at_most, intro emits)
next
  case (Suc n)
  have quiet_write: "upholds (only_calls (\<lambda>c. \<not> is_agent_call c)) (write_ci_wait_finished E R x k)" for x
    by (intro emits no_agent_kinds)
  have tail: "at_most is_agent_call (nat (maxCIFixRounds - k))
      (do { oc \<leftarrow> on_ci_check_failed E R pr k x failed;
            case oc of Some outcome \<Rightarrow> ret outcome | None \<Rightarrow> ci_gate_rounds E R pr n (k + 1) })" for x failed
  proof (rule at_most_bind [OF on_ci_check_failed_agents])
    show "at_most is_agent_call (nat (maxCIFixRounds - (k + 1)))
        (case oc of None \<Rightarrow> ci_gate_rounds E R pr n (k + 1) | Some outcome \<Rightarrow> ret outcome)" for oc
      using Suc.IH [of "k + 1"]
      by (auto split: option.split intro!: no_agents_at_most emits)
  qed (simp add: maxCIFixRounds_def, arith)
  have body: "at_most is_agent_call (nat (maxCIFixRounds - k))
      (do { write_ci_wait_finished E R x k;
            if x = ''green'' then ret outcomeSuccess
            else do { oc \<leftarrow> on_ci_check_failed E R pr k x failed;
              case oc of Some outcome \<Rightarrow> ret outcome | None \<Rightarrow> ci_gate_rounds E R pr n (k + 1) } })"
    for x failed
    by (rule at_most_bind [where i = 0 and j = "nat (maxCIFixRounds - k)",
          OF no_agents_at_most [OF quiet_write]])
      (simp_all add: tail no_agents_at_most calls.up_return)
  show ?case
  proof (simp only: ci_gate_rounds.simps, rule at_most_handle [where i = 0])
    show "at_most is_agent_call 0 (poll_ci_checks E R pr)"
      by (rule no_agents_at_most, intro emits no_agent_kinds)
    show "at_most is_agent_call (nat (maxCIFixRounds - k))
        (after (post_ci_escalation_comment E R pr ''CI check query failed'') (ret outcomeDevFailed))"
      by (rule no_agents_at_most, intro emits no_agent_kinds)
  qed (auto intro: body)
qed

text \<open>After the green answer, nothing but accesses to the log.\<close>

definition log_call :: "call \<Rightarrow> bool" where
  "log_call c \<longleftrightarrow>
     (case c of CLogOpen _ \<Rightarrow> True | CLogWrite _ _ \<Rightarrow> True | CLogRead _ \<Rightarrow> True | _ \<Rightarrow> False)"

definition green_tail :: "rstate \<Rightarrow> bool" where
  "green_tail s \<longleftrightarrow>
     (\<exists>pre c post. rs_trace s = pre @ c # post \<and> green_answer c \<and> list_all log_call post)"

lemma log_call_simps [simp]: "log_call (CLogOpen b)" "log_call (CLogWrite e b)" "log_call (CLogRead b)"
  by (simp_all add: log_call_def)

lemma green_tail_only_logs:
  assumes "just_green s" and "only_calls log_call s t"
  shows "green_tail t"
proof -
  obtain pre where "rs_trace s = pre @ [last (rs_trace s)]"
    using assms(1) by (metis append_butlast_last_id just_green_def)
  moreover obtain cs where "rs_trace t = rs_trace s @ cs" "list_all log_call cs"
    using assms(2) by (auto simp: only_calls_def)
  ultimately show ?thesis
    using assms(1) unfolding green_tail_def just_green_def
    by (metis append.assoc append_Cons append_Nil)
qed

definition gate_result :: "string \<Rightarrow> rstate \<Rightarrow> bool" where
  "gate_result out s \<longleftrightarrow> out = outcomeDevFailed \<or> (out = outcomeSuccess \<and> green_tail s)"

lemma gate_result_failed [simp]: "gate_result outcomeDevFailed s"
  by (simp add: gate_result_def)

lemma on_ci_check_failed_result:
  "ends (on_ci_check_failed E R pr k result failed) (\<lambda>oc s. oc \<in> {None, Some outcomeDevFailed})"
  unfolding on_ci_check_failed_def by (intro ends) simp_all

lemma ci_gate_rounds_result: "ends (ci_gate_rounds E R pr n k) gate_result"
proof (induction n arbitrary: k)
  case 0
  show ?case by (simp, intro ends, simp)
next
  case (Suc n)
  have retry: "wp (do { oc \<leftarrow> on_ci_check_failed E R pr k x failed;
          case oc of Some outcome \<Rightarrow> ret outcome | None \<Rightarrow> ci_gate_rounds E R pr n (k + 1) }) gate_result s"
    for x failed s
    by (rule endsD, rule ends_bind_via [OF on_ci_check_failed_result])
      (auto simp: wp_return endsD [OF Suc.IH])
  have body: "wp (do { write_ci_wait_finished E R x k;
            if x = ''green'' then ret outcomeSuccess
            else do { oc \<leftarrow> on_ci_check_failed E R pr k x failed;
              case oc of Some outcome \<Rightarrow> ret outcome | None \<Rightarrow> ci_gate_rounds E R pr n (k + 1) } })
          gate_result s"
    if "green_result (Inr (x, failed)) s" for x failed s
  proof (cases "x = ''green''")
    case True
    have "upholds (only_calls log_call) (write_ci_wait_finished E R x k)"
      unfolding write_ci_wait_finished_def append_event_def by (intro emits) simp_all
    then have "green_tail (final_state (write_ci_wait_finished E R x k) s)"
      using that True green_tail_only_logs upholdsD unfolding green_result_def by blast
    then show ?thesis using True by (simp add: wp_def gate_result_def)
  next
    case False
    then show ?thesis using retry by (simp add: wp_bind) (simp add: wp_def)
  qed
  show ?case
    unfolding ci_gate_rounds.simps
    by (rule ends_handle_via [OF poll_green(1)])
      (auto intro: body simp: wp_simps, simp add: wp_def)
qed

section \<open>Properties\<close>

text \<open>
  The CI classification of a commit's check runs is green exactly when the required check is
  among them and every one of them is in a passing bucket; a failed check makes it red and
  lists exactly the failed checks in order; anything else, no checks at all included, is
  pending.
\<close>

theorem ci_classification:
  "(fst (settle cs) = ''green'' \<longleftrightarrow>
      (\<exists>c\<in>set cs. ci_name c = ''verify'') \<and> filter (\<lambda>c. categorize_bucket (ci_bucket c) \<noteq> ''pass'') cs = []) \<and>
   (fst (settle cs) = ''red'' \<longleftrightarrow> (\<exists>c\<in>set cs. categorize_bucket (ci_bucket c) = ''fail'')) \<and>
   fst (settle cs) \<in> {''green'', ''red'', ''pending''} \<and>
   snd (settle cs) = filter (\<lambda>c. categorize_bucket (ci_bucket c) = ''fail'') cs"
proof (intro conjI)
  show "fst (settle cs) = ''green'' \<longleftrightarrow>
      (\<exists>c\<in>set cs. ci_name c = ''verify'') \<and> filter (\<lambda>c. categorize_bucket (ci_bucket c) \<noteq> ''pass'') cs = []"
    by (auto simp: settle_def classify_green_iff_aux branchProtectionRequiredCICheck_def filter_empty_conv)
  show "fst (settle cs) = ''red'' \<longleftrightarrow> (\<exists>c\<in>set cs. categorize_bucket (ci_bucket c) = ''fail'')"
    by (auto simp: settle_def classify_checks_def scan_checks_eq filter_empty_conv)
  show "fst (settle cs) \<in> {''green'', ''red'', ''pending''}"
    by (simp add: settle_def classify_checks_def scan_checks_eq)
  show "snd (settle cs) = filter (\<lambda>c. categorize_bucket (ci_bucket c) = ''fail'') cs"
    by (auto simp: settle_def classify_checks_def scan_checks_eq)
qed

text \<open>
  C9: The CI gate returns one of two outcomes. It reports success only when the last thing it
  asked GitHub was the check runs of a commit and the answer classified as green; after that
  answer it touches nothing but the event log. Whatever the CI answers, it runs the dev agent
  at most twice.
\<close>

theorem ci_gate_sound_and_bounded:
  "(run_value (run_ci_gate E R pr) s = outcomeDevFailed \<or>
    (run_value (run_ci_gate E R pr) s = outcomeSuccess \<and>
     green_tail (final_state (run_ci_gate E R pr) s))) \<and>
   calls_of is_agent_call (final_state (run_ci_gate E R pr) s) \<le> calls_of is_agent_call s + 2"
proof (intro conjI)
  have "gate_result (run_value (run_ci_gate E R pr) s) (final_state (run_ci_gate E R pr) s)"
    unfolding run_ci_gate_def by (rule ends_value [OF ci_gate_rounds_result])
  then show "run_value (run_ci_gate E R pr) s = outcomeDevFailed \<or>
      (run_value (run_ci_gate E R pr) s = outcomeSuccess \<and>
       green_tail (final_state (run_ci_gate E R pr) s))"
    by (simp add: gate_result_def)
  show "calls_of is_agent_call (final_state (run_ci_gate E R pr) s) \<le> calls_of is_agent_call s + 2"
    using at_mostD [OF ci_gate_rounds_agents, of E R pr "nat (maxCIFixRounds + 1)" 0 s]
    by (simp add: run_ci_gate_def maxCIFixRounds_def)
qed

end
