(* ===== verification/Merge.thy ===== *)
theory Merge
  imports CI_Gate
begin

text \<open>
  \<open>internal/runner/merge.go\<close>: the sync gate before a review, the merge phase after an approval,
  the rebase with its conflict resolution by the dev agent, the squash merge with its
  out-of-date retries. Every operation works on the dev worktree of the run.
\<close>

definition maxOutOfDateRetries :: int where "maxOutOfDateRetries = 3"

definition errMergeConflict :: gerr where
  "errMergeConflict = Err KMergeConflict ''merge conflict''"

definition errConflictCapExhausted :: gerr where
  "errConflictCapExhausted = Err KCapExhausted ''rebase conflict: cap exhausted''"

section \<open>Gate, events and comments\<close>

definition evaluate_auto_merge_gate :: "env \<Rightarrow> (bool \<times> string) M" where
  "evaluate_auto_merge_gate E =
     do {
       c \<leftarrow> latest_confidence E;
       ret (case c of Inl _ \<Rightarrow> (False, ''confidence low'')
            | Inr confidence \<Rightarrow> if confidence = ''low'' then (False, ''confidence low'') else (True, []))
     }"

definition write_automerge_skipped :: "env \<Rightarrow> rconfig \<Rightarrow> string \<Rightarrow> unit M" where
  "write_automerge_skipped E R reason =
     do { _ \<leftarrow> write_run_event E R EventAutomergeSkipped 0 (JObj [(''reason'', JStr reason)]); ret () }"

definition write_automerge_failed :: "env \<Rightarrow> rconfig \<Rightarrow> string \<Rightarrow> unit M" where
  "write_automerge_failed E R reason =
     do { _ \<leftarrow> write_run_event E R EventAutomergeFailed 0 (JObj [(''reason'', JStr reason)]); ret () }"

definition post_merge_failure_comment :: "env \<Rightarrow> rconfig \<Rightarrow> int \<Rightarrow> string \<Rightarrow> unit M" where
  "post_merge_failure_comment E R pr reason =
     do {
       _ \<leftarrow> run_with_token E (r_reviewer_token R) (r_repo_root R)
         [''gh'', ''pr'', ''comment'', itoa pr, ''--body'',
          ''golemic: auto-merge failed for issue #'' @ itoa (r_issue_num R) @ '' (PR #'' @ itoa pr @
          ''): '' @ reason @ ''. Human intervention required.''];
       ret ()
     }"

text \<open>\<open>failMerge\<close>: the comment, then the event, then the outcome.\<close>

definition fail_merge :: "env \<Rightarrow> rconfig \<Rightarrow> int \<Rightarrow> string \<Rightarrow> string M" where
  "fail_merge E R pr reason =
     after (post_merge_failure_comment E R pr reason)
       (after (write_automerge_failed E R reason) (ret outcomeMergeFailed))"

definition write_automerge_conflict_retry ::
    "env \<Rightarrow> rconfig \<Rightarrow> string list \<Rightarrow> string \<Rightarrow> int \<Rightarrow> int \<Rightarrow> unit M" where
  "write_automerge_conflict_retry E R files result turn attempt =
     do {
       _ \<leftarrow> write_run_event E R EventAutomergeConflictRetry turn
              (marshal_conflict_retry files result turn attempt);
       ret ()
     }"

definition write_automerge_out_of_date_retry :: "env \<Rightarrow> rconfig \<Rightarrow> int \<Rightarrow> unit M" where
  "write_automerge_out_of_date_retry E R attempt =
     do { _ \<leftarrow> write_run_event E R EventAutomergeOutOfDateRetry 0 (JObj [(''attempt'', jint attempt)]);
          ret () }"

section \<open>Rebase\<close>

definition is_branch_up_to_date :: "env \<Rightarrow> string \<Rightarrow> bool result M" where
  "is_branch_up_to_date E wt =
     do {
       r \<leftarrow> run_in_dir E wt [''git'', ''merge-base'', ''--is-ancestor'', ''origin/main'', ''HEAD''];
       ret (case r of Inr _ \<Rightarrow> Inr True
            | Inl e \<Rightarrow> if exit_code_is 1 e then Inr False else Inl e)
     }"

definition unmerged_line :: "string \<Rightarrow> bool" where
  "unmerged_line l \<longleftrightarrow>
     (case l of x # y # _ \<Rightarrow>
        x = CHR ''U'' \<or> y = CHR ''U'' \<or> (x = CHR ''A'' \<and> y = CHR ''A'') \<or> (x = CHR ''D'' \<and> y = CHR ''D'')
      | _ \<Rightarrow> False)"

definition has_unmerged_paths :: "env \<Rightarrow> string \<Rightarrow> bool result M" where
  "has_unmerged_paths E wt =
     do {
       r \<leftarrow> run_in_dir E wt [''git'', ''status'', ''--porcelain''];
       ret (case r of Inl e \<Rightarrow> Inl e
            | Inr out \<Rightarrow> Inr (list_ex unmerged_line (split_on newline out)))
     }"

definition rebase_abort :: "env \<Rightarrow> string \<Rightarrow> unit M" where
  "rebase_abort E wt = do { _ \<leftarrow> run_in_dir E wt [''git'', ''rebase'', ''--abort'']; ret () }"

definition rebase_branch :: "env \<Rightarrow> string \<Rightarrow> gerr option M" where
  "rebase_branch E wt =
     handle (run_in_dir E wt [''git'', ''fetch'', ''origin''])
       (\<lambda>e. ret (Some (wrap_err ''fetch origin: '' e))) (\<lambda>_.
     handle (run_in_dir E wt [''git'', ''rebase'', ''origin/main''])
       (\<lambda>e. do {
          conflict \<leftarrow> has_unmerged_paths E wt;
          if conflict = Inr True then ret (Some errMergeConflict)
          else after (rebase_abort E wt) (ret (Some (wrap_err ''rebase failed: '' e)))
        })
       (\<lambda>_. ret None))"

definition parse_conflicted_files :: "string \<Rightarrow> string list" where
  "parse_conflicted_files out = filter (\<lambda>l. l \<noteq> []) (map trim_space (split_on newline out))"

definition collect_conflicted_files :: "env \<Rightarrow> string \<Rightarrow> string list result M" where
  "collect_conflicted_files E wt =
     handle (run_in_dir E wt [''git'', ''diff'', ''--name-only'', ''--diff-filter=U''])
       (\<lambda>e. after (rebase_abort E wt)
              (ret (Inl (wrap_err ''failed to enumerate conflicted files: '' e))))
       (\<lambda>out. ret (Inr (parse_conflicted_files out)))"

definition verify_rebase_complete :: "env \<Rightarrow> string \<Rightarrow> (bool \<times> string) M" where
  "verify_rebase_complete E wt =
     do {
       r1 \<leftarrow> run_in_dir E wt [''git'', ''rev-parse'', ''--verify'', ''REBASE_HEAD''];
       (case r1 of
          Inr _ \<Rightarrow> ret (False, ''rebase conflict: dev retry did not resolve: rebase not completed'')
        | Inl _ \<Rightarrow>
            handle (run_in_dir E wt [''git'', ''status'', ''--porcelain''])
              (\<lambda>e. ret (False, ''rebase conflict: dev retry did not resolve: git status check failed: '' @ err_text e))
              (\<lambda>out.
                 if trim_space out \<noteq> []
                 then ret (False, ''rebase conflict: dev retry did not resolve: tree dirty after retry'')
                 else handle (run_in_dir E wt
                        [''git'', ''merge-base'', ''--is-ancestor'', ''origin/main'', ''HEAD''])
                   (\<lambda>e. ret (False,
                      if exit_code_is 1 e
                      then ''rebase conflict: dev retry did not resolve: origin/main not ancestor after retry''
                      else ''rebase conflict: dev retry did not resolve: ancestor check failed: '' @ err_text e))
                   (\<lambda>_. ret (True, []))))
     }"

definition determine_conflict_resolution_result :: "env \<Rightarrow> string \<Rightarrow> agent_reply \<Rightarrow> (string \<times> string) M" where
  "determine_conflict_resolution_result E wt rep =
     (case ar_err rep of
        Some err \<Rightarrow>
          ret (''unresolved'',
               if err = AgentTimeout then ''rebase conflict: agent timeout during conflict resolution''
               else ''rebase conflict: dev retry did not resolve'')
      | None \<Rightarrow>
          if ar_exit rep = 0 then do {
            v \<leftarrow> verify_rebase_complete E wt;
            ret (if fst v then (''resolved'', ''rebase conflict: dev retry did not resolve'')
                 else (''unresolved'', snd v))
          }
          else ret (''unresolved'', ''rebase conflict: dev retry did not resolve''))"

definition conflict_cap :: "rconfig \<Rightarrow> int" where
  "conflict_cap R = (if r_max_conflict_attempts R \<le> 0 then 2 else r_max_conflict_attempts R)"

text \<open>The attempts that are left, the number of the current one.\<close>

fun conflict_attempts :: "env \<Rightarrow> rconfig \<Rightarrow> int \<Rightarrow> string \<Rightarrow> nat \<Rightarrow> int \<Rightarrow> gerr option M" where
  "conflict_attempts E R pr model 0 attempt =
     after (rebase_abort E (dev_worktree_path R)) (ret (Some errConflictCapExhausted))"
| "conflict_attempts E R pr model (Suc n) attempt =
     handle (collect_conflicted_files E (dev_worktree_path R)) (\<lambda>e. ret (Some e)) (\<lambda>files.
     handle (render_prompt E ''dev-rebase-conflict-resolve'')
       (\<lambda>e. after (rebase_abort E (dev_worktree_path R))
              (ret (Some (wrap_err ''failed to render conflict resolve prompt: '' e)))) (\<lambda>user_prompt.
     do {
       incr_turn;
       t \<leftarrow> get_turn;
       rep \<leftarrow> run_agent E \<lparr>ac_role = ''dev'', ac_prompt = user_prompt, ac_dir = dev_worktree_path R,
           ac_model = model, ac_turn = t, ac_round = 0, ac_attempt = attempt - 1,
           ac_tools = baseDevTools\<rparr>;
       res \<leftarrow> determine_conflict_resolution_result E (dev_worktree_path R) rep;
       t' \<leftarrow> get_turn;
       write_automerge_conflict_retry E R files (fst res) t' attempt;
       if fst res = ''resolved'' then ret None
       else if attempt \<ge> conflict_cap R then
         after (rebase_abort E (dev_worktree_path R))
           (ret (Some (Err KCapExhausted (err_text errConflictCapExhausted @ '': '' @ snd res))))
       else conflict_attempts E R pr model n (attempt + 1)
     }))"

definition resolve_rebase_conflict_with_agent :: "env \<Rightarrow> rconfig \<Rightarrow> int \<Rightarrow> gerr option M" where
  "resolve_rebase_conflict_with_agent E R pr =
     handle (agent_file E ''dev'')
       (\<lambda>e. after (rebase_abort E (dev_worktree_path R)) (ret (Some (wrap_err ''conflict retry: '' e))))
       (\<lambda>(_, model). conflict_attempts E R pr model (nat (conflict_cap R)) 1)"

definition force_push_branch :: "env \<Rightarrow> rconfig \<Rightarrow> gerr option M" where
  "force_push_branch E R =
     do {
       r \<leftarrow> run_with_token E (r_dev_token R) (dev_worktree_path R) [''git'', ''push'', ''--force-with-lease''];
       ret (case r of Inl e \<Rightarrow> Some (wrap_err ''force-with-lease push rejected: '' e) | Inr _ \<Rightarrow> None)
     }"

text \<open>\<open>Inr True\<close>: a conflict was met and resolved; \<open>Inr False\<close>: a clean rebase.\<close>

definition rebase_and_resolve :: "env \<Rightarrow> rconfig \<Rightarrow> int \<Rightarrow> bool result M" where
  "rebase_and_resolve E R pr =
     do {
       r \<leftarrow> rebase_branch E (dev_worktree_path R);
       (case r of
          None \<Rightarrow> ret (Inr False)
        | Some e \<Rightarrow>
            if err_kind e \<noteq> KMergeConflict then ret (Inl e)
            else do {
              r' \<leftarrow> resolve_rebase_conflict_with_agent E R pr;
              ret (case r' of Some e' \<Rightarrow> Inl e' | None \<Rightarrow> Inr True)
            })
     }"

section \<open>The sync gate before a review\<close>

definition ci_fail_reason :: "string \<Rightarrow> check_item list \<Rightarrow> string" where
  "ci_fail_reason result failed =
     (if failed \<noteq> [] then ''CI checks failed: '' @ join_with '', '' (map ci_name failed)
      else ''CI checks '' @ result @ '' after rebase push'')"

text \<open>A dev failure with its escalation comment.\<close>

definition escalate_dev_failed :: "env \<Rightarrow> rconfig \<Rightarrow> int \<Rightarrow> string \<Rightarrow> string M" where
  "escalate_dev_failed E R pr msg = after (post_ci_escalation_comment E R pr msg) (ret outcomeDevFailed)"

definition pre_review_push_and_ci :: "env \<Rightarrow> rconfig \<Rightarrow> int \<Rightarrow> string M" where
  "pre_review_push_and_ci E R pr =
     do {
       pushed \<leftarrow> force_push_branch E R;
       (case pushed of
          Some e \<Rightarrow> escalate_dev_failed E R pr (''pre-review sync: push failed: '' @ err_text e)
        | None \<Rightarrow>
            handle (get_local_head_sha E (dev_worktree_path R)) (\<lambda>_. ret outcomeDevFailed) (\<lambda>sha.
            handle (get_repo_nwo E R) (\<lambda>_. ret outcomeDevFailed) (\<lambda>nwo.
            handle (poll_check_runs_for_sha E R sha nwo)
              (\<lambda>e. escalate_dev_failed E R pr (''pre-review sync: CI check query failed: '' @ err_text e))
              (\<lambda>(result, failed).
                 if result \<noteq> ''green''
                 then escalate_dev_failed E R pr (''pre-review sync: CI '' @ ci_fail_reason result failed)
                 else ret outcomeSuccess))))
     }"

definition run_pre_review_sync_gate :: "env \<Rightarrow> rconfig \<Rightarrow> int \<Rightarrow> string M" where
  "run_pre_review_sync_gate E R pr =
     handle (run_in_dir E (dev_worktree_path R) [''git'', ''fetch'', ''origin''])
       (\<lambda>_. ret outcomeDevFailed) (\<lambda>_.
     handle (is_branch_up_to_date E (dev_worktree_path R)) (\<lambda>_. ret outcomeDevFailed) (\<lambda>up_to_date.
       if up_to_date then run_ci_gate E R pr
       else handle (rebase_and_resolve E R pr)
         (\<lambda>e. after (post_ci_escalation_comment E R pr (''pre-review sync: '' @ err_text e))
                (ret (if err_kind e = KCapExhausted then outcomeConflictUnresolved else outcomeDevFailed)))
         (\<lambda>_. pre_review_push_and_ci E R pr)))"

section \<open>Merging\<close>

definition is_head_branch_out_of_date :: "gerr \<Rightarrow> bool" where
  "is_head_branch_out_of_date e \<longleftrightarrow> contains_sub ''Head branch is out of date'' (err_text e)"

definition squash_merge :: "env \<Rightarrow> rconfig \<Rightarrow> int \<Rightarrow> string result M" where
  "squash_merge E R pr =
     do {
       r \<leftarrow> run_with_token E (r_reviewer_token R) (r_repo_root R)
         [''gh'', ''pr'', ''merge'', itoa pr, ''--squash''];
       ret (case r of Inl e \<Rightarrow> Inl (wrap_err ''gh pr merge failed: '' e) | Inr out \<Rightarrow> Inr (trim_space out))
     }"

definition delete_remote_branch :: "env \<Rightarrow> rconfig \<Rightarrow> unit M" where
  "delete_remote_branch E R =
     handle (run_in_dir E (r_repo_root R) [''git'', ''ls-remote'', ''--heads'', ''origin'', r_branch R])
       (\<lambda>_. ret ()) (\<lambda>out.
       if trim_space out = [] then ret ()
       else handle (run_with_token E (r_dev_token R) (r_repo_root R)
                [''git'', ''push'', ''origin'', ''--delete'', r_branch R])
         (\<lambda>_. do { _ \<leftarrow> run_in_dir E (r_repo_root R)
                     [''git'', ''ls-remote'', ''--heads'', ''origin'', r_branch R]; ret () })
         (\<lambda>_. ret ()))"

text \<open>\<open>None\<close> is the empty outcome: the branch is in sync and green.\<close>

definition resync_for_ood_retry :: "env \<Rightarrow> rconfig \<Rightarrow> int \<Rightarrow> string option M" where
  "resync_for_ood_retry E R pr =
     (let failing = (\<lambda>reason. do { out \<leftarrow> fail_merge E R pr reason; ret (Some out) }) in
      do {
        rebased \<leftarrow> rebase_branch E (dev_worktree_path R);
        (case rebased of
           Some e \<Rightarrow>
             if err_kind e = KMergeConflict then
               after (rebase_abort E (dev_worktree_path R))
                 (failing ''out-of-date retry: merge conflict during re-sync'')
             else failing (''out-of-date retry: rebase: '' @ err_text e)
         | None \<Rightarrow> do {
             pushed \<leftarrow> force_push_branch E R;
             (case pushed of
                Some e \<Rightarrow> failing (''out-of-date retry: '' @ err_text e)
              | None \<Rightarrow>
                  handle (get_local_head_sha E (dev_worktree_path R))
                    (\<lambda>e. failing (''out-of-date retry: read SHA: '' @ err_text e)) (\<lambda>sha.
                  handle (get_repo_nwo E R)
                    (\<lambda>e. failing (''out-of-date retry: get repo: '' @ err_text e)) (\<lambda>nwo.
                  handle (poll_check_runs_for_sha E R sha nwo)
                    (\<lambda>e. failing (''out-of-date retry: CI poll: '' @ err_text e)) (\<lambda>(result, failed).
                       if result \<noteq> ''green'' then failing (ci_fail_reason result failed)
                       else ret None))))
           })
      })"

fun merge_attempts :: "env \<Rightarrow> rconfig \<Rightarrow> int \<Rightarrow> nat \<Rightarrow> int \<Rightarrow> string M" where
  "merge_attempts E R pr 0 attempt =
     fail_merge E R pr ''out-of-date retry: branch is still out of date after max attempts''"
| "merge_attempts E R pr (Suc n) attempt =
     handle (squash_merge E R pr)
       (\<lambda>e. if \<not> is_head_branch_out_of_date e then fail_merge E R pr (err_text e)
            else if attempt = maxOutOfDateRetries then
              fail_merge E R pr ''out-of-date retry: branch is still out of date after max attempts''
            else do {
              write_automerge_out_of_date_retry E R attempt;
              out \<leftarrow> resync_for_ood_retry E R pr;
              (case out of Some outcome \<Rightarrow> ret outcome
               | None \<Rightarrow> merge_attempts E R pr n (attempt + 1))
            })
       (\<lambda>sha. do {
          _ \<leftarrow> write_run_event E R EventPRMerged 0
                 (JObj [(''mergedSHA'', JStr sha), (''prNumber'', jint pr)]);
          delete_remote_branch E R;
          ret outcomeSuccess
        })"

definition merge_with_out_of_date_retry :: "env \<Rightarrow> rconfig \<Rightarrow> int \<Rightarrow> string M" where
  "merge_with_out_of_date_retry E R pr = merge_attempts E R pr (nat maxOutOfDateRetries) 1"

definition merge_if_ci_green :: "env \<Rightarrow> rconfig \<Rightarrow> int \<Rightarrow> string M" where
  "merge_if_ci_green E R pr =
     handle (poll_ci_checks E R pr)
       (\<lambda>e. fail_merge E R pr (''CI check query failed: '' @ err_text e)) (\<lambda>(result, failed).
       if result = ''green'' then merge_with_out_of_date_retry E R pr
       else if result = ''no_checks'' then fail_merge E R pr ''required check not reported for PR head''
       else if failed \<noteq> [] then fail_merge E R pr (ci_fail_reason result failed)
       else fail_merge E R pr (''CI checks '' @ result @ '' on up-to-date branch''))"

definition verify_and_push :: "env \<Rightarrow> rconfig \<Rightarrow> int \<Rightarrow> string M" where
  "verify_and_push E R pr =
     do {
       pushed \<leftarrow> force_push_branch E R;
       (case pushed of
          Some e \<Rightarrow> fail_merge E R pr (err_text e)
        | None \<Rightarrow>
            handle (get_local_head_sha E (dev_worktree_path R))
              (\<lambda>e. fail_merge E R pr (''failed to read pushed SHA: '' @ err_text e)) (\<lambda>sha.
            handle (get_repo_nwo E R)
              (\<lambda>e. fail_merge E R pr (''failed to get repo: '' @ err_text e)) (\<lambda>nwo.
            handle (poll_check_runs_for_sha E R sha nwo)
              (\<lambda>e. fail_merge E R pr (''CI poll failed: '' @ err_text e)) (\<lambda>(result, failed).
                 if result \<noteq> ''green'' then fail_merge E R pr (ci_fail_reason result failed)
                 else merge_with_out_of_date_retry E R pr))))
     }"

definition run_merge_phase :: "env \<Rightarrow> rconfig \<Rightarrow> string M" where
  "run_merge_phase E R =
     handle (get_pr_number E)
       (\<lambda>_. after (write_automerge_failed E R ''PR number unavailable'') (ret outcomeMergeFailed)) (\<lambda>pr.
     do {
       gate \<leftarrow> evaluate_auto_merge_gate E;
       if \<not> fst gate then after (write_automerge_skipped E R (snd gate)) (ret outcomeSuccess)
       else
         handle (run_in_dir E (dev_worktree_path R) [''git'', ''fetch'', ''origin''])
           (\<lambda>e. fail_merge E R pr (''git fetch origin failed: '' @ err_text e)) (\<lambda>_.
         handle (is_branch_up_to_date E (dev_worktree_path R))
           (\<lambda>e. fail_merge E R pr (''freshness check failed: '' @ err_text e)) (\<lambda>up_to_date.
           if up_to_date then merge_if_ci_green E R pr
           else handle (rebase_and_resolve E R pr)
             (\<lambda>e. if err_kind e = KCapExhausted then ret outcomeConflictUnresolved
                  else fail_merge E R pr (err_text e))
             (\<lambda>resolved.
                if resolved then do {
                  pushed \<leftarrow> force_push_branch E R;
                  (case pushed of
                     Some e \<Rightarrow> fail_merge E R pr (''conflict resolved push failed: '' @ err_text e)
                   | None \<Rightarrow> ret outcomeConflictResolved)
                }
                else verify_and_push E R pr)))
     })"

section \<open>What the operations add to the history\<close>

lemmas merge_small_defs =
  evaluate_auto_merge_gate_def write_automerge_skipped_def write_automerge_failed_def
  post_merge_failure_comment_def write_automerge_conflict_retry_def
  write_automerge_out_of_date_retry_def is_branch_up_to_date_def has_unmerged_paths_def
  rebase_abort_def force_push_branch_def delete_remote_branch_def

lemma grows_merge_small [grows]:
  "upholds history_grows (evaluate_auto_merge_gate E)"
  "upholds history_grows (write_automerge_skipped E R reason)"
  "upholds history_grows (write_automerge_failed E R reason)"
  "upholds history_grows (post_merge_failure_comment E R pr reason)"
  "upholds history_grows (write_automerge_conflict_retry E R files result t a)"
  "upholds history_grows (write_automerge_out_of_date_retry E R a)"
  "upholds history_grows (is_branch_up_to_date E wt)"
  "upholds history_grows (has_unmerged_paths E wt)"
  "upholds history_grows (rebase_abort E wt)"
  "upholds history_grows (force_push_branch E R)"
  "upholds history_grows (delete_remote_branch E R)"
  unfolding merge_small_defs by (intro grows)+

lemma grows_rebase [grows]:
  "upholds history_grows (fail_merge E R pr reason)"
  "upholds history_grows (rebase_branch E wt)"
  "upholds history_grows (collect_conflicted_files E wt)"
  "upholds history_grows (verify_rebase_complete E wt)"
  "upholds history_grows (escalate_dev_failed E R pr reason)"
  "upholds history_grows (squash_merge E R pr)"
  unfolding fail_merge_def rebase_branch_def collect_conflicted_files_def verify_rebase_complete_def
    escalate_dev_failed_def squash_merge_def
  by (intro grows)+

lemma grows_determine [grows]:
  "upholds history_grows (determine_conflict_resolution_result E wt rep)"
  unfolding determine_conflict_resolution_result_def by (intro grows)

lemma grows_conflict_attempts [grows]:
  "upholds history_grows (conflict_attempts E R pr model n k)"
proof (induction n arbitrary: k)
  case 0
  show ?case by (simp, intro grows)
next
  case (Suc n)
  show ?case by (simp, intro grows Suc.IH)
qed

lemma grows_resolve [grows]:
  "upholds history_grows (resolve_rebase_conflict_with_agent E R pr)"
  "upholds history_grows (resync_for_ood_retry E R pr)"
  unfolding resolve_rebase_conflict_with_agent_def resync_for_ood_retry_def Let_def by (intro grows)+

lemma grows_rebase_and_resolve [grows]: "upholds history_grows (rebase_and_resolve E R pr)"
  unfolding rebase_and_resolve_def by (intro grows)

lemma grows_merge_attempts [grows]: "upholds history_grows (merge_attempts E R pr n k)"
proof (induction n arbitrary: k)
  case 0
  show ?case by (simp only: merge_attempts.simps, intro grows)
next
  case (Suc n)
  show ?case by (simp only: merge_attempts.simps, intro grows Suc.IH)
qed

lemma grows_merge_parts [grows]:
  "upholds history_grows (pre_review_push_and_ci E R pr)"
  "upholds history_grows (merge_with_out_of_date_retry E R pr)"
  unfolding pre_review_push_and_ci_def merge_with_out_of_date_retry_def by (intro grows)+

lemma grows_merge_phase [grows]:
  "upholds history_grows (run_pre_review_sync_gate E R pr)"
  "upholds history_grows (merge_if_ci_green E R pr)"
  "upholds history_grows (verify_and_push E R pr)"
  unfolding run_pre_review_sync_gate_def merge_if_ci_green_def verify_and_push_def by (intro grows)+

lemma grows_run_merge_phase [grows]: "upholds history_grows (run_merge_phase E R)"
  unfolding run_merge_phase_def by (intro grows)

lemma calls_merge_small [emits]:
  assumes "quiet A"
  shows "upholds (only_calls A) (evaluate_auto_merge_gate E)"
    and "upholds (only_calls A) (post_merge_failure_comment E R pr reason)"
    and "upholds (only_calls A) (is_branch_up_to_date E wt)"
    and "upholds (only_calls A) (has_unmerged_paths E wt)"
    and "upholds (only_calls A) (rebase_abort E wt)"
    and "upholds (only_calls A) (force_push_branch E R)"
    and "upholds (only_calls A) (delete_remote_branch E R)"
    and "upholds (only_calls A) (escalate_dev_failed E R pr reason)"
  unfolding merge_small_defs escalate_dev_failed_def
  by (intro emits assms; simp add: quietD [OF assms])+

lemma calls_rebase [emits]:
  assumes "quiet A"
  shows "upholds (only_calls A) (rebase_branch E wt)"
    and "upholds (only_calls A) (collect_conflicted_files E wt)"
    and "upholds (only_calls A) (verify_rebase_complete E wt)"
  unfolding rebase_branch_def collect_conflicted_files_def verify_rebase_complete_def
  by (intro emits assms; simp add: quietD [OF assms])+

lemma calls_determine [emits]:
  assumes "quiet A"
  shows "upholds (only_calls A) (determine_conflict_resolution_result E wt rep)"
  unfolding determine_conflict_resolution_result_def by (intro emits assms)

lemma calls_merge_writes [emits]:
  assumes "allows_writes A"
  shows "upholds (only_calls A) (write_automerge_skipped E R reason)"
    and "upholds (only_calls A) (write_automerge_failed E R reason)"
    and "upholds (only_calls A) (write_automerge_conflict_retry E R files result t a)"
    and "upholds (only_calls A) (write_automerge_out_of_date_retry E R a)"
  unfolding merge_small_defs by (intro emits assms)+

lemma calls_fail_merge [emits]:
  assumes "quiet A" and "allows_writes A"
  shows "upholds (only_calls A) (fail_merge E R pr reason)"
  unfolding fail_merge_def by (intro emits assms)

lemma calls_resync [emits]:
  assumes "quiet A" and "allows_writes A"
  shows "upholds (only_calls A) (resync_for_ood_retry E R pr)"
    and "upholds (only_calls A) (pre_review_push_and_ci E R pr)"
  unfolding resync_for_ood_retry_def pre_review_push_and_ci_def Let_def by (intro emits assms)+

lemma calls_conflict_attempts [emits]:
  assumes "quiet A" and "allows_writes A" and "allows_agents A"
  shows "upholds (only_calls A) (conflict_attempts E R pr model n k)"
proof (induction n arbitrary: k)
  case 0
  show ?case by (simp, intro emits assms)
next
  case (Suc n)
  show ?case
    by (simp, intro emits assms Suc.IH; simp add: quietD [OF assms(1)] agentsD [OF assms(3)])
qed

lemma calls_resolve [emits]:
  assumes "quiet A" and "allows_writes A" and "allows_agents A"
  shows "upholds (only_calls A) (resolve_rebase_conflict_with_agent E R pr)"
  unfolding resolve_rebase_conflict_with_agent_def
  by (intro emits assms; simp add: quietD [OF assms(1)])

lemma calls_rebase_and_resolve [emits]:
  assumes "quiet A" and "allows_writes A" and "allows_agents A"
  shows "upholds (only_calls A) (rebase_and_resolve E R pr)"
  unfolding rebase_and_resolve_def by (intro emits assms)

lemma calls_sync_gate [emits]:
  assumes "quiet A" and "allows_writes A" and "allows_agents A"
  shows "upholds (only_calls A) (run_pre_review_sync_gate E R pr)"
  unfolding run_pre_review_sync_gate_def by (intro emits assms; simp add: quietD [OF assms(1)])

section \<open>Merges rest on a green answer\<close>

text \<open>Every merge call of a history comes immediately after a green answer.\<close>

definition merges_guarded :: "call list \<Rightarrow> bool" where
  "merges_guarded t \<longleftrightarrow>
     (\<forall>pre c post. t = pre @ c # post \<and> is_merge_call c \<longrightarrow> pre \<noteq> [] \<and> green_answer (last pre))"

lemma merges_guarded_Nil [simp]: "merges_guarded []"
  by (simp add: merges_guarded_def)

lemma merges_guarded_snoc:
  "merges_guarded (t @ [c]) \<longleftrightarrow>
     merges_guarded t \<and> (is_merge_call c \<longrightarrow> t \<noteq> [] \<and> green_answer (last t))"
proof
  assume l: "merges_guarded (t @ [c])"
  have "pre \<noteq> [] \<and> green_answer (last pre)" if "t = pre @ d # post" "is_merge_call d" for pre d post
    using l that unfolding merges_guarded_def by (metis append.assoc append_Cons)
  with l show "merges_guarded t \<and> (is_merge_call c \<longrightarrow> t \<noteq> [] \<and> green_answer (last t))"
    unfolding merges_guarded_def by blast
next
  assume r: "merges_guarded t \<and> (is_merge_call c \<longrightarrow> t \<noteq> [] \<and> green_answer (last t))"
  show "merges_guarded (t @ [c])"
    unfolding merges_guarded_def
  proof (intro allI impI)
    fix pre d post
    assume *: "t @ [c] = pre @ d # post \<and> is_merge_call d"
    show "pre \<noteq> [] \<and> green_answer (last pre)"
    proof (cases post rule: rev_cases)
      case Nil
      with * r show ?thesis by simp
    next
      case (snoc post' e)
      with * have "t = pre @ d # post'" by (metis append.assoc append_Cons append_eq_conv_conj butlast_snoc)
      with * r show ?thesis unfolding merges_guarded_def by blast
    qed
  qed
qed

lemma merges_guarded_append_plain:
  "list_all (\<lambda>c. \<not> is_merge_call c) cs \<Longrightarrow> merges_guarded (t @ cs) \<longleftrightarrow> merges_guarded t"
proof (induction cs rule: rev_induct)
  case (snoc c cs)
  then show ?case using merges_guarded_snoc [of "t @ cs" c] by simp
qed simp

definition keeps_guard :: "rstate \<Rightarrow> rstate \<Rightarrow> bool" where
  "keeps_guard s t \<longleftrightarrow> (merges_guarded (rs_trace s) \<longrightarrow> merges_guarded (rs_trace t))"

interpretation guard: state_preorder keeps_guard
  by unfold_locales (auto simp: keeps_guard_def)

named_theorems guards \<open>operations that merge on a green answer only\<close>

declare guard.up_rules [guards]

lemma guard_handle [guards]:
  "upholds keeps_guard m \<Longrightarrow> (\<And>e. upholds keeps_guard (h e)) \<Longrightarrow>
     (\<And>v. upholds keeps_guard (k v)) \<Longrightarrow> upholds keeps_guard (handle m h k)"
  unfolding handle_def by (intro guards)

lemma guard_after [guards]:
  "upholds keeps_guard m \<Longrightarrow> upholds keeps_guard n \<Longrightarrow> upholds keeps_guard (after m n)"
  unfolding after_def by (intro guards)

lemma guard_no_merge: "upholds (only_calls (\<lambda>c. \<not> is_merge_call c)) m \<Longrightarrow> upholds keeps_guard m"
  using merges_guarded_append_plain
  unfolding upholds_def only_calls_def keeps_guard_def by metis

text \<open>The resync leaves the green answer it waited for as the last call.\<close>

lemma resync_green:
  "ends (resync_for_ood_retry E R pr) (\<lambda>out s. out = None \<longrightarrow> just_green s)"
proof -
  have poll: "ends (handle (poll_check_runs_for_sha E R sha nwo) h
        (\<lambda>(result, failed). if result \<noteq> ''green'' then bad result failed else ret None))
      (\<lambda>out s. out = None \<longrightarrow> just_green s)"
    if "\<And>e. ends (h e) (\<lambda>out s. out = None \<longrightarrow> just_green s)"
      "\<And>x f. ends (bad x f) (\<lambda>out s. out = None \<longrightarrow> just_green s)" for sha nwo h bad
    by (rule ends_handle_via [OF poll_green(2)])
      (use that in \<open>auto simp: endsD wp_return green_result_def\<close>)
  show ?thesis
    unfolding resync_for_ood_retry_def Let_def
    by (intro ends poll; simp)
qed

lemma merge_attempts_guarded:
  "merges_guarded (rs_trace s) \<Longrightarrow> just_green s \<Longrightarrow>
     merges_guarded (rs_trace (final_state (merge_attempts E R pr n k) s))"
proof (induction n arbitrary: k s)
  case 0
  have "upholds keeps_guard (fail_merge E R pr r)" for r
    by (rule guard_no_merge, intro emits no_merge_kinds)
  with 0 show ?case by (auto simp: upholds_def keeps_guard_def)
next
  case (Suc n)
  let ?s = "final_state (squash_merge E R pr) s"
  have s: "merges_guarded (rs_trace ?s)"
    using Suc.prems
    by (simp add: squash_merge_def op_defs run_prims merges_guarded_snoc just_green_def)
  have ok: "upholds keeps_guard
      (do { _ \<leftarrow> write_run_event E R EventPRMerged 0 p; delete_remote_branch E R; ret outcomeSuccess })" for p
    by (intro guards guard_no_merge emits no_merge_kinds)
  have bad: "upholds keeps_guard (fail_merge E R pr r)" for r
    by (rule guard_no_merge, intro emits no_merge_kinds)
  have retry: "merges_guarded (rs_trace (final_state
      (do { write_automerge_out_of_date_retry E R k;
            out \<leftarrow> resync_for_ood_retry E R pr;
            case out of Some outcome \<Rightarrow> ret outcome | None \<Rightarrow> merge_attempts E R pr n (k + 1) }) ?s))"
  proof -
    let ?t = "final_state (write_automerge_out_of_date_retry E R k) ?s"
    let ?u = "final_state (resync_for_ood_retry E R pr) ?t"
    have "upholds keeps_guard (write_automerge_out_of_date_retry E R k)"
      "upholds keeps_guard (resync_for_ood_retry E R pr)"
      by (rule guard_no_merge, intro emits no_merge_kinds)+
    with s have u: "merges_guarded (rs_trace ?u)" by (auto simp: upholds_def keeps_guard_def)
    have "run_value (resync_for_ood_retry E R pr) ?t = None \<longrightarrow> just_green ?u"
      using ends_value [OF resync_green] by blast
    with u Suc.IH show ?thesis by (auto split: option.split)
  qed
  have bad': "merges_guarded (rs_trace (final_state (fail_merge E R pr r) ?s))"
    and ok': "merges_guarded (rs_trace (final_state
      (do { _ \<leftarrow> write_run_event E R EventPRMerged 0 p; delete_remote_branch E R; ret outcomeSuccess }) ?s))" for r p
    using s bad ok unfolding upholds_def keeps_guard_def by blast+
  show ?case
    unfolding merge_attempts.simps handle_def final_state_bind
    by (cases "run_value (squash_merge E R pr) s") (use retry bad' ok' in \<open>auto simp del: final_state_bind\<close>)
qed

lemma upholds_handle_via:
  assumes "ends m P" and "upholds Rel m" and "state_preorder Rel"
    and "\<And>e s. P (Inl e) s \<Longrightarrow> Rel s (final_state (h e) s)"
    and "\<And>v s. P (Inr v) s \<Longrightarrow> Rel s (final_state (k v) s)"
  shows "upholds Rel (handle m h k)"
  unfolding upholds_def
proof
  fix s
  let ?t = "final_state m s"
  have st: "Rel s ?t" using assms(2) by (simp add: upholds_def)
  have "P (run_value m s) ?t" by (rule ends_value [OF assms(1)])
  then have "Rel ?t (final_state (case run_value m s of Inl e \<Rightarrow> h e | Inr v \<Rightarrow> k v) ?t)"
    by (cases "run_value m s") (simp_all add: assms(4,5))
  with st have "Rel s (final_state (case run_value m s of Inl e \<Rightarrow> h e | Inr v \<Rightarrow> k v) ?t)"
    by (rule state_preorder.rel_trans [OF assms(3)])
  then show "Rel s (final_state (handle m h k) s)" by (simp add: handle_def)
qed

lemma merge_on_green:
  assumes "ends q green_result" and "upholds keeps_guard q"
    and "\<And>e. upholds keeps_guard (h e)" and "\<And>x f. x \<noteq> ''green'' \<Longrightarrow> upholds keeps_guard (bad x f)"
  shows "upholds keeps_guard (handle q h (\<lambda>(result, failed).
      if result = ''green'' then merge_with_out_of_date_retry E R pr else bad result failed))"
proof (rule upholds_handle_via [OF assms(1,2) guard.state_preorder_axioms])
  fix v s
  assume g: "green_result (Inr v) s"
  obtain x f where v: "v = (x, f)" by (cases v)
  show "keeps_guard s (final_state (case v of (result, failed) \<Rightarrow>
      if result = ''green'' then merge_with_out_of_date_retry E R pr else bad result failed) s)"
  proof (cases "x = ''green''")
    case True
    then have "just_green s" using g v by (simp add: green_result_def)
    then show ?thesis using True v merge_attempts_guarded
      by (simp add: keeps_guard_def merge_with_out_of_date_retry_def)
  next
    case False
    then show ?thesis using v assms(4) by (simp add: upholds_def)
  qed
qed (use assms(3) in \<open>simp add: upholds_def\<close>)

lemma merge_if_ci_green_guarded [guards]: "upholds keeps_guard (merge_if_ci_green E R pr)"
  unfolding merge_if_ci_green_def
  by (rule merge_on_green [OF poll_green(1)])
    (intro guards guard_no_merge emits no_merge_kinds)+

lemma verify_and_push_guarded [guards]: "upholds keeps_guard (verify_and_push E R pr)"
proof -
  have flip: "(\<lambda>(result, failed). if result \<noteq> ''green'' then b result failed else g) =
      (\<lambda>(result, failed). if result = ''green'' then g else b result failed)"
    for b :: "string \<Rightarrow> check_item list \<Rightarrow> string M" and g
    by auto
  have poll: "upholds keeps_guard (handle (poll_check_runs_for_sha E R sha nwo)
      (\<lambda>e. fail_merge E R pr (r e)) (\<lambda>(result, failed).
        if result = ''green'' then merge_with_out_of_date_retry E R pr
        else fail_merge E R pr (ci_fail_reason result failed)))" for sha nwo r
    by (rule merge_on_green [OF poll_green(2)])
      (intro guard_no_merge emits no_merge_kinds)+
  show ?thesis
    unfolding verify_and_push_def flip
    by (intro guard.up_bind guard.up_option guard_handle poll guard_no_merge emits no_merge_kinds)
qed

lemma run_merge_phase_guarded [guards]: "upholds keeps_guard (run_merge_phase E R)"
  unfolding run_merge_phase_def
  by (intro guard.up_bind guard.up_option guard.up_if guard_handle merge_if_ci_green_guarded
      verify_and_push_guarded guard_no_merge emits no_merge_kinds; simp)

section \<open>How often\<close>

lemma fail_merge_counted [counted]: "at_most is_merge_call k (fail_merge E R pr r)"
  by (rule at_most_none, intro emits no_merge_kinds)

lemma merge_attempts_merges: "at_most is_merge_call n (merge_attempts E R pr n k)"
proof (induction n arbitrary: k)
  case 0
  show ?case by (simp, intro counted)
next
  case (Suc n)
  have one: "at_most is_merge_call 1 (squash_merge E R pr)"
    by (simp add: at_most_def calls_of_def squash_merge_def op_defs run_prims)
  show ?case
    unfolding merge_attempts.simps
    by (rule at_most_handle [OF one, where j = n])
      (intro counted Suc.IH emits no_merge_kinds | simp)+
qed

lemma merge_with_retry_counted [counted]:
  "at_most is_merge_call 3 (merge_with_out_of_date_retry E R pr)"
  using merge_attempts_merges [of "nat maxOutOfDateRetries"]
  by (simp add: merge_with_out_of_date_retry_def maxOutOfDateRetries_def)

lemma merge_parts_counted [counted]:
  "at_most is_merge_call 3 (merge_if_ci_green E R pr)"
  "at_most is_merge_call 3 (verify_and_push E R pr)"
  unfolding merge_if_ci_green_def verify_and_push_def
  by (intro counted emits no_merge_kinds)+

lemma merge_phase_merges: "at_most is_merge_call 3 (run_merge_phase E R)"
  unfolding run_merge_phase_def by (intro counted emits no_merge_kinds; simp)

section \<open>Conflict resolution\<close>

text \<open>The last call is the abort of the rebase.\<close>

definition aborted_last :: "rconfig \<Rightarrow> rstate \<Rightarrow> bool" where
  "aborted_last R s \<longleftrightarrow>
     rs_trace s \<noteq> [] \<and>
     (\<exists>r. last (rs_trace s) =
        CExec (Cmd [] (dev_worktree_path R) [''git'', ''rebase'', ''--abort'']) r)"

text \<open>
  The last calls are the three checks of \<open>verifyRebaseComplete\<close>, all passed: no \<open>REBASE_HEAD\<close>,
  a clean tree, \<open>origin/main\<close> an ancestor of \<open>HEAD\<close>; then the event is written.
\<close>

definition rebase_verified :: "rconfig \<Rightarrow> call list \<Rightarrow> bool" where
  "rebase_verified R t \<longleftrightarrow>
     (\<exists>pre e out r. trim_space out = [] \<and> t = pre @
        [CExec (Cmd [] (dev_worktree_path R) [''git'', ''rev-parse'', ''--verify'', ''REBASE_HEAD'']) (Inl e),
         CExec (Cmd [] (dev_worktree_path R) [''git'', ''status'', ''--porcelain'']) (Inr out),
         CExec (Cmd [] (dev_worktree_path R)
           [''git'', ''merge-base'', ''--is-ancestor'', ''origin/main'', ''HEAD'']) (Inr r)])"

definition resolved_state :: "rconfig \<Rightarrow> rstate \<Rightarrow> bool" where
  "resolved_state R s \<longleftrightarrow>
     (\<exists>pre e b. rs_trace s = pre @ [CLogWrite e b] \<and> rebase_verified R pre \<and>
        ev_type e = EventAutomergeConflictRetry)"

lemma abort_ends: "ends (after (rebase_abort E (dev_worktree_path R)) (ret x)) (\<lambda>_ s. aborted_last R s)"
  by (simp add: ends_def wp_def after_def rebase_abort_def op_defs run_prims aborted_last_def)

lemma verify_rebase_ends:
  "ends (verify_rebase_complete E (dev_worktree_path R)) (\<lambda>v s. fst v \<longrightarrow> rebase_verified R (rs_trace s))"
  by (auto simp: ends_def wp_def verify_rebase_complete_def handle_def op_defs run_prims
      rebase_verified_def split: sum.split)

lemma determine_ends:
  "ends (determine_conflict_resolution_result E (dev_worktree_path R) rep)
     (\<lambda>v s. fst v = ''resolved'' \<longrightarrow> rebase_verified R (rs_trace s))"
proof -
  have "ends (do { v \<leftarrow> verify_rebase_complete E (dev_worktree_path R);
          ret (if fst v then (''resolved'', a) else (''unresolved'', snd v)) })
      (\<lambda>v s. fst v = ''resolved'' \<longrightarrow> rebase_verified R (rs_trace s))" for a
    by (rule ends_bind_via [OF verify_rebase_ends]) (simp add: wp_return)
  then show ?thesis
    unfolding determine_conflict_resolution_result_def
    by (intro ends_option ends_if ends_return) simp_all
qed

definition conflict_result :: "rconfig \<Rightarrow> gerr option \<Rightarrow> rstate \<Rightarrow> bool" where
  "conflict_result R r s \<longleftrightarrow> (case r of Some _ \<Rightarrow> aborted_last R s | None \<Rightarrow> resolved_state R s)"

lemma conflict_abort_ends:
  "ends (after (rebase_abort E (dev_worktree_path R)) (ret (Some e))) (conflict_result R)"
proof -
  have "ends (after (rebase_abort E (dev_worktree_path R)) (ret (Some e)))
      (\<lambda>r s. r = Some e \<and> aborted_last R s)"
    using abort_ends [of E R "Some e"]
    by (simp add: ends_def wp_def after_def)
  then show ?thesis by (rule ends_mono) (simp add: conflict_result_def)
qed

lemma collect_ends:
  "ends (collect_conflicted_files E (dev_worktree_path R))
     (\<lambda>r s. \<forall>e. r = Inl e \<longrightarrow> aborted_last R s)"
  by (auto simp: ends_def wp_def collect_conflicted_files_def handle_def after_def rebase_abort_def
      op_defs run_prims aborted_last_def split: sum.split)

lemma conflict_attempts_ends: "ends (conflict_attempts E R pr model n k) (conflict_result R)"
proof (induction n arbitrary: k)
  case 0
  show ?case by (simp add: conflict_abort_ends)
next
  case (Suc n)
  have written: "resolved_state R (final_state (write_automerge_conflict_retry E R files res t a) s)"
    if "rebase_verified R (rs_trace s)" for files res t a s
    using that
    by (auto simp: resolved_state_def write_automerge_conflict_retry_def write_run_event_def run_prims)
  have tail: "ends (do {
       res \<leftarrow> determine_conflict_resolution_result E (dev_worktree_path R) rep;
       t' \<leftarrow> get_turn;
       write_automerge_conflict_retry E R files (fst res) t' k;
       if fst res = ''resolved'' then ret None
       else if k \<ge> conflict_cap R then
         after (rebase_abort E (dev_worktree_path R))
           (ret (Some (Err KCapExhausted (err_text errConflictCapExhausted @ '': '' @ snd res))))
       else conflict_attempts E R pr model n (k + 1)
     }) (conflict_result R)" for rep files
  proof (rule ends_bind_via [OF determine_ends])
    fix res :: "string \<times> string" and s :: rstate
    assume v: "fst res = ''resolved'' \<longrightarrow> rebase_verified R (rs_trace s)"
    have other: "ends (if k \<ge> conflict_cap R then
         after (rebase_abort E (dev_worktree_path R))
           (ret (Some (Err KCapExhausted (err_text errConflictCapExhausted @ '': '' @ snd res))))
       else conflict_attempts E R pr model n (k + 1)) (conflict_result R)"
      by (intro ends_if conflict_abort_ends Suc.IH)
    show "wp (do {
       t' \<leftarrow> get_turn;
       write_automerge_conflict_retry E R files (fst res) t' k;
       if fst res = ''resolved'' then ret None
       else if k \<ge> conflict_cap R then
         after (rebase_abort E (dev_worktree_path R))
           (ret (Some (Err KCapExhausted (err_text errConflictCapExhausted @ '': '' @ snd res))))
       else conflict_attempts E R pr model n (k + 1) }) (conflict_result R) s"
    proof (cases "fst res = ''resolved''")
      case True
      with v written show ?thesis by (simp add: wp_def conflict_result_def)
    next
      case False
      show ?thesis
        unfolding wp_bind using False endsD [OF other] by (simp add: wp_def)
    qed
  qed
  show ?case
    unfolding conflict_attempts.simps
    apply (rule ends_handle_via [OF collect_ends])
     apply (simp add: wp_return conflict_result_def)
    apply (rule endsD)
    apply (rule ends_handle, rule conflict_abort_ends)
    apply (rule ends_bind, rule ends_bind, rule ends_bind)
    apply (rule tail)
    done
qed

lemma resolve_ends: "ends (resolve_rebase_conflict_with_agent E R pr) (conflict_result R)"
  unfolding resolve_rebase_conflict_with_agent_def
  by (intro ends_handle ends_prod conflict_abort_ends conflict_attempts_ends)

lemma conflict_attempts_agents: "at_most is_agent_call n (conflict_attempts E R pr model n k)"
proof (induction n arbitrary: k)
  case 0
  show ?case by (simp, intro counted emits no_agent_kinds)
next
  case (Suc n)
  have tail: "at_most is_agent_call (Suc n) (State_Monad.bind (run_agent E cfg) f)"
    if "\<And>rep. at_most is_agent_call n (f rep)" for cfg and f :: "agent_reply \<Rightarrow> gerr option M"
    by (rule at_most_bind [OF at_most_run_agent that]) simp
  show ?case
    unfolding conflict_attempts.simps
    apply (rule counted_handle, intro emits no_agent_kinds, rule counted_return)
    apply (rule counted_handle, intro emits, simp, intro counted emits no_agent_kinds)
    apply (rule counted_bind, intro emits)
    apply (rule counted_bind, intro emits)
    apply (rule tail)
    apply (intro counted Suc.IH emits no_agent_kinds)
    done
qed

lemma resolve_agents: "at_most is_agent_call (nat (conflict_cap R)) (resolve_rebase_conflict_with_agent E R pr)"
  unfolding resolve_rebase_conflict_with_agent_def
  by (intro counted conflict_attempts_agents emits no_agent_kinds; simp)

section \<open>Outcomes of the two phases\<close>

lemma fail_merge_outcome [ends]:
  "Q outcomeMergeFailed = (\<lambda>_. True) \<Longrightarrow> ends (fail_merge E R pr reason) Q"
  unfolding fail_merge_def by (intro ends) simp

definition sync_result :: "string \<Rightarrow> rstate \<Rightarrow> bool" where
  "sync_result out s \<longleftrightarrow>
     out \<in> {outcomeDevFailed, outcomeConflictUnresolved} \<or> (out = outcomeSuccess \<and> green_tail s)"

lemma sync_result_failed [simp]:
  "sync_result outcomeDevFailed s" "sync_result outcomeConflictUnresolved s"
  by (simp_all add: sync_result_def)

lemma just_green_tail: "just_green s \<Longrightarrow> green_tail s"
  by (erule green_tail_only_logs) (simp add: only_calls_def)

lemma run_ci_gate_ends: "ends (run_ci_gate E R pr) sync_result"
  unfolding run_ci_gate_def
  by (rule ends_mono [OF ci_gate_rounds_result]) (auto simp: gate_result_def sync_result_def)

lemma pre_review_push_ends: "ends (pre_review_push_and_ci E R pr) sync_result"
proof -
  have poll: "ends (handle (poll_check_runs_for_sha E R sha nwo) (\<lambda>e. escalate_dev_failed E R pr (r e))
      (\<lambda>(result, failed). if result \<noteq> ''green'' then escalate_dev_failed E R pr (q result failed)
         else ret outcomeSuccess)) sync_result" for sha nwo r q
    by (rule ends_handle_via [OF poll_green(2)])
      (auto simp: escalate_dev_failed_def wp_simps wp_def [of "post_ci_escalation_comment E R pr t" for t]
        green_result_def sync_result_def just_green_tail)
  show ?thesis
    unfolding pre_review_push_and_ci_def
    by (intro ends_bind ends_option ends_handle poll ends_return)
      (simp_all add: escalate_dev_failed_def ends_after ends_return)
qed

lemma sync_gate_ends: "ends (run_pre_review_sync_gate E R pr) sync_result"
  unfolding run_pre_review_sync_gate_def
  by (intro ends_handle ends_if ends_after ends_return run_ci_gate_ends pre_review_push_ends) simp_all

definition merge_outcome :: "string \<Rightarrow> rstate \<Rightarrow> bool" where
  "merge_outcome out s \<longleftrightarrow>
     out \<in> {outcomeSuccess, outcomeMergeFailed, outcomeConflictResolved, outcomeConflictUnresolved}"

lemma merge_outcome_simps [simp]:
  "merge_outcome outcomeSuccess s" "merge_outcome outcomeMergeFailed s"
  "merge_outcome outcomeConflictResolved s" "merge_outcome outcomeConflictUnresolved s"
  by (simp_all add: merge_outcome_def)

text \<open>The attempts to merge and the failures before them end in success or failure only.\<close>

definition merge_final :: "string \<Rightarrow> rstate \<Rightarrow> bool" where
  "merge_final out s \<longleftrightarrow> out \<in> {outcomeSuccess, outcomeMergeFailed}"

lemma merge_final_simps [simp]: "merge_final outcomeSuccess s" "merge_final outcomeMergeFailed s"
  by (simp_all add: merge_final_def)

lemma fail_merge_ends [ends]: "ends (fail_merge E R pr reason) merge_final"
  unfolding fail_merge_def by (intro ends) simp

lemma resync_final:
  "ends (resync_for_ood_retry E R pr) (\<lambda>out s. case out of None \<Rightarrow> True | Some o' \<Rightarrow> merge_final o' s)"
proof -
  have f: "ends (do { out \<leftarrow> fail_merge E R pr r; ret (Some out) })
      (\<lambda>out s. case out of None \<Rightarrow> True | Some o' \<Rightarrow> merge_final o' s)" for r
    by (rule ends_bind_via [OF fail_merge_ends]) (simp add: wp_return)
  show ?thesis
    unfolding resync_for_ood_retry_def Let_def
    by (intro ends_bind [where m = "rebase_branch E wt" for wt] ends_bind [where m = "force_push_branch E R"]
        ends_option ends_if ends_after ends_handle ends_prod f ends_return) simp
qed

lemma merge_attempts_final: "ends (merge_attempts E R pr n k) merge_final"
proof (induction n arbitrary: k)
  case 0
  show ?case by (simp add: fail_merge_ends)
next
  case (Suc n)
  have retry: "ends (do { out \<leftarrow> resync_for_ood_retry E R pr;
      case out of Some outcome \<Rightarrow> ret outcome | None \<Rightarrow> merge_attempts E R pr n (k + 1) }) merge_final"
    by (rule ends_bind_via [OF resync_final])
      (auto simp: wp_return endsD [OF Suc.IH] split: option.splits)
  show ?case
    unfolding merge_attempts.simps
    apply (rule ends_handle)
     apply (intro ends_if fail_merge_ends)
     apply (rule ends_bind, rule retry)
    apply (intro ends_bind ends_return, simp)
    done
qed

lemma merge_green_final:
  "ends (merge_if_ci_green E R pr) merge_final" "ends (verify_and_push E R pr) merge_final"
  unfolding merge_if_ci_green_def verify_and_push_def merge_with_out_of_date_retry_def
  by (intro ends_handle ends_bind ends_if ends_option ends_prod fail_merge_ends merge_attempts_final)+

lemma merge_final_outcome: "ends m merge_final \<Longrightarrow> ends m merge_outcome"
  by (erule ends_mono) (auto simp: merge_final_def merge_outcome_def)

lemma run_merge_phase_outcome: "ends (run_merge_phase E R) merge_outcome"
  unfolding run_merge_phase_def
  by (intro ends_handle ends_bind ends_if ends_option ends_after
      merge_final_outcome [OF fail_merge_ends] merge_green_final [THEN merge_final_outcome]
      ends_return; simp)

section \<open>Low confidence\<close>

text \<open>The confidence the gate reads, as a function of the log.\<close>

definition confidence_in :: "event list \<Rightarrow> string result" where
  "confidence_in events =
     (case last_review_payload events of Inl e \<Rightarrow> Inl e | Inr raw \<Rightarrow> payload_field (get_str ''confidence'') raw)"

definition may_merge :: "event list \<Rightarrow> bool" where
  "may_merge events \<longleftrightarrow> (case confidence_in events of Inl _ \<Rightarrow> False | Inr c \<Rightarrow> c \<noteq> ''low'')"

lemma gate_refuses:
  "\<not> may_merge (rs_log s) \<Longrightarrow> \<not> fst (run_value (evaluate_auto_merge_gate E) s)"
  by (auto simp: evaluate_auto_merge_gate_def latest_confidence_def last_review_submitted_payload_def
      read_events_run may_merge_def confidence_in_def split: sum.splits)

lemma low_confidence_aux:
  assumes "\<not> may_merge (rs_log s)"
  shows "only_calls (\<lambda>c. \<not> is_merge_call c) s (final_state (run_merge_phase E R) s) \<and>
    run_value (run_merge_phase E R) s \<in> {outcomeSuccess, outcomeMergeFailed}"
proof -
  let ?t = "final_state (get_pr_number E) s"
  have st: "only_calls (\<lambda>c. \<not> is_merge_call c) s ?t"
    by (rule upholdsD) (intro emits no_merge_kinds)
  have log: "rs_log ?t = rs_log s" by (rule log_queries_keep_log)
  show ?thesis
  proof (cases "run_value (get_pr_number E) s")
    case (Inl e)
    have "upholds (only_calls (\<lambda>c. \<not> is_merge_call c))
        (write_automerge_failed E R ''PR number unavailable'')"
      by (intro emits no_merge_kinds)
    with st have "only_calls (\<lambda>c. \<not> is_merge_call c) s
        (final_state (write_automerge_failed E R ''PR number unavailable'') ?t)"
      by (auto dest: upholdsD intro: calls.rel_trans)
    with Inl show ?thesis by (simp add: run_merge_phase_def handle_def after_def)
  next
    case (Inr pr)
    let ?u = "final_state (evaluate_auto_merge_gate E) ?t"
    have u: "only_calls (\<lambda>c. \<not> is_merge_call c) s ?u"
      using st by (rule calls.rel_trans) (rule upholdsD, intro emits no_merge_kinds)
    have "upholds (only_calls (\<lambda>c. \<not> is_merge_call c))
        (after (write_automerge_skipped E R r) (ret outcomeSuccess))" for r
      by (intro emits no_merge_kinds)
    with u have v: "only_calls (\<lambda>c. \<not> is_merge_call c) s
        (final_state (after (write_automerge_skipped E R r) (ret outcomeSuccess)) ?u)" for r
      by (auto dest: upholdsD intro: calls.rel_trans)
    have "\<not> fst (run_value (evaluate_auto_merge_gate E) ?t)"
      by (rule gate_refuses) (simp add: log assms)
    with v Inr show ?thesis
      by (simp add: run_merge_phase_def handle_def) (simp add: after_def)
  qed
qed

section \<open>Properties\<close>

text \<open>
  The sync gate before a review passes only on a green answer: its outcome is a dev failure
  or an unresolved conflict, or it is success and the last thing asked of GitHub was the check
  runs of a commit that classified as green.
\<close>

theorem sync_gate_green:
  "run_value (run_pre_review_sync_gate E R pr) s \<in> {outcomeDevFailed, outcomeConflictUnresolved} \<or>
   (run_value (run_pre_review_sync_gate E R pr) s = outcomeSuccess \<and>
    green_tail (final_state (run_pre_review_sync_gate E R pr) s))"
  using ends_value [OF sync_gate_ends] unfolding sync_result_def by blast

text \<open>
  C10: The merge phase ends in one of its four outcomes and asks GitHub to merge at most three
  times, whatever git, GitHub and the agents answer.
\<close>

theorem merge_phase_bounded:
  "run_value (run_merge_phase E R) s \<in>
     {outcomeSuccess, outcomeMergeFailed, outcomeConflictResolved, outcomeConflictUnresolved} \<and>
   calls_of is_merge_call (final_state (run_merge_phase E R) s) \<le> calls_of is_merge_call s + 3"
  using ends_value [OF run_merge_phase_outcome] at_mostD [OF merge_phase_merges]
  unfolding merge_outcome_def by blast

text \<open>
  C11: Conflict resolution runs the dev agent at most as often as the configured cap (two when
  the cap is not positive). When it fails, its last call is the abort of the rebase, so no
  conflicted worktree is left behind; when it reports the conflict resolved, the last calls
  before the event are the three checks of the rebase and all of them passed.
\<close>

theorem conflict_resolution_contract:
  "(case run_value (resolve_rebase_conflict_with_agent E R pr) s of
      Some _ \<Rightarrow> aborted_last R (final_state (resolve_rebase_conflict_with_agent E R pr) s)
    | None \<Rightarrow> resolved_state R (final_state (resolve_rebase_conflict_with_agent E R pr) s)) \<and>
   calls_of is_agent_call (final_state (resolve_rebase_conflict_with_agent E R pr) s)
     \<le> calls_of is_agent_call s + nat (conflict_cap R)"
  using ends_value [OF resolve_ends] at_mostD [OF resolve_agents]
  unfolding conflict_result_def by blast

text \<open>
  C6: An approval whose confidence is low, or cannot be read from the log, is never merged: the
  merge phase then makes no merge call and ends in success (skipped) or merge failure.
\<close>

theorem low_confidence_never_merges:
  assumes "\<not> may_merge (rs_log s)"
  shows "only_calls (\<lambda>c. \<not> is_merge_call c) s (final_state (run_merge_phase E R) s) \<and>
    run_value (run_merge_phase E R) s \<in> {outcomeSuccess, outcomeMergeFailed}"
  using low_confidence_aux [OF assms] by blast

text \<open>A log with a PR and an approval of low confidence.\<close>

definition low_confidence_log :: "event list" where
  "low_confidence_log =
    [\<lparr>ev_type = EventPROpened, ev_ts = ''t'', ev_run_id = ''r'', ev_turn_id = 1,
      ev_payload = Some (JObj [(''prNumber'', JStr ''7'')])\<rparr>,
     \<lparr>ev_type = EventReviewSubmitted, ev_ts = ''t'', ev_run_id = ''r'', ev_turn_id = 2,
      ev_payload = Some (JObj [(''verdict'', JStr ''approved''), (''confidence'', JStr ''low''),
        (''reviewId'', JStr ''9''), (''inlineCommentCount'', jint 0)])\<rparr>]"

definition start_state :: "event list \<Rightarrow> rstate" where
  "start_state log = \<lparr>rs_turn = 0, rs_nwo = [], rs_log = log, rs_trace = [], rs_usage = []\<rparr>"

lemma low_confidence_log_refused: "\<not> may_merge low_confidence_log"
  by code_simp

theorem low_confidence_never_merges_witness:
  "\<forall>E R. only_calls (\<lambda>c. \<not> is_merge_call c) (start_state low_confidence_log)
           (final_state (run_merge_phase E R) (start_state low_confidence_log)) \<and>
         run_value (run_merge_phase E R) (start_state low_confidence_log)
           \<in> {outcomeSuccess, outcomeMergeFailed}"
proof -
  have "\<not> may_merge (rs_log (start_state low_confidence_log))"
    using low_confidence_log_refused by (simp add: start_state_def)
  then show ?thesis
    using low_confidence_never_merges [of "start_state low_confidence_log"] by blast
qed

end
