(* ===== verification/Dev.thy ===== *)
theory Dev
  imports Merge
begin

text \<open>
  \<open>internal/runner/dev.go\<close>: one dev-agent invocation with its brokers, what the runner makes of
  the broker's verdict afterwards, and the commit, push and PR side effects of an accepted
  \<open>gm_dev_done\<close>. The broker's answers are part of the agent's reply.
\<close>

section \<open>PR helpers\<close>

definition closing_keyword :: "string \<Rightarrow> string \<Rightarrow> int \<Rightarrow> bool" where
  "closing_keyword verb body n \<longleftrightarrow>
     contains_sub (to_lower (verb @ '' #'' @ itoa n)) (to_lower body)"

definition ensure_body_closes_issue_num :: "string \<Rightarrow> int \<Rightarrow> string" where
  "ensure_body_closes_issue_num body n =
     (if closing_keyword ''closes'' body n \<or> closing_keyword ''fixes'' body n \<or>
         closing_keyword ''resolves'' body n
      then body
      else trim_right (\<lambda>c. c = newline) body @ [newline, newline] @ ''Closes #'' @ itoa n @ [newline])"

text \<open>The text after the last slash, when it is an integer.\<close>

definition parse_pr_number :: "string \<Rightarrow> string" where
  "parse_pr_number url =
     (if CHR ''/'' \<in> set url then
        (let candidate = last (split_on (CHR ''/'') url)
         in if atoi candidate \<noteq> None then candidate else [])
      else [])"

section \<open>Commit, push, open the PR\<close>

definition commit_push_and_open_pr :: "env \<Rightarrow> rconfig \<Rightarrow> dev_done \<Rightarrow> gerr option M" where
  "commit_push_and_open_pr E R dd =
     or_fail (wrap_err ''git add -A: '')
       (run_in_dir E (dev_worktree_path R) [''git'', ''add'', ''-A'']) (\<lambda>_.
     or_fail (wrap_err ''git commit: '')
       (run_in_dir E (dev_worktree_path R) [''git'', ''commit'', ''-m'', dd_commit_msg dd]) (\<lambda>_.
     or_fail (wrap_err ''git push: '')
       (run_with_token E (r_dev_token R) (dev_worktree_path R)
          [''git'', ''push'', ''--set-upstream'', ''origin'', r_branch R]) (\<lambda>_.
     or_fail (wrap_err ''gh pr create: '')
       (run_with_token E (r_dev_token R) (dev_worktree_path R)
          [''gh'', ''pr'', ''create'', ''--title'', dd_pr_title dd, ''--body'',
           ensure_body_closes_issue_num (dd_pr_body dd) (r_issue_num R)]) (\<lambda>out.
     let url = trim_space out; pr = parse_pr_number url in
     if pr = [] then ret (Some (msg_err (''failed to parse PR number from: '' @ url)))
     else append_event E R EventPROpened
            (JObj [(''branch'', JStr (r_branch R)), (''prNumber'', JStr pr), (''url'', JStr url)])))))"

definition commit_and_force_push :: "env \<Rightarrow> rconfig \<Rightarrow> dev_done \<Rightarrow> gerr option M" where
  "commit_and_force_push E R dd =
     or_fail (wrap_err ''git add -A: '')
       (run_in_dir E (dev_worktree_path R) [''git'', ''add'', ''-A'']) (\<lambda>_.
     do {
       staged \<leftarrow> run_in_dir E (dev_worktree_path R) [''git'', ''diff'', ''--cached'', ''--quiet''];
       (case staged of
          Inr _ \<Rightarrow> ret None
        | Inl _ \<Rightarrow>
            or_fail (wrap_err ''git commit: '')
              (run_in_dir E (dev_worktree_path R) [''git'', ''commit'', ''-m'', dd_commit_msg dd]) (\<lambda>_.
            or_fail (wrap_err ''git push: '')
              (run_with_token E (r_dev_token R) (dev_worktree_path R)
                 [''git'', ''push'', ''--force-with-lease'']) (\<lambda>_. ret None)))
     })"

definition commit_dev_done :: "env \<Rightarrow> rconfig \<Rightarrow> dev_done \<Rightarrow> gerr option M" where
  "commit_dev_done E R dd =
     do {
       opened \<leftarrow> has_pr_opened_event E;
       if opened then commit_and_force_push E R dd else commit_push_and_open_pr E R dd
     }"

section \<open>After the invocation\<close>

definition finish_without_accepted :: "dev_broker \<Rightarrow> string option" where
  "finish_without_accepted b =
     (if db_gate_rejected b then Some (db_gate_reason b)
      else if db_terminal_status b \<in> {Some ''SCHEMA_INVALID'', Some ''PROTOCOL_ERROR''} then
        (case db_terminal_message b of Some msg \<Rightarrow> if msg \<noteq> [] then Some msg else None | None \<Rightarrow> None)
      else None)"

definition no_dev_done_reason :: string where
  "no_dev_done_reason =
     ''the invocation ended without a successful gm_dev_done call; run gm_project_check until green, then call gm_dev_done with summary, commitMsg, prTitle, and prBody''"

text \<open>The side effects of a \<open>gm_dev_done\<close> the runner takes over.\<close>

definition finalize_dev_done :: "env \<Rightarrow> rconfig \<Rightarrow> dev_done \<Rightarrow> (event_key \<times> string) M" where
  "finalize_dev_done E R dd =
     do {
       err \<leftarrow> commit_dev_done E R dd;
       ret (case err of Some _ \<Rightarrow> (EventDevFailed, []) | None \<Rightarrow> (EventDevDone, []))
     }"

definition finalize_accepted_dev_done :: "env \<Rightarrow> rconfig \<Rightarrow> dev_broker \<Rightarrow> dev_done \<Rightarrow> (event_key \<times> string) M" where
  "finalize_accepted_dev_done E R b dd =
     (case db_accept_fp b of
        None \<Rightarrow> ret (EventDevFailed, [])
      | Some accepted \<Rightarrow>
          if (case db_current_fp b of Some current \<Rightarrow> current \<noteq> accepted | None \<Rightarrow> False)
          then ret (EventDevFailed, [])
          else finalize_dev_done E R dd)"

definition finish_dev_agent_with_broker :: "env \<Rightarrow> rconfig \<Rightarrow> dev_broker \<Rightarrow> (event_key \<times> string) M" where
  "finish_dev_agent_with_broker E R b =
     (case db_dev_done b of
        Some dd \<Rightarrow> finalize_accepted_dev_done E R b dd
      | None \<Rightarrow>
          (case (db_recovered b, db_tree_green b) of
             (Some params, True) \<Rightarrow> finalize_dev_done E R params
           | _ \<Rightarrow>
               (case finish_without_accepted b of
                  Some reason \<Rightarrow>
                    ret (EventDevGateRejected,
                      if db_last_check_output b \<noteq> []
                      then reason @ [newline, newline] @ ''Failing gm_project_check output:'' @ [newline] @
                           db_last_check_output b
                      else reason)
                | None \<Rightarrow> ret (EventDevGateRejected, no_dev_done_reason))))"

section \<open>Failed invocations\<close>

definition post_model_chain_exhausted_comment ::
    "env \<Rightarrow> rconfig \<Rightarrow> int \<Rightarrow> string \<Rightarrow> (string \<times> string) list \<Rightarrow> unit M" where
  "post_model_chain_exhausted_comment E R pr role attempts =
     do {
       _ \<leftarrow> run_with_token E (r_reviewer_token R) (r_repo_root R)
         [''gh'', ''pr'', ''comment'', itoa pr, ''--body'',
          ''golemic: role '' @ [CHR 0x22] @ role @ [CHR 0x22] @ '' exhausted all configured models ('' @
          join_with '', '' (map fst attempts) @ '') for issue #'' @ itoa (r_issue_num R) @
          '' (PR #'' @ itoa pr @ ''). Failure categories: '' @ join_with '', '' (map snd attempts) @
          ''. Human intervention required.''];
       ret ()
     }"

text \<open>The comment when the PR is known.\<close>

definition comment_chain_exhausted :: "env \<Rightarrow> rconfig \<Rightarrow> string \<Rightarrow> (string \<times> string) list \<Rightarrow> unit M" where
  "comment_chain_exhausted E R role attempts =
     do {
       pr \<leftarrow> get_pr_number E;
       (case pr of Inl _ \<Rightarrow> ret ()
        | Inr n \<Rightarrow> post_model_chain_exhausted_comment E R n role attempts)
     }"

definition handle_dev_agent_error :: "env \<Rightarrow> rconfig \<Rightarrow> agent_reply \<Rightarrow> agent_err \<Rightarrow> event_key M" where
  "handle_dev_agent_error E R rep err =
     (case err of
        AgentTimeout \<Rightarrow> ret EventAgentTimedOut
      | AgentStalled \<Rightarrow> ret EventAgentStalled
      | AgentThinkingLoop \<Rightarrow> ret EventAgentAborted
      | AgentChainExhausted attempts \<Rightarrow> do {
          write_agent_completed E R ''dev'' 1 (ar_stdout rep) (ar_stderr rep);
          comment_chain_exhausted E R ''dev'' attempts;
          ret EventDevFailed
        }
      | AgentOther _ \<Rightarrow> ret EventDevFailed)"

section \<open>Brokers and the invocation\<close>

definition cbm_cache_dir :: "rconfig \<Rightarrow> string" where
  "cbm_cache_dir R = path_join [golemic_dir R, ''cbm'', ''issue-'' @ itoa (r_issue_num R)]"

definition index_worktree :: "env \<Rightarrow> rconfig \<Rightarrow> string \<Rightarrow> string \<Rightarrow> bool M" where
  "index_worktree E R wt name =
     do {
       ok \<leftarrow> make_dir E (cbm_cache_dir R);
       if \<not> ok then ret False
       else do {
         r \<leftarrow> exec E (Cmd [(''CBM_CACHE_DIR'', cbm_cache_dir R), (''CBM_LOG_LEVEL'', ''warn'')] wt
           [''npx'', ''-y'', ''codebase-memory-mcp@0.9.0'', ''cli'', ''index_repository'',
            ''--repo-path'', wt, ''--name'', name, ''--mode'', ''fast'']);
         ret (case r of Inl _ \<Rightarrow> False | Inr _ \<Rightarrow> True)
       }
     }"

definition start_cbm_for_role :: "env \<Rightarrow> rconfig \<Rightarrow> string \<Rightarrow> string \<Rightarrow> string \<Rightarrow> bool M" where
  "start_cbm_for_role E R wt sock name =
     do {
       indexed \<leftarrow> index_worktree E R wt name;
       if indexed then start_broker E sock else ret False
     }"

definition dev_tools :: "bool \<Rightarrow> bool \<Rightarrow> string list" where
  "dev_tools gm cbm =
     baseDevTools @ (if gm then gmDevToolNames @ (if cbm then gmCodeToolNames else []) else [])"

definition socket_path :: "rconfig \<Rightarrow> string \<Rightarrow> int \<Rightarrow> int \<Rightarrow> string" where
  "socket_path R kind round attempt =
     path_join [runs_dir R, r_run_id R,
       kind @ itoa round @ ''-a'' @ itoa attempt @ ''.sock'']"

definition activity_path :: "rconfig \<Rightarrow> string \<Rightarrow> int \<Rightarrow> int \<Rightarrow> string" where
  "activity_path R role round attempt =
     path_join [runs_dir R, r_run_id R,
       role @ ''-r'' @ itoa round @ ''-a'' @ itoa attempt @ ''.activity.jsonl'']"

definition execute_dev_agent_cfg :: "env \<Rightarrow> rconfig \<Rightarrow> agent_cfg \<Rightarrow> (event_key \<times> string) M" where
  "execute_dev_agent_cfg E R cfg =
     do {
       rep \<leftarrow> run_agent E cfg;
       record_token_usage E ''dev'' (ac_round cfg) (ac_attempt cfg)
         (activity_path R ''dev'' (ac_round cfg) (ac_attempt cfg));
       (case ar_err rep of
          Some err \<Rightarrow> do { ev \<leftarrow> handle_dev_agent_error E R rep err; ret (ev, []) }
        | None \<Rightarrow> do {
            write_agent_completed E R ''dev'' (ar_exit rep) (ar_stdout rep) (ar_stderr rep);
            if ar_exit rep \<noteq> 0 then ret (EventDevFailed, [])
            else finish_dev_agent_with_broker E R (ar_dev rep)
          })
     }"

definition run_dev_agent_with_prompt ::
    "env \<Rightarrow> rconfig \<Rightarrow> string \<Rightarrow> string \<Rightarrow> bool \<Rightarrow> int \<Rightarrow> int \<Rightarrow> (event_key \<times> string) M" where
  "run_dev_agent_with_prompt E R model user_prompt cbm_enabled round attempt =
     do {
       cbm \<leftarrow> (if cbm_enabled \<and> attempt = 0
               then start_cbm_for_role E R (dev_worktree_path R) (socket_path R ''cbm-dev-r'' round attempt)
                      (''golemic-issue-'' @ itoa (r_issue_num R) @ ''-dev'')
               else ret False);
       gm \<leftarrow> start_broker E (socket_path R ''gm-dev-r'' round attempt);
       if \<not> gm then ret (EventDevFailed, [])
       else do {
         t \<leftarrow> get_turn;
         execute_dev_agent_cfg E R \<lparr>ac_role = ''dev'', ac_prompt = user_prompt,
           ac_dir = dev_worktree_path R, ac_model = model, ac_turn = t, ac_round = round,
           ac_attempt = attempt, ac_tools = dev_tools gm cbm\<rparr>
       }
     }"

section \<open>What the operations add to the history\<close>

lemma agent_err_cases_total:
  assumes "upholds Rel a" "upholds Rel b" "upholds Rel c" "\<And>xs. upholds Rel (d xs)" "\<And>t. upholds Rel (g t)"
  shows "upholds Rel (case err of AgentTimeout \<Rightarrow> a | AgentStalled \<Rightarrow> b | AgentThinkingLoop \<Rightarrow> c
      | AgentChainExhausted xs \<Rightarrow> d xs | AgentOther t \<Rightarrow> g t)"
  using assms by (simp split: agent_err.split)

lemmas [grows] = agent_err_cases_total [where Rel = history_grows]
lemmas [emits] = agent_err_cases_total [where Rel = "only_calls A" for A]

lemma case_bool_split:
  assumes "upholds Rel a" "upholds Rel b"
  shows "upholds Rel (case x of True \<Rightarrow> a | False \<Rightarrow> b)"
  using assms by (cases x) simp_all

lemmas [grows] = case_bool_split [where Rel = history_grows]
lemmas [emits] = case_bool_split [where Rel = "only_calls A" for A]

lemma grows_dev_commit [grows]:
  "upholds history_grows (commit_push_and_open_pr E R dd)"
  "upholds history_grows (commit_and_force_push E R dd)"
  unfolding commit_push_and_open_pr_def commit_and_force_push_def Let_def by (intro grows)+

lemma grows_dev_finish [grows]:
  "upholds history_grows (commit_dev_done E R dd)"
  "upholds history_grows (finalize_dev_done E R dd)"
  "upholds history_grows (finalize_accepted_dev_done E R b dd)"
  "upholds history_grows (finish_dev_agent_with_broker E R b)"
  unfolding finish_dev_agent_with_broker_def finalize_accepted_dev_done_def finalize_dev_done_def
    commit_dev_done_def
  by (intro grows)+

lemma grows_dev_error [grows]:
  "upholds history_grows (post_model_chain_exhausted_comment E R pr role xs)"
  "upholds history_grows (comment_chain_exhausted E R role xs)"
  "upholds history_grows (handle_dev_agent_error E R rep err)"
  unfolding handle_dev_agent_error_def comment_chain_exhausted_def post_model_chain_exhausted_comment_def
  by (intro grows)+

lemma grows_dev_run [grows]:
  "upholds history_grows (index_worktree E R wt name)"
  "upholds history_grows (start_cbm_for_role E R wt sock name)"
  "upholds history_grows (execute_dev_agent_cfg E R cfg)"
  "upholds history_grows (run_dev_agent_with_prompt E R model p cbm round attempt)"
  unfolding run_dev_agent_with_prompt_def execute_dev_agent_cfg_def start_cbm_for_role_def
    index_worktree_def
  by (intro grows)+

lemma calls_dev_commit [emits]:
  assumes "quiet A" and "allows_writes A"
  shows "upholds (only_calls A) (commit_push_and_open_pr E R dd)"
  unfolding commit_push_and_open_pr_def Let_def
  by (intro emits assms; simp add: quietD [OF assms(1)])

lemma calls_force_push [emits]:
  assumes "quiet A"
  shows "upholds (only_calls A) (commit_and_force_push E R dd)"
  unfolding commit_and_force_push_def by (intro emits assms; simp add: quietD [OF assms])

lemma calls_dev_finish [emits]:
  assumes "quiet A" and "allows_writes A"
  shows "upholds (only_calls A) (commit_dev_done E R dd)"
    and "upholds (only_calls A) (finalize_dev_done E R dd)"
    and "upholds (only_calls A) (finalize_accepted_dev_done E R b dd)"
    and "upholds (only_calls A) (finish_dev_agent_with_broker E R b)"
  unfolding finish_dev_agent_with_broker_def finalize_accepted_dev_done_def finalize_dev_done_def
    commit_dev_done_def
  by (intro emits assms)+

lemma calls_dev_error [emits]:
  assumes "quiet A" and "allows_writes A"
  shows "upholds (only_calls A) (comment_chain_exhausted E R role xs)"
    and "upholds (only_calls A) (handle_dev_agent_error E R rep err)"
  unfolding handle_dev_agent_error_def comment_chain_exhausted_def post_model_chain_exhausted_comment_def
  by (intro emits assms; simp add: quietD [OF assms(1)])+

lemma calls_cbm [emits]:
  assumes "quiet A"
  shows "upholds (only_calls A) (index_worktree E R wt name)"
    and "upholds (only_calls A) (start_cbm_for_role E R wt sock name)"
  unfolding start_cbm_for_role_def index_worktree_def
  by (intro emits assms; simp add: quietD [OF assms])+

lemma calls_dev_run [emits]:
  assumes "quiet A" and "allows_writes A" and "allows_agents A"
  shows "upholds (only_calls A) (execute_dev_agent_cfg E R cfg)"
    and "upholds (only_calls A) (run_dev_agent_with_prompt E R model p cbm round attempt)"
  unfolding run_dev_agent_with_prompt_def execute_dev_agent_cfg_def
  by (intro emits assms; simp add: quietD [OF assms(1)] agentsD [OF assms(3)])+

section \<open>Results\<close>

definition dev_event :: "event_key \<times> string \<Rightarrow> rstate \<Rightarrow> bool" where
  "dev_event r s \<longleftrightarrow> fst r \<in> {EventDevDone, EventDevGateRejected, EventDevFailed,
      EventAgentTimedOut, EventAgentStalled, EventAgentAborted}"

lemma dev_event_simps [simp]:
  "dev_event (EventDevDone, x) s" "dev_event (EventDevGateRejected, x) s"
  "dev_event (EventDevFailed, x) s" "dev_event (EventAgentTimedOut, x) s"
  "dev_event (EventAgentStalled, x) s" "dev_event (EventAgentAborted, x) s"
  by (simp_all add: dev_event_def)

lemma finish_dev_event: "ends (finish_dev_agent_with_broker E R b) dev_event"
  unfolding finish_dev_agent_with_broker_def finalize_accepted_dev_done_def finalize_dev_done_def
  by (auto simp: ends_return ends_bind split: option.split bool.split intro!: ends_if ends_bind ends_return)

lemma dev_error_event:
  "ends (handle_dev_agent_error E R rep err) (\<lambda>ev s. dev_event (ev, x) s)"
  unfolding handle_dev_agent_error_def
  by (cases err) (simp_all add: ends_return ends_bind)

lemma execute_dev_event: "ends (execute_dev_agent_cfg E R cfg) dev_event"
  unfolding execute_dev_agent_cfg_def
  apply (rule ends_bind, rule ends_bind, rule ends_option)
   apply (intro ends_bind ends_if ends_return finish_dev_event, simp)
  apply (rule ends_bind_via [OF dev_error_event])
  apply (simp add: wp_return)
  done

lemma run_dev_event: "ends (run_dev_agent_with_prompt E R model p cbm round attempt) dev_event"
  unfolding run_dev_agent_with_prompt_def
  by (intro ends_bind ends_if ends_return execute_dev_event) simp

lemma run_dev_agents: "at_most is_agent_call 1 (run_dev_agent_with_prompt E R model p cbm round attempt)"
  unfolding run_dev_agent_with_prompt_def execute_dev_agent_cfg_def
  by (intro run_agent_then counted_return counted_if
        counted_bind [where m = "start_broker E sock" for sock] counted_bind [where m = get_turn]
        counted_bind [where m = "if b then start_cbm_for_role E R wt sock name else ret False" for b wt sock name]
        emits no_agent_kinds; simp)

section \<open>Done means a PR is in the log\<close>

lemma open_pr_ends:
  "ends (commit_push_and_open_pr E R dd) (\<lambda>r s. r = None \<longrightarrow> pr_opened_in (rs_log s))"
proof -
  have w: "ends (append_event E R EventPROpened p) (\<lambda>r s. r = None \<longrightarrow> pr_opened_in (rs_log s))" for p
    by (rule ends_mono [OF append_event_ends]) (auto intro: pr_opened_last)
  have or: "ends (or_fail f m k) (\<lambda>r s. r = None \<longrightarrow> pr_opened_in (rs_log s))"
    if "\<And>out. ends (k out) (\<lambda>r s. r = None \<longrightarrow> pr_opened_in (rs_log s))" for f m k
    unfolding or_fail_def using that by (intro ends_bind ends_sum ends_return) simp_all
  show ?thesis
    unfolding commit_push_and_open_pr_def Let_def
    by (intro or ends_if ends_return w) simp
qed

lemma commit_dev_done_opened:
  "ends (commit_dev_done E R dd) (\<lambda>r s. r = None \<longrightarrow> pr_opened_in (rs_log s))"
proof (rule endsI)
  fix s
  let ?t = "final_state (has_pr_opened_event E) s"
  let ?b = "run_value (has_pr_opened_event E) s"
  have t: "rs_log ?t = rs_log s" and b: "?b \<longrightarrow> pr_opened_in (rs_log s)"
    using has_pr_opened_ends [of E s] by (simp_all add: wp_def)
  have "rs_log (final_state (commit_and_force_push E R dd) ?t) = rs_log ?t"
    by (rule log_kept) (intro grows, intro emits plain_kind)
  with t b endsD [OF open_pr_ends, of E R dd ?t]
  show "wp (commit_dev_done E R dd) (\<lambda>r s. r = None \<longrightarrow> pr_opened_in (rs_log s)) s"
    by (simp add: commit_dev_done_def wp_def)
qed

text \<open>The parameters the runner may commit with, from what the broker says.\<close>

definition accepted_params :: "dev_broker \<Rightarrow> dev_done option" where
  "accepted_params b =
     (case db_dev_done b of
        Some dd \<Rightarrow>
          if db_accept_fp b \<noteq> None \<and> (db_current_fp b = None \<or> db_current_fp b = db_accept_fp b)
          then Some dd else None
      | None \<Rightarrow> if db_tree_green b then db_recovered b else None)"

lemma finish_accepted:
  "accepted_params b = Some dd \<Longrightarrow> finish_dev_agent_with_broker E R b = finalize_dev_done E R dd"
  by (auto simp: accepted_params_def finish_dev_agent_with_broker_def finalize_accepted_dev_done_def
      split: option.splits if_splits)

lemma finish_refused:
  "accepted_params b = None \<Longrightarrow>
     \<exists>ev reason. finish_dev_agent_with_broker E R b = ret (ev, reason) \<and>
        ev \<in> {EventDevFailed, EventDevGateRejected}"
  by (auto simp: accepted_params_def finish_dev_agent_with_broker_def finalize_accepted_dev_done_def
      split: option.splits if_splits bool.splits)

lemma finalize_done:
  "ends (finalize_dev_done E R dd) (\<lambda>r s. r \<in> {(EventDevDone, []), (EventDevFailed, [])} \<and>
     (fst r = EventDevDone \<longrightarrow> pr_opened_in (rs_log s)))"
  unfolding finalize_dev_done_def
  by (rule ends_bind_via [OF commit_dev_done_opened]) (auto simp: wp_return split: option.split)

section \<open>Properties\<close>

text \<open>
  After a dev invocation that exited normally, the runner commits only when the broker
  accepted \<open>gm_dev_done\<close> (the worktree unchanged since) or a rejected call can be recovered on a
  green tree. Otherwise it makes no call at all and reports a dev failure or a gate rejection.
  When it does commit and reports success, the log holds a valid \<open>pr_opened\<close> event.
\<close>

theorem dev_done_gate:
  "case accepted_params b of
     None \<Rightarrow>
       final_state (finish_dev_agent_with_broker E R b) s = s \<and>
       fst (run_value (finish_dev_agent_with_broker E R b) s) \<in> {EventDevFailed, EventDevGateRejected}
   | Some dd \<Rightarrow>
       (run_value (finish_dev_agent_with_broker E R b) s = (EventDevDone, []) \<and>
        pr_opened_in (rs_log (final_state (finish_dev_agent_with_broker E R b) s))) \<or>
       run_value (finish_dev_agent_with_broker E R b) s = (EventDevFailed, [])"
proof (cases "accepted_params b")
  case None
  then show ?thesis using finish_refused [OF None, of E R] by auto
next
  case (Some dd)
  then show ?thesis
    using finish_accepted [OF Some, of E R] ends_value [OF finalize_done, of E R dd s] by auto
qed

text \<open>
  The body of a PR names the issue it closes: it contains a closing keyword for the issue,
  a body that has one is left as it is, and applying the function twice changes nothing more.
\<close>

theorem pr_body_closes_issue:
  "(closing_keyword ''closes'' (ensure_body_closes_issue_num body n) n \<or>
    closing_keyword ''fixes'' (ensure_body_closes_issue_num body n) n \<or>
    closing_keyword ''resolves'' (ensure_body_closes_issue_num body n) n) \<and>
   ensure_body_closes_issue_num (ensure_body_closes_issue_num body n) n =
     ensure_body_closes_issue_num body n"
proof (intro conjI)
  have "to_lower ''Closes #'' = to_lower (''closes'' @ '' #'')" by code_simp
  then have low: "to_lower (''Closes #'' @ x) = to_lower (''closes'' @ '' #'' @ x)" for x
    by (metis append.assoc to_lower_append)
  have "closing_keyword ''closes'' (t @ u @ ''Closes #'' @ itoa n @ v) n" for t u v
  proof -
    have "to_lower (t @ u @ ''Closes #'' @ itoa n @ v) =
        (to_lower t @ to_lower u) @ to_lower (''closes'' @ '' #'' @ itoa n) @ to_lower v"
      unfolding to_lower_append [of t] to_lower_append [of u] low [of "itoa n @ v"]
      by (simp only: to_lower_append append.assoc)
    then show ?thesis unfolding closing_keyword_def contains_sub_iff by blast
  qed
  from this [of "trim_right (\<lambda>c. c = newline) body" "[newline, newline]" "[newline]"]
  show a: "closing_keyword ''closes'' (ensure_body_closes_issue_num body n) n \<or>
      closing_keyword ''fixes'' (ensure_body_closes_issue_num body n) n \<or>
      closing_keyword ''resolves'' (ensure_body_closes_issue_num body n) n"
    by (simp add: ensure_body_closes_issue_num_def)
  show "ensure_body_closes_issue_num (ensure_body_closes_issue_num body n) n =
      ensure_body_closes_issue_num body n"
    using a by (simp add: ensure_body_closes_issue_num_def [of "ensure_body_closes_issue_num body n"])
qed

end
