(* ===== verification/Reviewer.thy ===== *)
theory Reviewer
  imports Dev
begin

text \<open>
  \<open>internal/runner/reviewer.go\<close> and the reviewer's part of \<open>runner.go\<close> and \<open>issue.go\<close>: the sweep
  of orphaned pending reviews, the precheck of the reviewer worktree, one reviewer invocation,
  the submission of the review with its event, and the reviewer worktree's life.
\<close>

record finding_entry =
  fe_path :: string
  fe_line :: int
  fe_side :: string
  fe_body :: string

record precheck_result =
  pk_ok :: bool
  pk_command :: string
  pk_exit :: int
  pk_stdout :: string
  pk_stderr :: string
  pk_before :: string
  pk_after :: string
  pk_duration :: int

section \<open>GitHub queries\<close>

definition split_first :: "char \<Rightarrow> string \<Rightarrow> string \<times> string" where
  "split_first c s = (takeWhile (\<lambda>x. x \<noteq> c) s, drop 1 (dropWhile (\<lambda>x. x \<noteq> c) s))"

definition dec_owner_name :: "json \<Rightarrow> (string \<times> string) option" where
  "dec_owner_name j =
     (case (get_struct (get_str ''login'') ''owner'' j, get_str ''name'' j) of
        (Some o', Some n) \<Rightarrow> Some (o', n) | _ \<Rightarrow> None)"

definition repo_nwo :: "env \<Rightarrow> rconfig \<Rightarrow> string result M" where
  "repo_nwo E R =
     handle (run_with_token E (r_reviewer_token R) (r_repo_root R)
         [''gh'', ''repo'', ''view'', ''--json'', ''owner,name''])
       (\<lambda>e. ret (Inl (wrap_err ''gh repo view: '' e)))
       (\<lambda>out. ret (case unmarshal_into dec_owner_name out of
          None \<Rightarrow> Inl (msg_err ''gh repo view parse: '')
        | Some (owner, name) \<Rightarrow>
            if owner = [] \<or> name = [] then Inl (msg_err ''gh repo view: owner or name empty'')
            else Inr (owner @ ''/'' @ name)))"

definition graphqlDiscoverPending :: string where
  "graphqlDiscoverPending = ''query($owner:String!,$name:String!,$prNumber:Int!){repository(owner:$owner,name:$name){pullRequest(number:$prNumber){reviews(first:1,states:[PENDING]){nodes{id}}}}}''"

definition graphqlDeleteReview :: string where
  "graphqlDeleteReview = ''mutation($reviewId:ID!){deletePullRequestReview(input:{pullRequestReviewId:$reviewId}){pullRequestReview{id}}}''"

definition graphqlSubmitPendingReview :: string where
  "graphqlSubmitPendingReview = ''mutation($reviewId:ID!,$event:PullRequestReviewEvent!,$body:String!){submitPullRequestReview(input:{pullRequestReviewId:$reviewId,event:$event,body:$body}){pullRequestReview{fullDatabaseId comments{totalCount}}}}''"

definition graphqlDiscoverPendingForSubmit :: string where
  "graphqlDiscoverPendingForSubmit = ''query($owner:String!,$name:String!,$prNumber:Int!){viewer{login}repository(owner:$owner,name:$name){pullRequest(number:$prNumber){id reviews(first:10,states:[PENDING]){nodes{id author{login}}}}}}''"

definition graphqlCreatePendingReviewForSubmit :: string where
  "graphqlCreatePendingReviewForSubmit = ''mutation($prId:ID!){addPullRequestReview(input:{pullRequestId:$prId}){pullRequestReview{id}}}''"

text \<open>A GraphQL call with the reviewer's token.\<close>

definition graphql :: "env \<Rightarrow> rconfig \<Rightarrow> string \<Rightarrow> string list \<Rightarrow> string result M" where
  "graphql E R query args =
     run_with_token E (r_reviewer_token R) (r_repo_root R)
       ([''gh'', ''api'', ''graphql'', ''-f'', ''query='' @ query] @ args)"

definition pr_query_args :: "string \<Rightarrow> int \<Rightarrow> string list" where
  "pr_query_args nwo pr =
     [''-f'', ''owner='' @ fst (split_first (CHR ''/'') nwo),
      ''-f'', ''name='' @ snd (split_first (CHR ''/'') nwo), ''-F'', ''prNumber='' @ itoa pr]"

definition dec_pending_ids :: "json \<Rightarrow> string list option" where
  "dec_pending_ids =
     get_struct (get_struct (get_struct (get_struct (get_list (get_str ''id'') ''nodes'')
       ''reviews'') ''pullRequest'') ''repository'') ''data''"

definition sweep_pending_reviews :: "env \<Rightarrow> rconfig \<Rightarrow> int \<Rightarrow> gerr option M" where
  "sweep_pending_reviews E R pr =
     handle (repo_nwo E R) (\<lambda>e. ret (Some (wrap_err ''failed to resolve repo: '' e))) (\<lambda>nwo.
     handle (graphql E R graphqlDiscoverPending (pr_query_args nwo pr))
       (\<lambda>e. ret (Some (wrap_err ''review_failed: failed to discover pending reviews: '' e))) (\<lambda>out.
     case unmarshal_into dec_pending_ids out of
       None \<Rightarrow> ret (Some (msg_err ''review_failed: failed to parse discover response: ''))
     | Some [] \<Rightarrow> ret None
     | Some (i # _) \<Rightarrow> do {
         r \<leftarrow> graphql E R graphqlDeleteReview [''-f'', ''reviewId='' @ i];
         ret (case r of Inl e \<Rightarrow> Some (wrap_err (''review_failed: failed to delete pending review '' @ i @ '': '') e)
              | Inr _ \<Rightarrow> None)
       }))"

definition dec_inline_comment :: "json \<Rightarrow> finding_entry option" where
  "dec_inline_comment j =
     (case (get_str ''path'' j, get_int_ptr ''line'' j, get_int_ptr ''original_line'' j,
            get_str ''side'' j, get_str ''body'' j) of
        (Some p, Some l, Some ol, Some s, Some b) \<Rightarrow>
          Some \<lparr>fe_path = p,
                fe_line = (case l of Some n \<Rightarrow> n | None \<Rightarrow> (case ol of Some n \<Rightarrow> n | None \<Rightarrow> 0)),
                fe_side = (if s = [] then ''RIGHT'' else s), fe_body = b\<rparr>
      | _ \<Rightarrow> None)"

definition load_inline_comments :: "env \<Rightarrow> rconfig \<Rightarrow> int \<Rightarrow> string \<Rightarrow> finding_entry list result M" where
  "load_inline_comments E R pr review_id =
     handle (repo_nwo E R) (\<lambda>e. ret (Inl (wrap_err ''failed to resolve repo: '' e))) (\<lambda>nwo.
     handle (run_with_token E (r_reviewer_token R) (r_repo_root R)
         [''gh'', ''api'', ''repos/'' @ nwo @ ''/pulls/'' @ itoa pr @ ''/reviews/'' @ review_id @ ''/comments''])
       (\<lambda>e. ret (Inl (wrap_err ''failed to load inline comments: '' e)))
       (\<lambda>out. ret (case unmarshal_into (dec_list dec_inline_comment []) out of
          None \<Rightarrow> Inl (msg_err ''failed to parse inline comments: '') | Some entries \<Rightarrow> Inr entries)))"

definition findings_json_text :: "finding_entry list \<Rightarrow> string" where
  "findings_json_text entries =
     (if entries = [] then []
      else json_text (JArr (map (\<lambda>f. JObj [(''path'', JStr (fe_path f)), (''line'', jint (fe_line f)),
             (''side'', JStr (fe_side f)), (''body'', JStr (fe_body f))]) entries)))"

definition build_findings_json :: "env \<Rightarrow> rconfig \<Rightarrow> string result M" where
  "build_findings_json E R =
     handle (latest_review_id E) (\<lambda>e. ret (Inl (wrap_err ''failed to load inline comments: '' e))) (\<lambda>i.
     handle (get_pr_number E) (\<lambda>e. ret (Inl (wrap_err ''failed to load inline comments: '' e))) (\<lambda>pr.
     handle (load_inline_comments E R pr i) (\<lambda>e. ret (Inl (wrap_err ''failed to load inline comments: '' e)))
       (\<lambda>entries. ret (Inr (findings_json_text entries)))))"

section \<open>The precheck\<close>

definition precheckTailBytes :: nat where "precheckTailBytes = 8192"

definition is_continuation :: "char \<Rightarrow> bool" where
  "is_continuation c \<longleftrightarrow> 128 \<le> (of_char c :: nat) \<and> (of_char c :: nat) < 192"

definition tail_bytes :: "string \<Rightarrow> nat \<Rightarrow> string \<times> bool" where
  "tail_bytes s n =
     (if length s \<le> n then (s, False)
      else (dropWhile is_continuation (drop (length s - n) s), True))"

definition combined_output :: "precheck_result \<Rightarrow> string" where
  "combined_output r =
     (if pk_stderr r = [] then pk_stdout r
      else if pk_stdout r = [] then pk_stderr r
      else pk_stdout r @ [newline] @ pk_stderr r)"

definition output_tail_section :: "precheck_result \<Rightarrow> string" where
  "output_tail_section r =
     (let combined = combined_output r in
      if combined = [] then []
      else (let (tail, truncated) = tail_bytes combined precheckTailBytes in
            [newline] @ ''Output tail:'' @ [newline] @
            (if truncated then ''... <'' @ itoa (int (length combined - length tail)) @
               '' bytes truncated> ...'' @ [newline] else []) @ tail))"

definition bool_text :: "bool \<Rightarrow> string" where
  "bool_text b = (if b then ''true'' else ''false'')"

definition build_reviewer_precheck_block :: "precheck_result \<Rightarrow> string" where
  "build_reviewer_precheck_block r =
     ''## Precheck Result'' @ [newline, newline] @
     (if pk_ok r then
        ''ok: true | command: `'' @ pk_command r @
        ''` | exitCode: 0 | tree-mutated: false | verify passed and tree unchanged'' @ [newline]
      else
        ''ok: false | command: `'' @ pk_command r @ ''` | exitCode: '' @ itoa (pk_exit r) @
        '' | tree-mutated: '' @ bool_text (pk_before r \<noteq> pk_after r) @ [newline, newline] @
        ''**Action required:** The precheck was not ok. You MUST submit `changes_requested` and explain why in the review body.'' @
        [newline] @ output_tail_section r)"

definition build_precheck_findings :: "precheck_result \<Rightarrow> string" where
  "build_precheck_findings r =
     ''## Reviewer Precheck Failed'' @ [newline, newline] @
     (if pk_exit r \<noteq> 0 then
        ''The verify command exited with a non-zero exit code ('' @ itoa (pk_exit r) @ '').'' @ [newline, newline]
      else if pk_before r \<noteq> pk_after r then
        ''The verify command passed but the worktree was mutated during the verify run.'' @ [newline, newline]
      else []) @
     ''Command: `'' @ pk_command r @ ''`'' @ [newline] @ output_tail_section r"

definition fetch_issue_body :: "env \<Rightarrow> rconfig \<Rightarrow> string result M" where
  "fetch_issue_body E R =
     handle (run_with_token E (r_dev_token R) (r_repo_root R)
         [''gh'', ''issue'', ''view'', itoa (r_issue_num R), ''--json'', ''body''])
       (\<lambda>e. ret (Inl (wrap_err ''gh issue view (body): '' e)))
       (\<lambda>out. ret (case unmarshal_into (get_str ''body'') out of
          None \<Rightarrow> Inl (msg_err ''invalid gh response: '') | Some b \<Rightarrow> Inr (trim_space b)))"

text \<open>\<open>True\<close> when the body is in a temporary file.\<close>

definition write_issue_body_file :: "env \<Rightarrow> rconfig \<Rightarrow> bool M" where
  "write_issue_body_file E R =
     handle (fetch_issue_body E R) (\<lambda>_. ret False) (\<lambda>_. make_temp E)"

definition run_precheck_verify :: "env \<Rightarrow> string \<Rightarrow> string \<Rightarrow> (string \<times> string \<times> int) M" where
  "run_precheck_verify E wt command =
     (if command = [] then ret ([], [], 0) else run_verify E wt command)"

definition write_reviewer_precheck_event :: "env \<Rightarrow> rconfig \<Rightarrow> precheck_result \<Rightarrow> unit M" where
  "write_reviewer_precheck_event E R res =
     do {
       _ \<leftarrow> append_event E R EventReviewerPrecheck
         (JObj [(''afterFingerprint'', JStr (pk_after res)), (''beforeFingerprint'', JStr (pk_before res)),
                (''command'', JStr (pk_command res)), (''durationMs'', jint (pk_duration res)),
                (''exitCode'', jint (pk_exit res)), (''ok'', JBool (pk_ok res)),
                (''outputTail'', JStr (fst (tail_bytes (combined_output res) precheckTailBytes))),
                (''summary'', JStr (if pk_ok res then ''verify passed and tree unchanged''
                   else if pk_exit res \<noteq> 0 then ''verify failed (exit '' @ itoa (pk_exit res) @ '')''
                   else ''verify passed but tree was mutated''))]);
       ret ()
     }"

definition run_reviewer_precheck :: "env \<Rightarrow> rconfig \<Rightarrow> string \<Rightarrow> (string \<times> precheck_result) result M" where
  "run_reviewer_precheck E R wt =
     handle (fingerprint_compute E wt)
       (\<lambda>e. ret (Inl (wrap_err ''reviewer_precheck: compute beforeFingerprint: '' e))) (\<lambda>before.
     do {
       _ \<leftarrow> write_issue_body_file E R;
       (out, err, code) \<leftarrow> run_precheck_verify E wt (r_verify_command R);
       handle (fingerprint_compute E wt)
         (\<lambda>e. ret (Inl (wrap_err ''reviewer_precheck: compute afterFingerprint: '' e))) (\<lambda>aft.
       do {
         ms \<leftarrow> elapsed_ms E;
         let res = \<lparr>pk_ok = (code = 0 \<and> before = aft), pk_command = r_verify_command R, pk_exit = code,
                    pk_stdout = out, pk_stderr = err, pk_before = before, pk_after = aft,
                    pk_duration = ms\<rparr>
         in do {
           write_reviewer_precheck_event E R res;
           ret (Inr (build_reviewer_precheck_block res, res))
         }
       })
     })"

definition write_precheck_review_submitted_event :: "env \<Rightarrow> rconfig \<Rightarrow> int \<Rightarrow> gerr option M" where
  "write_precheck_review_submitted_event E R round =
     append_event E R EventReviewSubmitted
       (JObj [(''confidence'', JStr ''low''), (''inlineCommentCount'', jint 0),
              (''reviewId'', JStr (''precheck-r'' @ itoa round)), (''reviewRound'', jint round),
              (''source'', JStr ''precheck''), (''verdict'', JStr ''changes_requested'')])"

section \<open>One invocation\<close>

definition reviewer_tools :: "bool \<Rightarrow> bool \<Rightarrow> string list" where
  "reviewer_tools gm cbm =
     [''read''] @ (if gm then gmReviewerToolNames @ (if cbm then gmCodeToolNames else []) else [])"

definition start_reviewer_brokers :: "env \<Rightarrow> rconfig \<Rightarrow> int \<Rightarrow> int \<Rightarrow> (bool \<times> bool) M" where
  "start_reviewer_brokers E R round attempt =
     do {
       cbm \<leftarrow> (if r_cbm_enabled R
               then start_cbm_for_role E R (review_worktree_path R)
                      (path_join [runs_dir R, r_run_id R, ''cbm-reviewer.sock''])
                      (''golemic-issue-'' @ itoa (r_issue_num R) @ ''-reviewer'')
               else ret False);
       gm \<leftarrow> start_broker E (socket_path R ''gm-reviewer-r'' round attempt);
       ret (cbm, gm)
     }"

definition handle_reviewer_agent_error :: "env \<Rightarrow> rconfig \<Rightarrow> agent_reply \<Rightarrow> agent_err \<Rightarrow> string M" where
  "handle_reviewer_agent_error E R rep err =
     (case err of
        AgentTimeout \<Rightarrow> ret outcomeTimeout
      | AgentStalled \<Rightarrow> ret outcomeStalled
      | AgentThinkingLoop \<Rightarrow> ret outcomeAborted
      | AgentChainExhausted attempts \<Rightarrow> do {
          write_agent_completed E R ''reviewer'' 1 (ar_stdout rep) (ar_stderr rep);
          comment_chain_exhausted E R ''reviewer'' attempts;
          ret outcomeReviewFailed
        }
      | AgentOther _ \<Rightarrow> ret outcomeReviewFailed)"

definition handle_reviewer_agent_result :: "env \<Rightarrow> rconfig \<Rightarrow> agent_reply \<Rightarrow> string M" where
  "handle_reviewer_agent_result E R rep =
     (case ar_err rep of
        Some err \<Rightarrow> handle_reviewer_agent_error E R rep err
      | None \<Rightarrow> do {
          write_agent_completed E R ''reviewer'' (ar_exit rep) (ar_stdout rep) (ar_stderr rep);
          ret (if ar_exit rep \<noteq> 0 then outcomeReviewFailed else outcomeSuccess)
        })"

definition run_reviewer_agent ::
    "env \<Rightarrow> rconfig \<Rightarrow> int \<Rightarrow> int \<Rightarrow> string \<Rightarrow> string \<Rightarrow> (string \<times> reviewer_state option) M" where
  "run_reviewer_agent E R round attempt precheck_block gate_retry_reason =
     handle (agent_file E ''reviewer'') (\<lambda>_. ret (outcomeReviewFailed, None)) (\<lambda>(_, model).
     handle (get_pr_number E) (\<lambda>_. ret (outcomeReviewFailed, None)) (\<lambda>pr.
     do {
       (cbm, gm) \<leftarrow> start_reviewer_brokers E R round attempt;
       handle (render_prompt E
                 (if gate_retry_reason \<noteq> [] then ''reviewer-gate-retry'' @ gate_retry_reason @ precheck_block
                  else ''reviewer'' @ precheck_block))
         (\<lambda>_. ret (outcomeReviewFailed, None)) (\<lambda>user_prompt.
       do {
         t \<leftarrow> get_turn;
         rep \<leftarrow> run_agent E \<lparr>ac_role = ''reviewer'', ac_prompt = user_prompt,
           ac_dir = review_worktree_path R, ac_model = model, ac_turn = t, ac_round = round,
           ac_attempt = attempt, ac_tools = reviewer_tools gm cbm\<rparr>;
         record_token_usage E ''reviewer'' round attempt (activity_path R ''reviewer'' round attempt);
         outcome \<leftarrow> handle_reviewer_agent_result E R rep;
         ret (outcome, if gm then Some (ar_reviewer rep) else None)
       })
     }))"

definition precheck_not_ok :: "precheck_result \<Rightarrow> bool" where
  "precheck_not_ok r \<longleftrightarrow> \<not> pk_ok r"

definition review_gate_rejected :: "reviewer_state option \<Rightarrow> bool" where
  "review_gate_rejected st \<longleftrightarrow> (case st of None \<Rightarrow> False | Some v \<Rightarrow> rv_gate_rejected v)"

section \<open>Submission\<close>

record pending_review =
  pv_id :: string
  pv_author :: string

definition dec_pending_review :: "json \<Rightarrow> pending_review option" where
  "dec_pending_review j =
     (case (get_str ''id'' j, get_struct (get_str ''login'') ''author'' j) of
        (Some i, Some a) \<Rightarrow> Some \<lparr>pv_id = i, pv_author = a\<rparr> | _ \<Rightarrow> None)"

definition dec_discover_for_submit :: "json \<Rightarrow> (string \<times> string \<times> pending_review list) option" where
  "dec_discover_for_submit =
     get_struct (\<lambda>d.
       case (get_struct (get_str ''login'') ''viewer'' d,
             get_struct (get_struct (get_str ''id'') ''pullRequest'') ''repository'' d,
             get_struct (get_struct (get_struct (get_list dec_pending_review ''nodes'') ''reviews'')
               ''pullRequest'') ''repository'' d) of
         (Some v, Some i, Some ns) \<Rightarrow> Some (v, i, ns) | _ \<Rightarrow> None) ''data''"

text \<open>The PR's node id and the viewer's own pending review, empty when there is none.\<close>

definition discover_reviewer_pending_review ::
    "env \<Rightarrow> rconfig \<Rightarrow> string \<Rightarrow> int \<Rightarrow> (string \<times> string) result M" where
  "discover_reviewer_pending_review E R nwo pr =
     handle (graphql E R graphqlDiscoverPendingForSubmit (pr_query_args nwo pr))
       (\<lambda>e. ret (Inl (wrap_err ''discover pending review: '' e)))
       (\<lambda>out. ret (case unmarshal_into dec_discover_for_submit out of
          None \<Rightarrow> Inl (msg_err ''parse discover response: '')
        | Some (viewer, pid, nodes) \<Rightarrow>
            if pid = [] then Inl (msg_err (''PR #'' @ itoa pr @ '' not found''))
            else Inr (pid, case find (\<lambda>n. pv_author n = viewer) nodes of
                             Some n \<Rightarrow> pv_id n | None \<Rightarrow> [])))"

definition create_reviewer_pending_review :: "env \<Rightarrow> rconfig \<Rightarrow> string \<Rightarrow> string result M" where
  "create_reviewer_pending_review E R pid =
     handle (graphql E R graphqlCreatePendingReviewForSubmit [''-f'', ''prId='' @ pid])
       (\<lambda>e. ret (Inl (wrap_err ''create pending review: '' e)))
       (\<lambda>out. ret (case unmarshal_into (get_struct (get_struct (get_struct (get_str ''id'')
                  ''pullRequestReview'') ''addPullRequestReview'') ''data'') out of
          None \<Rightarrow> Inl (msg_err ''parse create review response: '')
        | Some i \<Rightarrow> if i = [] then Inl (msg_err ''create pending review returned empty id'') else Inr i))"

definition discover_or_create_pending_review :: "env \<Rightarrow> rconfig \<Rightarrow> int \<Rightarrow> string result M" where
  "discover_or_create_pending_review E R pr =
     handle (repo_nwo E R) (\<lambda>e. ret (Inl e)) (\<lambda>nwo.
     handle (discover_reviewer_pending_review E R nwo pr) (\<lambda>e. ret (Inl e)) (\<lambda>(pid, existing).
       if existing \<noteq> [] then ret (Inr existing) else create_reviewer_pending_review E R pid))"

definition dec_submitted :: "json \<Rightarrow> (string \<times> int) option" where
  "dec_submitted =
     get_struct (get_struct (get_struct (\<lambda>d.
       case (get_str ''fullDatabaseId'' d, get_struct (get_int ''totalCount'') ''comments'' d) of
         (Some i, Some n) \<Rightarrow> Some (i, n) | _ \<Rightarrow> None)
       ''pullRequestReview'') ''submitPullRequestReview'') ''data''"

definition submit_pending_review ::
    "env \<Rightarrow> rconfig \<Rightarrow> string \<Rightarrow> string \<Rightarrow> string \<Rightarrow> (string \<times> int) result M" where
  "submit_pending_review E R review_id verdict body =
     handle (graphql E R graphqlSubmitPendingReview
         [''-f'', ''reviewId='' @ review_id, ''-f'',
          ''event='' @ (if verdict = ''changes_requested'' then ''REQUEST_CHANGES'' else ''APPROVE''),
          ''-f'', ''body='' @ body])
       (\<lambda>e. ret (Inl (wrap_err ''submit review: '' e)))
       (\<lambda>out. ret (case unmarshal_into dec_submitted out of
          None \<Rightarrow> Inl (msg_err ''parse submit review response: '')
        | Some (i, n) \<Rightarrow> if i = [] then Inl (msg_err ''submit review returned empty id'') else Inr (i, n)))"

definition review_submitted_payload ::
    "string \<Rightarrow> review_params \<Rightarrow> int \<Rightarrow> int \<Rightarrow> int \<Rightarrow> string \<Rightarrow> json" where
  "review_submitted_payload review_id params count pr round sha =
     JObj [(''body'', JStr (rp_body params)), (''confidence'', JStr (rp_confidence params)),
           (''headSha'', JStr sha), (''inlineCommentCount'', jint count), (''prNumber'', jint pr),
           (''reviewId'', JStr review_id), (''reviewRound'', jint round),
           (''verdict'', JStr (rp_verdict params))]"

definition set_confidence_label :: "env \<Rightarrow> rconfig \<Rightarrow> string \<Rightarrow> int \<Rightarrow> unit M" where
  "set_confidence_label E R confidence pr =
     do {
       _ \<leftarrow> run_with_token E (r_reviewer_token R) (r_repo_root R)
         ([''gh'', ''pr'', ''edit'', itoa pr, ''--add-label'', ''confidence:'' @ confidence] @
          concat (map (\<lambda>tier. if tier \<noteq> confidence then [''--remove-label'', ''confidence:'' @ tier] else [])
            [''high'', ''medium'', ''low'']));
       ret ()
     }"

text \<open>The pending review to submit: the broker's, or one found or created.\<close>

definition pending_review_for :: "env \<Rightarrow> rconfig \<Rightarrow> reviewer_state \<Rightarrow> int \<Rightarrow> string result M" where
  "pending_review_for E R st pr =
     (if rv_pending_id st = [] then discover_or_create_pending_review E R pr
      else ret (Inr (rv_pending_id st)))"

definition submit_review_and_write_event ::
    "env \<Rightarrow> rconfig \<Rightarrow> reviewer_state option \<Rightarrow> int \<Rightarrow> string \<Rightarrow> gerr option M" where
  "submit_review_and_write_event E R state round sha =
     (case state of None \<Rightarrow> ret None
      | Some st \<Rightarrow>
          (case rv_params st of None \<Rightarrow> ret None
           | Some params \<Rightarrow>
               handle (get_pr_number E)
                 (\<lambda>e. ret (Some (wrap_err ''submitReviewAndWriteEvent: '' e))) (\<lambda>pr.
               handle (pending_review_for E R st pr)
                 (\<lambda>e. ret (Some (wrap_err ''submitReviewAndWriteEvent: '' e))) (\<lambda>pending.
               handle (submit_pending_review E R pending (rp_verdict params) (rp_body params))
                 (\<lambda>e. ret (Some (wrap_err ''submitReviewAndWriteEvent: '' e))) (\<lambda>(submitted, count).
               do {
                 err \<leftarrow> append_event E R EventReviewSubmitted
                          (review_submitted_payload submitted params count pr round sha);
                 (case err of
                    Some e \<Rightarrow> ret (Some (wrap_err ''submitReviewAndWriteEvent: write event: '' e))
                  | None \<Rightarrow> after (set_confidence_label E R (rp_confidence params) pr) (ret None))
               })))))"

section \<open>The reviewer worktree and the escalation comment\<close>

definition reviewer_worktree_registered :: "env \<Rightarrow> rconfig \<Rightarrow> string \<Rightarrow> bool M" where
  "reviewer_worktree_registered E R wt =
     handle (run_in_dir E (r_repo_root R) [''git'', ''worktree'', ''list'', ''--porcelain''])
       (\<lambda>_. ret False)
       (\<lambda>out. ret (list_ex (\<lambda>l. trim_space l = ''worktree '' @ wt) (split_on newline out)))"

definition cleanup_reviewer_worktree :: "env \<Rightarrow> rconfig \<Rightarrow> unit M" where
  "cleanup_reviewer_worktree E R =
     do {
       registered \<leftarrow> reviewer_worktree_registered E R (review_worktree_path R);
       if \<not> registered then ret ()
       else do {
         _ \<leftarrow> run_cmd E [''git'', ''-C'', review_worktree_path R, ''status'', ''--porcelain''];
         _ \<leftarrow> run_cmd E [''git'', ''-C'', r_repo_root R, ''worktree'', ''remove'', ''--force'',
                review_worktree_path R];
         ret ()
       }
     }"

text \<open>\<open>True\<close> on success.\<close>

definition prepare_reviewer_worktree :: "env \<Rightarrow> rconfig \<Rightarrow> bool \<Rightarrow> bool M" where
  "prepare_reviewer_worktree E R cleanup_before =
     do {
       (if cleanup_before then cleanup_reviewer_worktree E R else ret ());
       incr_turn;
       t \<leftarrow> get_turn;
       err \<leftarrow> worktree_create_for_reviewer E (r_repo_root R) (golemic_dir R) (r_run_id R)
                (r_issue_num R) (r_branch R) ''golemic-reviewer'' t;
       ret (err = None)
     }"

definition post_escalation_comment :: "env \<Rightarrow> rconfig \<Rightarrow> int \<Rightarrow> int \<Rightarrow> unit M" where
  "post_escalation_comment E R pr rounds =
     do {
       _ \<leftarrow> run_with_token E (r_reviewer_token R) (r_repo_root R)
         [''gh'', ''pr'', ''comment'', itoa pr, ''--body'',
          ''golemic has completed '' @ itoa rounds @ '' review round(s) for issue #'' @
          itoa (r_issue_num R) @ '' (PR #'' @ itoa pr @ ''). '' @
          ''The reviewer requested changes in every round. '' @
          ''No merge has happened. Human review is required.''];
       ret ()
     }"

definition post_escalation_comment_with_span :: "env \<Rightarrow> rconfig \<Rightarrow> int \<Rightarrow> unit M" where
  "post_escalation_comment_with_span E R rounds =
     handle (get_pr_number E) (\<lambda>_. ret ()) (\<lambda>pr. post_escalation_comment E R pr rounds)"

section \<open>What the operations add to the history\<close>

lemma grows_rv_queries [grows]:
  "upholds history_grows (graphql E R q args)"
  "upholds history_grows (repo_nwo E R)"
  "upholds history_grows (fetch_issue_body E R)"
  "upholds history_grows (reviewer_worktree_registered E R wt)"
  "upholds history_grows (set_confidence_label E R c pr)"
  "upholds history_grows (post_escalation_comment E R pr n)"
  "upholds history_grows (run_precheck_verify E wt c)"
  "upholds history_grows (write_reviewer_precheck_event E R res)"
  "upholds history_grows (write_precheck_review_submitted_event E R round)"
  unfolding graphql_def repo_nwo_def fetch_issue_body_def reviewer_worktree_registered_def
    set_confidence_label_def post_escalation_comment_def run_precheck_verify_def
    write_reviewer_precheck_event_def write_precheck_review_submitted_event_def
  by (intro grows)+

lemma grows_rv_github [grows]:
  "upholds history_grows (sweep_pending_reviews E R pr)"
  "upholds history_grows (load_inline_comments E R pr i)"
  "upholds history_grows (discover_reviewer_pending_review E R nwo pr)"
  "upholds history_grows (create_reviewer_pending_review E R pid)"
  "upholds history_grows (submit_pending_review E R i v b)"
  "upholds history_grows (write_issue_body_file E R)"
  "upholds history_grows (cleanup_reviewer_worktree E R)"
  "upholds history_grows (post_escalation_comment_with_span E R n)"
  unfolding sweep_pending_reviews_def load_inline_comments_def discover_reviewer_pending_review_def
    create_reviewer_pending_review_def submit_pending_review_def write_issue_body_file_def
    cleanup_reviewer_worktree_def post_escalation_comment_with_span_def
  by (intro grows)+

lemma grows_rv_parts [grows]:
  "upholds history_grows (build_findings_json E R)"
  "upholds history_grows (discover_or_create_pending_review E R pr)"
  "upholds history_grows (run_reviewer_precheck E R wt)"
  "upholds history_grows (start_reviewer_brokers E R round attempt)"
  "upholds history_grows (handle_reviewer_agent_error E R rep err)"
  "upholds history_grows (prepare_reviewer_worktree E R c)"
  unfolding build_findings_json_def discover_or_create_pending_review_def run_reviewer_precheck_def
    start_reviewer_brokers_def handle_reviewer_agent_error_def prepare_reviewer_worktree_def Let_def
  by (intro grows)+

lemma grows_rv_agent [grows]:
  "upholds history_grows (handle_reviewer_agent_result E R rep)"
  "upholds history_grows (run_reviewer_agent E R round attempt block reason)"
  "upholds history_grows (pending_review_for E R st pr)"
  "upholds history_grows (submit_review_and_write_event E R state round sha)"
  unfolding run_reviewer_agent_def handle_reviewer_agent_result_def submit_review_and_write_event_def
    pending_review_for_def
  by (intro grows)+

lemma calls_rv_queries [emits]:
  assumes "quiet A"
  shows "upholds (only_calls A) (graphql E R q args)"
    and "upholds (only_calls A) (repo_nwo E R)"
    and "upholds (only_calls A) (fetch_issue_body E R)"
    and "upholds (only_calls A) (reviewer_worktree_registered E R wt)"
    and "upholds (only_calls A) (set_confidence_label E R c pr)"
    and "upholds (only_calls A) (post_escalation_comment E R pr n)"
    and "upholds (only_calls A) (run_precheck_verify E wt c)"
  unfolding graphql_def repo_nwo_def fetch_issue_body_def reviewer_worktree_registered_def
    set_confidence_label_def post_escalation_comment_def run_precheck_verify_def
  by (intro emits assms; simp add: quietD [OF assms])+

lemma calls_rv_github [emits]:
  assumes "quiet A"
  shows "upholds (only_calls A) (sweep_pending_reviews E R pr)"
    and "upholds (only_calls A) (load_inline_comments E R pr i)"
    and "upholds (only_calls A) (discover_reviewer_pending_review E R nwo pr)"
    and "upholds (only_calls A) (create_reviewer_pending_review E R pid)"
    and "upholds (only_calls A) (submit_pending_review E R i v b)"
    and "upholds (only_calls A) (write_issue_body_file E R)"
    and "upholds (only_calls A) (cleanup_reviewer_worktree E R)"
    and "upholds (only_calls A) (post_escalation_comment_with_span E R n)"
  unfolding sweep_pending_reviews_def load_inline_comments_def discover_reviewer_pending_review_def
    create_reviewer_pending_review_def submit_pending_review_def write_issue_body_file_def
    cleanup_reviewer_worktree_def post_escalation_comment_with_span_def
  by (intro emits assms; simp add: quietD [OF assms])+

lemma calls_rv_plain [emits]:
  assumes "quiet A"
  shows "upholds (only_calls A) (build_findings_json E R)"
    and "upholds (only_calls A) (discover_or_create_pending_review E R pr)"
    and "upholds (only_calls A) (start_reviewer_brokers E R round attempt)"
  unfolding build_findings_json_def discover_or_create_pending_review_def start_reviewer_brokers_def
  by (intro emits assms; simp add: quietD [OF assms])+

lemma calls_fingerprint_quiet [emits]: "quiet A \<Longrightarrow> upholds (only_calls A) (fingerprint_compute E wt)"
  by (rule calls_fingerprint; simp add: quietD)

lemma calls_rv_pending [emits]:
  "quiet A \<Longrightarrow> upholds (only_calls A) (pending_review_for E R st pr)"
  unfolding pending_review_for_def by (intro emits)

lemma calls_rv_writes [emits]:
  assumes "quiet A" and "allows_writes A"
  shows "upholds (only_calls A) (write_reviewer_precheck_event E R res)"
    and "upholds (only_calls A) (write_precheck_review_submitted_event E R round)"
    and "upholds (only_calls A) (handle_reviewer_agent_error E R rep err)"
    and "upholds (only_calls A) (handle_reviewer_agent_result E R rep)"
    and "upholds (only_calls A) (submit_review_and_write_event E R state round sha)"
  unfolding write_reviewer_precheck_event_def write_precheck_review_submitted_event_def
    handle_reviewer_agent_result_def handle_reviewer_agent_error_def submit_review_and_write_event_def
  by (intro emits assms)+

lemma calls_create_reviewer [emits]:
  assumes "quiet A" and "allows_writes A"
  shows "upholds (only_calls A) (worktree_create_for_reviewer E root d rid n b login t)"
    and "upholds (only_calls A) (worktree_create E root d rid n login t)"
    and "upholds (only_calls A) (ensure_for_resume E root d rid n login t)"
    and "upholds (only_calls A) (is_dirty E wt)"
    and "upholds (only_calls A) (worktree_cleanup E root d n)"
    and "upholds (only_calls A) (worktree_cleanup_reviewer E root d n)"
  by (rule calls_worktree calls_ensure_for_resume; simp add: quietD [OF assms(1)] writesD [OF assms(2)])+

lemma calls_rv_worktree [emits]:
  assumes "quiet A" and "allows_writes A"
  shows "upholds (only_calls A) (run_reviewer_precheck E R wt)"
    and "upholds (only_calls A) (prepare_reviewer_worktree E R c)"
  unfolding run_reviewer_precheck_def prepare_reviewer_worktree_def Let_def
  by (intro emits assms)+

lemma calls_rv_agent [emits]:
  assumes "quiet A" and "allows_writes A" and "allows_agents A"
  shows "upholds (only_calls A) (run_reviewer_agent E R round attempt block reason)"
  unfolding run_reviewer_agent_def
  by (intro emits assms; simp add: quietD [OF assms(1)] agentsD [OF assms(3)])

end
