(* ===== verification/Resume.thy ===== *)
theory Resume
  imports Reviewer
begin

text \<open>
  What \<open>PREPARE\<close> runs before the first agent: \<open>collision.go\<close> (the fail-closed collision checks),
  \<open>clean.go\<close> (the removal of old artifacts), \<open>issue.go\<close> (the issue's metadata) and \<open>resume.go\<close>,
  which rebuilds the context and the events of an earlier run from GitHub.
\<close>

section \<open>The issue\<close>

record issue_data =
  is_number :: int
  is_title :: string
  is_labels :: "string list"
  is_state :: string

definition load_issue :: "env \<Rightarrow> rconfig \<Rightarrow> issue_data result M" where
  "load_issue E R =
     handle (run_with_token E (r_dev_token R) (r_repo_root R)
         [''gh'', ''issue'', ''view'', itoa (r_issue_num R), ''--json'', ''title,labels,state''])
       (\<lambda>e. ret (Inl (wrap_err ''gh issue view: '' e)))
       (\<lambda>out. ret (case unmarshal_into (\<lambda>j. case (get_str ''title'' j,
                    get_list (get_str ''name'') ''labels'' j, get_str ''state'' j) of
                  (Some t, Some ls, Some st) \<Rightarrow> Some (t, ls, st) | _ \<Rightarrow> None) out of
          None \<Rightarrow> Inl (msg_err ''invalid gh response: '')
        | Some (t, ls, st) \<Rightarrow>
            Inr \<lparr>is_number = r_issue_num R, is_title = t, is_labels = ls, is_state = st\<rparr>))"

section \<open>Collisions\<close>

text \<open>\<open>None\<close> is no collision.\<close>

definition check_worktree_collision :: "env \<Rightarrow> rconfig \<Rightarrow> string option M" where
  "check_worktree_collision E R =
     do {
       present \<leftarrow> stat_path E (dev_worktree_path R);
       ret (if present
            then Some (''Worktree exists at '' @ dev_worktree_path R @
                       ''; remove with: git worktree remove '' @ dev_worktree_path R)
            else None)
     }"

definition check_branch_collision :: "env \<Rightarrow> rconfig \<Rightarrow> string option result M" where
  "check_branch_collision E R =
     handle (run_in_dir E (r_repo_root R) [''git'', ''branch'', ''--list'', r_branch R])
       (\<lambda>e. ret (Inl (wrap_err ''failed to check git state: '' e))) (\<lambda>local_out.
     if trim_space local_out \<noteq> [] then
       ret (Inr (Some (''Branch '' @ r_branch R @ '' exists locally; remove with: git branch -D '' @ r_branch R)))
     else
       handle (run_in_dir E (r_repo_root R) [''git'', ''ls-remote'', ''--heads'', ''origin'', r_branch R])
         (\<lambda>e. ret (Inl (wrap_err ''failed to check git state: '' e))) (\<lambda>remote_out.
       ret (Inr (if trim_space remote_out \<noteq> []
         then Some (''Branch '' @ r_branch R @ '' exists on origin; remove with: git push origin --delete '' @
                r_branch R)
         else None))))"

definition dec_pr_ref :: "json \<Rightarrow> (string \<times> string) option" where
  "dec_pr_ref j = (case (get_str ''url'' j, get_str ''state'' j) of
     (Some u, Some s) \<Rightarrow> Some (u, s) | _ \<Rightarrow> None)"

definition check_pr_collision :: "env \<Rightarrow> rconfig \<Rightarrow> string option result M" where
  "check_pr_collision E R =
     handle (run_with_token E (r_dev_token R) (r_repo_root R)
         [''gh'', ''pr'', ''list'', ''--head'', r_branch R, ''--json'', ''url,state''])
       (\<lambda>e. ret (Inl (wrap_err ''failed to check PR state: '' e)))
       (\<lambda>out. ret (case unmarshal_into (dec_list dec_pr_ref []) out of
          None \<Rightarrow> Inl (msg_err ''failed to check PR state: '')
        | Some prs \<Rightarrow> Inr (case find (\<lambda>pr. snd pr = ''OPEN'') prs of
            None \<Rightarrow> None
          | Some pr \<Rightarrow> Some (''Open PR '' @ fst pr @ '' exists with head branch '' @ r_branch R @
                             ''; close it first''))))"

definition check_all_collisions :: "env \<Rightarrow> rconfig \<Rightarrow> string option result M" where
  "check_all_collisions E R =
     do {
       c \<leftarrow> check_worktree_collision E R;
       (case c of Some msg \<Rightarrow> ret (Inr (Some msg))
        | None \<Rightarrow>
            handle (check_branch_collision E R) (\<lambda>e. ret (Inl e)) (\<lambda>b.
              case b of Some msg \<Rightarrow> ret (Inr (Some msg)) | None \<Rightarrow> check_pr_collision E R))
     }"

section \<open>Cleaning\<close>

definition remove_worktree_if_exists :: "env \<Rightarrow> rconfig \<Rightarrow> string \<Rightarrow> string \<Rightarrow> gerr option M" where
  "remove_worktree_if_exists E R path kind =
     do {
       present \<leftarrow> stat_path E path;
       if \<not> present then ret None
       else or_fail (wrap_err (''clean failed: could not remove '' @ kind @ '' worktree '' @ path @
                        '' for issue '' @ itoa (r_issue_num R) @ '': ''))
              (run_in_dir E (r_repo_root R) [''git'', ''worktree'', ''remove'', ''--force'', path])
              (\<lambda>_. ret None)
     }"

definition remove_local_branch_if_exists :: "env \<Rightarrow> rconfig \<Rightarrow> gerr option M" where
  "remove_local_branch_if_exists E R =
     or_fail (wrap_err (''clean failed: could not check local branch for issue '' @ itoa (r_issue_num R) @ '': ''))
       (run_in_dir E (r_repo_root R) [''git'', ''branch'', ''--list'', r_branch R]) (\<lambda>out.
     if trim_space out = [] then ret None
     else or_fail (wrap_err (''clean failed: could not remove local branch '' @ r_branch R @ '' for issue '' @
                      itoa (r_issue_num R) @ '': ''))
            (run_in_dir E (r_repo_root R) [''git'', ''branch'', ''-D'', r_branch R]) (\<lambda>_. ret None))"

definition remove_remote_branch_if_exists :: "env \<Rightarrow> rconfig \<Rightarrow> gerr option M" where
  "remove_remote_branch_if_exists E R =
     or_fail (wrap_err (''clean failed: could not check remote branch for issue '' @ itoa (r_issue_num R) @ '': ''))
       (run_in_dir E (r_repo_root R) [''git'', ''ls-remote'', ''--heads'', ''origin'', r_branch R]) (\<lambda>out.
     if trim_space out = [] then ret None
     else or_fail (wrap_err (''clean failed: could not remove remote branch '' @ r_branch R @ '' for issue '' @
                      itoa (r_issue_num R) @ '': ''))
            (run_in_dir E (r_repo_root R) [''git'', ''push'', ''origin'', ''--delete'', r_branch R])
            (\<lambda>_. ret None))"

fun close_prs :: "env \<Rightarrow> rconfig \<Rightarrow> (string \<times> string) list \<Rightarrow> gerr option M" where
  "close_prs E R [] = ret None"
| "close_prs E R ((url, state) # prs) =
     (if state \<noteq> ''OPEN'' then close_prs E R prs
      else or_fail (wrap_err (''clean failed: could not remove PR '' @ url @ '' for issue '' @
                      itoa (r_issue_num R) @ '': ''))
             (run_with_token E (r_dev_token R) (r_repo_root R) [''gh'', ''pr'', ''close'', url])
             (\<lambda>_. close_prs E R prs))"

definition close_open_prs :: "env \<Rightarrow> rconfig \<Rightarrow> gerr option M" where
  "close_open_prs E R =
     or_fail (wrap_err (''clean failed: could not list PRs for issue '' @ itoa (r_issue_num R) @ '': ''))
       (run_with_token E (r_dev_token R) (r_repo_root R)
          [''gh'', ''pr'', ''list'', ''--head'', r_branch R, ''--json'', ''url,state'']) (\<lambda>out.
     case unmarshal_into (dec_list dec_pr_ref []) out of
       None \<Rightarrow> ret (Some (msg_err (''clean failed: could not parse PR list for issue '' @
                             itoa (r_issue_num R) @ '': '')))
     | Some prs \<Rightarrow> close_prs E R prs)"

text \<open>Go on when there is no error.\<close>

definition unless_err :: "gerr option M \<Rightarrow> gerr option M \<Rightarrow> gerr option M" where
  "unless_err m k = do { r \<leftarrow> m; (case r of Some e \<Rightarrow> ret (Some e) | None \<Rightarrow> k) }"

definition clean_artifacts :: "env \<Rightarrow> rconfig \<Rightarrow> gerr option M" where
  "clean_artifacts E R =
     unless_err (remove_worktree_if_exists E R (dev_worktree_path R) ''dev'')
     (unless_err (remove_worktree_if_exists E R (review_worktree_path R) ''reviewer'')
     (unless_err (remove_local_branch_if_exists E R)
     (unless_err (remove_remote_branch_if_exists E R)
     (close_open_prs E R))))"

section \<open>What GitHub knows of the run\<close>

record pr_info =
  pi_number :: int
  pi_url :: string
  pi_state :: string
  pi_labels :: "string list"

record github_review =
  gr_id :: int
  gr_state :: string
  gr_body :: string
  gr_author :: string

definition dec_pr_info :: "json \<Rightarrow> pr_info option" where
  "dec_pr_info j =
     (case (get_int ''number'' j, get_str ''url'' j, get_str ''state'' j,
            get_list (get_str ''name'') ''labels'' j) of
        (Some n, Some u, Some s, Some ls) \<Rightarrow>
          Some \<lparr>pi_number = n, pi_url = u, pi_state = s, pi_labels = ls\<rparr>
      | _ \<Rightarrow> None)"

definition fetch_open_pr_for_resume :: "env \<Rightarrow> rconfig \<Rightarrow> pr_info result M" where
  "fetch_open_pr_for_resume E R =
     handle (run_with_token E (r_dev_token R) (r_repo_root R)
         [''gh'', ''pr'', ''list'', ''--head'', r_branch R, ''--json'', ''number,url,state,labels'',
          ''--state'', ''all''])
       (\<lambda>e. ret (Inl (wrap_err ''failed to list PRs for resume: '' e)))
       (\<lambda>out. ret (case unmarshal_into (dec_list dec_pr_info []) out of
          None \<Rightarrow> Inl (msg_err ''failed to parse PR list for resume: '')
        | Some [] \<Rightarrow> Inl (msg_err (''resume requires an existing PR for branch '' @ r_branch R))
        | Some [pr] \<Rightarrow> Inr pr
        | Some prs \<Rightarrow>
            Inl (msg_err (''resume: multiple PRs found for branch '' @ r_branch R @ '' ('' @
              join_with '', '' (map (\<lambda>p. ''#'' @ itoa (pi_number p)) prs) @
              ''); close or merge extras first''))))"

definition fetch_bot_login :: "env \<Rightarrow> rconfig \<Rightarrow> string result M" where
  "fetch_bot_login E R =
     handle (run_with_token E (r_reviewer_token R) (r_repo_root R) [''gh'', ''api'', ''user''])
       (\<lambda>e. ret (Inl (wrap_err ''failed to fetch bot login: '' e)))
       (\<lambda>out. ret (case unmarshal_into (get_str ''login'') out of
          None \<Rightarrow> Inl (msg_err ''failed to parse bot login: '')
        | Some l \<Rightarrow> if l = [] then Inl (msg_err ''bot login is empty'') else Inr l))"

definition dec_github_review :: "json \<Rightarrow> github_review option" where
  "dec_github_review j =
     (case (get_int ''id'' j, get_str ''state'' j, get_str ''body'' j,
            get_struct (get_str ''login'') ''user'' j) of
        (Some i, Some s, Some b, Some a) \<Rightarrow>
          Some \<lparr>gr_id = i, gr_state = s, gr_body = b, gr_author = a\<rparr>
      | _ \<Rightarrow> None)"

definition fetch_submitted_github_reviews :: "env \<Rightarrow> rconfig \<Rightarrow> int \<Rightarrow> github_review list result M" where
  "fetch_submitted_github_reviews E R pr =
     handle (repo_nwo E R) (\<lambda>e. ret (Inl (wrap_err ''failed to resolve repo: '' e))) (\<lambda>nwo.
     handle (run_with_token E (r_reviewer_token R) (r_repo_root R)
         [''gh'', ''api'', ''repos/'' @ nwo @ ''/pulls/'' @ itoa pr @ ''/reviews''])
       (\<lambda>e. ret (Inl (wrap_err (''failed to fetch reviews for PR #'' @ itoa pr @ '': '') e)))
       (\<lambda>out. ret (case unmarshal_into (dec_list dec_github_review []) out of
          None \<Rightarrow> Inl (msg_err (''failed to parse reviews for PR #'' @ itoa pr @ '': ''))
        | Some rs \<Rightarrow> Inr rs)))"

definition bot_changes_requested :: "string \<Rightarrow> github_review \<Rightarrow> bool" where
  "bot_changes_requested login rv \<longleftrightarrow> gr_state rv = ''CHANGES_REQUESTED'' \<and> gr_author rv = login"

definition count_bot_changes_requested :: "github_review list \<Rightarrow> string \<Rightarrow> int" where
  "count_bot_changes_requested reviews login =
     int (length (filter (bot_changes_requested login) reviews))"

definition filter_decision_reviews :: "github_review list \<Rightarrow> github_review list" where
  "filter_decision_reviews reviews =
     filter (\<lambda>rv. gr_state rv = ''APPROVED'' \<or> gr_state rv = ''CHANGES_REQUESTED'') reviews"

fun confidence_from_labels :: "string list \<Rightarrow> string" where
  "confidence_from_labels [] = ''low''"
| "confidence_from_labels (l # ls) =
     (if l = ''confidence:low'' then ''low''
      else if l = ''confidence:medium'' then ''medium''
      else if l = ''confidence:high'' then ''high''
      else confidence_from_labels ls)"

section \<open>The pending-review proof\<close>

definition graphqlResumeDiscoverPending :: string where
  "graphqlResumeDiscoverPending = ''query($owner:String!,$name:String!,$prNumber:Int!){repository(owner:$owner,name:$name){pullRequest(number:$prNumber){reviews(first:20,states:[PENDING]){nodes{id author{login}}}}}}''"

text \<open>A pointer to a struct or slice: \<open>None\<close> when absent or null.\<close>

definition get_ptr :: "(json \<Rightarrow> 'a option) \<Rightarrow> string \<Rightarrow> json \<Rightarrow> 'a option option" where
  "get_ptr d k j =
     (case get_field (\<lambda>_ v. Some v) JNull k j of
        None \<Rightarrow> None
      | Some JNull \<Rightarrow> Some None
      | Some v \<Rightarrow> map_option Some (d v))"

text \<open>A node of the proof: its id and, unless the author is null, the author's login.\<close>

definition dec_proof_node :: "json \<Rightarrow> (string \<times> string option) option" where
  "dec_proof_node j =
     (case (get_str ''id'' j, get_ptr (get_str ''login'') ''author'' j) of
        (Some i, Some a) \<Rightarrow> Some (i, a) | _ \<Rightarrow> None)"

definition join_option :: "'a option option \<Rightarrow> 'a option" where
  "join_option x = (case x of Some y \<Rightarrow> y | None \<Rightarrow> None)"

text \<open>\<open>Some None\<close>: one of the pointers on the way is nil.\<close>

definition dec_pending_proof :: "json \<Rightarrow> (string \<times> string option) list option option" where
  "dec_pending_proof j =
     map_option join_option (get_ptr (\<lambda>d.
       map_option join_option (get_ptr (\<lambda>r.
         map_option join_option (get_ptr (\<lambda>p.
           map_option join_option (get_ptr (\<lambda>v.
             get_ptr (dec_list dec_proof_node []) ''nodes'' v) ''reviews'' p)) ''pullRequest'' r))
         ''repository'' d)) ''data'' j)"

definition node_unambiguous :: "string \<times> string option \<Rightarrow> bool" where
  "node_unambiguous n \<longleftrightarrow> fst n \<noteq> [] \<and> snd n \<noteq> None \<and> snd n \<noteq> Some []"

definition resume_pending_from_proof ::
    "(string \<times> string option) list option \<Rightarrow> int \<Rightarrow> (string \<times> string) list result" where
  "resume_pending_from_proof proof_nodes pr =
     (case proof_nodes of
        None \<Rightarrow> Inl (msg_err (''resume: pending review proof unavailable for PR #'' @ itoa pr))
      | Some nodes \<Rightarrow>
          if list_all node_unambiguous nodes
          then Inr (map (\<lambda>n. (fst n, case snd n of Some a \<Rightarrow> a | None \<Rightarrow> [])) nodes)
          else Inl (msg_err (''resume: pending review proof for PR #'' @ itoa pr @ '' is ambiguous'')))"

definition fetch_resume_pending_reviews :: "env \<Rightarrow> rconfig \<Rightarrow> int \<Rightarrow> (string \<times> string) list result M" where
  "fetch_resume_pending_reviews E R pr =
     handle (repo_nwo E R)
       (\<lambda>e. ret (Inl (wrap_err ''failed to resolve repo for pending review proof: '' e))) (\<lambda>nwo.
     handle (graphql E R graphqlResumeDiscoverPending (pr_query_args nwo pr))
       (\<lambda>e. ret (Inl (wrap_err (''failed to prove pending reviews for PR #'' @ itoa pr @ '': '') e)))
       (\<lambda>out. ret (case unmarshal_into dec_pending_proof out of
          None \<Rightarrow> Inl (msg_err (''failed to parse pending review proof for PR #'' @ itoa pr @ '': ''))
        | Some p \<Rightarrow> resume_pending_from_proof p pr)))"

fun sweep_times :: "env \<Rightarrow> rconfig \<Rightarrow> int \<Rightarrow> nat \<Rightarrow> gerr option M" where
  "sweep_times E R pr 0 = ret None"
| "sweep_times E R pr (Suc n) =
     do {
       r \<leftarrow> sweep_pending_reviews E R pr;
       (case r of Some e \<Rightarrow> ret (Some (wrap_err ''failed to delete pending review before resume: '' e))
        | None \<Rightarrow> sweep_times E R pr n)
     }"

definition resume_prepare_reviewer_turn :: "env \<Rightarrow> rconfig \<Rightarrow> int \<Rightarrow> string \<Rightarrow> gerr option M" where
  "resume_prepare_reviewer_turn E R pr login =
     handle (fetch_resume_pending_reviews E R pr) (\<lambda>e. ret (Some e)) (\<lambda>proofs.
       case find (\<lambda>p. snd p \<noteq> login) proofs of
         Some p \<Rightarrow> ret (Some (msg_err (''resume: pending review from '' @ snd p @
                       '' exists; ask them to submit or dismiss it before resuming'')))
       | None \<Rightarrow> sweep_times E R pr (length proofs))"

section \<open>Synthesized events\<close>

definition synthesize_pr_opened_event :: "env \<Rightarrow> rconfig \<Rightarrow> int \<Rightarrow> gerr option M" where
  "synthesize_pr_opened_event E R pr =
     do { t \<leftarrow> get_turn;
          write_run_event E R EventPROpened t (JObj [(''prNumber'', JStr (itoa pr))]) }"

definition synthesize_review_submitted_event ::
    "env \<Rightarrow> rconfig \<Rightarrow> int \<Rightarrow> string \<Rightarrow> string \<Rightarrow> string \<Rightarrow> gerr option M" where
  "synthesize_review_submitted_event E R pr verdict confidence review_id =
     do {
       t \<leftarrow> get_turn;
       write_run_event E R EventReviewSubmitted t
         (JObj [(''body'', JStr []), (''confidence'', JStr confidence), (''inlineCommentCount'', jint 0),
                (''prNumber'', jint pr), (''reviewId'', JStr review_id), (''verdict'', JStr verdict)])
     }"

fun resume_synthesize_bot_cr_events ::
    "env \<Rightarrow> rconfig \<Rightarrow> int \<Rightarrow> github_review list \<Rightarrow> string \<Rightarrow> gerr option M" where
  "resume_synthesize_bot_cr_events E R pr [] login = ret None"
| "resume_synthesize_bot_cr_events E R pr (rv # rvs) login =
     (if bot_changes_requested login rv then
        unless_err (synthesize_review_submitted_event E R pr ''changes_requested'' ''high'' (itoa (gr_id rv)))
          (resume_synthesize_bot_cr_events E R pr rvs login)
      else resume_synthesize_bot_cr_events E R pr rvs login)"

section \<open>Hydration\<close>

text \<open>A failed hydration, with the context as the code left it, or success.\<close>

type_synonym hydration = "bool \<times> run_ctx"

datatype resume_check = ResumeFailed | ResumeMerged pr_info | ResumeOpen pr_info string

definition resume_validate :: "env \<Rightarrow> rconfig \<Rightarrow> resume_check M" where
  "resume_validate E R =
     handle (fetch_open_pr_for_resume E R) (\<lambda>_. ret ResumeFailed) (\<lambda>pr.
       if pi_state pr = ''MERGED'' then do {
         err \<leftarrow> synthesize_pr_opened_event E R (pi_number pr);
         ret (case err of Some _ \<Rightarrow> ResumeFailed | None \<Rightarrow> ResumeMerged pr)
       }
       else if pi_state pr \<noteq> ''OPEN'' then ret ResumeFailed
       else
         handle (run_in_dir E (r_repo_root R) [''git'', ''ls-remote'', ''--heads'', ''origin'', r_branch R])
           (\<lambda>_. ret ResumeFailed) (\<lambda>out.
         if trim_space out = [] then ret ResumeFailed
         else handle (fetch_bot_login E R) (\<lambda>_. ret ResumeFailed) (\<lambda>login. ret (ResumeOpen pr login))))"

definition hydrate_merged_resume :: "run_ctx \<Rightarrow> hydration M" where
  "hydrate_merged_resume c =
     ret (True, c\<lparr>rc_round := 0, rc_resume_verdict := ''approved'', rc_pr_state := ''MERGED''\<rparr>)"

definition hydrate_resume_no_decision :: "env \<Rightarrow> rconfig \<Rightarrow> run_ctx \<Rightarrow> pr_info \<Rightarrow> string \<Rightarrow> hydration M" where
  "hydrate_resume_no_decision E R c pr login =
     do {
       gate \<leftarrow> run_ci_gate E R (pi_number pr);
       if gate \<noteq> outcomeSuccess then ret (False, c\<lparr>rc_prepare_fail_kind := ''dev_failed''\<rparr>)
       else do {
         err \<leftarrow> resume_prepare_reviewer_turn E R (pi_number pr) login;
         ret (case err of Some _ \<Rightarrow> (False, c)
              | None \<Rightarrow> (True, c\<lparr>rc_reviewer_worktree_exists := True, rc_resume_verdict := []\<rparr>))
       }
     }"

definition build_findings_json_for_review :: "env \<Rightarrow> rconfig \<Rightarrow> int \<Rightarrow> string \<Rightarrow> string result M" where
  "build_findings_json_for_review E R pr review_id =
     handle (load_inline_comments E R pr review_id)
       (\<lambda>e. ret (Inl (wrap_err (''failed to load inline comments for review '' @ review_id @ '': '') e)))
       (\<lambda>entries. ret (Inr (findings_json_text entries)))"

definition hydrate_resume_findings :: "env \<Rightarrow> rconfig \<Rightarrow> pr_info \<Rightarrow> github_review \<Rightarrow> (string \<times> string) result M" where
  "hydrate_resume_findings E R pr rv =
     handle (build_findings_json_for_review E R (pi_number pr) (itoa (gr_id rv))) (\<lambda>e. ret (Inl e))
       (\<lambda>fj. ret (if gr_body rv = [] \<and> fj = [] then Inl (msg_err ''resume: empty findings'')
                  else Inr (gr_body rv, fj)))"

definition hydrate_resume_changes_requested ::
    "env \<Rightarrow> rconfig \<Rightarrow> run_ctx \<Rightarrow> pr_info \<Rightarrow> string \<Rightarrow> github_review list \<Rightarrow> github_review \<Rightarrow> hydration M" where
  "hydrate_resume_changes_requested E R c0 pr login submitted rv =
     (let c = c0\<lparr>rc_resume_verdict := ''changes_requested''\<rparr> in
      do {
        err \<leftarrow> resume_synthesize_bot_cr_events E R (pi_number pr) submitted login;
        (case err of Some _ \<Rightarrow> ret (False, c)
         | None \<Rightarrow>
             if rc_round c \<ge> r_max_review_rounds R then
               after (post_escalation_comment_with_span E R (rc_round c))
                 (ret (False, c\<lparr>rc_prepare_fail_kind := ''escalated''\<rparr>))
             else
               handle (hydrate_resume_findings E R pr rv) (\<lambda>_. ret (False, c)) (\<lambda>(findings, fj).
                 ret (True, c\<lparr>rc_round := rc_round c + 1,
                      rc_findings := (if findings = [] then ''See inline review comments'' else findings),
                      rc_findings_json := fj, rc_dev_mode := DevModeRetryWithFindings,
                      rc_dev_attempt := 0, rc_reviewer_worktree_exists := True\<rparr>)))
      })"

definition hydrate_resume_approved ::
    "env \<Rightarrow> rconfig \<Rightarrow> run_ctx \<Rightarrow> pr_info \<Rightarrow> github_review \<Rightarrow> hydration M" where
  "hydrate_resume_approved E R c0 pr rv =
     (let c = c0\<lparr>rc_resume_verdict := ''approved''\<rparr> in
      do {
        err \<leftarrow> synthesize_review_submitted_event E R (pi_number pr) ''approved''
                 (confidence_from_labels (pi_labels pr)) (itoa (gr_id rv));
        ret (err = None, c)
      })"

definition hydrate_resume_decision ::
    "env \<Rightarrow> rconfig \<Rightarrow> run_ctx \<Rightarrow> pr_info \<Rightarrow> string \<Rightarrow> github_review list \<Rightarrow> hydration M" where
  "hydrate_resume_decision E R c pr login submitted =
     (let rv = last submitted in
      if gr_state rv = ''CHANGES_REQUESTED'' then hydrate_resume_changes_requested E R c pr login submitted rv
      else if gr_state rv = ''APPROVED'' then hydrate_resume_approved E R c pr rv
      else ret (False, c))"

definition hydrate_resume_reviews ::
    "env \<Rightarrow> rconfig \<Rightarrow> run_ctx \<Rightarrow> pr_info \<Rightarrow> string \<Rightarrow> github_review list \<Rightarrow> hydration M" where
  "hydrate_resume_reviews E R c0 pr login all_reviews =
     (let submitted = filter_decision_reviews all_reviews;
          c = c0\<lparr>rc_round := count_bot_changes_requested submitted login, rc_pr_state := []\<rparr>
      in if submitted = [] then hydrate_resume_no_decision E R c pr login
         else hydrate_resume_decision E R c pr login submitted)"

definition hydrate_open_resume :: "env \<Rightarrow> rconfig \<Rightarrow> run_ctx \<Rightarrow> pr_info \<Rightarrow> string \<Rightarrow> hydration M" where
  "hydrate_open_resume E R c pr login =
     do {
       t \<leftarrow> get_turn;
       wt \<leftarrow> ensure_for_resume E (r_repo_root R) (golemic_dir R) (r_run_id R) (r_issue_num R)
               ''golemic-dev'' t;
       (case wt of Some _ \<Rightarrow> ret (False, c)
        | None \<Rightarrow> do {
            err \<leftarrow> synthesize_pr_opened_event E R (pi_number pr);
            (case err of Some _ \<Rightarrow> ret (False, c)
             | None \<Rightarrow>
                 handle (fetch_submitted_github_reviews E R (pi_number pr)) (\<lambda>_. ret (False, c))
                   (\<lambda>reviews. hydrate_resume_reviews E R c pr login reviews))
          })
     }"

definition hydrate_resume :: "env \<Rightarrow> rconfig \<Rightarrow> run_ctx \<Rightarrow> hydration M" where
  "hydrate_resume E R c0 =
     (let c = c0\<lparr>rc_prepare_fail_kind := []\<rparr> in
      do {
        chk \<leftarrow> resume_validate E R;
        (case chk of
           ResumeFailed \<Rightarrow> ret (False, c)
         | ResumeMerged _ \<Rightarrow> hydrate_merged_resume c
         | ResumeOpen pr login \<Rightarrow> hydrate_open_resume E R c pr login)
      })"

section \<open>What the operations add to the history\<close>

lemma grows_unless_err [grows]:
  "upholds history_grows m \<Longrightarrow> upholds history_grows k \<Longrightarrow> upholds history_grows (unless_err m k)"
  unfolding unless_err_def by (intro grows)

lemma calls_unless_err [emits]:
  "upholds (only_calls A) m \<Longrightarrow> upholds (only_calls A) k \<Longrightarrow> upholds (only_calls A) (unless_err m k)"
  unfolding unless_err_def by (intro emits)

lemma grows_prepare_checks [grows]:
  "upholds history_grows (load_issue E R)"
  "upholds history_grows (check_worktree_collision E R)"
  "upholds history_grows (check_branch_collision E R)"
  "upholds history_grows (check_pr_collision E R)"
  "upholds history_grows (remove_worktree_if_exists E R path kind)"
  "upholds history_grows (remove_local_branch_if_exists E R)"
  "upholds history_grows (remove_remote_branch_if_exists E R)"
  unfolding load_issue_def check_worktree_collision_def check_branch_collision_def
    check_pr_collision_def remove_worktree_if_exists_def remove_local_branch_if_exists_def
    remove_remote_branch_if_exists_def
  by (intro grows)+

lemma grows_close_prs [grows]: "upholds history_grows (close_prs E R prs)"
proof (induction prs)
  case Nil
  show ?case by (simp, intro grows)
next
  case (Cons p prs)
  show ?case by (cases p) (simp, intro conjI impI grows Cons.IH)
qed

lemma grows_prepare_all [grows]:
  "upholds history_grows (check_all_collisions E R)"
  "upholds history_grows (close_open_prs E R)"
  "upholds history_grows (clean_artifacts E R)"
  unfolding check_all_collisions_def clean_artifacts_def close_open_prs_def by (intro grows)+

lemma grows_sweep_times [grows]: "upholds history_grows (sweep_times E R pr n)"
proof (induction n)
  case 0
  show ?case by (simp, intro grows)
next
  case (Suc n)
  show ?case by (simp, intro grows Suc.IH)
qed

lemma grows_resume_queries [grows]:
  "upholds history_grows (fetch_open_pr_for_resume E R)"
  "upholds history_grows (fetch_bot_login E R)"
  "upholds history_grows (fetch_submitted_github_reviews E R pr)"
  "upholds history_grows (fetch_resume_pending_reviews E R pr)"
  "upholds history_grows (synthesize_pr_opened_event E R pr)"
  "upholds history_grows (synthesize_review_submitted_event E R pr v c i)"
  "upholds history_grows (build_findings_json_for_review E R pr i)"
  unfolding fetch_open_pr_for_resume_def fetch_bot_login_def fetch_submitted_github_reviews_def
    fetch_resume_pending_reviews_def synthesize_pr_opened_event_def
    synthesize_review_submitted_event_def build_findings_json_for_review_def
  by (intro grows)+

lemma grows_synthesize_bot [grows]:
  "upholds history_grows (resume_synthesize_bot_cr_events E R pr rvs l)"
proof (induction rvs)
  case Nil
  show ?case by (simp, intro grows)
next
  case (Cons rv rvs)
  show ?case by (simp, intro conjI impI grows Cons.IH)
qed

lemma grows_hydrate_parts [grows]:
  "upholds history_grows (resume_prepare_reviewer_turn E R pr l)"
  "upholds history_grows (resume_validate E R)"
  "upholds history_grows (hydrate_merged_resume c)"
  "upholds history_grows (hydrate_resume_findings E R pi rv)"
  "upholds history_grows (hydrate_resume_approved E R c pi rv)"
  unfolding resume_prepare_reviewer_turn_def resume_validate_def hydrate_merged_resume_def
    hydrate_resume_findings_def hydrate_resume_approved_def Let_def
  by (intro grows)+

lemma grows_hydrate_decisions [grows]:
  "upholds history_grows (hydrate_resume_no_decision E R c pi l)"
  "upholds history_grows (hydrate_resume_changes_requested E R c pi l rvs rv)"
  unfolding hydrate_resume_no_decision_def hydrate_resume_changes_requested_def Let_def
  by (intro grows)+

lemma resume_check_cases:
  assumes "upholds Rel a" "\<And>p. upholds Rel (b p)" "\<And>p l. upholds Rel (d p l)"
  shows "upholds Rel (case x of ResumeFailed \<Rightarrow> a | ResumeMerged p \<Rightarrow> b p | ResumeOpen p l \<Rightarrow> d p l)"
  using assms by (cases x) simp_all

lemmas [grows] = resume_check_cases [where Rel = history_grows]
lemmas [emits] = resume_check_cases [where Rel = "only_calls A" for A]

lemma grows_hydrate [grows]: "upholds history_grows (hydrate_resume E R c)"
  unfolding hydrate_resume_def hydrate_open_resume_def hydrate_resume_reviews_def
    hydrate_resume_decision_def Let_def
  by (intro grows)

lemma calls_prepare_checks [emits]:
  assumes "quiet A"
  shows "upholds (only_calls A) (load_issue E R)"
    and "upholds (only_calls A) (check_worktree_collision E R)"
    and "upholds (only_calls A) (check_branch_collision E R)"
    and "upholds (only_calls A) (check_pr_collision E R)"
    and "upholds (only_calls A) (remove_worktree_if_exists E R path kind)"
    and "upholds (only_calls A) (remove_local_branch_if_exists E R)"
    and "upholds (only_calls A) (remove_remote_branch_if_exists E R)"
  unfolding load_issue_def check_worktree_collision_def check_branch_collision_def
    check_pr_collision_def remove_worktree_if_exists_def remove_local_branch_if_exists_def
    remove_remote_branch_if_exists_def
  by (intro emits; simp add: quietD [OF assms])+

lemma calls_close_prs [emits]:
  assumes "quiet A"
  shows "upholds (only_calls A) (close_prs E R prs)"
proof (induction prs)
  case Nil
  show ?case by (simp, intro emits)
next
  case (Cons p prs)
  show ?case
    by (cases p) (simp, intro conjI impI emits Cons.IH; simp add: quietD [OF assms] Cons.IH)
qed

lemma calls_prepare_all [emits]:
  assumes "quiet A"
  shows "upholds (only_calls A) (check_all_collisions E R)"
    and "upholds (only_calls A) (clean_artifacts E R)"
  unfolding check_all_collisions_def clean_artifacts_def close_open_prs_def
  by (intro emits assms; simp add: quietD [OF assms])+

lemma calls_sweep_times [emits]:
  assumes "quiet A"
  shows "upholds (only_calls A) (sweep_times E R pr n)"
proof (induction n)
  case 0
  show ?case by (simp, intro emits)
next
  case (Suc n)
  show ?case by (simp, intro emits Suc.IH assms)
qed

lemma calls_resume_queries [emits]:
  assumes "quiet A"
  shows "upholds (only_calls A) (fetch_open_pr_for_resume E R)"
    and "upholds (only_calls A) (fetch_bot_login E R)"
    and "upholds (only_calls A) (fetch_submitted_github_reviews E R pr)"
    and "upholds (only_calls A) (fetch_resume_pending_reviews E R pr)"
    and "upholds (only_calls A) (build_findings_json_for_review E R pr i)"
  unfolding fetch_open_pr_for_resume_def fetch_bot_login_def fetch_submitted_github_reviews_def
    fetch_resume_pending_reviews_def build_findings_json_for_review_def
  by (intro emits assms; simp add: quietD [OF assms])+

lemma calls_synthesize [emits]:
  assumes "allows_writes A"
  shows "upholds (only_calls A) (synthesize_pr_opened_event E R pr)"
    and "upholds (only_calls A) (synthesize_review_submitted_event E R pr v c i)"
  unfolding synthesize_pr_opened_event_def synthesize_review_submitted_event_def
  by (intro emits assms)+

lemma calls_synthesize_bot [emits]:
  assumes "allows_writes A"
  shows "upholds (only_calls A) (resume_synthesize_bot_cr_events E R pr rvs l)"
proof (induction rvs)
  case Nil
  show ?case by (simp, intro emits)
next
  case (Cons rv rvs)
  show ?case by (simp, intro conjI impI emits Cons.IH assms)
qed

lemma calls_hydrate_parts [emits]:
  assumes "quiet A" and "allows_writes A"
  shows "upholds (only_calls A) (resume_prepare_reviewer_turn E R pr l)"
    and "upholds (only_calls A) (resume_validate E R)"
    and "upholds (only_calls A) (hydrate_merged_resume c)"
    and "upholds (only_calls A) (hydrate_resume_findings E R pi rv)"
    and "upholds (only_calls A) (hydrate_resume_approved E R c pi rv)"
  unfolding resume_prepare_reviewer_turn_def resume_validate_def hydrate_merged_resume_def
    hydrate_resume_findings_def hydrate_resume_approved_def Let_def
  by (intro emits assms; simp add: quietD [OF assms(1)])+

lemma calls_hydrate_decisions [emits]:
  assumes "quiet A" and "allows_writes A" and "allows_agents A"
  shows "upholds (only_calls A) (hydrate_resume_no_decision E R c pi l)"
    and "upholds (only_calls A) (hydrate_resume_changes_requested E R c pi l rvs rv)"
  unfolding hydrate_resume_no_decision_def hydrate_resume_changes_requested_def Let_def
  by (intro emits assms)+

lemma calls_hydrate [emits]:
  assumes "quiet A" and "allows_writes A" and "allows_agents A"
  shows "upholds (only_calls A) (hydrate_resume E R c)"
  unfolding hydrate_resume_def hydrate_open_resume_def hydrate_resume_reviews_def
    hydrate_resume_decision_def Let_def
  by (intro emits assms)

end
