(* ===== verification/Steps.thy ===== *)
theory Steps
  imports Resume
begin

text \<open>
  The five step handlers (\<open>step_prepare.go\<close>, \<open>step_dev.go\<close>, \<open>step_sync_ci.go\<close>,
  \<open>step_reviewer.go\<close>, \<open>step_merge.go\<close>). A handler takes the context and returns its event and the
  changed context; the world is the state of the monad.
\<close>

type_synonym handler = "run_ctx \<Rightarrow> (event_key \<times> run_ctx) M"

section \<open>PREPARE\<close>

definition step_prepare :: "env \<Rightarrow> rconfig \<Rightarrow> handler" where
  "step_prepare E R c =
     (if r_issue_state R \<noteq> ''OPEN'' then ret (EventNotEligible, c)
      else do {
        cleaned \<leftarrow> (if r_clean R then clean_artifacts E R else ret None);
        (case cleaned of Some _ \<Rightarrow> ret (EventPrepareFailed, c)
         | None \<Rightarrow>
             if \<not> rc_resume c then
               handle (check_all_collisions E R) (\<lambda>_. ret (EventPrepareFailed, c)) (\<lambda>collision.
                 case collision of Some _ \<Rightarrow> ret (EventPrepareFailed, c)
                 | None \<Rightarrow> do {
                     incr_turn;
                     t \<leftarrow> get_turn;
                     err \<leftarrow> worktree_create E (r_repo_root R) (golemic_dir R) (r_run_id R)
                              (r_issue_num R) ''golemic-dev'' t;
                     ret (case err of
                            Some _ \<Rightarrow> (EventPrepareFailed, c\<lparr>rc_worktree_create_failed := True\<rparr>)
                          | None \<Rightarrow> (EventReady, c))
                   })
             else do {
               (ok, c') \<leftarrow> hydrate_resume E R c;
               ret (if ok then EventReady else EventPrepareFailed, c')
             })
      })"

section \<open>RUN_DEV\<close>

definition dev_prompt_kind :: "run_ctx \<Rightarrow> bool \<Rightarrow> string" where
  "dev_prompt_kind c cbm =
     (if rc_dev_attempt c > 0 then ''dev-gate-retry'' @ rc_gate_reason c
      else if rc_dev_mode c = DevModeRetryWithFindings
      then ''dev-retry'' @ rc_findings c @ rc_findings_json c @ bool_text cbm
      else ''dev'' @ bool_text cbm)"

text \<open>The part of \<open>stepRunDev\<close> after the turn and the round are counted.\<close>

definition dev_invocation :: "env \<Rightarrow> rconfig \<Rightarrow> handler" where
  "dev_invocation E R c =
     handle (agent_file E ''dev'') (\<lambda>_. ret (EventDevFailed, c)) (\<lambda>(_, model).
     do {
       cbm \<leftarrow> (if r_cbm_enabled R \<and> rc_dev_attempt c = 0
               then index_worktree E R (dev_worktree_path R)
                      (''golemic-issue-'' @ itoa (r_issue_num R) @ ''-dev'')
               else ret False);
       handle (render_prompt E (dev_prompt_kind c cbm)) (\<lambda>_. ret (EventDevFailed, c)) (\<lambda>user_prompt.
       do {
         (ev, reason) \<leftarrow> run_dev_agent_with_prompt E R model user_prompt cbm (rc_round c) (rc_dev_attempt c);
         ret (if ev = EventDevDone then (EventDevDone, c\<lparr>rc_dev_attempt := 0\<rparr>)
              else if ev = EventDevGateRejected
              then (EventDevGateRejected,
                    c\<lparr>rc_gate_reason := reason, rc_dev_attempt := rc_dev_attempt c + 1\<rparr>)
              else (ev, c))
       })
     })"

definition retry_turn :: "run_ctx \<Rightarrow> bool" where
  "retry_turn c \<longleftrightarrow> rc_dev_attempt c = 0 \<and> rc_dev_mode c = DevModeRetryWithFindings"

definition step_run_dev :: "env \<Rightarrow> rconfig \<Rightarrow> handler" where
  "step_run_dev E R c =
     (if retry_turn c
      then do { incr_turn; dev_invocation E R (c\<lparr>rc_round := rc_round c + 1\<rparr>) }
      else dev_invocation E R c)"

section \<open>SYNC_CI\<close>

definition map_sync_ci_outcome :: "string \<Rightarrow> event_key" where
  "map_sync_ci_outcome outcome =
     (case agent_failure_event outcome of
        Some ev \<Rightarrow> ev
      | None \<Rightarrow> if outcome = outcomeSuccess then EventCIGreen
                else if outcome = outcomeConflictUnresolved then EventConflictUnresolved
                else EventCIFailed)"

definition step_sync_ci :: "env \<Rightarrow> rconfig \<Rightarrow> handler" where
  "step_sync_ci E R c =
     do {
       opened \<leftarrow> has_pr_opened_event E;
       if \<not> opened then ret (EventCIFailed, c)
       else handle (get_pr_number E) (\<lambda>_. ret (EventCIFailed, c)) (\<lambda>pr.
         do {
           outcome \<leftarrow> run_pre_review_sync_gate E R pr;
           ret (map_sync_ci_outcome outcome, c)
         })
     }"

section \<open>RUN_REVIEWER\<close>

record reviewer_round =
  rr_pr :: int
  rr_head_sha :: string
  rr_round :: int
  rr_count_before :: int

definition prepare_reviewer_round :: "env \<Rightarrow> rconfig \<Rightarrow> reviewer_round result M" where
  "prepare_reviewer_round E R =
     handle (get_pr_number E) (\<lambda>e. ret (Inl (wrap_err ''get PR number: '' e))) (\<lambda>pr.
     handle (get_pr_head_sha E R pr) (\<lambda>e. ret (Inl (wrap_err ''get PR head SHA: '' e))) (\<lambda>sha.
     do {
       n \<leftarrow> count_review_submitted_events E;
       ret (Inr \<lparr>rr_pr = pr, rr_head_sha = sha, rr_round = n + 1, rr_count_before = n\<rparr>)
     }))"

definition escalate_now :: "run_ctx \<Rightarrow> bool" where
  "escalate_now c \<longleftrightarrow>
     (if rc_in_merge_rereview c then rc_merge_rereview_round c \<ge> rc_max_merge_rereview_rounds c
      else rc_round c \<ge> rc_max_rounds c)"

definition reviewer_precheck_event :: "env \<Rightarrow> rconfig \<Rightarrow> run_ctx \<Rightarrow> int \<Rightarrow> precheck_result \<Rightarrow> (event_key \<times> run_ctx) M" where
  "reviewer_precheck_event E R c current_round res =
     do {
       err \<leftarrow> write_precheck_review_submitted_event E R current_round;
       (case err of Some _ \<Rightarrow> ret (EventReviewFailed, c)
        | None \<Rightarrow> do {
            n \<leftarrow> count_review_submitted_events E;
            let c1 = c\<lparr>rc_round := n\<rparr>;
                c2 = (if rc_in_merge_rereview c1
                      then c1\<lparr>rc_merge_rereview_round := rc_merge_rereview_round c1 + 1\<rparr> else c1)
            in if escalate_now c2 then
                 after (post_escalation_comment_with_span E R (rc_round c2)) (ret (EventPrecheckFailed, c2))
               else ret (EventPrecheckFailed,
                 c2\<lparr>rc_findings := build_precheck_findings res, rc_findings_json := [],
                    rc_dev_mode := DevModeRetryWithFindings, rc_dev_attempt := 0\<rparr>)
          })
     }"

definition reviewer_agent_outcome_to_event :: "string \<Rightarrow> event_key" where
  "reviewer_agent_outcome_to_event outcome =
     (case agent_failure_event outcome of Some ev \<Rightarrow> ev | None \<Rightarrow> EventReviewFailed)"

definition maxReviewerAttempts :: nat where "maxReviewerAttempts = 3"

text \<open>
  The attempts that are left, the number of the next one, whether the last was gate-rejected
  and why. The result is the broker's state, or an event that ends the step.
\<close>

fun reviewer_attempts ::
    "env \<Rightarrow> rconfig \<Rightarrow> run_ctx \<Rightarrow> int \<Rightarrow> int \<Rightarrow> nat \<Rightarrow> int \<Rightarrow> string option \<Rightarrow> reviewer_state option \<Rightarrow>
       ((event_key \<times> run_ctx) + reviewer_state option) M" where
  "reviewer_attempts E R c pr current_round 0 attempt rejected final = ret (Inr final)"
| "reviewer_attempts E R c pr current_round (Suc n) attempt rejected final =
     do {
       swept \<leftarrow> (if rejected = None then sweep_pending_reviews E R pr else ret None);
       (case swept of Some _ \<Rightarrow> ret (Inl (EventReviewFailed, c))
        | None \<Rightarrow>
            handle (run_reviewer_precheck E R (review_worktree_path R))
              (\<lambda>_. ret (Inl (EventReviewFailed, c))) (\<lambda>(block, res).
              if precheck_not_ok res then do {
                ec \<leftarrow> reviewer_precheck_event E R c current_round res;
                ret (Inl ec)
              }
              else do {
                (outcome, state) \<leftarrow> run_reviewer_agent E R current_round attempt block
                  (case rejected of Some msg \<Rightarrow> msg | None \<Rightarrow> []);
                if review_gate_rejected state then
                  (if n = 0 then ret (Inl (EventReviewFailed, c))
                   else reviewer_attempts E R c pr current_round n (attempt + 1)
                          (Some (case state of Some v \<Rightarrow> rv_gate_msg v | None \<Rightarrow> [])) state)
                else if outcome \<noteq> outcomeSuccess
                then ret (Inl (reviewer_agent_outcome_to_event outcome, c))
                else ret (Inr state)
              }))
     }"

text \<open>\<open>Some\<close> is an error.\<close>

definition has_broker_submit :: "reviewer_state option \<Rightarrow> bool" where
  "has_broker_submit st \<longleftrightarrow> (case st of None \<Rightarrow> False | Some v \<Rightarrow> rv_params v \<noteq> None)"

definition check_freshness_and_submit ::
    "env \<Rightarrow> rconfig \<Rightarrow> reviewer_state option \<Rightarrow> reviewer_round \<Rightarrow> gerr option M" where
  "check_freshness_and_submit E R final rnd =
     do {
       n \<leftarrow> count_review_submitted_events E;
       if \<not> has_broker_submit final \<and> n \<le> rr_count_before rnd
       then ret (Some (msg_err ''no fresh gm_review_submit recorded in this round''))
       else submit_review_and_write_event E R final (rr_round rnd) (rr_head_sha rnd)
     }"

definition reviewer_verdict_event :: "env \<Rightarrow> rconfig \<Rightarrow> run_ctx \<Rightarrow> string \<Rightarrow> (event_key \<times> run_ctx) M" where
  "reviewer_verdict_event E R c sha =
     handle (latest_review_verdict E (rc_round c) sha) (\<lambda>_. ret (EventReviewFailed, c)) (\<lambda>verdict.
       if verdict = ''approved'' then ret (EventReviewApproved, c)
       else if verdict = ''changes_requested'' then
         (if escalate_now c then
            after (post_escalation_comment_with_span E R (rc_round c)) (ret (EventChangesRequested, c))
          else handle (latest_review_body E) (\<lambda>_. ret (EventReviewFailed, c)) (\<lambda>findings.
            if findings = [] then ret (EventReviewFailed, c)
            else handle (build_findings_json E R) (\<lambda>_. ret (EventReviewFailed, c)) (\<lambda>fj.
              ret (EventChangesRequested,
                c\<lparr>rc_findings := findings, rc_findings_json := fj,
                  rc_dev_mode := DevModeRetryWithFindings, rc_dev_attempt := 0\<rparr>))))
       else ret (EventReviewFailed, c))"

text \<open>The part of \<open>stepRunReviewer\<close> after the attempts: freshness, submission, dirty check, verdict.\<close>

definition conclude_review :: "env \<Rightarrow> rconfig \<Rightarrow> run_ctx \<Rightarrow> reviewer_state option \<Rightarrow> reviewer_round \<Rightarrow> (event_key \<times> run_ctx) M" where
  "conclude_review E R c final rnd =
     do {
       err \<leftarrow> check_freshness_and_submit E R final rnd;
       (case err of Some _ \<Rightarrow> ret (EventReviewFailed, c)
        | None \<Rightarrow>
            handle (is_dirty E (review_worktree_path R)) (\<lambda>_. ret (EventReviewFailed, c)) (\<lambda>dirty.
              if dirty then ret (EventReviewFailed, c)
              else do {
                n \<leftarrow> count_review_submitted_events E;
                let c1 = c\<lparr>rc_round := n\<rparr>;
                    c2 = (if rc_in_merge_rereview c1
                          then c1\<lparr>rc_merge_rereview_round := rc_merge_rereview_round c1 + 1\<rparr> else c1)
                in reviewer_verdict_event E R c2 (rr_head_sha rnd)
              }))
     }"

definition step_run_reviewer :: "env \<Rightarrow> rconfig \<Rightarrow> handler" where
  "step_run_reviewer E R c0 =
     do {
       prepared \<leftarrow> prepare_reviewer_worktree E R (rc_reviewer_worktree_exists c0);
       if \<not> prepared then ret (EventReviewFailed, c0)
       else
         let c = c0\<lparr>rc_reviewer_worktree_exists := True\<rparr>
         in handle (prepare_reviewer_round E R) (\<lambda>_. ret (EventReviewFailed, c)) (\<lambda>rnd.
              do {
                att \<leftarrow> reviewer_attempts E R c (rr_pr rnd) (rr_round rnd) maxReviewerAttempts 0 None None;
                (case att of Inl (ev, c') \<Rightarrow> ret (ev, c')
                 | Inr final \<Rightarrow> conclude_review E R c final rnd)
              })
     }"

section \<open>MERGE_PR\<close>

definition map_merge_pr_outcome :: "string \<Rightarrow> event_key" where
  "map_merge_pr_outcome outcome =
     (if outcome = outcomeSuccess then EventMerged else EventMergeFailed)"

definition step_merge_pr :: "env \<Rightarrow> rconfig \<Rightarrow> handler" where
  "step_merge_pr E R c =
     (if rc_pr_state c = ''MERGED'' then ret (EventMerged, c)
      else do {
        outcome \<leftarrow> run_merge_phase E R;
        ret (if outcome = outcomeConflictResolved
             then (EventConflictResolved, c\<lparr>rc_in_merge_rereview := True\<rparr>)
             else if outcome = outcomeConflictUnresolved then (EventConflictUnresolved, c)
             else (map_merge_pr_outcome outcome, c))
      })"

section \<open>What the handlers add to the history\<close>

lemma grows_step_parts [grows]:
  "upholds history_grows (dev_invocation E R c)"
  "upholds history_grows (prepare_reviewer_round E R)"
  "upholds history_grows (reviewer_precheck_event E R c k res)"
  "upholds history_grows (check_freshness_and_submit E R final rnd)"
  "upholds history_grows (reviewer_verdict_event E R c sha)"
  unfolding dev_invocation_def prepare_reviewer_round_def reviewer_precheck_event_def
    check_freshness_and_submit_def reviewer_verdict_event_def Let_def
  by (intro grows)+

lemma grows_reviewer_attempts [grows]:
  "upholds history_grows (reviewer_attempts E R c pr k n a rej fin)"
proof (induction n arbitrary: a rej fin)
  case 0
  show ?case by (simp, intro grows)
next
  case (Suc n)
  show ?case by (simp only: reviewer_attempts.simps, intro grows Suc.IH)
qed

lemma grows_conclude [grows]: "upholds history_grows (conclude_review E R c final rnd)"
  unfolding conclude_review_def Let_def by (intro grows)

lemma grows_steps [grows]:
  "upholds history_grows (step_prepare E R c)"
  "upholds history_grows (step_run_dev E R c)"
  "upholds history_grows (step_sync_ci E R c)"
  "upholds history_grows (step_run_reviewer E R c)"
  "upholds history_grows (step_merge_pr E R c)"
  unfolding step_prepare_def step_run_dev_def step_sync_ci_def step_run_reviewer_def step_merge_pr_def
    Let_def
  by (intro grows)+

lemma calls_step_parts [emits]:
  assumes "quiet A" and "allows_writes A"
  shows "upholds (only_calls A) (prepare_reviewer_round E R)"
    and "upholds (only_calls A) (reviewer_precheck_event E R c k res)"
    and "upholds (only_calls A) (check_freshness_and_submit E R final rnd)"
    and "upholds (only_calls A) (reviewer_verdict_event E R c sha)"
  unfolding prepare_reviewer_round_def reviewer_precheck_event_def
    check_freshness_and_submit_def reviewer_verdict_event_def Let_def
  by (intro emits assms)+

lemma calls_dev_invocation [emits]:
  assumes "quiet A" and "allows_writes A" and "allows_agents A"
  shows "upholds (only_calls A) (dev_invocation E R c)"
  unfolding dev_invocation_def by (intro emits assms; simp add: quietD [OF assms(1)])

lemma calls_reviewer_attempts [emits]:
  assumes "quiet A" and "allows_writes A" and "allows_agents A"
  shows "upholds (only_calls A) (reviewer_attempts E R c pr k n a rej fin)"
proof (induction n arbitrary: a rej fin)
  case 0
  show ?case by (simp, intro emits)
next
  case (Suc n)
  show ?case by (simp only: reviewer_attempts.simps, intro emits assms Suc.IH)
qed

lemma calls_conclude [emits]:
  assumes "quiet A" and "allows_writes A"
  shows "upholds (only_calls A) (conclude_review E R c final rnd)"
  unfolding conclude_review_def Let_def by (intro emits assms)

lemma calls_steps [emits]:
  assumes "quiet A" and "allows_writes A" and "allows_agents A"
  shows "upholds (only_calls A) (step_prepare E R c)"
    and "upholds (only_calls A) (step_run_dev E R c)"
    and "upholds (only_calls A) (step_sync_ci E R c)"
    and "upholds (only_calls A) (step_run_reviewer E R c)"
  unfolding step_prepare_def step_run_dev_def step_sync_ci_def step_run_reviewer_def Let_def
  by (intro emits assms)+

lemma step_merge_guarded [guards]: "upholds keeps_guard (step_merge_pr E R c)"
  unfolding step_merge_pr_def by (intro guards)

section \<open>Which events a handler can return\<close>

definition step_events :: "step_key \<Rightarrow> event_key list" where
  "step_events s =
     (case s of
        StepPrepare \<Rightarrow> [EventNotEligible, EventPrepareFailed, EventReady]
      | StepRunDev \<Rightarrow> [EventDevDone, EventDevGateRejected, EventDevFailed,
          EventAgentTimedOut, EventAgentStalled, EventAgentAborted]
      | StepSyncCI \<Rightarrow> [EventCIGreen, EventCIFailed, EventConflictUnresolved]
      | StepRunReviewer \<Rightarrow> [EventReviewApproved, EventChangesRequested, EventPrecheckFailed,
          EventReviewFailed, EventAgentTimedOut, EventAgentStalled, EventAgentAborted]
      | StepMergePR \<Rightarrow> [EventMerged, EventMergeFailed, EventConflictResolved, EventConflictUnresolved]
      | _ \<Rightarrow> [])"

text \<open>The fields no handler changes, and those only \<open>PREPARE\<close> changes.\<close>

definition same_config :: "run_ctx \<Rightarrow> run_ctx \<Rightarrow> bool" where
  "same_config c c' \<longleftrightarrow>
     rc_max_rounds c' = rc_max_rounds c \<and> rc_resume c' = rc_resume c \<and>
     rc_max_merge_rereview_rounds c' = rc_max_merge_rereview_rounds c"

definition same_resume :: "run_ctx \<Rightarrow> run_ctx \<Rightarrow> bool" where
  "same_resume c c' \<longleftrightarrow>
     rc_resume_verdict c' = rc_resume_verdict c \<and> rc_prepare_fail_kind c' = rc_prepare_fail_kind c \<and>
     rc_worktree_create_failed c' = rc_worktree_create_failed c \<and> rc_pr_state c' = rc_pr_state c"

lemma same_valid: "same_resume c c' \<Longrightarrow> valid_ctx c \<Longrightarrow> valid_ctx c'"
  by (simp add: same_resume_def valid_ctx_def)

subsection \<open>RUN_DEV\<close>

definition dev_post :: "run_ctx \<Rightarrow> event_key \<times> run_ctx \<Rightarrow> bool" where
  "dev_post c r \<longleftrightarrow>
     fst r \<in> set (step_events StepRunDev) \<and> same_config c (snd r) \<and> same_resume c (snd r) \<and>
     rc_round (snd r) = rc_round c + (if retry_turn c then 1 else 0) \<and>
     rc_in_merge_rereview (snd r) = rc_in_merge_rereview c \<and>
     rc_merge_rereview_round (snd r) = rc_merge_rereview_round c \<and>
     rc_dev_mode (snd r) = rc_dev_mode c \<and>
     (fst r = EventDevDone \<longrightarrow> rc_dev_attempt (snd r) = 0) \<and>
     (fst r = EventDevGateRejected \<longrightarrow> rc_dev_attempt (snd r) = rc_dev_attempt c + 1) \<and>
     (fst r \<notin> {EventDevDone, EventDevGateRejected} \<longrightarrow> rc_dev_attempt (snd r) = rc_dev_attempt c)"

lemma dev_invocation_post:
  "ends (dev_invocation E R c') (\<lambda>r s. rc_round c' = rc_round c + (if retry_turn c then 1 else 0) \<and>
      same_config c c' \<and> same_resume c c' \<and> rc_in_merge_rereview c' = rc_in_merge_rereview c \<and>
      rc_merge_rereview_round c' = rc_merge_rereview_round c \<and> rc_dev_mode c' = rc_dev_mode c \<and>
      rc_dev_attempt c' = rc_dev_attempt c \<longrightarrow> dev_post c r)"
proof -
  have run: "ends (do {
         (ev, reason) \<leftarrow> run_dev_agent_with_prompt E R model p cbm (rc_round c') (rc_dev_attempt c');
         ret (if ev = EventDevDone then (EventDevDone, c'\<lparr>rc_dev_attempt := 0\<rparr>)
              else if ev = EventDevGateRejected
              then (EventDevGateRejected,
                    c'\<lparr>rc_gate_reason := reason, rc_dev_attempt := rc_dev_attempt c' + 1\<rparr>)
              else (ev, c')) })
      (\<lambda>r s. rc_round c' = rc_round c + (if retry_turn c then 1 else 0) \<and>
      same_config c c' \<and> same_resume c c' \<and> rc_in_merge_rereview c' = rc_in_merge_rereview c \<and>
      rc_merge_rereview_round c' = rc_merge_rereview_round c \<and> rc_dev_mode c' = rc_dev_mode c \<and>
      rc_dev_attempt c' = rc_dev_attempt c \<longrightarrow> dev_post c r)" for model p cbm
    by (rule ends_bind_via [OF run_dev_event])
      (auto simp: wp_return dev_event_def dev_post_def step_events_def same_config_def same_resume_def)
  show ?thesis
    unfolding dev_invocation_def
    apply (rule ends_handle)
     apply (rule ends_return, simp add: dev_post_def step_events_def)
    apply (rule ends_prod, rule ends_bind, rule ends_handle)
     apply (rule ends_return, simp add: dev_post_def step_events_def)
    apply (rule run)
    done
qed

lemma step_run_dev_post: "ends (step_run_dev E R c) (\<lambda>r s. dev_post c r)"
  unfolding step_run_dev_def
  by (intro ends_if ends_bind; rule ends_mono [OF dev_invocation_post [where c = c]])
    (simp_all add: same_config_def same_resume_def)

subsection \<open>SYNC_CI and MERGE_PR\<close>

lemma sync_outcome_event:
  "out \<in> {outcomeSuccess, outcomeDevFailed, outcomeConflictUnresolved} \<Longrightarrow>
     map_sync_ci_outcome out \<in> set (step_events StepSyncCI) \<and>
     (map_sync_ci_outcome out = EventCIGreen \<longleftrightarrow> out = outcomeSuccess)"
  by (auto simp: map_sync_ci_outcome_def agent_failure_event_def outcome_defs step_events_def)

lemma step_sync_ci_post:
  "ends (step_sync_ci E R c) (\<lambda>r s. snd r = c \<and> fst r \<in> set (step_events StepSyncCI) \<and>
     (fst r = EventCIGreen \<longrightarrow> green_tail s))"
proof -
  have gate: "ends (do { outcome \<leftarrow> run_pre_review_sync_gate E R pr; ret (map_sync_ci_outcome outcome, c) })
      (\<lambda>r s. snd r = c \<and> fst r \<in> set (step_events StepSyncCI) \<and> (fst r = EventCIGreen \<longrightarrow> green_tail s))" for pr
    by (rule ends_bind_via [OF sync_gate_ends])
      (use sync_outcome_event in \<open>auto simp: wp_return sync_result_def outcome_defs\<close>)
  show ?thesis
    unfolding step_sync_ci_def
    by (intro ends_bind [where m = "has_pr_opened_event E"] ends_if ends_handle ends_return gate)
      (simp_all add: step_events_def)
qed

definition merge_post :: "run_ctx \<Rightarrow> event_key \<times> run_ctx \<Rightarrow> bool" where
  "merge_post c r \<longleftrightarrow>
     fst r \<in> set (step_events StepMergePR) \<and>
     (if fst r = EventConflictResolved then snd r = c\<lparr>rc_in_merge_rereview := True\<rparr> else snd r = c)"

lemma step_merge_pr_post: "ends (step_merge_pr E R c) (\<lambda>r s. merge_post c r)"
proof -
  have phase: "ends (do { outcome \<leftarrow> run_merge_phase E R;
        ret (if outcome = outcomeConflictResolved
             then (EventConflictResolved, c\<lparr>rc_in_merge_rereview := True\<rparr>)
             else if outcome = outcomeConflictUnresolved then (EventConflictUnresolved, c)
             else (map_merge_pr_outcome outcome, c)) }) (\<lambda>r s. merge_post c r)"
    by (rule ends_bind_via [OF run_merge_phase_outcome])
      (auto simp: wp_return merge_post_def merge_outcome_def step_events_def map_merge_pr_outcome_def)
  show ?thesis
    unfolding step_merge_pr_def
    by (intro ends_if ends_return phase) (simp add: merge_post_def step_events_def)
qed

subsection \<open>PREPARE\<close>

definition prepare_post :: "run_ctx \<Rightarrow> event_key \<times> run_ctx \<Rightarrow> bool" where
  "prepare_post c r \<longleftrightarrow>
     fst r \<in> set (step_events StepPrepare) \<and> same_config c (snd r) \<and>
     (valid_ctx c \<longrightarrow> valid_ctx (snd r)) \<and>
     rc_in_merge_rereview (snd r) = rc_in_merge_rereview c \<and>
     rc_merge_rereview_round (snd r) = rc_merge_rereview_round c \<and>
     rc_dev_attempt (snd r) \<in> {0, rc_dev_attempt c}"

definition hydrate_post :: "run_ctx \<Rightarrow> bool \<times> run_ctx \<Rightarrow> rstate \<Rightarrow> bool" where
  "hydrate_post c r s \<longleftrightarrow>
     same_config c (snd r) \<and> rc_in_merge_rereview (snd r) = rc_in_merge_rereview c \<and>
     rc_merge_rereview_round (snd r) = rc_merge_rereview_round c \<and>
     rc_worktree_create_failed (snd r) = rc_worktree_create_failed c \<and>
     rc_dev_attempt (snd r) \<in> {0, rc_dev_attempt c} \<and>
     rc_prepare_fail_kind (snd r) \<in> {[], ''dev_failed'', ''escalated''} \<and>
     rc_resume_verdict (snd r) \<in> {rc_resume_verdict c, [], ''approved'', ''changes_requested''} \<and>
     (fst r \<longrightarrow> rc_prepare_fail_kind (snd r) = [] \<and>
        rc_resume_verdict (snd r) \<in> {[], ''approved'', ''changes_requested''})"

text \<open>What the parts of \<open>hydrateResume\<close> may assume of the context they get.\<close>

definition hydrating :: "run_ctx \<Rightarrow> run_ctx \<Rightarrow> bool" where
  "hydrating c d \<longleftrightarrow>
     same_config c d \<and> rc_in_merge_rereview d = rc_in_merge_rereview c \<and>
     rc_merge_rereview_round d = rc_merge_rereview_round c \<and>
     rc_worktree_create_failed d = rc_worktree_create_failed c \<and>
     rc_dev_attempt d = rc_dev_attempt c \<and> rc_prepare_fail_kind d = [] \<and>
     rc_resume_verdict d = rc_resume_verdict c"

lemmas hydrate_simps = hydrate_post_def hydrating_def same_config_def

lemma hydrate_failed: "hydrating c d \<Longrightarrow> hydrate_post c (False, d) s"
  by (simp add: hydrate_simps)

lemma hydrate_no_decision_post:
  "hydrating c d \<Longrightarrow> ends (hydrate_resume_no_decision E R d pr login) (hydrate_post c)"
  unfolding hydrate_resume_no_decision_def
  by (intro ends_bind ends_if ends_return) (simp_all add: hydrate_simps split: option.split)

lemma hydrate_changes_requested_post:
  assumes "hydrating c d"
  shows "ends (hydrate_resume_changes_requested E R d pr login rvs rv) (hydrate_post c)"
  unfolding hydrate_resume_changes_requested_def Let_def
  by (intro ends_bind ends_option ends_if ends_after ends_handle ends_prod ends_return)
    (use assms in \<open>simp add: hydrate_simps\<close>)+

lemma hydrate_approved_post:
  "hydrating c d \<Longrightarrow> ends (hydrate_resume_approved E R d pr rv) (hydrate_post c)"
  unfolding hydrate_resume_approved_def Let_def
  by (intro ends_bind ends_return) (simp add: hydrate_simps)

lemma hydrate_decision_post:
  assumes "hydrating c d"
  shows "ends (hydrate_resume_decision E R d pr login rvs) (hydrate_post c)"
  unfolding hydrate_resume_decision_def Let_def
  by (intro ends_if ends_return hydrate_changes_requested_post hydrate_approved_post hydrate_failed assms)

lemma hydrate_reviews_post:
  assumes "hydrating c d"
  shows "ends (hydrate_resume_reviews E R d pr login rvs) (hydrate_post c)"
  unfolding hydrate_resume_reviews_def Let_def
  by (intro ends_if hydrate_no_decision_post hydrate_decision_post)
    (use assms in \<open>simp add: hydrate_simps\<close>)+

lemma hydrate_open_post:
  assumes "hydrating c d"
  shows "ends (hydrate_open_resume E R d pr login) (hydrate_post c)"
  unfolding hydrate_open_resume_def
  by (intro ends_bind ends_option ends_handle ends_return hydrate_reviews_post hydrate_failed assms)

lemma hydrate_resume_post: "ends (hydrate_resume E R c) (hydrate_post c)"
proof -
  have d: "hydrating c (c\<lparr>rc_prepare_fail_kind := []\<rparr>)" by (simp add: hydrate_simps)
  have m: "ends (hydrate_merged_resume (c\<lparr>rc_prepare_fail_kind := []\<rparr>)) (hydrate_post c)"
    unfolding hydrate_merged_resume_def by (rule ends_return) (simp add: hydrate_simps)
  have "ends (case chk of ResumeFailed \<Rightarrow> ret (False, c\<lparr>rc_prepare_fail_kind := []\<rparr>)
         | ResumeMerged _ \<Rightarrow> hydrate_merged_resume (c\<lparr>rc_prepare_fail_kind := []\<rparr>)
         | ResumeOpen pr login \<Rightarrow> hydrate_open_resume E R (c\<lparr>rc_prepare_fail_kind := []\<rparr>) pr login)
      (hydrate_post c)" for chk
    by (cases chk) (simp_all add: m hydrate_open_post [OF d] ends_return hydrate_failed [OF d])
  then show ?thesis
    unfolding hydrate_resume_def Let_def by (intro ends_bind)
qed

lemma prepare_post_hydrated:
  assumes "hydrate_post c (ok, d) s"
  shows "prepare_post c (if ok then EventReady else EventPrepareFailed, d)"
proof -
  have v: "rc_resume_verdict d \<in> insert (rc_resume_verdict c) {[], ''approved'', ''changes_requested''}"
    and k: "rc_prepare_fail_kind d \<in> {[], ''dev_failed'', ''review_failed'', ''escalated''}"
    using assms unfolding hydrate_post_def by (simp, auto)
  have "valid_ctx c \<Longrightarrow> rc_resume_verdict d \<in> {[], ''approved'', ''changes_requested''}"
    using v unfolding valid_ctx_def by (cases "rc_resume_verdict d = rc_resume_verdict c") simp_all
  then have "valid_ctx c \<Longrightarrow> valid_ctx d" using k unfolding valid_ctx_def by simp
  then show ?thesis using assms by (simp add: prepare_post_def hydrate_post_def step_events_def)
qed

lemma prepare_post_simple:
  "prepare_post c (EventPrepareFailed, c)" "prepare_post c (EventNotEligible, c)"
  "prepare_post c (EventReady, c)"
  "prepare_post c (EventPrepareFailed, c\<lparr>rc_worktree_create_failed := True\<rparr>)"
  by (simp_all add: prepare_post_def step_events_def same_config_def valid_ctx_def)

lemma step_prepare_post: "ends (step_prepare E R c) (\<lambda>r s. prepare_post c r)"
proof -
  have hyd: "ends (do { (ok, c') \<leftarrow> hydrate_resume E R c;
        ret (if ok then EventReady else EventPrepareFailed, c') }) (\<lambda>r s. prepare_post c r)"
    by (rule ends_bind_via [OF hydrate_resume_post], split prod.split, intro allI impI)
      (simp only: wp_return, rule prepare_post_hydrated, simp)
  have fresh: "ends (do { incr_turn; t \<leftarrow> get_turn;
        err \<leftarrow> worktree_create E (r_repo_root R) (golemic_dir R) (r_run_id R) (r_issue_num R) ''golemic-dev'' t;
        ret (case err of Some _ \<Rightarrow> (EventPrepareFailed, c\<lparr>rc_worktree_create_failed := True\<rparr>)
             | None \<Rightarrow> (EventReady, c)) }) (\<lambda>r s. prepare_post c r)"
    by (intro ends_bind ends_return) (simp add: prepare_post_simple split: option.split)
  show ?thesis
    unfolding step_prepare_def
    apply (rule ends_if, rule ends_return, rule prepare_post_simple)
    apply (rule ends_bind, rule ends_option)
     apply (rule ends_if, rule ends_handle, rule ends_return, rule prepare_post_simple)
      apply (rule ends_option, rule fresh, rule ends_return, rule prepare_post_simple)
     apply (rule hyd)
    apply (rule ends_return, rule prepare_post_simple)
    done
qed

end
