(* ===== verification/Review_Step.thy ===== *)
theory Review_Step
  imports Steps
begin

text \<open>
  What \<open>stepRunReviewer\<close> guarantees: the events it returns and the fields it leaves alone; that
  an approval rests on a valid review event of the round and commit it asked for; and, when the
  log can be read, that no verdict is acted on unless a review was recorded in the same step.
\<close>

section \<open>Events and fields\<close>

definition review_post :: "run_ctx \<Rightarrow> event_key \<times> run_ctx \<Rightarrow> bool" where
  "review_post c r \<longleftrightarrow>
     fst r \<in> set (step_events StepRunReviewer) \<and> same_config c (snd r) \<and> same_resume c (snd r) \<and>
     rc_in_merge_rereview (snd r) = rc_in_merge_rereview c \<and>
     rc_dev_attempt (snd r) \<in> {0, rc_dev_attempt c}"

lemmas review_simps = review_post_def same_config_def same_resume_def step_events_def

lemma review_post_event: "e \<in> set (step_events StepRunReviewer) \<Longrightarrow> review_post c (e, c)"
  by (simp add: review_simps)

lemma review_failed: "review_post c (EventReviewFailed, c)"
  by (simp add: review_simps)

lemma review_post_trans:
  "review_post c (e, d) \<Longrightarrow> review_post d r \<Longrightarrow> review_post c r"
  by (auto simp: review_post_def same_config_def same_resume_def)

lemma review_post_counted:
  "review_post c (e, d) \<Longrightarrow>
     review_post c (e, if b then d\<lparr>rc_merge_rereview_round := k\<rparr> else d)"
  "review_post c (e, d) \<Longrightarrow> review_post c (e, d\<lparr>rc_round := n\<rparr>)"
  by (simp_all add: review_post_def same_config_def same_resume_def)

lemma verdict_event_post: "ends (reviewer_verdict_event E R c sha) (\<lambda>r s. review_post c r)"
  unfolding reviewer_verdict_event_def
  by (intro ends_handle ends_if ends_after ends_return) (simp_all add: review_simps)

lemma precheck_event_post: "ends (reviewer_precheck_event E R c k res) (\<lambda>r s. review_post c r)"
  unfolding reviewer_precheck_event_def Let_def
  by (intro ends_bind ends_option ends_if ends_after ends_return) (simp_all add: review_simps)

lemma agent_outcome_event:
  "reviewer_agent_outcome_to_event out \<in> set (step_events StepRunReviewer)"
  by (simp add: reviewer_agent_outcome_to_event_def agent_failure_event_def step_events_def)

lemma reviewer_attempts_post:
  "ends (reviewer_attempts E R c pr k n a rej fin)
     (\<lambda>r s. case r of Inl ec \<Rightarrow> review_post c ec | Inr _ \<Rightarrow> True)"
proof (induction n arbitrary: a rej fin)
  case 0
  show ?case by (simp add: ends_return)
next
  case (Suc n)
  have pre: "ends (do { ec \<leftarrow> reviewer_precheck_event E R c k res; ret (Inl ec) })
      (\<lambda>r s. case r of Inl ec \<Rightarrow> review_post c ec | Inr _ \<Rightarrow> True)" for res
    by (rule ends_bind_via [OF precheck_event_post]) (simp add: wp_return)
  show ?case
    unfolding reviewer_attempts.simps
    by (intro ends_bind [where m = "if b then sweep_pending_reviews E R pr else ret None" for b]
        ends_option ends_handle ends_prod ends_if pre Suc.IH ends_return
        ends_bind [where m = "run_reviewer_agent E R k a b m" for a b m])
      (simp_all add: review_failed review_post_event agent_outcome_event)
qed

lemma conclude_review_post: "ends (conclude_review E R c final rnd) (\<lambda>r s. review_post c r)"
proof -
  have v: "ends (reviewer_verdict_event E R
      (if b then c\<lparr>rc_round := n, rc_merge_rereview_round := k\<rparr> else c\<lparr>rc_round := n\<rparr>) sha)
      (\<lambda>r s. review_post c r)" for b n k sha
    by (rule ends_mono [OF verdict_event_post])
      (auto simp: review_post_def same_config_def same_resume_def split: if_splits)
  show ?thesis
    unfolding conclude_review_def Let_def
    by (intro ends_bind ends_option ends_handle ends_if ends_return)
      (use v [where b = "rc_in_merge_rereview c"] in \<open>simp_all add: review_failed\<close>)
qed

lemma step_run_reviewer_post: "ends (step_run_reviewer E R c) (\<lambda>r s. review_post c r)"
proof -
  let ?d = "c\<lparr>rc_reviewer_worktree_exists := True\<rparr>"
  have d: "review_post c (EventReviewFailed, ?d)" by (simp add: review_simps)
  have att: "ends (do {
        att \<leftarrow> reviewer_attempts E R ?d pr k n a rej fin;
        (case att of Inl (ev, c') \<Rightarrow> ret (ev, c') | Inr final \<Rightarrow> conclude_review E R ?d final rnd) })
      (\<lambda>r s. review_post c r)" for pr k n a rej fin rnd
  proof (rule ends_bind_via [OF reviewer_attempts_post])
    fix r :: "(event_key \<times> run_ctx) + reviewer_state option" and s :: rstate
    assume post: "case r of Inl ec \<Rightarrow> review_post ?d ec | Inr _ \<Rightarrow> True"
    show "wp (case r of Inl (ev, c') \<Rightarrow> ret (ev, c') | Inr final \<Rightarrow> conclude_review E R ?d final rnd)
        (\<lambda>r s. review_post c r) s"
    proof (cases r)
      case (Inl ec)
      with post show ?thesis using review_post_trans [OF d] by (cases ec) (simp add: wp_return)
    next
      case (Inr final)
      then show ?thesis
        using endsD [OF ends_mono [OF conclude_review_post review_post_trans [OF d]]] by simp
    qed
  qed
  show ?thesis
    unfolding step_run_reviewer_def Let_def
    by (intro ends_bind [where m = "prepare_reviewer_worktree E R b" for b] ends_if ends_handle att ends_return)
      (simp_all add: d review_failed)
qed

section \<open>An approval rests on a review\<close>

text \<open>
  A valid review event of the log with that verdict, for the round and the commit asked for. A
  round of 0 and an empty commit are not compared, as in \<open>latestReviewVerdict\<close>.
\<close>

definition backed :: "event list \<Rightarrow> string \<Rightarrow> int \<Rightarrow> string \<Rightarrow> bool" where
  "backed log verdict round sha \<longleftrightarrow>
     list_ex (\<lambda>e. is_review e \<and> validate_review_submitted (ev_payload e) = None \<and>
        payload_field (get_str ''verdict'') (ev_payload e) = Inr verdict \<and>
        (if round > 0 \<or> sha \<noteq> [] then review_event_matches_criteria (ev_payload e) round sha else True))
      log"

lemma latest_verdict_backed: "latest_verdict_in log round sha = Inr v \<Longrightarrow> backed log v round sha"
  using latest_verdict_in_Inr [of log round sha v] unfolding backed_def list_ex_iff by auto

text \<open>The head commit a call reported, and the calls that reported a clean reviewer worktree.\<close>

definition head_answer :: "call \<Rightarrow> string option" where
  "head_answer c =
     (case c of
        CExec (Cmd _ _ argv) (Inr out) \<Rightarrow>
          if take 3 argv = [''gh'', ''pr'', ''view''] \<and> drop 4 argv = [''--json'', ''headRefOid'', ''--jq'', ''.headRefOid'']
          then Some (trim_space out) else None
      | _ \<Rightarrow> None)"

definition clean_answer :: "string \<Rightarrow> call \<Rightarrow> bool" where
  "clean_answer wt c \<longleftrightarrow>
     (case c of
        CExec (Cmd _ _ argv) (Inr out) \<Rightarrow>
          argv = [''git'', ''-C'', wt, ''status'', ''--porcelain''] \<and> trim_space out = []
      | _ \<Rightarrow> False)"

text \<open>The calls made between two states of a run.\<close>

definition new_calls :: "rstate \<Rightarrow> rstate \<Rightarrow> call list" where
  "new_calls s t = drop (length (rs_trace s)) (rs_trace t)"

definition seen :: "(call \<Rightarrow> bool) \<Rightarrow> rstate \<Rightarrow> rstate \<Rightarrow> bool" where
  "seen P s t \<longleftrightarrow> list_ex P (new_calls s t)"

lemma seen_later: "seen P s t \<Longrightarrow> history_grows s t \<Longrightarrow> history_grows t u \<Longrightarrow> seen P s u"
  by (auto simp: seen_def new_calls_def history_grows_def list_ex_iff)

lemma seen_earlier: "seen P t u \<Longrightarrow> history_grows s t \<Longrightarrow> history_grows t u \<Longrightarrow> seen P s u"
  by (auto simp: seen_def new_calls_def history_grows_def list_ex_iff)

text \<open>Sequencing that keeps what is known of the history so far.\<close>

lemma wp_bind_grows:
  assumes "wp m P s" and "upholds history_grows m"
    and "\<And>a t. P a t \<Longrightarrow> history_grows s t \<Longrightarrow> wp (f a) Q t"
  shows "wp (State_Monad.bind m f) Q s"
  using assms(1) assms(3) upholdsD [OF assms(2), of s] unfolding wp_bind by (simp add: wp_def)

lemma wp_handle_grows:
  assumes "wp m P s" and "upholds history_grows m"
    and "\<And>e t. P (Inl e) t \<Longrightarrow> history_grows s t \<Longrightarrow> wp (h e) Q t"
    and "\<And>v t. P (Inr v) t \<Longrightarrow> history_grows s t \<Longrightarrow> wp (k v) Q t"
  shows "wp (handle m h k) Q s"
  unfolding handle_def
proof (rule wp_bind_grows [OF assms(1,2)])
  fix a t
  assume "P a t" and "history_grows s t"
  with assms(3,4) show "wp (case a of Inl e \<Rightarrow> h e | Inr v \<Rightarrow> k v) Q t" by (cases a) auto
qed

lemma wp_mono_grows:
  "wp m P s \<Longrightarrow> upholds history_grows m \<Longrightarrow>
     (\<And>a t. P a t \<Longrightarrow> history_grows s t \<Longrightarrow> Q a t) \<Longrightarrow> wp m Q s"
  using upholdsD [of history_grows m s] by (simp add: wp_def)

lemma head_sha_seen:
  "wp (get_pr_head_sha E R pr)
     (\<lambda>r t. case r of Inr sha \<Rightarrow> seen (\<lambda>c. head_answer c = Some sha) s t | Inl _ \<Rightarrow> True) s"
  by (simp add: wp_def get_pr_head_sha_def op_defs run_prims seen_def new_calls_def head_answer_def
      split: sum.split)

lemma clean_seen:
  "wp (is_dirty E wt)
     (\<lambda>r t. case r of Inr dirty \<Rightarrow> dirty \<or> seen (clean_answer wt) s t | Inl _ \<Rightarrow> True) s"
  by (simp add: wp_def is_dirty_def op_defs run_prims seen_def new_calls_def clean_answer_def
      split: sum.split)

text \<open>What holds when \<open>stepRunReviewer\<close> reports an approval.\<close>

definition approval :: "rconfig \<Rightarrow> rstate \<Rightarrow> event_key \<times> run_ctx \<Rightarrow> rstate \<Rightarrow> bool" where
  "approval R s r t \<longleftrightarrow>
     list_ex (clean_answer (review_worktree_path R)) (new_calls s t) \<and>
     list_ex (\<lambda>c. case head_answer c of None \<Rightarrow> False
                | Some sha \<Rightarrow> backed (rs_log t) ''approved'' (rc_round (snd r)) sha) (new_calls s t)"

lemma approvalI:
  "seen (clean_answer (review_worktree_path R)) s t \<Longrightarrow> seen (\<lambda>c. head_answer c = Some sha) s t \<Longrightarrow>
     backed (rs_log t) ''approved'' (rc_round (snd r)) sha \<Longrightarrow> approval R s r t"
  unfolding approval_def seen_def list_ex_iff by (elim bexE) (intro conjI; erule (1) bexI [rotated] | force)

lemma verdict_event_backed:
  "ends (reviewer_verdict_event E R c sha)
     (\<lambda>r t. fst r = EventReviewApproved \<longrightarrow> backed (rs_log t) ''approved'' (rc_round (snd r)) sha)"
proof -
  have v: "ends (latest_review_verdict E (rc_round c) sha)
      (\<lambda>r t. case r of Inr v \<Rightarrow> backed (rs_log t) v (rc_round c) sha | Inl _ \<Rightarrow> True)"
    by (auto simp: ends_def wp_def latest_review_verdict_def run_prims latest_verdict_backed
        split: sum.split)
  have fail: "ends m (\<lambda>r t. fst r \<noteq> EventReviewApproved) \<Longrightarrow> wp m (\<lambda>r t. fst r = EventReviewApproved \<longrightarrow>
      backed (rs_log t) ''approved'' (rc_round (snd r)) sha) s" for m s
    by (simp add: ends_def wp_def)
  show ?thesis
    unfolding reviewer_verdict_event_def
    by (rule ends_handle_via [OF v])
      (auto simp: wp_return intro!: fail ends_after ends_handle ends_if ends_return)
qed

lemma conclude_approval:
  "wp (conclude_review E R c final rnd)
     (\<lambda>r t. fst r = EventReviewApproved \<longrightarrow>
        seen (clean_answer (review_worktree_path R)) s t \<and>
        backed (rs_log t) ''approved'' (rc_round (snd r)) (rr_head_sha rnd)) s"
proof -
  let ?Q = "\<lambda>r t. fst r = EventReviewApproved \<longrightarrow>
        seen (clean_answer (review_worktree_path R)) s t \<and>
        backed (rs_log t) ''approved'' (rc_round (snd r)) (rr_head_sha rnd)"
  have verdict: "wp (reviewer_verdict_event E R d (rr_head_sha rnd)) ?Q t"
    if "seen (clean_answer (review_worktree_path R)) s t" "history_grows s t" for d t
    using endsD [OF verdict_event_backed [of E R d "rr_head_sha rnd"], of t]
      seen_later [OF that upholdsD [OF grows_step_parts(5)]]
    by (simp add: wp_def)
  have count: "wp (do { n \<leftarrow> count_review_submitted_events E; reviewer_verdict_event E R (f n) (rr_head_sha rnd) }) ?Q t"
    if "seen (clean_answer (review_worktree_path R)) s t" "history_grows s t" for f t
    by (rule wp_bind_grows [OF wp_true])
      (auto intro: grows verdict seen_later [OF that] grows.rel_trans [OF that(2)])
  show ?thesis
    unfolding conclude_review_def Let_def
    apply (rule wp_bind_grows [OF wp_true], intro grows)
    subgoal for err t
      apply (cases err; simp add: wp_return)
      apply (rule wp_handle_grows [OF clean_seen], intro grows)
       apply (simp add: wp_return)
      apply (auto simp: wp_return intro!: count intro: seen_earlier grows.rel_trans)
      done
    done
qed

lemma prepare_round_seen:
  "wp (prepare_reviewer_round E R)
     (\<lambda>r t. case r of Inr rnd \<Rightarrow> seen (\<lambda>c. head_answer c = Some (rr_head_sha rnd)) s t
          | Inl _ \<Rightarrow> True) s"
  unfolding prepare_reviewer_round_def
  apply (rule wp_handle_grows [OF wp_true], intro grows)
   apply (simp add: wp_return)
  apply (rule wp_handle_grows [OF head_sha_seen], intro grows)
   apply (simp add: wp_return)
  apply (rule wp_bind_grows [OF wp_true], intro grows)
  apply (auto simp: wp_return intro: seen_earlier seen_later grows.rel_trans)
  done

lemma attempts_not_approved:
  "ends (reviewer_attempts E R c pr k n a rej fin)
     (\<lambda>r s. case r of Inl ec \<Rightarrow> fst ec \<noteq> EventReviewApproved | Inr _ \<Rightarrow> True)"
proof (induction n arbitrary: a rej fin)
  case 0
  show ?case by (simp add: ends_return)
next
  case (Suc n)
  have ev: "reviewer_agent_outcome_to_event out \<noteq> EventReviewApproved" for out
    by (simp add: reviewer_agent_outcome_to_event_def agent_failure_event_def)
  have pe: "ends (reviewer_precheck_event E R c k res) (\<lambda>r s. fst r \<noteq> EventReviewApproved)" for res
    unfolding reviewer_precheck_event_def Let_def
    by (intro ends_bind ends_option ends_if ends_after ends_return) simp_all
  have pre: "ends (do { ec \<leftarrow> reviewer_precheck_event E R c k res; ret (Inl ec) })
      (\<lambda>r s. case r of Inl ec \<Rightarrow> fst ec \<noteq> EventReviewApproved | Inr _ \<Rightarrow> True)" for res
    by (rule ends_bind_via [OF pe]) (simp add: wp_return)
  show ?case
    unfolding reviewer_attempts.simps
    by (intro ends_bind [where m = "if b then sweep_pending_reviews E R pr else ret None" for b]
        ends_option ends_handle ends_prod ends_if pre Suc.IH ends_return
        ends_bind [where m = "run_reviewer_agent E R k a b m" for a b m])
      (simp_all add: ev)
qed

lemma step_reviewer_approval:
  "wp (step_run_reviewer E R c) (\<lambda>r t. fst r = EventReviewApproved \<longrightarrow> approval R s r t) s"
  unfolding step_run_reviewer_def Let_def
  apply (rule wp_bind_grows [OF wp_true], intro grows)
  subgoal for ok t
    apply (cases ok; simp add: wp_return)
    apply (rule wp_handle_grows [OF prepare_round_seen], intro grows)
     apply (simp add: wp_return)
    subgoal for rnd u
      apply (rule wp_bind_grows [OF endsD [OF attempts_not_approved]], intro grows)
      subgoal for att v
        apply (cases att; simp add: wp_return split: prod.split)
        apply (rule wp_mono_grows [OF conclude_approval], intro grows)
        apply (auto intro!: approvalI [where sha = "rr_head_sha rnd"]
            intro: seen_earlier seen_later grows.rel_trans)
        done
      done
    done
  done

section \<open>No verdict without a fresh review\<close>

text \<open>The log can always be read.\<close>

definition log_readable :: "env \<Rightarrow> bool" where
  "log_readable E \<longleftrightarrow> (\<forall>tr. e_log_readable E tr)"

abbreviation reviews :: "rstate \<Rightarrow> int" where
  "reviews s \<equiv> count_reviews (rs_log s)"

lemma reviews_grow: "history_grows s t \<Longrightarrow> reviews s \<le> reviews t"
  by (auto dest: history_prefix intro: count_reviews_prefix)

lemma count_readable:
  "log_readable E \<Longrightarrow> wp (count_review_submitted_events E) (\<lambda>n t. n = reviews s \<and> rs_log t = rs_log s) s"
  by (simp add: wp_def count_review_submitted_events_def run_prims log_readable_def)

lemma append_review_counts:
  "wp (append_event E R EventReviewSubmitted p) (\<lambda>r t. r = None \<longrightarrow> reviews t = reviews s + 1) s"
  by (auto simp: wp_def append_event_def write_run_event_def op_defs run_prims log_write_def
      fails_def count_reviews_def is_review_def split: option.splits if_splits)

text \<open>The events that speak of a verdict, and what they then say of the round.\<close>

definition verdict_events :: "event_key list" where
  "verdict_events = [EventReviewApproved, EventChangesRequested, EventPrecheckFailed]"

definition recorded :: "rstate \<Rightarrow> event_key \<times> run_ctx \<Rightarrow> rstate \<Rightarrow> bool" where
  "recorded s r t \<longleftrightarrow>
     (if fst r \<in> set verdict_events
      then reviews s < rc_round (snd r) \<and> rc_round (snd r) \<le> reviews t else True)"

lemma recorded_failed [simp]:
  "recorded s (EventReviewFailed, c) t" "recorded s (reviewer_agent_outcome_to_event out, c) t"
  by (simp_all add: recorded_def verdict_events_def reviewer_agent_outcome_to_event_def
      agent_failure_event_def)

lemma recorded_earlier: "recorded t r u \<Longrightarrow> history_grows s t \<Longrightarrow> recorded s r u"
  using reviews_grow [of s t] by (auto simp: recorded_def)

lemma recorded_at:
  "reviews s < rc_round (snd r) \<Longrightarrow> rc_round (snd r) \<le> reviews u \<Longrightarrow> history_grows u t \<Longrightarrow> recorded s r t"
  using reviews_grow [of u t] by (simp add: recorded_def)

lemma verdict_event_round: "ends (reviewer_verdict_event E R c sha) (\<lambda>r t. rc_round (snd r) = rc_round c)"
  unfolding reviewer_verdict_event_def
  by (intro ends_handle ends_if ends_after ends_return) simp_all

lemma precheck_recorded:
  assumes "log_readable E"
  shows "wp (reviewer_precheck_event E R c k res) (\<lambda>r t. recorded s r t) s"
proof -
  have rest: "wp m (\<lambda>r t. recorded s r t) u"
    if "ends m (\<lambda>r t. rc_round (snd r) = reviews u)" "upholds history_grows m" "reviews s < reviews u"
    for m :: "(event_key \<times> run_ctx) M" and u
    by (rule wp_mono_grows [OF endsD [OF that(1)] that(2)])
      (rule recorded_at [where u = u], use that(3) in simp_all)
  show ?thesis
    unfolding reviewer_precheck_event_def write_precheck_review_submitted_event_def Let_def
    apply (rule wp_bind_grows [OF append_review_counts], intro grows)
    subgoal for err t
      apply (cases err; simp add: wp_return)
      apply (rule wp_bind_grows [OF count_readable [OF assms]], intro grows)
      apply (rule rest)
        apply (intro ends_if ends_after ends_return; simp)
       apply (intro grows)
      apply simp
      done
    done
qed

lemma freshness_counts:
  assumes "log_readable E" and "rr_count_before rnd \<le> reviews s"
  shows "wp (check_freshness_and_submit E R final rnd)
    (\<lambda>r t. r = None \<longrightarrow> rr_count_before rnd < reviews t) s"
proof -
  have submit: "wp (submit_review_and_write_event E R final round sha)
      (\<lambda>r t. r = None \<longrightarrow> rr_count_before rnd < reviews t) t"
    if fresh: "has_broker_submit final \<or> rr_count_before rnd < reviews t" and t: "rr_count_before rnd \<le> reviews t"
    for round sha t
  proof (cases "has_broker_submit final")
    case False
    then have "submit_review_and_write_event E R final round sha = ret None"
      by (simp add: has_broker_submit_def submit_review_and_write_event_def split: option.splits)
    with False fresh show ?thesis by (simp add: wp_return)
  next
    case True
    then obtain st ps where "final = Some st" "rv_params st = Some ps"
      by (auto simp: has_broker_submit_def split: option.splits)
    then show ?thesis
      unfolding submit_review_and_write_event_def
      apply simp
      apply (rule wp_handle_grows [OF wp_true], intro grows, simp add: wp_return)
      apply (rule wp_handle_grows [OF wp_true], intro grows, simp add: wp_return)
      apply (rule wp_handle_grows [OF wp_true], intro grows, simp add: wp_return)
      subgoal for pr t1 pend t2 sub t3
        apply (cases sub, simp)
        apply (rule wp_bind_grows [OF append_review_counts], intro grows)
        subgoal for a b err t4
          apply (cases err; simp add: wp_return)
          apply (rule wp_mono_grows [OF wp_true], intro grows)
          using t reviews_grow [of t t1] reviews_grow [of t1 t2] reviews_grow [of t2 t3] reviews_grow [of t4]
          by force
        done
      done
  qed
  show ?thesis
    unfolding check_freshness_and_submit_def
    apply (rule wp_bind_grows [OF count_readable [OF assms(1)]], intro grows)
    using assms(2) by (auto simp: wp_return intro!: submit)
qed

lemma conclude_recorded:
  assumes "log_readable E" and "reviews s \<le> rr_count_before rnd" and "rr_count_before rnd \<le> reviews u"
  shows "wp (conclude_review E R c final rnd) (\<lambda>r t. recorded s r t) u"
  unfolding conclude_review_def Let_def
  apply (rule wp_bind_grows [OF freshness_counts [OF assms(1,3)]], intro grows)
  subgoal for err t1
    apply (cases err; simp add: wp_return)
    apply (rule wp_handle_grows [OF wp_true], intro grows, simp add: wp_return)
    subgoal for dirty t2
      apply (cases dirty; simp add: wp_return)
      apply (rule wp_bind_grows [OF count_readable [OF assms(1)]], intro grows)
      subgoal for n t3
        apply (rule wp_mono_grows [OF endsD [OF verdict_event_round]], intro grows)
        apply (rule recorded_at [where u = t3])
        using assms(2) reviews_grow [of t1 t2] by auto
      done
    done
  done

lemma attempts_recorded:
  assumes "log_readable E"
  shows "wp (reviewer_attempts E R c pr k n a rej fin)
     (\<lambda>r t. case r of Inl ec \<Rightarrow> recorded s ec t | Inr _ \<Rightarrow> True) s"
proof (induction n arbitrary: a rej fin s)
  case 0
  show ?case by (simp add: wp_return)
next
  case (Suc n)
  have later: "wp (reviewer_attempts E R c pr k n a rej fin)
     (\<lambda>r t. case r of Inl ec \<Rightarrow> recorded s ec t | Inr _ \<Rightarrow> True) t" if "history_grows s t" for a rej fin t
    by (rule wp_mono [OF Suc.IH]) (auto split: sum.splits intro: recorded_earlier [OF _ that])
  have pre: "wp (do { ec \<leftarrow> reviewer_precheck_event E R c k res; ret (Inl ec) })
      (\<lambda>r t. case r of Inl ec \<Rightarrow> recorded s ec t | Inr _ \<Rightarrow> True) t" if "history_grows s t" for res t
    unfolding wp_bind wp_return
    by (rule wp_mono [OF precheck_recorded [OF assms]]) (auto intro: recorded_earlier [OF _ that])
  show ?case
    unfolding reviewer_attempts.simps
    apply (rule wp_bind_grows [OF wp_true], intro grows)
    subgoal for sw t1
      apply (cases sw; simp add: wp_return)
      apply (rule wp_handle_grows [OF wp_true], intro grows, simp add: wp_return)
      subgoal for br t2
        apply (cases br; simp, intro conjI impI)
         apply (rule pre, rule grows.rel_trans, assumption+)
        apply (rule wp_bind_grows [OF wp_true], intro grows)
        apply (auto simp: wp_return intro!: later)
         apply (meson grows.rel_trans)+
        done
      done
    done
qed

lemma prepare_round_counts:
  assumes "log_readable E"
  shows "wp (prepare_reviewer_round E R)
     (\<lambda>r t. case r of Inr rnd \<Rightarrow> reviews s \<le> rr_count_before rnd \<and> rr_count_before rnd \<le> reviews t
          | Inl _ \<Rightarrow> True) s"
  unfolding prepare_reviewer_round_def
  apply (rule wp_handle_grows [OF wp_true], intro grows, simp add: wp_return)
  apply (rule wp_handle_grows [OF wp_true], intro grows, simp add: wp_return)
  subgoal for pr t1 sha t2
    apply (rule wp_bind_grows [OF count_readable [OF assms]], intro grows)
    using reviews_grow [of s t1] reviews_grow [of t1 t2] by (simp add: wp_return)
  done

lemma step_reviewer_recorded:
  assumes "log_readable E"
  shows "wp (step_run_reviewer E R c) (\<lambda>r t. recorded s r t) s"
  unfolding step_run_reviewer_def Let_def
  apply (rule wp_bind_grows [OF wp_true], intro grows)
  subgoal for ok t
    apply (cases ok; simp add: wp_return)
    apply (rule wp_handle_grows [OF prepare_round_counts [OF assms]], intro grows)
     apply (simp add: wp_return)
    subgoal for rnd u
      apply (rule wp_bind_grows [OF attempts_recorded [OF assms]], intro grows)
      subgoal for att v
        apply (cases att; simp add: wp_return split: prod.split)
         apply (metis grows.rel_trans recorded_earlier)
        apply (rule conclude_recorded [OF assms])
        using reviews_grow [of s t] reviews_grow [of u v] by simp_all
      done
    done
  done

end
