(* ===== verification/Machine.thy ===== *)
theory Machine
  imports Review_Step
begin

text \<open>
  The machine of a run (\<open>machine.go\<close>) and its orchestration (\<open>runner.go\<close>): the five handlers and
  the table over a context that also carries the world and the number of the last transition, the
  observer that logs every transition, the outcome and exit code, and the \<open>run_finished\<close> event.
\<close>

section \<open>The machine\<close>

record loop_state =
  ls_ctx :: run_ctx
  ls_seq :: int
  ls_world :: rstate

definition lift_transition :: "run_ctx transition \<Rightarrow> loop_state transition" where
  "lift_transition t =
     \<lparr>t_from = t_from t, t_event = t_event t, t_to = t_to t,
      t_guard = map_option (\<lambda>g w. g (ls_ctx w)) (t_guard t)\<rparr>"

definition lift_handler :: "handler \<Rightarrow> loop_state \<Rightarrow> event_key \<times> loop_state" where
  "lift_handler h w =
     (case run_value (h (ls_ctx w)) (ls_world w) of
        (ev, c) \<Rightarrow> (ev, w\<lparr>ls_ctx := c, ls_world := final_state (h (ls_ctx w)) (ls_world w)\<rparr>))"

text \<open>The observer of \<open>runStepMachine\<close>; a failed write is dropped.\<close>

definition log_transition :: "env \<Rightarrow> rconfig \<Rightarrow> step_key \<Rightarrow> event_key \<Rightarrow> step_key \<Rightarrow> bool \<Rightarrow> int \<Rightarrow> gerr option M" where
  "log_transition E R f ev t guarded seq =
     do {
       turn \<leftarrow> get_turn;
       write_run_event E R EventStepTransition turn
         (marshal_step_transition (step_name f) (event_name ev) (step_name t) guarded seq)
     }"

definition observe ::
    "env \<Rightarrow> rconfig \<Rightarrow> step_key \<Rightarrow> event_key \<Rightarrow> step_key \<Rightarrow> bool \<Rightarrow> loop_state \<Rightarrow> loop_state" where
  "observe E R f ev t guarded w =
     w\<lparr>ls_seq := ls_seq w + 1,
       ls_world := final_state (log_transition E R f ev t guarded (ls_seq w + 1)) (ls_world w)\<rparr>"

definition handlers :: "env \<Rightarrow> rconfig \<Rightarrow> step_key \<Rightarrow> handler option" where
  "handlers E R s =
     (case s of
        StepPrepare \<Rightarrow> Some (step_prepare E R)
      | StepRunDev \<Rightarrow> Some (step_run_dev E R)
      | StepSyncCI \<Rightarrow> Some (step_sync_ci E R)
      | StepRunReviewer \<Rightarrow> Some (step_run_reviewer E R)
      | StepMergePR \<Rightarrow> Some (step_merge_pr E R)
      | _ \<Rightarrow> None)"

definition build_machine :: "env \<Rightarrow> rconfig \<Rightarrow> step_key \<Rightarrow> loop_state machine" where
  "build_machine E R start =
     \<lparr>m_transitions = map lift_transition loop_transitions,
      m_handlers = (\<lambda>s. map_option lift_handler (handlers E R s)),
      m_start = start,
      m_terminals = loop_terminals,
      m_observer = Some (observe E R)\<rparr>"

section \<open>Orchestration\<close>

text \<open>
  \<open>runStepMachine\<close>. The outer option is the run that does not return, the inner one the panic of
  \<open>terminalOutcome\<close>; a machine error is reported as a dev failure.
\<close>

definition run_step_machine ::
    "env \<Rightarrow> rconfig \<Rightarrow> run_ctx \<Rightarrow> rstate \<Rightarrow> ((string \<times> int) option \<times> rstate) option" where
  "run_step_machine E R c s =
     (case machine_run (build_machine E R StepPrepare) \<lparr>ls_ctx = c, ls_seq = 0, ls_world = s\<rparr> of
        None \<Rightarrow> None
      | Some ((final, err), w) \<Rightarrow>
          Some (terminal_outcome (if err = None then final else StepTerminalDevFailed), ls_world w))"

definition clean_success_worktrees :: "env \<Rightarrow> rconfig \<Rightarrow> unit M" where
  "clean_success_worktrees E R =
     do {
       _ \<leftarrow> worktree_cleanup E (r_repo_root R) (golemic_dir R) (r_issue_num R);
       _ \<leftarrow> worktree_cleanup_reviewer E (r_repo_root R) (golemic_dir R) (r_issue_num R);
       _ \<leftarrow> remove_all E (path_join [golemic_dir R, ''cbm'', ''issue-'' @ itoa (r_issue_num R)]);
       ret ()
     }"

text \<open>\<open>tokenUsage\<close> is left out when no invocation was recorded (\<open>omitempty\<close>).\<close>

definition run_finished_payload :: "string \<Rightarrow> invocation_usage list \<Rightarrow> json" where
  "run_finished_payload outcome log =
     JObj ([(''outcome'', JStr outcome)] @
           (if log = [] then [] else [(''tokenUsage'', aggregate_json log)]))"

text \<open>What \<open>orchestrateRun\<close> does after the machine.\<close>

definition finish_run :: "env \<Rightarrow> rconfig \<Rightarrow> string \<Rightarrow> gerr option M" where
  "finish_run E R outcome =
     after (if outcome = outcomeSuccess then clean_success_worktrees E R else ret ())
       (do {
          usage \<leftarrow> get_usage;
          turn \<leftarrow> get_turn;
          write_run_event E R EventRunFinished turn (run_finished_payload outcome usage)
        })"

text \<open>\<open>orchestrateRun\<close>: the exit code and the state, or no return, or the panic.\<close>

definition orchestrate_run :: "env \<Rightarrow> rconfig \<Rightarrow> rstate \<Rightarrow> (int option \<times> rstate) option" where
  "orchestrate_run E R s =
     (case run_step_machine E R (initial_ctx (r_max_review_rounds R) (r_resume R)) s of
        None \<Rightarrow> None
      | Some (None, t) \<Rightarrow> Some (None, t)
      | Some (Some (outcome, code), t) \<Rightarrow> Some (Some code, final_state (finish_run E R outcome) t))"

text \<open>
  The part of \<open>initRun\<close> that follows the loading of the configuration: the \<open>run_started\<close> event
  (\<open>setupEventWriter\<close>) and the issue. \<open>Inl\<close> is the exit code.
\<close>

definition setup_event_writer :: "env \<Rightarrow> rconfig \<Rightarrow> gerr option M" where
  "setup_event_writer E R =
     do {
       turn \<leftarrow> get_turn;
       write_run_event E R EventRunStarted turn
         (JObj [(''issue'', jint (r_issue_num R)), (''runId'', JStr (r_run_id R))])
     }"

definition init_run :: "env \<Rightarrow> rconfig \<Rightarrow> (int + rconfig) M" where
  "init_run E R =
     do {
       err \<leftarrow> setup_event_writer E R;
       (case err of
          Some _ \<Rightarrow> ret (Inl 1)
        | None \<Rightarrow>
            handle (load_issue E R) (\<lambda>_. ret (Inl 1)) (\<lambda>issue.
              ret (Inr (R\<lparr>r_issue_title := is_title issue, r_issue_labels := is_labels issue,
                          r_issue_state := is_state issue\<rparr>))))
     }"

definition runner_run :: "env \<Rightarrow> rconfig \<Rightarrow> rstate \<Rightarrow> (int option \<times> rstate) option" where
  "runner_run E R s =
     (case run_value (init_run E R) s of
        Inl code \<Rightarrow> Some (Some code, final_state (init_run E R) s)
      | Inr R' \<Rightarrow> orchestrate_run E R' (final_state (init_run E R) s))"

section \<open>Lifting the table\<close>

lemma lift_simps [simp]:
  "t_from (lift_transition t) = t_from t" "t_event (lift_transition t) = t_event t"
  "t_to (lift_transition t) = t_to t" "guard_holds (lift_transition t) w = guard_holds t (ls_ctx w)"
  by (simp_all add: lift_transition_def guard_holds_def split: option.split)

lemma machine_simps [simp]:
  "m_transitions (build_machine E R st) = map lift_transition loop_transitions"
  "m_handlers (build_machine E R st) s = map_option lift_handler (handlers E R s)"
  "m_start (build_machine E R st) = st" "m_terminals (build_machine E R st) = loop_terminals"
  "m_observer (build_machine E R st) = Some (observe E R)"
  by (simp_all add: build_machine_def)

lemma collect_lift:
  "collect_matches (build_machine E R st) s e w = map lift_transition (table_matches s e (ls_ctx w))"
  by (simp add: collect_matches_def table_matches_def filter_map comp_def)

lemma handlers_cases:
  "\<not> loop_terminals s \<Longrightarrow> \<exists>h. handlers E R s = Some h"
  by (cases s) (simp_all add: loop_terminals_def handlers_def)

text \<open>The events of \<open>step_events\<close> are in the table.\<close>

lemma step_events_in_table: "e \<in> set (step_events s) \<Longrightarrow> in_table s e"
  by (cases s) (auto simp: step_events_def in_table_iff)

section \<open>One iteration\<close>

text \<open>The state after a step: the handler's, then the observer's.\<close>

definition after_step :: "env \<Rightarrow> rconfig \<Rightarrow> step_key \<Rightarrow> loop_state \<Rightarrow> event_key \<times> run_ctx \<Rightarrow> rstate \<Rightarrow> step_key \<times> loop_state" where
  "after_step E R s w r t =
     (let s' = next_step s (fst r) (snd r);
          guarded = (t_guard (hd (table_matches s (fst r) (snd r))) \<noteq> None)
      in (s', observe E R s (fst r) s' guarded (w\<lparr>ls_ctx := snd r, ls_world := t\<rparr>)))"

lemma after_step_simps [simp]:
  "fst (after_step E R s w r t) = next_step s (fst r) (snd r)"
  "ls_ctx (snd (after_step E R s w r t)) = snd r"
  by (simp_all add: after_step_def Let_def observe_def)

lemma grows_log_transition [grows]: "upholds history_grows (log_transition E R f ev t g n)"
  unfolding log_transition_def by (intro grows)

lemma calls_log_transition [emits]:
  "allows_writes A \<Longrightarrow> upholds (only_calls A) (log_transition E R f ev t g n)"
  unfolding log_transition_def by (intro emits)

lemma after_step_world:
  "\<exists>f ev x g n. ls_world (snd (after_step E R s w r t)) = final_state (log_transition E R f ev x g n) t"
  by (simp add: after_step_def Let_def observe_def) blast

lemma after_step_grows: "history_grows t (ls_world (snd (after_step E R s w r t)))"
  using after_step_world [of E R s w r t] upholdsD [OF grows_log_transition] by metis

lemma dispatch_step:
  assumes "handlers E R s = Some h" and "\<not> loop_terminals s"
    and "run_value (h (ls_ctx w)) (ls_world w) = r" and "final_state (h (ls_ctx w)) (ls_world w) = t"
    and "valid_ctx (snd r)" and "fst r \<in> set (step_events s)"
  shows "dispatch (build_machine E R st) s w =
    (Next (fst (after_step E R s w r t)), snd (after_step E R s w r t))"
proof -
  obtain tr where one: "table_matches s (fst r) (snd r) = [tr]"
    using table_unique_aux [OF assms(5) step_events_in_table [OF assms(6)]]
    by (cases "table_matches s (fst r) (snd r)") auto
  have h: "lift_handler h w = (fst r, w\<lparr>ls_ctx := snd r, ls_world := t\<rparr>)"
    using assms(3,4) by (simp add: lift_handler_def split: prod.split)
  have g: "(t_guard (lift_transition tr) \<noteq> None) = (t_guard tr \<noteq> None)"
    by (simp add: lift_transition_def)
  show ?thesis
    using assms(1,2) g
    by (simp add: dispatch_def h collect_lift one after_step_def Let_def next_step_def)
qed

section \<open>The invariant of a run\<close>

text \<open>What every handler keeps, and what it tells of the event.\<close>

definition step_post :: "step_key \<Rightarrow> run_ctx \<Rightarrow> event_key \<times> run_ctx \<Rightarrow> bool" where
  "step_post s c r \<longleftrightarrow>
     fst r \<in> set (step_events s) \<and> same_config c (snd r) \<and> (valid_ctx c \<longrightarrow> valid_ctx (snd r)) \<and>
     (if s = StepRunDev \<and> fst r = EventDevGateRejected then rc_dev_attempt (snd r) = rc_dev_attempt c + 1
      else rc_dev_attempt (snd r) \<in> {0, rc_dev_attempt c}) \<and>
     (if s = StepMergePR \<and> fst r = EventConflictResolved then rc_in_merge_rereview (snd r)
      else rc_in_merge_rereview (snd r) = rc_in_merge_rereview c)"

lemma handler_post:
  assumes "handlers E R s = Some h"
  shows "ends (h c) (\<lambda>r t. step_post s c r)"
proof (cases s)
  case StepPrepare
  with assms have "h = step_prepare E R" by (simp add: handlers_def)
  with StepPrepare show ?thesis
    by (auto intro!: ends_mono [OF step_prepare_post] simp: prepare_post_def step_post_def)
next
  case StepRunDev
  with assms have "h = step_run_dev E R" by (simp add: handlers_def)
  with StepRunDev show ?thesis
    by (auto intro!: ends_mono [OF step_run_dev_post] simp: dev_post_def step_post_def intro: same_valid)
next
  case StepSyncCI
  with assms have "h = step_sync_ci E R" by (simp add: handlers_def)
  with StepSyncCI show ?thesis
    by (auto intro!: ends_mono [OF step_sync_ci_post] simp: step_post_def same_config_def)
next
  case StepRunReviewer
  with assms have "h = step_run_reviewer E R" by (simp add: handlers_def)
  with StepRunReviewer show ?thesis
    by (auto intro!: ends_mono [OF step_run_reviewer_post] simp: review_post_def step_post_def intro: same_valid)
next
  case StepMergePR
  with assms have "h = step_merge_pr E R" by (simp add: handlers_def)
  with StepMergePR show ?thesis
    by (auto intro!: ends_mono [OF step_merge_pr_post]
        simp: merge_post_def step_post_def same_config_def valid_ctx_def split: if_splits)
qed (use assms in \<open>simp_all add: handlers_def\<close>)

lemma handler_guarded:
  assumes "handlers E R s = Some h"
  shows "upholds keeps_guard (h c)"
proof -
  have "h \<in> {step_prepare E R, step_run_dev E R, step_sync_ci E R, step_run_reviewer E R, step_merge_pr E R}"
    using assms by (cases s) (auto simp: handlers_def)
  then show ?thesis
    using step_merge_guarded guard_no_merge [OF calls_steps(1) [OF no_merge_kinds]]
      guard_no_merge [OF calls_steps(2) [OF no_merge_kinds]] guard_no_merge [OF calls_steps(3) [OF no_merge_kinds]]
      guard_no_merge [OF calls_steps(4) [OF no_merge_kinds]]
    by blast
qed

lemma handler_grows:
  assumes "handlers E R s = Some h"
  shows "upholds history_grows (h c)"
  using assms grows_steps by (cases s) (auto simp: handlers_def)

text \<open>
  The context is valid, the attempts of the dev agent are between 0 and 3 and below 3 where it is
  run, and every merge call so far came right after a green answer.
\<close>

definition run_inv :: "step_key \<Rightarrow> loop_state \<Rightarrow> bool" where
  "run_inv s w \<longleftrightarrow>
     valid_ctx (ls_ctx w) \<and> 0 \<le> rc_dev_attempt (ls_ctx w) \<and> rc_dev_attempt (ls_ctx w) \<le> 3 \<and>
     (loop_terminals s \<or> rc_dev_attempt (ls_ctx w) < 3) \<and> merges_guarded (rs_trace (ls_world w))"

lemma gate_rejected_next:
  "next_step StepRunDev EventDevGateRejected c =
     (if rc_dev_attempt c < 3 then StepRunDev else StepTerminalDevFailed)"
  by (simp add: next_step_def table_matches_rows rows_dev)

lemma step_keeps_inv:
  assumes inv: "run_inv s w" and h: "handlers E R s = Some h" and nt: "\<not> loop_terminals s"
    and r: "run_value (h (ls_ctx w)) (ls_world w) = r" and t: "final_state (h (ls_ctx w)) (ls_world w) = t"
  shows "run_inv (fst (after_step E R s w r t)) (snd (after_step E R s w r t))"
proof -
  let ?w = "snd (after_step E R s w r t)"
  have post: "step_post s (ls_ctx w) r"
    using ends_value [OF handler_post [OF h], of "ls_ctx w" "ls_world w"] r by simp
  have "keeps_guard (ls_world w) t" using upholdsD [OF handler_guarded [OF h]] t by metis
  moreover have "keeps_guard t (ls_world ?w)"
    using after_step_world [of E R s w r t] upholdsD [OF guard_no_merge [OF calls_log_transition [OF no_merge_kinds(2)]]]
    by metis
  ultimately have "merges_guarded (rs_trace (ls_world ?w))"
    using inv by (simp add: run_inv_def keeps_guard_def)
  moreover have "s = StepRunDev \<and> fst r = EventDevGateRejected \<Longrightarrow>
      loop_terminals (next_step s (fst r) (snd r)) \<or> rc_dev_attempt (snd r) < 3"
    by (simp add: gate_rejected_next loop_terminals_def)
  ultimately show ?thesis
    using inv nt post unfolding run_inv_def step_post_def by (auto split: if_splits)
qed

interpretation runner: guarded_machine "build_machine E R st" run_inv for E R st
proof unfold_locales
  fix s w
  assume inv: "run_inv s w" and nt: "\<not> m_terminals (build_machine E R st) s"
  then have nt': "\<not> loop_terminals s" by simp
  obtain h where h: "handlers E R s = Some h" using handlers_cases [OF nt'] by blast
  let ?r = "run_value (h (ls_ctx w)) (ls_world w)" and ?t = "final_state (h (ls_ctx w)) (ls_world w)"
  have post: "step_post s (ls_ctx w) ?r" by (rule ends_value [OF handler_post [OF h]])
  have "valid_ctx (snd ?r)" "fst ?r \<in> set (step_events s)"
    using post inv by (simp_all add: step_post_def run_inv_def)
  from dispatch_step [OF h nt' refl refl this] step_keeps_inv [OF inv h nt' refl refl]
  show "\<exists>s' w'. dispatch (build_machine E R st) s w = (Next s' , w') \<and> run_inv s' w'" by blast
qed

section \<open>Termination\<close>

text \<open>
  A run need not return: after a merge conflict was resolved the PR is reviewed again, and an
  approval leads to the merge step, which may find a new conflict. \<open>main_still\<close> excludes that:
  the branch is never found behind \<open>origin/main\<close> (exit code 1 of \<open>git merge-base\<close>).
\<close>

definition main_still :: "env \<Rightarrow> bool" where
  "main_still E \<longleftrightarrow>
     (\<forall>tr dir. case e_exec E tr (Cmd [] dir [''git'', ''merge-base'', ''--is-ancestor'', ''origin/main'', ''HEAD'']) of
        Inl e \<Rightarrow> \<not> exit_code_is 1 e | Inr _ \<Rightarrow> True)"

lemma up_to_date_answer:
  assumes "main_still E"
  shows "ends (is_branch_up_to_date E wt) (\<lambda>r s. r \<noteq> Inr False)"
proof (rule endsI)
  fix s :: rstate
  have "case e_exec E (rs_trace s) (Cmd [] wt [''git'', ''merge-base'', ''--is-ancestor'', ''origin/main'', ''HEAD'']) of
      Inl e \<Rightarrow> \<not> exit_code_is 1 e | Inr _ \<Rightarrow> True"
    using assms unfolding main_still_def by blast
  then show "wp (is_branch_up_to_date E wt) (\<lambda>r s. r \<noteq> Inr False) s"
    by (auto simp: wp_def is_branch_up_to_date_def op_defs run_prims split: sum.splits)
qed

lemma merge_phase_no_conflict:
  assumes "main_still E"
  shows "ends (run_merge_phase E R) (\<lambda>r s. r \<noteq> outcomeConflictResolved)"
proof -
  have final: "ends m merge_final \<Longrightarrow> ends m (\<lambda>r s. r \<noteq> outcomeConflictResolved)" for m
    by (erule ends_mono) (auto simp: merge_final_def outcome_defs)
  have check: "ends (handle (is_branch_up_to_date E (dev_worktree_path R)) h
      (\<lambda>up_to_date. if up_to_date then merge_if_ci_green E R pr else rest))
      (\<lambda>r s. r \<noteq> outcomeConflictResolved)"
    if "\<And>e. ends (h e) merge_final" for h pr rest
    by (rule ends_handle_via [OF up_to_date_answer [OF assms]])
      (use that in \<open>auto intro: endsD final merge_green_final\<close>)
  show ?thesis
    unfolding run_merge_phase_def
    by (intro ends_handle [where m = "get_pr_number E"] ends_bind [where m = "evaluate_auto_merge_gate E"]
        ends_if ends_after ends_return check fail_merge_ends
        ends_handle [where m = "run_in_dir E d argv" for d argv] final [OF fail_merge_ends])
      (simp_all add: outcome_defs)
qed

lemma step_merge_no_conflict:
  assumes "main_still E"
  shows "ends (step_merge_pr E R c) (\<lambda>r s. fst r \<noteq> EventConflictResolved)"
proof -
  have phase: "ends (do { outcome \<leftarrow> run_merge_phase E R;
        ret (if outcome = outcomeConflictResolved
             then (EventConflictResolved, c\<lparr>rc_in_merge_rereview := True\<rparr>)
             else if outcome = outcomeConflictUnresolved then (EventConflictUnresolved, c)
             else (map_merge_pr_outcome outcome, c)) }) (\<lambda>r s. fst r \<noteq> EventConflictResolved)"
    by (rule ends_bind_via [OF merge_phase_no_conflict [OF assms]])
      (auto simp: wp_return map_merge_pr_outcome_def)
  show ?thesis unfolding step_merge_pr_def by (intro ends_if ends_return phase) simp
qed

text \<open>
  The measure: the review rounds that are left, then the step and the attempts left in it. A round
  that sends the work back to the dev agent has recorded a review.
\<close>

definition step_rank :: "step_key \<Rightarrow> int \<Rightarrow> nat" where
  "step_rank s attempt =
     (case s of
        StepPrepare \<Rightarrow> 10
      | StepRunDev \<Rightarrow> 4 + nat (3 - attempt)
      | StepSyncCI \<Rightarrow> 3
      | StepRunReviewer \<Rightarrow> 2
      | StepMergePR \<Rightarrow> 1
      | _ \<Rightarrow> 0)"

definition run_rank :: "step_key \<Rightarrow> loop_state \<Rightarrow> nat" where
  "run_rank s w =
     20 * nat (rc_max_rounds (ls_ctx w) - reviews (ls_world w)) + step_rank s (rc_dev_attempt (ls_ctx w))"

definition calm_inv :: "env \<Rightarrow> step_key \<Rightarrow> loop_state \<Rightarrow> bool" where
  "calm_inv E s w \<longleftrightarrow>
     run_inv s w \<and> log_readable E \<and> main_still E \<and> \<not> rc_in_merge_rereview (ls_ctx w)"

text \<open>Where a step can lead.\<close>

definition targets :: "step_key \<Rightarrow> event_key \<Rightarrow> step_key list" where
  "targets s e = map t_to (pair_rows s e)"

lemma next_step_target:
  assumes "valid_ctx c" and "e \<in> set (step_events s)"
  shows "next_step s e c \<in> set (targets s e)"
proof -
  obtain t where t: "table_matches s e c = [t]"
    using table_unique_aux [OF assms(1) step_events_in_table [OF assms(2)]]
    by (cases "table_matches s e c") auto
  then have "t \<in> set (pair_rows s e)" by (metis table_matches_rows filter_is_subset subsetD list.set_intros(1))
  with t show ?thesis by (simp add: next_step_def targets_def)
qed

lemma rank_drops:
  assumes "valid_ctx c" and "e \<in> set (step_events s)" and "0 \<le> a" and "\<not> loop_terminals s"
    and "s \<noteq> StepRunDev" and "s = StepRunReviewer \<Longrightarrow> next_step s e c \<noteq> StepRunDev"
    and "e \<noteq> EventConflictResolved"
  shows "step_rank (next_step s e c) a < step_rank s b"
  using next_step_target [OF assms(1,2)] assms(2-)
  by (cases s) (auto simp: step_events_def targets_def rows step_rank_def loop_terminals_def)

lemma dev_rank_drops:
  assumes "e \<in> set (step_events StepRunDev)" and "valid_ctx c" and "0 \<le> b" and "b < 3"
    and "if e = EventDevGateRejected then rc_dev_attempt c = b + 1 else rc_dev_attempt c \<in> {0, b}"
  shows "step_rank (next_step StepRunDev e c) (rc_dev_attempt c) < step_rank StepRunDev b"
proof (cases "e = EventDevGateRejected")
  case True
  with assms show ?thesis by (simp add: gate_rejected_next step_rank_def)
next
  case False
  then show ?thesis
    using next_step_target [OF assms(2,1)] assms(1,4)
    by (auto simp: step_events_def targets_def rows step_rank_def)
qed

text \<open>A review sends the work back only with rounds left.\<close>

lemma review_back_to_dev:
  assumes "valid_ctx c" and "e \<in> set (step_events StepRunReviewer)"
    and "next_step StepRunReviewer e c = StepRunDev" and "\<not> rc_in_merge_rereview c"
  shows "e \<in> set verdict_events \<and> rc_round c < rc_max_rounds c"
proof -
  have e: "e \<in> {EventChangesRequested, EventPrecheckFailed}"
    using next_step_target [OF assms(1,2)] assms(2,3)
    by (auto simp: step_events_def targets_def rows)
  moreover have "rounds_left c"
    using assms(3) e rounds_cases(5) assms(4)
    by (cases "rounds_left c"; cases "rereviews_left c")
      (auto simp: next_step_def table_matches_rows rows_review_retry rounds_cases(1,2))
  ultimately show ?thesis by (auto simp: verdict_events_def rounds_left_def)
qed

lemma handler_recorded:
  assumes "handlers E R StepRunReviewer = Some h" and "log_readable E"
  shows "recorded s (run_value (h c) s) (final_state (h c) s)"
  using assms step_reviewer_recorded [OF assms(2)] by (auto simp: handlers_def wp_def)

lemma handler_no_conflict:
  assumes "handlers E R s = Some h" and "main_still E"
  shows "ends (h c) (\<lambda>r t. fst r \<noteq> EventConflictResolved)"
proof (cases "s = StepMergePR")
  case True
  with assms step_merge_no_conflict show ?thesis by (auto simp: handlers_def)
next
  case False
  have "EventConflictResolved \<notin> set (step_events s)"
    using False by (cases s) (simp_all add: step_events_def)
  then show ?thesis
    by (intro ends_mono [OF handler_post [OF assms(1)]]) (auto simp: step_post_def)
qed

lemma step_lowers_rank:
  assumes inv: "calm_inv E s w" and h: "handlers E R s = Some h" and nt: "\<not> loop_terminals s"
    and r: "run_value (h (ls_ctx w)) (ls_world w) = r" and t: "final_state (h (ls_ctx w)) (ls_world w) = t"
  shows "calm_inv E (fst (after_step E R s w r t)) (snd (after_step E R s w r t)) \<and>
    run_rank (fst (after_step E R s w r t)) (snd (after_step E R s w r t)) < run_rank s w"
proof -
  let ?w = "snd (after_step E R s w r t)" and ?s = "next_step s (fst r) (snd r)"
  have I: "run_inv s w" "log_readable E" "main_still E" "\<not> rc_in_merge_rereview (ls_ctx w)"
    using inv by (simp_all add: calm_inv_def)
  have I': "run_inv ?s ?w" using step_keeps_inv [OF I(1) h nt r t] by simp
  have post: "step_post s (ls_ctx w) r"
    using ends_value [OF handler_post [OF h], of "ls_ctx w" "ls_world w"] r by simp
  have ncr: "fst r \<noteq> EventConflictResolved"
    using ends_value [OF handler_no_conflict [OF h I(3)], of "ls_ctx w" "ls_world w"] r by simp
  have merge: "\<not> rc_in_merge_rereview (snd r)"
    using post ncr I(4) by (simp add: step_post_def)
  have max: "rc_max_rounds (snd r) = rc_max_rounds (ls_ctx w)"
    using post by (simp add: step_post_def same_config_def)
  have ev: "fst r \<in> set (step_events s)" using post by (simp add: step_post_def)
  have v: "valid_ctx (snd r)" and a: "0 \<le> rc_dev_attempt (snd r)" "rc_dev_attempt (snd r) \<le> 3"
    using I' by (simp_all add: run_inv_def)
  have b: "0 \<le> rc_dev_attempt (ls_ctx w)" "rc_dev_attempt (ls_ctx w) < 3"
    using I(1) nt by (simp_all add: run_inv_def)
  have tw: "reviews t \<le> reviews (ls_world ?w)" by (rule reviews_grow [OF after_step_grows])
  have st: "reviews (ls_world w) \<le> reviews t"
    using reviews_grow [OF upholdsD [OF handler_grows [OF h]]] t by metis
  have "run_rank ?s ?w < run_rank s w"
  proof (cases "s = StepRunReviewer \<and> ?s = StepRunDev")
    case True
    then have "fst r \<in> set verdict_events" and left: "rc_round (snd r) < rc_max_rounds (snd r)"
      using review_back_to_dev [OF v _ _ merge] ev by auto
    moreover have "recorded (ls_world w) r t"
      using handler_recorded [of E R h, OF _ I(2)] h True r t by metis
    ultimately have "reviews (ls_world w) < rc_round (snd r)" and "rc_round (snd r) \<le> reviews t"
      by (simp_all add: recorded_def)
    then have "nat (rc_max_rounds (ls_ctx w) - reviews (ls_world ?w)) + 1
        \<le> nat (rc_max_rounds (ls_ctx w) - reviews (ls_world w))"
      using left max tw by simp
    moreover have "step_rank StepRunDev (rc_dev_attempt (snd r)) < 20"
      using a by (simp add: step_rank_def)
    ultimately have "20 * nat (rc_max_rounds (ls_ctx w) - reviews (ls_world ?w)) +
        step_rank StepRunDev (rc_dev_attempt (snd r)) < run_rank s w"
      by (simp add: run_rank_def)
    moreover have "?s = StepRunDev" using True by blast
    ultimately show ?thesis unfolding run_rank_def using max by simp
  next
    case False
    have "step_rank ?s (rc_dev_attempt (snd r)) < step_rank s (rc_dev_attempt (ls_ctx w))"
    proof (cases "s = StepRunDev")
      case True
      then show ?thesis
        using dev_rank_drops [OF _ v b] ev post by (auto simp: step_post_def)
    next
      case False
      then show ?thesis
        using rank_drops [OF v ev a(1) nt False] \<open>\<not> (s = StepRunReviewer \<and> ?s = StepRunDev)\<close> ncr by blast
    qed
    moreover have "nat (rc_max_rounds (ls_ctx w) - reviews (ls_world ?w))
        \<le> nat (rc_max_rounds (ls_ctx w) - reviews (ls_world w))"
      using tw st by simp
    ultimately show ?thesis using max by (simp add: run_rank_def)
  qed
  with I' I merge show ?thesis by (simp add: calm_inv_def)
qed

interpretation calm: ranked_machine "build_machine E R st" "calm_inv E" run_rank for E R st
proof unfold_locales
  fix s w
  assume inv: "calm_inv E s w" and nt: "\<not> m_terminals (build_machine E R st) s"
  then have nt': "\<not> loop_terminals s" by simp
  obtain h where h: "handlers E R s = Some h" using handlers_cases [OF nt'] by blast
  let ?r = "run_value (h (ls_ctx w)) (ls_world w)" and ?t = "final_state (h (ls_ctx w)) (ls_world w)"
  have post: "step_post s (ls_ctx w) ?r" by (rule ends_value [OF handler_post [OF h]])
  have "valid_ctx (snd ?r)" "fst ?r \<in> set (step_events s)"
    using post inv by (simp_all add: step_post_def calm_inv_def run_inv_def)
  from dispatch_step [OF h nt' refl refl this] step_lowers_rank [OF inv h nt' refl refl]
  show "\<exists>s' w'. dispatch (build_machine E R st) s w = (Next s' , w') \<and> calm_inv E s' w'" by blast
next
  fix s w s' w'
  assume inv: "calm_inv E s w" and st: "mstep (build_machine E R st) (s, w) (s', w')"
  then have nt: "\<not> loop_terminals s"
    using dispatch_terminal [of "build_machine E R st" s w] by (auto simp: mstep_iff)
  obtain h where h: "handlers E R s = Some h" using handlers_cases [OF nt] by blast
  let ?r = "run_value (h (ls_ctx w)) (ls_world w)" and ?t = "final_state (h (ls_ctx w)) (ls_world w)"
  have post: "step_post s (ls_ctx w) ?r" by (rule ends_value [OF handler_post [OF h]])
  have "valid_ctx (snd ?r)" "fst ?r \<in> set (step_events s)"
    using post inv by (simp_all add: step_post_def calm_inv_def run_inv_def)
  from dispatch_step [OF h nt refl refl this, of st] step_lowers_rank [OF inv h nt refl refl] st
  show "run_rank s' w' < run_rank s w" by (auto simp: mstep_iff)
qed

end
