(* ===== verification/Selector.thy ===== *)
theory Selector
  imports World
begin

text \<open>
  The package \<open>internal/selector\<close> and the slug parsing of \<open>cmd/golemic/next_issue.go\<close>: which open
  issue is taken next. The query itself is text sent to GitHub; its answer is decoded, filtered
  and sorted here.
\<close>

section \<open>The data\<close>

record sel_issue =
  si_number :: int
  si_title :: string
  si_url :: string
  si_labels :: "string list"

record candidate =
  cd_number :: int
  cd_title :: string
  cd_url :: string
  cd_labels :: "string list"
  cd_in_progress :: bool
  cd_blocked_by :: int
  cd_closing_prs :: int

section \<open>Decoding the answer\<close>

definition count_open_prs :: "string list \<Rightarrow> int" where
  "count_open_prs states = int (length (filter (\<lambda>s. s = ''OPEN'') states))"

definition dec_candidate :: "json \<Rightarrow> candidate option" where
  "dec_candidate j =
     (case (get_int ''number'' j, get_str ''title'' j, get_str ''url'' j,
            get_struct (get_list (get_str ''name'') ''nodes'') ''labels'' j,
            get_struct (get_int ''totalCount'') ''trackedIssues'' j,
            get_struct (get_list (get_str ''state'') ''nodes'') ''closedByPullRequestsReferences'' j) of
        (Some n, Some t, Some u, Some ls, Some tracked, Some states) \<Rightarrow>
          Some \<lparr>cd_number = n, cd_title = t, cd_url = u, cd_labels = ls,
                cd_in_progress = (''in-progress'' \<in> set ls),
                cd_blocked_by = tracked, cd_closing_prs = count_open_prs states\<rparr>
      | _ \<Rightarrow> None)"

definition dec_candidates :: "json \<Rightarrow> candidate list option" where
  "dec_candidates =
     get_struct (get_struct (get_struct (get_list dec_candidate ''nodes'') ''issues'') ''repository'') ''data''"

definition graphqlQuery :: string where
  "graphqlQuery = ''query($owner: String!, $repo: String!) {'' @ [newline] @
     ''  repository(owner: $owner, name: $repo) {'' @ [newline] @
     ''    issues(first: 50, states: OPEN, labels: ['' @ [CHR 0x22] @ ''ready-for-agent'' @ [CHR 0x22] @
     ''], orderBy: {field: CREATED_AT, direction: ASC}) {'' @ [newline] @
     ''      nodes {'' @ [newline] @ ''        number'' @ [newline] @ ''        title'' @ [newline] @
     ''        url'' @ [newline] @ ''        labels(first: 20) {'' @ [newline] @
     ''          nodes { name }'' @ [newline] @ ''        }'' @ [newline] @
     ''        trackedIssues { totalCount }'' @ [newline] @
     ''        closedByPullRequestsReferences(first: 5) { nodes { state } }'' @ [newline] @
     ''      }'' @ [newline] @ ''    }'' @ [newline] @ ''  }'' @ [newline] @ ''}''"

text \<open>\<open>strings.SplitN(s, "/", 2)\<close> into two parts that are not empty.\<close>

definition split_slug :: "string \<Rightarrow> (string \<times> string) option" where
  "split_slug s =
     (let a = takeWhile (\<lambda>c. c \<noteq> CHR ''/'') s; b = drop (length a + 1) s
      in if length a < length s \<and> a \<noteq> [] \<and> b \<noteq> [] then Some (a, b) else None)"

definition fetch_candidates :: "env \<Rightarrow> string \<Rightarrow> string \<Rightarrow> candidate list result M" where
  "fetch_candidates E slug token =
     (case split_slug slug of
        None \<Rightarrow> ret (Inl (msg_err ''invalid repo slug: expected owner/repo''))
      | Some (owner, repo) \<Rightarrow>
          handle (run_with_token E token []
              [''gh'', ''api'', ''graphql'', ''-f'', ''query='' @ graphqlQuery,
               ''-f'', ''owner='' @ owner, ''-f'', ''repo='' @ repo])
            (\<lambda>e. ret (Inl (wrap_err ''gh api graphql failed: '' e)))
            (\<lambda>out. ret (case unmarshal_into dec_candidates out of
                 None \<Rightarrow> Inl (msg_err ''gh api graphql failed: parse error'')
               | Some cs \<Rightarrow> Inr cs)))"

section \<open>Choosing\<close>

fun takeable :: "candidate list \<Rightarrow> candidate list" where
  "takeable [] = []"
| "takeable (c # cs) =
     (if cd_in_progress c then takeable cs
      else if cd_blocked_by c > 0 then takeable cs
      else if cd_closing_prs c > 0 then takeable cs
      else c # takeable cs)"

definition has_bug :: "string list \<Rightarrow> bool" where
  "has_bug labels \<longleftrightarrow> list_ex (\<lambda>l. l = ''bug'') labels"

definition sorts_before :: "candidate \<Rightarrow> candidate \<Rightarrow> bool" where
  "sorts_before a b \<longleftrightarrow>
     (if has_bug (cd_labels a) \<noteq> has_bug (cd_labels b) then has_bug (cd_labels a)
      else cd_number a < cd_number b)"

text \<open>\<open>sort.SliceStable\<close> with a comparison: insertion behind the elements that are not after.\<close>

fun insert_stable :: "('a \<Rightarrow> 'a \<Rightarrow> bool) \<Rightarrow> 'a \<Rightarrow> 'a list \<Rightarrow> 'a list" where
  "insert_stable lt x [] = [x]"
| "insert_stable lt x (y # ys) = (if lt y x then y # insert_stable lt x ys else x # y # ys)"

definition sort_stable :: "('a \<Rightarrow> 'a \<Rightarrow> bool) \<Rightarrow> 'a list \<Rightarrow> 'a list" where
  "sort_stable lt xs = foldr (insert_stable lt) xs []"

definition to_issue :: "candidate \<Rightarrow> sel_issue" where
  "to_issue c = \<lparr>si_number = cd_number c, si_title = cd_title c, si_url = cd_url c, si_labels = cd_labels c\<rparr>"

definition select_top :: "candidate list \<Rightarrow> sel_issue option" where
  "select_top cs =
     (case sort_stable sorts_before (takeable cs) of
        [] \<Rightarrow> None
      | t # _ \<Rightarrow> Some (to_issue t))"

definition next_issue :: "env \<Rightarrow> string \<Rightarrow> string \<Rightarrow> sel_issue option result M" where
  "next_issue E slug token =
     handle (fetch_candidates E slug token) (\<lambda>e. ret (Inl e)) (\<lambda>cs. ret (Inr (select_top cs)))"

section \<open>The repository of a remote URL\<close>

definition trim_suffix :: "string \<Rightarrow> string \<Rightarrow> string" where
  "trim_suffix suf s = (if suffix suf s then take (length s - length suf) s else s)"

definition parse_github_slug :: "string \<Rightarrow> string result" where
  "parse_github_slug raw =
     (let url = trim_right (\<lambda>c. c = CHR ''/'') (trim_suffix ''.git'' (trim_space raw));
          pre = ''https://github.com/''
      in if \<not> has_prefix pre url then Inl (msg_err ''remote origin URL is not a github.com HTTPS URL'')
         else (case split_slug (drop (length pre) url) of
                 None \<Rightarrow> Inl (msg_err ''cannot parse owner/repo from remote origin URL'')
               | Some (owner, repo) \<Rightarrow> Inr (owner @ ''/'' @ repo)))"

section \<open>Lemmas\<close>

lemma takeable_filter:
  "takeable cs = filter (\<lambda>c. \<not> cd_in_progress c \<and> \<not> cd_blocked_by c > 0 \<and> \<not> cd_closing_prs c > 0) cs"
  by (induction cs) auto

text \<open>The comparison is a strict weak order, as \<open>sort\<close> requires.\<close>

lemma before_irrefl: "\<not> sorts_before a a"
  by (simp add: sorts_before_def)

lemma before_trans: "sorts_before a b \<Longrightarrow> sorts_before b c \<Longrightarrow> sorts_before a c"
  by (auto simp: sorts_before_def split: if_splits)

lemma not_before_trans: "\<not> sorts_before b a \<Longrightarrow> \<not> sorts_before c b \<Longrightarrow> \<not> sorts_before c a"
  by (auto simp: sorts_before_def split: if_splits)

lemma set_insert_stable [simp]: "set (insert_stable lt x ys) = insert x (set ys)"
  by (induction ys) auto

lemma set_sort_stable [simp]: "set (sort_stable lt xs) = set xs"
  by (induction xs) (simp_all add: sort_stable_def)

lemma sort_stable_Nil [simp]: "sort_stable lt [] = []"
  by (simp add: sort_stable_def)

lemma sort_stable_empty [simp]: "sort_stable lt xs = [] \<longleftrightarrow> xs = []"
  using set_sort_stable [of lt xs] by (metis set_empty)

text \<open>
  The head of the sorted list is the first of the least elements: nothing is before it, and
  everything that stands before it in the input is after it in the order.
\<close>

lemma head_of_sorted:
  assumes "sort_stable sorts_before xs = t # ts"
  shows "\<exists>us vs. xs = us @ t # vs \<and> (\<forall>u\<in>set us. sorts_before t u) \<and> (\<forall>v\<in>set vs. \<not> sorts_before v t)"
  using assms
proof (induction xs arbitrary: t ts)
  case Nil
  then show ?case by (simp add: sort_stable_def)
next
  case (Cons x xs)
  have st: "sort_stable sorts_before (x # xs) = insert_stable sorts_before x (sort_stable sorts_before xs)"
    by (simp add: sort_stable_def)
  show ?case
  proof (cases "sort_stable sorts_before xs")
    case Nil
    then show ?thesis using Cons.prems st by (intro exI [of _ "[]"]) auto
  next
    case (Cons y ys)
    from Cons.IH [OF Cons] obtain us vs where
      *: "xs = us @ y # vs" "\<forall>u\<in>set us. sorts_before y u" "\<forall>v\<in>set vs. \<not> sorts_before v y" by blast
    show ?thesis
    proof (cases "sorts_before y x")
      case True
      then have "t = y" using Cons.prems st Cons by simp
      with * True show ?thesis by (intro exI [of _ "x # us"] exI [of _ vs]) auto
    next
      case False
      then have t: "t = x" using Cons.prems st Cons by simp
      have "\<not> sorts_before v x" if "v \<in> set xs" for v
        using that * False before_trans before_irrefl not_before_trans by (metis Un_iff insert_iff list.simps(15) set_append)
      with t show ?thesis by (intro exI [of _ "[]"] exI [of _ xs]) auto
    qed
  qed
qed

lemma select_top_head:
  "select_top cs = Some i \<longleftrightarrow> (\<exists>t ts. sort_stable sorts_before (takeable cs) = t # ts \<and> i = to_issue t)"
  by (auto simp: select_top_def split: list.splits)

lemma split_slug_Some:
  assumes "split_slug s = Some (a, b)"
  shows "s = a @ ''/'' @ b \<and> a \<noteq> [] \<and> b \<noteq> [] \<and> CHR ''/'' \<notin> set a"
proof -
  define p where "p = (\<lambda>c. c \<noteq> CHR ''/'')"
  define t where "t = takeWhile p s"
  define r where "r = dropWhile p s"
  have s: "s = t @ r" unfolding t_def r_def by simp
  have nt: "CHR ''/'' \<notin> set t" unfolding t_def by (auto dest: set_takeWhileD simp: p_def)
  have "split_slug s = (let a = t; b = drop (length a + 1) s
      in if length a < length s \<and> a \<noteq> [] \<and> b \<noteq> [] then Some (a, b) else None)"
    unfolding split_slug_def t_def p_def by (rule refl)
  with assms have ab: "a = t" "b = drop (length t + 1) s" "length t < length s" "t \<noteq> []" "b \<noteq> []"
    by (auto simp: Let_def split: if_splits)
  then have "r \<noteq> []" using s by auto
  then obtain c r' where r: "r = c # r'" by (cases r) auto
  then have "\<not> p c" unfolding r_def by (metis hd_dropWhile list.distinct(1) list.sel(1))
  then have "r = ''/'' @ r'" using r by (simp add: p_def)
  moreover from this have "b = r'" using ab(2) s by simp
  ultimately show ?thesis using s nt ab by simp
qed

lemma split_slug_join:
  "a \<noteq> [] \<Longrightarrow> b \<noteq> [] \<Longrightarrow> CHR ''/'' \<notin> set a \<Longrightarrow> split_slug (a @ ''/'' @ b) = Some (a, b)"
proof -
  assume *: "a \<noteq> []" "b \<noteq> []" "CHR ''/'' \<notin> set a"
  then have "takeWhile (\<lambda>c. c \<noteq> CHR ''/'') (a @ ''/'' @ b) = a"
    by (subst takeWhile_append2) auto
  with * show ?thesis by (simp add: split_slug_def)
qed

section \<open>Properties\<close>

lemma has_bug_mem: "has_bug ls \<longleftrightarrow> ''bug'' \<in> set ls"
  by (auto simp: has_bug_def list_ex_iff)

text \<open>
  C18: The selected issue is a takeable candidate (not in progress, not blocked, no open PR) that
  comes first: it carries the label \<open>bug\<close> if any takeable issue does, among those with the label, or
  among those without it, it has the smallest number, and of equals the one listed first is taken.
  No issue is selected exactly when none is takeable.
\<close>

theorem select_top_first:
  "case select_top cs of
     None \<Rightarrow> filter (\<lambda>c. \<not> cd_in_progress c \<and> cd_blocked_by c \<le> 0 \<and> cd_closing_prs c \<le> 0) cs = []
   | Some i \<Rightarrow> \<exists>us t vs.
       filter (\<lambda>c. \<not> cd_in_progress c \<and> cd_blocked_by c \<le> 0 \<and> cd_closing_prs c \<le> 0) cs = us @ t # vs \<and>
       i = \<lparr>si_number = cd_number t, si_title = cd_title t, si_url = cd_url t, si_labels = cd_labels t\<rparr> \<and>
       list_all (\<lambda>u. if ''bug'' \<in> set (cd_labels u) then ''bug'' \<in> set (cd_labels t) \<and> cd_number t < cd_number u
                    else ''bug'' \<in> set (cd_labels t) \<or> cd_number t < cd_number u) us \<and>
       list_all (\<lambda>v. if ''bug'' \<in> set (cd_labels v) then ''bug'' \<in> set (cd_labels t) \<and> cd_number t \<le> cd_number v
                    else ''bug'' \<in> set (cd_labels t) \<or> cd_number t \<le> cd_number v) vs"
proof -
  have f: "filter (\<lambda>c. \<not> cd_in_progress c \<and> cd_blocked_by c \<le> 0 \<and> cd_closing_prs c \<le> 0) cs = takeable cs"
    by (simp add: takeable_filter not_less)
  show ?thesis
  proof (cases "sort_stable sorts_before (takeable cs)")
    case Nil
    then show ?thesis by (simp add: select_top_def f)
  next
    case (Cons t ts)
    then show ?thesis
      using head_of_sorted [OF Cons]
      by (auto simp: select_top_def f list_all_iff to_issue_def sorts_before_def has_bug_mem not_less intro!: exI
          split: if_splits)
  qed
qed

text \<open>
  A parsed slug is \<open>owner/repo\<close> with both parts not empty and no slash in the owner, and it
  is a substring of the remote URL; \<open>Fetch\<close> accepts every slug that is produced.
\<close>

theorem parsed_slug_is_valid:
  "case parse_github_slug raw of
     Inl e \<Rightarrow> True
   | Inr slug \<Rightarrow> contains_sub slug raw \<and> (\<exists>owner repo. split_slug slug = Some (owner, repo) \<and>
       slug = owner @ ''/'' @ repo)"
proof (cases "parse_github_slug raw")
  case (Inr slug)
  let ?url = "trim_right (\<lambda>c. c = CHR ''/'') (trim_suffix ''.git'' (trim_space raw))"
  have sub: "contains_sub x y \<Longrightarrow> contains_sub y z \<Longrightarrow> contains_sub x z" for x y z
    unfolding contains_sub_iff by (metis append.assoc)
  have tr: "contains_sub (trim_right p s) s" for p s
    unfolding contains_sub_iff trim_right_def
    by (metis append_Nil rev_append rev_rev_ident takeWhile_dropWhile_id)
  have tl: "contains_sub (dropWhile p s) s" for p and s :: string
    unfolding contains_sub_iff by (metis append_Nil2 takeWhile_dropWhile_id)
  have ts: "contains_sub (trim_suffix q s) s" for q s
    unfolding contains_sub_iff trim_suffix_def
    by (metis append_Nil append_take_drop_id append_Nil2)
  have dr: "contains_sub (drop n s) s" for n and s :: string
    unfolding contains_sub_iff by (metis append_Nil2 append_take_drop_id)
  have all: "contains_sub (drop n ?url) raw" for n
    using sub [OF dr [of n ?url] sub [OF tr sub [OF ts [of "''.git''" "trim_space raw"]]]]
      sub [OF tr tl] unfolding trim_space_def trim_left_def by blast
  obtain owner repo where o: "split_slug (drop (length ''https://github.com/'') ?url) = Some (owner, repo)"
      "slug = owner @ ''/'' @ repo"
    using Inr by (auto simp: parse_github_slug_def Let_def split: if_splits option.splits)
  note parts = split_slug_Some [OF o(1)]
  then have "split_slug slug = Some (owner, repo)" using o(2) split_slug_join by blast
  moreover have "slug = drop (length ''https://github.com/'') ?url" using parts o(2) by simp
  ultimately show ?thesis using Inr all [of "length ''https://github.com/''"] o(2) by auto
qed simp

end
