(* ===== verification/Json_Roundtrip.thy ===== *)
theory Json_Roundtrip
  imports Json
begin

text \<open>
  Parsing a printed text gives the value back, with its strings made valid UTF-8. The printer is an
  interface: any function that quotes strings in a way the parser undoes, and otherwise writes
  values without blanks. \<open>json_text\<close>, which is \<open>json.Marshal\<close>, is one; the writer of the extension is
  another. The lemmas follow the parser: the characters of a string, numbers, then values, elements
  and members with the fuel each needs, always with a rest behind the printed text.
\<close>

section \<open>Strings\<close>

lemma hex_val_digit: "n < 16 \<Longrightarrow> hex_val (hex_digit n) = Some n"
  by (auto simp: hex_val_def hex_digit_def Let_def)

lemma hex_val_zero [simp]: "hex_val (CHR ''0'') = Some 0"
  by (simp add: hex_val_def)

lemma hex_of_low:
  assumes "n < 32 \<or> n = 38 \<or> n = 60 \<or> n = 62"
  shows "hex4 (CHR ''0'') (CHR ''0'') (hex_digit (n div 16)) (hex_digit (n mod 16)) = Some n"
proof -
  have "n div 16 < 16" using assms by auto
  then show ?thesis by (simp add: hex4_def hex_val_digit)
qed

lemma parse_escape_u:
  assumes "n < 32 \<or> n = 38 \<or> n = 60 \<or> n = 62"
  shows "parse_chars (Suc k) (CHR 0x5C # CHR ''u'' # CHR ''0'' # CHR ''0'' # hex_digit (n div 16) #
      hex_digit (n mod 16) # t) = prepend [char_of n] (parse_chars k t)"
  using hex_of_low [OF assms] assms
  by (auto simp: is_high_surrogate_def is_low_surrogate_def utf8_def is_ascii_def)

lemma escaped_chars:
  fixes c :: char
  shows "(of_char c :: nat) = 34 \<longleftrightarrow> c = CHR 0x22" "(of_char c :: nat) = 92 \<longleftrightarrow> c = CHR 0x5C"
    "(of_char c :: nat) = 10 \<longleftrightarrow> c = CHR 0x0A" "(of_char c :: nat) = 13 \<longleftrightarrow> c = CHR 0x0D"
    "(of_char c :: nat) = 9 \<longleftrightarrow> c = CHR 0x09" "(of_char c :: nat) = 8 \<longleftrightarrow> c = CHR 0x08"
    "(of_char c :: nat) = 12 \<longleftrightarrow> c = CHR 0x0C"
  unfolding of_char_eq_iff [where 'a = nat, symmetric] by simp_all

lemma parse_escape_char: "is_ascii c \<Longrightarrow> parse_chars (Suc k) (escape_char c @ t) = prepend [c] (parse_chars k t)"
proof -
  assume ascii: "is_ascii c"
  let ?n = "of_char c :: nat"
  consider "?n = 34" | "?n = 92" | "?n = 10" | "?n = 13" | "?n = 9" | "?n = 8" | "?n = 12"
    | "?n \<notin> {34, 92, 10, 13, 9, 8, 12}" "?n < 32 \<or> ?n = 38 \<or> ?n = 60 \<or> ?n = 62"
    | "?n \<notin> {34, 92, 10, 13, 9, 8, 12}" "\<not> (?n < 32 \<or> ?n = 38 \<or> ?n = 60 \<or> ?n = 62)" by blast
  then show ?thesis
  proof cases
    case 8
    then show ?thesis using parse_escape_u [of ?n k t] by (simp add: escape_char_def Let_def)
  next
    case 9
    then have "c \<noteq> CHR 0x22" "c \<noteq> CHR 0x5C" by auto
    with 9 ascii show ?thesis by (simp add: escape_char_def Let_def)
  qed (simp_all add: escape_char_def simple_escape_def escaped_chars is_ascii_def)
qed

lemma parse_rune:
  assumes "rune_text p"
  shows "list_all is_ascii p \<or> parse_chars (Suc k) (p @ t) = prepend p (parse_chars k t)"
  using assms
  by (rule rune_text_cases)
    (auto simp: rune_two rune_three rune_four is_ascii_def simp del: rune_length.simps dest: starts_high)

lemma escape_rune:
  assumes "rune_text p"
  shows "escape_text (p @ t) =
    (if list_all is_ascii p then concat (map escape_char p)
     else if is_separator p then escape_separator p else p) @ escape_text t"
  using assms
proof (cases rule: rune_text_cases)
  case (2 a b)
  then show ?thesis using starts_high(1) rune_two [of a b t] by (simp add: Let_def del: rune_length.simps)
next
  case (3 a b c)
  then show ?thesis using starts_high(2) rune_three [of a b c t] by (simp add: Let_def del: rune_length.simps)
next
  case (4 a b c d)
  then show ?thesis using starts_high(3) rune_four [of a b c d t] by (simp add: Let_def del: rune_length.simps)
qed simp

lemma separators: "utf8 8232 = [CHR 0xE2, CHR 0x80, CHR 0xA8]" "utf8 8233 = [CHR 0xE2, CHR 0x80, CHR 0xA9]"
  "utf8 65533 = replacement"
  by (simp_all add: utf8_def replacement_def char_of_eq_iff)

lemma parse_code_point:
  assumes "hex4 a b c d = Some v" and "\<not> is_high_surrogate v" "\<not> is_low_surrogate v"
  shows "parse_chars (Suc k) (CHR 0x5C # CHR ''u'' # a # b # c # d # t) = prepend (utf8 v) (parse_chars k t)"
  using assms by (simp add: is_ascii_def)

lemma code_points:
  "hex4 (CHR ''2'') (CHR ''0'') (CHR ''2'') (CHR ''8'') = Some 8232"
  "hex4 (CHR ''2'') (CHR ''0'') (CHR ''2'') (CHR ''9'') = Some 8233"
  "hex4 (CHR ''f'') (CHR ''f'') (CHR ''f'') (CHR ''d'') = Some 65533"
  by (simp_all add: hex4_def hex_val_def)

lemma parse_separator:
  assumes "is_separator r"
  shows "parse_chars (Suc k) (escape_separator r @ t) = prepend r (parse_chars k t)"
  using assms parse_code_point [OF code_points(1), of k t] parse_code_point [OF code_points(2), of k t]
  by (auto simp: is_separator_def escape_separator_def is_high_surrogate_def is_low_surrogate_def separators
      simp del: parse_chars.simps)

lemma parse_replacement:
  "parse_chars (Suc k) (CHR 0x5C # CHR ''u'' # CHR ''f'' # CHR ''f'' # CHR ''f'' # CHR ''d'' # t) =
     prepend replacement (parse_chars k t)"
  using parse_code_point [OF code_points(3), of k t]
  by (simp add: is_high_surrogate_def is_low_surrogate_def separators del: parse_chars.simps)

lemma parse_escaped_rune:
  assumes "rune_text p"
  shows "parse_chars (Suc k)
      ((if list_all is_ascii p then concat (map escape_char p)
        else if is_separator p then escape_separator p else p) @ t) = prepend p (parse_chars k t)"
proof (cases "list_all is_ascii p")
  case True
  with assms obtain a where "p = [a]" "is_ascii a" by (rule_tac rune_text_cases) (auto dest: starts_high)
  then show ?thesis using True parse_escape_char [of a k t] by (simp del: parse_chars.simps)
next
  case False
  then show ?thesis using parse_rune [OF assms] parse_separator [of p] by (simp del: parse_chars.simps)
qed

lemma parse_escaped:
  "length s \<le> k \<Longrightarrow> parse_chars (Suc k) (escape_text s @ CHR 0x22 # rest) = Some (to_valid s, rest)"
proof (induction s arbitrary: k rule: text_induct)
  case empty
  then show ?case by simp
next
  case (rune p t)
  then obtain k' where "k = Suc k'" "length t \<le> k'" by (cases k; cases p) auto
  then show ?case
    using rune parse_escaped_rune [OF rune(1), of k "escape_text t @ CHR 0x22 # rest"]
    by (simp only: escape_rune [OF rune(1)] to_valid_rune_text [OF rune(1)] append_assoc) (simp add: prepend_def del: parse_chars.simps)
next
  case (broken c cs)
  then obtain k' where "k = Suc k'" "length cs \<le> k'" by (cases k) auto
  with broken show ?case by (simp add: parse_replacement prepend_def del: parse_chars.simps)
qed

lemma escaped_length: "length s \<le> length (escape_text s)"
proof (induction s rule: text_induct)
  case (rune p t)
  have "list_all is_ascii p \<longrightarrow> length p \<le> length (concat (map escape_char p))"
    by (induction p) (auto simp: escape_char_def Let_def)
  moreover have "is_separator p \<longrightarrow> length p \<le> length (escape_separator p)"
    by (auto simp: is_separator_def escape_separator_def)
  ultimately show ?case
    using rune(3) unfolding escape_rune [OF rune(1)] by (auto intro!: add_le_mono)
qed simp_all

lemma parse_quoted:
  "parse_chars (Suc (length (escape_text s @ CHR 0x22 # rest))) (escape_text s @ CHR 0x22 # rest) =
     Some (to_valid s, rest)"
  using escaped_length [of s] by (intro parse_escaped) simp

section \<open>Numbers\<close>

text \<open>What can follow a value in a printed text: nothing, or one of these.\<close>

definition ends_value :: "string \<Rightarrow> bool" where
  "ends_value rest \<longleftrightarrow> (case rest of [] \<Rightarrow> True | c # _ \<Rightarrow> c \<in> {CHR '','', CHR '']'', CHR 0x7D, newline})"

lemma ends_value_digit [simp]:
  "ends_value (c # cs) \<Longrightarrow> \<not> is_digit c \<and> c \<noteq> CHR ''.'' \<and> c \<noteq> CHR ''e'' \<and> c \<noteq> CHR ''E''"
  by (auto simp: ends_value_def is_digit_def digit_val_def Let_def newline_def)

lemma take_digits_end:
  assumes "ends_value rest"
  shows "take_digits (s @ rest) = (fst (take_digits s), snd (take_digits s) @ rest)"
proof -
  have "takeWhile is_digit rest = []" "dropWhile is_digit rest = rest"
    using assms by (cases rest; simp)+
  then show ?thesis
    by (cases "\<forall>x\<in>set s. is_digit x")
      (auto simp: take_digits_def takeWhile_append dropWhile_append takeWhile_eq_all_conv [THEN iffD2])
qed

lemma parse_int_end:
  "ends_value rest \<Longrightarrow> parse_int_part s = Some (t, u) \<Longrightarrow> parse_int_part (s @ rest) = Some (t, u @ rest)"
  using take_digits_end [of rest s]
  by (cases s) (auto simp: parse_int_part_def split: if_splits prod.splits)

lemma parse_frac_end:
  "ends_value rest \<Longrightarrow> parse_frac_part s = Some (t, u) \<Longrightarrow> parse_frac_part (s @ rest) = Some (t, u @ rest)"
  by (cases s; cases rest)
    (auto simp: parse_frac_part_def take_digits_end split: if_splits prod.splits)

lemma parse_exp_end:
  assumes rest: "ends_value rest" and s: "parse_exp_part s = Some (t, u)"
  shows "parse_exp_part (s @ rest) = Some (t, u @ rest)"
proof (cases s)
  case Nil
  then show ?thesis using s ends_value_digit [of "hd rest" "tl rest"] rest
    by (cases rest) (auto simp: parse_exp_part_def)
next
  case (Cons c cs)
  show ?thesis
  proof (cases "c = CHR ''e'' \<or> c = CHR ''E''")
    case False
    then show ?thesis using s Cons by (auto simp: parse_exp_part_def)
  next
    case True
    with s Cons obtain g gs where "cs = g # gs"
      by (cases cs) (auto simp: parse_exp_part_def take_digits_def)
    then show ?thesis
      using s Cons True take_digits_end [OF rest, of gs] take_digits_end [OF rest, of "g # gs"]
      by (auto simp: parse_exp_part_def split: if_splits prod.splits)
  qed
qed

definition number_ok :: "string \<Rightarrow> bool" where
  "number_ok t \<longleftrightarrow> parse_number t = Some (t, [])"

definition parse_sign :: "string \<Rightarrow> string \<times> string" where
  "parse_sign s = (case s of c # cs \<Rightarrow> if c = CHR ''-'' then ([c], cs) else ([], s) | [] \<Rightarrow> ([], []))"

lemma parse_number_end:
  assumes "number_ok t" and rest: "ends_value rest"
  shows "parse_number (t @ rest) = Some (t, rest)"
proof -
  have num: "parse_number t = Some (t, [])" using assms(1) by (simp add: number_ok_def)
  obtain sg s1 where sg: "parse_sign t = (sg, s1)" by (cases "parse_sign t")
  from num sg obtain ip s2 where ip: "parse_int_part s1 = Some (ip, s2)"
    by (auto simp: parse_number_def parse_sign_def split: option.splits)
  from num sg ip obtain fp s3 where fp: "parse_frac_part s2 = Some (fp, s3)"
    by (auto simp: parse_number_def parse_sign_def split: option.splits)
  from num sg ip fp obtain ep s4 where ep: "parse_exp_part s3 = Some (ep, s4)"
    by (auto simp: parse_number_def parse_sign_def split: option.splits)
  have t: "t = sg @ ip @ fp @ ep" "s4 = []"
    using num sg ip fp ep by (auto simp: parse_number_def parse_sign_def)
  have "t \<noteq> []" using num by (auto simp: parse_number_def parse_int_part_def)
  then have "parse_sign (t @ rest) = (sg, s1 @ rest)"
    using sg by (cases t) (auto simp: parse_sign_def split: if_splits)
  then show ?thesis
    using parse_int_end [OF rest ip] parse_frac_end [OF rest fp] parse_exp_end [OF rest ep] t
    unfolding parse_number_def parse_sign_def by simp
qed

section \<open>Values\<close>

text \<open>Values whose numbers have the form of JSON numbers, and what reading makes of their strings.\<close>

fun numbers_ok :: "json \<Rightarrow> bool" where
  "numbers_ok (JNum t) = number_ok t"
| "numbers_ok (JArr xs) = list_all numbers_ok xs"
| "numbers_ok (JObj kvs) = list_all (\<lambda>kv. numbers_ok (snd kv)) kvs"
| "numbers_ok _ = True"

fun coerced :: "json \<Rightarrow> json" where
  "coerced (JStr s) = JStr (to_valid s)"
| "coerced (JArr xs) = JArr (map coerced xs)"
| "coerced (JObj kvs) = JObj (map (\<lambda>kv. (to_valid (fst kv), coerced (snd kv))) kvs)"
| "coerced v = v"

text \<open>Values whose strings and keys are valid UTF-8 as well: nothing is lost on them.\<close>

fun wf_json :: "json \<Rightarrow> bool" where
  "wf_json (JNum t) = number_ok t"
| "wf_json (JStr s) = valid_utf8 s"
| "wf_json (JArr xs) = list_all wf_json xs"
| "wf_json (JObj kvs) = list_all (\<lambda>kv. valid_utf8 (fst kv) \<and> wf_json (snd kv)) kvs"
| "wf_json _ = True"

lemma wf_numbers: "wf_json v \<Longrightarrow> numbers_ok v"
  by (induction v) (fastforce simp: list_all_iff snds.simps)+

lemma wf_coerced: "wf_json v \<Longrightarrow> coerced v = v"
proof (induction v)
  case (JArr xs)
  then show ?case by (simp add: list_all_iff map_idI)
next
  case (JObj kvs)
  then have "(to_valid (fst kv), coerced (snd kv)) = kv" if "kv \<in> set kvs" for kv
    using that by (fastforce simp: list_all_iff snds.simps to_valid_id prod_eq_iff)
  then show ?case by (simp add: map_idI)
qed (simp_all add: to_valid_id)

definition value_start :: "char \<Rightarrow> bool" where
  "value_start c \<longleftrightarrow> \<not> is_json_ws c \<and> c \<noteq> CHR '']'' \<and> c \<noteq> CHR 0x7D"

lemma digit_start: "is_digit c \<or> c = CHR ''-'' \<Longrightarrow>
  value_start c \<and> c \<notin> {CHR 0x7B, CHR ''['', CHR 0x22, CHR ''t'', CHR ''f'', CHR ''n''}"
  by (auto simp: is_digit_def digit_val_def Let_def value_start_def is_json_ws_def split: if_splits)

lemma number_start: "number_ok t \<Longrightarrow> \<exists>c cs. t = c # cs \<and> (is_digit c \<or> c = CHR ''-'')"
  by (cases t) (auto simp: number_ok_def parse_number_def parse_int_part_def is_digit_def digit_val_def
      split: if_splits option.splits)

lemma skip_ws_start [simp]: "value_start c \<Longrightarrow> skip_ws (c # cs) = c # cs"
  by (simp add: skip_ws_def value_start_def)

lemma skip_ws_punct [simp]:
  "skip_ws (CHR 0x22 # s) = CHR 0x22 # s" "skip_ws (CHR '':'' # s) = CHR '':'' # s"
  "skip_ws (CHR '','' # s) = CHR '','' # s" "skip_ws (CHR '']'' # s) = CHR '']'' # s"
  "skip_ws (CHR 0x7D # s) = CHR 0x7D # s" "skip_ws (CHR ''['' # s) = CHR ''['' # s"
  "skip_ws (CHR 0x7B # s) = CHR 0x7B # s"
  by (simp_all add: skip_ws_def is_json_ws_def)

lemma ends_value_punct [simp]:
  "ends_value []" "ends_value (CHR '','' # s)" "ends_value (CHR '']'' # s)" "ends_value (CHR 0x7D # s)"
  "ends_value (newline # s)"
  by (simp_all add: ends_value_def)

text \<open>
  \<open>v\<close> is read back from what the printer \<open>w\<close> makes of it with fuel of twice the length, whatever
  follows.
\<close>

definition reads_back :: "(json \<Rightarrow> string) \<Rightarrow> json \<Rightarrow> bool" where
  "reads_back w v \<longleftrightarrow> (\<forall>n rest. 2 * length (w v) \<le> n \<longrightarrow> ends_value rest \<longrightarrow>
     parse_value n (w v @ rest) = Some (coerced v, rest))"

lemma reads_backD:
  "reads_back w v \<Longrightarrow> 2 * length (w v) \<le> n \<Longrightarrow> ends_value rest \<Longrightarrow>
     parse_value n (w v @ rest) = Some (coerced v, rest)"
  by (simp add: reads_back_def)

lemma reads_backI:
  assumes "\<And>n rest. ends_value rest \<Longrightarrow> parse_value (Suc n) (w v @ rest) = Some (coerced v, rest)" "w v \<noteq> []"
  shows "reads_back w v"
  unfolding reads_back_def
proof (intro allI impI)
  fix n rest
  assume "2 * length (w v) \<le> n" and rest: "ends_value rest"
  then have "n \<noteq> 0" using assms(2) by (cases "w v") auto
  then show "parse_value n (w v @ rest) = Some (coerced v, rest)" using assms(1) rest by (cases n) auto
qed

definition member_with :: "(string \<Rightarrow> string) \<Rightarrow> (json \<Rightarrow> string) \<Rightarrow> string \<times> json \<Rightarrow> string" where
  "member_with q w kv = q (fst kv) @ '':'' @ w (snd kv)"

text \<open>
  The interface of a printer: strings are quoted in a way that the parser undoes, up to the bytes
  that are no valid UTF-8, and every other value is written without blanks.
\<close>

locale json_writer =
  fixes quote :: "string \<Rightarrow> string" and printed :: "json \<Rightarrow> string"
  assumes quoted: "\<exists>body. quote s = CHR 0x22 # body \<and>
      (\<forall>rest. parse_chars (Suc (length (body @ rest))) (body @ rest) = Some (to_valid s, rest))"
    and printed_literals: "printed JNull = ''null''" "printed (JBool b) = (if b then ''true'' else ''false'')" "printed (JNum t) = t"
    and printed_string: "printed (JStr s) = quote s"
    and printed_array: "printed (JArr xs) = ''['' @ join_with '','' (map printed xs) @ '']''"
    and printed_object: "printed (JObj kvs) = ''{'' @ join_with '','' (map (member_with quote printed) kvs) @ ''}''"
begin

lemma written_start: "numbers_ok v \<Longrightarrow> \<exists>c cs. printed v = c # cs \<and> value_start c"
proof (cases v)
  case (JNum t)
  then show "numbers_ok v \<Longrightarrow> ?thesis" using number_start [of t] digit_start by (auto simp: printed_literals)
next
  case (JStr s)
  then show ?thesis using quoted [of s] by (auto simp: printed_string value_start_def is_json_ws_def)
qed (auto simp: printed_literals printed_array printed_object value_start_def is_json_ws_def)

lemma elems_back:
  "vs \<noteq> [] \<Longrightarrow> (\<forall>v\<in>set vs. reads_back printed v) \<Longrightarrow> 2 * length (join_with '','' (map printed vs)) < n \<Longrightarrow>
     parse_elems n (join_with '','' (map printed vs) @ CHR '']'' # rest) = Some (map coerced vs, rest)"
proof (induction vs arbitrary: n)
  case Nil
  then show ?case by simp
next
  case (Cons v vs)
  note prems = Cons.prems and IH = Cons.IH
  from prems obtain m where n: "n = Suc m" by (cases n) auto
  show ?case
  proof (cases vs)
    case Nil
    with prems n show ?thesis by (simp add: reads_backD)
  next
    case (Cons w ws)
    let ?t = "join_with '','' (map printed vs) @ CHR '']'' # rest"
    have shape: "join_with '','' (map printed (v # vs)) @ CHR '']'' # rest = printed v @ CHR '','' # ?t"
      using Cons by simp
    have "parse_value m (printed v @ CHR '','' # ?t) = Some (coerced v, CHR '','' # ?t)"
      using prems n Cons by (intro reads_backD) auto
    moreover have "parse_elems m ?t = Some (map coerced vs, rest)"
      using prems n Cons by (intro IH) auto
    ultimately show ?thesis unfolding shape n by simp
  qed
qed

lemma members_back:
  "kvs \<noteq> [] \<Longrightarrow> (\<forall>kv\<in>set kvs. reads_back printed (snd kv)) \<Longrightarrow>
     2 * length (join_with '','' (map (member_with quote printed) kvs)) < n \<Longrightarrow>
     parse_members n (join_with '','' (map (member_with quote printed) kvs) @ CHR 0x7D # rest) =
       Some (map (\<lambda>kv. (to_valid (fst kv), coerced (snd kv))) kvs, rest)"
proof (induction kvs arbitrary: n)
  case Nil
  then show ?case by simp
next
  case (Cons kv kvs)
  note prems = Cons.prems and IH = Cons.IH
  from prems obtain m where n: "n = Suc m" by (cases n) auto
  obtain k v where kv: "kv = (k, v)" by (cases kv)
  obtain body where body: "quote k = CHR 0x22 # body"
      "\<And>t. parse_chars (Suc (length (body @ t))) (body @ t) = Some (to_valid k, t)"
    using quoted [of k] by blast
  show ?case
  proof (cases kvs)
    case Nil
    have "parse_value m (printed v @ CHR 0x7D # rest) = Some (coerced v, CHR 0x7D # rest)"
      using prems n kv Nil by (intro reads_backD) (auto simp: member_with_def)
    then show ?thesis
      using Nil n kv body(1) body(2) [of "CHR '':'' # printed v @ CHR 0x7D # rest"]
      by (simp add: member_with_def del: parse_chars.simps)
  next
    case (Cons w ws)
    let ?t = "join_with '','' (map (member_with quote printed) kvs) @ CHR 0x7D # rest"
    have shape: "join_with '','' (map (member_with quote printed) (kv # kvs)) @ CHR 0x7D # rest =
        CHR 0x22 # body @ CHR '':'' # printed v @ CHR '','' # ?t"
      using Cons kv body(1) by (simp add: member_with_def)
    have "parse_value m (printed v @ CHR '','' # ?t) = Some (coerced v, CHR '','' # ?t)"
      using prems n kv Cons by (intro reads_backD) (auto simp: member_with_def)
    moreover have "parse_members m ?t = Some (map (\<lambda>kv. (to_valid (fst kv), coerced (snd kv))) kvs, rest)"
      using prems n kv Cons by (intro IH) auto
    ultimately show ?thesis
      unfolding shape n using kv body(2) [of "CHR '':'' # printed v @ CHR '','' # ?t"]
      by (simp del: parse_chars.simps)
  qed
qed

lemma literals_back: "reads_back printed JNull" "reads_back printed (JBool b)"
proof -
  have skip: "skip_ws (''null'' @ rest) = ''null'' @ rest" "skip_ws (''true'' @ rest) = ''true'' @ rest"
    "skip_ws (''false'' @ rest) = ''false'' @ rest" for rest
    by (simp_all add: skip_ws_def is_json_ws_def)
  have "parse_value (Suc n) (''null'' @ rest) = Some (JNull, rest)"
    "parse_value (Suc n) (''true'' @ rest) = Some (JBool True, rest)"
    "parse_value (Suc n) (''false'' @ rest) = Some (JBool False, rest)" for n rest
    by (simp_all only: parse_value.simps skip) (simp_all add: literal_def has_prefix_def)
  then show "reads_back printed JNull" "reads_back printed (JBool b)"
    by (intro reads_backI; simp add: printed_literals)+
qed

lemma number_back: "number_ok t \<Longrightarrow> reads_back printed (JNum t)"
proof (rule reads_backI)
  assume t: "number_ok t"
  then obtain c cs where c: "t = c # cs" "is_digit c \<or> c = CHR ''-''"
    using number_start [of t] by auto
  then show "printed (JNum t) \<noteq> []" by (simp add: printed_literals)
  show "parse_value (Suc n) (printed (JNum t) @ rest) = Some (coerced (JNum t), rest)" if "ends_value rest" for n rest
    using parse_number_end [OF t that] digit_start [OF c(2)] c(1) by (simp add: printed_literals)
qed

lemma string_back: "reads_back printed (JStr s)"
proof -
  obtain body where body: "quote s = CHR 0x22 # body"
      "\<And>t. parse_chars (Suc (length (body @ t))) (body @ t) = Some (to_valid s, t)"
    using quoted [of s] by blast
  then show ?thesis
    using body(2) by (intro reads_backI) (simp_all add: printed_string del: parse_chars.simps)
qed

lemma written_back: "numbers_ok v \<Longrightarrow> reads_back printed v"
proof (induction v)
  case (JArr xs)
  then have xs: "\<forall>v\<in>set xs. reads_back printed v" "\<forall>v\<in>set xs. numbers_ok v" by (auto simp: list_all_iff)
  show ?case
    unfolding reads_back_def
  proof (intro allI impI)
    fix n rest
    assume le: "2 * length (printed (JArr xs)) \<le> n"
    then obtain m where n: "n = Suc m" by (cases n) (auto simp: printed_array)
    show "parse_value n (printed (JArr xs) @ rest) = Some (coerced (JArr xs), rest)"
    proof (cases xs)
      case (Cons v vs)
      obtain c cs where c: "join_with '','' (map printed xs) = c # cs" "value_start c"
        using xs(2) written_start [of v] Cons by (cases vs) auto
      have "parse_elems m (join_with '','' (map printed xs) @ CHR '']'' # rest) = Some (map coerced xs, rest)"
        using xs(1) le n Cons by (intro elems_back) (auto simp: printed_array)
      then show ?thesis using n c by (simp add: value_start_def printed_array)
    qed (simp add: n printed_array)
  qed
next
  case (JObj kvs)
  then have kvs: "\<forall>kv\<in>set kvs. reads_back printed (snd kv)"
    by (fastforce simp: list_all_iff snds.simps)
  show ?case
    unfolding reads_back_def printed_object
  proof (intro allI impI)
    fix n rest
    let ?body = "join_with '','' (map (member_with quote printed) kvs)"
    assume le: "2 * length (''{'' @ ?body @ ''}'') \<le> n"
    then obtain m where n: "n = Suc m" by (cases n) auto
    show "parse_value n ((''{'' @ ?body @ ''}'') @ rest) = Some (coerced (JObj kvs), rest)"
    proof (cases kvs)
      case (Cons kv kvs')
      obtain cs where c: "?body = CHR 0x22 # cs"
        using Cons quoted [of "fst kv"] by (cases kvs') (auto simp: member_with_def)
      have "parse_members m (?body @ CHR 0x7D # rest) =
          Some (map (\<lambda>kv. (to_valid (fst kv), coerced (snd kv))) kvs, rest)"
        using kvs le n Cons by (intro members_back) auto
      then show ?thesis using n c by simp
    qed (simp add: n)
  qed
qed (simp_all add: literals_back number_back string_back)

lemma unmarshal_written: "numbers_ok v \<Longrightarrow> unmarshal (printed v) = Some (coerced v)"
  using reads_backD [OF written_back, of v "2 * length (printed v) + 2" "[]"]
  by (simp add: unmarshal_def skip_ws_def)

end

text \<open>\<open>json.Marshal\<close> is such a printer.\<close>

interpretation go: json_writer quote_string json_text
proof
  show "\<exists>body. quote_string s = CHR 0x22 # body \<and>
      (\<forall>rest. parse_chars (Suc (length (body @ rest))) (body @ rest) = Some (to_valid s, rest))" for s
    using parse_quoted [of s] by (intro exI [of _ "escape_text s @ [CHR 0x22]"]) (simp add: quote_string_def del: parse_chars.simps)
qed (simp_all add: member_with_def [abs_def])

lemma parse_wf_text:
  "wf_json v \<Longrightarrow> 2 * length (json_text v) \<le> n \<Longrightarrow> ends_value rest \<Longrightarrow>
     parse_value n (json_text v @ rest) = Some (v, rest)"
  using reads_backD [OF go.written_back [OF wf_numbers], of v n rest] wf_coerced [of v] by simp

lemma unmarshal_json_text: "wf_json v \<Longrightarrow> unmarshal (json_text v) = Some v"
  by (simp add: go.unmarshal_written wf_numbers wf_coerced)

lemma unmarshal_into_text: "wf_json v \<Longrightarrow> unmarshal_into d (json_text v) = d v"
  by (simp add: unmarshal_into_def unmarshal_json_text)

section \<open>Integers\<close>

lemma nat_digits_head: "hd (nat_digits n) = CHR ''0'' \<Longrightarrow> n = 0"
proof (induction n rule: nat_digits.induct)
  case (1 n)
  show ?case
  proof (cases "n < 10")
    case True
    then have "digit_val (hd (nat_digits n)) = Some n" by (simp add: nat_digits.simps [of n])
    with 1(2) show ?thesis by (simp add: digit_val_def)
  next
    case False
    then have "hd (nat_digits n) = hd (nat_digits (n div 10))"
      by (simp add: nat_digits.simps [of n])
    with 1 False show ?thesis by auto
  qed
qed

lemma nat_digits_are_digits: "c \<in> set (nat_digits n) \<Longrightarrow> is_digit c"
  using nat_digits_all_digits [of c n] by (auto simp: is_digit_def)

lemma take_digits_nat [simp]: "take_digits (nat_digits n) = (nat_digits n, [])"
  by (simp add: take_digits_def takeWhile_eq_all_conv nat_digits_are_digits)

lemma parse_int_nat_digits: "parse_int_part (nat_digits n) = Some (nat_digits n, [])"
proof (cases "nat_digits n")
  case Nil
  then show ?thesis by simp
next
  case (Cons c cs)
  show ?thesis
  proof (cases "c = CHR ''0''")
    case True
    then have "n = 0" using nat_digits_head [of n] Cons by simp
    then show ?thesis using Cons True by (simp add: parse_int_part_def nat_digits.simps [of 0])
  next
    case False
    then show ?thesis
      using Cons nat_digits_are_digits [of c n] take_digits_nat [of n] by (simp add: parse_int_part_def)
  qed
qed

lemma number_ok_itoa: "number_ok (itoa i)"
proof -
  have sign: "parse_sign (nat_digits n) = ([], nat_digits n)" for n
  proof (cases "nat_digits n")
    case (Cons c cs)
    then have "c \<noteq> CHR ''-''"
      using nat_digits_are_digits [of c n] by (auto simp: is_digit_def digit_val_def)
    then show ?thesis using Cons by (simp add: parse_sign_def)
  qed simp
  show ?thesis
    using sign by (cases "i < 0") (simp_all add: number_ok_def itoa_def parse_number_def parse_int_nat_digits
        parse_frac_part_def parse_exp_part_def flip: parse_sign_def)
qed

lemma itoa_valid [simp]: "valid_utf8 (itoa i)"
proof -
  have digit: "is_ascii c" if "is_digit c" for c
    using that by (auto simp: is_digit_def digit_val_def Let_def is_ascii_def split: if_splits)
  have "list_all is_ascii (nat_digits n)" for n
    using nat_digits_are_digits digit by (auto simp: list_all_iff)
  then have "list_all is_ascii (itoa i)" by (simp add: itoa_def is_ascii_def)
  then show ?thesis by (rule valid_ascii)
qed

end
