(* ===== verification/Claim.thy ===== *)
theory Claim
  imports World Json_Roundtrip
begin

text \<open>
  The package \<open>internal/claim\<close>: taking and giving back an issue. The lock is the state of the
  issue on GitHub: the label \<open>in-progress\<close>, no label \<open>ready-for-agent\<close>, and one assignee. The
  first part models \<open>Claim\<close> and \<open>Release\<close> call by call. The second part runs several processes
  against one issue, their reads and edits interleaved in every order; what \<open>gh issue edit\<close> does
  to the issue is its documented behaviour, applied to the very arguments the code passes.
\<close>

section \<open>The view of an issue\<close>

record issue_view =
  iv_labels :: "string list"
  iv_assignees :: "string list"

definition dec_issue_view :: "json \<Rightarrow> issue_view option" where
  "dec_issue_view j =
     (case (get_list (get_str ''name'') ''labels'' j, get_list (get_str ''login'') ''assignees'' j) of
        (Some ls, Some as) \<Rightarrow> Some \<lparr>iv_labels = ls, iv_assignees = as\<rparr>
      | _ \<Rightarrow> None)"

definition has_label :: "issue_view \<Rightarrow> string \<Rightarrow> bool" where
  "has_label v name \<longleftrightarrow> list_ex (\<lambda>l. l = name) (iv_labels v)"

definition is_sole_assignee :: "issue_view \<Rightarrow> string \<Rightarrow> bool" where
  "is_sole_assignee v login \<longleftrightarrow> length (iv_assignees v) = 1 \<and> iv_assignees v ! 0 = login"

definition is_claimed_by :: "issue_view \<Rightarrow> string \<Rightarrow> bool" where
  "is_claimed_by v login \<longleftrightarrow>
     has_label v ''in-progress'' \<and> \<not> has_label v ''ready-for-agent'' \<and> is_sole_assignee v login"

definition has_assignee :: "issue_view \<Rightarrow> string \<Rightarrow> bool" where
  "has_assignee v login \<longleftrightarrow> list_ex (\<lambda>a. a = login) (iv_assignees v)"

definition view_issue :: "env \<Rightarrow> string \<Rightarrow> int \<Rightarrow> issue_view result M" where
  "view_issue E token n =
     handle (run_with_token E token []
         [''gh'', ''issue'', ''view'', itoa n, ''--json'', ''labels,assignees''])
       (\<lambda>e. ret (Inl (wrap_err (''gh issue view '' @ itoa n @ '': '') e)))
       (\<lambda>out. ret (case unmarshal_into dec_issue_view out of
            None \<Rightarrow> Inl (msg_err (''parse issue view '' @ itoa n @ '': ''))
          | Some v \<Rightarrow> Inr v))"

section \<open>Claim and Release\<close>

datatype claim_result = ResultOK | ResultIdempotent | ResultRaceLost | ResultNotTakeable | ResultError

datatype release_result =
    ReleaseResultOK | ReleaseResultIdempotent | ReleaseResultForeignClaim | ReleaseResultError

text \<open>The arguments of the edits, after \<open>gh issue edit <n>\<close>.\<close>

definition claim_edit :: "string list" where
  "claim_edit = [''--remove-label'', ''ready-for-agent'', ''--add-label'', ''in-progress'',
                 ''--add-assignee'', ''@me'']"

definition rollback_edit :: "string list" where
  "rollback_edit = [''--add-label'', ''ready-for-agent'', ''--remove-label'', ''in-progress'',
                    ''--remove-assignee'', ''@me'']"

definition release_edit :: "string \<Rightarrow> string list" where
  "release_edit reason =
     [''--remove-label'', ''in-progress'', ''--remove-assignee'', ''@me''] @
     (if reason = ''failed'' then [''--add-label'', ''needs-human'']
      else if reason = ''abandoned'' then [''--add-label'', ''ready-for-agent'']
      else [])"

definition edit_issue :: "env \<Rightarrow> string \<Rightarrow> int \<Rightarrow> string list \<Rightarrow> string result M" where
  "edit_issue E token n args =
     run_with_token E token [] ([''gh'', ''issue'', ''edit'', itoa n] @ args)"

text \<open>What \<open>Claim\<close> decides after the first read, and after the second.\<close>

datatype claim_decision = AlreadyMine | NotTakeable | Take

definition claim_decide :: "issue_view \<Rightarrow> string \<Rightarrow> claim_decision" where
  "claim_decide pre login =
     (if is_claimed_by pre login then AlreadyMine
      else if \<not> has_label pre ''ready-for-agent'' then NotTakeable
      else Take)"

definition claim :: "env \<Rightarrow> int \<Rightarrow> string \<Rightarrow> string \<Rightarrow> (claim_result \<times> gerr option) M" where
  "claim E n login token =
     handle (view_issue E token n) (\<lambda>e. ret (ResultError, Some e)) (\<lambda>pre.
       case claim_decide pre login of
         AlreadyMine \<Rightarrow> ret (ResultIdempotent, None)
       | NotTakeable \<Rightarrow> ret (ResultNotTakeable, None)
       | Take \<Rightarrow>
           handle (edit_issue E token n claim_edit)
             (\<lambda>e. ret (ResultError, Some (wrap_err (''gh issue edit '' @ itoa n @ '': '') e))) (\<lambda>_.
           handle (view_issue E token n)
             (\<lambda>e. ret (ResultError, Some (wrap_err ''post-verify: '' e))) (\<lambda>post.
             if is_claimed_by post login then ret (ResultOK, None)
             else handle (edit_issue E token n rollback_edit)
               (\<lambda>e. ret (ResultRaceLost, Some (wrap_err ''rollback failed: '' e)))
               (\<lambda>_. ret (ResultRaceLost, Some (msg_err ''race lost''))))))"

definition release :: "env \<Rightarrow> int \<Rightarrow> string \<Rightarrow> string \<Rightarrow> string \<Rightarrow> (release_result \<times> gerr option) M" where
  "release E n login token reason =
     handle (view_issue E token n) (\<lambda>e. ret (ReleaseResultError, Some e)) (\<lambda>pre.
       if \<not> has_label pre ''in-progress'' then ret (ReleaseResultIdempotent, None)
       else if \<not> has_assignee pre login
       then ret (ReleaseResultForeignClaim, Some (msg_err (''issue #'' @ itoa n @ '' is claimed by another'')))
       else handle (edit_issue E token n (release_edit reason))
         (\<lambda>e. ret (ReleaseResultError, Some (wrap_err (''gh issue edit '' @ itoa n @ '': '') e)))
         (\<lambda>_. ret (ReleaseResultOK, None)))"

section \<open>An issue on GitHub\<close>

record gh_issue =
  gi_labels :: "string set"
  gi_assignees :: "string set"

text \<open>\<open>gh issue edit\<close> applied by the user \<open>me\<close>: adding what is there and removing what is not
  change nothing.\<close>

fun gh_edit :: "string \<Rightarrow> string list \<Rightarrow> gh_issue \<Rightarrow> gh_issue" where
  "gh_edit me (opt # arg # rest) i =
     (let who = (if arg = ''@me'' then me else arg);
          i' = (if opt = ''--add-label'' then i\<lparr>gi_labels := insert arg (gi_labels i)\<rparr>
                else if opt = ''--remove-label'' then i\<lparr>gi_labels := gi_labels i - {arg}\<rparr>
                else if opt = ''--add-assignee'' then i\<lparr>gi_assignees := insert who (gi_assignees i)\<rparr>
                else if opt = ''--remove-assignee'' then i\<lparr>gi_assignees := gi_assignees i - {who}\<rparr>
                else i)
      in gh_edit me rest i')"
| "gh_edit me _ i = i"

text \<open>\<open>v\<close> is what \<open>gh issue view\<close> shows of \<open>i\<close>: the labels and the assignees in some order.\<close>

definition shows_issue :: "gh_issue \<Rightarrow> issue_view \<Rightarrow> bool" where
  "shows_issue i v \<longleftrightarrow>
     set (iv_labels v) = gi_labels i \<and> set (iv_assignees v) = gi_assignees i \<and> distinct (iv_assignees v)"

section \<open>Several processes\<close>

text \<open>
  Where a process is in \<open>Claim\<close>: before the first read, before the edit, before the second
  read, before the rollback, holding the issue, or done without it.
\<close>

datatype phase = PStart | PEdit | PVerify | PRollback | PHolds | PDone

type_synonym 'p world = "gh_issue \<times> ('p \<Rightarrow> phase)"

text \<open>
  One step of one process, with the login it acts as: the code between two calls and the call.
  A failed call leaves the issue alone and ends the attempt; a failed edit may also have been
  applied.
\<close>

inductive claim_step :: "('p \<Rightarrow> string) \<Rightarrow> 'p world \<Rightarrow> 'p world \<Rightarrow> bool" for login where
  read_mine: "ph p = PStart \<Longrightarrow> shows_issue i v \<Longrightarrow> claim_decide v (login p) = AlreadyMine \<Longrightarrow>
    claim_step login (i, ph) (i, ph(p := PHolds))"
| read_taken: "ph p = PStart \<Longrightarrow> shows_issue i v \<Longrightarrow> claim_decide v (login p) = NotTakeable \<Longrightarrow>
    claim_step login (i, ph) (i, ph(p := PDone))"
| read_free: "ph p = PStart \<Longrightarrow> shows_issue i v \<Longrightarrow> claim_decide v (login p) = Take \<Longrightarrow>
    claim_step login (i, ph) (i, ph(p := PEdit))"
| edit: "ph p = PEdit \<Longrightarrow>
    claim_step login (i, ph) (gh_edit (login p) claim_edit i, ph(p := PVerify))"
| edit_lost: "ph p = PEdit \<Longrightarrow>
    claim_step login (i, ph) (gh_edit (login p) claim_edit i, ph(p := PDone))"
| verify_ok: "ph p = PVerify \<Longrightarrow> shows_issue i v \<Longrightarrow> is_claimed_by v (login p) \<Longrightarrow>
    claim_step login (i, ph) (i, ph(p := PHolds))"
| verify_lost: "ph p = PVerify \<Longrightarrow> shows_issue i v \<Longrightarrow> \<not> is_claimed_by v (login p) \<Longrightarrow>
    claim_step login (i, ph) (i, ph(p := PRollback))"
| rollback: "ph p = PRollback \<Longrightarrow>
    claim_step login (i, ph) (gh_edit (login p) rollback_edit i, ph(p := PDone))"
| fails: "ph p \<in> {PStart, PEdit, PVerify, PRollback} \<Longrightarrow> claim_step login (i, ph) (i, ph(p := PDone))"
| release_mine: "ph p = PHolds \<Longrightarrow> shows_issue i v \<Longrightarrow> has_label v ''in-progress'' \<Longrightarrow>
    has_assignee v (login p) \<Longrightarrow>
    claim_step login (i, ph) (gh_edit (login p) (release_edit reason) i, ph(p := PDone))"
| release_nothing: "ph p = PHolds \<Longrightarrow> shows_issue i v \<Longrightarrow>
    \<not> (has_label v ''in-progress'' \<and> has_assignee v (login p)) \<Longrightarrow>
    claim_step login (i, ph) (i, ph(p := PDone))"
| again: "ph p = PDone \<Longrightarrow> claim_step login (i, ph) (i, ph(p := PStart))"

inductive_cases claim_stepE: "claim_step login x y"

definition all_idle :: "'p world \<Rightarrow> bool" where
  "all_idle w \<longleftrightarrow> (\<forall>p. snd w p = PStart)"

section \<open>A lock\<close>

text \<open>
  The contract of a lock that several processes take: an invariant of the steps under which a
  process that holds it owns a mark on it that a second holder would have to share.
\<close>

locale marked_lock =
  fixes step :: "'s \<Rightarrow> 's \<Rightarrow> bool"
    and initial :: "'s \<Rightarrow> bool"
    and holds :: "'s \<Rightarrow> 'p \<Rightarrow> bool"
    and marked :: "'s \<Rightarrow> 'p \<Rightarrow> bool"
  assumes initially_free: "initial s \<Longrightarrow> \<not> holds s p"
    and mark_kept: "step s t \<Longrightarrow> holds s p \<Longrightarrow> marked s p \<Longrightarrow> holds t p \<Longrightarrow> marked t p"
    and mark_alone: "step s t \<Longrightarrow> \<not> holds s p \<Longrightarrow> holds t p \<Longrightarrow>
      marked t p \<and> (\<forall>q. marked s q \<longrightarrow> q = p)"
    and one_at_a_time: "step s t \<Longrightarrow> \<not> holds s p \<Longrightarrow> holds t p \<Longrightarrow> q \<noteq> p \<Longrightarrow> holds t q \<Longrightarrow> holds s q"
begin

lemma holders_marked: "step\<^sup>*\<^sup>* s t \<Longrightarrow> initial s \<Longrightarrow> holds t p \<Longrightarrow> marked t p"
proof (induction arbitrary: p rule: rtranclp_induct)
  case base
  then show ?case using initially_free by blast
next
  case (step t u)
  then show ?case using mark_kept mark_alone by blast
qed

lemma at_most_one_holder:
  "step\<^sup>*\<^sup>* s t \<Longrightarrow> initial s \<Longrightarrow> holds t p \<Longrightarrow> holds t q \<Longrightarrow> p = q"
proof (induction arbitrary: p q rule: rtranclp_induct)
  case base
  then show ?case using initially_free by blast
next
  case (step t u)
  note marked = holders_marked [OF step.hyps(1) step.prems(1)]
  show ?case
  proof (rule ccontr)
    assume "p \<noteq> q"
    then consider "holds t p" "holds t q" | "\<not> holds t p" "holds t q" | "\<not> holds t q" "holds t p"
      using one_at_a_time [OF step.hyps(2)] step.prems by metis
    then show False
      using step.IH step.prems mark_alone [OF step.hyps(2)] marked \<open>p \<noteq> q\<close> by cases blast+
  qed
qed

end

section \<open>Lemmas\<close>

lemma claimed_view:
  "shows_issue i v \<Longrightarrow> is_claimed_by v me \<longleftrightarrow>
     ''in-progress'' \<in> gi_labels i \<and> ''ready-for-agent'' \<notin> gi_labels i \<and> gi_assignees i = {me}"
proof -
  assume v: "shows_issue i v"
  have "length (iv_assignees v) = 1 \<and> iv_assignees v ! 0 = me \<longleftrightarrow> gi_assignees i = {me}"
  proof
    assume "length (iv_assignees v) = 1 \<and> iv_assignees v ! 0 = me"
    then have "iv_assignees v = [me]" by (cases "iv_assignees v") auto
    with v show "gi_assignees i = {me}" by (simp add: shows_issue_def)
  next
    assume "gi_assignees i = {me}"
    with v have "set (iv_assignees v) = {me}" "distinct (iv_assignees v)"
      by (simp_all add: shows_issue_def)
    then have "iv_assignees v = [me]"
      by (cases "iv_assignees v") (auto simp: subset_singleton_iff)
    then show "length (iv_assignees v) = 1 \<and> iv_assignees v ! 0 = me" by simp
  qed
  with v show ?thesis
    by (auto simp: is_claimed_by_def has_label_def is_sole_assignee_def shows_issue_def list_ex_iff)
qed

lemma edit_assignees:
  "gi_assignees (gh_edit me claim_edit i) = insert me (gi_assignees i)"
  "gi_assignees (gh_edit me rollback_edit i) = gi_assignees i - {me}"
  "gi_assignees (gh_edit me (release_edit reason) i) = gi_assignees i - {me}"
  by (simp_all add: claim_edit_def rollback_edit_def release_edit_def)

lemma edit_labels:
  "gi_labels (gh_edit me claim_edit i) = insert ''in-progress'' (gi_labels i - {''ready-for-agent''})"
  "gi_labels (gh_edit me rollback_edit i) = insert ''ready-for-agent'' (gi_labels i) - {''in-progress''}"
  by (simp_all add: claim_edit_def rollback_edit_def)

definition holding :: "'p world \<Rightarrow> 'p \<Rightarrow> bool" where
  "holding w p \<longleftrightarrow> snd w p = PHolds"

definition assigned :: "('p \<Rightarrow> string) \<Rightarrow> 'p world \<Rightarrow> 'p \<Rightarrow> bool" where
  "assigned login w p \<longleftrightarrow> login p \<in> gi_assignees (fst w)"

lemma decide_mine: "claim_decide v me = AlreadyMine \<longleftrightarrow> is_claimed_by v me"
  by (simp add: claim_decide_def)

text \<open>Processes that act as different users: each is named by its login.\<close>

lemma step_others:
  "claim_step (\<lambda>p. p) w w' \<Longrightarrow> \<exists>p. (\<forall>q. q \<noteq> p \<longrightarrow> snd w' q = snd w q \<and> (assigned (\<lambda>p. p) w q \<longrightarrow> assigned (\<lambda>p. p) w' q)) \<and>
     snd w p \<noteq> snd w' p"
  by (elim claim_stepE; fastforce simp: assigned_def edit_assignees)

lemma step_to_holds:
  assumes "claim_step (\<lambda>p. p) w w'" and "\<not> holding w p" and "holding w' p"
  shows "gi_assignees (fst w') = {p} \<and> fst w' = fst w"
  using assms
  by (elim claim_stepE) (auto simp: holding_def decide_mine claimed_view split: if_splits)

interpretation bots: marked_lock "claim_step (\<lambda>p. p)" all_idle holding "assigned (\<lambda>p. p)"
proof unfold_locales
  fix w w' :: "string world" and p q :: string
  show "all_idle w \<Longrightarrow> \<not> holding w p" by (simp add: all_idle_def holding_def)
  assume st: "claim_step (\<lambda>p. p) w w'"
  obtain r where r: "\<And>q. q \<noteq> r \<Longrightarrow> snd w' q = snd w q \<and> (assigned (\<lambda>p. p) w q \<longrightarrow> assigned (\<lambda>p. p) w' q)"
      "snd w r \<noteq> snd w' r"
    using step_others [OF st] by blast
  show "holding w p \<Longrightarrow> assigned (\<lambda>p. p) w p \<Longrightarrow> holding w' p \<Longrightarrow> assigned (\<lambda>p. p) w' p"
    using r by (cases "p = r") (auto simp: holding_def)
  show "\<not> holding w p \<Longrightarrow> holding w' p \<Longrightarrow>
      assigned (\<lambda>p. p) w' p \<and> (\<forall>q. assigned (\<lambda>p. p) w q \<longrightarrow> q = p)"
    using step_to_holds [OF st, of p] by (metis assigned_def singleton_iff)
  show "\<not> holding w p \<Longrightarrow> holding w' p \<Longrightarrow> q \<noteq> p \<Longrightarrow> holding w' q \<Longrightarrow> holding w q"
    using r unfolding holding_def by metis
qed

section \<open>Properties\<close>

text \<open>
  C16: Processes that act as different users never hold an issue at the same time, whatever the
  state of the issue at the start, the order of their calls, the calls that fail and the edits
  that are applied although they are reported as failed.
\<close>

theorem claim_exclusive:
  assumes "(claim_step (\<lambda>p. p))\<^sup>*\<^sup>* (i, \<lambda>_. PStart) w"
    and "holding w p" and "holding w q"
  shows "p = q"
  by (rule bots.at_most_one_holder [OF assms(1) _ assms(2,3)]) (simp add: all_idle_def)

text \<open>A run in which the process of the second user reads before and edits after the first.\<close>

definition ready_issue :: gh_issue where
  "ready_issue = \<lparr>gi_labels = {''ready-for-agent''}, gi_assignees = {}\<rparr>"

definition taken_issue :: "string set \<Rightarrow> gh_issue" where
  "taken_issue who = \<lparr>gi_labels = {''in-progress''}, gi_assignees = who\<rparr>"

definition taken_view :: "string list \<Rightarrow> issue_view" where
  "taken_view who = \<lparr>iv_labels = [''in-progress''], iv_assignees = who\<rparr>"

definition ready_view :: issue_view where
  "ready_view = \<lparr>iv_labels = [''ready-for-agent''], iv_assignees = []\<rparr>"

lemma race_views:
  "shows_issue ready_issue ready_view" "claim_decide ready_view me = Take"
  "distinct who \<Longrightarrow> shows_issue (taken_issue (set who)) (taken_view who)"
  "is_claimed_by (taken_view [me]) me" "\<not> is_claimed_by (taken_view [me, you]) u"
  "gh_edit me claim_edit ready_issue = taken_issue {me}"
  "gh_edit me claim_edit (taken_issue whom) = taken_issue (insert me whom)"
  by (simp_all add: shows_issue_def ready_issue_def ready_view_def taken_issue_def taken_view_def
      claim_decide_def is_claimed_by_def has_label_def is_sole_assignee_def claim_edit_def)

lemma race_to_verify:
  assumes "p \<noteq> q"
  shows "(claim_step login)\<^sup>*\<^sup>* (ready_issue, \<lambda>_. PStart)
    (taken_issue {login p}, (\<lambda>_. PStart)(q := PEdit, p := PHolds))"
proof -
  let ?n = "\<lambda>_. PStart"
  have "claim_step login (ready_issue, ?n) (ready_issue, ?n(q := PEdit))"
    by (rule read_free [OF _ race_views(1,2)]) simp
  moreover have "claim_step login (ready_issue, ?n(q := PEdit)) (ready_issue, (?n(q := PEdit))(p := PEdit))"
    by (rule read_free [OF _ race_views(1,2)]) (use assms in simp)
  moreover have "claim_step login (ready_issue, (?n(q := PEdit))(p := PEdit))
      (gh_edit (login p) claim_edit ready_issue, ((?n(q := PEdit))(p := PEdit))(p := PVerify))"
    by (rule edit) simp
  moreover have "claim_step login (taken_issue (set [login p]), ((?n(q := PEdit))(p := PEdit))(p := PVerify))
      (taken_issue (set [login p]), (((?n(q := PEdit))(p := PEdit))(p := PVerify))(p := PHolds))"
    by (rule verify_ok [OF _ race_views(3) race_views(4)]) simp_all
  ultimately show ?thesis
    by (simp add: race_views(6) converse_rtranclp_into_rtranclp)
qed

theorem claim_exclusive_witness:
  "\<exists>w. (claim_step (\<lambda>p. p))\<^sup>*\<^sup>* (ready_issue, \<lambda>_. PStart) w \<and> holding w ''a'' \<and>
     (\<lambda>q. holding w q) = (\<lambda>q. q = ''a'')"
proof -
  let ?w = "(taken_issue {''a''}, (\<lambda>_. PStart)(''b'' := PEdit, ''a'' := PHolds))"
  have run: "(claim_step (\<lambda>p. p))\<^sup>*\<^sup>* (ready_issue, \<lambda>_. PStart) ?w"
    using race_to_verify [of "''a''" "''b''" "\<lambda>p. p"] by simp
  have a: "holding ?w ''a''" by (simp add: holding_def)
  then have "(\<lambda>q. holding ?w q) = (\<lambda>q. q = ''a'')"
    using claim_exclusive [OF run] by blast
  with run a show ?thesis by blast
qed

text \<open>
  The rollback of a process that lost the race undoes the labels of the winner: a state can be
  reached in which one process holds the issue while the issue is marked \<open>ready-for-agent\<close> and no
  longer \<open>in-progress\<close>.
\<close>

theorem rollback_reopens_held_issue:
  "\<exists>w. (claim_step (\<lambda>p. p))\<^sup>*\<^sup>* (ready_issue, \<lambda>_. PStart) w \<and> holding w ''a'' \<and>
     gi_labels (fst w) = {''ready-for-agent''} \<and> gi_assignees (fst w) = {''a''}"
proof -
  let ?l = "\<lambda>p. p :: string"
  let ?h = "(\<lambda>_. PStart)(''b'' := PEdit, ''a'' := PHolds) :: string \<Rightarrow> phase"
  have run: "(claim_step ?l)\<^sup>*\<^sup>* (ready_issue, \<lambda>_. PStart) (taken_issue {''a''}, ?h)"
    using race_to_verify [of "''a''" "''b''" ?l] by simp
  have e: "claim_step ?l (taken_issue {''a''}, ?h) (taken_issue {''b'', ''a''}, ?h(''b'' := PVerify))"
    using edit [where ph = ?h and p = "''b''" and login = ?l and i = "taken_issue {''a''}"]
    by (simp add: race_views(7))
  have v: "claim_step ?l (taken_issue (set [''b'', ''a'']), ?h(''b'' := PVerify))
      (taken_issue (set [''b'', ''a'']), (?h(''b'' := PVerify))(''b'' := PRollback))"
    by (rule verify_lost [OF _ race_views(3) race_views(5)]) simp_all
  let ?k = "(?h(''b'' := PVerify))(''b'' := PRollback)"
  have r: "claim_step ?l (taken_issue {''b'', ''a''}, ?k)
      (gh_edit ''b'' rollback_edit (taken_issue {''b'', ''a''}), ?k(''b'' := PDone))"
    using rollback [where ph = ?k and p = "''b''" and login = ?l] by simp
  let ?w = "(gh_edit ''b'' rollback_edit (taken_issue {''b'', ''a''}), ?k(''b'' := PDone))"
  have "(claim_step ?l)\<^sup>*\<^sup>* (ready_issue, \<lambda>_. PStart) ?w"
    using run e v r by (simp add: rtranclp.rtrancl_into_rtrancl)
  moreover have "holding ?w ''a''" by (simp add: holding_def)
  moreover have "gi_labels (fst ?w) = {''ready-for-agent''}" "gi_assignees (fst ?w) = {''a''}"
    by (auto simp: edit_labels edit_assignees taken_issue_def)
  ultimately show ?thesis by blast
qed

text \<open>
  Two processes that act as the same user can both hold an issue: the lock excludes users, not
  processes.
\<close>

theorem same_login_not_exclusive:
  "\<exists>w. (claim_step (\<lambda>p. ''bot''))\<^sup>*\<^sup>* (ready_issue, \<lambda>_. PStart) w \<and> holding w (0 :: nat) \<and> holding w 1"
proof -
  let ?l = "\<lambda>p :: nat. ''bot''"
  let ?h = "(\<lambda>_. PStart)(1 := PEdit, 0 := PHolds) :: nat \<Rightarrow> phase"
  have run: "(claim_step ?l)\<^sup>*\<^sup>* (ready_issue, \<lambda>_. PStart) (taken_issue {''bot''}, ?h)"
    using race_to_verify [of 0 1 ?l] by simp
  have e: "claim_step ?l (taken_issue {''bot''}, ?h) (taken_issue {''bot''}, ?h(1 := PVerify))"
    using edit [where ph = ?h and p = 1 and login = ?l and i = "taken_issue {''bot''}"]
    by (simp add: race_views(7))
  have v: "claim_step ?l (taken_issue (set [''bot'']), ?h(1 := PVerify))
      (taken_issue (set [''bot'']), (?h(1 := PVerify))(1 := PHolds))"
    by (rule verify_ok [OF _ race_views(3) race_views(4)]) simp_all
  have "(claim_step ?l)\<^sup>*\<^sup>* (ready_issue, \<lambda>_. PStart)
      (taken_issue {''bot''}, (?h(1 := PVerify))(1 := PHolds))"
    using run e v by (simp add: rtranclp.rtrancl_into_rtrancl)
  moreover have "holding (taken_issue {''bot''}, (?h(1 := PVerify))(1 := PHolds)) 0"
    "holding (taken_issue {''bot''}, (?h(1 := PVerify))(1 := PHolds)) 1"
    by (simp_all add: holding_def)
  ultimately show ?thesis by blast
qed

definition shows_claim :: "int \<Rightarrow> string \<Rightarrow> call \<Rightarrow> bool" where
  "shows_claim n login c \<longleftrightarrow>
     (case c of
        CExec (Cmd _ _ argv) (Inr out) \<Rightarrow>
          argv = [''gh'', ''issue'', ''view'', itoa n, ''--json'', ''labels,assignees''] \<and>
          (case unmarshal_into dec_issue_view out of None \<Rightarrow> False | Some v \<Rightarrow> is_claimed_by v login)
      | _ \<Rightarrow> False)"

definition edits_issue :: "int \<Rightarrow> string list \<Rightarrow> call \<Rightarrow> bool" where
  "edits_issue n args c \<longleftrightarrow>
     (case c of CExec (Cmd _ _ argv) _ \<Rightarrow> argv = [''gh'', ''issue'', ''edit'', itoa n] @ args | _ \<Rightarrow> False)"

lemma view_issue_answer:
  "wp (view_issue E token n) (\<lambda>r t. \<exists>c. rs_trace t = rs_trace s @ [c] \<and>
      (case r of Inr v \<Rightarrow> shows_claim n login c = is_claimed_by v login | Inl _ \<Rightarrow> True)) s"
  by (auto simp: wp_def view_issue_def handle_def op_defs run_prims shows_claim_def
      split: sum.split option.split)

lemma edit_issue_call:
  "wp (edit_issue E token n args) (\<lambda>r t. edits_issue n args (last (rs_trace t))) s"
  by (simp add: wp_def edit_issue_def op_defs run_prims edits_issue_def)

text \<open>What the last calls of \<open>Claim\<close> were, for each of its results.\<close>

definition claim_ended :: "int \<Rightarrow> string \<Rightarrow> rstate \<Rightarrow> claim_result \<times> gerr option \<Rightarrow> rstate \<Rightarrow> bool" where
  "claim_ended n login s r t \<longleftrightarrow>
     (case fst r of
        ResultOK \<Rightarrow> rs_trace t \<noteq> [] \<and> shows_claim n login (last (rs_trace t))
      | ResultIdempotent \<Rightarrow> (\<exists>c. rs_trace t = rs_trace s @ [c] \<and> shows_claim n login c)
      | ResultRaceLost \<Rightarrow> edits_issue n rollback_edit (last (rs_trace t))
      | ResultNotTakeable \<Rightarrow> (\<exists>c. rs_trace t = rs_trace s @ [c])
      | ResultError \<Rightarrow> snd r \<noteq> None)"

lemma claim_ends: "wp (claim E n login token) (claim_ended n login s) s"
proof -
  let ?Q = "claim_ended n login s"
  have rollback: "wp (handle (edit_issue E token n rollback_edit)
      (\<lambda>e. ret (ResultRaceLost, Some (wrap_err ''rollback failed: '' e)))
      (\<lambda>_. ret (ResultRaceLost, Some (msg_err ''race lost'')))) ?Q t" for t
    unfolding wp_handle by (rule wp_mono [OF edit_issue_call]) (simp add: wp_return claim_ended_def split: sum.split)
  have verify: "wp (handle (view_issue E token n) (\<lambda>e. ret (ResultError, Some (wrap_err ''post-verify: '' e)))
      (\<lambda>post. if is_claimed_by post login then ret (ResultOK, None)
        else handle (edit_issue E token n rollback_edit)
          (\<lambda>e. ret (ResultRaceLost, Some (wrap_err ''rollback failed: '' e)))
          (\<lambda>_. ret (ResultRaceLost, Some (msg_err ''race lost''))))) ?Q t" for t
    unfolding wp_handle [of "view_issue E token n"]
    by (rule wp_mono [OF view_issue_answer [where login = login]])
      (auto simp: wp_return rollback claim_ended_def split: sum.split)
  show ?thesis
    unfolding claim_def wp_handle [of "view_issue E token n"]
    by (rule wp_mono [OF view_issue_answer [where login = login]])
      (auto simp: wp_return wp_handle [of "edit_issue E token n claim_edit"] claim_decide_def claim_ended_def
        intro!: wp_mono [OF wp_true] verify split: sum.split claim_decision.split if_splits)
qed

text \<open>
  \<open>Claim\<close> reports success only when its last call showed the issue in progress and assigned to
  the login alone; when it reports a lost race its last call was the rollback; and when it reports
  that the issue is its own already or not takeable, it has only looked.
\<close>

theorem claim_contract:
  "case fst (run_value (claim E n login token) s) of
     ResultOK \<Rightarrow> shows_claim n login (last (rs_trace (final_state (claim E n login token) s)))
   | ResultIdempotent \<Rightarrow> (\<exists>c. rs_trace (final_state (claim E n login token) s) = rs_trace s @ [c] \<and> shows_claim n login c)
   | ResultRaceLost \<Rightarrow> edits_issue n rollback_edit (last (rs_trace (final_state (claim E n login token) s)))
   | ResultNotTakeable \<Rightarrow> (\<exists>c. rs_trace (final_state (claim E n login token) s) = rs_trace s @ [c])
   | ResultError \<Rightarrow> snd (run_value (claim E n login token) s) \<noteq> None"
  using claim_ends [of E n login token s]
  by (auto simp: wp_def claim_ended_def split: claim_result.splits)

section \<open>The code refines the step relation\<close>

text \<open>
  The ghost state \<open>G\<close> gives the world after each history of the process's calls, other processes
  included. GitHub serves \<open>p\<close> when what it shows is the issue of that moment, an edit that succeeds
  is applied and one that fails may be, and between two calls of \<open>p\<close> only others take steps.
\<close>

definition view_cmd :: "string \<Rightarrow> int \<Rightarrow> cmd" where
  "view_cmd token n = Cmd [(''GH_TOKEN'', token)] []
     [''gh'', ''issue'', ''view'', itoa n, ''--json'', ''labels,assignees'']"

definition edit_cmd :: "string \<Rightarrow> int \<Rightarrow> string list \<Rightarrow> cmd" where
  "edit_cmd token n args = Cmd [(''GH_TOKEN'', token)] [] ([''gh'', ''issue'', ''edit'', itoa n] @ args)"

definition others_move :: "string \<Rightarrow> string world \<Rightarrow> string world \<Rightarrow> bool" where
  "others_move p w w' \<longleftrightarrow>
     (\<forall>x. (claim_step (\<lambda>p. p))\<^sup>*\<^sup>* (fst w, (snd w)(p := x)) (fst w', (snd w')(p := x)))"

definition github_serves ::
  "env \<Rightarrow> string \<Rightarrow> string \<Rightarrow> int \<Rightarrow> (call list \<Rightarrow> string world) \<Rightarrow> bool" where
  "github_serves E p token n G \<longleftrightarrow>
     (\<forall>t. (case e_exec E t (view_cmd token n) of
             Inl _ \<Rightarrow> True
           | Inr out \<Rightarrow> (case unmarshal_into dec_issue_view out of
                 None \<Rightarrow> True | Some v \<Rightarrow> shows_issue (fst (G t)) v)) \<and>
          others_move p (G t) (G (t @ [CExec (view_cmd token n) (e_exec E t (view_cmd token n))]))) \<and>
     (\<forall>t args. let t' = t @ [CExec (edit_cmd token n args) (e_exec E t (edit_cmd token n args))];
                   applied = others_move p (gh_edit p args (fst (G t)), snd (G t)) (G t')
               in (case e_exec E t (edit_cmd token n args) of
                     Inr _ \<Rightarrow> applied | Inl _ \<Rightarrow> applied \<or> others_move p (G t) (G t')))"

definition at_phase :: "(call list \<Rightarrow> string world) \<Rightarrow> string \<Rightarrow> rstate \<Rightarrow> phase \<Rightarrow> string world" where
  "at_phase G p s x = (fst (G (rs_trace s)), (snd (G (rs_trace s)))(p := x))"

definition phase_of :: "claim_result \<Rightarrow> phase" where
  "phase_of r = (case r of ResultOK \<Rightarrow> PHolds | ResultIdempotent \<Rightarrow> PHolds | _ \<Rightarrow> PDone)"

abbreviation bot_steps :: "string world \<Rightarrow> string world \<Rightarrow> bool" where
  "bot_steps \<equiv> (claim_step (\<lambda>p. p))\<^sup>*\<^sup>*"

lemma view_issue_moves:
  assumes "github_serves E p token n G"
  shows "wp (view_issue E token n) (\<lambda>r t.
      (case r of Inr v \<Rightarrow> shows_issue (fst (G (rs_trace s))) v | Inl _ \<Rightarrow> True) \<and>
      (\<forall>x. bot_steps (at_phase G p s x) (at_phase G p t x))) s"
  using assms
  by (auto simp: wp_def view_issue_def handle_def op_defs run_prims github_serves_def at_phase_def
      view_cmd_def others_move_def split: sum.splits option.splits)

lemma edit_issue_run:
  "run_value (edit_issue E token n args) s = e_exec E (rs_trace s) (edit_cmd token n args)"
  "rs_trace (final_state (edit_issue E token n args) s) =
     rs_trace s @ [CExec (edit_cmd token n args) (e_exec E (rs_trace s) (edit_cmd token n args))]"
  by (simp_all add: edit_issue_def op_defs run_prims edit_cmd_def)

lemma edit_issue_moves:
  assumes "github_serves E p token n G"
  shows "wp (edit_issue E token n args) (\<lambda>r t.
      let done = (\<forall>x. bot_steps (gh_edit p args (fst (G (rs_trace s))), (snd (G (rs_trace s)))(p := x))
                              (at_phase G p t x))
      in (case r of Inr _ \<Rightarrow> done
          | Inl _ \<Rightarrow> done \<or> (\<forall>x. bot_steps (at_phase G p s x) (at_phase G p t x)))) s"
proof -
  let ?r = "e_exec E (rs_trace s) (edit_cmd token n args)"
  let ?g = "G (rs_trace s @ [CExec (edit_cmd token n args) ?r])"
  have "let applied = others_move p (gh_edit p args (fst (G (rs_trace s))), snd (G (rs_trace s))) ?g
        in (case ?r of Inr _ \<Rightarrow> applied | Inl _ \<Rightarrow> applied \<or> others_move p (G (rs_trace s)) ?g)"
    using assms unfolding github_serves_def Let_def by blast
  then show ?thesis
    by (simp add: wp_def edit_issue_run at_phase_def others_move_def Let_def split: sum.splits)
qed

lemma steps_first:
  "claim_step login a b \<Longrightarrow> (claim_step login)\<^sup>*\<^sup>* b c \<Longrightarrow> (claim_step login)\<^sup>*\<^sup>* a c"
  by (rule converse_rtranclp_into_rtranclp)

text \<open>The steps of \<open>p\<close> itself, from the world at its last call.\<close>

lemma my_steps:
  fixes s :: rstate and p :: string and G :: "call list \<Rightarrow> string world"
  defines "w \<equiv> at_phase G p s"
    and "edited \<equiv> \<lambda>args x. (gh_edit p args (fst (G (rs_trace s))), (snd (G (rs_trace s)))(p := x))"
  shows "x \<in> {PStart, PEdit, PVerify, PRollback} \<Longrightarrow> claim_step (\<lambda>p. p) (w x) (w PDone)"
    and "shows_issue (fst (G (rs_trace s))) v \<Longrightarrow> claim_decide v p = AlreadyMine \<Longrightarrow>
      claim_step (\<lambda>p. p) (w PStart) (w PHolds)"
    and "shows_issue (fst (G (rs_trace s))) v \<Longrightarrow> claim_decide v p = NotTakeable \<Longrightarrow>
      claim_step (\<lambda>p. p) (w PStart) (w PDone)"
    and "shows_issue (fst (G (rs_trace s))) v \<Longrightarrow> claim_decide v p = Take \<Longrightarrow>
      claim_step (\<lambda>p. p) (w PStart) (w PEdit)"
    and "claim_step (\<lambda>p. p) (w PEdit) (edited claim_edit PVerify)"
    and "claim_step (\<lambda>p. p) (w PEdit) (edited claim_edit PDone)"
    and "shows_issue (fst (G (rs_trace s))) v \<Longrightarrow> is_claimed_by v p \<Longrightarrow>
      claim_step (\<lambda>p. p) (w PVerify) (w PHolds)"
    and "shows_issue (fst (G (rs_trace s))) v \<Longrightarrow> \<not> is_claimed_by v p \<Longrightarrow>
      claim_step (\<lambda>p. p) (w PVerify) (w PRollback)"
    and "claim_step (\<lambda>p. p) (w PRollback) (edited rollback_edit PDone)"
  using
    fails [where ph = "(snd (G (rs_trace s)))(p := x)" and p = p and login = "\<lambda>p. p"]
    read_mine [where ph = "(snd (G (rs_trace s)))(p := PStart)" and p = p and login = "\<lambda>p. p"]
    read_taken [where ph = "(snd (G (rs_trace s)))(p := PStart)" and p = p and login = "\<lambda>p. p"]
    read_free [where ph = "(snd (G (rs_trace s)))(p := PStart)" and p = p and login = "\<lambda>p. p"]
    edit [where ph = "(snd (G (rs_trace s)))(p := PEdit)" and p = p and login = "\<lambda>p. p"]
    edit_lost [where ph = "(snd (G (rs_trace s)))(p := PEdit)" and p = p and login = "\<lambda>p. p"]
    verify_ok [where ph = "(snd (G (rs_trace s)))(p := PVerify)" and p = p and login = "\<lambda>p. p"]
    verify_lost [where ph = "(snd (G (rs_trace s)))(p := PVerify)" and p = p and login = "\<lambda>p. p"]
    rollback [where ph = "(snd (G (rs_trace s)))(p := PRollback)" and p = p and login = "\<lambda>p. p"]
  by (simp_all add: at_phase_def w_def edited_def)

lemma rollback_moves:
  assumes "github_serves E p token n G"
  shows "wp (handle (edit_issue E token n rollback_edit) (\<lambda>e. ret (ResultRaceLost, f e))
      (\<lambda>_. ret (ResultRaceLost, g)))
    (\<lambda>r t. bot_steps (at_phase G p s PRollback) (at_phase G p t (phase_of (fst r)))) s"
  unfolding wp_handle
  by (rule wp_mono [OF edit_issue_moves [OF assms, of rollback_edit s]])
    (auto simp: wp_return phase_of_def Let_def split: sum.splits
      intro: steps_first [OF my_steps(9)] steps_first [OF my_steps(1)])

lemma verify_moves:
  assumes "github_serves E p token n G"
  shows "wp (handle (view_issue E token n) (\<lambda>e. ret (ResultError, f e))
      (\<lambda>post. if is_claimed_by post p then ret (ResultOK, None)
        else handle (edit_issue E token n rollback_edit) (\<lambda>e. ret (ResultRaceLost, g e))
          (\<lambda>_. ret (ResultRaceLost, h))))
    (\<lambda>r t. bot_steps (at_phase G p s PVerify) (at_phase G p t (phase_of (fst r)))) s"
  unfolding wp_handle [of "view_issue E token n"]
proof (rule wp_mono [OF view_issue_moves [OF assms, of s]], goal_cases)
  case (1 r t)
  show ?case
  proof (cases r)
    case (Inl e)
    then show ?thesis using 1
        by (auto simp: wp_return phase_of_def intro: steps_first [OF my_steps(1)])
  next
    case (Inr v)
    show ?thesis
    proof (cases "is_claimed_by v p")
      case True
      then show ?thesis using 1 Inr
        by (auto simp: wp_return phase_of_def intro: steps_first [OF my_steps(7)])
    next
      case False
      then have "bot_steps (at_phase G p s PVerify) (at_phase G p t PRollback)"
        using 1 Inr by (auto intro: steps_first [OF my_steps(8)])
      then show ?thesis using False Inr
        by (auto intro: wp_mono [OF rollback_moves [OF assms, of _ _ t]] rtranclp_trans)
    qed
  qed
qed

text \<open>
  C17: The code of \<open>Claim\<close> refines the steps of one process: whatever other processes do between its
  calls, a call of \<open>Claim\<close> is a run of the step relation from the start of the process to the phase
  its result stands for.
\<close>

theorem claim_refines_steps:
  assumes "github_serves E p token n G"
  shows "(claim_step (\<lambda>p. p))\<^sup>*\<^sup>* (at_phase G p s PStart)
    (at_phase G p (final_state (claim E n p token) s) (phase_of (fst (run_value (claim E n p token) s))))"
proof -
  have "wp (claim E n p token)
      (\<lambda>r t. bot_steps (at_phase G p s PStart) (at_phase G p t (phase_of (fst r)))) s"
    unfolding claim_def wp_handle [of "view_issue E token n"]
  proof (rule wp_mono [OF view_issue_moves [OF assms, of s]], goal_cases)
    case (1 r t)
    show ?case
    proof (cases r)
      case (Inl e)
      then show ?thesis using 1
        by (auto simp: wp_return phase_of_def intro: steps_first [OF my_steps(1)])
    next
      case (Inr v)
      have edit: "bot_steps (at_phase G p s PStart) (at_phase G p t PEdit)" if "claim_decide v p = Take"
        using that 1 Inr by (auto intro: steps_first [OF my_steps(4)])
      show ?thesis
      proof (cases "claim_decide v p")
        case AlreadyMine
        then show ?thesis using 1 Inr
        by (auto simp: wp_return phase_of_def intro: steps_first [OF my_steps(2)])
      next
        case NotTakeable
        then show ?thesis using 1 Inr
        by (auto simp: wp_return phase_of_def intro: steps_first [OF my_steps(3)])
      next
        case Take
        note start = rtranclp_trans [OF edit [OF Take]]
        show ?thesis
          unfolding Inr sum.case Take claim_decision.case wp_handle [of "edit_issue E token n claim_edit"]
        proof (rule wp_mono [OF edit_issue_moves [OF assms, of claim_edit t]], goal_cases)
          case (1 r' u)
          show ?case
          proof (cases r')
            case (Inl e)
            then show ?thesis using 1
              by (auto simp: wp_return phase_of_def Let_def
                  intro: start steps_first [OF my_steps(1)] steps_first [OF my_steps(6)])
          next
            case (Inr x)
            then have "bot_steps (at_phase G p s PStart) (at_phase G p u PVerify)"
              using 1 by (auto simp: Let_def intro: start steps_first [OF my_steps(5)])
            then show ?thesis
              unfolding Inr sum.case
              by (intro wp_mono [OF verify_moves [OF assms, of _ _ _ u]]) (rule rtranclp_trans)
          qed
        qed
      qed
    qed
  qed
  then show ?thesis by (simp add: wp_def)
qed


text \<open>A GitHub that serves the one process \<open>bot\<close>, from the history of its calls.\<close>

definition issue_after :: "call list \<Rightarrow> gh_issue" where
  "issue_after t =
     foldl (\<lambda>i c. case c of
         CExec (Cmd _ _ argv) (Inr _) \<Rightarrow>
           if take 3 argv = [''gh'', ''issue'', ''edit''] then gh_edit ''bot'' (drop 4 argv) i else i
       | _ \<Rightarrow> i) ready_issue t"

definition view_json :: "issue_view \<Rightarrow> json" where
  "view_json v =
     JObj [(''labels'', JArr (map (\<lambda>l. JObj [(''name'', JStr l)]) (iv_labels v))),
           (''assignees'', JArr (map (\<lambda>a. JObj [(''login'', JStr a)]) (iv_assignees v)))]"

definition bot_env :: env where
  "bot_env = failing_env\<lparr>e_exec := \<lambda>t c.
     if take 3 (cmd_argv c) = [''gh'', ''issue'', ''edit''] then Inr []
     else if issue_after t = ready_issue then Inr (json_text (view_json ready_view))
     else if issue_after t = taken_issue {''bot''} then Inr (json_text (view_json (taken_view [''bot''])))
     else Inl (msg_err ''no answer'')\<rparr>"

definition bot_world :: "call list \<Rightarrow> string world" where
  "bot_world t = (issue_after t, \<lambda>_. PStart)"

lemma view_text:
  "unmarshal_into dec_issue_view (json_text (view_json ready_view)) = Some ready_view"
  "unmarshal_into dec_issue_view (json_text (view_json (taken_view [''bot'']))) = Some (taken_view [''bot''])"
  by (subst unmarshal_into_text; simp add: view_json_def ready_view_def taken_view_def
      dec_issue_view_def json_dec_defs to_lower_def to_lower_char_def)+

lemma issue_after_step [simp]:
  "issue_after [] = ready_issue"
  "issue_after (t @ [CExec (view_cmd token n) r]) = issue_after t"
  "issue_after (t @ [CExec (edit_cmd token n args) (Inr x)]) = gh_edit ''bot'' args (issue_after t)"
  by (simp_all add: issue_after_def view_cmd_def edit_cmd_def split: sum.split)

lemma bot_env_answers:
  "e_exec bot_env t (edit_cmd token n args) = Inr []"
  "e_exec bot_env t (view_cmd token n) =
     (if issue_after t = ready_issue then Inr (json_text (view_json ready_view))
      else if issue_after t = taken_issue {''bot''} then Inr (json_text (view_json (taken_view [''bot''])))
      else Inl (msg_err ''no answer''))"
  by (simp_all add: bot_env_def edit_cmd_def view_cmd_def)

lemma bot_env_serves: "github_serves bot_env ''bot'' token n bot_world"
  using race_views(1) race_views(3) [of "[''bot'']"]
  unfolding github_serves_def bot_env_answers
  by (auto simp: view_text others_move_def bot_world_def)

theorem claim_refines_steps_witness:
  "\<exists>s t. run_value (claim bot_env 7 ''bot'' ''token'') s = (ResultOK, None) \<and>
     (claim_step (\<lambda>p. p))\<^sup>*\<^sup>* (at_phase bot_world ''bot'' s PStart) (at_phase bot_world ''bot'' t PHolds)"
proof -
  define s where "s = \<lparr>rs_turn = 0, rs_nwo = [], rs_log = [], rs_trace = [], rs_usage = []\<rparr>"
  have "issue_after [CExec (view_cmd token n) r, CExec (edit_cmd token n claim_edit) (Inr [])] =
      taken_issue {''bot''}" for token n r
    using issue_after_step(3) [of "[CExec (view_cmd token n) r]" token n claim_edit "[]"]
      issue_after_step(2) [of "[]" token n r] by (simp add: race_views)
  moreover have "ready_issue \<noteq> taken_issue {''bot''}" by (simp add: ready_issue_def taken_issue_def)
  ultimately have "run_value (claim bot_env 7 ''bot'' ''token'') s = (ResultOK, None)"
    by (simp add: claim_def handle_def view_issue_def op_defs run_prims s_def bot_env_answers
        view_cmd_def [symmetric] edit_issue_run view_text race_views)
  then show ?thesis
    using claim_refines_steps [OF bot_env_serves, where s = s and n = 7 and token = "''token''"]
    by (auto simp: phase_of_def)
qed

end
