(* ===== verification/Template.thy ===== *)
theory Template
  imports Prelude
begin

text \<open>
  The package \<open>internal/template\<close>: \<open>EnvResolver.Resolve\<close> replaces \<open>${VAR}\<close> and \<open>${VAR:default}\<close>.
  The environment is a function from names to optional values, as \<open>os.LookupEnv\<close>. The reference
  is a list of segments, their text and their value.
\<close>

section \<open>The resolver\<close>

definition SourceFileLiteral :: string where "SourceFileLiteral = ''file_literal''"
definition SourceTemplateEnv :: string where "SourceTemplateEnv = ''template_env''"
definition SourceTemplateDefault :: string where "SourceTemplateDefault = ''template_default''"

datatype template_error =
    MalformedTemplateError string
  | MissingEnvVarError string

definition dollar_brace :: string where
  "dollar_brace = [CHR ''$'', CHR 0x7B]"

text \<open>\<open>strings.Index\<close>: what is before the first occurrence and what is after it.\<close>

fun cut_at :: "string \<Rightarrow> string \<Rightarrow> (string \<times> string) option" where
  "cut_at sub [] = (if sub = [] then Some ([], []) else None)"
| "cut_at sub (c # cs) =
     (if has_prefix sub (c # cs) then Some ([], drop (length sub) (c # cs))
      else map_option (\<lambda>(a, b). (c # a, b)) (cut_at sub cs))"

definition is_alpha :: "char \<Rightarrow> bool" where
  "is_alpha c \<longleftrightarrow> (let n = of_char c :: nat in (65 \<le> n \<and> n \<le> 90) \<or> (97 \<le> n \<and> n \<le> 122))"

definition is_decimal :: "char \<Rightarrow> bool" where
  "is_decimal c \<longleftrightarrow> (let n = of_char c :: nat in 48 \<le> n \<and> n \<le> 57)"

definition is_var_name :: "string \<Rightarrow> bool" where
  "is_var_name s =
     (case s of
        [] \<Rightarrow> False
      | c # cs \<Rightarrow> (is_alpha c \<or> c = CHR ''_'') \<and> list_all (\<lambda>d. is_alpha d \<or> is_decimal d \<or> d = CHR ''_'') cs)"

text \<open>The part between the braces: a name and an optional default.\<close>

definition split_reference :: "string \<Rightarrow> string \<times> string option" where
  "split_reference content =
     (case cut_at '':'' content of None \<Rightarrow> (content, None) | Some (v, d) \<Rightarrow> (v, Some d))"

definition resolve_reference ::
  "(string \<Rightarrow> string option) \<Rightarrow> string \<Rightarrow> template_error + string \<times> string" where
  "resolve_reference lookup content =
     (if content = [] then Inl (MalformedTemplateError ''empty template reference'')
      else (case split_reference content of
        (var, dflt) \<Rightarrow>
          if \<not> is_var_name var
          then Inl (MalformedTemplateError (''invalid variable name in template: '' @ var))
          else (case lookup var of
              Some v \<Rightarrow>
                if v \<noteq> [] then Inr (v, SourceTemplateEnv)
                else (case dflt of Some d \<Rightarrow> Inr (d, SourceTemplateDefault)
                      | None \<Rightarrow> Inl (MissingEnvVarError var))
            | None \<Rightarrow> (case dflt of Some d \<Rightarrow> Inr (d, SourceTemplateDefault)
                      | None \<Rightarrow> Inl (MissingEnvVarError var)))))"

lemma cut_at_length: "cut_at sub s = Some (a, b) \<Longrightarrow> length a + length b + length sub = length s"
proof (induction sub s arbitrary: a rule: cut_at.induct)
  case (2 sub c cs)
  show ?case
  proof (cases "has_prefix sub (c # cs)")
    case True
    then obtain t where t: "c # cs = sub @ t" by (auto simp: has_prefix_iff)
    have "a = []" "b = drop (length sub) (c # cs)" using 2(2) True by simp_all
    then have "a = []" "b = t" using t by (simp_all del: drop.simps)
    with t show ?thesis by (metis add.commute add_0 length_append list.size(3))
  next
    case False
    with 2(2) obtain a' where "cut_at sub cs = Some (a', b)" "a = c # a'" by auto
    with 2(1) [OF False, of a'] show ?thesis by simp
  qed
qed (auto split: if_splits)

text \<open>The loop: \<open>source\<close> is the source of the first reference.\<close>

function resolve_from ::
  "(string \<Rightarrow> string option) \<Rightarrow> string \<Rightarrow> string \<Rightarrow> string \<Rightarrow> template_error + string \<times> string" where
  "resolve_from lookup buf source remainder =
     (case cut_at dollar_brace remainder of
        None \<Rightarrow> Inr (buf @ remainder, source)
      | Some (before, inner) \<Rightarrow>
          (case cut_at [CHR 0x7D] inner of
             None \<Rightarrow> Inl (MalformedTemplateError ''unclosed template reference'')
           | Some (content, rest) \<Rightarrow>
               (case resolve_reference lookup content of
                  Inl e \<Rightarrow> Inl e
                | Inr (v, src) \<Rightarrow>
                    resolve_from lookup (buf @ before @ v)
                      (if source = SourceFileLiteral then src else source) rest)))"
  by pat_completeness auto
termination
proof (relation "measure (\<lambda>(_, _, _, r). length r)", goal_cases)
  case (2 lookup buf source remainder x before inner x' content rest)
  then show ?case
    using cut_at_length [of dollar_brace remainder before inner] cut_at_length [of "[CHR 0x7D]" inner content rest]
    by (simp add: dollar_brace_def)
qed simp

declare resolve_from.simps [simp del]

definition resolve_template ::
  "(string \<Rightarrow> string option) \<Rightarrow> string \<Rightarrow> template_error + string \<times> string" where
  "resolve_template lookup value =
     (if \<not> contains_sub dollar_brace value then Inr (value, SourceFileLiteral)
      else resolve_from lookup [] SourceFileLiteral value)"

section \<open>The reference\<close>

datatype segment = Lit string | Ref string "string option"

definition seg_text :: "segment \<Rightarrow> string" where
  "seg_text s =
     (case s of
        Lit t \<Rightarrow> t
      | Ref var dflt \<Rightarrow>
          dollar_brace @ var @ (case dflt of None \<Rightarrow> [] | Some d \<Rightarrow> '':'' @ d) @ [CHR 0x7D])"

text \<open>A variable that is set to the empty string counts as not set.\<close>

definition seg_value :: "(string \<Rightarrow> string option) \<Rightarrow> segment \<Rightarrow> string option" where
  "seg_value lookup s =
     (case s of
        Lit t \<Rightarrow> Some t
      | Ref var dflt \<Rightarrow>
          (case lookup var of Some (c # v) \<Rightarrow> Some (c # v) | _ \<Rightarrow> dflt))"

fun segs_value :: "(string \<Rightarrow> string option) \<Rightarrow> segment list \<Rightarrow> template_error + string" where
  "segs_value lookup [] = Inr []"
| "segs_value lookup (s # ss) =
     (case seg_value lookup s of
        None \<Rightarrow> (case s of Ref var _ \<Rightarrow> Inl (MissingEnvVarError var) | Lit _ \<Rightarrow> Inr [])
      | Some v \<Rightarrow> (case segs_value lookup ss of Inl e \<Rightarrow> Inl e | Inr vs \<Rightarrow> Inr (v @ vs)))"

text \<open>Segments that can be told apart in the text: a literal has no dollar sign.\<close>

definition seg_ok :: "segment \<Rightarrow> bool" where
  "seg_ok s \<longleftrightarrow>
     (case s of
        Lit t \<Rightarrow> CHR ''$'' \<notin> set t
      | Ref var dflt \<Rightarrow>
          is_var_name var \<and> (case dflt of None \<Rightarrow> True | Some d \<Rightarrow> CHR 0x7D \<notin> set d))"

section \<open>Lemmas\<close>

lemma cut_at_none: "cut_at sub s = None \<longleftrightarrow> \<not> contains_sub sub s"
  by (induction sub s rule: cut_at.induct) auto

lemma cut_at_skip:
  "c \<notin> set a \<Longrightarrow>
     cut_at (c # sub) (a @ s) = (case cut_at (c # sub) s of None \<Rightarrow> None | Some (x, y) \<Rightarrow> Some (a @ x, y))"
  by (induction a) (auto simp: has_prefix_def split: option.split)

lemma cut_at_here: "cut_at (c # sub) ((c # sub) @ s) = Some ([], s)"
  by (simp add: has_prefix_def)

lemma cut_at_find: "c \<notin> set a \<Longrightarrow> cut_at (c # sub) (a @ (c # sub) @ s) = Some (a, s)"
  using cut_at_skip [of c a sub "(c # sub) @ s"] cut_at_here [of c sub s] by simp

lemma cut_at_absent: "c \<notin> set a \<Longrightarrow> cut_at (c # sub) a = None"
  using cut_at_skip [of c a sub "[]"] by simp

lemma var_name_chars:
  "is_var_name var \<Longrightarrow> var \<noteq> [] \<and> CHR '':'' \<notin> set var \<and> CHR 0x7D \<notin> set var"
  by (cases var) (auto simp: is_var_name_def list_all_iff is_alpha_def is_decimal_def Let_def)

lemma split_reference_text:
  "is_var_name var \<Longrightarrow>
     split_reference (var @ (case dflt of None \<Rightarrow> [] | Some d \<Rightarrow> '':'' @ d)) = (var, dflt)"
  using var_name_chars [of var] cut_at_find [of "CHR '':''" var "[]"] cut_at_absent [of "CHR '':''" var "[]"]
  by (auto simp: split_reference_def split: option.split)


lemma resolve_literal:
  assumes "CHR ''$'' \<notin> set t"
  shows "resolve_from lookup buf src (t @ r) = resolve_from lookup (buf @ t) src r"
  using cut_at_skip [OF assms, of "[CHR 0x7B]" r]
  by (auto simp: resolve_from.simps [of _ _ _ "t @ r"] resolve_from.simps [of _ _ _ r] dollar_brace_def
      split: option.split sum.split)

lemma resolve_nothing: "resolve_from lookup buf src [] = Inr (buf, src)"
  by (simp add: resolve_from.simps dollar_brace_def)

lemma resolve_ref:
  assumes "seg_ok (Ref var dflt)"
  shows "resolve_from lookup buf src (seg_text (Ref var dflt) @ r) =
    (case resolve_reference lookup (var @ (case dflt of None \<Rightarrow> [] | Some d \<Rightarrow> '':'' @ d)) of
       Inl e \<Rightarrow> Inl e
     | Inr (v, s) \<Rightarrow> resolve_from lookup (buf @ v) (if src = SourceFileLiteral then s else src) r)"
proof -
  let ?c = "var @ (case dflt of None \<Rightarrow> [] | Some d \<Rightarrow> '':'' @ d)"
  have "CHR 0x7D \<notin> set ?c"
    using assms var_name_chars [of var] by (auto simp: seg_ok_def split: option.splits)
  then have close: "cut_at [CHR 0x7D] (?c @ [CHR 0x7D] @ r) = Some (?c, r)" by (rule cut_at_find)
  have "seg_text (Ref var dflt) @ r = dollar_brace @ ?c @ [CHR 0x7D] @ r" by (simp add: seg_text_def)
  moreover have "cut_at dollar_brace (dollar_brace @ ?c @ [CHR 0x7D] @ r) = Some ([], ?c @ [CHR 0x7D] @ r)"
    using cut_at_here [of "CHR ''$''" "[CHR 0x7B]"] by (simp add: dollar_brace_def)
  ultimately show ?thesis
    by (simp only: resolve_from.simps [of _ _ _ "dollar_brace @ _"] close option.case prod.case append_Nil)
qed

lemma seg_text_lit [simp]: "seg_text (Lit t) = t" "seg_ok (Lit t) \<longleftrightarrow> CHR ''$'' \<notin> set t"
  by (simp_all add: seg_text_def seg_ok_def)

text \<open>The source that the first reference has.\<close>

fun segs_source :: "(string \<Rightarrow> string option) \<Rightarrow> segment list \<Rightarrow> string" where
  "segs_source lookup [] = SourceFileLiteral"
| "segs_source lookup (Lit _ # ss) = segs_source lookup ss"
| "segs_source lookup (Ref var _ # _) =
     (case lookup var of Some (_ # _) \<Rightarrow> SourceTemplateEnv | _ \<Rightarrow> SourceTemplateDefault)"

lemma reference_value:
  assumes "is_var_name var"
  shows "resolve_reference lookup (var @ (case dflt of None \<Rightarrow> [] | Some d \<Rightarrow> '':'' @ d)) =
    (case seg_value lookup (Ref var dflt) of
       None \<Rightarrow> Inl (MissingEnvVarError var)
     | Some v \<Rightarrow> Inr (v, segs_source lookup (Ref var dflt # ss)))"
  using var_name_chars [OF assms] split_reference_text [OF assms, of dflt] assms
  by (simp add: resolve_reference_def seg_value_def split: option.split list.split)

lemma resolve_segments:
  "list_all seg_ok ss \<Longrightarrow>
     resolve_from lookup buf src (concat (map seg_text ss)) =
       (case segs_value lookup ss of
          Inl e \<Rightarrow> Inl e
        | Inr v \<Rightarrow> Inr (buf @ v, if src = SourceFileLiteral then segs_source lookup ss else src))"
proof (induction ss arbitrary: buf src)
  case Nil
  then show ?case by (simp add: resolve_nothing)
next
  case (Cons s ss)
  then have IH: "resolve_from lookup buf' src' (concat (map seg_text ss)) =
      (case segs_value lookup ss of
         Inl e \<Rightarrow> Inl e
       | Inr v \<Rightarrow> Inr (buf' @ v, if src' = SourceFileLiteral then segs_source lookup ss else src'))" for buf' src'
    by simp
  have sources: "SourceTemplateEnv \<noteq> SourceFileLiteral" "SourceTemplateDefault \<noteq> SourceFileLiteral"
    by (simp_all add: SourceTemplateEnv_def SourceTemplateDefault_def SourceFileLiteral_def)
  show ?case
  proof (cases s)
    case (Lit t)
    then show ?thesis
      using Cons.prems by (simp add: seg_value_def resolve_literal IH split: sum.split)
  next
    case (Ref var dflt)
    then have ok: "seg_ok (Ref var dflt)" "is_var_name var" using Cons.prems by (auto simp: seg_ok_def)
    show ?thesis
      unfolding Ref list.map concat.simps resolve_ref [OF ok(1)] reference_value [OF ok(2), of lookup dflt ss]
      using sources
      by (auto simp: IH split: option.splits sum.splits list.splits)
  qed
qed

lemma resolve_template_loop: "resolve_template lookup raw = resolve_from lookup [] SourceFileLiteral raw"
  using cut_at_none [of dollar_brace raw] by (auto simp: resolve_template_def resolve_from.simps [of _ _ _ raw])

text \<open>
  Resolving the text of a list of literals and references gives the concatenation of their
  values and the source of the first reference; it fails on the first variable without a value.
\<close>

theorem resolve_template_correct:
  assumes "list_all seg_ok ss"
  shows "resolve_template lookup (concat (map seg_text ss)) =
    (case segs_value lookup ss of Inl e \<Rightarrow> Inl e | Inr v \<Rightarrow> Inr (v, segs_source lookup ss))"
  unfolding resolve_template_loop resolve_segments [OF assms] by (simp split: sum.split)

theorem resolve_template_correct_witness:
  "resolve_template (\<lambda>v. if v = ''HOST'' then Some ''h'' else None)
      (concat (map seg_text [Lit ''a-'', Ref ''HOST'' None, Lit '':'', Ref ''PORT'' (Some ''80'')])) =
     Inr (''a-h:80'', SourceTemplateEnv)"
  by (subst resolve_template_correct) (simp_all add: seg_ok_def seg_value_def is_var_name_def is_alpha_def)

end
