(* ===== verification/Config.thy ===== *)
theory Config
  imports Json_Roundtrip
begin

text \<open>
  The package \<open>internal/config\<close>: the text of \<open>.golemic/config.json\<close> is decoded strictly into
  optional fields, then validated and completed by defaults. A file is what the operating system
  says about its path.
\<close>

section \<open>Files and strict decoding\<close>

datatype file_read = NoFile | ReadError | Contents string

text \<open>\<open>Decoder.Decode\<close> reads the first value of the text; what follows it stays unread.\<close>

definition decode_first :: "string \<Rightarrow> json option" where
  "decode_first s = map_option fst (parse_value (2 * length s + 2) s)"

text \<open>\<open>DisallowUnknownFields\<close>, for one struct.\<close>

definition known_fields :: "string list \<Rightarrow> json \<Rightarrow> bool" where
  "known_fields names j =
     (case j of JObj kvs \<Rightarrow> list_all (\<lambda>kv. list_ex (\<lambda>n. key_matches n (fst kv)) names) kvs | _ \<Rightarrow> True)"

section \<open>The configuration\<close>

record config =
  cf_project :: string
  cf_verify_command :: string
  cf_label :: string
  cf_timeout_minutes :: int
  cf_timeout_seconds :: int
  cf_ci_timeout_minutes :: int
  cf_agent_idle_timeout_minutes :: int
  cf_max_review_rounds :: int
  cf_max_conflict_resolution_attempts :: int
  cf_require_ci_checks :: bool
  cf_telemetry_enabled :: bool
  cf_codebase_memory_enabled :: bool

record config_raw =
  cr_project :: "string option"
  cr_verify_command :: "string option"
  cr_label :: "string option"
  cr_timeout_minutes :: "int option"
  cr_timeout_seconds :: "int option"
  cr_ci_timeout_minutes :: "int option"
  cr_agent_idle_timeout_minutes :: "int option"
  cr_max_review_rounds :: "int option"
  cr_max_conflict_resolution_attempts :: "int option"
  cr_require_ci_checks :: "bool option"
  cr_telemetry :: "bool option option"
  cr_codebase_memory :: "bool option option"

text \<open>A block with one optional field \<open>enabled\<close>, behind a pointer.\<close>

definition dec_enabled :: "bool option \<Rightarrow> json \<Rightarrow> bool option option" where
  "dec_enabled cur j =
     (case j of
        JObj kvs \<Rightarrow> if known_fields [''enabled''] j then dec_over (dec_ptr dec_bool False) ''enabled'' cur kvs else None
      | JNull \<Rightarrow> Some cur
      | _ \<Rightarrow> None)"

definition config_fields :: "string list" where
  "config_fields =
     [''project'', ''verify_command'', ''label'', ''models'', ''timeout_minutes'', ''timeout_seconds'',
      ''ci_timeout_minutes'', ''agent_idle_timeout_minutes'', ''max_review_rounds'',
      ''max_conflict_resolution_attempts'', ''require_ci_checks'', ''telemetry'', ''codebase_memory'']"

definition opt_str :: "string \<Rightarrow> json \<Rightarrow> string option option" where
  "opt_str = get_field (dec_ptr dec_str []) None"

definition opt_bool :: "string \<Rightarrow> json \<Rightarrow> bool option option" where
  "opt_bool = get_field (dec_ptr dec_bool False) None"

definition opt_block :: "string \<Rightarrow> json \<Rightarrow> bool option option option" where
  "opt_block = get_field (dec_ptr dec_enabled None) None"

definition dec_config :: "json \<Rightarrow> config_raw option" where
  "dec_config j =
     (if \<not> known_fields config_fields j then None
      else (case (opt_str ''project'' j, opt_str ''verify_command'' j, opt_str ''label'' j) of
        (Some p, Some v, Some l) \<Rightarrow>
         (case (get_int_ptr ''timeout_minutes'' j, get_int_ptr ''timeout_seconds'' j,
                get_int_ptr ''ci_timeout_minutes'' j, get_int_ptr ''agent_idle_timeout_minutes'' j) of
            (Some tm, Some ts, Some ci, Some ai) \<Rightarrow>
             (case (get_int_ptr ''max_review_rounds'' j, get_int_ptr ''max_conflict_resolution_attempts'' j,
                    opt_bool ''require_ci_checks'' j, opt_block ''telemetry'' j, opt_block ''codebase_memory'' j) of
                (Some mr, Some mc, Some rc, Some te, Some cm) \<Rightarrow>
                  Some \<lparr>cr_project = p, cr_verify_command = v, cr_label = l, cr_timeout_minutes = tm,
                        cr_timeout_seconds = ts, cr_ci_timeout_minutes = ci, cr_agent_idle_timeout_minutes = ai,
                        cr_max_review_rounds = mr, cr_max_conflict_resolution_attempts = mc,
                        cr_require_ci_checks = rc, cr_telemetry = te, cr_codebase_memory = cm\<rparr>
              | _ \<Rightarrow> None)
          | _ \<Rightarrow> None)
      | _ \<Rightarrow> None))"

definition DefaultConfig :: "string \<Rightarrow> config" where
  "DefaultConfig project =
     \<lparr>cf_project = project, cf_verify_command = [], cf_label = ''ready-for-agent'',
      cf_timeout_minutes = 30, cf_timeout_seconds = 0, cf_ci_timeout_minutes = 15,
      cf_agent_idle_timeout_minutes = 5, cf_max_review_rounds = 5,
      cf_max_conflict_resolution_attempts = 2, cf_require_ci_checks = False,
      cf_telemetry_enabled = True, cf_codebase_memory_enabled = True\<rparr>"

section \<open>Validation\<close>

text \<open>An optional number: the default when absent, an error when it is not positive.\<close>

definition positive_or :: "string \<Rightarrow> int \<Rightarrow> int option \<Rightarrow> int result" where
  "positive_or name d v =
     (case v of
        None \<Rightarrow> Inr d
      | Some n \<Rightarrow> if n \<le> 0 then Inl (msg_err (''field '' @ name @ '' must be > 0, got '' @ itoa n)) else Inr n)"

definition block_enabled :: "bool option option \<Rightarrow> bool" where
  "block_enabled b = (case b of Some (Some v) \<Rightarrow> v | _ \<Rightarrow> True)"

definition or_empty :: "string option \<Rightarrow> string" where
  "or_empty s = (case s of Some v \<Rightarrow> v | None \<Rightarrow> [])"

definition build_config :: "config_raw \<Rightarrow> config result" where
  "build_config raw =
     (let project = or_empty (cr_project raw);
          verify = or_empty (cr_verify_command raw);
          label = or_empty (cr_label raw)
      in
      if project = [] then Inl (msg_err ''required field project is missing or empty'')
      else if verify = [] then Inl (msg_err ''required field verify_command is missing or empty'')
      else (case positive_or ''timeout_minutes'' 30 (cr_timeout_minutes raw) of Inl e \<Rightarrow> Inl e | Inr tm \<Rightarrow>
       (case positive_or ''timeout_seconds'' 0 (cr_timeout_seconds raw) of Inl e \<Rightarrow> Inl e | Inr ts \<Rightarrow>
       (case positive_or ''ci_timeout_minutes'' 15 (cr_ci_timeout_minutes raw) of Inl e \<Rightarrow> Inl e | Inr ci \<Rightarrow>
       (case positive_or ''agent_idle_timeout_minutes'' 5 (cr_agent_idle_timeout_minutes raw) of Inl e \<Rightarrow> Inl e | Inr ai \<Rightarrow>
       (case positive_or ''max_review_rounds'' 5 (cr_max_review_rounds raw) of Inl e \<Rightarrow> Inl e | Inr mr \<Rightarrow>
       (case positive_or ''max_conflict_resolution_attempts'' 2 (cr_max_conflict_resolution_attempts raw) of Inl e \<Rightarrow> Inl e | Inr mc \<Rightarrow>
         Inr \<lparr>cf_project = project, cf_verify_command = verify,
              cf_label = (if label = [] then ''ready-for-agent'' else label),
              cf_timeout_minutes = tm, cf_timeout_seconds = ts, cf_ci_timeout_minutes = ci,
              cf_agent_idle_timeout_minutes = ai, cf_max_review_rounds = mr,
              cf_max_conflict_resolution_attempts = mc,
              cf_require_ci_checks = (case cr_require_ci_checks raw of Some b \<Rightarrow> b | None \<Rightarrow> False),
              cf_telemetry_enabled = block_enabled (cr_telemetry raw),
              cf_codebase_memory_enabled = block_enabled (cr_codebase_memory raw)\<rparr>)))))))"

definition load_config :: "file_read \<Rightarrow> config result" where
  "load_config f =
     (case f of
        NoFile \<Rightarrow> Inl (Err KNotExist ''config file not found'')
      | ReadError \<Rightarrow> Inl (msg_err ''failed to read config file'')
      | Contents text \<Rightarrow>
          (case decode_first text of
             None \<Rightarrow> Inl (msg_err ''invalid JSON in config file'')
           | Some j \<Rightarrow>
               (case dec_config j of
                  None \<Rightarrow> Inl (msg_err ''invalid JSON in config file'')
                | Some raw \<Rightarrow> build_config raw)))"

section \<open>The text of a configuration\<close>

text \<open>\<open>json.Marshal\<close> of a \<open>Config\<close>, with the fields that \<open>omitempty\<close> leaves out at zero.\<close>

definition omit_zero :: "string \<Rightarrow> int \<Rightarrow> (string \<times> json) list" where
  "omit_zero k n = (if n = 0 then [] else [(k, jint n)])"

definition config_json :: "config \<Rightarrow> json" where
  "config_json c =
     JObj ([(''project'', JStr (cf_project c)), (''verify_command'', JStr (cf_verify_command c)),
            (''label'', JStr (cf_label c)), (''timeout_minutes'', jint (cf_timeout_minutes c))] @
           omit_zero ''timeout_seconds'' (cf_timeout_seconds c) @
           omit_zero ''ci_timeout_minutes'' (cf_ci_timeout_minutes c) @
           omit_zero ''agent_idle_timeout_minutes'' (cf_agent_idle_timeout_minutes c) @
           omit_zero ''max_review_rounds'' (cf_max_review_rounds c) @
           omit_zero ''max_conflict_resolution_attempts'' (cf_max_conflict_resolution_attempts c) @
           (if cf_require_ci_checks c then [(''require_ci_checks'', JBool True)] else []) @
           [(''telemetry'', JObj [(''enabled'', JBool (cf_telemetry_enabled c))]),
            (''codebase_memory'', JObj [(''enabled'', JBool (cf_codebase_memory_enabled c))])])"

section \<open>Properties\<close>

text \<open>What the rest of the program relies on.\<close>

definition config_ok :: "config \<Rightarrow> bool" where
  "config_ok c \<longleftrightarrow>
     cf_project c \<noteq> [] \<and> cf_verify_command c \<noteq> [] \<and> cf_label c \<noteq> [] \<and>
     cf_timeout_minutes c > 0 \<and> cf_timeout_seconds c \<ge> 0 \<and> cf_ci_timeout_minutes c > 0 \<and>
     cf_agent_idle_timeout_minutes c > 0 \<and> cf_max_review_rounds c > 0 \<and>
     cf_max_conflict_resolution_attempts c > 0"

lemma positive_or_result: "positive_or name d v = Inr n \<Longrightarrow> n > 0 \<or> n = d"
  by (auto simp: positive_or_def split: option.splits if_splits)

lemma positive_or_nonneg: "positive_or name d v = Inr n \<Longrightarrow> d > 0 \<Longrightarrow> n > 0"
  using positive_or_result [of name d v n] by auto

lemma build_config_ok: "build_config raw = Inr c \<Longrightarrow> config_ok c"
  unfolding build_config_def Let_def
  by (auto simp: config_ok_def dest: positive_or_nonneg positive_or_result split: if_splits sum.splits)

text \<open>
  A configuration that was loaded has its required fields, a label, and positive limits: the
  timeouts, the review rounds and the conflict attempts the rest of the program counts down from.
\<close>

theorem loaded_config_ok: "case load_config f of Inr c \<Rightarrow> config_ok c | Inl _ \<Rightarrow> True"
  by (auto simp: load_config_def dest: build_config_ok split: file_read.split option.split sum.split)


lemma config_lower:
  "to_lower ''project'' = ''project''"
  "to_lower ''verify_command'' = ''verify_command''"
  "to_lower ''label'' = ''label''"
  "to_lower ''models'' = ''models''"
  "to_lower ''timeout_minutes'' = ''timeout_minutes''"
  "to_lower ''timeout_seconds'' = ''timeout_seconds''"
  "to_lower ''ci_timeout_minutes'' = ''ci_timeout_minutes''"
  "to_lower ''agent_idle_timeout_minutes'' = ''agent_idle_timeout_minutes''"
  "to_lower ''max_review_rounds'' = ''max_review_rounds''"
  "to_lower ''max_conflict_resolution_attempts'' = ''max_conflict_resolution_attempts''"
  "to_lower ''require_ci_checks'' = ''require_ci_checks''"
  "to_lower ''telemetry'' = ''telemetry''"
  "to_lower ''codebase_memory'' = ''codebase_memory''"
  "to_lower ''enabled'' = ''enabled''"
  by code_simp+

lemma dec_over_omit_zero:
  "dec_over d k cur (omit_zero k' n) = (if key_matches k k' \<and> n \<noteq> 0 then d cur (jint n) else Some cur)"
  by (auto simp: omit_zero_def split: option.split)

lemma dec_over_if:
  "dec_over d k cur (if b then xs else []) = (if b then dec_over d k cur xs else Some cur)"
  by simp

definition in_int64 :: "int \<Rightarrow> bool" where
  "in_int64 n \<longleftrightarrow> - max_int64 - 1 \<le> n \<and> n \<le> max_int64"

lemma dec_int_ptr: "in_int64 n \<Longrightarrow> dec_ptr dec_int 0 cur (jint n) = Some (Some n)"
  by (simp add: dec_ptr_def dec_int_def jint_def atoi_itoa in_int64_def)

lemma dec_other_ptrs:
  "dec_ptr dec_str [] cur (JStr s) = Some (Some s)" "dec_ptr dec_bool False cur' (JBool b) = Some (Some b)"
  "dec_ptr dec_enabled None None (JObj [(''enabled'', JBool b)]) = Some (Some (Some b))"
  by (simp_all add: dec_ptr_def dec_str_def dec_bool_def dec_enabled_def known_fields_def key_matches_def)

lemma config_known: "known_fields config_fields (config_json c)"
  by (simp add: known_fields_def config_json_def omit_zero_def config_fields_def key_matches_def)

text \<open>The fields of a Go value of type \<open>Config\<close>: \<open>int\<close> has 64 bits.\<close>

definition config_ints :: "config \<Rightarrow> bool" where
  "config_ints c \<longleftrightarrow>
     list_all in_int64 [cf_timeout_minutes c, cf_timeout_seconds c, cf_ci_timeout_minutes c,
       cf_agent_idle_timeout_minutes c, cf_max_review_rounds c, cf_max_conflict_resolution_attempts c]"

lemmas config_field_simps =
  opt_str_def opt_bool_def opt_block_def get_int_ptr_def get_field_def config_json_def dec_over_append
  dec_over_omit_zero dec_over_if key_matches_def config_lower dec_int_ptr dec_other_ptrs config_ints_def

lemma read_back_strings:
  "opt_str ''project'' (config_json c) = Some (Some (cf_project c))"
  "opt_str ''verify_command'' (config_json c) = Some (Some (cf_verify_command c))"
  "opt_str ''label'' (config_json c) = Some (Some (cf_label c))"
  by (simp_all add: config_field_simps)

lemma read_back_ints:
  assumes "config_ints c"
  shows "get_int_ptr ''timeout_minutes'' (config_json c) = Some (Some (cf_timeout_minutes c))"
    and "get_int_ptr ''timeout_seconds'' (config_json c) =
      Some (if cf_timeout_seconds c = 0 then None else Some (cf_timeout_seconds c))"
    and "get_int_ptr ''ci_timeout_minutes'' (config_json c) =
      Some (if cf_ci_timeout_minutes c = 0 then None else Some (cf_ci_timeout_minutes c))"
    and "get_int_ptr ''agent_idle_timeout_minutes'' (config_json c) =
      Some (if cf_agent_idle_timeout_minutes c = 0 then None else Some (cf_agent_idle_timeout_minutes c))"
    and "get_int_ptr ''max_review_rounds'' (config_json c) =
      Some (if cf_max_review_rounds c = 0 then None else Some (cf_max_review_rounds c))"
    and "get_int_ptr ''max_conflict_resolution_attempts'' (config_json c) =
      Some (if cf_max_conflict_resolution_attempts c = 0 then None
            else Some (cf_max_conflict_resolution_attempts c))"
  using assms by (simp_all add: config_field_simps)

lemma read_back_flags:
  "opt_bool ''require_ci_checks'' (config_json c) =
     Some (if cf_require_ci_checks c then Some True else None)"
  "opt_block ''telemetry'' (config_json c) = Some (Some (Some (cf_telemetry_enabled c)))"
  "opt_block ''codebase_memory'' (config_json c) = Some (Some (Some (cf_codebase_memory_enabled c)))"
  by (simp_all add: config_field_simps)

definition config_texts :: "config \<Rightarrow> bool" where
  "config_texts c \<longleftrightarrow>
     valid_utf8 (cf_project c) \<and> valid_utf8 (cf_verify_command c) \<and> valid_utf8 (cf_label c)"

lemma config_json_wf: "config_texts c \<Longrightarrow> wf_json (config_json c)"
  by (simp add: config_json_def jint_def omit_zero_def number_ok_itoa config_texts_def)

lemma decode_first_text: "wf_json v \<Longrightarrow> decode_first (json_text v) = Some v"
  using parse_wf_text [of v "2 * length (json_text v) + 2" "[]"]
  by (simp add: decode_first_def)

lemma load_config_text:
  assumes "config_ok c" and "config_ints c" and "config_texts c"
  shows "load_config (Contents (json_text (config_json c))) = Inr c"
  using assms(1)
  by (simp add: load_config_def decode_first_text config_json_wf [OF assms(3)] dec_config_def config_known
      read_back_strings read_back_ints [OF assms(2)] read_back_flags build_config_def positive_or_def
      config_ok_def or_empty_def block_enabled_def Let_def)

text \<open>
  A configuration that meets the validation and has valid UTF-8 survives being written and loaded again: every
  field comes back, those left out when they are zero included.
\<close>

theorem config_round_trip:
  assumes "config_ok c" and "config_ints c" and "config_texts c"
  shows "load_config (Contents (json_text (config_json c))) = Inr c"
  by (rule load_config_text [OF assms])

theorem config_round_trip_witness:
  "load_config (Contents (json_text (config_json ((DefaultConfig ''app'')\<lparr>cf_verify_command := ''make''\<rparr>)))) =
     Inr ((DefaultConfig ''app'')\<lparr>cf_verify_command := ''make''\<rparr>)"
  by (rule config_round_trip)
    (simp_all add: config_ok_def config_ints_def config_texts_def in_int64_def max_int64_def DefaultConfig_def)

end
