(* ===== verification/Credentials.thy ===== *)
theory Credentials
  imports Config Template
begin

text \<open>
  The package \<open>internal/credentials\<close>: the two bot tokens come from the environment or from
  \<open>~/.golemic/<project>/credentials.json\<close>, whose values may refer to environment variables. The
  credentials file is what opening and reading its path gives, with its permission bits.
\<close>

section \<open>Loading\<close>

record credentials =
  ct_dev_token :: string
  ct_reviewer_token :: string
  ct_dev_source :: string
  ct_reviewer_source :: string

record credentials_file =
  cfl_dev_token :: string
  cfl_reviewer_token :: string

datatype cred_file =
    CredMissing
  | CredOpenError
  | CredStatError
  | CredFile nat "string option"   \<comment> \<open>the permission bits and the text, \<open>None\<close> when reading fails\<close>

definition is_name_char :: "char \<Rightarrow> bool" where
  "is_name_char c \<longleftrightarrow> is_alpha c \<or> is_decimal c \<or> c \<in> {CHR ''.'', CHR ''_'', CHR ''-''}"

definition valid_project_name :: "string \<Rightarrow> bool" where
  "valid_project_name s =
     (case s of [] \<Rightarrow> False | c # cs \<Rightarrow> (is_alpha c \<or> is_decimal c) \<and> list_all is_name_char cs)"

definition validate_project_name :: "string \<Rightarrow> gerr option" where
  "validate_project_name name =
     (if valid_project_name name then None else Some (msg_err (''invalid project name '' @ name)))"

text \<open>\<open>Perm() & 0077\<close>: any bit of the group or of others.\<close>

definition open_to_others :: "nat \<Rightarrow> bool" where
  "open_to_others perm \<longleftrightarrow> perm mod 64 \<noteq> 0"

definition dec_credentials_file :: "json \<Rightarrow> credentials_file option" where
  "dec_credentials_file j =
     (if \<not> known_fields [''dev_token'', ''reviewer_token''] j then None
      else (case (get_str ''dev_token'' j, get_str ''reviewer_token'' j) of
              (Some d, Some r) \<Rightarrow> Some \<lparr>cfl_dev_token = d, cfl_reviewer_token = r\<rparr>
            | _ \<Rightarrow> None))"

text \<open>\<open>None\<close> is a file that does not exist.\<close>

definition read_credentials_file :: "cred_file \<Rightarrow> credentials_file option result" where
  "read_credentials_file f =
     (case f of
        CredMissing \<Rightarrow> Inr None
      | CredOpenError \<Rightarrow> Inl (msg_err ''failed to open credentials file'')
      | CredStatError \<Rightarrow> Inl (msg_err ''failed to stat credentials file'')
      | CredFile perm contents \<Rightarrow>
          if open_to_others perm
          then Inl (msg_err ''credentials file has insecure permissions; run chmod 600 to restrict access'')
          else (case contents of
                  None \<Rightarrow> Inl (msg_err ''failed to read credentials file'')
                | Some text \<Rightarrow>
                    (case Option.bind (decode_first text) dec_credentials_file of
                       None \<Rightarrow> Inl (msg_err ''invalid JSON in credentials file'')
                     | Some fc \<Rightarrow> Inr (Some fc))))"

definition template_error_text :: "template_error \<Rightarrow> string" where
  "template_error_text e =
     (case e of
        MalformedTemplateError d \<Rightarrow> ''malformed template reference: '' @ d
      | MissingEnvVarError v \<Rightarrow> ''environment variable '' @ v @ '' is not set'')"

text \<open>One token: the variable, then the value of the file, then nothing.\<close>

definition load_token ::
  "(string \<Rightarrow> string option) \<Rightarrow> string \<Rightarrow> string \<Rightarrow> string option \<Rightarrow> (string \<times> string) result" where
  "load_token lookup var field file_token =
     (case lookup var of
        Some v \<Rightarrow> Inr (v, ''direct_env'')
      | None \<Rightarrow>
          (case file_token of
             None \<Rightarrow> Inr ([], [])
           | Some t \<Rightarrow>
               (case resolve_template lookup t of
                  Inl e \<Rightarrow> Inl (msg_err (field @ '': '' @ template_error_text e))
                | Inr r \<Rightarrow> Inr r)))"

definition missing_tokens :: "string \<Rightarrow> string \<Rightarrow> string list" where
  "missing_tokens dev rvw =
     (if dev = [] then [''dev_token (env GOLEMIC_DEV_TOKEN)''] else []) @
     (if rvw = [] then [''reviewer_token (env GOLEMIC_REVIEWER_TOKEN)''] else [])"

definition load_credentials ::
  "string \<Rightarrow> string \<Rightarrow> cred_file \<Rightarrow> (string \<Rightarrow> string option) \<Rightarrow> credentials result" where
  "load_credentials home project f lookup =
     (if home = [] then Inl (msg_err ''empty home directory'')
      else if \<not> valid_project_name project then Inl (msg_err (''invalid project name '' @ project))
      else (case read_credentials_file f of Inl e \<Rightarrow> Inl e | Inr fc \<Rightarrow>
       (case load_token lookup ''GOLEMIC_DEV_TOKEN'' ''dev_token'' (map_option cfl_dev_token fc) of
          Inl e \<Rightarrow> Inl e
        | Inr (dev, dev_src) \<Rightarrow>
       (case load_token lookup ''GOLEMIC_REVIEWER_TOKEN'' ''reviewer_token'' (map_option cfl_reviewer_token fc) of
          Inl e \<Rightarrow> Inl e
        | Inr (rvw, rvw_src) \<Rightarrow>
            if missing_tokens dev rvw \<noteq> []
            then Inl (Err (if fc = None \<and> lookup ''GOLEMIC_DEV_TOKEN'' = None \<and>
                              lookup ''GOLEMIC_REVIEWER_TOKEN'' = None then KNotExist else KPlain)
                       (''missing credentials: '' @ join_with '' '' (missing_tokens dev rvw)))
            else Inr \<lparr>ct_dev_token = dev, ct_reviewer_token = rvw,
                      ct_dev_source = dev_src, ct_reviewer_source = rvw_src\<rparr>))))"

text \<open>\<open>Credentials.String\<close>.\<close>

definition credentials_string :: "credentials \<Rightarrow> string" where
  "credentials_string c =
     ''Credentials{dev='' @ (if ct_dev_token c = [] then ''***unset***'' else ''***set***'') @
     '', reviewer='' @ (if ct_reviewer_token c = [] then ''***unset***'' else ''***set***'') @ ''}''"

section \<open>Properties\<close>

lemma missing_tokens_none: "missing_tokens d r = [] \<longleftrightarrow> d \<noteq> [] \<and> r \<noteq> []"
  by (auto simp: missing_tokens_def)

lemma load_token_env: "load_token lookup var field t = Inr (v, src) \<Longrightarrow> lookup var = Some u \<Longrightarrow> v = u"
  by (auto simp: load_token_def)

text \<open>What a successful load went through.\<close>

definition credentials_backed ::
  "string \<Rightarrow> string \<Rightarrow> cred_file \<Rightarrow> (string \<Rightarrow> string option) \<Rightarrow> credentials \<Rightarrow> bool" where
  "credentials_backed home project f lookup c \<longleftrightarrow>
     home \<noteq> [] \<and> project \<noteq> [] \<and> CHR ''/'' \<notin> set project \<and> hd project \<noteq> CHR ''.'' \<and>
     ct_dev_token c \<noteq> [] \<and> ct_reviewer_token c \<noteq> [] \<and>
     (case lookup ''GOLEMIC_DEV_TOKEN'' of Some v \<Rightarrow> ct_dev_token c = v | None \<Rightarrow> True) \<and>
     (case lookup ''GOLEMIC_REVIEWER_TOKEN'' of Some v \<Rightarrow> ct_reviewer_token c = v | None \<Rightarrow> True) \<and>
     (case f of CredFile perm _ \<Rightarrow> perm mod 64 = 0 | CredMissing \<Rightarrow> True | _ \<Rightarrow> False)"

lemma valid_project_name_path:
  "valid_project_name p \<Longrightarrow> p \<noteq> [] \<and> CHR ''/'' \<notin> set p \<and> hd p \<noteq> CHR ''.''"
  by (auto simp: valid_project_name_def list_all_iff is_name_char_def is_alpha_def is_decimal_def Let_def
      split: list.splits)

lemma read_file_closed: "read_credentials_file f = Inr fc \<Longrightarrow>
  (case f of CredFile perm _ \<Rightarrow> perm mod 64 = 0 | CredMissing \<Rightarrow> True | _ \<Rightarrow> False)"
  by (auto simp: read_credentials_file_def open_to_others_def split: cred_file.splits if_splits)

lemma load_backed:
  "case load_credentials home project f lookup of
     Inr c \<Rightarrow> credentials_backed home project f lookup c
   | Inl _ \<Rightarrow> True"
proof (cases "load_credentials home project f lookup")
  case (Inr c)
  then have "valid_project_name project" "home \<noteq> []" by (auto simp: load_credentials_def split: if_splits)
  moreover from Inr this obtain fc where fc: "read_credentials_file f = Inr fc"
    by (auto simp: load_credentials_def split: sum.splits)
  moreover from Inr calculation obtain dev src rvw src' where
    "load_token lookup ''GOLEMIC_DEV_TOKEN'' ''dev_token'' (map_option cfl_dev_token fc) = Inr (dev, src)"
    "load_token lookup ''GOLEMIC_REVIEWER_TOKEN'' ''reviewer_token'' (map_option cfl_reviewer_token fc) = Inr (rvw, src')"
    "dev \<noteq> []" "rvw \<noteq> []" "ct_dev_token c = dev" "ct_reviewer_token c = rvw"
    by (auto simp: load_credentials_def missing_tokens_none split: sum.splits if_splits)
  ultimately show ?thesis
    using Inr valid_project_name_path [of project] read_file_closed [OF fc]
    by (auto simp: credentials_backed_def dest: load_token_env split: option.split)
qed simp

text \<open>
  Credentials that were loaded are two tokens that are not empty, from the environment wherever
  the variable is set, from a file that nobody else can read, in a directory that the project's
  name cannot leave. A variable set to the empty string makes the load fail.
\<close>

theorem loaded_credentials_backed:
  "case load_credentials home project f lookup of
     Inr c \<Rightarrow> credentials_backed home project f lookup c
   | Inl _ \<Rightarrow> True"
  by (rule load_backed)

text \<open>The text of a credentials file with literal tokens.\<close>

definition credentials_text :: "string \<Rightarrow> string \<Rightarrow> string" where
  "credentials_text dev rvw = json_text (JObj [(''dev_token'', JStr dev), (''reviewer_token'', JStr rvw)])"

definition literal_token :: "string \<Rightarrow> bool" where
  "literal_token t \<longleftrightarrow> t \<noteq> [] \<and> valid_utf8 t \<and> \<not> contains_sub dollar_brace t"

lemma read_credentials_text:
  "valid_utf8 d \<Longrightarrow> valid_utf8 r \<Longrightarrow> read_credentials_file (CredFile perm (Some (credentials_text d r))) =
     (if open_to_others perm
      then Inl (msg_err ''credentials file has insecure permissions; run chmod 600 to restrict access'')
      else Inr (Some \<lparr>cfl_dev_token = d, cfl_reviewer_token = r\<rparr>))"
proof -
  assume valid: "valid_utf8 d" "valid_utf8 r"
  have low: "to_lower ''dev_token'' = ''dev_token''" "to_lower ''reviewer_token'' = ''reviewer_token''"
    by code_simp+
  have "decode_first (credentials_text d r) = Some (JObj [(''dev_token'', JStr d), (''reviewer_token'', JStr r)])"
    unfolding credentials_text_def by (rule decode_first_text) (simp add: valid)
  then show ?thesis
    by (simp add: read_credentials_file_def dec_credentials_file_def known_fields_def key_matches_def
        get_str_def get_field_def dec_str_def low)
qed

lemma load_literal:
  "literal_token t \<Longrightarrow>
     load_token lookup var field (Some t) =
       (case lookup var of Some v \<Rightarrow> Inr (v, ''direct_env'') | None \<Rightarrow> Inr (t, SourceFileLiteral))"
  by (simp add: load_token_def literal_token_def resolve_template_def split: option.split)

text \<open>
  What a load shows does not tell two literal tokens (of valid UTF-8) apart: with another dev token in the file
  the error is the same, or the load succeeds as well and \<open>String\<close> prints the same text.
\<close>

theorem tokens_not_shown:
  assumes "literal_token t" and "literal_token t'" and "literal_token u"
  shows "case (load_credentials home project (CredFile perm (Some (credentials_text t u))) lookup,
               load_credentials home project (CredFile perm (Some (credentials_text t' u))) lookup) of
      (Inl e, Inl e') \<Rightarrow> e = e'
    | (Inr c, Inr c') \<Rightarrow> credentials_string c = credentials_string c'
    | _ \<Rightarrow> False"
proof -
  have "t \<noteq> []" "t' \<noteq> []" "u \<noteq> []" "valid_utf8 t" "valid_utf8 t'" "valid_utf8 u" using assms by (auto simp: literal_token_def)
  then show ?thesis
    using assms
    by (auto simp: load_credentials_def read_credentials_text load_literal missing_tokens_def
        credentials_string_def split: option.split)
qed

theorem tokens_not_shown_witness:
  "load_credentials ''/root'' ''app'' (CredFile 384 (Some (credentials_text ''abc'' ''r''))) Map.empty =
     Inr \<lparr>ct_dev_token = ''abc'', ct_reviewer_token = ''r'', ct_dev_source = SourceFileLiteral,
          ct_reviewer_source = SourceFileLiteral\<rparr> \<and>
   (case (load_credentials ''/root'' ''app'' (CredFile 384 (Some (credentials_text ''abc'' ''r''))) Map.empty,
          load_credentials ''/root'' ''app'' (CredFile 384 (Some (credentials_text ''xyz'' ''r''))) Map.empty) of
      (Inl e, Inl e') \<Rightarrow> e = e'
    | (Inr c, Inr c') \<Rightarrow> credentials_string c = credentials_string c'
    | _ \<Rightarrow> False)"
proof
  have tok: "literal_token ''abc''" "literal_token ''xyz''" "literal_token ''r''"
    by (simp_all add: literal_token_def dollar_brace_def has_prefix_def)
  show "load_credentials ''/root'' ''app'' (CredFile 384 (Some (credentials_text ''abc'' ''r''))) Map.empty =
     Inr \<lparr>ct_dev_token = ''abc'', ct_reviewer_token = ''r'', ct_dev_source = SourceFileLiteral,
          ct_reviewer_source = SourceFileLiteral\<rparr>"
    by (simp add: load_credentials_def read_credentials_text load_literal tok missing_tokens_def
        open_to_others_def valid_project_name_def is_name_char_def is_alpha_def is_decimal_def)
  show "case (load_credentials ''/root'' ''app'' (CredFile 384 (Some (credentials_text ''abc'' ''r''))) Map.empty,
          load_credentials ''/root'' ''app'' (CredFile 384 (Some (credentials_text ''xyz'' ''r''))) Map.empty) of
      (Inl e, Inl e') \<Rightarrow> e = e'
    | (Inr c, Inr c') \<Rightarrow> credentials_string c = credentials_string c'
    | _ \<Rightarrow> False"
    by (rule tokens_not_shown [OF tok])
qed

end
