(* ===== verification/Host.thy ===== *)
theory Host
  imports World Credentials
begin

text \<open>
  Where the program runs: the paths of \<open>path/filepath\<close>, \<open>repo.ResolveHostRepo\<close>, which looks for
  the repository that encloses golemic, and \<open>claim.ResolveCredentials\<close>, which goes from the working
  directory to the login of the dev bot. What the operating system says of the process and of the
  two files is the record \<open>host\<close>; git and gh are calls of the environment.
\<close>

section \<open>Paths\<close>

text \<open>\<open>filepath.Clean\<close> on the components between the slashes; \<open>acc\<close> is what is kept, reversed.\<close>

fun clean_components :: "bool \<Rightarrow> string list \<Rightarrow> string list \<Rightarrow> string list" where
  "clean_components rooted acc [] = rev acc"
| "clean_components rooted acc (c # cs) =
     (if c = [] \<or> c = ''.'' then clean_components rooted acc cs
      else if c = ''..'' then
        (if acc \<noteq> [] \<and> hd acc \<noteq> ''..'' then clean_components rooted (tl acc) cs
         else if rooted then clean_components rooted acc cs
         else clean_components rooted (c # acc) cs)
      else clean_components rooted (c # acc) cs)"

definition is_abs :: "string \<Rightarrow> bool" where
  "is_abs p \<longleftrightarrow> p \<noteq> [] \<and> hd p = CHR ''/''"

definition path_clean :: "string \<Rightarrow> string" where
  "path_clean p =
     (let out = join_with ''/'' (clean_components (is_abs p) [] (split_on (CHR ''/'') p))
      in if is_abs p then CHR ''/'' # out else if out = [] then ''.'' else out)"

text \<open>\<open>filepath.Dir\<close>: everything up to the last slash, cleaned.\<close>

definition path_dir :: "string \<Rightarrow> string" where
  "path_dir p = path_clean (rev (dropWhile (\<lambda>c. c \<noteq> CHR ''/'') (rev p)))"

definition is_error :: "'a result \<Rightarrow> bool" where
  "is_error r \<longleftrightarrow> (case r of Inl _ \<Rightarrow> True | Inr _ \<Rightarrow> False)"

section \<open>The host repository\<close>

text \<open>The walk up from \<open>current\<close>; \<open>None\<close> is a walk that has not ended within the fuel.\<close>

fun host_search :: "nat \<Rightarrow> env \<Rightarrow> string \<Rightarrow> string \<Rightarrow> string option M" where
  "host_search 0 E root current = ret None"
| "host_search (Suc n) E root current =
     (if current = [] \<or> current = ''/'' then ret (Some root)
      else do {
        found \<leftarrow> stat_path E (path_clean (current @ ''/.git''));
        if \<not> found then host_search n E root (path_dir current)
        else handle (run_cmd E [''git'', ''-C'', current, ''rev-parse'', ''--show-toplevel''])
          (\<lambda>_. host_search n E root (path_dir current))
          (\<lambda>out. let candidate = trim_space out
                 in if candidate \<noteq> [] \<and> candidate \<noteq> root then ret (Some candidate)
                    else host_search n E root (path_dir current))
      })"

definition resolve_host_repo :: "nat \<Rightarrow> env \<Rightarrow> string \<Rightarrow> string result option M" where
  "resolve_host_repo fuel E cwd =
     handle (run_cmd E [''git'', ''rev-parse'', ''--show-toplevel''])
       (\<lambda>e. ret (Some (Inl (wrap_err ''not in a git repository: '' e))))
       (\<lambda>out. let root = trim_space out
              in if root = [] then ret (Some (Inl (msg_err ''not in a git repository'')))
                 else if cwd = root \<or> has_prefix (root @ ''/'') cwd then ret (Some (Inr root))
                 else do { r \<leftarrow> host_search fuel E root cwd; ret (map_option Inr r) })"

section \<open>The credentials of the dev bot\<close>

record host =
  ho_home :: "string result"
  ho_cwd :: "string result"
  ho_file :: "call list \<Rightarrow> string \<Rightarrow> file_read"
  ho_cred_file :: "call list \<Rightarrow> string \<Rightarrow> cred_file"
  ho_lookup :: "string \<Rightarrow> string option"

definition get_trace :: "call list M" where
  "get_trace = State (\<lambda>s. (rs_trace s, s))"

definition dec_login :: "json \<Rightarrow> string option" where
  "dec_login = get_str ''login''"

definition gh_user :: "env \<Rightarrow> string \<Rightarrow> (string \<times> string) result M" where
  "gh_user E token =
     handle (run_with_token E token [] [''gh'', ''api'', ''user''])
       (\<lambda>e. ret (Inl (wrap_err ''gh api user failed: '' e)))
       (\<lambda>out. ret (case unmarshal_into dec_login out of
            None \<Rightarrow> Inl (msg_err ''gh api user: failed to parse response'')
          | Some login \<Rightarrow>
              if login = [] then Inl (msg_err ''gh api user: login field is empty'')
              else Inr (login, token)))"

definition resolve_credentials :: "env \<Rightarrow> host \<Rightarrow> (string \<times> string) result option M" where
  "resolve_credentials E H =
     (case ho_home H of
        Inl e \<Rightarrow> ret (Some (Inl (wrap_err ''failed to get home directory: '' e)))
      | Inr home \<Rightarrow>
          (case ho_cwd H of
             Inl e \<Rightarrow> ret (Some (Inl (wrap_err ''failed to get working directory: '' e)))
           | Inr cwd \<Rightarrow> do {
               r \<leftarrow> resolve_host_repo (Suc (length cwd)) E cwd;
               (case r of
                  None \<Rightarrow> ret None
                | Some (Inl e) \<Rightarrow> ret (Some (Inl e))
                | Some (Inr root) \<Rightarrow> do {
                    t \<leftarrow> get_trace;
                    (case load_config (ho_file H t (path_join [root, ''.golemic'', ''config.json''])) of
                       Inl e \<Rightarrow> ret (Some (Inl e))
                     | Inr cfg \<Rightarrow>
                         (case load_credentials home (cf_project cfg)
                             (ho_cred_file H t (path_join [home, ''.golemic'', cf_project cfg, ''credentials.json'']))
                             (ho_lookup H) of
                            Inl e \<Rightarrow> ret (Some (Inl e))
                          | Inr creds \<Rightarrow> do { u \<leftarrow> gh_user E (ct_dev_token creds); ret (Some u) }))
                  })
             }))"

section \<open>The walk ends\<close>

definition weight :: "string list \<Rightarrow> nat" where
  "weight cs = (\<Sum>c\<leftarrow>cs. length c + 1)"

lemma weight_simps [simp]:
  "weight [] = 0" "weight (c # cs) = length c + 1 + weight cs" "weight (xs @ ys) = weight xs + weight ys"
  "weight (rev xs) = weight xs"
  by (simp_all add: weight_def rev_map [symmetric])

lemma weight_clean: "weight (clean_components rooted acc cs) \<le> weight acc + weight (filter (\<lambda>c. c \<noteq> []) cs)"
proof (induction rooted acc cs rule: clean_components.induct)
  case (2 rooted acc c cs)
  have tl: "weight (tl acc) \<le> weight acc" by (cases acc) auto
  consider "c = [] \<or> c = ''.''" | "c = ''..''" "acc \<noteq> [] \<and> hd acc \<noteq> ''..''"
    | "c = ''..''" "\<not> (acc \<noteq> [] \<and> hd acc \<noteq> ''..'')" "rooted"
    | "c \<noteq> [] \<and> c \<noteq> ''.''" "c = ''..'' \<longrightarrow> \<not> (acc \<noteq> [] \<and> hd acc \<noteq> ''..'') \<and> \<not> rooted"
    by blast
  then show ?case
  proof cases
    case 1
    then show ?thesis using 2(1) by auto
  next
    case 2
    then show ?thesis using "2.IH"(2) tl by simp
  next
    case 3
    then show ?thesis using "2.IH"(3) by auto
  next
    case 4
    then show ?thesis using "2.IH"(4,5) by (cases "c = ''..''") auto
  qed
qed simp

lemma weight_split: "weight (split_on c s) = length s + 1"
  by (induction c s rule: split_on.induct) (auto split: list.split)

lemma join_weight: "xs \<noteq> [] \<Longrightarrow> length (join_with ''/'' xs) + 1 = weight xs"
  by (induction "''/''" xs rule: join_with.induct) auto

lemma split_on_last: "split_on c (s @ [c]) = split_on c s @ [[]]"
  by (induction s) (auto split: list.split)

lemma clean_dir_length:
  "length (path_clean (CHR ''/'' # d @ ''/'')) \<le> length d + 1"
proof -
  let ?out = "clean_components True [] (split_on (CHR ''/'') (CHR ''/'' # d @ ''/''))"
  have "split_on (CHR ''/'') (CHR ''/'' # d @ ''/'') = [] # split_on (CHR ''/'') d @ [[]]"
    using split_on_last [of "CHR ''/''" d] by simp
  then have "weight ?out \<le> weight (filter (\<lambda>c. c \<noteq> []) (split_on (CHR ''/'') d))"
    using weight_clean [of True "[]" "split_on (CHR ''/'') (CHR ''/'' # d @ ''/'')"] by simp
  also have "\<dots> \<le> weight (split_on (CHR ''/'') d)"
    by (induction "split_on (CHR ''/'') d") (auto simp: weight_def intro: sum_list_filter_le_nat)
  finally have "weight ?out \<le> length d + 1" by (simp add: weight_split)
  then have "length (join_with ''/'' ?out) \<le> length d"
    using join_weight [of ?out] by (cases "?out = []") auto
  then show ?thesis by (simp add: path_clean_def is_abs_def)
qed

lemma both_ends: "length xs > 1 \<Longrightarrow> xs = hd xs # butlast (tl xs) @ [last xs]"
  by (cases xs; cases "tl xs" rule: rev_cases) auto

lemma path_dir_shorter:
  assumes "is_abs p" and "p \<noteq> ''/''"
  shows "is_abs (path_dir p) \<and> length (path_dir p) < length p"
proof -
  let ?d = "rev (dropWhile (\<lambda>c. c \<noteq> CHR ''/'') (rev p))"
  obtain q where p: "p = CHR ''/'' # q" "q \<noteq> []" using assms by (cases p) (auto simp: is_abs_def)
  have d: "?d \<noteq> [] \<and> last ?d = CHR ''/'' \<and> hd ?d = CHR ''/'' \<and> length ?d \<le> length p"
  proof -
    have some: "dropWhile (\<lambda>c. c \<noteq> CHR ''/'') (rev p) \<noteq> []" using p by (auto simp: dropWhile_eq_Nil_conv)
    have "p = ?d @ rev (takeWhile (\<lambda>c. c \<noteq> CHR ''/'') (rev p))"
      by (metis rev_append rev_rev_ident takeWhile_dropWhile_id)
    then have "hd p = hd ?d" using some by (metis hd_append rev_is_Nil_conv)
    moreover have "last ?d = CHR ''/''" using hd_dropWhile [OF some] some by (simp add: last_rev)
    ultimately show ?thesis using some p length_dropWhile_le [of _ "rev p"] by auto
  qed
  show ?thesis
  proof (cases "length ?d = 1")
    case True
    with d have "?d = ''/''" by (cases ?d) auto
    then have "path_dir p = ''/''" by (simp add: path_dir_def path_clean_def is_abs_def)
    with p show ?thesis by (simp add: is_abs_def)
  next
    case False
    with d have "?d = CHR ''/'' # butlast (tl ?d) @ ''/''"
      using both_ends [of ?d] by (cases "length ?d") auto
    then obtain m where m: "?d = CHR ''/'' # m @ ''/''" by blast
    have "length (path_clean (CHR ''/'' # m @ ''/'')) < length p"
      using clean_dir_length [of m] d by (simp add: m)
    then show ?thesis by (simp add: path_dir_def m path_clean_def is_abs_def)
  qed
qed


lemma run_value_handle:
  "run_value (handle m h k) s =
     (case run_value m s of Inl e \<Rightarrow> run_value (h e) (final_state m s) | Inr v \<Rightarrow> run_value (k v) (final_state m s))"
  by (simp add: handle_def split: sum.split)

lemma host_search_ends:
  "is_abs current \<Longrightarrow> length current \<le> n \<Longrightarrow> run_value (host_search n E root current) s \<noteq> None"
proof (induction n arbitrary: current s)
  case 0
  then show ?case by (simp add: is_abs_def)
next
  case (Suc n)
  show ?case
  proof (cases "current = ''/''")
    case False
    then have "run_value (host_search n E root (path_dir current)) t \<noteq> None" for t
      using path_dir_shorter [of current] Suc by simp
    then show ?thesis by (simp add: run_value_handle Let_def split: sum.split)
  qed simp
qed

lemma host_search_nonempty:
  "root \<noteq> [] \<Longrightarrow> run_value (host_search n E root current) s = Some r \<Longrightarrow> r \<noteq> []"
  by (induction n arbitrary: current s)
    (auto simp: run_value_handle Let_def split: sum.splits if_splits)

text \<open>
  C21: From an absolute working directory the search for the host repository ends, after at most
  one step per character of the path: with an error when git knows no root, with git's root when
  it encloses the working directory, and with some root otherwise.
\<close>

theorem host_repo_found:
  assumes "is_abs cwd"
  shows "\<exists>r. run_value (resolve_host_repo (length cwd) E cwd) s = Some r \<and>
    (case e_exec E (rs_trace s) (Cmd [] [] [''git'', ''rev-parse'', ''--show-toplevel'']) of
       Inl _ \<Rightarrow> is_error r
     | Inr out \<Rightarrow>
         (if trim_space out = [] then is_error r
          else if cwd = trim_space out \<or> has_prefix (trim_space out @ ''/'') cwd then r = Inr (trim_space out)
          else \<exists>root. r = Inr root \<and> root \<noteq> []))"
proof (cases "e_exec E (rs_trace s) (Cmd [] [] [''git'', ''rev-parse'', ''--show-toplevel''])")
  case (Inl e)
  then show ?thesis by (simp add: resolve_host_repo_def run_value_handle op_defs run_prims is_error_def)
next
  case (Inr out)
  define t where "t = final_state (run_cmd E [''git'', ''rev-parse'', ''--show-toplevel'']) s"
  obtain root where root: "run_value (host_search (length cwd) E (trim_space out) cwd) t = Some root"
    using host_search_ends [OF assms order_refl] by blast
  have "trim_space out \<noteq> [] \<Longrightarrow> root \<noteq> []" using host_search_nonempty [OF _ root] by blast
  moreover have "run_value (run_cmd E [''git'', ''rev-parse'', ''--show-toplevel'']) s = Inr out"
    using Inr by (simp add: op_defs run_prims)
  ultimately show ?thesis
    using Inr root by (simp add: resolve_host_repo_def run_value_handle Let_def is_error_def t_def)
qed

text \<open>golemic linked into \<open>/h/t\<close> from a checkout at \<open>/g\<close>.\<close>

definition linked_env :: env where
  "linked_env = failing_env
     \<lparr>e_exec := \<lambda>_ c. Inr (if ''-C'' \<in> set (cmd_argv c) then ''/h'' else ''/g''),
      e_stat := \<lambda>_ p. p = ''/h/.git''\<rparr>"

theorem host_repo_found_witness:
  "\<exists>s root. run_value (resolve_host_repo (length ''/h/t'') linked_env ''/h/t'') s = Some (Inr root) \<and> root \<noteq> []"
proof -
  fix s :: rstate
  have "trim_space ''/g'' = ''/g''" by (simp add: trim_space_def trim_left_def trim_right_def is_space_def)
  then show ?thesis
    using host_repo_found [of "''/h/t''" linked_env s]
    by (auto simp: is_abs_def linked_env_def has_prefix_def)
qed

end
