(* ===== verification/Run_Loop.thy ===== *)
theory Run_Loop
  imports Claim Host
begin

text \<open>
  The package \<open>internal/runloop\<close>: a tick asks for the next issue, claims it, runs \<open>golemic run\<close>
  on it in a process of its own, and releases it with a reason it reads from the event log of the
  tick. The log of the state is the log of the current tick. The child process is a command whose
  success means that it was started and awaited; how it exited is only printed, and a
  cancellation while it runs forwards a signal and then waits as well.
\<close>

section \<open>The loop\<close>

record loop_env =
  lo_bin :: string
  lo_home :: string
  lo_repo_root :: string
  lo_project :: string
  lo_host :: host
  lo_run_id :: "call list \<Rightarrow> string"
  lo_child_events :: "call list \<Rightarrow> event list"   \<comment> \<open>what the child wrote to the log of the tick\<close>
  lo_cancelled :: "call list \<Rightarrow> bool"            \<comment> \<open>the context is done\<close>

record tick_env =
  te_run_id :: string
  te_event_log :: string
  te_turn_id :: string

text \<open>\<open>New\<close>: the interval in milliseconds; the variable overrides it with a positive integer.\<close>

definition default_interval_ms :: int where
  "default_interval_ms = 60000"

definition loop_interval_ms :: "string option \<Rightarrow> int" where
  "loop_interval_ms var =
     (case var of
        None \<Rightarrow> default_interval_ms
      | Some v \<Rightarrow>
          if v = [] then default_interval_ms
          else (case atoi v of Some n \<Rightarrow> if n > 0 then n else default_interval_ms | None \<Rightarrow> default_interval_ms))"

text \<open>
  \<open>resolveCredentials\<close>. The walk of \<open>ResolveHostRepo\<close> ends from the absolute path that \<open>os.Getwd\<close>
  gives; from a relative one it may not, which is an error here.
\<close>

definition loop_credentials :: "env \<Rightarrow> loop_env \<Rightarrow> (string \<times> string) result M" where
  "loop_credentials E L =
     do {
       r \<leftarrow> resolve_credentials E (lo_host L);
       ret (case r of Some x \<Rightarrow> x | None \<Rightarrow> Inl (msg_err ''no host repository above the working directory''))
     }"

definition select_issue :: "env \<Rightarrow> loop_env \<Rightarrow> int option M" where
  "select_issue E L =
     handle (run_in_dir E (lo_repo_root L) [lo_bin L, ''next-issue''])
       (\<lambda>_. ret None)
       (\<lambda>out. ret (case unmarshal_into (get_int ''number'') out of
            None \<Rightarrow> None
          | Some n \<Rightarrow> if n \<le> 0 then None else Some n))"

text \<open>\<open>writeEvent\<close> reports success; the two payloads always have a JSON text.\<close>

definition write_tick_event :: "env \<Rightarrow> tick_env \<Rightarrow> string \<Rightarrow> json \<Rightarrow> bool M" where
  "write_tick_event E te ty payload =
     (case atoi (te_turn_id te) of
        None \<Rightarrow> ret False
      | Some turn \<Rightarrow>
          if te_event_log te = [] \<or> te_run_id te = [] \<or> turn < 0 then ret False
          else do {
            ok \<leftarrow> log_open E;
            if \<not> ok then ret False
            else do {
              ts \<leftarrow> now E;
              r \<leftarrow> write_event E \<lparr>ev_type = ty, ev_ts = ts, ev_run_id = te_run_id te, ev_turn_id = turn,
                                  ev_payload = Some payload\<rparr>;
              ret (r = None)
            }
          })"

definition write_claim_event :: "env \<Rightarrow> tick_env \<Rightarrow> int \<Rightarrow> bool M" where
  "write_claim_event E te n =
     write_tick_event E te EventIssueClaimed (marshal_issue_claimed n ''ok'')"

definition write_release_event :: "env \<Rightarrow> tick_env \<Rightarrow> int \<Rightarrow> string \<Rightarrow> bool M" where
  "write_release_event E te n reason =
     write_tick_event E te EventIssueReleased (marshal_issue_released n reason)"

definition loop_claim :: "env \<Rightarrow> loop_env \<Rightarrow> tick_env \<Rightarrow> int \<Rightarrow> bool M" where
  "loop_claim E L te n =
     handle (loop_credentials E L) (\<lambda>_. ret False) (\<lambda>(login, token). do {
       r \<leftarrow> claim E n login token;
       (case fst r of
          ResultOK \<Rightarrow> write_claim_event E te n
        | ResultIdempotent \<Rightarrow> ret True
        | _ \<Rightarrow> ret False)
     })"

definition loop_release :: "env \<Rightarrow> loop_env \<Rightarrow> tick_env \<Rightarrow> int \<Rightarrow> string \<Rightarrow> unit M" where
  "loop_release E L te n reason =
     handle (loop_credentials E L) (\<lambda>_. ret ()) (\<lambda>(login, token). do {
       r \<leftarrow> release E n login token reason;
       (case fst r of
          ReleaseResultOK \<Rightarrow> do { _ \<leftarrow> write_release_event E te n reason; ret () }
        | _ \<Rightarrow> ret ())
     })"

section \<open>The reason of a release\<close>

definition reason_of :: "event list \<Rightarrow> string" where
  "reason_of events =
     (case last_event_of_type events EventRunFinished of
        Inl _ \<Rightarrow> ''abandoned''
      | Inr ev \<Rightarrow>
          (case Option.bind (ev_payload ev) (get_str ''outcome'') of
             None \<Rightarrow> ''abandoned''
           | Some outcome \<Rightarrow> if outcome = ''success'' then ''done'' else ''failed''))"

definition derive_reason :: "env \<Rightarrow> string M" where
  "derive_reason E = handle (read_events E) (\<lambda>_. ret ''abandoned'') (\<lambda>events. ret (reason_of events))"

section \<open>A tick\<close>

definition runner_cmd :: "loop_env \<Rightarrow> tick_env \<Rightarrow> int \<Rightarrow> cmd" where
  "runner_cmd L te n =
     Cmd [(''GOLEMIC_RUN_ID'', te_run_id te), (''GOLEMIC_EVENT_LOG'', te_event_log te),
          (''GOLEMIC_TURN_ID'', te_turn_id te)]
       (lo_repo_root L) [lo_bin L, ''run'', ''--issue'', itoa n]"

text \<open>\<open>StartWithEnvInDir\<close> and \<open>Wait\<close>.\<close>

definition start_runner :: "env \<Rightarrow> loop_env \<Rightarrow> tick_env \<Rightarrow> int \<Rightarrow> string result M" where
  "start_runner E L te n = State (\<lambda>s.
     let r = e_exec E (rs_trace s) (runner_cmd L te n);
         evs = (case r of Inl _ \<Rightarrow> [] | Inr _ \<Rightarrow> lo_child_events L (rs_trace s))
     in (r, s\<lparr>rs_trace := rs_trace s @ [CExec (runner_cmd L te n) r], rs_log := rs_log s @ evs\<rparr>))"

definition run_and_release :: "env \<Rightarrow> loop_env \<Rightarrow> tick_env \<Rightarrow> int \<Rightarrow> unit M" where
  "run_and_release E L te n =
     handle (start_runner E L te n)
       (\<lambda>_. loop_release E L te n ''abandoned'')
       (\<lambda>_. do { reason \<leftarrow> derive_reason E; loop_release E L te n reason })"

text \<open>The log of a new tick is a new file.\<close>

definition new_log :: "unit M" where
  "new_log = State (\<lambda>s. ((), s\<lparr>rs_log := []\<rparr>))"

definition new_tick_env :: "loop_env \<Rightarrow> tick_env M" where
  "new_tick_env L = State (\<lambda>s.
     let run_id = lo_run_id L (rs_trace s)
     in (\<lparr>te_run_id = run_id,
          te_event_log = path_join [lo_home L, ''.golemic'', lo_project L, ''runs'', run_id, ''events.jsonl''],
          te_turn_id = ''0''\<rparr>, s))"

definition tick :: "env \<Rightarrow> loop_env \<Rightarrow> bool M" where
  "tick E L =
     do {
       issue \<leftarrow> select_issue E L;
       (case issue of
          None \<Rightarrow> ret False
        | Some n \<Rightarrow> do {
            te \<leftarrow> new_tick_env L;
            ok \<leftarrow> make_dir E (path_join [lo_home L, ''.golemic'', lo_project L, ''runs'', te_run_id te]);
            if \<not> ok then ret False
            else do {
              _ \<leftarrow> new_log;
              claimed \<leftarrow> loop_claim E L te n;
              if \<not> claimed then ret False
              else do { _ \<leftarrow> run_and_release E L te n; ret True }
            }
          })
     }"

text \<open>
  \<open>Run\<close>, for at most \<open>n\<close> ticks: it ends when the context is done before a tick. A tick that did
  not process an issue waits for the interval first.
\<close>

fun loop_run :: "nat \<Rightarrow> env \<Rightarrow> loop_env \<Rightarrow> unit M" where
  "loop_run 0 E L = ret ()"
| "loop_run (Suc n) E L =
     do {
       _ \<leftarrow> tick E L;
       t \<leftarrow> get_trace;
       if lo_cancelled L t then ret () else loop_run n E L
     }"


section \<open>Runners start on claimed issues only\<close>

definition starts_runner :: "int \<Rightarrow> call \<Rightarrow> bool" where
  "starts_runner n c \<longleftrightarrow>
     (case c of CExec (Cmd _ _ argv) _ \<Rightarrow> tl argv = [''run'', ''--issue'', itoa n] | _ \<Rightarrow> False)"

definition claim_seen :: "int \<Rightarrow> call list \<Rightarrow> bool" where
  "claim_seen n t \<longleftrightarrow> (\<exists>login. list_ex (shows_claim n login) t)"

definition starts_claimed :: "call list \<Rightarrow> bool" where
  "starts_claimed t \<longleftrightarrow> (\<forall>pre c post n. t = pre @ c # post \<and> starts_runner n c \<longrightarrow> claim_seen n pre)"

lemma starts_claimed_Nil [simp]: "starts_claimed []"
  by (simp add: starts_claimed_def)

lemma starts_claimed_append:
  "starts_claimed t \<Longrightarrow> list_all (\<lambda>c. \<forall>n. \<not> starts_runner n c) cs \<Longrightarrow> starts_claimed (t @ cs)"
  unfolding starts_claimed_def
  by (auto simp: append_eq_append_conv2 append_eq_Cons_conv list_all_iff)

lemma starts_claimed_start: "starts_claimed t \<Longrightarrow> (\<And>n. starts_runner n c \<Longrightarrow> claim_seen n t) \<Longrightarrow> starts_claimed (t @ [c])"
  unfolding starts_claimed_def
  by (auto simp: append_eq_append_conv2 append_eq_Cons_conv Cons_eq_append_conv)

text \<open>Calls that start no runner.\<close>

abbreviation no_start :: "call \<Rightarrow> bool" where
  "no_start c \<equiv> (\<forall>n. \<not> starts_runner n c)"

lemma starts_runner_simps [simp]:
  "starts_runner n (CExec (Cmd v d (a # argv)) r) \<longleftrightarrow> argv = [''run'', ''--issue'', itoa n]"
  "\<not> starts_runner n (CStat p b)" "\<not> starts_runner n (CLogRead b)" "\<not> starts_runner n (CLogOpen b)"
  "\<not> starts_runner n (CLogWrite e b)" "\<not> starts_runner n (CMkDir p b)"
  by (simp_all add: starts_runner_def)

lemma no_start_get_trace [grows, emits]: "upholds history_grows get_trace" "upholds (only_calls A) get_trace"
  by (auto simp: upholds_def get_trace_def final_state_def history_grows_same only_calls_def)

lemma no_start_host_search: "upholds (only_calls no_start) (host_search n E root current)"
proof (induction n arbitrary: current)
  case (Suc n)
  then show ?case by (simp add: Let_def) (intro emits impI conjI; simp)
qed (simp, intro emits)

lemma no_start_credentials: "upholds (only_calls no_start) (loop_credentials E L)"
  unfolding loop_credentials_def resolve_credentials_def resolve_host_repo_def gh_user_def
  by (intro emits no_start_host_search; simp)

lemma no_start_view: "upholds (only_calls no_start) (view_issue E token n)"
  unfolding view_issue_def by (intro emits; simp)

lemma no_start_edit: "upholds (only_calls no_start) (edit_issue E token n args)"
  unfolding edit_issue_def by (intro emits; simp)

lemma no_start_claim: "upholds (only_calls no_start) (claim E n login token)"
  unfolding claim_def
  by (intro emits no_start_view no_start_edit; simp split: claim_decision.split; intro conjI impI emits no_start_view no_start_edit)


lemma no_start_events: "upholds (only_calls no_start) (write_tick_event E te ty p)"
  unfolding write_tick_event_def by (intro emits; simp)

lemma no_start_loop_release: "upholds (only_calls no_start) (loop_release E L te n reason)"
  unfolding loop_release_def release_def write_release_event_def
  by (intro emits no_start_credentials no_start_view no_start_edit no_start_events;
      simp split: release_result.split; intro conjI impI emits no_start_events)

text \<open>Keeping the invariant: by starting nothing, or after a claim.\<close>

lemma keeps_claimed:
  "upholds (only_calls no_start) m \<Longrightarrow> starts_claimed (rs_trace s) \<Longrightarrow> starts_claimed (rs_trace (final_state m s))"
  using upholdsD [of "only_calls no_start" m s] by (auto simp: only_calls_def intro: starts_claimed_append)

lemma claim_seen_append: "claim_seen n t \<Longrightarrow> claim_seen n (t @ cs)"
  by (auto simp: claim_seen_def)

lemma loop_claim_seen:
  "wp (loop_claim E L te n) (\<lambda>ok t. ok \<longrightarrow> claim_seen n (rs_trace t)) s"
proof -
  have event: "claim_seen n (rs_trace t) \<Longrightarrow>
      wp (write_claim_event E te n) (\<lambda>ok t. ok \<longrightarrow> claim_seen n (rs_trace t)) t" for t
    using no_start_events [of E te EventIssueClaimed "marshal_issue_claimed n ''ok''"]
      upholdsD [of "only_calls no_start" "write_claim_event E te n" t]
    by (auto simp: wp_def write_claim_event_def only_calls_def intro: claim_seen_append)
  have seen: "claim_ended n login s' r t \<Longrightarrow> fst r = ResultOK \<or> fst r = ResultIdempotent \<Longrightarrow>
      claim_seen n (rs_trace t)" for r t login s'
    unfolding claim_seen_def
    by (rule exI [of _ login]) (auto simp: claim_ended_def list_ex_iff intro: bexI [OF _ last_in_set])
  have settled: "wp (case fst r of ResultOK \<Rightarrow> write_claim_event E te n | ResultIdempotent \<Rightarrow> ret True | _ \<Rightarrow> ret False)
      (\<lambda>ok t. ok \<longrightarrow> claim_seen n (rs_trace t)) t" if "claim_ended n login s' r t" for r t login s'
    using seen [OF that] by (cases "fst r") (simp_all add: wp_return event)
  have claim: "wp (do { r \<leftarrow> claim E n login token;
        (case fst r of ResultOK \<Rightarrow> write_claim_event E te n | ResultIdempotent \<Rightarrow> ret True | _ \<Rightarrow> ret False) })
      (\<lambda>ok t. ok \<longrightarrow> claim_seen n (rs_trace t)) t" for login token t
    unfolding wp_bind by (rule wp_mono [OF claim_ends]) (rule settled)
  show ?thesis
    unfolding loop_claim_def wp_handle
    by (rule wp_mono [OF wp_true]) (auto simp: wp_return claim split: sum.split)
qed


lemma start_runner_run:
  "rs_trace (final_state (start_runner E L te n) s) =
     rs_trace s @ [CExec (runner_cmd L te n) (e_exec E (rs_trace s) (runner_cmd L te n))]"
  by (simp add: start_runner_def final_state_def Let_def)

lemma no_start_derive: "upholds (only_calls no_start) (derive_reason E)"
  unfolding derive_reason_def by (intro emits; simp)

lemma run_and_release_claimed:
  assumes "starts_claimed (rs_trace s)" and "claim_seen n (rs_trace s)"
  shows "wp (run_and_release E L te n) (\<lambda>_ t. starts_claimed (rs_trace t)) s"
proof -
  have "itoa n = itoa m \<longleftrightarrow> n = m" for m by (rule itoa_inj)
  then have start: "starts_claimed (rs_trace (final_state (start_runner E L te n) s))"
    using assms by (auto simp: start_runner_run runner_cmd_def intro!: starts_claimed_start)
  have rest: "upholds (only_calls no_start) (do { reason \<leftarrow> derive_reason E; loop_release E L te n reason })"
    by (intro emits no_start_derive no_start_loop_release)
  show ?thesis
    unfolding run_and_release_def wp_handle
    using keeps_claimed [OF no_start_loop_release start] keeps_claimed [OF rest start]
    by (auto simp: wp_def split: sum.split)
qed

lemma no_start_select: "upholds (only_calls no_start) (select_issue E L)"
  unfolding select_issue_def by (intro emits; simp)

lemma no_start_loop_claim: "upholds (only_calls no_start) (loop_claim E L te n)"
  unfolding loop_claim_def write_claim_event_def
  by (intro emits no_start_credentials no_start_claim no_start_events;
      simp split: claim_result.split; intro conjI impI emits no_start_events)

lemma new_tick_run [simp]: "final_state (new_tick_env L) s = s" "rs_trace (final_state new_log s) = rs_trace s"
  by (simp_all add: new_tick_env_def new_log_def final_state_def Let_def)

lemma tick_claimed:
  assumes "starts_claimed (rs_trace s)"
  shows "starts_claimed (rs_trace (final_state (tick E L) s))"
proof -
  let ?P = "\<lambda>t. starts_claimed (rs_trace t)"
  have claimed: "wp (do { claimed \<leftarrow> loop_claim E L te n;
      if \<not> claimed then ret False else do { _ \<leftarrow> run_and_release E L te n; ret True } }) (\<lambda>_. ?P) t"
    if "?P t" for te n t
  proof -
    have "wp (loop_claim E L te n) (\<lambda>ok u. ?P u \<and> (ok \<longrightarrow> claim_seen n (rs_trace u))) t"
      using loop_claim_seen [of E L te n t] keeps_claimed [OF no_start_loop_claim that] by (simp add: wp_def)
    then show ?thesis
      unfolding wp_bind
      by (rule wp_mono) (auto simp: wp_return wp_bind intro: wp_mono [OF run_and_release_claimed])
  qed
  have dir: "wp (do { ok \<leftarrow> make_dir E p;
      if \<not> ok then ret False
      else do { _ \<leftarrow> new_log; claimed \<leftarrow> loop_claim E L te n;
                if \<not> claimed then ret False else do { _ \<leftarrow> run_and_release E L te n; ret True } } }) (\<lambda>_. ?P) t"
    if "?P t" for te n t p
  proof -
    have "?P (final_state (make_dir E p) t)"
      by (rule keeps_claimed [OF _ that]) (intro emits; simp)
    then show ?thesis
      using claimed [of "final_state new_log (final_state (make_dir E p) t)" te n]
      by (simp add: wp_def)
  qed
  have "?P (final_state (select_issue E L) s)" by (rule keeps_claimed [OF no_start_select assms])
  then have "wp (tick E L) (\<lambda>_. ?P) s"
    using dir by (auto simp: tick_def wp_bind wp_def split: option.split)
  then show ?thesis by (simp add: wp_def)
qed

lemma get_trace_run [simp]: "run_value get_trace s = rs_trace s" "final_state get_trace s = s"
  by (simp_all add: get_trace_def run_value_def final_state_def)

text \<open>
  C20: However long the loop runs and whatever its calls answer, a runner process is started for an
  issue only after GitHub has shown that issue in progress, without the ready label, and assigned
  to one login alone.
\<close>

theorem runner_needs_claim:
  "starts_claimed (rs_trace (final_state (loop_run n E L)
     \<lparr>rs_turn = 0, rs_nwo = [], rs_log = [], rs_trace = [], rs_usage = []\<rparr>))"
proof -
  have "starts_claimed (rs_trace s) \<Longrightarrow> starts_claimed (rs_trace (final_state (loop_run n E L) s))" for s
    by (induction n arbitrary: s) (simp_all add: tick_claimed)
  then show ?thesis by simp
qed

definition finished_with :: "event list \<Rightarrow> string option" where
  "finished_with es =
     (case filter (\<lambda>e. ev_type e = EventRunFinished) es of
        [] \<Rightarrow> None
      | fs \<Rightarrow> Option.bind (ev_payload (last fs)) (get_str ''outcome''))"

lemma find_last_filter: "find_last p xs = (case filter p xs of [] \<Rightarrow> None | ys \<Rightarrow> Some (last ys))"
  by (induction xs) (auto split: list.splits option.splits)

text \<open>
  The reason of a release is \<open>done\<close> exactly when the last \<open>run_finished\<close> event reports success,
  \<open>failed\<close> when it reports anything else, skipped runs included, and \<open>abandoned\<close> when there is no
  such event or its payload cannot be read.
\<close>

theorem release_reason:
  "reason_of es =
     (case finished_with es of
        None \<Rightarrow> ''abandoned''
      | Some outcome \<Rightarrow> if outcome = ''success'' then ''done'' else ''failed'')"
  by (auto simp: reason_of_def finished_with_def last_event_of_type_def find_last_filter
      split: list.split option.split)

section \<open>A claim that is never released\<close>

text \<open>
  The process acts as \<open>bot\<close> in the repository \<open>/h\<close>; GitHub has one free issue; the log of a tick
  cannot be opened.
\<close>

definition app_config :: config where
  "app_config = (DefaultConfig ''app'')\<lparr>cf_verify_command := ''make''\<rparr>"

definition bot_host :: host where
  "bot_host =
     \<lparr>ho_home = Inr ''/root'', ho_cwd = Inr ''/h'',
      ho_file = \<lambda>_ _. Contents (json_text (config_json app_config)),
      ho_cred_file = \<lambda>_ _. CredMissing,
      ho_lookup = \<lambda>v. if v \<in> {''GOLEMIC_DEV_TOKEN'', ''GOLEMIC_REVIEWER_TOKEN''} then Some ''t'' else None\<rparr>"

definition bot_loop :: loop_env where
  "bot_loop =
     \<lparr>lo_bin = ''golemic'', lo_home = ''/root'', lo_repo_root = ''/h'', lo_project = ''app'',
      lo_host = bot_host, lo_run_id = \<lambda>_. ''loop-1'', lo_child_events = \<lambda>_. [], lo_cancelled = \<lambda>_. False\<rparr>"

definition login_text :: string where
  "login_text = json_text (JObj [(''login'', JStr ''bot'')])"

definition number_text :: string where
  "number_text = json_text (JObj [(''number'', jint 7)])"

definition full_disk_env :: env where
  "full_disk_env = bot_env
     \<lparr>e_exec := \<lambda>t c.
        if cmd_argv c = [''git'', ''rev-parse'', ''--show-toplevel''] then Inr ''/h''
        else if cmd_argv c = [''gh'', ''api'', ''user''] then Inr login_text
        else if cmd_argv c = [''golemic'', ''next-issue''] then Inr number_text
        else e_exec bot_env t c,
      e_mkdir := \<lambda>_ _. True, e_log_open := \<lambda>_. False\<rparr>"

lemma issue_after_other:
  "take 3 argv \<noteq> [''gh'', ''issue'', ''edit''] \<Longrightarrow> issue_after (t @ [CExec (Cmd v d argv) r]) = issue_after t"
  by (simp add: issue_after_def split: sum.split)

lemma bot_credentials:
  "wp (loop_credentials full_disk_env bot_loop)
     (\<lambda>r t. r = Inr (''bot'', ''t'') \<and> issue_after (rs_trace t) = issue_after (rs_trace s)) s"
proof -
  have cfg: "load_config (Contents (json_text (config_json app_config))) = Inr app_config"
    by (rule load_config_text)
      (simp_all add: app_config_def config_ok_def config_ints_def config_texts_def in_int64_def max_int64_def DefaultConfig_def)
  have creds: "load_credentials ''/root'' ''app'' CredMissing (ho_lookup bot_host) =
      Inr \<lparr>ct_dev_token = ''t'', ct_reviewer_token = ''t'', ct_dev_source = ''direct_env'',
           ct_reviewer_source = ''direct_env''\<rparr>"
    by (simp add: load_credentials_def bot_host_def valid_project_name_def is_alpha_def is_name_char_def
        is_decimal_def read_credentials_file_def load_token_def missing_tokens_def)
  have login: "unmarshal_into dec_login login_text = Some ''bot''"
    unfolding dec_login_def login_text_def by (subst unmarshal_into_text) (simp_all add: json_dec_defs)
  have root: "trim_space ''/h'' = ''/h''"
    by (simp add: trim_space_def trim_left_def trim_right_def is_space_def)
  have repo: "wp (resolve_host_repo k full_disk_env ''/h'')
      (\<lambda>r t. r = Some (Inr ''/h'') \<and> issue_after (rs_trace t) = issue_after (rs_trace s)) s" for k
    by (simp add: resolve_host_repo_def wp_simps op_defs full_disk_env_def root issue_after_other)
  have user: "wp (gh_user full_disk_env ''t'')
      (\<lambda>r t. r = Inr (''bot'', ''t'') \<and> issue_after (rs_trace t) = issue_after (rs_trace u)) u" for u
    by (simp add: gh_user_def wp_simps op_defs full_disk_env_def login issue_after_other)
  have host: "load_config (ho_file bot_host t p) = Inr app_config" "cf_project app_config = ''app''"
    "ho_cred_file bot_host t p = CredMissing" "ho_home bot_host = Inr ''/root''" "ho_cwd bot_host = Inr ''/h''" for t p
    using cfg by (simp_all add: bot_host_def app_config_def DefaultConfig_def)
  have rest: "wp (do { t \<leftarrow> get_trace;
      (case load_config (ho_file bot_host t p) of
         Inl e \<Rightarrow> ret (Some (Inl e))
       | Inr cfg \<Rightarrow> (case load_credentials ''/root'' (cf_project cfg) (ho_cred_file bot_host t (q cfg)) (ho_lookup bot_host) of
             Inl e \<Rightarrow> ret (Some (Inl e))
           | Inr creds \<Rightarrow> do { u \<leftarrow> gh_user full_disk_env (ct_dev_token creds); ret (Some u) })) })
      (\<lambda>r t. r = Some (Inr (''bot'', ''t'')) \<and> issue_after (rs_trace t) = issue_after (rs_trace u)) u" for p q u
    unfolding host creds wp_bind sum.case
    by (auto simp: wp_def host creds) (use user [of u] in \<open>auto simp: wp_def\<close>)
  show ?thesis
    unfolding loop_credentials_def resolve_credentials_def wp_bind
    using repo rest by (simp add: bot_loop_def host wp_def)
qed

lemma full_disk_answers:
  "e_exec full_disk_env t (view_cmd token n) = e_exec bot_env t (view_cmd token n)"
  "e_exec full_disk_env t (edit_cmd token n args) = Inr []"
  by (simp_all add: full_disk_env_def view_cmd_def edit_cmd_def bot_env_def)

lemma wp_view_issue:
  "wp (view_issue E token n) Q s \<longleftrightarrow>
     (let r = e_exec E (rs_trace s) (view_cmd token n);
          t = s\<lparr>rs_trace := rs_trace s @ [CExec (view_cmd token n) r]\<rparr>
      in case r of
           Inl e \<Rightarrow> Q (Inl (wrap_err (''gh issue view '' @ itoa n @ '': '') e)) t
         | Inr out \<Rightarrow> Q (case unmarshal_into dec_issue_view out of
               None \<Rightarrow> Inl (msg_err (''parse issue view '' @ itoa n @ '': '')) | Some v \<Rightarrow> Inr v) t)"
  by (simp add: view_issue_def wp_simps op_defs view_cmd_def Let_def split: sum.split)

lemma wp_edit_issue:
  "wp (edit_issue E token n args) Q s \<longleftrightarrow>
     Q (e_exec E (rs_trace s) (edit_cmd token n args))
       (s\<lparr>rs_trace := rs_trace s @ [CExec (edit_cmd token n args) (e_exec E (rs_trace s) (edit_cmd token n args))]\<rparr>)"
  by (simp add: edit_issue_def wp_simps op_defs edit_cmd_def)

lemma full_disk_claim:
  assumes "issue_after (rs_trace s) = ready_issue"
  shows "wp (claim full_disk_env n ''bot'' token)
    (\<lambda>r t. r = (ResultOK, None) \<and> issue_after (rs_trace t) = taken_issue {''bot''}) s"
proof -
  have ne: "taken_issue {''bot''} \<noteq> ready_issue" by (simp add: ready_issue_def taken_issue_def)
  let ?v = "CExec (view_cmd token n) (Inr (json_text (view_json ready_view)))"
  have "issue_after (rs_trace s @ [?v, CExec (edit_cmd token n claim_edit) (Inr [])]) = taken_issue {''bot''}"
    using issue_after_step(3) [of "rs_trace s @ [?v]" token n claim_edit "[]"] assms
    by (simp add: race_views)
  moreover have "issue_after (rs_trace s @ [?v, CExec (edit_cmd token n claim_edit) (Inr []), CExec (view_cmd token n) r]) =
      issue_after (rs_trace s @ [?v, CExec (edit_cmd token n claim_edit) (Inr [])])" for r
    using issue_after_step(2) [of "rs_trace s @ [?v, CExec (edit_cmd token n claim_edit) (Inr [])]" token n r]
    by simp
  ultimately show ?thesis
    using assms ne
    by (simp add: claim_def wp_simps wp_view_issue wp_edit_issue full_disk_answers bot_env_answers view_text
        race_views Let_def)
qed

lemma full_disk_loop_claim:
  assumes "issue_after (rs_trace s) = ready_issue"
  shows "wp (loop_claim full_disk_env bot_loop te n)
    (\<lambda>ok t. \<not> ok \<and> issue_after (rs_trace t) = taken_issue {''bot''}) s"
proof -
  have event: "wp (write_claim_event full_disk_env te n)
      (\<lambda>ok t. \<not> ok \<and> issue_after (rs_trace t) = issue_after (rs_trace u)) u" for u
    by (auto simp: write_claim_event_def write_tick_event_def wp_simps op_defs full_disk_env_def
        issue_after_def split: option.split)
  have "wp (do { r \<leftarrow> claim full_disk_env n ''bot'' ''t'';
      (case fst r of ResultOK \<Rightarrow> write_claim_event full_disk_env te n | ResultIdempotent \<Rightarrow> ret True | _ \<Rightarrow> ret False) })
      (\<lambda>ok t. \<not> ok \<and> issue_after (rs_trace t) = taken_issue {''bot''}) u"
    if "issue_after (rs_trace u) = ready_issue" for u
    unfolding wp_bind
    by (rule wp_mono [OF full_disk_claim [OF that]]) (use event in \<open>auto simp: wp_def\<close>)
  then show ?thesis
    unfolding loop_claim_def wp_handle
    by (intro wp_mono [OF bot_credentials]) (auto simp: assms)
qed

lemma full_disk_select:
  "wp (select_issue full_disk_env bot_loop) (\<lambda>r t. r = Some 7 \<and> issue_after (rs_trace t) = issue_after (rs_trace s)) s"
proof -
  have "unmarshal_into (get_int ''number'') number_text = Some 7"
    unfolding number_text_def
    by (subst unmarshal_into_text) (simp_all add: json_dec_defs jint_def number_ok_itoa atoi_itoa max_int64_def)
  then show ?thesis
    by (simp add: select_issue_def wp_simps op_defs full_disk_env_def bot_loop_def issue_after_other)
qed

text \<open>
  A tick whose log cannot be written takes the issue and then gives up without releasing it:
  the tick reports that nothing was processed, no runner is started, and the issue stays assigned
  and in progress, which hides it from every later selection.
\<close>

theorem unlogged_claim_is_kept:
  "\<exists>s. run_value (tick full_disk_env bot_loop) s = False \<and>
       issue_after (rs_trace s) = ready_issue \<and>
       issue_after (rs_trace (final_state (tick full_disk_env bot_loop) s)) = taken_issue {''bot''}"
proof -
  define s where "s = \<lparr>rs_turn = 0, rs_nwo = [], rs_log = [], rs_trace = [], rs_usage = []\<rparr>"
  have s: "issue_after (rs_trace s) = ready_issue" by (simp add: s_def)
  have claim: "wp (do { _ \<leftarrow> new_log; claimed \<leftarrow> loop_claim full_disk_env bot_loop te 7;
      if \<not> claimed then ret False else do { _ \<leftarrow> run_and_release full_disk_env bot_loop te 7; ret True } })
      (\<lambda>r t. r = False \<and> issue_after (rs_trace t) = taken_issue {''bot''}) u"
    if "issue_after (rs_trace u) = ready_issue" for te u
    using full_disk_loop_claim [of "final_state new_log u" te 7] that by (auto simp: wp_def)
  have dir: "run_value (make_dir full_disk_env p) u = True"
    "issue_after (rs_trace (final_state (make_dir full_disk_env p) u)) = issue_after (rs_trace u)" for p u
    by (simp_all add: op_defs run_prims full_disk_env_def issue_after_def)
  have "wp (tick full_disk_env bot_loop) (\<lambda>r t. r = False \<and> issue_after (rs_trace t) = taken_issue {''bot''}) s"
    using full_disk_select [of s] claim dir s by (simp add: tick_def wp_def)
  with s show ?thesis by (auto simp: wp_def)
qed

end
