(* ===== verification/Log_Text.thy ===== *)
theory Log_Text
  imports Event_Log Json_Roundtrip
begin

text \<open>
  The text of an event log: what \<open>Writer.Write\<close> appends for an event, and that \<open>Reader.Read\<close> gives
  back the events of a log written by it, except where a line is longer than the reader accepts.
\<close>

section \<open>The line of an event\<close>

text \<open>\<open>payload\<close> has \<open>omitempty\<close>: an empty \<open>RawMessage\<close> is left out.\<close>

definition event_json :: "event \<Rightarrow> json" where
  "event_json e =
     JObj ([(''type'', JStr (ev_type e)), (''ts'', JStr (ev_ts e)), (''runId'', JStr (ev_run_id e)),
            (''turnId'', jint (ev_turn_id e))] @
           (case ev_payload e of None \<Rightarrow> [] | Some p \<Rightarrow> [(''payload'', p)]))"

definition event_line :: "event \<Rightarrow> string" where
  "event_line e = json_text (event_json e)"

definition log_text :: "event list \<Rightarrow> string" where
  "log_text es = concat (map (\<lambda>e. event_line e @ [newline]) es)"

text \<open>
  What a Go value of type \<open>Event\<close> satisfies whose payload is JSON and whose texts are valid UTF-8:
  \<open>json.Marshal\<close> writes U+FFFD for a byte that is not, so it would not come back.
\<close>

definition event_ok :: "event \<Rightarrow> bool" where
  "event_ok e \<longleftrightarrow> - max_int64 - 1 \<le> ev_turn_id e \<and> ev_turn_id e \<le> max_int64 \<and>
     valid_utf8 (ev_type e) \<and> valid_utf8 (ev_ts e) \<and> valid_utf8 (ev_run_id e) \<and>
     (case ev_payload e of None \<Rightarrow> True | Some p \<Rightarrow> wf_json p)"

section \<open>Lines\<close>

lemma split_on_line: "c \<notin> set l \<Longrightarrow> split_on c (l @ c # s) = l # split_on c s"
  by (induction l) auto

lemma split_lines:
  "\<forall>l\<in>set ls. newline \<notin> set l \<Longrightarrow> split_on newline (concat (map (\<lambda>l. l @ [newline]) ls)) = ls @ [[]]"
  by (induction ls) (simp_all add: split_on_line)

lemma digits_no_newline: "newline \<notin> set (fst (take_digits s))"
  by (auto simp: take_digits_def newline_def is_digit_def digit_val_def dest: set_takeWhileD)

lemma part_no_newline:
  "parse_int_part s = Some (t, u) \<Longrightarrow> newline \<notin> set t"
  "parse_frac_part s = Some (t, u) \<Longrightarrow> newline \<notin> set t"
  "parse_sign s = (t, u) \<Longrightarrow> newline \<notin> set t"
  using digits_no_newline [of s] digits_no_newline [of "tl s"]
  by (cases s; auto simp: parse_int_part_def parse_frac_part_def parse_sign_def is_digit_def
      digit_val_def newline_def split: if_splits prod.splits)+

lemma exp_no_newline: "parse_exp_part s = Some (t, u) \<Longrightarrow> newline \<notin> set t"
  using digits_no_newline [of "tl s"] digits_no_newline [of "tl (tl s)"]
  by (cases s; cases "tl s") (auto simp: parse_exp_part_def newline_def split: if_splits prod.splits)

lemma number_no_newline: "parse_number s = Some (t, u) \<Longrightarrow> newline \<notin> set t"
  unfolding parse_number_def parse_sign_def [symmetric]
  by (auto dest: part_no_newline exp_no_newline split: option.splits prod.splits)

lemma hex_digit_no_newline: "d < 16 \<Longrightarrow> hex_digit d \<noteq> CHR 0x0A"
  unfolding escaped_chars(3) [symmetric] by (simp add: hex_digit_def)

lemma escape_no_newline: "newline \<notin> set (escape_char c)"
proof -
  define n :: nat where "n = of_char c"
  have low: "m < 32 \<or> m = 38 \<or> m = 60 \<or> m = 62 \<Longrightarrow> m div 16 < 16" for m :: nat by auto
  have own: "n \<noteq> 10 \<Longrightarrow> c \<noteq> CHR 0x0A" using escaped_chars(3) [of c] by (simp add: n_def)
  show ?thesis
    unfolding escape_char_def Let_def newline_def n_def [symmetric]
    using own hex_digit_no_newline [OF low [of n]] hex_digit_no_newline [of "n mod 16"]
    by (simp add: eq_commute [of "CHR 0x0A"])
qed

lemma quote_no_newline: "newline \<notin> set (quote_string s)"
proof -
  have "newline \<notin> set (escape_text s)"
  proof (induction s rule: text_induct)
    case (rune p t)
    have "newline \<notin> set p" if "\<not> list_all is_ascii p"
      using rune(1) that by (cases rule: rune_text_cases) (auto simp: newline_def is_ascii_def dest: starts_high)
    moreover have "newline \<notin> set (concat (map escape_char p))" using escape_no_newline by auto
    moreover have "newline \<notin> set (escape_separator p)" by (simp add: escape_separator_def newline_def)
    ultimately show ?case using rune(3) unfolding escape_rune [OF rune(1)] by simp
  qed (simp_all add: newline_def)
  then show ?thesis by (simp add: quote_string_def newline_def)
qed

lemma join_no_newline: "newline \<notin> set sep \<Longrightarrow> \<forall>x\<in>set xs. newline \<notin> set x \<Longrightarrow> newline \<notin> set (join_with sep xs)"
  by (induction sep xs rule: join_with.induct) auto

lemma numbers_no_newline: "numbers_ok v \<Longrightarrow> newline \<notin> set (json_text v)"
proof (induction v)
  case (JArr xs)
  then have "newline \<notin> set (join_with '','' (map json_text xs))"
    by (intro join_no_newline) (auto simp: newline_def list_all_iff)
  then show ?case by (simp add: newline_def)
next
  case (JObj kvs)
  then have "newline \<notin> set (join_with '','' (map (\<lambda>kv. quote_string (fst kv) @ '':'' @ json_text (snd kv)) kvs))"
    using quote_no_newline
    by (intro join_no_newline) (fastforce simp: newline_def list_all_iff snds.simps)+
  then show ?case by (simp add: newline_def)
next
  case (JStr s)
  then show ?case using quote_no_newline by simp
qed (auto simp: newline_def number_ok_def dest: number_no_newline)

lemmas json_no_newline = numbers_no_newline [OF wf_numbers]

section \<open>The reader on a line\<close>

lemma event_json_wf: "event_ok e \<Longrightarrow> wf_json (event_json e)"
  by (auto simp: event_ok_def event_json_def jint_def number_ok_itoa split: option.splits)

lemma dec_event_json: "event_ok e \<Longrightarrow> dec_event (event_json e) = Some e"
  by (cases "ev_payload e")
    (auto simp: event_ok_def event_json_def dec_event_def json_dec_defs jint_def atoi_itoa
      to_lower_def to_lower_char_def)

lemma event_line_shape: "\<exists>m. event_line e = CHR 0x7B # m @ [CHR 0x7D]"
  by (simp add: event_line_def event_json_def)

lemma event_line_trimmed [simp]: "trim_space (event_line e) = event_line e" "drop_cr (event_line e) = event_line e"
  "event_line e \<noteq> []"
  using event_line_shape [of e]
  by (auto simp: trim_space_def trim_left_def trim_right_def is_space_def drop_cr_def)

lemma parse_event_lines:
  "list_all event_ok es \<Longrightarrow> parse_lines n (map event_line es) = Inr es"
  by (induction es arbitrary: n)
    (auto simp: unmarshal_into_def event_line_def [symmetric] dec_event_json
      unmarshal_json_text [OF event_json_wf, folded event_line_def])

lemma split_log_text:
  "list_all event_ok es \<Longrightarrow> split_on newline (log_text es) = map event_line es @ [[]]"
proof (induction es)
  case (Cons e es)
  then have "newline \<notin> set (event_line e)"
    by (simp add: event_line_def json_no_newline event_json_wf)
  with Cons show ?case by (simp add: log_text_def split_on_line)
qed (simp add: log_text_def)

text \<open>
  C19: Reading the text of a log that was written event by event, with texts that are valid UTF-8, gives
  back these events, payloads, times and turns included, unless a line has 65536 bytes or more,
  escapes counted: then reading the whole log is an error, whatever the other lines are.
\<close>

theorem log_round_trip:
  assumes "list_all event_ok es"
  shows "read_log (Some (log_text es)) =
    (if list_all (\<lambda>e. length (event_line e) < max_scan_token) es then Inr es
     else Inl (wrap_err ''failed to read event log file: '' (msg_err ''bufio.Scanner: token too long'')))"
proof -
  have "drop_cr \<circ> event_line = event_line" by (simp add: fun_eq_iff)
  moreover have "drop_blank_last (map event_line es) = map event_line es"
    by (auto simp: drop_blank_last_def last_map)
  ultimately show ?thesis
    using assms
    by (auto simp: read_log_def scan_lines_def split_log_text parse_event_lines list_all_iff not_less)
qed

definition sample_event :: event where
  "sample_event =
     \<lparr>ev_type = EventRunFinished, ev_ts = ''2026-01-02T03:04:05Z'', ev_run_id = ''issue-7'', ev_turn_id = 3,
      ev_payload = Some (JObj [(''outcome'', JStr ''success''),
        (''note'', JStr [newline, CHR 0x22, CHR ''<'', CHR 0xC3, CHR 0xA9, CHR 0xE2, CHR 0x80, CHR 0xA8])])\<rparr>"

lemma sample_event_ok: "event_ok sample_event"
  by (simp add: event_ok_def sample_event_def max_int64_def EventRunFinished_def newline_def starts_two_def
      starts_three_def byte_in_def)

theorem log_round_trip_witness: "read_log (Some (log_text [sample_event, sample_event])) = Inr [sample_event, sample_event]"
proof -
  have "length (event_line sample_event) < max_scan_token"
    by (simp add: event_line_def event_json_def sample_event_def quote_string_def escape_char_def
        EventRunFinished_def max_scan_token_def newline_def jint_def itoa_def nat_digits.simps starts_two_def
        starts_three_def byte_in_def is_separator_def escape_separator_def)
  then show ?thesis
    using log_round_trip [of "[sample_event, sample_event]"] sample_event_ok by simp
qed

end
