(* ===== verification/Agent_Output.thy ===== *)
theory Agent_Output
  imports Log_Text
begin

text \<open>
  What the package \<open>internal/agent\<close> reads of the output of the \<open>pi\<close> process: the filter that its
  standard output passes on the way to the activity file, the classification of a finished
  transcript, and the count of tool executions the stall detection looks at.
\<close>

section \<open>Lines\<close>

text \<open>
  \<open>bufio.Scanner\<close> over a text, with the limit that \<open>Buffer\<close> sets: the scan stops before the first
  line that is too long; the caller does not ask for the error.
\<close>

definition activity_limit :: nat where
  "activity_limit = 1024 * 1024"

definition scanned_lines :: "string \<Rightarrow> string list" where
  "scanned_lines text =
     (let ls = split_on newline text;
          ls' = (if last ls = [] then butlast ls else ls)
      in map drop_cr (takeWhile (\<lambda>l. length l < activity_limit) ls'))"

section \<open>The transcript\<close>

record pi_message =
  pm_role :: string
  pm_stop_reason :: string
  pm_error_message :: string

record pi_event =
  pe_type :: string
  pe_success :: "bool option"
  pe_message :: "pi_message option"

definition dec_pi_message :: "pi_message \<Rightarrow> json \<Rightarrow> pi_message option" where
  "dec_pi_message cur j =
     (case j of
        JObj kvs \<Rightarrow>
          (case (dec_over dec_str ''role'' (pm_role cur) kvs,
                 dec_over dec_str ''stopReason'' (pm_stop_reason cur) kvs,
                 dec_over dec_str ''errorMessage'' (pm_error_message cur) kvs) of
             (Some r, Some s, Some e) \<Rightarrow> Some \<lparr>pm_role = r, pm_stop_reason = s, pm_error_message = e\<rparr>
           | _ \<Rightarrow> None)
      | JNull \<Rightarrow> Some cur
      | _ \<Rightarrow> None)"

definition empty_message :: pi_message where
  "empty_message = \<lparr>pm_role = [], pm_stop_reason = [], pm_error_message = []\<rparr>"

definition dec_pi_event :: "json \<Rightarrow> pi_event option" where
  "dec_pi_event j =
     (case (get_str ''type'' j, get_field (dec_ptr dec_bool False) None ''success'' j,
            get_field (dec_ptr dec_pi_message empty_message) None ''message'' j) of
        (Some t, Some s, Some m) \<Rightarrow> Some \<lparr>pe_type = t, pe_success = s, pe_message = m\<rparr>
      | _ \<Rightarrow> None)"

record transcript_result =
  tr_semantic_failed :: bool
  tr_fallback_eligible :: bool
  tr_reason :: string

definition no_result :: transcript_result where
  "no_result = \<lparr>tr_semantic_failed = False, tr_fallback_eligible = False, tr_reason = []\<rparr>"

definition apply_auto_retry_end :: "pi_event \<Rightarrow> transcript_result \<Rightarrow> transcript_result" where
  "apply_auto_retry_end ev r =
     (if pe_success ev = Some False
      then r\<lparr>tr_fallback_eligible := True,
             tr_reason := (if tr_reason r = [] then ''auto_retry_end success=false'' else tr_reason r)\<rparr>
      else r)"

definition apply_last_assistant :: "string \<Rightarrow> string \<Rightarrow> transcript_result \<Rightarrow> transcript_result" where
  "apply_last_assistant stop err r =
     (if stop \<noteq> ''error'' \<and> stop \<noteq> ''aborted'' then r
      else if stop = ''error'' \<and> contains_sub ''limit'' (to_lower err)
      then r\<lparr>tr_semantic_failed := True, tr_fallback_eligible := True,
             tr_reason := (if tr_reason r = [] then ''provider limit'' else tr_reason r)\<rparr>
      else r\<lparr>tr_semantic_failed := True,
             tr_reason := (if tr_reason r = [] then ''stopReason:'' @ stop else tr_reason r)\<rparr>)"

text \<open>One line, with the last assistant message so far.\<close>

definition scan_step :: "string \<Rightarrow> transcript_result \<times> string \<times> string \<Rightarrow> transcript_result \<times> string \<times> string" where
  "scan_step line = (\<lambda>(r, stop, err).
     case unmarshal_into dec_pi_event line of
       None \<Rightarrow> (r, stop, err)
     | Some ev \<Rightarrow>
         if pe_type ev = ''auto_retry_end'' then (apply_auto_retry_end ev r, stop, err)
         else if pe_type ev = ''message_end'' then
           (case pe_message ev of
              Some m \<Rightarrow> if pm_role m = ''assistant'' then (r, pm_stop_reason m, pm_error_message m) else (r, stop, err)
            | None \<Rightarrow> (r, stop, err))
         else (r, stop, err))"

definition classify_lines :: "string list \<Rightarrow> transcript_result" where
  "classify_lines ls =
     (case fold scan_step ls (no_result, [], []) of (r, stop, err) \<Rightarrow> apply_last_assistant stop err r)"

definition scan_transcript :: "string \<Rightarrow> transcript_result" where
  "scan_transcript text = classify_lines (scanned_lines text)"

text \<open>\<open>InspectTranscript\<close>: a file that cannot be opened says nothing.\<close>

definition inspect_transcript :: "string option \<Rightarrow> transcript_result" where
  "inspect_transcript file = (case file of None \<Rightarrow> no_result | Some text \<Rightarrow> scan_transcript text)"

section \<open>The filter\<close>

text \<open>
  The fields a \<open>message_update\<close> is projected to: raw parts are kept as values, empty ones are
  left out.
\<close>

definition get_raw :: "string \<Rightarrow> json \<Rightarrow> json option option" where
  "get_raw = get_field (\<lambda>_ v. Some (Some v)) None"

definition omit_empty :: "string \<Rightarrow> string \<Rightarrow> (string \<times> json) list" where
  "omit_empty k s = (if s = [] then [] else [(k, JStr s)])"

definition omit_none :: "string \<Rightarrow> json option \<Rightarrow> (string \<times> json) list" where
  "omit_none k v = (case v of None \<Rightarrow> [] | Some j \<Rightarrow> [(k, j)])"

definition project_assistant_event :: "json \<Rightarrow> json option" where
  "project_assistant_event j =
     (case (get_str ''type'' j, get_raw ''contentIndex'' j, get_raw ''delta'' j) of
        (Some t, Some c, Some d) \<Rightarrow> Some (JObj (omit_empty ''type'' t @ omit_none ''contentIndex'' c @ omit_none ''delta'' d))
      | _ \<Rightarrow> None)"

definition project_message_update :: "json \<Rightarrow> json option" where
  "project_message_update j =
     (case (get_struct project_assistant_event ''assistantMessageEvent'' j, get_raw ''usage'' j,
            get_str ''model'' j, get_str ''stopReason'' j, get_str ''timestamp'' j) of
        (Some a, Some u, Some m, Some s, Some t) \<Rightarrow>
          Some (JObj ([(''type'', JStr ''message_update''), (''assistantMessageEvent'', a)] @
            omit_none ''usage'' u @ omit_empty ''model'' m @ omit_empty ''stopReason'' s @ omit_empty ''timestamp'' t))
      | _ \<Rightarrow> None)"

definition is_newline :: "char \<Rightarrow> bool" where
  "is_newline c \<longleftrightarrow> c = newline"

definition filter_pi_line :: "string \<Rightarrow> string" where
  "filter_pi_line line =
     (let data = trim_right is_newline line in
      case unmarshal data of
        None \<Rightarrow> line
      | Some j \<Rightarrow>
          (case get_str ''type'' j of
             None \<Rightarrow> line
           | Some t \<Rightarrow>
               if t \<noteq> ''message_update'' then line
               else (case project_message_update j of
                       None \<Rightarrow> line
                     | Some out \<Rightarrow> json_text out @ [newline])))"

text \<open>
  \<open>lineFilterWriter.Write\<close>: the complete lines of what was buffered and what arrives, each with
  its newline, and the rest that stays in the buffer.
\<close>

fun take_lines :: "string \<Rightarrow> string \<Rightarrow> string list \<times> string" where
  "take_lines acc [] = ([], rev acc)"
| "take_lines acc (c # cs) =
     (if c = newline then (let (ls, rest) = take_lines [] cs in (rev (c # acc) # ls, rest))
      else take_lines (c # acc) cs)"

definition filter_write :: "string \<Rightarrow> string \<Rightarrow> string list \<times> string" where
  "filter_write buf p = (case take_lines [] (buf @ p) of (ls, rest) \<Rightarrow> (map filter_pi_line ls, rest))"

text \<open>\<open>terminalDoneFromLine\<close>: the call that ends a role's work was accepted.\<close>

definition terminal_done_from_line :: "string \<Rightarrow> bool" where
  "terminal_done_from_line line =
     (case unmarshal (trim_space line) of
        None \<Rightarrow> False
      | Some j \<Rightarrow>
          (case (get_str ''type'' j, get_str ''toolName'' j, get_raw ''result'' j) of
             (Some t, Some tool, Some result) \<Rightarrow>
               if t \<noteq> ''tool_execution_end'' then False
               else if tool = ''gm_dev_done'' then True
               else if tool \<noteq> ''gm_review_submit'' then False
               else (case result of
                       None \<Rightarrow> False
                     | Some r \<Rightarrow> get_bool ''ok'' r = Some True \<and> get_bool ''accepted'' r = Some True)
           | _ \<Rightarrow> False))"

section \<open>Tool progress\<close>

record tool_progress =
  tp_offset :: nat
  tp_in_flight :: nat

definition no_progress :: tool_progress where
  "no_progress = \<lparr>tp_offset = 0, tp_in_flight = 0\<rparr>"

definition apply_tool_event :: "string \<Rightarrow> tool_progress \<Rightarrow> nat \<times> tool_progress" where
  "apply_tool_event ty st =
     (if ty = ''tool_execution_start'' then (0, st\<lparr>tp_in_flight := tp_in_flight st + 1\<rparr>)
      else if ty = ''tool_execution_end'' then (1, st\<lparr>tp_in_flight := tp_in_flight st - 1\<rparr>)
      else (0, st))"

definition tool_line :: "string \<Rightarrow> nat \<times> tool_progress \<Rightarrow> nat \<times> tool_progress" where
  "tool_line line = (\<lambda>(n, st).
     case unmarshal_into (get_str ''type'') line of
       None \<Rightarrow> (n, st)
     | Some ty \<Rightarrow> (case apply_tool_event ty st of (k, st') \<Rightarrow> (n + k, st')))"

text \<open>The part of a text up to and with its last newline.\<close>

definition complete_part :: "string \<Rightarrow> string" where
  "complete_part s = rev (dropWhile (\<lambda>c. c \<noteq> newline) (rev s))"

text \<open>
  \<open>readToolProgress\<close>: the number of executions that completed, whether one is in flight, and the
  new state; \<open>None\<close> is a file that cannot be read.
\<close>

definition read_tool_progress :: "string option \<Rightarrow> tool_progress \<Rightarrow> nat \<times> bool \<times> tool_progress" where
  "read_tool_progress file st =
     (case file of
        None \<Rightarrow> (0, tp_in_flight st > 0, st)
      | Some text \<Rightarrow>
          (let data = complete_part (drop (tp_offset st) text) in
           if data = [] then (0, tp_in_flight st > 0, st)
           else (case fold tool_line (scanned_lines data) (0, st\<lparr>tp_offset := tp_offset st + length data\<rparr>) of
                   (n, st') \<Rightarrow> (n, tp_in_flight st' > 0, st'))))"


section \<open>Values that were parsed are well formed\<close>

lemma take_digits_again:
  "take_digits s = (ds, u) \<Longrightarrow> rest = [] \<or> \<not> is_digit (hd rest) \<Longrightarrow> take_digits (ds @ rest) = (ds, rest)"
proof -
  assume "take_digits s = (ds, u)" and rest: "rest = [] \<or> \<not> is_digit (hd rest)"
  then have "\<forall>x\<in>set ds. is_digit x" by (auto simp: take_digits_def dest: set_takeWhileD)
  moreover have "takeWhile is_digit rest = [] \<and> dropWhile is_digit rest = rest" using rest by (cases rest) auto
  ultimately show ?thesis by (simp add: take_digits_def takeWhile_append dropWhile_append takeWhile_eq_all_conv [THEN iffD2])
qed

definition frac_start :: "string \<Rightarrow> bool" where
  "frac_start s \<longleftrightarrow> s = [] \<or> hd s \<in> {CHR ''.'', CHR ''e'', CHR ''E''}"

definition exp_start :: "string \<Rightarrow> bool" where
  "exp_start s \<longleftrightarrow> s = [] \<or> hd s \<in> {CHR ''e'', CHR ''E''}"

lemma start_not_digit: "frac_start s \<Longrightarrow> s = [] \<or> \<not> is_digit (hd s)" "exp_start s \<Longrightarrow> s = [] \<or> \<not> is_digit (hd s)"
  by (auto simp: frac_start_def exp_start_def is_digit_def digit_val_def)

lemma int_part_again:
  "parse_int_part s = Some (ip, u) \<Longrightarrow> frac_start rest \<Longrightarrow> parse_int_part (ip @ rest) = Some (ip, rest) \<and> ip \<noteq> []"
  using take_digits_again [OF _ start_not_digit(1), of s ip u rest]
  by (cases s) (auto simp: parse_int_part_def take_digits_def split: if_splits)

lemma frac_part_again:
  "parse_frac_part s = Some (fp, u) \<Longrightarrow> exp_start rest \<Longrightarrow>
     parse_frac_part (fp @ rest) = Some (fp, rest) \<and> (exp_start rest \<longrightarrow> frac_start (fp @ rest))"
  using take_digits_again [OF _ start_not_digit(2), of "tl s" "tl fp" u rest]
  by (cases s; cases rest)
    (auto simp: parse_frac_part_def frac_start_def exp_start_def split: if_splits prod.splits)

lemma exp_part_again: "parse_exp_part s = Some (ep, u) \<Longrightarrow> parse_exp_part ep = Some (ep, []) \<and> exp_start ep"
proof (cases s)
  case (Cons c cs)
  assume s: "parse_exp_part s = Some (ep, u)"
  show ?thesis
  proof (cases "c = CHR ''e'' \<or> c = CHR ''E''")
    case True
    with s Cons obtain g gs where g: "cs = g # gs"
      by (cases cs) (auto simp: parse_exp_part_def take_digits_def)
    have again: "take_digits x = (ds, w) \<Longrightarrow> take_digits ds = (ds, [])" for x ds w
      using take_digits_again [of x ds w "[]"] by simp
    have sign: "take_digits x = (d # ds, w) \<Longrightarrow> d \<noteq> CHR ''+'' \<and> d \<noteq> CHR ''-''" for x d ds w
      by (cases x) (auto simp: take_digits_def is_digit_def digit_val_def split: if_splits)
    show ?thesis
      using s Cons True g
      by (auto simp: parse_exp_part_def exp_start_def dest: again sign split: if_splits prod.splits list.splits)
  qed (use s Cons in \<open>auto simp: parse_exp_part_def exp_start_def\<close>)
qed (auto simp: parse_exp_part_def exp_start_def)

lemma parsed_number_ok: "parse_number s = Some (t, u) \<Longrightarrow> number_ok t"
proof -
  assume num: "parse_number s = Some (t, u)"
  obtain sg s1 where sg: "parse_sign s = (sg, s1)" by (cases "parse_sign s")
  from num sg obtain ip s2 where ip: "parse_int_part s1 = Some (ip, s2)"
    by (auto simp: parse_number_def parse_sign_def split: option.splits)
  from num sg ip obtain fp s3 where fp: "parse_frac_part s2 = Some (fp, s3)"
    by (auto simp: parse_number_def parse_sign_def split: option.splits)
  from num sg ip fp obtain ep s4 where ep: "parse_exp_part s3 = Some (ep, s4)"
    by (auto simp: parse_number_def parse_sign_def split: option.splits)
  have t: "t = sg @ ip @ fp @ ep"
    using num sg ip fp ep by (auto simp: parse_number_def parse_sign_def)
  note e = exp_part_again [OF ep]
  note f = frac_part_again [OF fp, of ep]
  have i: "parse_int_part (ip @ fp @ ep) = Some (ip, fp @ ep)" "ip \<noteq> []"
    using int_part_again [OF ip, of "fp @ ep"] e f by auto
  have "hd ip \<noteq> CHR ''-''"
    using ip by (cases s1) (auto simp: parse_int_part_def take_digits_def is_digit_def digit_val_def split: if_splits)
  then have "parse_sign (sg @ ip @ fp @ ep) = (sg, ip @ fp @ ep)"
    using sg i(2) by (cases s; cases ip) (auto simp: parse_sign_def split: if_splits)
  then show ?thesis
    using i e f unfolding number_ok_def parse_number_def t parse_sign_def by simp
qed


lemma literal_wf: "literal w v s = Some (v', r) \<Longrightarrow> v' = v"
  by (auto simp: literal_def split: if_splits)

text \<open>The parser makes every string valid UTF-8.\<close>

lemma prepend_valid:
  "prepend p r = Some (t, u) \<Longrightarrow> valid_utf8 p \<Longrightarrow> (\<And>t' u'. r = Some (t', u') \<Longrightarrow> valid_utf8 t') \<Longrightarrow> valid_utf8 t"
  by (auto simp: prepend_def valid_append split: option.splits)

lemma hex4_bound: "hex4 a b c d = Some v \<Longrightarrow> v < 65536"
proof -
  have hex: "hex_val x = Some w \<Longrightarrow> w < 16" for x w
    by (auto simp: hex_val_def Let_def split: if_splits)
  assume "hex4 a b c d = Some v"
  then obtain w x y z where "hex_val a = Some w" "hex_val b = Some x" "hex_val c = Some y" "hex_val d = Some z"
      "v = ((w * 16 + x) * 16 + y) * 16 + z"
    by (auto simp: hex4_def split: option.splits)
  with hex [of a w] hex [of b x] hex [of c y] hex [of d z] show ?thesis by simp
qed

lemma utf8_valid:
  "n < 65536 \<Longrightarrow> \<not> is_high_surrogate n \<Longrightarrow> \<not> is_low_surrogate n \<Longrightarrow> valid_utf8 (utf8 n)"
  "is_high_surrogate v \<Longrightarrow> is_low_surrogate w \<Longrightarrow> valid_utf8 (utf8 (65536 + (v - 55296) * 1024 + (w - 56320)))"
  by (rule valid_rune, rule utf8_rune; auto simp: is_high_surrogate_def is_low_surrogate_def split: if_splits)+

lemma utf8_replacement [simp]: "valid_utf8 (utf8 65533)"
  by (rule utf8_valid(1)) (simp_all add: is_high_surrogate_def is_low_surrogate_def)

lemma rune_taken: "rune_length s \<noteq> 1 \<Longrightarrow> rune_text (take (rune_length s) s)"
  by (cases s rule: rune_cases)
    (simp_all add: rune_two rune_three rune_four rune_text_def del: rune_length.simps)

lemma simple_escape_ascii: "simple_escape e = Some d \<Longrightarrow> is_ascii d"
  by (auto simp: simple_escape_def split: if_splits)

lemma parse_chars_valid: "parse_chars n s = Some (t, u) \<Longrightarrow> valid_utf8 t"
proof (induction n arbitrary: s t u)
  case (Suc n)
  note IH = Suc.IH and parsed = Suc.prems
  show ?case
  proof (cases s)
    case (Cons c cs)
    note step = prepend_valid [OF _ _ IH]
    consider "c = CHR 0x22" | "c \<noteq> CHR 0x22" "\<not> is_ascii c" | "is_ascii c" "c \<noteq> CHR 0x22" "c \<noteq> CHR 0x5C" | "c = CHR 0x5C"
      by blast
    then show ?thesis
    proof cases
      case 2
      then show ?thesis
        using parsed Cons rune_taken [of "c # cs"] replacement_rune
        by (auto simp del: rune_length.simps take_Cons' split: if_splits elim!: step)
    next
      case 3
      then show ?thesis using parsed Cons by (auto split: if_splits elim!: step)
    next
      case 4
      then show ?thesis
        using parsed Cons
        by (auto split: if_splits option.splits list.splits elim!: step
            intro: utf8_valid(1) [OF hex4_bound] utf8_valid(2) simp: simple_escape_ascii)
    qed (use parsed Cons in auto)
  qed (use parsed in simp)
qed simp

lemma parsed_wf_all:
  "(\<forall>v r. parse_value n s = Some (v, r) \<longrightarrow> wf_json v) \<and>
   (\<forall>vs r. parse_elems n s = Some (vs, r) \<longrightarrow> list_all wf_json vs) \<and>
   (\<forall>kvs r. parse_members n s = Some (kvs, r) \<longrightarrow> list_all (\<lambda>kv. valid_utf8 (fst kv) \<and> wf_json (snd kv)) kvs)"
proof (induction n arbitrary: s)
  case (Suc n)
  have v: "\<And>s v r. parse_value n s = Some (v, r) \<Longrightarrow> wf_json v"
    and e: "\<And>s vs r. parse_elems n s = Some (vs, r) \<Longrightarrow> list_all wf_json vs"
    and m: "\<And>s kvs r. parse_members n s = Some (kvs, r) \<Longrightarrow> list_all (\<lambda>kv. valid_utf8 (fst kv) \<and> wf_json (snd kv)) kvs"
    using Suc by blast+
  have "wf_json w" if "parse_value (Suc n) s = Some (w, r)" for w r
    using that unfolding parse_value.simps
    by (auto simp del: parse_chars.simps dest: parsed_number_ok parse_chars_valid literal_wf e m split: list.splits if_splits option.splits)
  moreover have "list_all wf_json vs" if "parse_elems (Suc n) s = Some (vs, r)" for vs r
    using that unfolding parse_elems.simps
    by (auto split: list.splits if_splits option.splits) (blast dest: v e)+
  moreover have "list_all (\<lambda>kv. valid_utf8 (fst kv) \<and> wf_json (snd kv)) kvs" if "parse_members (Suc n) s = Some (kvs, r)" for kvs r
    using that unfolding parse_members.simps
    by (auto simp del: parse_chars.simps split: list.splits if_splits option.splits) (blast dest: v m parse_chars_valid)+
  ultimately show ?case by blast
qed simp

lemma unmarshal_wf: "unmarshal s = Some j \<Longrightarrow> wf_json j"
  using parsed_wf_all [of "2 * length s + 2" s] by (auto simp: unmarshal_def split: option.splits if_splits)


section \<open>The filter keeps what the readers look at\<close>

text \<open>The line that reaches the activity file for a line of output, without its newline.\<close>

definition filtered :: "string \<Rightarrow> string" where
  "filtered l = trim_right is_newline (filter_pi_line (l @ [newline]))"

lemma trim_right_none: "l = [] \<or> last l \<noteq> newline \<Longrightarrow> trim_right is_newline l = l"
  by (cases l rule: rev_cases) (auto simp: trim_right_def is_newline_def)

lemma trim_right_newline: "newline \<notin> set l \<Longrightarrow> trim_right is_newline (l @ [newline]) = l"
  using trim_right_none [of l] by (cases l rule: rev_cases) (auto simp: trim_right_def is_newline_def)

lemma field_lower:
  "to_lower ''type'' = ''type''" "to_lower ''assistantMessageEvent'' = ''assistantmessageevent''"
  "to_lower ''usage'' = ''usage''" "to_lower ''model'' = ''model''" "to_lower ''stopReason'' = ''stopreason''"
  "to_lower ''timestamp'' = ''timestamp''"
  by code_simp+

lemma dec_over_other: "list_all (\<lambda>kv. \<not> key_matches k (fst kv)) kvs \<Longrightarrow> dec_over d k cur kvs = Some cur"
  by (induction d k cur kvs rule: dec_over.induct) auto

lemma projected_type: "project_message_update j = Some out \<Longrightarrow> get_str ''type'' out = Some ''message_update''"
  by (auto simp: project_message_update_def get_str_def get_field_def dec_str_def key_matches_def field_lower
      omit_none_def omit_empty_def dec_over_other split: option.splits if_splits)

lemma raw_over_wf:
  "list_all (\<lambda>kv. valid_utf8 (fst kv) \<and> wf_json (snd kv)) kvs \<Longrightarrow> pred_option wf_json cur \<Longrightarrow>
     dec_over (\<lambda>_ v. Some (Some v)) k cur kvs = Some r \<Longrightarrow> pred_option wf_json r"
  by (induction "\<lambda>(_ :: json option) v :: json. Some (Some v)" k cur kvs rule: dec_over.induct) (auto split: if_splits)

lemma struct_over_wf:
  "list_all (\<lambda>kv. valid_utf8 (fst kv) \<and> wf_json (snd kv)) kvs \<Longrightarrow> wf_json cur \<Longrightarrow>
     dec_over (\<lambda>cur v. Some (if v = JNull then cur else v)) k cur kvs = Some r \<Longrightarrow> wf_json r"
  by (induction "\<lambda>cur v. Some (if v = JNull then cur else v)" k cur kvs rule: dec_over.induct) (auto split: if_splits)

lemma wf_raw: "wf_json j \<Longrightarrow> get_raw k j = Some r \<Longrightarrow> pred_option wf_json r"
  using raw_over_wf [of _ None k r] by (cases j) (auto simp: get_raw_def get_field_def)

lemma wf_struct: "wf_json j \<Longrightarrow> get_struct d k j = Some x \<Longrightarrow> \<exists>v. wf_json v \<and> d v = Some x"
  using struct_over_wf [of _ JNull k] wf_json.simps(4)
  by (cases j) (fastforce simp: get_struct_def get_field_def split: option.splits)+

lemma str_over_valid:
  "list_all (\<lambda>kv. valid_utf8 (fst kv) \<and> wf_json (snd kv)) kvs \<Longrightarrow> valid_utf8 cur \<Longrightarrow>
     dec_over dec_str k cur kvs = Some r \<Longrightarrow> valid_utf8 r"
  by (induction dec_str k cur kvs rule: dec_over.induct) (auto simp: dec_str_def split: if_splits option.splits json.splits)

lemma wf_str: "wf_json j \<Longrightarrow> get_str k j = Some s \<Longrightarrow> valid_utf8 s"
  using str_over_valid [of _ "[]" k s] by (cases j) (auto simp: get_str_def get_field_def)

lemma omit_wf:
  "pred_option wf_json r \<Longrightarrow> valid_utf8 k \<Longrightarrow> list_all (\<lambda>kv. valid_utf8 (fst kv) \<and> wf_json (snd kv)) (omit_none k r)"
  "valid_utf8 s \<Longrightarrow> valid_utf8 k \<Longrightarrow> list_all (\<lambda>kv. valid_utf8 (fst kv) \<and> wf_json (snd kv)) (omit_empty k s)"
  by (auto simp: omit_none_def omit_empty_def split: option.split)

lemma projected_event_wf: "wf_json j \<Longrightarrow> project_assistant_event j = Some a \<Longrightarrow> wf_json a"
  by (auto simp: project_assistant_event_def split: option.splits intro!: omit_wf intro: wf_raw wf_str)

lemma projected_wf: "wf_json j \<Longrightarrow> project_message_update j = Some out \<Longrightarrow> wf_json out"
  using wf_struct [of j project_assistant_event "''assistantMessageEvent''"]
  by (auto simp: project_message_update_def split: option.splits intro!: omit_wf intro: wf_raw wf_str projected_event_wf)

text \<open>A line is unchanged, or it is an update and becomes its projection.\<close>

lemma filtered_projected:
  assumes "newline \<notin> set l"
  obtains "filtered l = l" "filter_pi_line (l @ [newline]) = filtered l @ [newline]"
  | j out where "unmarshal l = Some j" "get_str ''type'' j = Some ''message_update''"
      "project_message_update j = Some out" "filtered l = json_text out" "unmarshal (json_text out) = Some out"
      "filter_pi_line (l @ [newline]) = filtered l @ [newline]"
proof (cases "filter_pi_line (l @ [newline]) = l @ [newline]")
  case True
  then show ?thesis using that(1) trim_right_newline [OF assms] by (simp add: filtered_def)
next
  case False
  then obtain j out where j: "unmarshal l = Some j" "get_str ''type'' j = Some ''message_update''"
      "project_message_update j = Some out" "filter_pi_line (l @ [newline]) = json_text out @ [newline]"
    by (auto simp: filter_pi_line_def Let_def trim_right_newline [OF assms] split: option.splits if_splits)
  have wf: "wf_json out" using projected_wf [OF unmarshal_wf [OF j(1)] j(3)] .
  have "filtered l = json_text out"
    unfolding filtered_def j(4) by (rule trim_right_newline [OF json_no_newline [OF wf]])
  then show ?thesis using that(2) j unmarshal_json_text [OF wf] by simp
qed

lemma filtered_cases:
  assumes "newline \<notin> set l"
  obtains "filtered l = l"
  | j j' where "unmarshal l = Some j" "get_str ''type'' j = Some ''message_update''"
      "unmarshal (filtered l) = Some j'" "get_str ''type'' j' = Some ''message_update''"
  using assms by (cases rule: filtered_projected) (auto dest: projected_type)

lemma update_ignored:
  assumes "unmarshal l = Some j" and "get_str ''type'' j = Some ''message_update''"
  shows "scan_step l st = st" and "tool_line l pr = pr"
  using assms
  by (auto simp: scan_step_def tool_line_def unmarshal_into_def dec_pi_event_def apply_tool_event_def
      split: prod.split option.splits)

lemma fold_unchanged: "(\<forall>x\<in>set xs. f (g x) = f x) \<Longrightarrow> fold f (map g xs) = fold f xs"
  by (induction xs) auto

section \<open>Reading in steps\<close>

lemma complete_part_split:
  "s = complete_part s @ rev (takeWhile (\<lambda>c. c \<noteq> newline) (rev s))"
  unfolding complete_part_def by (metis rev_append rev_rev_ident takeWhile_dropWhile_id)

lemma complete_part_end: "complete_part s = [] \<or> last (complete_part s) = newline"
  using hd_dropWhile [of "\<lambda>c. c \<noteq> newline" "rev s"] by (auto simp: complete_part_def last_rev)

lemma complete_part_append:
  "complete_part (a @ b) = (if newline \<in> set b then a @ complete_part b else complete_part a)"
  by (auto simp: complete_part_def dropWhile_append split: if_splits)

lemma complete_part_whole: "s = [] \<or> last s = newline \<Longrightarrow> complete_part s = s"
  by (cases s rule: rev_cases) (auto simp: complete_part_def)

text \<open>The lines of a text, without what follows its last newline.\<close>

definition lines_of :: "string \<Rightarrow> string list" where
  "lines_of t = butlast (split_on newline t)"

lemma scanned_lines_complete:
  "t = [] \<or> last t = newline \<Longrightarrow>
     scanned_lines t = map drop_cr (takeWhile (\<lambda>l. length l < activity_limit) (lines_of t))"
proof (cases t rule: rev_cases)
  case (snoc u c)
  assume "t = [] \<or> last t = newline"
  with snoc have "split_on newline t = split_on newline u @ [[]]"
    using split_on_append_line [of newline u "[]"] by simp
  then show ?thesis by (simp add: scanned_lines_def lines_of_def Let_def)
qed (simp add: scanned_lines_def lines_of_def)

lemma lines_of_append: "a = [] \<or> last a = newline \<Longrightarrow> lines_of (a @ b) = lines_of a @ lines_of b"
proof (cases a rule: rev_cases)
  case (snoc u c)
  assume "a = [] \<or> last a = newline"
  with snoc have "a = u @ [newline]" by simp
  then show ?thesis
    using split_on_append_line [of newline u b] split_on_append_line [of newline u "[]"] split_on_nonempty
    by (simp add: lines_of_def butlast_append)
qed (simp add: lines_of_def)

definition short_lines :: "string \<Rightarrow> bool" where
  "short_lines t \<longleftrightarrow> list_all (\<lambda>l. length l < activity_limit) (lines_of t)"

lemma scanned_append:
  assumes "a = [] \<or> last a = newline" "b = [] \<or> last b = newline" "short_lines a"
  shows "scanned_lines (a @ b) = scanned_lines a @ scanned_lines b"
proof -
  have ab: "a @ b = [] \<or> last (a @ b) = newline" using assms(1,2) by (cases "b = []") auto
  show ?thesis
    using assms(3) unfolding scanned_lines_complete [OF ab] scanned_lines_complete [OF assms(1)]
      scanned_lines_complete [OF assms(2)] lines_of_append [OF assms(1)] short_lines_def
    by (auto simp: list_all_iff takeWhile_append takeWhile_eq_all_conv [THEN iffD2])
qed

lemma tool_fold_count:
  "fold tool_line ls (n, st) = (n + fst (fold tool_line ls (0, st)), snd (fold tool_line ls (0, st)))"
proof (induction ls arbitrary: n st)
  case (Cons l ls)
  obtain m st' where m: "tool_line l (0, st) = (m, st')" by (cases "tool_line l (0, st)")
  then have "tool_line l (n, st) = (n + m, st')"
    by (auto simp: tool_line_def split: option.splits prod.splits)
  with m show ?case using Cons [of "n + m" st'] Cons [of m st'] by simp
qed simp

lemma tool_line_offset: "tool_line l (n, st\<lparr>tp_offset := k\<rparr>) = map_prod id (\<lambda>s. s\<lparr>tp_offset := k\<rparr>) (tool_line l (n, st))"
  by (auto simp: tool_line_def apply_tool_event_def split: option.splits)

lemma tool_fold_offset:
  "fold tool_line ls (n, st\<lparr>tp_offset := k\<rparr>) = map_prod id (\<lambda>s. s\<lparr>tp_offset := k\<rparr>) (fold tool_line ls (n, st))"
proof (induction ls arbitrary: n st)
  case (Cons l ls)
  then show ?case by (cases "tool_line l (n, st)") (simp add: tool_line_offset)
qed simp

text \<open>What a read finds behind its offset.\<close>

lemma read_tool_progress_text:
  "read_tool_progress (Some text) st =
     (let data = complete_part (drop (tp_offset st) text);
          r = fold tool_line (scanned_lines data) (0, st\<lparr>tp_offset := tp_offset st + length data\<rparr>)
      in (fst r, tp_in_flight (snd r) > 0, snd r))"
  by (simp add: read_tool_progress_def Let_def split_beta scanned_lines_def)

text \<open>
  Following a growing activity file gives what one read of the whole file gives: reading a part
  of it and then the file again from where the first read stopped adds up to the count and the
  state of a single read, provided the lines of the first part fit the scanner's buffer.
\<close>

theorem incremental_progress:
  assumes "tp_offset st \<le> length a" and "short_lines (complete_part (drop (tp_offset st) a))"
    and "read_tool_progress (Some a) st = (n1, f1, st1)"
    and "read_tool_progress (Some (a @ b)) st1 = (n2, f2, st2)"
  shows "read_tool_progress (Some (a @ b)) st = (n1 + n2, f2, st2)"
proof -
  define k where "k = tp_offset st"
  define c1 where "c1 = complete_part (drop k a)"
  define c2 where "c2 = complete_part (drop (k + length c1) (a @ b))"
  let ?l1 = "scanned_lines c1" and ?l2 = "scanned_lines c2"
  have c1: "c1 = [] \<or> last c1 = newline" "c2 = [] \<or> last c2 = newline"
    using complete_part_end by (auto simp: c1_def c2_def)
  have len: "length c1 \<le> length (drop k a)"
    unfolding c1_def by (metis complete_part_split length_append le_add1)
  have drop1: "drop k a = c1 @ drop (k + length c1) a"
  proof -
    have "take (length c1) (drop k a) = c1"
      unfolding c1_def by (metis append_eq_conv_conj complete_part_split)
    then show ?thesis by (metis append_take_drop_id drop_drop add.commute)
  qed
  have whole: "drop k (a @ b) = c1 @ drop (k + length c1) (a @ b)"
  proof -
    have "k + length c1 \<le> length a" using len assms(1) by (simp add: k_def)
    then show ?thesis using drop1 by simp
  qed
  have "complete_part (drop k (a @ b)) = c1 @ c2"
  proof (cases "newline \<in> set (drop (k + length c1) (a @ b))")
    case True
    then show ?thesis unfolding whole c2_def by (simp only: complete_part_append if_True)
  next
    case False
    then have "c2 = []" unfolding c2_def
      by (metis complete_part_end complete_part_split Un_iff last_in_set set_append)
    with False show ?thesis
      unfolding whole using complete_part_whole [OF c1(1)] by (simp only: complete_part_append if_False append_Nil2)
  qed
  moreover have "scanned_lines (c1 @ c2) = ?l1 @ ?l2"
    using scanned_append [OF c1] assms(2) by (simp add: c1_def k_def)
  moreover have r1: "n1 = fst (fold tool_line ?l1 (0, st))"
      "st1 = (snd (fold tool_line ?l1 (0, st)))\<lparr>tp_offset := k + length c1\<rparr>"
    using assms(3) by (auto simp: read_tool_progress_text Let_def tool_fold_offset c1_def k_def)
  moreover have "n2 = fst (fold tool_line ?l2 (0, snd (fold tool_line ?l1 (0, st))))"
      "st2 = (snd (fold tool_line ?l2 (0, snd (fold tool_line ?l1 (0, st)))))\<lparr>tp_offset := k + length c1 + length c2\<rparr>"
      "f2 = (tp_in_flight st2 > 0)"
    using assms(4) unfolding r1(2)
    by (auto simp: read_tool_progress_text Let_def tool_fold_offset c2_def)
  ultimately show ?thesis
    using tool_fold_count [of ?l2 "fst (fold tool_line ?l1 (0, st))" "snd (fold tool_line ?l1 (0, st))"]
    by (simp add: read_tool_progress_text Let_def tool_fold_offset k_def [symmetric] add.assoc)
qed

definition tool_line_text :: "string \<Rightarrow> string" where
  "tool_line_text ty = json_text (JObj [(''type'', JStr ty)])"

definition tool_text :: "string \<Rightarrow> string" where
  "tool_text ty = tool_line_text ty @ [newline]"

lemma lines_of_line: "newline \<notin> set l \<Longrightarrow> lines_of (l @ newline # t) = l # lines_of t"
  using split_on_line [of newline l t] split_on_nonempty [of newline t] by (simp add: lines_of_def)

lemma lines_of_Nil [simp]: "lines_of [] = []"
  by (simp add: lines_of_def)

lemma tool_line_text_shape:
  "newline \<notin> set (tool_line_text ty)" "drop_cr (tool_line_text ty) = tool_line_text ty"
  "valid_utf8 ty \<Longrightarrow> tool_line (tool_line_text ty) (n, st) = (case apply_tool_event ty st of (k, st') \<Rightarrow> (n + k, st'))"
proof -
  show "newline \<notin> set (tool_line_text ty)"
    unfolding tool_line_text_def by (rule numbers_no_newline) simp
  show "drop_cr (tool_line_text ty) = tool_line_text ty"
    by (simp add: tool_line_text_def drop_cr_def)
  have "unmarshal_into (get_str ''type'') (tool_line_text ty) = Some ty" if "valid_utf8 ty"
    unfolding tool_line_text_def by (subst unmarshal_into_text) (simp_all add: json_dec_defs that)
  then show "valid_utf8 ty \<Longrightarrow> tool_line (tool_line_text ty) (n, st) = (case apply_tool_event ty st of (k, st') \<Rightarrow> (n + k, st'))"
    by (simp add: tool_line_def)
qed

lemma tool_line_text_short:
  "length (tool_line_text ''tool_execution_start'') < activity_limit"
  "length (tool_line_text ''tool_execution_end'') < activity_limit"
  by (simp_all add: tool_line_text_def quote_string_def escape_char_def activity_limit_def)

lemma tool_text_lines: "lines_of (tool_text ty) = [tool_line_text ty]"
  using lines_of_line [of "tool_line_text ty" "[]"] by (simp add: tool_text_def tool_line_text_shape)

lemma read_tool_text:
  assumes "length (tool_line_text ty) < activity_limit" and "valid_utf8 ty"
  shows "read_tool_progress (Some (p @ tool_text ty)) (st\<lparr>tp_offset := length p\<rparr>) =
    (case apply_tool_event ty st of (k, st') \<Rightarrow>
       (k, tp_in_flight st' > 0, st'\<lparr>tp_offset := length p + length (tool_text ty)\<rparr>))"
proof -
  have "complete_part (tool_text ty) = tool_text ty"
    by (rule complete_part_whole) (simp add: tool_text_def)
  moreover have "scanned_lines (tool_text ty) = [tool_line_text ty]"
  proof (subst scanned_lines_complete)
    show "tool_text ty = [] \<or> last (tool_text ty) = newline" by (simp add: tool_text_def)
  qed (use assms in \<open>simp add: tool_text_lines tool_line_text_shape\<close>)
  ultimately show ?thesis
    by (auto simp: read_tool_progress_text Let_def tool_line_text_shape assms(2) apply_tool_event_def)
qed

theorem incremental_progress_witness:
  "\<exists>st. read_tool_progress (Some (tool_text ''tool_execution_start'' @ tool_text ''tool_execution_end'')) no_progress =
     (1, False, st)"
proof -
  let ?a = "tool_text ''tool_execution_start''" and ?b = "tool_text ''tool_execution_end''"
  have "complete_part ?a = ?a" by (rule complete_part_whole) (simp add: tool_text_def)
  then have short: "short_lines (complete_part (drop (tp_offset no_progress) ?a))"
    by (simp add: no_progress_def short_lines_def tool_text_lines tool_line_text_short)
  have a: "read_tool_progress (Some ?a) no_progress = (0, True, no_progress\<lparr>tp_in_flight := 1, tp_offset := length ?a\<rparr>)"
    using read_tool_text [OF tool_line_text_short(1) _, of "[]" no_progress]
    by (simp add: no_progress_def apply_tool_event_def)
  have b: "read_tool_progress (Some (?a @ ?b)) (no_progress\<lparr>tp_in_flight := 1, tp_offset := length ?a\<rparr>) =
      (1, False, no_progress\<lparr>tp_in_flight := 0, tp_offset := length ?a + length ?b\<rparr>)"
    using read_tool_text [OF tool_line_text_short(2) _, of ?a "no_progress\<lparr>tp_in_flight := 1\<rparr>"]
    by (simp add: no_progress_def apply_tool_event_def)
  show ?thesis
    using incremental_progress [OF _ short a b] by (auto simp: no_progress_def)
qed

text \<open>A start, a line of one mebibyte, and the end: the reader stops in the middle.\<close>

definition long_activity :: string where
  "long_activity = tool_text ''tool_execution_start'' @ replicate activity_limit (CHR ''x'') @ [newline] @
     tool_text ''tool_execution_end''"

text \<open>
  A line that does not fit the scanner's buffer hides the end of a tool execution behind it for
  good: the read passes over the whole text, counts nothing and leaves the tool in flight, which
  suspends the stall detection for the rest of the process.
\<close>

theorem long_line_hides_end:
  "read_tool_progress (Some long_activity) no_progress =
     (0, True, \<lparr>tp_offset = length long_activity, tp_in_flight = 1\<rparr>)"
proof -
  have "complete_part long_activity = long_activity"
    by (rule complete_part_whole) (simp add: long_activity_def tool_text_def)
  moreover have "lines_of long_activity =
      [tool_line_text ''tool_execution_start'', replicate activity_limit (CHR ''x''), tool_line_text ''tool_execution_end'']"
    using lines_of_line [of "tool_line_text ''tool_execution_start''"]
      lines_of_line [of "replicate activity_limit (CHR ''x'')" "tool_text ''tool_execution_end''"]
    by (simp add: long_activity_def tool_text_def [of "''tool_execution_start''"] tool_line_text_shape
        tool_text_lines newline_def [symmetric]) (simp add: newline_def)
  then have "scanned_lines long_activity = [tool_line_text ''tool_execution_start'']"
    by (subst scanned_lines_complete)
      (simp_all add: long_activity_def tool_text_def tool_line_text_short tool_line_text_shape)
  ultimately show ?thesis
    by (simp add: read_tool_progress_text Let_def no_progress_def tool_line_text_shape apply_tool_event_def)
qed

section \<open>What the filter costs\<close>

text \<open>
  A line that an agent prints has no newline inside and no carriage return at its end. What it
  prints reaches the activity file filtered, line by line.
\<close>

definition output_line :: "string \<Rightarrow> bool" where
  "output_line l \<longleftrightarrow> newline \<notin> set l \<and> drop_cr l = l"

definition activity_text :: "string list \<Rightarrow> string" where
  "activity_text ls = concat (map (\<lambda>l. filter_pi_line (l @ [newline])) ls)"

lemma projected_text_end: "project_message_update j = Some out \<Longrightarrow> \<exists>m. json_text out = m @ [CHR 0x7D]"
  by (auto simp: project_message_update_def split: option.splits)

lemma filtered_output_line: "output_line l \<Longrightarrow> output_line (filtered l)"
proof -
  assume l: "output_line l"
  then have n: "newline \<notin> set l" by (simp add: output_line_def)
  then show ?thesis
  proof (cases rule: filtered_projected)
    case 1
    then show ?thesis using l by simp
  next
    case (2 j out)
    then have "newline \<notin> set (json_text out)"
      using json_no_newline [OF projected_wf [OF unmarshal_wf]] by blast
    then show ?thesis using projected_text_end [OF 2(3)] 2(4) by (auto simp: output_line_def drop_cr_def)
  qed
qed

lemma written_line: "newline \<notin> set l \<Longrightarrow> filter_pi_line (l @ [newline]) = filtered l @ [newline]"
  by (erule filtered_projected) simp_all

lemma takeWhile_map_length: "takeWhile (\<lambda>l. length l < n) (map f ls) = map f (takeWhile (\<lambda>l. length (f l) < n) ls)"
  by (simp add: takeWhile_map comp_def)

lemma activity_lines:
  assumes "list_all output_line ls"
  shows "split_on newline (activity_text ls) = map filtered ls @ [[]]"
    and "map drop_cr (map filtered (takeWhile P ls)) = map filtered (takeWhile P ls)"
proof -
  have plain: "newline \<notin> set l \<and> newline \<notin> set (filtered l) \<and> drop_cr (filtered l) = filtered l" if "l \<in> set ls" for l
    using assms that filtered_output_line by (auto simp: list_all_iff output_line_def)
  have "activity_text ls = concat (map (\<lambda>l. l @ [newline]) (map filtered ls))"
    using plain by (simp add: activity_text_def written_line comp_def cong: map_cong)
  moreover have "split_on newline (concat (map (\<lambda>l. l @ [newline]) (map filtered ls))) = map filtered ls @ [[]]"
    by (rule split_lines) (use plain in auto)
  ultimately show "split_on newline (activity_text ls) = map filtered ls @ [[]]" by simp
  show "map drop_cr (map filtered (takeWhile P ls)) = map filtered (takeWhile P ls)"
    using plain by (auto simp: comp_def dest: set_takeWhileD)
qed

lemma scanned_activity:
  assumes "list_all output_line ls"
  shows "scanned_lines (activity_text ls) = map filtered (takeWhile (\<lambda>l. length (filtered l) < activity_limit) ls)"
  unfolding scanned_lines_def activity_lines(1) [OF assms]
  by (simp add: Let_def takeWhile_map_length activity_lines(2) [OF assms] del: map_map)

lemma activity_text_end: "list_all output_line ls \<Longrightarrow> activity_text ls = [] \<or> last (activity_text ls) = newline"
proof (induction ls rule: rev_induct)
  case (snoc l ls)
  then show ?case by (auto simp: activity_text_def output_line_def written_line)
qed (simp add: activity_text_def)

text \<open>
  C23: What is read from the activity file of an agent is what its printed lines say, up to the first one
  that has 1 MiB or more once it is filtered: the classification of the transcript is that of these
  lines, and a read of the tool progress counts the executions that these lines complete, and the
  tools that they leave in flight. Apart from that limit the filter loses nothing that is read.
\<close>

theorem filter_keeps_signals:
  assumes "list_all output_line ls"
  shows "inspect_transcript (Some (activity_text ls)) =
      classify_lines (takeWhile (\<lambda>l. length (filtered l) < activity_limit) ls) \<and>
    (case fold tool_line (takeWhile (\<lambda>l. length (filtered l) < activity_limit) ls)
        (0, \<lparr>tp_offset = length (activity_text ls), tp_in_flight = 0\<rparr>) of
       (n, st) \<Rightarrow> read_tool_progress (Some (activity_text ls)) no_progress = (n, tp_in_flight st > 0, st))"
proof -
  let ?ls = "takeWhile (\<lambda>l. length (filtered l) < activity_limit) ls"
  have "scan_step (filtered l) = scan_step l" "tool_line (filtered l) = tool_line l" if "newline \<notin> set l" for l
    by (rule filtered_cases [OF that]; simp add: fun_eq_iff update_ignored)+
  moreover have "newline \<notin> set l" if "l \<in> set ?ls" for l
    using assms that by (auto simp: list_all_iff output_line_def dest: set_takeWhileD)
  ultimately have same: "fold scan_step (map filtered ?ls) st = fold scan_step ?ls st"
      "fold tool_line (map filtered ?ls) pr = fold tool_line ?ls pr" for st pr
    using fold_unchanged [of ?ls scan_step filtered] fold_unchanged [of ?ls tool_line filtered] by auto
  have whole: "complete_part (activity_text ls) = activity_text ls"
    by (rule complete_part_whole [OF activity_text_end [OF assms]])
  show ?thesis
    using same
    by (simp add: inspect_transcript_def scan_transcript_def classify_lines_def scanned_activity [OF assms]
        read_tool_progress_text whole no_progress_def Let_def split_beta)
qed

text \<open>An agent that starts a tool, reports an update, ends the tool and stops with an error.\<close>

definition sample_update_json :: json where
  "sample_update_json = JObj [(''type'', JStr ''message_update''), (''text'', JStr ''a<b'')]"

definition sample_end_json :: json where
  "sample_end_json = JObj [(''type'', JStr ''message_end''),
     (''message'', JObj [(''role'', JStr ''assistant''), (''stopReason'', JStr ''error'')])]"

definition sample_output :: "string list" where
  "sample_output =
     [tool_line_text ''tool_execution_start'', json_text sample_update_json,
      tool_line_text ''tool_execution_end'', json_text sample_end_json]"

lemma filtered_text:
  assumes "wf_json v" and "get_str ''type'' v = Some t"
  shows "t \<noteq> ''message_update'' \<Longrightarrow> filtered (json_text v) = json_text v"
    and "t = ''message_update'' \<Longrightarrow> project_message_update v = Some out \<Longrightarrow> wf_json out \<Longrightarrow>
      filtered (json_text v) = json_text out"
  using assms
  by (simp_all add: filtered_def filter_pi_line_def Let_def trim_right_newline json_no_newline unmarshal_json_text)

lemma sample_output_lines: "list_all output_line sample_output"
proof -
  have "output_line (json_text (JObj kvs))" if "wf_json (JObj kvs)" for kvs
    using json_no_newline [OF that] by (simp add: output_line_def drop_cr_def)
  then have "output_line (json_text sample_update_json)" "output_line (json_text sample_end_json)"
    unfolding sample_update_json_def sample_end_json_def by (simp_all del: json_text.simps)
  then show ?thesis
    by (simp add: sample_output_def del: json_text.simps) (simp add: output_line_def tool_line_text_shape)
qed

lemma sample_output_short: "list_all (\<lambda>l. length (filtered l) < activity_limit) sample_output"
proof -
  have ty: "to_lower ''type'' = ''type''" "to_lower ''text'' = ''text''" "to_lower ''message'' = ''message''" by code_simp+
  have tools: "filtered (tool_line_text t) = tool_line_text t" if "valid_utf8 t" "t \<noteq> ''message_update''" for t
    unfolding tool_line_text_def by (rule filtered_text(1) [of _ t]) (simp_all add: json_dec_defs that)
  have stop: "filtered (json_text sample_end_json) = json_text sample_end_json"
    by (rule filtered_text(1) [of _ "''message_end''"]) (simp_all add: sample_end_json_def json_dec_defs ty)
  have update: "filtered (json_text sample_update_json) =
      json_text (JObj [(''type'', JStr ''message_update''), (''assistantMessageEvent'', JObj [])])"
    by (rule filtered_text(2) [of _ "''message_update''"])
      (simp_all add: sample_update_json_def project_message_update_def project_assistant_event_def
        get_raw_def omit_none_def omit_empty_def json_dec_defs to_lower_def to_lower_char_def)
  have "length (json_text sample_end_json) < 1048576"
    "length (json_text (JObj [(''type'', JStr ''message_update''), (''assistantMessageEvent'', JObj [])])) < 1048576"
    by (simp_all add: sample_end_json_def quote_string_def escape_char_def)
  then show ?thesis
    using tool_line_text_short by (simp add: sample_output_def tools stop update activity_limit_def del: json_text.simps)
qed

lemma sample_output_read:
  "tr_semantic_failed (classify_lines sample_output)"
  "fst (fold tool_line sample_output (0, st)) = 1"
proof -
  have ev: "unmarshal_into dec_pi_event (json_text sample_end_json) =
      Some \<lparr>pe_type = ''message_end'', pe_success = None,
        pe_message = Some \<lparr>pm_role = ''assistant'', pm_stop_reason = ''error'', pm_error_message = []\<rparr>\<rparr>"
    by (subst unmarshal_into_text)
      (simp_all add: sample_end_json_def dec_pi_event_def dec_pi_message_def empty_message_def json_dec_defs to_lower_def
        to_lower_char_def)
  have ty: "unmarshal_into (get_str ''type'') (json_text sample_end_json) = Some ''message_end''"
    by (subst unmarshal_into_text) (simp_all add: sample_end_json_def json_dec_defs to_lower_def to_lower_char_def)
  have skip: "scan_step (json_text sample_update_json) r = r" "tool_line (json_text sample_update_json) pr = pr" for r pr
    using update_ignored [of "json_text sample_update_json" sample_update_json]
    by (simp_all add: unmarshal_json_text sample_update_json_def json_dec_defs to_lower_def to_lower_char_def
        del: json_text.simps)
  have tool: "scan_step (tool_line_text ''tool_execution_start'') r = r"
    "scan_step (tool_line_text ''tool_execution_end'') r = r" for r
    unfolding tool_line_text_def scan_step_def
    by (subst unmarshal_into_text; simp add: dec_pi_event_def json_dec_defs to_lower_def to_lower_char_def split: prod.split)+
  show "tr_semantic_failed (classify_lines sample_output)"
    by (simp add: classify_lines_def sample_output_def skip tool del: json_text.simps)
      (simp add: scan_step_def ev apply_last_assistant_def)
  show "fst (fold tool_line sample_output (0, st)) = 1"
    by (simp add: sample_output_def skip tool_line_text_shape apply_tool_event_def del: json_text.simps)
      (simp add: tool_line_def ty apply_tool_event_def)
qed

theorem filter_keeps_signals_witness:
  "tr_semantic_failed (inspect_transcript (Some (activity_text sample_output))) \<and>
   fst (read_tool_progress (Some (activity_text sample_output)) no_progress) = 1"
proof -
  have all: "takeWhile (\<lambda>l. length (filtered l) < activity_limit) sample_output = sample_output"
    using sample_output_short by (auto simp: list_all_iff takeWhile_eq_all_conv)
  show ?thesis
    using filter_keeps_signals [OF sample_output_lines] sample_output_read(1)
      sample_output_read(2) [of "\<lparr>tp_offset = length (activity_text sample_output), tp_in_flight = 0\<rparr>"]
    unfolding all by (auto split: prod.splits)
qed

end
