(* ===== verification/Agent.thy ===== *)
theory Agent
  imports World Agent_Output "HOL-Library.Word"
begin

text \<open>
  The package \<open>internal/agent\<close>: running a role as a \<open>pi\<close> process. A process is the list of what
  its supervisor sees of it, in order: poll ticks with the activity file of that moment, the end of
  the process, the timeout, the accepted terminal call. Times are nanoseconds. What happens to
  the files of the agent directory (\<open>piagentdir.go\<close>) is the result of one preparation step.
\<close>

section \<open>The model chain\<close>

text \<open>The loop of \<open>ParseModelChain\<close>: what was seen is what is in the chain.\<close>

fun chain_entries :: "string list \<Rightarrow> string list \<Rightarrow> string list" where
  "chain_entries chain [] = chain"
| "chain_entries chain (p # ps) =
     (let t = trim_space p in
      if t = [] \<or> t \<in> set chain then chain_entries chain ps else chain_entries (chain @ [t]) ps)"

definition parse_model_chain :: "string \<Rightarrow> string list result" where
  "parse_model_chain raw =
     (let chain = chain_entries [] (split_on (CHR '','') raw) in
      if chain = [] then Inl (msg_err (''agent: model chain is empty after parsing '' @ raw)) else Inr chain)"

section \<open>The environment of the process\<close>

text \<open>\<open>strings.Cut(entry, "=")\<close>: the key of an entry, when it has one.\<close>

definition entry_key :: "string \<Rightarrow> string option" where
  "entry_key entry =
     (if CHR ''='' \<in> set entry then Some (takeWhile (\<lambda>c. c \<noteq> CHR ''='') entry) else None)"

definition filter_env :: "string list \<Rightarrow> string list \<Rightarrow> string list" where
  "filter_env env banned =
     (if banned = [] then env
      else filter (\<lambda>e. case entry_key e of Some k \<Rightarrow> k \<notin> set banned | None \<Rightarrow> True) env)"

record role_cfg =
  ro_role :: string
  ro_system_prompt :: string
  ro_user_prompt :: string
  ro_worktree :: string
  ro_run_id :: string
  ro_event_log :: string
  ro_model :: string
  ro_timeout :: int
  ro_idle_timeout :: int
  ro_tools :: "string list"
  ro_runs_dir :: string
  ro_round :: int
  ro_attempt :: int
  ro_turn :: int
  ro_env :: "string list"
  ro_poll_interval :: int
  ro_max_stall_retries :: "int option"

definition token_names :: "string list" where
  "token_names = [''GH_TOKEN'', ''GOLEMIC_DEV_TOKEN'', ''GOLEMIC_REVIEWER_TOKEN'']"

text \<open>The environment that \<open>newPiCmd\<close> gives the process.\<close>

definition pi_env :: "string list \<Rightarrow> role_cfg \<Rightarrow> string \<Rightarrow> string list" where
  "pi_env os_env cfg pi_dir =
     filter_env
       (filter_env os_env token_names @
        [''GOLEMIC_RUN_ID='' @ ro_run_id cfg, ''GOLEMIC_EVENT_LOG='' @ ro_event_log cfg,
         ''GOLEMIC_TURN_ID='' @ itoa (ro_turn cfg), ''PI_CODING_AGENT_DIR='' @ pi_dir] @
        ro_env cfg)
       token_names"

section \<open>The session\<close>

definition session_char :: "char \<Rightarrow> bool" where
  "session_char c \<longleftrightarrow>
     byte_in 65 90 c \<or> byte_in 97 122 c \<or> byte_in 48 57 c \<or> c \<in> {CHR ''.'', CHR ''_'', CHR ''-''}"

text \<open>\<open>strings.Map\<close> over the runes of the string.\<close>

function sanitize_session_id :: "string \<Rightarrow> string" where
  "sanitize_session_id [] = []"
| "sanitize_session_id (c # cs) =
     (if session_char c then c else CHR ''-'') # sanitize_session_id (drop (rune_length (c # cs) - 1) cs)"
  by pat_completeness auto
termination
  by (relation "measure length") auto

definition session_id :: "role_cfg \<Rightarrow> string" where
  "session_id cfg = sanitize_session_id (ro_run_id cfg @ ''-'' @ ro_role cfg @ ''-r'' @ itoa (ro_round cfg))"

definition build_pi_args :: "role_cfg \<Rightarrow> string \<Rightarrow> string \<Rightarrow> string list" where
  "build_pi_args cfg model session =
     [''-p'', ''--mode'', ''json'', ''--session-id'', session,
      ''--append-system-prompt'', ''@'' @ ro_system_prompt cfg,
      ''--tools'', join_with '','' (ro_tools cfg), ''--model'', model, ro_user_prompt cfg]"

section \<open>Limits\<close>

text \<open>A product of durations wraps at 64 bits.\<close>

definition duration :: "int \<Rightarrow> int" where
  "duration ns = sint (word_of_int ns :: 64 word)"

definition default_idle_timeout :: int where
  "default_idle_timeout = 300 * 10 ^ 9"

definition default_max_stall_retries :: int where
  "default_max_stall_retries = 2"

definition parse_idle_timeout :: "string \<Rightarrow> int \<Rightarrow> int" where
  "parse_idle_timeout var poll =
     (if var = [] then default_idle_timeout
      else (case atoi var of
              None \<Rightarrow> default_idle_timeout
            | Some sec \<Rightarrow>
                if sec \<le> 0 \<or> duration (sec * 10 ^ 9) < poll then default_idle_timeout
                else duration (sec * 10 ^ 9)))"

definition parse_max_stall_retries :: "string \<Rightarrow> int" where
  "parse_max_stall_retries var =
     (if var = [] then default_max_stall_retries
      else (case atoi var of
              None \<Rightarrow> default_max_stall_retries
            | Some n \<Rightarrow> if n < 0 then default_max_stall_retries else n))"

definition effective_poll_interval :: "role_cfg \<Rightarrow> int" where
  "effective_poll_interval cfg = (if ro_poll_interval cfg > 0 then ro_poll_interval cfg else 30 * 10 ^ 9)"

definition effective_max_stall_retries :: "role_cfg \<Rightarrow> string \<Rightarrow> int" where
  "effective_max_stall_retries cfg var =
     (case ro_max_stall_retries cfg of Some n \<Rightarrow> n | None \<Rightarrow> parse_max_stall_retries var)"

definition effective_idle_timeout :: "role_cfg \<Rightarrow> string \<Rightarrow> int" where
  "effective_idle_timeout cfg var =
     (if ro_idle_timeout cfg \<le> 0 then parse_idle_timeout var (effective_poll_interval cfg)
      else ro_idle_timeout cfg)"

section \<open>Waiting for a process\<close>

datatype kill_result = Killed | NoSuchProcess | KillFailed

datatype exit_status = ExitOk | ExitCode int | WaitFailed

datatype wait_event =
    TerminalDone kill_result
  | TimedOut kill_result
  | PollTick int "string option" kill_result   \<comment> \<open>the time, the activity file, the kill if it stalls\<close>
  | Exited exit_status

record wait_state =
  wt_tools :: tool_progress
  wt_last_progress :: int
  wt_last_offset :: nat

type_synonym wait_result = "int \<times> string \<times> agent_err option"

definition classify_stall :: "nat \<Rightarrow> nat \<Rightarrow> string" where
  "classify_stall current_offset last_offset =
     (if current_offset > last_offset then ''thinking_loop'' else ''hang'')"

definition resolve_wait_error :: "exit_status \<Rightarrow> int \<times> agent_err option" where
  "resolve_wait_error e =
     (case e of
        ExitOk \<Rightarrow> (0, None)
      | ExitCode n \<Rightarrow> (n, None)
      | WaitFailed \<Rightarrow> (0, Some (AgentOther ''agent: process wait failed'')))"

definition terminal_wait_result :: "kill_result \<Rightarrow> wait_result" where
  "terminal_wait_result k =
     (0, [], if k = KillFailed then Some (AgentOther ''agent: terminal process group kill failed'') else None)"

text \<open>The error wraps \<open>ErrTimeout\<close> whether the kill worked or not.\<close>

definition timeout_wait_result :: "kill_result \<Rightarrow> wait_result" where
  "timeout_wait_result k = (0, [], Some AgentTimeout)"

definition done_wait_result :: "exit_status \<Rightarrow> wait_result" where
  "done_wait_result e = (case resolve_wait_error e of (code, err) \<Rightarrow> (code, [], err))"

definition handle_poll_tick ::
  "int \<Rightarrow> int \<Rightarrow> string option \<Rightarrow> kill_result \<Rightarrow> wait_state \<Rightarrow> wait_result \<times> wait_state" where
  "handle_poll_tick idle time activity k w =
     (case read_tool_progress activity (wt_tools w) of
        (completed, in_flight, tools) \<Rightarrow>
          (let last = (if completed > 0 then time else wt_last_progress w);
               offset = (if completed > 0 then tp_offset tools else wt_last_offset w);
               w' = \<lparr>wt_tools = tools, wt_last_progress = last, wt_last_offset = offset\<rparr>
           in if \<not> in_flight \<and> time - last \<ge> idle
              then (if k = Killed then (0, classify_stall (tp_offset tools) offset, None)
                    else (0, [], Some (AgentOther ''agent: stalled process group kill failed'')), w')
              else ((0, [], None), w')))"

text \<open>\<open>None\<close>: the list ended before the process did.\<close>

fun wait_for_process :: "int \<Rightarrow> wait_state \<Rightarrow> wait_event list \<Rightarrow> wait_result option" where
  "wait_for_process idle w [] = None"
| "wait_for_process idle w (ev # evs) =
     (case ev of
        TerminalDone k \<Rightarrow> Some (terminal_wait_result k)
      | TimedOut k \<Rightarrow> Some (timeout_wait_result k)
      | PollTick time activity k \<Rightarrow>
          (case handle_poll_tick idle time activity k w of
             ((code, reason, err), w') \<Rightarrow>
               if err \<noteq> None \<or> reason \<noteq> [] then Some (code, reason, err)
               else wait_for_process idle w' evs)
      | Exited e \<Rightarrow> Some (done_wait_result e))"

section \<open>Attempts\<close>

datatype pi_process =
    FileError
  | StartError
  | Started int "wait_event list"   \<comment> \<open>the time of the start\<close>

definition initial_wait :: "int \<Rightarrow> wait_state" where
  "initial_wait start = \<lparr>wt_tools = no_progress, wt_last_progress = start, wt_last_offset = 0\<rparr>"

text \<open>The attempts from number \<open>attempt\<close> on; \<open>left\<close> is how many retries remain.\<close>

fun stall_attempts :: "int \<Rightarrow> (nat \<Rightarrow> pi_process) \<Rightarrow> nat \<Rightarrow> nat \<Rightarrow> (int \<times> agent_err option) option" where
  "stall_attempts idle procs attempt left =
     (case procs attempt of
        FileError \<Rightarrow> Some (0, Some (AgentOther ''agent: failed to create transcript''))
      | StartError \<Rightarrow> Some (0, Some (AgentOther ''agent: failed to start pi process''))
      | Started start evs \<Rightarrow>
          (case wait_for_process idle (initial_wait start) evs of
             None \<Rightarrow> None
           | Some (code, reason, err) \<Rightarrow>
               if reason = [] then Some (code, err)
               else if err \<noteq> None then Some (0, err)
               else if reason = ''thinking_loop'' then Some (0, Some AgentThinkingLoop)
               else (case left of
                       0 \<Rightarrow> Some (0, Some AgentStalled)
                     | Suc n \<Rightarrow> stall_attempts idle procs (Suc attempt) n)))"

declare stall_attempts.simps [simp del]

definition run_model_attempt :: "int \<Rightarrow> int \<Rightarrow> (nat \<Rightarrow> pi_process) \<Rightarrow> (int \<times> agent_err option) option" where
  "run_model_attempt idle max_retries procs =
     (if max_retries < 0 then Some (0, Some AgentStalled) else stall_attempts idle procs 0 (nat max_retries))"

section \<open>A role\<close>

text \<open>
  The models in turn: \<open>procs i\<close> are the processes of the \<open>i\<close>-th model and \<open>activity i\<close> is its
  activity file afterwards.
\<close>

fun run_chain ::
  "int \<Rightarrow> int \<Rightarrow> (nat \<Rightarrow> nat \<Rightarrow> pi_process) \<Rightarrow> (nat \<Rightarrow> string option) \<Rightarrow> nat \<Rightarrow> string list \<Rightarrow>
     (string \<times> string) list \<Rightarrow> (int \<times> agent_err option) option" where
  "run_chain idle max_retries procs activity i [] attempts = Some (1, Some (AgentChainExhausted attempts))"
| "run_chain idle max_retries procs activity i (m # ms) attempts =
     (case run_model_attempt idle max_retries (procs i) of
        None \<Rightarrow> None
      | Some (code, err) \<Rightarrow>
          if err = Some AgentTimeout then Some (0, err)
          else (let tr = inspect_transcript (activity i) in
            if err = None \<and> code = 0 \<and> \<not> tr_semantic_failed tr \<and> \<not> tr_fallback_eligible tr then Some (code, None)
            else if tr_fallback_eligible tr
            then run_chain idle max_retries procs activity (Suc i) ms
                   (attempts @ [(m, if tr_reason tr = [] then ''provider error'' else tr_reason tr)])
            else if err \<noteq> None then Some (0, err)
            else if tr_semantic_failed tr then Some (1, None)
            else Some (code, None)))"

text \<open>\<open>filepath.Base\<close>.\<close>

definition path_base :: "string \<Rightarrow> string" where
  "path_base p =
     (if p = [] then ''.''
      else (let q = trim_right (\<lambda>c. c = CHR ''/'') p in
        if q = [] then ''/'' else last (split_on (CHR ''/'') q)))"

text \<open>
  The checks at the top of \<open>RunRole\<close>; whether the prompt file and the worktree exist is what the
  file system says.
\<close>

definition check_role :: "role_cfg \<Rightarrow> bool \<Rightarrow> bool \<Rightarrow> string option" where
  "check_role cfg prompt_exists worktree_is_dir =
     (if ro_role cfg \<noteq> ''dev'' \<and> ro_role cfg \<noteq> ''reviewer'' then Some ''agent: role must be dev or reviewer''
      else if ro_user_prompt cfg = [] then Some ''agent: userPrompt must not be empty''
      else if ro_event_log cfg = [] then Some ''agent: eventLogPath must not be empty''
      else if ro_runs_dir cfg = [] then Some ''agent: runsDir must not be empty''
      else if ro_run_id cfg = [] then Some ''agent: runID must not be empty''
      else if path_base (ro_run_id cfg) \<noteq> ro_run_id cfg then Some ''agent: runID must not contain path separators''
      else if ro_model cfg = [] then Some ''agent: model must not be empty''
      else if ro_tools cfg = [] then Some ''agent: toolAllowlist must not be empty''
      else if ro_timeout cfg \<le> 0 then Some ''agent: timeout must be positive''
      else if \<not> prompt_exists then Some ''agent: systemPromptFile''
      else if \<not> worktree_is_dir then Some ''agent: worktreeDir''
      else None)"

record role_host =
  rh_prompt_exists :: bool
  rh_worktree_is_dir :: bool
  rh_prepare_error :: "string option"   \<comment> \<open>the run directory and the agent directory\<close>
  rh_idle_var :: string
  rh_retries_var :: string

definition run_role ::
  "role_host \<Rightarrow> role_cfg \<Rightarrow> (nat \<Rightarrow> nat \<Rightarrow> pi_process) \<Rightarrow> (nat \<Rightarrow> string option) \<Rightarrow> (int \<times> agent_err option) option" where
  "run_role H cfg procs activity =
     (case check_role cfg (rh_prompt_exists H) (rh_worktree_is_dir H) of
        Some e \<Rightarrow> Some (0, Some (AgentOther e))
      | None \<Rightarrow>
          (case parse_model_chain (ro_model cfg) of
             Inl e \<Rightarrow> Some (0, Some (AgentOther (err_text e)))
           | Inr chain \<Rightarrow>
               (case rh_prepare_error H of
                  Some e \<Rightarrow> Some (0, Some (AgentOther e))
                | None \<Rightarrow>
                    run_chain (effective_idle_timeout cfg (rh_idle_var H))
                      (effective_max_stall_retries cfg (rh_retries_var H)) procs activity 0 chain [])))"


section \<open>Properties\<close>

text \<open>The reference for the chain: every entry at its first occurrence.\<close>

fun first_occurrences :: "'a list \<Rightarrow> 'a list" where
  "first_occurrences [] = []"
| "first_occurrences (x # xs) = x # removeAll x (first_occurrences xs)"

lemma first_occurrences_distinct: "distinct (first_occurrences xs) \<and> set (first_occurrences xs) = set xs"
  by (induction xs) (auto simp: distinct_removeAll)

lemma chain_entries_reference:
  "chain_entries chain ps =
     chain @ filter (\<lambda>t. t \<notin> set chain) (first_occurrences (filter (\<lambda>t. t \<noteq> []) (map trim_space ps)))"
proof (induction chain ps rule: chain_entries.induct)
  case (2 chain p ps)
  let ?xs = "first_occurrences (filter (\<lambda>t. t \<noteq> []) (map trim_space ps))"
  have "filter (\<lambda>t. t \<notin> set chain) (removeAll x ?xs) = filter (\<lambda>t. t \<notin> set (chain @ [x])) ?xs" for x
    by (simp add: removeAll_filter_not_eq) (rule filter_cong, auto)
  moreover have "x \<in> set chain \<Longrightarrow> filter (\<lambda>t. t \<notin> set chain) (removeAll x ?xs) = filter (\<lambda>t. t \<notin> set chain) ?xs" for x
    by (simp add: removeAll_filter_not_eq) (rule filter_cong, auto)
  ultimately show ?case using 2 by (simp add: Let_def)
qed simp

text \<open>
  The model chain is the list of the trimmed entries that are not empty, each at its first
  occurrence and only there; parsing fails exactly when there is none.
\<close>

theorem model_chain_reference:
  "parse_model_chain raw =
     (case first_occurrences (filter (\<lambda>t. t \<noteq> []) (map trim_space (split_on (CHR '','') raw))) of
        [] \<Rightarrow> Inl (msg_err (''agent: model chain is empty after parsing '' @ raw))
      | c # cs \<Rightarrow> Inr (c # cs))"
  by (simp add: parse_model_chain_def chain_entries_reference split: list.split)

text \<open>An entry whose key is not banned.\<close>

definition entry_allowed :: "string list \<Rightarrow> string \<Rightarrow> bool" where
  "entry_allowed banned e \<longleftrightarrow> (case entry_key e of Some k \<Rightarrow> k \<notin> set banned | None \<Rightarrow> True)"

lemma filter_env_set: "set (filter_env env banned) = {e \<in> set env. entry_allowed banned e}"
  by (auto simp: filter_env_def entry_allowed_def split: option.split)

text \<open>
  The environment of an agent process has none of the bot tokens under their names, whatever
  the environment of golemic and the configured entries are, and it does name the run and the log.
\<close>

theorem agent_env_hides_tokens:
  "list_all (entry_allowed token_names) (pi_env os_env cfg pi_dir) \<and>
   ''GOLEMIC_RUN_ID='' @ ro_run_id cfg \<in> set (pi_env os_env cfg pi_dir) \<and>
   ''GOLEMIC_EVENT_LOG='' @ ro_event_log cfg \<in> set (pi_env os_env cfg pi_dir)"
proof -
  have "entry_allowed token_names (''GOLEMIC_RUN_ID='' @ s)" "entry_allowed token_names (''GOLEMIC_EVENT_LOG='' @ s)" for s
    by (simp_all add: entry_allowed_def entry_key_def token_names_def)
  then show ?thesis
    by (simp add: pi_env_def filter_env_set list_all_iff)
qed

text \<open>A run of the chain: what the models before the last one tried were given up for.\<close>

definition fell_back :: "(nat \<Rightarrow> string option) \<Rightarrow> nat \<Rightarrow> bool" where
  "fell_back activity i \<longleftrightarrow> tr_fallback_eligible (inspect_transcript (activity i))"

definition clean_transcript :: "(nat \<Rightarrow> string option) \<Rightarrow> nat \<Rightarrow> bool" where
  "clean_transcript activity i \<longleftrightarrow>
     \<not> tr_semantic_failed (inspect_transcript (activity i)) \<and> \<not> fell_back activity i"

definition chain_outcome ::
  "int \<Rightarrow> int \<Rightarrow> (nat \<Rightarrow> nat \<Rightarrow> pi_process) \<Rightarrow> (nat \<Rightarrow> string option) \<Rightarrow> string list \<Rightarrow> int \<times> agent_err option \<Rightarrow> bool" where
  "chain_outcome idle max_retries procs activity chain r \<longleftrightarrow>
     (case snd r of
        Some (AgentChainExhausted attempts) \<Rightarrow>
          map fst attempts = chain \<and> list_all (\<lambda>a. snd a \<noteq> []) attempts \<and>
          (\<forall>i<length chain. fell_back activity i)
      | Some _ \<Rightarrow> True
      | None \<Rightarrow>
          (\<exists>i<length chain. (\<forall>j<i. fell_back activity j) \<and> \<not> fell_back activity i \<and>
             (\<exists>code. run_model_attempt idle max_retries (procs i) = Some (code, None) \<and>
                (fst r = 0 \<longrightarrow> code = 0 \<and> clean_transcript activity i))))"

lemma wait_error_kinds:
  "wait_for_process idle w evs = Some (code, reason, err) \<Longrightarrow> err \<noteq> Some (AgentChainExhausted as)"
proof (induction idle w evs rule: wait_for_process.induct)
  case (2 idle w ev evs)
  then show ?case
  proof (cases ev)
    case (PollTick time activity k)
    obtain code' reason' err' w' where
      tick: "handle_poll_tick idle time activity k w = ((code', reason', err'), w')"
      by (metis prod.exhaust)
    then have "err' \<noteq> Some (AgentChainExhausted as)"
      by (auto simp: handle_poll_tick_def Let_def split: prod.splits if_splits)
    with 2 PollTick tick show ?thesis by (auto split: if_splits)
  qed (auto simp: terminal_wait_result_def timeout_wait_result_def done_wait_result_def
      resolve_wait_error_def split: if_splits exit_status.splits)
qed simp

lemma no_exhausted_attempt:
  "stall_attempts idle procs a n = Some (code, err) \<Longrightarrow> err \<noteq> Some (AgentChainExhausted as)"
proof (induction n arbitrary: a)
  case 0
  then show ?case
    by (auto simp: stall_attempts.simps [of _ _ _ 0] dest: wait_error_kinds
        split: pi_process.splits option.splits prod.splits if_splits)
next
  case (Suc n)
  then show ?case
    by (auto simp: stall_attempts.simps [of _ _ _ "Suc n"] dest: wait_error_kinds
        split: pi_process.splits option.splits prod.splits if_splits)
qed

lemma model_attempt_error: "run_model_attempt idle mx procs = Some (code, err) \<Longrightarrow> err \<noteq> Some (AgentChainExhausted as)"
  by (auto simp: run_model_attempt_def dest: no_exhausted_attempt split: if_splits)

lemma run_chain_outcome:
  "run_chain idle mx procs activity i ms attempts = Some r \<Longrightarrow>
     pre @ ms = chain \<Longrightarrow> length pre = i \<Longrightarrow> (\<forall>j<i. fell_back activity j) \<Longrightarrow>
     map fst attempts = pre \<Longrightarrow> list_all (\<lambda>a. snd a \<noteq> []) attempts \<Longrightarrow>
     chain_outcome idle mx procs activity chain r"
proof (induction ms arbitrary: i attempts pre)
  case Nil
  then show ?case by (auto simp: chain_outcome_def)
next
  case (Cons m ms)
  obtain code err where one: "run_model_attempt idle mx (procs i) = Some (code, err)"
    using Cons.prems(1) by (auto split: option.splits)
  have i: "i < length chain" using Cons.prems(2,3) by auto
  define tr where "tr = inspect_transcript (activity i)"
  show ?case
  proof (cases "err \<noteq> Some AgentTimeout \<and> fell_back activity i \<and>
      \<not> (err = None \<and> code = 0 \<and> \<not> tr_semantic_failed tr \<and> \<not> tr_fallback_eligible tr)")
    case True
    then have "run_chain idle mx procs activity (Suc i) ms
        (attempts @ [(m, if tr_reason tr = [] then ''provider error'' else tr_reason tr)]) = Some r"
      using Cons.prems(1) one by (auto simp: fell_back_def tr_def Let_def split: if_splits)
    then show ?thesis
      using Cons.prems(2-) True by (elim Cons.IH [of _ _ "pre @ [m]"]) (auto simp: less_Suc_eq)
  next
    case False
    then show ?thesis
      using Cons.prems(1,4) one i model_attempt_error [OF one]
      by (auto simp: chain_outcome_def clean_transcript_def fell_back_def tr_def Let_def
          split: if_splits option.splits agent_err.splits intro!: exI [of _ i])
  qed
qed

text \<open>
  When a role has run: a result without an error is the result of one model of the chain, all
  models before it were given up because their transcript allows a fallback, and a success is an
  exit code 0 with a clean transcript; an exhausted chain lists every model in order with its
  reason.
\<close>

theorem run_role_outcome:
  "case (check_role cfg (rh_prompt_exists H) (rh_worktree_is_dir H), parse_model_chain (ro_model cfg),
         rh_prepare_error H, run_role H cfg procs activity) of
     (None, Inr chain, None, Some r) \<Rightarrow>
       chain_outcome (effective_idle_timeout cfg (rh_idle_var H))
         (effective_max_stall_retries cfg (rh_retries_var H)) procs activity chain r
   | _ \<Rightarrow> True"
  using run_chain_outcome [where i = 0 and pre = "[]" and attempts = "[]"]
  by (auto simp: run_role_def split: option.split sum.split)

text \<open>A process whose supervisor sees its end, a timeout at the latest.\<close>

definition is_final :: "wait_event \<Rightarrow> bool" where
  "is_final e \<longleftrightarrow> (case e of PollTick _ _ _ \<Rightarrow> False | _ \<Rightarrow> True)"

definition process_ends :: "pi_process \<Rightarrow> bool" where
  "process_ends p \<longleftrightarrow> (case p of Started _ evs \<Rightarrow> list_ex is_final evs | _ \<Rightarrow> True)"

lemma wait_returns: "list_ex is_final evs \<Longrightarrow> \<exists>r. wait_for_process idle w evs = Some r"
  by (induction evs arbitrary: w)
    (auto simp: is_final_def terminal_wait_result_def timeout_wait_result_def done_wait_result_def
      split: wait_event.splits prod.splits)

lemma started_returns:
  "process_ends p \<Longrightarrow> p = Started start evs \<Longrightarrow>
     \<exists>code reason err. wait_for_process idle w evs = Some (code, reason, err)"
  using wait_returns [of evs idle w] by (auto simp: process_ends_def)

lemma attempts_return: "(\<And>a. process_ends (procs a)) \<Longrightarrow> \<exists>r. stall_attempts idle procs a n = Some r"
proof (induction n arbitrary: a)
  case 0
  show ?case
  proof (cases "procs a")
    case (Started start evs)
    obtain code reason err where "wait_for_process idle (initial_wait start) evs = Some (code, reason, err)"
      using started_returns [OF 0 [of a] Started] by blast
    with Started show ?thesis by (simp add: stall_attempts.simps [of _ _ _ 0])
  qed (simp_all add: stall_attempts.simps [of _ _ _ 0])
next
  case (Suc n)
  show ?case
  proof (cases "procs a")
    case (Started start evs)
    obtain code reason err where "wait_for_process idle (initial_wait start) evs = Some (code, reason, err)"
      using started_returns [OF Suc.prems [of a] Started] by blast
    with Started Suc show ?thesis by (simp add: stall_attempts.simps [of _ _ _ "Suc n"])
  qed (simp_all add: stall_attempts.simps [of _ _ _ "Suc n"])
qed

lemma chain_returns: "(\<And>i a. process_ends (procs i a)) \<Longrightarrow> run_chain idle mx procs activity i ms attempts \<noteq> None"
proof (induction ms arbitrary: i attempts)
  case (Cons m ms)
  then have "\<exists>r. run_model_attempt idle mx (procs i) = Some r"
    using attempts_return [of "procs i"] by (auto simp: run_model_attempt_def)
  with Cons show ?case by (auto simp: Let_def split: option.splits prod.splits)
qed simp

text \<open>
  C22: A role returns a result when each of its processes ends, is told to end or times out: the
  retries after a stall and the models of the chain are finite.
\<close>

theorem run_role_returns:
  assumes "\<And>i a. process_ends (procs i a)"
  shows "\<exists>r. run_role H cfg procs activity = Some r"
  using chain_returns [OF assms] by (auto simp: run_role_def split: option.split sum.split)

definition sample_role :: role_cfg where
  "sample_role =
     \<lparr>ro_role = ''dev'', ro_system_prompt = ''p.md'', ro_user_prompt = ''go'', ro_worktree = ''/w'', ro_run_id = ''issue-1'',
      ro_event_log = ''/e'', ro_model = ''m1,m2'', ro_timeout = 1, ro_idle_timeout = 0, ro_tools = [''read''], ro_runs_dir = ''/r'',
      ro_round = 0, ro_attempt = 0, ro_turn = 0, ro_env = [], ro_poll_interval = 0, ro_max_stall_retries = None\<rparr>"

theorem run_role_returns_witness:
  "\<exists>r. run_role \<lparr>rh_prompt_exists = True, rh_worktree_is_dir = True, rh_prepare_error = None,
       rh_idle_var = [], rh_retries_var = []\<rparr> sample_role
     (\<lambda>i a. if i = 0 then Started 0 [PollTick 400000000000 None Killed, TimedOut Killed] else Started 0 [Exited ExitOk])
     (\<lambda>_. None) = Some r"
  by (rule run_role_returns) (simp add: process_ends_def is_final_def)

text \<open>The check that keeps transcripts inside the runs directory lets the parent directory pass.\<close>

lemma run_id_parent_passes:
  "check_role (cfg\<lparr>ro_run_id := ''..''\<rparr>) p w = check_role (cfg\<lparr>ro_run_id := ''issue-1''\<rparr>) p w"
  by (simp add: check_role_def path_base_def trim_right_def)

end
