(* ===== verification/Gm_Broker.thy ===== *)
theory Gm_Broker
  imports Dev Host
begin

text \<open>
  The GM broker (\<open>internal/gmbroker/broker.go\<close>), first part: its state for one agent invocation,
  the two terminal calls \<open>gm_dev_done\<close> and \<open>gm_review_submit\<close> with their gates, and what the
  runner asks the broker afterwards. A raw JSON message is its text; the empty text is Go's \<open>nil\<close>.
  The functions that tests inject are the ones the program uses.
\<close>

section \<open>The world around the broker\<close>

text \<open>
  Commands are calls of the \<^typ>\<open>env\<close> of the runner: the answer of \<open>exec\<close> to a command is its
  standard output, or the error of \<open>exec.Cmd\<close>. The other fields are what the broker gets from
  the operating system and from libraries besides: the verify command with its environment, the
  name of a new temporary file, the text of a JSON error and of a number that went through a
  \<open>float64\<close>, directories, and the CBM socket.
\<close>

datatype verify_end = VerifyExit string string int | VerifyError string

record check_cfg =
  cc_worktree :: string
  cc_command :: string
  cc_env :: "(string \<times> string) list"

record gm_host =
  gm_env :: env
  gm_os_env :: "string list"
  gm_verify :: "call list \<Rightarrow> check_cfg \<Rightarrow> string list \<Rightarrow> verify_end"
  gm_temp :: "call list \<Rightarrow> string \<Rightarrow> string"
  gm_json_error :: "string \<Rightarrow> string"
  gm_float_text :: "string \<Rightarrow> string"
  gm_dir :: "call list \<Rightarrow> string \<Rightarrow> (string \<times> bool) list result"
  gm_socket :: "call list \<Rightarrow> string \<Rightarrow> string \<Rightarrow> string result"

section \<open>State\<close>

record check_result =
  ck_ok :: bool
  ck_command :: string
  ck_exit :: int
  ck_output_file :: string
  ck_summary :: string
  ck_fingerprint :: string

record precheck_state =
  ps_ok :: bool
  ps_before :: string
  ps_after :: string

record reviewer_access =
  rt_worktree :: string
  rt_token :: string
  rt_repo_root :: string
  rt_pr :: int
  rt_precheck :: "precheck_state option"

record dev_params =
  dp_summary :: string
  dp_commit_msg :: string
  dp_pr_title :: string
  dp_pr_body :: string

text \<open>
  The bookkeeping of a terminal call: the call that holds or held the slot, its parameters, its
  stored answer, and whether it is still being handled.
\<close>

record terminal_slot =
  ts_call :: string
  ts_raw :: string
  ts_result :: string
  ts_pending :: bool

definition empty_slot :: terminal_slot where
  "empty_slot = \<lparr>ts_call = [], ts_raw = [], ts_result = [], ts_pending = False\<rparr>"

record gm_broker =
  gb_run_id :: string
  gb_invocation_id :: string
  gb_check_cfg :: check_cfg
  gb_tools :: "string list"
  gb_spec :: "string result option"
  gb_cbm_sock :: string
  gb_cbm_project :: string
  gb_schema :: "(string \<times> string list) list result option"
  gb_terminal :: string
  gb_last_check :: "check_result option"
  gb_dev_done :: "dev_params option"
  gb_gate_rejected :: bool
  gb_gate_msg :: string
  gb_fingerprint :: string
  gb_dev_slot :: terminal_slot
  gb_dev_status :: string
  gb_dev_message :: string
  gb_reviewer :: reviewer_access
  gb_pending_review :: string
  gb_review :: "review_params option"
  gb_review_rejected :: bool
  gb_review_msg :: string
  gb_review_slot :: terminal_slot
  gb_log_dir :: string

definition default_tools :: "string list" where
  "default_tools = [''gm_slice_get'', ''gm_dev_done'', ''gm_review_submit'', ''gm_review_submit_comment'']"

text \<open>The broker as \<open>StartWithFetcherAndProjectCheck\<close> returns it.\<close>

definition new_broker :: "check_cfg \<Rightarrow> string list \<Rightarrow> string \<Rightarrow> gm_broker" where
  "new_broker cfg tools log_dir =
     \<lparr>gb_run_id = [], gb_invocation_id = [], gb_check_cfg = cfg, gb_tools = tools, gb_spec = None,
      gb_cbm_sock = [], gb_cbm_project = [], gb_schema = None, gb_terminal = [], gb_last_check = None,
      gb_dev_done = None, gb_gate_rejected = False, gb_gate_msg = [], gb_fingerprint = [],
      gb_dev_slot = empty_slot, gb_dev_status = [], gb_dev_message = [],
      gb_reviewer = \<lparr>rt_worktree = [], rt_token = [], rt_repo_root = [], rt_pr = 0, rt_precheck = None\<rparr>,
      gb_pending_review = [], gb_review = None, gb_review_rejected = False, gb_review_msg = [],
      gb_review_slot = empty_slot, gb_log_dir = log_dir\<rparr>"

definition ConfigureCBM :: "string \<Rightarrow> string \<Rightarrow> gm_broker \<Rightarrow> gm_broker" where
  "ConfigureCBM sock project b = b\<lparr>gb_cbm_sock := sock, gb_cbm_project := project\<rparr>"

definition ConfigureProjectCheck :: "check_cfg \<Rightarrow> gm_broker \<Rightarrow> gm_broker" where
  "ConfigureProjectCheck cfg b = b\<lparr>gb_check_cfg := cfg\<rparr>"

definition SetReviewerConfig :: "reviewer_access \<Rightarrow> gm_broker \<Rightarrow> gm_broker" where
  "SetReviewerConfig cfg b = b\<lparr>gb_reviewer := cfg\<rparr>"

definition SetAllowedTools :: "string list \<Rightarrow> gm_broker \<Rightarrow> gm_broker" where
  "SetAllowedTools tools b = b\<lparr>gb_tools := tools\<rparr>"

definition SetInvocationIdentity :: "string \<Rightarrow> string \<Rightarrow> gm_broker \<Rightarrow> gm_broker" where
  "SetInvocationIdentity run invocation b = b\<lparr>gb_run_id := run, gb_invocation_id := invocation\<rparr>"

section \<open>Answers\<close>

definition err_result :: "string \<Rightarrow> string \<Rightarrow> string" where
  "err_result code message =
     json_text (JObj [(''code'', JStr code), (''message'', JStr message), (''ok'', JBool False)])"

definition accepted_result :: string where
  "accepted_result = json_text (JObj [(''accepted'', JBool True), (''ok'', JBool True)])"

definition parse_dev_done_terminal_result :: "string \<Rightarrow> string \<times> string" where
  "parse_dev_done_terminal_result result =
     (case unmarshal_into (\<lambda>j. case (get_bool ''ok'' j, get_str ''code'' j, get_str ''message'' j) of
             (Some ok, Some code, Some msg) \<Rightarrow> Some (ok, code, msg) | _ \<Rightarrow> None) result of
        None \<Rightarrow> ([], [])
      | Some (ok, code, msg) \<Rightarrow> if ok then (''OK'', []) else (code, msg))"

section \<open>Terminal slots\<close>

text \<open>
  \<open>reserveDevDoneTerminal\<close> and \<open>reserveReviewSubmitTerminal\<close> differ in the tool and in the fields;
  \<open>accepted\<close> is the terminal tool accepted before. \<open>None\<close>: the slot is reserved.
\<close>

definition reserve_slot ::
  "string \<Rightarrow> string \<Rightarrow> string \<Rightarrow> string \<Rightarrow> terminal_slot \<Rightarrow> string option \<times> terminal_slot" where
  "reserve_slot tool accepted call raw ts =
     (if accepted \<noteq> [] \<and> accepted \<noteq> tool
      then (Some (err_result ''PROTOCOL_ERROR''
              (tool @ '': terminal '' @ accepted @ '' already accepted in this invocation'')), ts)
      else if ts_result ts \<noteq> []
      then (if ts_call ts = call \<and> ts_raw ts = raw then (Some (ts_result ts), ts)
            else (Some (err_result ''PROTOCOL_ERROR''
                    (tool @ '': terminal '' @ tool @ '' already called in this invocation'')), ts))
      else if ts_pending ts
      then (Some (err_result ''PROTOCOL_ERROR'' (tool @ '': terminal '' @ tool @ '' already in progress'')), ts)
      else (None, ts\<lparr>ts_pending := True, ts_call := call, ts_raw := raw\<rparr>))"

definition finalize_slot :: "string \<Rightarrow> string \<Rightarrow> string \<Rightarrow> terminal_slot" where
  "finalize_slot call raw result = \<lparr>ts_call = call, ts_raw = raw, ts_result = result, ts_pending = False\<rparr>"

section \<open>gm_dev_done\<close>

definition compute_fingerprint :: "gm_host \<Rightarrow> string \<Rightarrow> string result M" where
  "compute_fingerprint G wt = fingerprint_compute (gm_env G) wt"

definition reserve_dev_done_terminal :: "string \<Rightarrow> string \<Rightarrow> gm_broker \<Rightarrow> string option \<times> gm_broker" where
  "reserve_dev_done_terminal call raw b =
     (case reserve_slot ''gm_dev_done'' (gb_terminal b) call raw (gb_dev_slot b) of
        (res, ts) \<Rightarrow> (res, b\<lparr>gb_dev_slot := ts\<rparr>))"

definition finalize_dev_done_terminal :: "string \<Rightarrow> string \<Rightarrow> string \<Rightarrow> gm_broker \<Rightarrow> gm_broker" where
  "finalize_dev_done_terminal call raw result b =
     (case parse_dev_done_terminal_result result of
        (status, msg) \<Rightarrow>
          b\<lparr>gb_dev_slot := finalize_slot call raw result, gb_dev_status := status, gb_dev_message := msg\<rparr>)"

definition dec_dev_params :: "json \<Rightarrow> dev_params option" where
  "dec_dev_params j =
     (case (get_str ''summary'' j, get_str ''commitMsg'' j, get_str ''prTitle'' j, get_str ''prBody'' j) of
        (Some s, Some c, Some t, Some b) \<Rightarrow>
          Some \<lparr>dp_summary = s, dp_commit_msg = c, dp_pr_title = t, dp_pr_body = b\<rparr>
      | _ \<Rightarrow> None)"

definition validate_dev_done_params :: "gm_host \<Rightarrow> string \<Rightarrow> string + dev_params" where
  "validate_dev_done_params G raw =
     (case unmarshal_into dec_dev_params raw of
        None \<Rightarrow> Inl (err_result ''SCHEMA_INVALID'' (''gm_dev_done: '' @ gm_json_error G raw))
      | Some p \<Rightarrow>
          if dp_summary p = [] then Inl (err_result ''SCHEMA_INVALID'' ''gm_dev_done: summary is required'')
          else if dp_commit_msg p = [] then Inl (err_result ''SCHEMA_INVALID'' ''gm_dev_done: commitMsg is required'')
          else if dp_pr_title p = [] then Inl (err_result ''SCHEMA_INVALID'' ''gm_dev_done: prTitle is required'')
          else if dp_pr_body p = [] then Inl (err_result ''SCHEMA_INVALID'' ''gm_dev_done: prBody is required'')
          else Inr p)"

definition reject_dev_done_gate :: "string \<Rightarrow> gm_broker \<Rightarrow> string \<times> gm_broker" where
  "reject_dev_done_gate msg b =
     (err_result ''DEV_GATE'' (''gm_dev_done: '' @ msg), b\<lparr>gb_gate_rejected := True, gb_gate_msg := msg\<rparr>)"

text \<open>The gate: the last check was green and the tree is the one it has seen.\<close>

definition check_dev_done_gate :: "gm_host \<Rightarrow> gm_broker \<Rightarrow> (string option \<times> gm_broker) M" where
  "check_dev_done_gate G b =
     (let reject = (\<lambda>msg. case reject_dev_done_gate msg b of (res, b') \<Rightarrow> ret (Some res, b')) in
      case gb_last_check b of
        None \<Rightarrow> reject ''no prior gm_project_check in this invocation''
      | Some ck \<Rightarrow>
          if \<not> ck_ok ck then reject ''last gm_project_check was not green''
          else handle (compute_fingerprint G (cc_worktree (gb_check_cfg b)))
            (\<lambda>e. reject (''failed to compute working-tree fingerprint: '' @ err_text e))
            (\<lambda>current.
               if current \<noteq> ck_fingerprint ck
               then reject ''working tree changed since last gm_project_check''
               else ret (None, b\<lparr>gb_fingerprint := current\<rparr>)))"

definition handle_dev_done :: "gm_host \<Rightarrow> string \<Rightarrow> string \<Rightarrow> gm_broker \<Rightarrow> (string \<times> gm_broker) M" where
  "handle_dev_done G call raw b =
     (case reserve_dev_done_terminal call raw b of
        (Some res, b1) \<Rightarrow> ret (res, b1)
      | (None, b1) \<Rightarrow>
          (case validate_dev_done_params G raw of
             Inl res \<Rightarrow> ret (res, finalize_dev_done_terminal call raw res b1)
           | Inr p \<Rightarrow>
               do {
                 gate \<leftarrow> check_dev_done_gate G b1;
                 ret (case gate of
                    (Some res, b2) \<Rightarrow> (res, finalize_dev_done_terminal call raw res b2)
                  | (None, b2) \<Rightarrow>
                      (accepted_result,
                       finalize_dev_done_terminal call raw accepted_result
                         (b2\<lparr>gb_dev_done := Some p, gb_terminal := ''gm_dev_done''\<rparr>)))
               }))"

section \<open>What the runner asks\<close>

definition dev_done_result :: "gm_broker \<Rightarrow> dev_params option" where
  "dev_done_result b = gb_dev_done b"

definition dev_done_terminal_result :: "gm_broker \<Rightarrow> (string \<times> string \<times> string) option" where
  "dev_done_terminal_result b =
     (if ts_result (gb_dev_slot b) = [] then None
      else Some (ts_result (gb_dev_slot b), gb_dev_status b, gb_dev_message b))"

definition dev_done_fingerprint :: "gm_broker \<Rightarrow> string option" where
  "dev_done_fingerprint b =
     (if gb_dev_done b = None \<or> gb_fingerprint b = [] then None else Some (gb_fingerprint b))"

definition current_fingerprint :: "gm_host \<Rightarrow> gm_broker \<Rightarrow> string option M" where
  "current_fingerprint G b =
     (if cc_worktree (gb_check_cfg b) = [] then ret None
      else handle (compute_fingerprint G (cc_worktree (gb_check_cfg b))) (\<lambda>_. ret None) (\<lambda>fp. ret (Some fp)))"

definition dev_done_gate_rejected :: "gm_broker \<Rightarrow> bool" where
  "dev_done_gate_rejected b = gb_gate_rejected b"

definition dev_done_terminal_status :: "gm_broker \<Rightarrow> string option" where
  "dev_done_terminal_status b = (if ts_result (gb_dev_slot b) = [] then None else Some (gb_dev_status b))"

definition dev_done_terminal_message :: "gm_broker \<Rightarrow> string option" where
  "dev_done_terminal_message b = (if ts_result (gb_dev_slot b) = [] then None else Some (gb_dev_message b))"

definition dev_done_gate_reason :: "gm_broker \<Rightarrow> string" where
  "dev_done_gate_reason b = gb_gate_msg b"

definition recovered_dev_done_params :: "gm_broker \<Rightarrow> dev_params option" where
  "recovered_dev_done_params b =
     (if \<not> gb_gate_rejected b \<or> ts_raw (gb_dev_slot b) = [] then None
      else (case unmarshal_into dec_dev_params (ts_raw (gb_dev_slot b)) of
              None \<Rightarrow> None
            | Some p \<Rightarrow>
                if dp_summary p = [] \<or> dp_commit_msg p = [] \<or> dp_pr_title p = [] \<or> dp_pr_body p = []
                then None else Some p))"

definition is_tree_green :: "gm_host \<Rightarrow> gm_broker \<Rightarrow> bool M" where
  "is_tree_green G b =
     (case gb_last_check b of
        None \<Rightarrow> ret False
      | Some ck \<Rightarrow>
          if \<not> ck_ok ck \<or> cc_worktree (gb_check_cfg b) = [] then ret False
          else handle (compute_fingerprint G (cc_worktree (gb_check_cfg b))) (\<lambda>_. ret False)
            (\<lambda>current. ret (current = ck_fingerprint ck)))"

definition last_check_output :: "gm_host \<Rightarrow> gm_broker \<Rightarrow> string M" where
  "last_check_output G b =
     (case gb_last_check b of
        None \<Rightarrow> ret []
      | Some ck \<Rightarrow>
          if ck_ok ck then ret []
          else if ck_output_file ck \<noteq> []
          then handle (read_entry (gm_env G) (ck_output_file ck)) (\<lambda>_. ret (ck_summary ck)) ret
          else ret (ck_summary ck))"

section \<open>gm_review_submit\<close>

definition reserve_review_submit_terminal :: "string \<Rightarrow> string \<Rightarrow> gm_broker \<Rightarrow> string option \<times> gm_broker" where
  "reserve_review_submit_terminal call raw b =
     (case reserve_slot ''gm_review_submit'' (gb_terminal b) call raw (gb_review_slot b) of
        (res, ts) \<Rightarrow> (res, b\<lparr>gb_review_slot := ts\<rparr>))"

definition release_review_submit_terminal :: "gm_broker \<Rightarrow> gm_broker" where
  "release_review_submit_terminal b =
     b\<lparr>gb_review_slot := (gb_review_slot b)\<lparr>ts_pending := False, ts_call := [], ts_raw := []\<rparr>\<rparr>"

definition finalize_review_submit_terminal :: "string \<Rightarrow> string \<Rightarrow> string \<Rightarrow> gm_broker \<Rightarrow> gm_broker" where
  "finalize_review_submit_terminal call raw result b = b\<lparr>gb_review_slot := finalize_slot call raw result\<rparr>"

definition dec_review_params :: "json \<Rightarrow> review_params option" where
  "dec_review_params j =
     (case (get_str ''verdict'' j, get_str ''confidence'' j, get_str ''body'' j) of
        (Some v, Some c, Some b) \<Rightarrow> Some \<lparr>rp_verdict = v, rp_body = b, rp_confidence = c\<rparr>
      | _ \<Rightarrow> None)"

definition validate_review_submit_params :: "gm_host \<Rightarrow> string \<Rightarrow> string + review_params" where
  "validate_review_submit_params G raw =
     (let invalid = (\<lambda>msg. Inl (err_result ''SCHEMA_INVALID'' (''gm_review_submit: '' @ msg))) in
      case unmarshal_into dec_review_params raw of
        None \<Rightarrow> invalid (gm_json_error G raw)
      | Some p \<Rightarrow>
          if rp_verdict p \<noteq> ''approved'' \<and> rp_verdict p \<noteq> ''changes_requested''
          then invalid ''verdict must be \"approved\" or \"changes_requested\"''
          else if rp_confidence p \<noteq> ''high'' \<and> rp_confidence p \<noteq> ''medium'' \<and> rp_confidence p \<noteq> ''low''
          then invalid ''confidence must be \"high\", \"medium\", or \"low\"''
          else if rp_body p = [] then invalid ''body is required''
          else Inr p)"

definition reject_reviewer_gate :: "string \<Rightarrow> gm_broker \<Rightarrow> string \<times> gm_broker" where
  "reject_reviewer_gate msg b =
     (err_result ''REVIEWER_GATE'' (''gm_review_submit: '' @ msg),
      b\<lparr>gb_review_rejected := True, gb_review_msg := msg\<rparr>)"

text \<open>The gate of an approval: a precheck that was ok and left the tree alone, and the same tree now.\<close>

definition check_reviewer_gate :: "gm_host \<Rightarrow> gm_broker \<Rightarrow> (string option \<times> gm_broker) M" where
  "check_reviewer_gate G b =
     (let reject = (\<lambda>msg. case reject_reviewer_gate msg b of (res, b') \<Rightarrow> ret (Some res, b')) in
      case rt_precheck (gb_reviewer b) of
        None \<Rightarrow> reject ''no precheck result for this invocation; run verify first''
      | Some pre \<Rightarrow>
          if \<not> ps_ok pre then reject ''precheck was not ok (verify failed or tree was mutated)''
          else if ps_before pre \<noteq> ps_after pre then reject ''precheck mutated the working tree''
          else if rt_worktree (gb_reviewer b) = [] then reject ''reviewer worktree path not configured''
          else handle (compute_fingerprint G (rt_worktree (gb_reviewer b)))
            (\<lambda>e. reject (''failed to compute current working-tree fingerprint: '' @ err_text e))
            (\<lambda>current.
               if current \<noteq> ps_after pre then reject ''working tree changed since precheck''
               else ret (None, b)))"

definition accept_review :: "string \<Rightarrow> string \<Rightarrow> review_params \<Rightarrow> gm_broker \<Rightarrow> string \<times> gm_broker" where
  "accept_review call raw p b =
     (accepted_result,
      finalize_review_submit_terminal call raw accepted_result
        (b\<lparr>gb_review := Some p, gb_terminal := ''gm_review_submit''\<rparr>))"

definition handle_review_submit :: "gm_host \<Rightarrow> string \<Rightarrow> string \<Rightarrow> gm_broker \<Rightarrow> (string \<times> gm_broker) M" where
  "handle_review_submit G call raw b =
     (case reserve_review_submit_terminal call raw b of
        (Some res, b1) \<Rightarrow> ret (res, b1)
      | (None, b1) \<Rightarrow>
          (case validate_review_submit_params G raw of
             Inl res \<Rightarrow> ret (res, release_review_submit_terminal b1)
           | Inr p \<Rightarrow>
               if rp_verdict p = ''approved''
               then do {
                 gate \<leftarrow> check_reviewer_gate G b1;
                 ret (case gate of
                    (Some res, b2) \<Rightarrow> (res, finalize_review_submit_terminal call raw res b2)
                  | (None, b2) \<Rightarrow> accept_review call raw p b2)
               }
               else ret (accept_review call raw p b1)))"

definition review_submit_result :: "gm_broker \<Rightarrow> review_params option" where
  "review_submit_result b = gb_review b"

definition review_submit_gate_rejected :: "gm_broker \<Rightarrow> bool" where
  "review_submit_gate_rejected b = gb_review_rejected b"

definition review_submit_gate_reason :: "gm_broker \<Rightarrow> string" where
  "review_submit_gate_reason b = gb_review_msg b"

definition pending_review_id :: "gm_broker \<Rightarrow> string" where
  "pending_review_id b = gb_pending_review b"

text \<open>\<open>captureReviewerBrokerState\<close> of the runner.\<close>

definition capture_reviewer_state :: "gm_broker \<Rightarrow> reviewer_state" where
  "capture_reviewer_state b =
     \<lparr>rv_params = review_submit_result b, rv_gate_rejected = review_submit_gate_rejected b,
      rv_gate_msg = review_submit_gate_reason b, rv_pending_id = pending_review_id b\<rparr>"

end
