(* ===== verification/Gm_Tools.thy ===== *)
theory Gm_Tools
  imports Gm_Broker
begin

text \<open>
  The GM broker (\<open>internal/gmbroker/broker.go\<close>), second part: the tools that are not terminal
  calls, the dispatch of a request and the connection it arrives on.
\<close>

section \<open>gm_slice_get\<close>

text \<open>\<open>fetchIssueMD\<close>, and the cache that \<open>sync.Once\<close> fills whether the call worked or not.\<close>

definition fetch_issue_md :: "gm_host \<Rightarrow> int \<Rightarrow> string \<Rightarrow> string result M" where
  "fetch_issue_md G n token =
     handle (run_with_token (gm_env G) token []
         [''gh'', ''issue'', ''view'', itoa n, ''--json'', ''body'', ''--jq'', ''.body''])
       (\<lambda>e. ret (Inl (wrap_err (''gh issue view '' @ itoa n @ '': '') e)))
       (\<lambda>out. ret (Inr (trim_space out)))"

definition handle_slice_get :: "string result M \<Rightarrow> gm_broker \<Rightarrow> (string \<times> gm_broker) M" where
  "handle_slice_get fetcher b =
     do {
       spec \<leftarrow> (case gb_spec b of Some r \<Rightarrow> ret r | None \<Rightarrow> fetcher);
       ret (case spec of
              Inl e \<Rightarrow> err_result ''FETCH_FAILED'' (err_text e)
            | Inr body \<Rightarrow> json_text (JObj [(''ok'', JBool True), (''spec'', JStr body)]),
            b\<lparr>gb_spec := Some spec\<rparr>)
     }"

section \<open>gm_project_check\<close>

definition cut_entry :: "string \<Rightarrow> (string \<times> string) option" where
  "cut_entry kv =
     (if CHR ''='' \<in> set kv
      then Some (takeWhile (\<lambda>c. c \<noteq> CHR ''='') kv, tl (dropWhile (\<lambda>c. c \<noteq> CHR ''='') kv))
      else None)"

text \<open>The loop body of \<open>mergeEnv\<close>: the keys in the order they were first seen, and their values.\<close>

definition set_var :: "string \<times> string \<Rightarrow> string list \<times> (string \<Rightarrow> string option) \<Rightarrow>
    string list \<times> (string \<Rightarrow> string option)" where
  "set_var kv acc =
     (case kv of (k, v) \<Rightarrow> (if snd acc k = None then fst acc @ [k] else fst acc, (snd acc)(k \<mapsto> v)))"

definition merge_env :: "string list \<Rightarrow> (string \<times> string) list \<Rightarrow> string list" where
  "merge_env base extra =
     (if extra = [] then base
      else (case fold set_var (List.map_filter cut_entry base @ extra) ([], Map.empty) of
              (order, vars) \<Rightarrow> map (\<lambda>k. k @ ''='' @ (case vars k of Some v \<Rightarrow> v | None \<Rightarrow> [])) order))"

definition summary_for_exit :: "int \<Rightarrow> string" where
  "summary_for_exit code =
     (if code = 0 then ''verify passed'' else ''verify failed (exit '' @ itoa code @ '')'')"

definition verify_call :: "check_cfg \<Rightarrow> verify_end \<Rightarrow> call" where
  "verify_call cfg r =
     CVerify (cc_worktree cfg) (cc_command cfg)
       (case r of VerifyExit out err code \<Rightarrow> (out, err, code) | VerifyError e \<Rightarrow> ([], e, -1))"

definition run_verify_command :: "gm_host \<Rightarrow> check_cfg \<Rightarrow> verify_end M" where
  "run_verify_command G cfg =
     call_env (\<lambda>t. gm_verify G t cfg (merge_env (gm_os_env G) (cc_env cfg))) (verify_call cfg)"

text \<open>A temporary file with its contents: its name, when it could be created and written.\<close>

definition write_temp :: "gm_host \<Rightarrow> string \<Rightarrow> string option M" where
  "write_temp G pattern =
     do {
       t \<leftarrow> get_trace;
       ok \<leftarrow> make_temp (gm_env G);
       ret (if ok then Some (gm_temp G t pattern) else None)
     }"

definition run_project_check :: "gm_host \<Rightarrow> check_cfg \<Rightarrow> string \<Rightarrow> check_result result M" where
  "run_project_check G cfg log_dir =
     do {
       r \<leftarrow> run_verify_command G cfg;
       handle (compute_fingerprint G (cc_worktree cfg)) (\<lambda>e. ret (Inl e)) (\<lambda>fp.
       (case r of
          VerifyError e \<Rightarrow> ret (Inl (msg_err (''run verify command: '' @ e)))
        | VerifyExit out err code \<Rightarrow>
            do {
              file \<leftarrow> write_temp G (path_join [log_dir, ''project-check-*.log'']);
              ret (case file of
                     None \<Rightarrow> Inl (msg_err ''write project-check log: '')
                   | Some name \<Rightarrow>
                       Inr \<lparr>ck_ok = (code = 0), ck_command = cc_command cfg, ck_exit = code, ck_output_file = name,
                            ck_summary = summary_for_exit code, ck_fingerprint = fp\<rparr>)
            }))
     }"

text \<open>
  The configuration with \<open>GOLEMIC_ISSUE_BODY_FILE\<close> when the issue body is known and could be
  written to a file, and that file.
\<close>

definition cached_body :: "gm_broker \<Rightarrow> string" where
  "cached_body b = (case gb_spec b of Some (Inr body) \<Rightarrow> body | _ \<Rightarrow> [])"

definition project_check_with_issue_body :: "gm_host \<Rightarrow> gm_broker \<Rightarrow> (check_cfg \<times> string option) M" where
  "project_check_with_issue_body G b =
     (let cfg = gb_check_cfg b in
      if cached_body b = [] then ret (cfg, None)
      else do {
        file \<leftarrow> write_temp G ''golemic-issue-body-*.txt'';
        ret (case file of
               None \<Rightarrow> (cfg, None)
             | Some name \<Rightarrow>
                 (cfg\<lparr>cc_env := filter (\<lambda>kv. fst kv \<noteq> ''GOLEMIC_ISSUE_BODY_FILE'') (cc_env cfg) @
                      [(''GOLEMIC_ISSUE_BODY_FILE'', name)]\<rparr>, Some name))
      })"

definition check_result_json :: "check_result \<Rightarrow> json" where
  "check_result_json ck =
     JObj [(''ok'', JBool (ck_ok ck)), (''command'', JStr (ck_command ck)), (''exitCode'', jint (ck_exit ck)),
       (''outputFile'', JStr (ck_output_file ck)), (''summary'', JStr (ck_summary ck)),
       (''workingTreeFingerprint'', JStr (ck_fingerprint ck))]"

definition handle_project_check :: "gm_host \<Rightarrow> gm_broker \<Rightarrow> (string \<times> gm_broker) M" where
  "handle_project_check G b =
     (if cc_worktree (gb_check_cfg b) = [] \<or> cc_command (gb_check_cfg b) = []
      then ret (err_result ''PROJECT_CHECK_NOT_AVAILABLE'' ''gm_project_check is not configured for this broker'', b)
      else do {
        (cfg, body_file) \<leftarrow> project_check_with_issue_body G b;
        r \<leftarrow> run_project_check G cfg (gb_log_dir b);
        _ \<leftarrow> (case body_file of None \<Rightarrow> ret True | Some name \<Rightarrow> remove_all (gm_env G) name);
        ret (case r of
               Inl e \<Rightarrow> (err_result ''PROJECT_CHECK_FAILED'' (err_text e), b)
             | Inr ck \<Rightarrow> (json_text (check_result_json ck), b\<lparr>gb_last_check := Some ck\<rparr>))
      })"

section \<open>gm_pr_view\<close>

definition run_gh_with_env :: "gm_host \<Rightarrow> string \<Rightarrow> string \<Rightarrow> string list \<Rightarrow> string result M" where
  "run_gh_with_env G token dir args =
     handle (run_with_token (gm_env G) token dir (''gh'' # args))
       (\<lambda>e. ret (Inl (wrap_err (''gh '' @ join_with '' '' args @ '': '') e)))
       (\<lambda>out. ret (Inr out))"

text \<open>A raw message in a marshalled value: \<open>nil\<close> is null, and invalid JSON makes \<open>Marshal\<close> fail.\<close>

definition raw_json :: "string \<Rightarrow> json option" where
  "raw_json raw = (if raw = [] then Some JNull else unmarshal raw)"

definition pr_view_result :: "string \<Rightarrow> string \<Rightarrow> string \<Rightarrow> string" where
  "pr_view_result meta diff files =
     (case raw_json meta of
        None \<Rightarrow> []
      | Some pr \<Rightarrow>
          json_text (JObj [(''ok'', JBool True), (''pr'', pr), (''diff'', JStr diff),
            (''changedFiles'', (case unmarshal files of None \<Rightarrow> JArr [] | Some f \<Rightarrow> f))]))"

definition fetch_pr_view :: "gm_host \<Rightarrow> reviewer_access \<Rightarrow> string result M" where
  "fetch_pr_view G cfg =
     (let n = itoa (rt_pr cfg); gh = run_gh_with_env G (rt_token cfg) (rt_repo_root cfg) in
      handle (gh [''pr'', ''view'', n, ''--json'',
          ''number,title,state,body,author,createdAt,updatedAt,headRefName,baseRefName''])
        (\<lambda>e. ret (Inl (wrap_err ''gh pr view: '' e))) (\<lambda>meta.
      handle (gh [''pr'', ''diff'', n])
        (\<lambda>e. ret (Inl (wrap_err ''gh pr diff: '' e))) (\<lambda>diff.
      handle (gh [''pr'', ''view'', n, ''--json'', ''files'', ''--jq'', ''.files''])
        (\<lambda>e. ret (Inl (wrap_err ''gh pr view files: '' e))) (\<lambda>files.
      ret (Inr (pr_view_result meta diff files))))))"

definition handle_pr_view :: "gm_host \<Rightarrow> gm_broker \<Rightarrow> string M" where
  "handle_pr_view G b =
     (if rt_token (gb_reviewer b) = [] \<or> rt_pr (gb_reviewer b) = 0
      then ret (err_result ''NOT_CONFIGURED'' ''gm_pr_view is not configured for this broker'')
      else handle (fetch_pr_view G (gb_reviewer b))
        (\<lambda>e. ret (err_result ''FETCH_FAILED'' (err_text e))) ret)"

section \<open>gm_repo_tree\<close>

text \<open>\<open>filepath.Join\<close> of two components: the empty ones are left out, the result is clean.\<close>

definition join_two :: "string \<Rightarrow> string \<Rightarrow> string" where
  "join_two a c =
     (if a = [] then (if c = [] then [] else path_clean c)
      else if c = [] then path_clean a else path_clean (a @ ''/'' @ c))"

definition resolve_worktree_path :: "string \<Rightarrow> string \<Rightarrow> string option" where
  "resolve_worktree_path root rel =
     (let abs_clean = path_clean (join_two root rel); root_clean = path_clean root in
      if abs_clean \<noteq> root_clean \<and> \<not> has_prefix (root_clean @ ''/'') (abs_clean @ ''/'') then None
      else Some abs_clean)"

definition build_tree_entries :: "(string \<times> bool) list \<Rightarrow> json" where
  "build_tree_entries es =
     JArr (map (\<lambda>e. JObj [(''name'', JStr (fst e)), (''type'', JStr (if snd e then ''dir'' else ''file''))]) es)"

definition dec_tree_path :: "json \<Rightarrow> string option option" where
  "dec_tree_path = get_field (dec_ptr dec_str []) None ''path''"

definition read_dir :: "gm_host \<Rightarrow> string \<Rightarrow> (string \<times> bool) list result M" where
  "read_dir G path = call_env (\<lambda>t. gm_dir G t path) (\<lambda>r. CStat path (\<not> is_error r))"

definition handle_repo_tree :: "gm_host \<Rightarrow> string \<Rightarrow> gm_broker \<Rightarrow> string M" where
  "handle_repo_tree G raw b =
     (let root = rt_worktree (gb_reviewer b) in
      if root = [] then ret (err_result ''NOT_CONFIGURED'' ''gm_repo_tree is not configured for this broker'')
      else (case unmarshal_into dec_tree_path raw of
          None \<Rightarrow> ret (err_result ''SCHEMA_INVALID'' (''gm_repo_tree: '' @ gm_json_error G raw))
        | Some p \<Rightarrow>
            let rel = (case p of Some q \<Rightarrow> if q \<noteq> [] then q else ''.'' | None \<Rightarrow> ''.'') in
            (case resolve_worktree_path root rel of
               None \<Rightarrow> ret (err_result ''PATH_OUTSIDE_WORKTREE'' ''path escapes the worktree root'')
             | Some path \<Rightarrow>
                 handle (read_dir G path)
                   (\<lambda>e. ret (if err_kind e = KNotExist
                             then err_result ''NOT_FOUND'' (''path not found: '' @ rel)
                             else err_result ''READ_FAILED'' (err_text e)))
                   (\<lambda>es. ret (json_text (JObj [(''entries'', build_tree_entries es), (''ok'', JBool True),
                      (''path'', JStr (if rel = ''.'' then ''/'' else rel))]))))))"

section \<open>gm_review_submit_comment\<close>

record comment_params =
  cp_path :: string
  cp_line :: int
  cp_body :: string
  cp_severity :: string

definition dec_comment_params :: "json \<Rightarrow> comment_params option" where
  "dec_comment_params j =
     (case (get_str ''path'' j, get_int ''line'' j, get_str ''body'' j, get_str ''severity'' j) of
        (Some p, Some l, Some b, Some v) \<Rightarrow> Some \<lparr>cp_path = p, cp_line = l, cp_body = b, cp_severity = v\<rparr>
      | _ \<Rightarrow> None)"

definition validate_review_submit_comment_params :: "gm_host \<Rightarrow> string \<Rightarrow> string + comment_params" where
  "validate_review_submit_comment_params G raw =
     (let invalid = (\<lambda>msg. Inl (err_result ''SCHEMA_INVALID'' (''gm_review_submit_comment: '' @ msg))) in
      case unmarshal_into dec_comment_params raw of
        None \<Rightarrow> invalid (gm_json_error G raw)
      | Some p \<Rightarrow>
          if cp_path p = [] then invalid ''path is required''
          else if cp_line p = 0 then invalid ''line is required''
          else if cp_body p = [] then invalid ''body is required''
          else Inr p)"

definition graphqlDiscoverOrCreateReview :: string where
  "graphqlDiscoverOrCreateReview =
     ''query($owner:String!,$name:String!,$prNumber:Int!){viewer{login}repository(owner:$owner,name:$name){pullRequest(number:$prNumber){id reviews(first:10,states:[PENDING]){nodes{id author{login}}}}}}''"

definition graphqlCreatePendingReview :: string where
  "graphqlCreatePendingReview =
     ''mutation($prId:ID!){addPullRequestReview(input:{pullRequestId:$prId}){pullRequestReview{id}}}''"

definition graphqlAddReviewThreadBroker :: string where
  "graphqlAddReviewThreadBroker =
     ''mutation($reviewId:ID!,$path:String!,$line:Int!,$side:DiffSide!,$body:String!){addPullRequestReviewThread(input:{pullRequestReviewId:$reviewId,path:$path,line:$line,side:$side,body:$body}){thread{id}}}''"

text \<open>The owner and the name of the repository; empty when \<open>gh\<close> fails.\<close>

definition repo_owner_name :: "gm_host \<Rightarrow> reviewer_access \<Rightarrow> (string \<times> string) M" where
  "repo_owner_name G cfg =
     handle (run_gh_with_env G (rt_token cfg) (rt_repo_root cfg) [''repo'', ''view'', ''--json'', ''owner,name''])
       (\<lambda>_. ret ([], []))
       (\<lambda>out. ret (case unmarshal_into (\<lambda>j. case (get_struct (get_str ''login'') ''owner'' j, get_str ''name'' j) of
                 (Some w, Some n) \<Rightarrow> Some (w, n) | _ \<Rightarrow> None) out of
            None \<Rightarrow> ([], []) | Some r \<Rightarrow> r))"

text \<open>The login of the viewer, the id of the PR, and the id and author of each pending review.\<close>

definition dec_discover :: "json \<Rightarrow> (string \<times> string \<times> (string \<times> string) list) option" where
  "dec_discover =
     get_struct (\<lambda>data.
       case (get_struct (get_str ''login'') ''viewer'' data,
             get_struct (get_struct (\<lambda>pr.
               case (get_str ''id'' pr,
                     get_struct (get_list (\<lambda>nd.
                       case (get_str ''id'' nd, get_struct (get_str ''login'') ''author'' nd) of
                         (Some i, Some a) \<Rightarrow> Some (i, a) | _ \<Rightarrow> None) ''nodes'') ''reviews'' pr) of
                 (Some i, Some ns) \<Rightarrow> Some (i, ns) | _ \<Rightarrow> None) ''pullRequest'') ''repository'' data) of
         (Some viewer, Some (i, ns)) \<Rightarrow> Some (viewer, i, ns) | _ \<Rightarrow> None) ''data''"

definition create_pending_review :: "gm_host \<Rightarrow> reviewer_access \<Rightarrow> string \<Rightarrow> string result M" where
  "create_pending_review G cfg pr_id =
     handle (run_gh_with_env G (rt_token cfg) (rt_repo_root cfg)
         [''api'', ''graphql'', ''-f'', ''query='' @ graphqlCreatePendingReview, ''-f'', ''prId='' @ pr_id])
       (\<lambda>e. ret (Inl (wrap_err ''create pending review: '' e)))
       (\<lambda>out. ret
          (case unmarshal_into (get_struct (get_struct (get_struct (get_str ''id'') ''pullRequestReview'')
                 ''addPullRequestReview'') ''data'') out of
             None \<Rightarrow> Inl (msg_err (''parse create review response: '' @ gm_json_error G out))
           | Some i \<Rightarrow> if i = [] then Inl (msg_err ''create pending review returned empty id'') else Inr i))"

definition get_or_create_pending_review :: "gm_host \<Rightarrow> reviewer_access \<Rightarrow> string result M" where
  "get_or_create_pending_review G cfg =
     do {
       (owner, _) \<leftarrow> repo_owner_name G cfg;
       (_, name) \<leftarrow> repo_owner_name G cfg;
       handle (run_gh_with_env G (rt_token cfg) (rt_repo_root cfg)
           [''api'', ''graphql'', ''-f'', ''query='' @ graphqlDiscoverOrCreateReview, ''-f'', ''owner='' @ owner,
            ''-f'', ''name='' @ name, ''-F'', ''prNumber='' @ itoa (rt_pr cfg)])
         (\<lambda>e. ret (Inl (wrap_err ''discover pending review: '' e)))
         (\<lambda>out. case unmarshal_into dec_discover out of
              None \<Rightarrow> ret (Inl (msg_err (''parse discover response: '' @ gm_json_error G out)))
            | Some (viewer, pr_id, nodes) \<Rightarrow>
                if pr_id = [] then ret (Inl (msg_err (''PR #'' @ itoa (rt_pr cfg) @ '' not found'')))
                else (case find (\<lambda>nd. snd nd = viewer) nodes of
                        Some nd \<Rightarrow> ret (Inr (fst nd))
                      | None \<Rightarrow> create_pending_review G cfg pr_id))
     }"

definition ensure_pending_review :: "gm_host \<Rightarrow> gm_broker \<Rightarrow> ((string + string) \<times> gm_broker) M" where
  "ensure_pending_review G b =
     (if gb_pending_review b \<noteq> [] then ret (Inr (gb_pending_review b), b)
      else handle (get_or_create_pending_review G (gb_reviewer b))
        (\<lambda>e. ret (Inl (err_result ''GITHUB_ERROR'' (''gm_review_submit_comment: '' @ err_text e)), b))
        (\<lambda>i. ret (Inr i, b\<lparr>gb_pending_review := i\<rparr>)))"

definition is_review_anchor_error :: "string \<Rightarrow> bool" where
  "is_review_anchor_error msg \<longleftrightarrow>
     contains_sub ''part of the diff'' (to_lower msg) \<or>
     contains_sub ''pull request review thread'' (to_lower msg) \<or>
     contains_sub ''not part of'' (to_lower msg)"

text \<open>What adding a comment comes to: a thread, a line outside the diff, or an error.\<close>

datatype comment_outcome = ThreadAdded string | AnchorInvalid | CommentFailed gerr

definition add_comment_args :: "string \<Rightarrow> comment_params \<Rightarrow> string list" where
  "add_comment_args review p =
     [''api'', ''graphql'', ''-f'', ''query='' @ graphqlAddReviewThreadBroker, ''-f'', ''reviewId='' @ review,
      ''-f'', ''path='' @ cp_path p, ''-F'', ''line='' @ itoa (cp_line p), ''-f'', ''side=RIGHT'',
      ''-f'', ''body='' @ cp_body p]"

text \<open>The id of the new thread and the messages of the errors.\<close>

definition dec_thread :: "json \<Rightarrow> (string \<times> string list) option" where
  "dec_thread j =
     (case (get_struct (get_struct (get_struct (get_str ''id'') ''thread'') ''addPullRequestReviewThread'') ''data'' j,
            get_list (get_str ''message'') ''errors'' j) of
        (Some i, Some es) \<Rightarrow> Some (i, es) | _ \<Rightarrow> None)"

definition thread_outcome :: "gm_host \<Rightarrow> string \<Rightarrow> comment_outcome" where
  "thread_outcome G out =
     (case unmarshal_into dec_thread out of
        None \<Rightarrow> CommentFailed (msg_err (''parse add thread response: '' @ gm_json_error G out))
      | Some (i, []) \<Rightarrow> ThreadAdded i
      | Some (i, m # ms) \<Rightarrow>
          if is_review_anchor_error m then AnchorInvalid
          else CommentFailed (msg_err (''add review thread: '' @ m)))"

text \<open>\<open>runGHWithEnv\<close> returns no output with an error: the error text is all that is looked at.\<close>

definition add_review_comment :: "gm_host \<Rightarrow> reviewer_access \<Rightarrow> string \<Rightarrow> comment_params \<Rightarrow> comment_outcome M" where
  "add_review_comment G cfg review p =
     handle (run_gh_with_env G (rt_token cfg) (rt_repo_root cfg) (add_comment_args review p))
       (\<lambda>e. ret (if is_review_anchor_error (err_text e @ []) then AnchorInvalid
                 else CommentFailed (wrap_err ''add review thread: '' e)))
       (\<lambda>out. ret (thread_outcome G out))"

definition add_inline_comment :: "gm_host \<Rightarrow> string \<Rightarrow> comment_params \<Rightarrow> gm_broker \<Rightarrow> string M" where
  "add_inline_comment G review p b =
     do {
       r \<leftarrow> add_review_comment G (gb_reviewer b) review p;
       ret (case r of
          CommentFailed e \<Rightarrow> err_result ''GITHUB_ERROR'' (''gm_review_submit_comment: '' @ err_text e)
        | AnchorInvalid \<Rightarrow>
            json_text (JObj [(''code'', JStr ''ANCHOR_INVALID''), (''line'', jint (cp_line p)),
              (''message'', JStr ''line is not commentable in the current PR diff''), (''ok'', JBool False),
              (''path'', JStr (cp_path p))])
        | ThreadAdded i \<Rightarrow>
            json_text (JObj [(''commentId'', JStr i), (''ok'', JBool True), (''threadId'', JStr i)]))
     }"

definition reject_comment_after_terminal :: "gm_broker \<Rightarrow> string option" where
  "reject_comment_after_terminal b =
     (if gb_review b = None then None
      else Some (err_result ''PROTOCOL_ERROR''
             ''gm_review_submit_comment: terminal gm_review_submit already accepted in this invocation''))"

definition handle_review_submit_comment :: "gm_host \<Rightarrow> string \<Rightarrow> gm_broker \<Rightarrow> (string \<times> gm_broker) M" where
  "handle_review_submit_comment G raw b =
     (case reject_comment_after_terminal b of
        Some res \<Rightarrow> ret (res, b)
      | None \<Rightarrow>
          (case validate_review_submit_comment_params G raw of
             Inl res \<Rightarrow> ret (res, b)
           | Inr p \<Rightarrow>
               do {
                 (review, b1) \<leftarrow> ensure_pending_review G b;
                 (case review of
                    Inl res \<Rightarrow> ret (res, b1)
                  | Inr i \<Rightarrow> do { res \<leftarrow> add_inline_comment G i p b1; ret (res, b1) })
               }))"

end
