(* ===== verification/Gm_Dispatch.thy ===== *)
theory Gm_Dispatch
  imports Gm_Tools
begin

text \<open>
  The GM broker (\<open>internal/gmbroker/broker.go\<close>), third part: the \<open>gm_code\<close> tools that are passed on
  to the CBM broker, the dispatch of a request, the connection it arrives on, and a broker that
  serves requests one after another.
\<close>

section \<open>Objects as maps\<close>

text \<open>
  A decoded \<open>map\<close> keeps the last value of a repeated key; \<open>Marshal\<close> writes a map sorted by key.
\<close>

definition last_values :: "(string \<times> 'a) list \<Rightarrow> (string \<times> 'a) list" where
  "last_values kvs = map (\<lambda>k. (k, the (map_of (rev kvs) k))) (remdups (map fst kvs))"

definition sorted_object :: "(string \<times> json) list \<Rightarrow> json" where
  "sorted_object kvs =
     JObj (map (\<lambda>k. (k, the (map_of (rev kvs) k))) (sort_strings (remdups (map fst kvs))))"

text \<open>A value that went through \<open>interface{}\<close>: numbers as \<open>float64\<close>, objects as maps.\<close>

fun through_interface :: "gm_host \<Rightarrow> json \<Rightarrow> json" where
  "through_interface G JNull = JNull"
| "through_interface G (JBool b) = JBool b"
| "through_interface G (JNum t) = JNum (gm_float_text G t)"
| "through_interface G (JStr s) = JStr s"
| "through_interface G (JArr xs) = JArr (map (through_interface G) xs)"
| "through_interface G (JObj kvs) = sorted_object (map (\<lambda>kv. (fst kv, through_interface G (snd kv))) kvs)"

section \<open>The tools of the CBM broker\<close>

definition cbmToolNameMap :: "(string \<times> string) list" where
  "cbmToolNameMap =
     [(''gm_code_search'', ''search_code''), (''gm_code_search_graph'', ''search_graph''),
      (''gm_code_query_graph'', ''query_graph''), (''gm_code_trace_call_path'', ''trace_call_path''),
      (''gm_code_get_architecture'', ''get_architecture''), (''gm_code_get_graph_schema'', ''get_graph_schema''),
      (''gm_code_get_snippet'', ''get_code_snippet''), (''gm_code_detect_changes'', ''detect_changes'')]"

text \<open>One line to the socket and one line back.\<close>

definition socket_call :: "gm_host \<Rightarrow> string \<Rightarrow> string \<Rightarrow> string result M" where
  "socket_call G sock request = call_env (\<lambda>t. gm_socket G t sock request) (CExec (Cmd [] sock [request]))"

definition tools_list_request :: string where
  "tools_list_request =
     json_text (JObj [(''id'', jint 1), (''jsonrpc'', JStr ''2.0''), (''method'', JStr ''tools/list'')]) @ [newline]"

definition dec_properties :: "json \<Rightarrow> string list option" where
  "dec_properties j = (case j of JObj kvs \<Rightarrow> Some (map fst kvs) | JNull \<Rightarrow> Some [] | _ \<Rightarrow> None)"

definition dec_error_message :: "json \<Rightarrow> string option option" where
  "dec_error_message = get_field (dec_ptr (\<lambda>_ e. get_str ''message'' e) []) None ''error''"

definition dec_tools_list :: "json \<Rightarrow> ((string \<times> string list) list \<times> string option) option" where
  "dec_tools_list j =
     (case (get_struct (get_list (\<lambda>t.
              case (get_str ''name'' t, get_struct (get_struct dec_properties ''properties'') ''inputSchema'' t) of
                (Some n, Some ps) \<Rightarrow> Some (n, ps) | _ \<Rightarrow> None) ''tools'') ''result'' j,
            dec_error_message j) of
        (Some tools, Some err) \<Rightarrow> Some (tools, err)
      | _ \<Rightarrow> None)"

definition fetch_cbm_schema_from_socket :: "gm_host \<Rightarrow> string \<Rightarrow> (string \<times> string list) list result M" where
  "fetch_cbm_schema_from_socket G sock =
     handle (socket_call G sock tools_list_request)
       (\<lambda>e. ret (Inl e))
       (\<lambda>line. ret
          (case unmarshal_into dec_tools_list line of
             None \<Rightarrow> Inl (msg_err (''parse tools/list: '' @ gm_json_error G line))
           | Some (tools, Some m) \<Rightarrow> Inl (msg_err (''tools/list error: '' @ m))
           | Some (tools, None) \<Rightarrow> Inr (last_values tools)))"

definition get_cbm_schema :: "gm_host \<Rightarrow> string \<Rightarrow> gm_broker \<Rightarrow> ((string \<times> string list) list result \<times> gm_broker) M" where
  "get_cbm_schema G sock b =
     do {
       schema \<leftarrow> (case gb_schema b of Some r \<Rightarrow> ret r | None \<Rightarrow> fetch_cbm_schema_from_socket G sock);
       ret (schema, b\<lparr>gb_schema := Some schema\<rparr>)
     }"

text \<open>Go picks any of the unknown arguments, the model the first.\<close>

definition validate_args_against_schema ::
  "gm_host \<Rightarrow> string \<Rightarrow> string \<Rightarrow> (string \<times> json) list \<Rightarrow> gm_broker \<Rightarrow> (string option \<times> gm_broker) M" where
  "validate_args_against_schema G sub sock args b =
     do {
       (schema, b1) \<leftarrow> get_cbm_schema G sock b;
       ret (case schema of
              Inl _ \<Rightarrow> None
            | Inr tools \<Rightarrow>
                (case map_of tools sub of
                   None \<Rightarrow> None
                 | Some allowed \<Rightarrow>
                     (case find (\<lambda>kv. fst kv \<notin> set allowed) args of
                        None \<Rightarrow> None
                      | Some kv \<Rightarrow> Some (err_result ''SCHEMA_INVALID''
                          (''gm_code: unknown argument '' @ [CHR 0x22] @ fst kv @ [CHR 0x22] @ '' for '' @ sub)))), b1)
     }"

text \<open>The arguments of the call, without an entry for the project.\<close>

definition dec_args :: "json \<Rightarrow> (string \<times> json) list option" where
  "dec_args j = (case j of JObj kvs \<Rightarrow> Some (last_values kvs) | JNull \<Rightarrow> Some [] | _ \<Rightarrow> None)"

definition parse_and_validate_code_args ::
  "gm_host \<Rightarrow> string \<Rightarrow> string \<Rightarrow> string \<Rightarrow> gm_broker \<Rightarrow> ((string + (string \<times> json) list) \<times> gm_broker) M" where
  "parse_and_validate_code_args G sub sock raw b =
     (case (if raw = [] then Some [] else unmarshal_into dec_args raw) of
        None \<Rightarrow> ret (Inl (err_result ''SCHEMA_INVALID'' (''gm_code: invalid params: '' @ gm_json_error G raw)), b)
      | Some args \<Rightarrow>
          if map_of args ''project'' \<noteq> None
          then ret (Inl (err_result ''SCHEMA_INVALID''
                  (''gm_code: '' @ [CHR 0x27] @ ''project'' @ [CHR 0x27] @
                   '' must not be supplied by caller (injected automatically)'')), b)
          else do {
            (invalid, b1) \<leftarrow> validate_args_against_schema G sub sock args b;
            ret (case invalid of Some res \<Rightarrow> Inl res | None \<Rightarrow> Inr args, b1)
          })"

definition decode_raw_args :: "gm_host \<Rightarrow> (string \<times> json) list \<Rightarrow> (string \<times> json) list" where
  "decode_raw_args G args = map (\<lambda>kv. (fst kv, through_interface G (snd kv))) args"

definition cbm_marshal_request :: "string \<Rightarrow> (string \<times> json) list \<Rightarrow> string" where
  "cbm_marshal_request tool args =
     json_text (JObj [(''id'', jint 1), (''jsonrpc'', JStr ''2.0''), (''method'', JStr ''tools/call''),
       (''params'', JObj [(''arguments'', sorted_object args), (''name'', JStr tool)])]) @ [newline]"

text \<open>The texts of the result and whether it is an error, when there is a result; the error.\<close>

definition dec_cbm_result :: "json \<Rightarrow> (string list \<times> bool) option" where
  "dec_cbm_result r =
     (case (get_list (\<lambda>c. case (get_str ''type'' c, get_str ''text'' c) of
               (Some _, Some t) \<Rightarrow> Some t | _ \<Rightarrow> None) ''content'' r, get_bool ''isError'' r) of
        (Some ts, Some e) \<Rightarrow> Some (ts, e)
      | _ \<Rightarrow> None)"

definition dec_cbm_response :: "json \<Rightarrow> ((string list \<times> bool) option \<times> string option) option" where
  "dec_cbm_response j =
     (case (get_field (dec_ptr (\<lambda>_. dec_cbm_result) ([], False)) None ''result'' j, dec_error_message j) of
        (Some r, Some e) \<Rightarrow> Some (r, e)
      | _ \<Rightarrow> None)"

definition cbm_read_response :: "gm_host \<Rightarrow> string \<Rightarrow> (string list \<times> bool) result" where
  "cbm_read_response G line =
     (case unmarshal_into dec_cbm_response line of
        None \<Rightarrow> Inl (msg_err (''parse response: '' @ gm_json_error G line))
      | Some (_, Some m) \<Rightarrow> Inl (msg_err (''CBM broker error: '' @ m))
      | Some (None, None) \<Rightarrow> Inl (msg_err ''empty CBM response'')
      | Some (Some (texts, is_err), None) \<Rightarrow> Inr (filter (\<lambda>t. t \<noteq> []) texts, is_err))"

definition cbm_proxy_call :: "gm_host \<Rightarrow> string \<Rightarrow> string \<Rightarrow> (string \<times> json) list \<Rightarrow> (string list \<times> bool) result M" where
  "cbm_proxy_call G sock tool args =
     handle (socket_call G sock (cbm_marshal_request tool args))
       (\<lambda>e. ret (Inl e)) (\<lambda>line. ret (cbm_read_response G line))"

definition handle_code_tool :: "gm_host \<Rightarrow> string \<Rightarrow> string \<Rightarrow> gm_broker \<Rightarrow> (string \<times> gm_broker) M" where
  "handle_code_tool G sub raw b =
     (if gb_cbm_sock b = []
      then ret (err_result ''CBM_NOT_AVAILABLE'' ''gm_code: codebase memory not configured for this invocation'', b)
      else do {
        (args, b1) \<leftarrow> parse_and_validate_code_args G sub (gb_cbm_sock b) raw b;
        (case args of
           Inl res \<Rightarrow> ret (res, b1)
         | Inr kvs \<Rightarrow>
             do {
               r \<leftarrow> cbm_proxy_call G (gb_cbm_sock b) sub
                 (decode_raw_args G (kvs @ [(''project'', JStr (gb_cbm_project b))]));
               ret (case r of
                      Inl e \<Rightarrow> err_result ''CBM_CALL_FAILED'' (''gm_code: '' @ err_text e)
                    | Inr (texts, is_err) \<Rightarrow>
                        if is_err then err_result ''CBM_TOOL_ERROR'' (''gm_code: '' @ concat texts)
                        else json_text (JObj [(''content'', JStr (concat texts)), (''ok'', JBool True)]), b1)
             })
      })"

section \<open>Requests\<close>

record gm_request =
  gq_run_id :: string
  gq_invocation_id :: string
  gq_role :: string
  gq_tool :: string
  gq_call_id :: string
  gq_params :: string

definition tool_allowed :: "gm_broker \<Rightarrow> string \<Rightarrow> bool" where
  "tool_allowed b tool \<longleftrightarrow> gb_tools b = [] \<or> tool \<in> set (gb_tools b)"

text \<open>The check of the envelope: \<open>Some\<close> is the answer of a request that is refused.\<close>

definition refuse_request :: "gm_request \<Rightarrow> gm_broker \<Rightarrow> string option" where
  "refuse_request q b =
     (if gq_call_id q = [] then Some (err_result ''PROTOCOL_ERROR'' ''callId is required'')
      else if gb_invocation_id b \<noteq> [] \<and> gq_run_id q \<noteq> gb_run_id b
      then Some (err_result ''IDENTITY_MISMATCH'' ''runId does not match current invocation'')
      else if gb_invocation_id b \<noteq> [] \<and> gq_invocation_id q \<noteq> gb_invocation_id b
      then Some (err_result ''IDENTITY_MISMATCH'' ''invocationId does not match current invocation'')
      else if \<not> tool_allowed b (gq_tool q)
      then Some (err_result ''UNKNOWN_TOOL'' (''unknown tool: '' @ gq_tool q))
      else None)"

definition keep_broker :: "gm_broker \<Rightarrow> string M \<Rightarrow> (string \<times> gm_broker) M" where
  "keep_broker b m = do { res \<leftarrow> m; ret (res, b) }"

definition gm_dispatch :: "gm_host \<Rightarrow> string result M \<Rightarrow> gm_request \<Rightarrow> gm_broker \<Rightarrow> (string \<times> gm_broker) M" where
  "gm_dispatch G fetcher q b =
     (case refuse_request q b of
        Some res \<Rightarrow> ret (res, b)
      | None \<Rightarrow>
          (let tool = gq_tool q in
           if tool = ''gm_slice_get'' then handle_slice_get fetcher b
           else if tool = ''gm_dev_done'' then handle_dev_done G (gq_call_id q) (gq_params q) b
           else if tool = ''gm_review_submit'' then handle_review_submit G (gq_call_id q) (gq_params q) b
           else if tool = ''gm_review_submit_comment'' then handle_review_submit_comment G (gq_params q) b
           else if tool = ''gm_project_check'' then handle_project_check G b
           else if tool = ''gm_pr_view'' then keep_broker b (handle_pr_view G b)
           else if tool = ''gm_repo_tree'' then keep_broker b (handle_repo_tree G (gq_params q) b)
           else (case map_of cbmToolNameMap tool of
                   Some sub \<Rightarrow> handle_code_tool G sub (gq_params q) b
                 | None \<Rightarrow> ret (err_result ''UNKNOWN_TOOL'' (''unknown tool: '' @ tool), b))))"

section \<open>The connection\<close>

text \<open>
  The members of an object with the text of each value: what a \<open>json.RawMessage\<close> holds. The text
  is one the parser accepts; the fuel is its length.
\<close>

fun raw_members :: "nat \<Rightarrow> string \<Rightarrow> (string \<times> string) list" where
  "raw_members 0 s = []"
| "raw_members (Suc n) s =
     (case skip_ws s of
        [] \<Rightarrow> []
      | q # qs \<Rightarrow>
          (case (if q = CHR 0x22 then parse_chars (Suc (length qs)) qs else None) of
             None \<Rightarrow> []
           | Some (k, rest) \<Rightarrow>
               (let v = skip_ws (tl (skip_ws rest)) in
                case parse_value (2 * length v + 2) v of
                  None \<Rightarrow> []
                | Some (_, rest1) \<Rightarrow>
                    (k, take (length v - length rest1) v) #
                    (case skip_ws rest1 of d # ds \<Rightarrow> if d = CHR '','' then raw_members n ds else [] | [] \<Rightarrow> []))))"

definition raw_field :: "string \<Rightarrow> string \<Rightarrow> string" where
  "raw_field k s =
     (case skip_ws s of
        c # cs \<Rightarrow> if c = CHR 0x7B
                  then (case find_last (\<lambda>kv. key_matches k (fst kv)) (raw_members (length cs) cs) of
                          Some kv \<Rightarrow> snd kv | None \<Rightarrow> [])
                  else []
      | [] \<Rightarrow> [])"

definition decode_request :: "string \<Rightarrow> gm_request option" where
  "decode_request s =
     (case decode_first s of
        None \<Rightarrow> None
      | Some j \<Rightarrow>
          (case (get_str ''runId'' j, get_str ''invocationId'' j, get_str ''role'' j, get_str ''tool'' j,
                 get_str ''callId'' j) of
             (Some r, Some i, Some ro, Some t, Some c) \<Rightarrow>
               Some \<lparr>gq_run_id = r, gq_invocation_id = i, gq_role = ro, gq_tool = t, gq_call_id = c,
                     gq_params = raw_field ''params'' s\<rparr>
           | _ \<Rightarrow> None))"

text \<open>
  The answer is marshaled with the result as a \<open>json.RawMessage\<close>: a result that is not JSON makes
  marshaling fail, and then only the newline is written.
\<close>

definition write_result :: "string \<Rightarrow> string \<Rightarrow> string" where
  "write_result call result =
     (case raw_json result of
        None \<Rightarrow> [newline]
      | Some _ \<Rightarrow>
          ''{'' @ quote_string ''callId'' @ '':'' @ quote_string call @ '','' @ quote_string ''result'' @ '':'' @
          (if result = [] then ''null'' else compact False result) @ ''}'' @ [newline])"

definition handle_conn :: "gm_host \<Rightarrow> string result M \<Rightarrow> string \<Rightarrow> gm_broker \<Rightarrow> (string \<times> gm_broker) M" where
  "handle_conn G fetcher input b =
     (case decode_request input of
        None \<Rightarrow> ret (write_result [] (err_result ''TRANSPORT_ERROR'' (''invalid JSON: '' @ gm_json_error G input)), b)
      | Some q \<Rightarrow>
          do {
            (res, b1) \<leftarrow> gm_dispatch G fetcher q b;
            ret (write_result (gq_call_id q) res, b1)
          })"

text \<open>Requests one after another: the answers, and the broker afterwards.\<close>

fun serve :: "gm_host \<Rightarrow> string result M \<Rightarrow> gm_request list \<Rightarrow> gm_broker \<Rightarrow> (string list \<times> gm_broker) M" where
  "serve G fetcher [] b = ret ([], b)"
| "serve G fetcher (q # qs) b =
     do {
       (res, b1) \<leftarrow> gm_dispatch G fetcher q b;
       (rs, b2) \<leftarrow> serve G fetcher qs b1;
       ret (res # rs, b2)
     }"

end
