(* ===== verification/Gm_Safety.thy ===== *)
theory Gm_Safety
  imports Gm_Dispatch Json_Roundtrip
begin

text \<open>
  What the broker guarantees: the contracts of the two terminal calls on every branch, the
  invariant of its state over any sequence of requests, and what the runner may conclude when it
  commits the work of an invocation.
\<close>

section \<open>Answers are told apart\<close>

lemma unmarshal_answers:
  "unmarshal (err_result c m) =
     Some (JObj [(''code'', JStr (to_valid c)), (''message'', JStr (to_valid m)), (''ok'', JBool False)])"
  "unmarshal accepted_result = Some (JObj [(''accepted'', JBool True), (''ok'', JBool True)])"
  unfolding err_result_def accepted_result_def by (subst go.unmarshal_written; simp)+

lemma err_not_accepted [simp]: "err_result c m \<noteq> accepted_result" "accepted_result \<noteq> err_result c m"
proof -
  have "unmarshal (err_result c m) \<noteq> unmarshal accepted_result" unfolding unmarshal_answers by simp
  then show "err_result c m \<noteq> accepted_result" by auto
  then show "accepted_result \<noteq> err_result c m" by simp
qed

lemma answers_nonempty [simp]: "err_result c m \<noteq> []" "accepted_result \<noteq> []"
  by (simp_all add: err_result_def accepted_result_def)

lemma accepted_status: "parse_dev_done_terminal_result accepted_result = (''OK'', [])"
  by (simp add: parse_dev_done_terminal_result_def unmarshal_into_def unmarshal_answers json_dec_defs to_lower_def
      to_lower_char_def)

lemma err_status: "parse_dev_done_terminal_result (err_result c m) = (to_valid c, to_valid m)"
  by (simp add: parse_dev_done_terminal_result_def unmarshal_into_def unmarshal_answers json_dec_defs to_lower_def
      to_lower_char_def)

section \<open>Contracts of the terminal calls\<close>

lemmas gm_dev_defs =
  handle_dev_done_def check_dev_done_gate_def reject_dev_done_gate_def finalize_dev_done_terminal_def

lemma run_handle:
  "run_value (handle m h k) s =
     (case run_value m s of Inl e \<Rightarrow> run_value (h e) (final_state m s) | Inr v \<Rightarrow> run_value (k v) (final_state m s))"
  by (simp add: handle_def split: sum.split)

text \<open>The gate is open: the parameters are complete, and the last check was green for the tree of now.\<close>

definition dev_gate_open :: "gm_host \<Rightarrow> gm_broker \<Rightarrow> rstate \<Rightarrow> bool" where
  "dev_gate_open G b s \<longleftrightarrow>
     (case gb_last_check b of
        Some ck \<Rightarrow> ck_ok ck \<and>
          run_value (compute_fingerprint G (cc_worktree (gb_check_cfg b))) s = Inr (ck_fingerprint ck)
      | None \<Rightarrow> False)"

definition dev_done_post ::
  "gm_host \<Rightarrow> string \<Rightarrow> string \<Rightarrow> gm_broker \<Rightarrow> rstate \<Rightarrow> string \<times> gm_broker \<Rightarrow> bool" where
  "dev_done_post G call raw b s r \<longleftrightarrow>
     (case reserve_slot ''gm_dev_done'' (gb_terminal b) call raw (gb_dev_slot b) of
        (Some res, _) \<Rightarrow> r = (res, b)
      | (None, _) \<Rightarrow>
          gb_dev_slot (snd r) = finalize_slot call raw (fst r) \<and>
          (case validate_dev_done_params G raw of
             Inl res \<Rightarrow> fst r = res \<and> gb_dev_done (snd r) = gb_dev_done b \<and> gb_terminal (snd r) = gb_terminal b \<and>
               gb_gate_rejected (snd r) = gb_gate_rejected b
           | Inr p \<Rightarrow>
               if dev_gate_open G b s
               then fst r = accepted_result \<and> gb_dev_done (snd r) = Some p \<and> gb_terminal (snd r) = ''gm_dev_done'' \<and>
                 map_option ck_fingerprint (gb_last_check b) = Some (gb_fingerprint (snd r))
               else (\<exists>msg. fst r = err_result ''DEV_GATE'' msg) \<and> dev_done_terminal_status (snd r) = Some ''DEV_GATE'' \<and>
                 gb_gate_rejected (snd r) \<and>
                 gb_dev_done (snd r) = gb_dev_done b \<and> gb_terminal (snd r) = gb_terminal b))"

lemma reserve_some: "reserve_slot tool t call raw ts = (Some res, ts') \<Longrightarrow> ts' = ts"
  by (auto simp: reserve_slot_def split: if_splits)

lemma handle_dev_done_post: "dev_done_post G call raw b s (run_value (handle_dev_done G call raw b) s)"
proof (cases "reserve_slot ''gm_dev_done'' (gb_terminal b) call raw (gb_dev_slot b)")
  case (Pair res ts)
  show ?thesis
  proof (cases res)
    case (Some x)
    then show ?thesis
      using reserve_some [of "''gm_dev_done''" "gb_terminal b" call raw "gb_dev_slot b"] Pair
      by (simp add: dev_done_post_def handle_dev_done_def reserve_dev_done_terminal_def)
  next
    case None
    then show ?thesis
      using Pair
      by (auto simp: dev_done_post_def gm_dev_defs reserve_dev_done_terminal_def dev_gate_open_def
          dev_done_terminal_status_def run_handle accepted_status err_status finalize_slot_def Let_def
          split: sum.split option.split prod.split)
  qed
qed

text \<open>The gate of an approval.\<close>

definition review_gate_open :: "gm_host \<Rightarrow> gm_broker \<Rightarrow> rstate \<Rightarrow> bool" where
  "review_gate_open G b s \<longleftrightarrow>
     (case rt_precheck (gb_reviewer b) of
        Some pre \<Rightarrow> ps_ok pre \<and> ps_before pre = ps_after pre \<and> rt_worktree (gb_reviewer b) \<noteq> [] \<and>
          run_value (compute_fingerprint G (rt_worktree (gb_reviewer b))) s = Inr (ps_after pre)
      | None \<Rightarrow> False)"

definition submit_post ::
  "gm_host \<Rightarrow> string \<Rightarrow> string \<Rightarrow> gm_broker \<Rightarrow> rstate \<Rightarrow> string \<times> gm_broker \<Rightarrow> bool" where
  "submit_post G call raw b s r \<longleftrightarrow>
     (case reserve_slot ''gm_review_submit'' (gb_terminal b) call raw (gb_review_slot b) of
        (Some res, _) \<Rightarrow> r = (res, b)
      | (None, _) \<Rightarrow>
          (case validate_review_submit_params G raw of
             Inl res \<Rightarrow> fst r = res \<and> gb_review (snd r) = gb_review b \<and> gb_terminal (snd r) = gb_terminal b \<and>
               ts_result (gb_review_slot (snd r)) = [] \<and> \<not> ts_pending (gb_review_slot (snd r))
           | Inr p \<Rightarrow>
               gb_review_slot (snd r) = finalize_slot call raw (fst r) \<and>
               (if rp_verdict p = ''approved'' \<longrightarrow> review_gate_open G b s
                then fst r = accepted_result \<and> gb_review (snd r) = Some p \<and> gb_terminal (snd r) = ''gm_review_submit''
                else (\<exists>msg. fst r = err_result ''REVIEWER_GATE'' msg) \<and> gb_review_rejected (snd r) \<and>
                  gb_review (snd r) = gb_review b \<and> gb_terminal (snd r) = gb_terminal b)))"

lemmas gm_review_defs =
  handle_review_submit_def check_reviewer_gate_def reject_reviewer_gate_def finalize_review_submit_terminal_def
  release_review_submit_terminal_def accept_review_def

lemma reserve_none: "reserve_slot tool t call raw ts = (None, ts') \<Longrightarrow> ts_result ts = [] \<and> ts_result ts' = []"
  by (auto simp: reserve_slot_def split: if_splits)

lemma handle_review_submit_post: "submit_post G call raw b s (run_value (handle_review_submit G call raw b) s)"
proof (cases "reserve_slot ''gm_review_submit'' (gb_terminal b) call raw (gb_review_slot b)")
  case (Pair res ts)
  show ?thesis
  proof (cases res)
    case (Some x)
    then show ?thesis
      using reserve_some [of "''gm_review_submit''" "gb_terminal b" call raw "gb_review_slot b"] Pair
      by (simp add: submit_post_def handle_review_submit_def reserve_review_submit_terminal_def)
  next
    case None
    then show ?thesis
      using Pair reserve_none [of "''gm_review_submit''" "gb_terminal b" call raw "gb_review_slot b" ts]
      by (auto simp: submit_post_def gm_review_defs reserve_review_submit_terminal_def review_gate_open_def
          run_handle finalize_slot_def Let_def split: sum.split option.split prod.split)
  qed
qed

section \<open>The part of the state the other tools leave alone\<close>

text \<open>What the terminal calls own.\<close>

definition terminal_part where
  "terminal_part b =
     (gb_terminal b, gb_dev_done b, gb_gate_rejected b, gb_gate_msg b, gb_fingerprint b, gb_dev_slot b,
      gb_dev_status b, gb_dev_message b, gb_review b, gb_review_rejected b, gb_review_msg b, gb_review_slot b)"

text \<open>What is fixed before the agent starts.\<close>

definition fixed_part where
  "fixed_part b =
     (gb_run_id b, gb_invocation_id b, gb_check_cfg b, gb_tools b, gb_cbm_sock b, gb_cbm_project b,
      gb_reviewer b, gb_log_dir b)"

definition is_terminal_tool :: "string \<Rightarrow> bool" where
  "is_terminal_tool tool \<longleftrightarrow> tool = ''gm_dev_done'' \<or> tool = ''gm_review_submit''"

definition keeps :: "(gm_broker \<Rightarrow> 'a) \<Rightarrow> gm_broker \<Rightarrow> (string \<times> gm_broker) M \<Rightarrow> bool" where
  "keeps part b m \<longleftrightarrow> ends m (\<lambda>r _. part (snd r) = part b)"

lemma keepsI: "ends m (\<lambda>r _. part (snd r) = part b) \<Longrightarrow> keeps part b m"
  by (simp add: keeps_def)

lemma keepsD: "keeps part b m \<Longrightarrow> part (snd (run_value m s)) = part b"
  using ends_value [of m "\<lambda>r _. part (snd r) = part b" s] by (simp add: keeps_def)

lemma slice_get_keeps: "keeps terminal_part b (handle_slice_get f b)" "keeps fixed_part b (handle_slice_get f b)"
  "keeps gb_last_check b (handle_slice_get f b)"
  unfolding handle_slice_get_def
  by (rule keepsI, intro ends, simp add: terminal_part_def fixed_part_def)+

lemma project_check_keeps:
  "keeps terminal_part b (handle_project_check G b)" "keeps fixed_part b (handle_project_check G b)"
  unfolding handle_project_check_def
  by (rule keepsI, intro ends; simp add: terminal_part_def fixed_part_def split: sum.split)+

lemma ensure_keeps:
  "ends (ensure_pending_review G b) (\<lambda>r _. terminal_part (snd r) = terminal_part b \<and> fixed_part (snd r) = fixed_part b \<and>
       gb_last_check (snd r) = gb_last_check b)"
  unfolding ensure_pending_review_def by (intro ends; simp add: terminal_part_def fixed_part_def)

lemma comment_keeps:
  "keeps terminal_part b (handle_review_submit_comment G raw b)"
  "keeps fixed_part b (handle_review_submit_comment G raw b)"
  "keeps gb_last_check b (handle_review_submit_comment G raw b)"
  unfolding handle_review_submit_comment_def keeps_def
  by (intro ends_option ends_sum ends_return ends_bind_via [OF ensure_keeps];
      auto simp: wp_simps wp_def split: sum.split prod.split)+

lemma schema_keeps:
  "ends (validate_args_against_schema G sub sock args b)
     (\<lambda>r _. terminal_part (snd r) = terminal_part b \<and> fixed_part (snd r) = fixed_part b \<and>
       gb_last_check (snd r) = gb_last_check b)"
  unfolding validate_args_against_schema_def get_cbm_schema_def
  by (simp add: ends_def wp_def terminal_part_def fixed_part_def split_beta)

lemma parse_args_keeps:
  "ends (parse_and_validate_code_args G sub sock raw b)
     (\<lambda>r _. terminal_part (snd r) = terminal_part b \<and> fixed_part (snd r) = fixed_part b \<and>
       gb_last_check (snd r) = gb_last_check b)"
  unfolding parse_and_validate_code_args_def
  by (intro ends_option ends_if ends_return ends_bind_via [OF schema_keeps]) (auto simp: wp_def split: prod.split)

lemma code_tool_keeps:
  "keeps terminal_part b (handle_code_tool G sub raw b)" "keeps fixed_part b (handle_code_tool G sub raw b)"
  "keeps gb_last_check b (handle_code_tool G sub raw b)"
  unfolding handle_code_tool_def keeps_def
  by (intro ends_if ends_return ends_bind_via [OF parse_args_keeps];
      auto simp: wp_def split: sum.split prod.split)+

lemma keep_broker_keeps: "keeps part b (keep_broker b m)"
  unfolding keep_broker_def keeps_def by (intro ends) simp

lemma dev_done_keeps_fixed: "keeps fixed_part b (handle_dev_done G call raw b)"
  unfolding keeps_def gm_dev_defs reserve_dev_done_terminal_def
  by (auto simp: ends_def wp_simps wp_def fixed_part_def Let_def run_handle split: prod.split option.split sum.split)

lemma review_keeps_fixed: "keeps fixed_part b (handle_review_submit G call raw b)"
  unfolding keeps_def gm_review_defs reserve_review_submit_terminal_def
  by (auto simp: ends_def wp_simps wp_def fixed_part_def Let_def run_handle split: prod.split option.split sum.split)

lemma review_keeps_check: "keeps gb_last_check b (handle_review_submit G call raw b)"
  unfolding keeps_def gm_review_defs reserve_review_submit_terminal_def
  by (auto simp: ends_def wp_simps wp_def Let_def run_handle split: prod.split option.split sum.split)

lemma refused_keeps: "keeps part b (ret (res, b))"
  by (simp add: keeps_def ends_return)

lemma dispatch_keeps_fixed: "keeps fixed_part b (gm_dispatch G f q b)"
  by (simp add: gm_dispatch_def Let_def refused_keeps slice_get_keeps project_check_keeps comment_keeps
      code_tool_keeps keep_broker_keeps dev_done_keeps_fixed review_keeps_fixed split: option.split)

lemma dispatch_keeps_terminal:
  "refuse_request q b \<noteq> None \<or> \<not> is_terminal_tool (gq_tool q) \<Longrightarrow> keeps terminal_part b (gm_dispatch G f q b)"
  by (auto simp: gm_dispatch_def Let_def refused_keeps slice_get_keeps project_check_keeps comment_keeps
      code_tool_keeps keep_broker_keeps is_terminal_tool_def split: option.split)

section \<open>One terminal call\<close>

text \<open>What one of the terminal calls owns alone.\<close>

definition dev_part where
  "dev_part b = (gb_dev_done b, gb_fingerprint b, gb_dev_slot b, gb_dev_status b, gb_dev_message b, gb_gate_rejected b)"

definition review_part where
  "review_part b = (gb_review b, gb_review_slot b, gb_review_rejected b, gb_review_msg b)"

lemma dev_done_keeps_review: "keeps review_part b (handle_dev_done G call raw b)"
  unfolding keeps_def gm_dev_defs reserve_dev_done_terminal_def
  by (auto simp: ends_def wp_simps wp_def review_part_def Let_def run_handle split: prod.split option.split sum.split)

lemma review_keeps_dev: "keeps dev_part b (handle_review_submit G call raw b)"
  unfolding keeps_def gm_review_defs reserve_review_submit_terminal_def
  by (auto simp: ends_def wp_simps wp_def dev_part_def Let_def run_handle split: prod.split option.split sum.split)

lemma invalid_is_error:
  "validate_dev_done_params G raw = Inl res \<Longrightarrow> \<exists>c m. res = err_result c m"
  "validate_review_submit_params G raw = Inl res \<Longrightarrow> \<exists>c m. res = err_result c m"
  by (auto simp: validate_dev_done_params_def validate_review_submit_params_def Let_def
      split: option.splits if_splits)

text \<open>The invariant of the terminal part.\<close>

definition slot_inv :: "string \<Rightarrow> string \<Rightarrow> bool \<Rightarrow> terminal_slot \<Rightarrow> bool" where
  "slot_inv tool accepted stored ts \<longleftrightarrow>
     (if stored then ts_result ts = accepted_result \<and> accepted = tool
      else accepted \<noteq> tool \<and> ts_result ts \<noteq> accepted_result) \<and> \<not> ts_pending ts"

definition terminal_inv :: "gm_broker \<Rightarrow> bool" where
  "terminal_inv b \<longleftrightarrow>
     slot_inv ''gm_dev_done'' (gb_terminal b) (gb_dev_done b \<noteq> None) (gb_dev_slot b) \<and>
     slot_inv ''gm_review_submit'' (gb_terminal b) (gb_review b \<noteq> None) (gb_review_slot b) \<and>
     (gb_terminal b \<noteq> [] \<longrightarrow> is_terminal_tool (gb_terminal b))"

lemma new_broker_inv: "terminal_inv (new_broker cfg tools dir)"
  by (simp add: new_broker_def terminal_inv_def slot_inv_def empty_slot_def answers_nonempty [symmetric])

text \<open>The call whose acceptance the broker has recorded.\<close>

definition holder :: "gm_broker \<Rightarrow> gm_request \<Rightarrow> bool" where
  "holder b q \<longleftrightarrow>
     (if gq_tool q = ''gm_dev_done''
      then gb_dev_done b \<noteq> None \<and> ts_call (gb_dev_slot b) = gq_call_id q \<and> ts_raw (gb_dev_slot b) = gq_params q
      else gq_tool q = ''gm_review_submit'' \<and> gb_review b \<noteq> None \<and>
        ts_call (gb_review_slot b) = gq_call_id q \<and> ts_raw (gb_review_slot b) = gq_params q)"

definition same_call :: "gm_request \<Rightarrow> gm_request \<Rightarrow> bool" where
  "same_call q r \<longleftrightarrow> gq_tool q = gq_tool r \<and> gq_call_id q = gq_call_id r \<and> gq_params q = gq_params r"

definition accepts :: "gm_request \<Rightarrow> string \<Rightarrow> bool" where
  "accepts q res \<longleftrightarrow> is_terminal_tool (gq_tool q) \<and> res = accepted_result"

definition step_ok :: "gm_request \<Rightarrow> gm_broker \<Rightarrow> string \<times> gm_broker \<Rightarrow> bool" where
  "step_ok q b r \<longleftrightarrow> terminal_inv (snd r) \<and> (accepts q (fst r) \<longrightarrow> holder (snd r) q) \<and>
     (\<forall>q0. holder b q0 \<longrightarrow> holder (snd r) q0 \<and> (accepts q (fst r) \<longrightarrow> same_call q0 q))"

lemma same_terminal_part: "terminal_part b' = terminal_part b \<Longrightarrow>
    (terminal_inv b' \<longleftrightarrow> terminal_inv b) \<and> (holder b' q \<longleftrightarrow> holder b q)"
  by (simp add: terminal_part_def terminal_inv_def holder_def)

lemma step_ok_untouched:
  "terminal_inv b \<Longrightarrow> terminal_part b' = terminal_part b \<Longrightarrow> \<not> accepts q res \<Longrightarrow> step_ok q b (res, b')"
  using same_terminal_part [of b' b] by (simp add: step_ok_def)

lemma reserve_accepted:
  "reserve_slot tool t call raw ts = (Some accepted_result, ts') \<Longrightarrow>
     (t = [] \<or> t = tool) \<and> ts_result ts = accepted_result \<and> ts_call ts = call \<and> ts_raw ts = raw"
  by (auto simp: reserve_slot_def split: if_splits)

lemma reserve_free: "reserve_slot tool t call raw ts = (None, ts') \<Longrightarrow> (t = [] \<or> t = tool) \<and> ts_result ts = []"
  by (auto simp: reserve_slot_def split: if_splits)

lemma dev_done_step_ok:
  assumes inv: "terminal_inv b" and q: "gq_tool q = ''gm_dev_done''"
  shows "step_ok q b (run_value (handle_dev_done G (gq_call_id q) (gq_params q) b) s)"
proof -
  let ?r = "run_value (handle_dev_done G (gq_call_id q) (gq_params q) b) s"
  have post: "dev_done_post G (gq_call_id q) (gq_params q) b s ?r" by (rule handle_dev_done_post)
  have rv: "gb_review (snd ?r) = gb_review b" "gb_review_slot (snd ?r) = gb_review_slot b"
    using keepsD [OF dev_done_keeps_review [of b G "gq_call_id q" "gq_params q"], of s] by (simp_all add: review_part_def)
  obtain res ts where res: "reserve_slot ''gm_dev_done'' (gb_terminal b) (gq_call_id q) (gq_params q) (gb_dev_slot b) = (res, ts)"
    by fastforce
  show ?thesis
  proof (cases res)
    case (Some x)
    with post res have r: "?r = (x, b)" by (simp add: dev_done_post_def)
    show ?thesis
    proof (cases "x = accepted_result")
      case True
      with res Some have "ts_result (gb_dev_slot b) = accepted_result" "ts_call (gb_dev_slot b) = gq_call_id q"
          "ts_raw (gb_dev_slot b) = gq_params q"
        using reserve_accepted by blast+
      then show ?thesis
        using inv q unfolding r
        by (auto simp: step_ok_def terminal_inv_def slot_inv_def holder_def same_call_def accepts_def split: if_splits)
    next
      case False
      then show ?thesis using inv unfolding r by (simp add: step_ok_untouched accepts_def)
    qed
  next
    case None
    from res None have free: "gb_terminal b = [] \<or> gb_terminal b = ''gm_dev_done''" "ts_result (gb_dev_slot b) = []"
      using reserve_free by blast+
    with inv have none: "gb_dev_done b = None" "gb_terminal b = []" "gb_review b = None"
      by (auto simp: terminal_inv_def slot_inv_def split: if_splits)
    show ?thesis
      using post res None inv none q rv
      by (auto simp: dev_done_post_def step_ok_def terminal_inv_def slot_inv_def holder_def accepts_def
          finalize_slot_def is_terminal_tool_def split: sum.splits if_splits dest: invalid_is_error)
  qed
qed

lemma review_step_ok:
  assumes inv: "terminal_inv b" and q: "gq_tool q = ''gm_review_submit''"
  shows "step_ok q b (run_value (handle_review_submit G (gq_call_id q) (gq_params q) b) s)"
proof -
  let ?r = "run_value (handle_review_submit G (gq_call_id q) (gq_params q) b) s"
  have post: "submit_post G (gq_call_id q) (gq_params q) b s ?r" by (rule handle_review_submit_post)
  have dv: "gb_dev_done (snd ?r) = gb_dev_done b" "gb_dev_slot (snd ?r) = gb_dev_slot b"
    using keepsD [OF review_keeps_dev [of b G "gq_call_id q" "gq_params q"], of s] by (simp_all add: dev_part_def)
  obtain res ts where res: "reserve_slot ''gm_review_submit'' (gb_terminal b) (gq_call_id q) (gq_params q) (gb_review_slot b) = (res, ts)"
    by fastforce
  show ?thesis
  proof (cases res)
    case (Some x)
    with post res have r: "?r = (x, b)" by (simp add: submit_post_def)
    show ?thesis
    proof (cases "x = accepted_result")
      case True
      with res Some have "ts_result (gb_review_slot b) = accepted_result" "ts_call (gb_review_slot b) = gq_call_id q"
          "ts_raw (gb_review_slot b) = gq_params q"
        using reserve_accepted by blast+
      then show ?thesis
        using inv q unfolding r
        by (auto simp: step_ok_def terminal_inv_def slot_inv_def holder_def same_call_def accepts_def split: if_splits)
    next
      case False
      then show ?thesis using inv unfolding r by (simp add: step_ok_untouched accepts_def)
    qed
  next
    case None
    from res None have free: "gb_terminal b = [] \<or> gb_terminal b = ''gm_review_submit''" "ts_result (gb_review_slot b) = []"
      using reserve_free by blast+
    with inv have none: "gb_review b = None" "gb_terminal b = []" "gb_dev_done b = None"
      by (auto simp: terminal_inv_def slot_inv_def split: if_splits)
    show ?thesis
      using post res None inv none q dv
      by (auto simp: submit_post_def step_ok_def terminal_inv_def slot_inv_def holder_def accepts_def
          finalize_slot_def is_terminal_tool_def answers_nonempty [symmetric]
          split: sum.splits if_splits dest: invalid_is_error)
  qed
qed

lemma refused_is_error: "refuse_request q b \<noteq> Some accepted_result"
  by (auto simp: refuse_request_def split: if_splits)

lemma dispatch_step_ok:
  assumes inv: "terminal_inv b"
  shows "step_ok q b (run_value (gm_dispatch G f q b) s)"
proof (cases "refuse_request q b \<noteq> None \<or> \<not> is_terminal_tool (gq_tool q)")
  case True
  then have "terminal_part (snd (run_value (gm_dispatch G f q b) s)) = terminal_part b"
    by (rule keepsD [OF dispatch_keeps_terminal])
  moreover have "\<not> accepts q (fst (run_value (gm_dispatch G f q b) s))"
    using True by (auto simp: accepts_def gm_dispatch_def refused_is_error)
  ultimately show ?thesis using inv step_ok_untouched by (metis prod.collapse)
next
  case False
  then have "gq_tool q = ''gm_dev_done'' \<or> gq_tool q = ''gm_review_submit''" by (simp add: is_terminal_tool_def)
  then show ?thesis
    using False dev_done_step_ok [OF inv] review_step_ok [OF inv] by (auto simp: gm_dispatch_def)
qed

section \<open>A served invocation\<close>

text \<open>The terminal requests that were answered with an acceptance.\<close>

definition accepted_calls :: "gm_request list \<Rightarrow> string list \<Rightarrow> gm_request list" where
  "accepted_calls qs rs = map fst (filter (\<lambda>(q, res). accepts q res) (zip qs rs))"

lemma run_serve_Cons:
  "run_value (serve G f (q # qs) b) s =
     (let r = run_value (gm_dispatch G f q b) s; s1 = final_state (gm_dispatch G f q b) s;
          t = run_value (serve G f qs (snd r)) s1
      in (fst r # fst t, snd t))"
  by (simp add: Let_def split_beta)

lemma serve_holder:
  "terminal_inv b \<Longrightarrow> holder b q0 \<Longrightarrow>
     list_all (same_call q0) (accepted_calls qs (fst (run_value (serve G f qs b) s)))"
proof (induction qs arbitrary: b s)
  case (Cons q qs)
  let ?r = "run_value (gm_dispatch G f q b) s"
  have ok: "step_ok q b ?r" by (rule dispatch_step_ok [OF Cons.prems(1)])
  then have "terminal_inv (snd ?r)" "holder (snd ?r) q0" "accepts q (fst ?r) \<longrightarrow> same_call q0 q"
    using Cons.prems(2) by (auto simp: step_ok_def)
  then show ?case
    using Cons.IH [of "snd ?r" "final_state (gm_dispatch G f q b) s"]
    unfolding run_serve_Cons by (simp add: Let_def accepted_calls_def)
qed (simp add: accepted_calls_def)

lemma serve_one_accepted:
  "terminal_inv b \<Longrightarrow>
     (case accepted_calls qs (fst (run_value (serve G f qs b) s)) of
        [] \<Rightarrow> True | q0 # rest \<Rightarrow> list_all (same_call q0) rest)"
proof (induction qs arbitrary: b s)
  case (Cons q qs)
  let ?r = "run_value (gm_dispatch G f q b) s" and ?s = "final_state (gm_dispatch G f q b) s"
  have ok: "step_ok q b ?r" by (rule dispatch_step_ok [OF Cons.prems])
  show ?case
  proof (cases "accepts q (fst ?r)")
    case True
    with ok have "list_all (same_call q) (accepted_calls qs (fst (run_value (serve G f qs (snd ?r)) ?s)))"
      by (intro serve_holder) (simp_all add: step_ok_def)
    with True show ?thesis unfolding run_serve_Cons by (simp add: Let_def accepted_calls_def)
  next
    case False
    with Cons.IH [of "snd ?r" ?s] ok show ?thesis
      unfolding run_serve_Cons by (simp add: Let_def accepted_calls_def step_ok_def)
  qed
qed (simp add: accepted_calls_def)

text \<open>
  An invocation has one terminal call at most: of the requests a broker answers one after
  another, whatever they are and whatever the commands it runs say, all terminal requests that are
  answered with an acceptance are the same call with the same parameters, repeated.
\<close>

theorem one_terminal_call_accepted:
  "case accepted_calls qs (fst (run_value (serve G fetcher qs (new_broker cfg tools dir)) s)) of
     [] \<Rightarrow> True | q0 # rest \<Rightarrow> list_all (same_call q0) rest"
  by (rule serve_one_accepted [OF new_broker_inv])

text \<open>
  A call of \<open>gm_dev_done\<close> on every branch: when the slot is taken the stored or a protocol
  answer comes back and nothing changes; invalid parameters and a closed gate take the slot but
  accept nothing; an acceptance means that the last \<open>gm_project_check\<close> was green, that the
  fingerprint of the worktree now is the one of that check, and it stores both.
\<close>

theorem dev_done_contract: "dev_done_post G call raw b s (run_value (handle_dev_done G call raw b) s)"
  by (rule handle_dev_done_post)

text \<open>
  A call of \<open>gm_review_submit\<close> on every branch: invalid parameters free the slot for another
  try, an approval passes only when the precheck was ok, left the tree alone and the worktree has
  the fingerprint of the precheck now; a rejected approval takes the slot and stores no review.
\<close>

theorem review_submit_contract: "submit_post G call raw b s (run_value (handle_review_submit G call raw b) s)"
  by (rule handle_review_submit_post)

end
