(* ===== verification/Gm_Commit.thy ===== *)
theory Gm_Commit
  imports Gm_Safety
begin

text \<open>
  The broker and the runner together: a dev invocation is served, the runner asks the broker, and
  commits. The relation to the verify command is in the history of calls.
\<close>

section \<open>The history grows\<close>

lemma grows_get_trace [grows]: "upholds history_grows get_trace"
  unfolding upholds_def by (rule allI, rule history_grows_same) (simp_all add: get_trace_def final_state_def)

lemma grows_compute [grows]: "upholds history_grows (compute_fingerprint G wt)"
  unfolding compute_fingerprint_def by (intro grows)

lemma grows_gm_calls [grows]:
  "upholds history_grows (run_verify_command G cfg)"
  "upholds history_grows (read_dir G path)"
  "upholds history_grows (socket_call G sock request)"
  by (simp_all add: run_verify_command_def read_dir_def socket_call_def verify_call_def grows_call_env)

lemma grows_write_temp [grows]: "upholds history_grows (write_temp G p)"
  unfolding write_temp_def by (intro grows)

lemma grows_run_gh [grows]: "upholds history_grows (run_gh_with_env G token dir args)"
  unfolding run_gh_with_env_def by (intro grows)

lemma grows_fetch_issue [grows]: "upholds history_grows (fetch_issue_md G n token)"
  unfolding fetch_issue_md_def by (intro grows)

lemma grows_dev_done [grows]: "upholds history_grows (handle_dev_done G call raw b)"
  unfolding gm_dev_defs Let_def by (intro grows)

lemma grows_review [grows]: "upholds history_grows (handle_review_submit G call raw b)"
  unfolding gm_review_defs Let_def by (intro grows)

lemma verify_end_split [grows, emits]:
  "(\<And>out err code. upholds Rel (f out err code)) \<Longrightarrow> (\<And>e. upholds Rel (g e)) \<Longrightarrow>
     upholds Rel (case x of VerifyExit out err code \<Rightarrow> f out err code | VerifyError e \<Rightarrow> g e)"
  by (cases x) simp_all

lemma grows_run_check [grows]: "upholds history_grows (run_project_check G cfg dir)"
  unfolding run_project_check_def by (intro grows)

lemma grows_check [grows]: "upholds history_grows (handle_project_check G b)"
  unfolding handle_project_check_def project_check_with_issue_body_def Let_def by (intro grows)

lemma grows_pr_view [grows]: "upholds history_grows (handle_pr_view G b)"
  unfolding handle_pr_view_def fetch_pr_view_def Let_def by (intro grows)

lemma grows_repo_tree [grows]: "upholds history_grows (handle_repo_tree G raw b)"
  unfolding handle_repo_tree_def Let_def by (intro grows)

lemma grows_owner_name [grows]: "upholds history_grows (repo_owner_name G cfg)"
  unfolding repo_owner_name_def by (intro grows)

lemma grows_pending [grows]: "upholds history_grows (get_or_create_pending_review G cfg)"
  unfolding get_or_create_pending_review_def create_pending_review_def by (intro grows)

lemma grows_comment [grows]: "upholds history_grows (handle_review_submit_comment G raw b)"
  unfolding handle_review_submit_comment_def ensure_pending_review_def add_inline_comment_def add_review_comment_def
  by (intro grows)

lemma grows_schema [grows]: "upholds history_grows (validate_args_against_schema G sub sock args b)"
  unfolding validate_args_against_schema_def get_cbm_schema_def fetch_cbm_schema_from_socket_def by (intro grows)

lemma grows_code_tool [grows]: "upholds history_grows (handle_code_tool G sub raw b)"
  unfolding handle_code_tool_def parse_and_validate_code_args_def cbm_proxy_call_def by (intro grows)

lemma grows_slice_get [grows]: "upholds history_grows f \<Longrightarrow> upholds history_grows (handle_slice_get f b)"
  unfolding handle_slice_get_def by (intro grows)

lemma grows_keep_broker [grows]: "upholds history_grows m \<Longrightarrow> upholds history_grows (keep_broker b m)"
  unfolding keep_broker_def by (intro grows)

lemma grows_dispatch [grows]: "upholds history_grows f \<Longrightarrow> upholds history_grows (gm_dispatch G f q b)"
  unfolding gm_dispatch_def Let_def by (intro grows)

lemma grows_serve [grows]: "upholds history_grows f \<Longrightarrow> upholds history_grows (serve G f qs b)"
proof (induction qs arbitrary: b)
  case (Cons q qs)
  show ?case unfolding serve.simps by (intro grows Cons)
qed (simp add: grows)

section \<open>What the runner sees\<close>

definition dev_done_of :: "dev_params \<Rightarrow> dev_done" where
  "dev_done_of p = \<lparr>dd_commit_msg = dp_commit_msg p, dd_pr_title = dp_pr_title p, dd_pr_body = dp_pr_body p\<rparr>"

text \<open>All the runner can ask the broker after a dev invocation.\<close>

definition dev_broker_view :: "gm_host \<Rightarrow> gm_broker \<Rightarrow> dev_broker M" where
  "dev_broker_view G b =
     do {
       current \<leftarrow> current_fingerprint G b;
       green \<leftarrow> is_tree_green G b;
       out \<leftarrow> last_check_output G b;
       ret \<lparr>db_dev_done = map_option dev_done_of (dev_done_result b), db_accept_fp = dev_done_fingerprint b,
            db_current_fp = current, db_recovered = map_option dev_done_of (recovered_dev_done_params b),
            db_tree_green = green, db_gate_rejected = dev_done_gate_rejected b,
            db_gate_reason = dev_done_gate_reason b, db_terminal_status = dev_done_terminal_status b,
            db_terminal_message = dev_done_terminal_message b, db_last_check_output = out\<rparr>
     }"

text \<open>
  The brokers the runner starts: \<open>startGMForRole\<close> and what \<open>runDevAgentWithPrompt\<close> and
  \<open>startReviewerBrokers\<close> set besides. \<open>path\<close> is the \<open>PATH\<close> of the login shell, \<open>cbm\<close> the socket and
  project of a CBM broker that runs.
\<close>

definition start_gm_for_role :: "rconfig \<Rightarrow> string \<Rightarrow> string \<Rightarrow> string \<Rightarrow> string \<Rightarrow> gm_broker" where
  "start_gm_for_role R role worktree path dir =
     (let b = SetAllowedTools gmReviewerToolNames
                (new_broker \<lparr>cc_worktree = [], cc_command = [], cc_env = []\<rparr> default_tools dir)
      in if role = ''dev''
         then ConfigureProjectCheck
           \<lparr>cc_worktree = worktree, cc_command = r_verify_command R, cc_env = [(''PATH'', path)]\<rparr>
           (SetAllowedTools gmDevToolNames b)
         else b)"

definition invocation_id :: "rconfig \<Rightarrow> string \<Rightarrow> int \<Rightarrow> int \<Rightarrow> string" where
  "invocation_id R role rnd attempt =
     r_run_id R @ ''/'' @ role @ ''/round-'' @ itoa rnd @ ''/attempt-'' @ itoa attempt"

definition with_cbm :: "string list \<Rightarrow> (string \<times> string) option \<Rightarrow> gm_broker \<Rightarrow> gm_broker" where
  "with_cbm tools cbm b =
     (case cbm of None \<Rightarrow> b
      | Some (sock, project) \<Rightarrow> SetAllowedTools (tools @ gmCodeToolNames) (ConfigureCBM sock project b))"

definition dev_invocation_broker ::
  "rconfig \<Rightarrow> int \<Rightarrow> int \<Rightarrow> string \<Rightarrow> (string \<times> string) option \<Rightarrow> string \<Rightarrow> gm_broker" where
  "dev_invocation_broker R rnd attempt path cbm dir =
     with_cbm gmDevToolNames cbm
       (SetInvocationIdentity (r_run_id R) (invocation_id R ''dev'' rnd attempt)
         (start_gm_for_role R ''dev'' (dev_worktree_path R) path dir))"

definition reviewer_invocation_broker ::
  "rconfig \<Rightarrow> int \<Rightarrow> int \<Rightarrow> reviewer_access \<Rightarrow> (string \<times> string) option \<Rightarrow> string \<Rightarrow> gm_broker" where
  "reviewer_invocation_broker R rnd attempt cfg cbm dir =
     with_cbm gmReviewerToolNames cbm
       (SetReviewerConfig cfg
         (SetInvocationIdentity (r_run_id R) (invocation_id R ''reviewer'' rnd attempt)
           (start_gm_for_role R ''reviewer'' (rt_worktree cfg) [] dir)))"

text \<open>A dev invocation: its broker serves the requests, the runner asks it and finishes.\<close>

definition served_dev_invocation ::
  "gm_host \<Rightarrow> rconfig \<Rightarrow> int \<Rightarrow> int \<Rightarrow> string \<Rightarrow> (string \<times> string) option \<Rightarrow> string \<Rightarrow> gm_request list \<Rightarrow>
     (event_key \<times> string) M" where
  "served_dev_invocation G R rnd attempt path cbm dir qs =
     do {
       (_, b) \<leftarrow> serve G (fetch_issue_md G (r_issue_num R) (r_dev_token R)) qs
         (dev_invocation_broker R rnd attempt path cbm dir);
       v \<leftarrow> dev_broker_view G b;
       finish_dev_agent_with_broker (gm_env G) R v
     }"

section \<open>Green fingerprints\<close>

text \<open>
  A look at the worktree is one computation of its fingerprint: it starts after the calls \<open>u\<close>, gives
  \<open>fp\<close>, and ends after the calls \<open>v\<close>. A green run of the verify command is followed by a look; the
  fingerprint is found again when a second look, begun after the first one has ended, gives it too.
\<close>

definition green_verify :: "check_cfg \<Rightarrow> call \<Rightarrow> bool" where
  "green_verify cfg c \<longleftrightarrow>
     (case c of CVerify dir command (_, _, code) \<Rightarrow> dir = cc_worktree cfg \<and> command = cc_command cfg \<and> code = 0
      | _ \<Rightarrow> False)"

definition look_at :: "gm_host \<Rightarrow> check_cfg \<Rightarrow> call list \<Rightarrow> string \<Rightarrow> call list \<Rightarrow> bool" where
  "look_at G cfg u fp v \<longleftrightarrow>
     (\<exists>s. rs_trace s = u \<and> run_value (compute_fingerprint G (cc_worktree cfg)) s = Inr fp \<and>
          rs_trace (final_state (compute_fingerprint G (cc_worktree cfg)) s) = v)"

definition green_at :: "gm_host \<Rightarrow> check_cfg \<Rightarrow> call list \<Rightarrow> string \<Rightarrow> bool" where
  "green_at G cfg t fp \<longleftrightarrow>
     (\<exists>before c v. green_verify cfg c \<and> look_at G cfg (before @ [c]) fp v \<and> prefix v t)"

definition green_again :: "gm_host \<Rightarrow> check_cfg \<Rightarrow> call list \<Rightarrow> string \<Rightarrow> bool" where
  "green_again G cfg t fp \<longleftrightarrow> (\<exists>u v. green_at G cfg u fp \<and> look_at G cfg u fp v \<and> prefix v t)"

lemma trace_grows: "upholds history_grows m \<Longrightarrow> prefix (rs_trace s) (rs_trace (final_state m s))"
  using upholdsD history_prefix by blast

text \<open>A look makes calls, so the second look is not the first one.\<close>

lemma look_grows: "look_at G cfg u fp v \<Longrightarrow> strict_prefix u v"
proof -
  have "strict_prefix (rs_trace s) (rs_trace (final_state (compute_fingerprint G wt) s))" for wt s
  proof -
    let ?m = "run_in_dir (gm_env G) wt [''git'', ''status'', ''--porcelain=v1'', ''--untracked-files=all'']"
    have one: "strict_prefix (rs_trace s) (rs_trace (final_state ?m s))"
      by (simp add: run_in_dir_def exec_def run_prims strict_prefix_def)
    have "\<exists>k. compute_fingerprint G wt = State_Monad.bind ?m k \<and> (\<forall>r. upholds history_grows (k r))"
      unfolding compute_fingerprint_def fingerprint_compute_def
      by (rule exI, rule conjI, rule refl, rule allI, intro grows)
    then obtain k where k: "compute_fingerprint G wt = State_Monad.bind ?m k" "\<And>r. upholds history_grows (k r)"
      by blast
    show ?thesis
      using one trace_grows [OF k(2)] by (simp add: k(1) prefix_order.less_le_trans)
  qed
  then show "look_at G cfg u fp v \<Longrightarrow> strict_prefix u v" by (auto simp: look_at_def)
qed

lemma green_mono:
  "green_at G cfg t fp \<Longrightarrow> prefix t u \<Longrightarrow> green_at G cfg u fp"
  "green_again G cfg t fp \<Longrightarrow> prefix t u \<Longrightarrow> green_again G cfg u fp"
  unfolding green_at_def green_again_def by (meson prefix_order.trans)+

text \<open>The claims of the broker's state about the history.\<close>

definition green_inv :: "gm_host \<Rightarrow> call list \<Rightarrow> gm_broker \<Rightarrow> bool" where
  "green_inv G t b \<longleftrightarrow>
     (\<forall>ck. gb_last_check b = Some ck \<longrightarrow> ck_ok ck \<longrightarrow> green_at G (gb_check_cfg b) t (ck_fingerprint ck)) \<and>
     (gb_dev_done b \<noteq> None \<longrightarrow> green_again G (gb_check_cfg b) t (gb_fingerprint b))"

lemma green_inv_mono: "green_inv G t b \<Longrightarrow> prefix t u \<Longrightarrow> green_inv G u b"
  unfolding green_inv_def using green_mono by metis

lemma green_inv_same:
  "gb_last_check b' = gb_last_check b \<Longrightarrow> gb_dev_done b' = gb_dev_done b \<Longrightarrow> gb_fingerprint b' = gb_fingerprint b \<Longrightarrow>
     gb_check_cfg b' = gb_check_cfg b \<Longrightarrow> green_inv G t b' \<longleftrightarrow> green_inv G t b"
  by (simp add: green_inv_def)

text \<open>A check stores the fingerprint right after its verify command.\<close>

lemma run_project_check_green:
  "wp (run_project_check G cfg dir)
     (\<lambda>r t. case r of Inr ck \<Rightarrow> ck_ok ck \<longrightarrow> green_at G cfg (rs_trace t) (ck_fingerprint ck) | Inl _ \<Rightarrow> True) s"
proof -
  define r where "r = gm_verify G (rs_trace s) cfg (merge_env (gm_os_env G) (cc_env cfg))"
  define s1 where "s1 = s\<lparr>rs_trace := rs_trace s @ [verify_call cfg r]\<rparr>"
  let ?fp = "compute_fingerprint G (cc_worktree cfg)"
  let ?w = "write_temp G (path_join [dir, ''project-check-*.log''])"
  have run: "run_value (run_verify_command G cfg) s = r" "final_state (run_verify_command G cfg) s = s1"
    by (simp_all add: run_verify_command_def run_prims r_def s1_def)
  have "green_at G cfg (rs_trace (final_state ?w (final_state ?fp s1))) fp"
    if "run_value ?fp s1 = Inr fp" and "r = VerifyExit out err 0" for fp out err
  proof -
    have "prefix (rs_trace (final_state ?fp s1)) (rs_trace (final_state ?w (final_state ?fp s1)))"
      by (rule trace_grows [OF grows_write_temp])
    moreover have "green_verify cfg (verify_call cfg r)"
      using that(2) by (simp add: green_verify_def verify_call_def)
    moreover have "look_at G cfg (rs_trace s1) fp (rs_trace (final_state ?fp s1))"
      using that(1) unfolding look_at_def by blast
    ultimately show ?thesis
      unfolding green_at_def s1_def by auto
  qed
  then show ?thesis
    unfolding run_project_check_def
    by (auto simp: wp_def run_handle run handle_def split: sum.split verify_end.split option.split)
qed

lemma green_at_env: "green_at G (cfg\<lparr>cc_env := e\<rparr>) t fp \<longleftrightarrow> green_at G cfg t fp"
  by (simp add: green_at_def green_verify_def look_at_def cong: call.case_cong)

lemma issue_body_cfg:
  "ends (project_check_with_issue_body G b) (\<lambda>r _. \<exists>e. fst r = (gb_check_cfg b)\<lparr>cc_env := e\<rparr>)"
proof -
  have same: "\<exists>e. cfg = cfg\<lparr>cc_env := e\<rparr>" for cfg :: check_cfg
    by (rule exI [of _ "cc_env cfg"]) simp
  show ?thesis
    unfolding project_check_with_issue_body_def Let_def
    by (intro ends_if ends_return ends_bind) (auto intro: same split: option.split)
qed

lemma wp_handle_project_check:
  assumes "green_inv G (rs_trace s) b"
  shows "wp (handle_project_check G b) (\<lambda>r t. green_inv G (rs_trace t) (snd r)) s"
proof -
  have step: "wp (run_project_check G cfg dir) (\<lambda>r t.
      (case r of Inr ck \<Rightarrow> ck_ok ck \<longrightarrow> green_at G cfg (rs_trace t) (ck_fingerprint ck) | Inl _ \<Rightarrow> True) \<and>
      prefix (rs_trace s') (rs_trace t)) s'" for cfg dir s'
    using run_project_check_green trace_grows [OF grows_run_check] by (simp add: wp_def)
  have last: "green_inv G (rs_trace u) (case r of Inl e \<Rightarrow> b | Inr ck \<Rightarrow> b\<lparr>gb_last_check := Some ck\<rparr>)"
    if "case r of Inr ck \<Rightarrow> ck_ok ck \<longrightarrow> green_at G ((gb_check_cfg b)\<lparr>cc_env := e\<rparr>) (rs_trace t) (ck_fingerprint ck) | Inl _ \<Rightarrow> True"
      and "prefix (rs_trace s) (rs_trace t)" and "prefix (rs_trace t) (rs_trace u)" for r e t u
  proof -
    have "green_inv G (rs_trace u) b"
      by (rule green_inv_mono [OF assms prefix_order.trans [OF that(2,3)]])
    then show ?thesis
      using that(1) green_mono(1) [OF _ that(3)]
      by (auto simp: green_inv_def green_at_env split: sum.splits)
  qed
  let ?p = "project_check_with_issue_body G b"
  have p: "prefix (rs_trace s) (rs_trace (final_state ?p s))"
    by (rule trace_grows) (auto simp: project_check_with_issue_body_def Let_def intro!: grows)
  obtain e where e: "fst (run_value ?p s) = (gb_check_cfg b)\<lparr>cc_env := e\<rparr>"
    using ends_value [OF issue_body_cfg, of G b s] by auto
  let ?c = "run_project_check G (fst (run_value ?p s)) (gb_log_dir b)" and ?s1 = "final_state ?p s"
  let ?rm = "case snd (run_value ?p s) of None \<Rightarrow> ret True | Some name \<Rightarrow> remove_all (gm_env G) name"
  have c: "case run_value ?c ?s1 of Inr ck \<Rightarrow> ck_ok ck \<longrightarrow>
        green_at G ((gb_check_cfg b)\<lparr>cc_env := e\<rparr>) (rs_trace (final_state ?c ?s1)) (ck_fingerprint ck) | Inl _ \<Rightarrow> True"
    and c': "prefix (rs_trace ?s1) (rs_trace (final_state ?c ?s1))"
    using step [of "fst (run_value ?p s)" "gb_log_dir b" ?s1] unfolding wp_def e by auto
  have r: "prefix (rs_trace (final_state ?c ?s1)) (rs_trace (final_state ?rm (final_state ?c ?s1)))"
    by (rule trace_grows) (intro grows)
  have "green_inv G (rs_trace (final_state ?rm (final_state ?c ?s1)))
      (case run_value ?c ?s1 of Inl e \<Rightarrow> b | Inr ck \<Rightarrow> b\<lparr>gb_last_check := Some ck\<rparr>)"
    by (rule last [OF c prefix_order.trans [OF p c'] r])
  then show ?thesis
    using assms unfolding handle_project_check_def
    by (auto simp: wp_def split_beta split: sum.split)
qed

lemma final_handle:
  "final_state (handle m h k) s =
     (case run_value m s of Inl e \<Rightarrow> final_state (h e) (final_state m s) | Inr v \<Rightarrow> final_state (k v) (final_state m s))"
  by (simp add: handle_def split: sum.split)

text \<open>An acceptance found the fingerprint of the check again.\<close>

lemma wp_handle_dev_done:
  assumes inv: "green_inv G (rs_trace s) b"
  shows "wp (handle_dev_done G call raw b) (\<lambda>r t. green_inv G (rs_trace t) (snd r)) s"
proof -
  let ?m = "handle_dev_done G call raw b"
  have part: "fixed_part (snd (run_value ?m s)) = fixed_part b"
    by (rule keepsD [OF dev_done_keeps_fixed])
  have check: "gb_last_check (snd (run_value ?m s)) = gb_last_check b"
    unfolding gm_dev_defs reserve_dev_done_terminal_def
    by (auto simp: Let_def run_handle split: prod.split option.split sum.split)
  have changed: "(gb_dev_done (snd (run_value ?m s)) = gb_dev_done b \<and> gb_fingerprint (snd (run_value ?m s)) = gb_fingerprint b) \<or>
      (dev_gate_open G b s \<and> map_option ck_fingerprint (gb_last_check b) = Some (gb_fingerprint (snd (run_value ?m s))))"
    unfolding gm_dev_defs reserve_dev_done_terminal_def dev_gate_open_def
    by (auto simp: Let_def run_handle split: prod.split option.split sum.split)
  have grown: "prefix (rs_trace s) (rs_trace (final_state ?m s))"
    by (rule trace_grows [OF grows_dev_done])
  have look: "(gb_dev_done (snd (run_value ?m s)) = gb_dev_done b \<and>
        gb_fingerprint (snd (run_value ?m s)) = gb_fingerprint b) \<or>
      prefix (rs_trace (final_state (compute_fingerprint G (cc_worktree (gb_check_cfg b))) s)) (rs_trace (final_state ?m s))"
    unfolding gm_dev_defs reserve_dev_done_terminal_def dev_gate_open_def
    by (auto simp: Let_def run_handle final_handle split: prod.split option.split sum.split)
  show ?thesis
    unfolding wp_def
  proof (cases "gb_dev_done (snd (run_value ?m s)) = gb_dev_done b \<and> gb_fingerprint (snd (run_value ?m s)) = gb_fingerprint b")
    case True
    then show "green_inv G (rs_trace (final_state ?m s)) (snd (run_value ?m s))"
      using green_inv_same [of "snd (run_value ?m s)" b] check part green_inv_mono [OF inv grown]
      by (simp add: fixed_part_def)
  next
    case False
    with changed obtain ck where ck: "gb_last_check b = Some ck" "ck_ok ck" "ck_fingerprint ck = gb_fingerprint (snd (run_value ?m s))"
        "run_value (compute_fingerprint G (cc_worktree (gb_check_cfg b))) s = Inr (ck_fingerprint ck)"
      by (auto simp: dev_gate_open_def split: option.splits)
    moreover have "prefix (rs_trace (final_state (compute_fingerprint G (cc_worktree (gb_check_cfg b))) s)) (rs_trace (final_state ?m s))"
      using look False by blast
    moreover have "green_at G (gb_check_cfg b) (rs_trace s) (ck_fingerprint ck)"
      using inv ck by (simp add: green_inv_def)
    ultimately have "green_again G (gb_check_cfg b) (rs_trace (final_state ?m s)) (gb_fingerprint (snd (run_value ?m s)))"
      unfolding green_again_def look_at_def by metis
    then show "green_inv G (rs_trace (final_state ?m s)) (snd (run_value ?m s))"
      using check part green_inv_mono [OF inv grown] by (simp add: green_inv_def fixed_part_def)
  qed
qed

lemma wp_keeps:
  assumes "green_inv G (rs_trace s) b" and "upholds history_grows m"
    and "keeps terminal_part b m" "keeps fixed_part b m" "keeps gb_last_check b m"
  shows "wp m (\<lambda>r t. green_inv G (rs_trace t) (snd r)) s"
  using green_inv_same [of "snd (run_value m s)" b] keepsD [OF assms(3), of s] keepsD [OF assms(4), of s]
    keepsD [OF assms(5), of s] green_inv_mono [OF assms(1) trace_grows [OF assms(2)]]
  by (simp add: wp_def terminal_part_def fixed_part_def)

lemma wp_review_green:
  assumes "green_inv G (rs_trace s) b"
  shows "wp (handle_review_submit G call raw b) (\<lambda>r t. green_inv G (rs_trace t) (snd r)) s"
  using green_inv_same [of "snd (run_value (handle_review_submit G call raw b) s)" b]
    keepsD [OF review_keeps_dev [of b G call raw], of s] keepsD [OF review_keeps_fixed [of b G call raw], of s]
    keepsD [OF review_keeps_check [of b G call raw], of s] green_inv_mono [OF assms trace_grows [OF grows_review]]
  by (simp add: wp_def dev_part_def fixed_part_def)

lemma wp_dispatch_green:
  assumes "green_inv G (rs_trace s) b" and "upholds history_grows f"
  shows "wp (gm_dispatch G f q b) (\<lambda>r t. green_inv G (rs_trace t) (snd r)) s"
proof -
  note simple = wp_keeps [OF assms(1)]
  have ret_ok: "wp (ret (res, b)) (\<lambda>r t. green_inv G (rs_trace t) (snd r)) s" for res
    using assms(1) by (simp add: wp_return)
  show ?thesis
    unfolding gm_dispatch_def Let_def
    by (auto intro: ret_ok wp_handle_dev_done [OF assms(1)] wp_review_green [OF assms(1)]
        wp_handle_project_check [OF assms(1)] simple grows grows_slice_get [OF assms(2)] slice_get_keeps comment_keeps
        code_tool_keeps keep_broker_keeps split: option.split)
qed

lemma wp_serve_green:
  assumes "upholds history_grows f"
  shows "green_inv G (rs_trace s) b \<Longrightarrow> wp (serve G f qs b) (\<lambda>r t. green_inv G (rs_trace t) (snd r)) s"
proof (induction qs arbitrary: b s)
  case (Cons q qs)
  have "green_inv G (rs_trace (final_state (gm_dispatch G f q b) s)) (snd (run_value (gm_dispatch G f q b) s))"
    using wp_dispatch_green [OF Cons.prems assms] by (simp add: wp_def)
  from Cons.IH [OF this] show ?case by (simp add: wp_def split_beta)
qed (simp add: wp_return)

section \<open>What a commit rests on\<close>

text \<open>
  The runner's view of a broker keeps the claims: accepted parameters carry the fingerprint that
  was found again, and a green tree means that it was found again now.
\<close>

definition view_ok :: "gm_host \<Rightarrow> check_cfg \<Rightarrow> call list \<Rightarrow> dev_broker \<Rightarrow> bool" where
  "view_ok G cfg t v \<longleftrightarrow>
     (db_dev_done v \<noteq> None \<longrightarrow> (\<forall>fp. db_accept_fp v = Some fp \<longrightarrow> green_again G cfg t fp)) \<and>
     (db_tree_green v \<longrightarrow> (\<exists>fp. green_again G cfg t fp))"

lemma grows_current [grows]: "upholds history_grows (current_fingerprint G b)"
  unfolding current_fingerprint_def by (intro grows)

lemma grows_tree_green [grows]: "upholds history_grows (is_tree_green G b)"
  unfolding is_tree_green_def by (intro grows)

lemma grows_last_output [grows]: "upholds history_grows (last_check_output G b)"
  unfolding last_check_output_def by (intro grows)

lemma tree_green_again:
  assumes "green_inv G (rs_trace s) b" and "run_value (is_tree_green G b) s"
  shows "\<exists>fp. green_again G (gb_check_cfg b) (rs_trace (final_state (is_tree_green G b) s)) fp"
proof -
  let ?fp = "compute_fingerprint G (cc_worktree (gb_check_cfg b))"
  from assms(2) obtain ck where ck: "gb_last_check b = Some ck" "ck_ok ck"
      "run_value ?fp s = Inr (ck_fingerprint ck)" "final_state (is_tree_green G b) s = final_state ?fp s"
    by (auto simp: is_tree_green_def handle_def split: option.splits if_splits sum.splits)
  moreover from ck assms(1) have "green_at G (gb_check_cfg b) (rs_trace s) (ck_fingerprint ck)"
    by (simp add: green_inv_def)
  ultimately show ?thesis unfolding green_again_def look_at_def by (metis prefix_order.refl)
qed

lemma wp_view:
  assumes inv: "green_inv G (rs_trace s) b"
  shows "wp (dev_broker_view G b) (\<lambda>v t. view_ok G (gb_check_cfg b) (rs_trace t) v) s"
proof -
  let ?s1 = "final_state (current_fingerprint G b) s"
  let ?s2 = "final_state (is_tree_green G b) ?s1"
  let ?s3 = "final_state (last_check_output G b) ?s2"
  have p1: "prefix (rs_trace s) (rs_trace ?s1)" by (rule trace_grows) (intro grows)
  have p2: "prefix (rs_trace ?s1) (rs_trace ?s2)" by (rule trace_grows) (intro grows)
  have p3: "prefix (rs_trace ?s2) (rs_trace ?s3)" by (rule trace_grows) (intro grows)
  have inv1: "green_inv G (rs_trace ?s1) b" by (rule green_inv_mono [OF inv p1])
  have inv3: "green_inv G (rs_trace ?s3) b"
    by (rule green_inv_mono [OF inv1 prefix_order.trans [OF p2 p3]])
  have "run_value (is_tree_green G b) ?s1 \<Longrightarrow> \<exists>fp. green_again G (gb_check_cfg b) (rs_trace ?s3) fp"
    using tree_green_again [OF inv1] green_mono(2) [OF _ p3] by blast
  then show ?thesis
    using inv3
    by (auto simp: wp_def dev_broker_view_def view_ok_def green_inv_def dev_done_result_def dev_done_fingerprint_def
        split: if_splits)
qed

text \<open>Serving requests and asking the broker commits nothing.\<close>

definition is_commit :: "call \<Rightarrow> bool" where
  "is_commit c \<longleftrightarrow> (case c of CExec (Cmd _ _ argv) _ \<Rightarrow> take 2 argv = [''git'', ''commit''] | _ \<Rightarrow> False)"

lemma is_commit_simps [simp]:
  "is_commit (CExec (Cmd env dir argv) r) \<longleftrightarrow> take 2 argv = [''git'', ''commit'']"
  "\<not> is_commit (CReadEntry p x)" "\<not> is_commit (CVerify p q v)" "\<not> is_commit (CMkTemp ok)"
  "\<not> is_commit (CRemoveAll p ok)" "\<not> is_commit (CStat p ok)"
  by (simp_all add: is_commit_def)

abbreviation no_commit :: "'a M \<Rightarrow> bool" where
  "no_commit \<equiv> upholds (only_calls (\<lambda>c. \<not> is_commit c))"

lemma no_commit_trace [emits]: "no_commit get_trace"
  by (auto simp: upholds_def only_calls_def get_trace_def final_state_def)

lemma no_commit_compute [emits]: "no_commit (compute_fingerprint G wt)"
  unfolding compute_fingerprint_def fingerprint_compute_def
  by (intro emits calls_hash_entries; simp)

lemma no_commit_gm_calls [emits]:
  "no_commit (run_verify_command G cfg)" "no_commit (read_dir G path)" "no_commit (socket_call G sock request)"
  by (simp_all add: run_verify_command_def read_dir_def socket_call_def verify_call_def calls_call_env)

lemma no_commit_run_gh [emits]: "no_commit (run_gh_with_env G token dir args)"
  unfolding run_gh_with_env_def by (intro emits; simp)

lemma no_commit_write_temp [emits]: "no_commit (write_temp G p)"
  unfolding write_temp_def by (intro emits; simp)

lemma no_commit_terminal [emits]:
  "no_commit (handle_dev_done G call raw b)" "no_commit (handle_review_submit G call raw b)"
  unfolding gm_dev_defs gm_review_defs Let_def by (intro emits)+

lemma no_commit_check [emits]: "no_commit (handle_project_check G b)"
  unfolding handle_project_check_def project_check_with_issue_body_def run_project_check_def Let_def
  by (intro emits; simp)

lemma no_commit_views [emits]:
  "no_commit (handle_pr_view G b)" "no_commit (handle_repo_tree G raw b)"
  unfolding handle_pr_view_def fetch_pr_view_def handle_repo_tree_def Let_def by (intro emits)+

lemma no_commit_comment [emits]: "no_commit (handle_review_submit_comment G raw b)"
  unfolding handle_review_submit_comment_def ensure_pending_review_def add_inline_comment_def add_review_comment_def
    get_or_create_pending_review_def create_pending_review_def repo_owner_name_def
  by (intro emits)

lemma no_commit_code_tool [emits]: "no_commit (handle_code_tool G sub raw b)"
  unfolding handle_code_tool_def parse_and_validate_code_args_def cbm_proxy_call_def
    validate_args_against_schema_def get_cbm_schema_def fetch_cbm_schema_from_socket_def
  by (intro emits)

lemma no_commit_fetch [emits]: "no_commit (fetch_issue_md G n token)"
  unfolding fetch_issue_md_def by (intro emits; simp)

lemma no_commit_dispatch: "no_commit (gm_dispatch G (fetch_issue_md G n token) q b)"
  unfolding gm_dispatch_def handle_slice_get_def keep_broker_def Let_def by (intro emits)

lemma no_commit_serve: "no_commit (serve G (fetch_issue_md G n token) qs b)"
proof (induction qs arbitrary: b)
  case (Cons q qs)
  show ?case unfolding serve.simps by (intro emits no_commit_dispatch Cons)
qed (simp add: emits)

lemma no_commit_view: "no_commit (dev_broker_view G b)"
  unfolding dev_broker_view_def current_fingerprint_def is_tree_green_def last_check_output_def
  by (intro emits; simp)

text \<open>
  Only a backed view makes the runner commit: before each commit, and before the report that the work
  is done, there is a green check whose fingerprint was found again.
\<close>

definition commits_green :: "gm_host \<Rightarrow> check_cfg \<Rightarrow> event_key \<times> string \<Rightarrow> call list \<Rightarrow> bool" where
  "commits_green G cfg r t \<longleftrightarrow>
     (\<forall>before c later. t = before @ c # later \<longrightarrow> is_commit c \<longrightarrow> (\<exists>fp. green_again G cfg before fp)) \<and>
     (fst r = EventDevDone \<longrightarrow> (\<exists>fp. green_again G cfg t fp))"

lemma commits_greenI:
  assumes none: "\<not> list_ex is_commit t0" and grown: "prefix t0 t"
    and backed: "(\<exists>fp. green_again G cfg t0 fp) \<or> t = t0 \<and> fst r \<noteq> EventDevDone"
  shows "commits_green G cfg r t"
proof -
  have "\<exists>fp. green_again G cfg before fp" if t: "t = before @ c # later" and c: "is_commit c" for before c later
  proof -
    obtain rest where rest: "t = t0 @ rest" using grown by (auto simp: prefix_def)
    have "prefix t0 before"
    proof (rule ccontr)
      assume "\<not> prefix t0 before"
      then have "c \<in> set t0"
        using t rest by (auto simp: append_eq_append_conv2 append_eq_Cons_conv)
      with none c show False by (auto simp: list_ex_iff)
    qed
    moreover have "t \<noteq> t0" using none c t by (auto simp: list_ex_iff)
    ultimately show ?thesis using backed green_mono(2) by blast
  qed
  then show ?thesis
    using backed green_mono(2) [OF _ grown] unfolding commits_green_def by blast
qed

lemma grows_finish [grows]: "upholds history_grows (finish_dev_agent_with_broker E R v)"
  unfolding finish_dev_agent_with_broker_def finalize_accepted_dev_done_def
  by (auto intro!: grows grows_dev_finish split: option.split)

lemma wp_finish:
  assumes "view_ok G cfg (rs_trace s) v"
  shows "wp (finish_dev_agent_with_broker E R v)
    (\<lambda>r t. (\<exists>fp. green_again G cfg (rs_trace s) fp) \<or> rs_trace t = rs_trace s \<and> fst r \<noteq> EventDevDone) s"
proof (cases "\<exists>fp. green_again G cfg (rs_trace s) fp")
  case True
  then show ?thesis by (simp add: wp_def)
next
  case False
  with assms have no: "db_dev_done v = None \<or> db_accept_fp v = None" "\<not> db_tree_green v"
    by (auto simp: view_ok_def)
  then show ?thesis
    by (cases "db_dev_done v"; cases "db_accept_fp v"; cases "db_recovered v"; cases "finish_without_accepted v")
      (auto simp: finish_dev_agent_with_broker_def finalize_accepted_dev_done_def wp_return)
qed

lemma started_broker_inv:
  "green_inv G t (dev_invocation_broker R rnd attempt path cbm dir)"
  "gb_check_cfg (dev_invocation_broker R rnd attempt path cbm dir) =
     \<lparr>cc_worktree = dev_worktree_path R, cc_command = r_verify_command R, cc_env = [(''PATH'', path)]\<rparr>"
  by (auto simp: dev_invocation_broker_def with_cbm_def start_gm_for_role_def green_inv_def new_broker_def
      SetAllowedTools_def ConfigureProjectCheck_def SetInvocationIdentity_def ConfigureCBM_def split: option.split)

lemma serve_keeps_fixed: "fixed_part (snd (run_value (serve G f qs b) s)) = fixed_part b"
proof (induction qs arbitrary: b s)
  case (Cons q qs)
  then show ?case
    using keepsD [OF dispatch_keeps_fixed [of b G f q], of s] by (simp add: run_serve_Cons Let_def del: serve.simps)
qed simp

text \<open>
  C12: Before each commit of a dev invocation, and before its report that the work is done, the project
  check of this invocation was green, the worktree was looked at right after it, and a second look,
  begun after the first one had ended, gave the same fingerprint: whatever the agent requests of the
  broker, in whatever order, and whatever the commands answer.
\<close>

theorem done_means_checked:
  "wp (served_dev_invocation G R rnd attempt path cbm dir qs)
     (\<lambda>r t. commits_green G
        \<lparr>cc_worktree = dev_worktree_path R, cc_command = r_verify_command R, cc_env = [(''PATH'', path)]\<rparr> r (rs_trace t))
     (s\<lparr>rs_trace := []\<rparr>)"
proof -
  let ?b0 = "dev_invocation_broker R rnd attempt path cbm dir" and ?s0 = "s\<lparr>rs_trace := []\<rparr>"
  let ?m = "serve G (fetch_issue_md G (r_issue_num R) (r_dev_token R)) qs ?b0"
  define b where "b = snd (run_value ?m ?s0)"
  define s1 where "s1 = final_state ?m ?s0"
  define s2 where "s2 = final_state (dev_broker_view G b) s1"
  have cfg: "gb_check_cfg b = gb_check_cfg ?b0"
    using serve_keeps_fixed [of G _ qs ?b0] by (simp add: b_def fixed_part_def)
  have "green_inv G (rs_trace s1) b"
    using wp_serve_green [OF grows_fetch_issue started_broker_inv(1)] by (simp add: wp_def b_def s1_def)
  then have view: "view_ok G (gb_check_cfg ?b0) (rs_trace s2) (run_value (dev_broker_view G b) s1)"
    using wp_view [of G s1 b] cfg by (simp add: wp_def s2_def)
  have "only_calls (\<lambda>c. \<not> is_commit c) ?s0 s1" "only_calls (\<lambda>c. \<not> is_commit c) s1 s2"
    using upholdsD [OF no_commit_serve] upholdsD [OF no_commit_view] by (simp_all add: s1_def s2_def)
  then have none: "\<not> list_ex is_commit (rs_trace s2)"
    by (auto simp: only_calls_def list_all_iff list_ex_iff)
  let ?f = "finish_dev_agent_with_broker (gm_env G) R (run_value (dev_broker_view G b) s1)"
  have "(\<exists>fp. green_again G (gb_check_cfg ?b0) (rs_trace s2) fp) \<or>
      rs_trace (final_state ?f s2) = rs_trace s2 \<and> fst (run_value ?f s2) \<noteq> EventDevDone"
    using wp_finish [OF view, of "gm_env G" R] by (simp add: wp_def)
  from commits_greenI [OF none trace_grows [OF grows_finish] this] show ?thesis
    by (simp add: served_dev_invocation_def wp_def split_beta started_broker_inv(2)
        b_def [symmetric] s1_def [symmetric] s2_def [symmetric])
qed

section \<open>What an approval rests on\<close>

text \<open>A stored approval found the tree of a good precheck again.\<close>

definition approval_backed :: "gm_host \<Rightarrow> call list \<Rightarrow> reviewer_access \<Rightarrow> review_params option \<Rightarrow> bool" where
  "approval_backed G t cfg review \<longleftrightarrow>
     (case review of
        Some p \<Rightarrow>
          if rp_verdict p = ''approved''
          then (case rt_precheck cfg of
                  Some pre \<Rightarrow> ps_ok pre \<and> ps_before pre = ps_after pre \<and>
                    (\<exists>s. prefix (rs_trace s) t \<and> run_value (compute_fingerprint G (rt_worktree cfg)) s = Inr (ps_after pre))
                | None \<Rightarrow> False)
          else rp_verdict p = ''changes_requested''
      | None \<Rightarrow> True)"

lemma approval_mono: "approval_backed G t cfg r \<Longrightarrow> prefix t u \<Longrightarrow> approval_backed G u cfg r"
  unfolding approval_backed_def by (auto split: option.splits if_splits intro: prefix_order.trans)

lemma valid_verdict:
  "validate_review_submit_params G raw = Inr p \<Longrightarrow> rp_verdict p = ''approved'' \<or> rp_verdict p = ''changes_requested''"
  by (auto simp: validate_review_submit_params_def Let_def split: option.splits if_splits)

lemma wp_review_backed:
  assumes "approval_backed G (rs_trace s) (gb_reviewer b) (gb_review b)"
  shows "wp (handle_review_submit G call raw b) (\<lambda>r t. approval_backed G (rs_trace t) (gb_reviewer (snd r)) (gb_review (snd r))) s"
proof -
  let ?m = "handle_review_submit G call raw b"
  have post: "submit_post G call raw b s (run_value ?m s)" by (rule handle_review_submit_post)
  have cfg: "gb_reviewer (snd (run_value ?m s)) = gb_reviewer b"
    using keepsD [OF review_keeps_fixed [of b G call raw], of s] by (simp add: fixed_part_def)
  have grown: "prefix (rs_trace s) (rs_trace (final_state ?m s))" by (rule trace_grows [OF grows_review])
  have old: "approval_backed G (rs_trace (final_state ?m s)) (gb_reviewer b) (gb_review b)"
    by (rule approval_mono [OF assms grown])
  have new: "approval_backed G (rs_trace (final_state ?m s)) (gb_reviewer b) (Some p)"
    if "validate_review_submit_params G raw = Inr p" and "rp_verdict p = ''approved'' \<longrightarrow> review_gate_open G b s" for p
    using that(2) valid_verdict [OF that(1)] grown
    by (auto simp: approval_backed_def review_gate_open_def split: option.splits)
  have "gb_review (snd (run_value ?m s)) = gb_review b \<or>
      (\<exists>p. validate_review_submit_params G raw = Inr p \<and> (rp_verdict p = ''approved'' \<longrightarrow> review_gate_open G b s) \<and>
         gb_review (snd (run_value ?m s)) = Some p)"
    using post by (auto simp: submit_post_def split: prod.splits option.splits sum.splits if_splits)
  then show ?thesis using old new cfg by (auto simp: wp_def)
qed

lemma backed_unchanged:
  assumes "approval_backed G (rs_trace s) (gb_reviewer b) (gb_review b)" and "upholds history_grows m"
    and "gb_review (snd (run_value m s)) = gb_review b" and "fixed_part (snd (run_value m s)) = fixed_part b"
  shows "wp m (\<lambda>r t. approval_backed G (rs_trace t) (gb_reviewer (snd r)) (gb_review (snd r))) s"
  using approval_mono [OF assms(1) trace_grows [OF assms(2)]] assms(3,4) by (simp add: wp_def fixed_part_def)

lemma wp_dispatch_backed:
  assumes inv: "approval_backed G (rs_trace s) (gb_reviewer b) (gb_review b)" and f: "upholds history_grows f"
  shows "wp (gm_dispatch G f q b) (\<lambda>r t. approval_backed G (rs_trace t) (gb_reviewer (snd r)) (gb_review (snd r))) s"
proof (cases "refuse_request q b = None \<and> gq_tool q = ''gm_review_submit''")
  case True
  then show ?thesis using wp_review_backed [OF inv] by (simp add: gm_dispatch_def)
next
  case False
  have "gb_review (snd (run_value (gm_dispatch G f q b) s)) = gb_review b"
  proof (cases "refuse_request q b = None \<and> gq_tool q = ''gm_dev_done''")
    case True
    then show ?thesis
      using keepsD [OF dev_done_keeps_review [of b G "gq_call_id q" "gq_params q"], of s]
      by (simp add: gm_dispatch_def review_part_def)
  next
    case not_dev: False
    with False have "refuse_request q b \<noteq> None \<or> \<not> is_terminal_tool (gq_tool q)"
      by (auto simp: is_terminal_tool_def)
    from keepsD [OF dispatch_keeps_terminal [OF this], of G f s] show ?thesis by (simp add: terminal_part_def)
  qed
  then show ?thesis
    using backed_unchanged [OF inv grows_dispatch [OF f]] keepsD [OF dispatch_keeps_fixed [of b G f q], of s] by blast
qed

lemma wp_serve_backed:
  assumes "upholds history_grows f"
  shows "approval_backed G (rs_trace s) (gb_reviewer b) (gb_review b) \<Longrightarrow>
    wp (serve G f qs b) (\<lambda>r t. approval_backed G (rs_trace t) (gb_reviewer (snd r)) (gb_review (snd r))) s"
proof (induction qs arbitrary: b s)
  case (Cons q qs)
  let ?r = "snd (run_value (gm_dispatch G f q b) s)" and ?s = "final_state (gm_dispatch G f q b) s"
  have "approval_backed G (rs_trace ?s) (gb_reviewer ?r) (gb_review ?r)"
    using wp_dispatch_backed [OF Cons.prems assms] by (simp add: wp_def)
  from Cons.IH [OF this] show ?case by (simp add: wp_def split_beta)
qed (simp add: wp_return)

text \<open>A reviewer invocation: its broker serves the requests, the runner captures its state.\<close>

definition served_reviewer_invocation ::
  "gm_host \<Rightarrow> rconfig \<Rightarrow> int \<Rightarrow> int \<Rightarrow> reviewer_access \<Rightarrow> (string \<times> string) option \<Rightarrow> string \<Rightarrow> gm_request list \<Rightarrow>
     reviewer_state M" where
  "served_reviewer_invocation G R rnd attempt cfg cbm dir qs =
     do {
       (_, b) \<leftarrow> serve G (fetch_issue_md G (r_issue_num R) (r_dev_token R)) qs
         (reviewer_invocation_broker R rnd attempt cfg cbm dir);
       ret (capture_reviewer_state b)
     }"

text \<open>
  C13: A review the runner gets from a reviewer invocation has one of the two verdicts, and an approval
  is backed: the precheck of the invocation was ok and left the tree alone, and the worktree was
  found with the fingerprint of the precheck when the approval came in.
\<close>

theorem approval_needs_precheck:
  "wp (served_reviewer_invocation G R rnd attempt cfg cbm dir qs)
     (\<lambda>st t. approval_backed G (rs_trace t) cfg (rv_params st)) s"
proof -
  let ?b0 = "reviewer_invocation_broker R rnd attempt cfg cbm dir"
  let ?m = "serve G (fetch_issue_md G (r_issue_num R) (r_dev_token R)) qs ?b0"
  have b0: "gb_reviewer ?b0 = cfg" "gb_review ?b0 = None"
    by (auto simp: reviewer_invocation_broker_def with_cbm_def start_gm_for_role_def new_broker_def
        SetAllowedTools_def SetReviewerConfig_def SetInvocationIdentity_def ConfigureCBM_def split: option.split)
  have "wp ?m (\<lambda>r t. approval_backed G (rs_trace t) (gb_reviewer (snd r)) (gb_review (snd r))) s"
    by (rule wp_serve_backed [OF grows_fetch_issue]) (simp add: b0 approval_backed_def)
  moreover have "gb_reviewer (snd (run_value ?m s)) = cfg"
    using serve_keeps_fixed [of G _ qs ?b0 s] b0 by (simp add: fixed_part_def)
  ultimately show ?thesis
    by (simp add: served_reviewer_invocation_def wp_def split_beta capture_reviewer_state_def review_submit_result_def)
qed

end
