(* ===== verification/Gm_Requests.thy ===== *)
theory Gm_Requests
  imports Gm_Safety
begin

text \<open>
  Properties of the broker's requests and of the tools that are not terminal: a request is decoded
  to what the extension sent, the CBM broker is asked for the configured project only, the
  directory listing stays inside the worktree, and what decides whether a comment's line is
  called invalid.
\<close>

section \<open>Requests\<close>

text \<open>
  The text of a request, as the extension writes it: \<open>JSON.stringify\<close> escapes the quote, the backslash
  and the control characters only, so unlike in \<open>json_text\<close> the characters of HTML and the line
  separators stay, and what is not ASCII goes to the socket as UTF-8. A text of the extension that
  has no lone surrogate is valid UTF-8 here.
\<close>

definition js_escape :: "char \<Rightarrow> string" where
  "js_escape c =
     (let n = of_char c :: nat in
      if n = 34 then [CHR 0x5C, CHR 0x22] else if n = 92 then [CHR 0x5C, CHR 0x5C]
      else if n = 8 then [CHR 0x5C, CHR ''b''] else if n = 12 then [CHR 0x5C, CHR ''f'']
      else if n = 10 then [CHR 0x5C, CHR ''n''] else if n = 13 then [CHR 0x5C, CHR ''r'']
      else if n = 9 then [CHR 0x5C, CHR ''t'']
      else if n < 32
      then [CHR 0x5C, CHR ''u'', CHR ''0'', CHR ''0'', hex_digit (n div 16), hex_digit (n mod 16)]
      else [c])"

definition js_quote :: "string \<Rightarrow> string" where
  "js_quote s = [CHR 0x22] @ concat (map js_escape s) @ [CHR 0x22]"

fun js_text :: "json \<Rightarrow> string" where
  "js_text JNull = ''null''"
| "js_text (JBool b) = (if b then ''true'' else ''false'')"
| "js_text (JNum t) = t"
| "js_text (JStr s) = js_quote s"
| "js_text (JArr xs) = ''['' @ join_with '','' (map js_text xs) @ '']''"
| "js_text (JObj kvs) =
     ''{'' @ join_with '','' (map (\<lambda>kv. js_quote (fst kv) @ '':'' @ js_text (snd kv)) kvs) @ ''}''"

definition request_json :: "gm_request \<Rightarrow> json \<Rightarrow> json" where
  "request_json q params =
     JObj [(''runId'', JStr (gq_run_id q)), (''invocationId'', JStr (gq_invocation_id q)), (''role'', JStr (gq_role q)),
       (''tool'', JStr (gq_tool q)), (''callId'', JStr (gq_call_id q)), (''params'', params)]"

definition request_text :: "gm_request \<Rightarrow> json \<Rightarrow> string" where
  "request_text q params = js_text (request_json q params) @ [newline]"

text \<open>\<open>JSON.stringify\<close> is a printer that the parser undoes.\<close>

lemma js_escape_ascii:
  assumes "is_ascii c"
  shows "parse_chars (Suc k) (js_escape c @ t) = prepend [c] (parse_chars k t)"
proof (cases "(of_char c :: nat) \<in> {38, 60, 62}")
  case True
  then have "c \<noteq> CHR 0x22" "c \<noteq> CHR 0x5C" "js_escape c = [c]" by (auto simp: js_escape_def)
  with True assms show ?thesis by auto
next
  case False
  then have "js_escape c = escape_char c" by (simp add: js_escape_def escape_char_def Let_def)
  then show ?thesis using parse_escape_char [OF assms] by simp
qed

lemma js_escape_high: "\<not> is_ascii c \<Longrightarrow> js_escape c = [c]"
  by (simp add: js_escape_def is_ascii_def Let_def)

lemma js_escape_head: "is_ascii c \<Longrightarrow> \<exists>y ys. js_escape c = y # ys \<and> is_ascii y"
  by (auto simp: js_escape_def Let_def)

lemma js_head:
  assumes "concat (map js_escape s) @ CHR 0x22 # r = b # t" and "\<not> is_ascii b"
  obtains s' where "s = b # s'" "t = concat (map js_escape s') @ CHR 0x22 # r"
proof (cases s)
  case (Cons x xs)
  then show thesis
    using assms that js_escape_head [of x] js_escape_high [of x] by (cases "is_ascii x") auto
qed (use assms in auto)

text \<open>What stands in front of a text that starts no rune starts none in front of its quoted form either.\<close>

lemma js_broken:
  assumes "rune_length (c # cs) = 1"
  shows "rune_length (c # concat (map js_escape cs) @ CHR 0x22 # rest) = 1"
proof (cases "c # concat (map js_escape cs) @ CHR 0x22 # rest" rule: rune_cases)
  case (2 a b t)
  then obtain cs' where "cs = b # cs'" using starts_high(1) [OF 2(2)] by (auto elim: js_head)
  then show ?thesis using assms 2 rune_two [of a b cs'] by simp
next
  case (3 a b d t)
  then obtain cs' where "cs = b # cs'" "d # t = concat (map js_escape cs') @ CHR 0x22 # rest"
    using starts_high(2) [OF 3(2)] by (auto elim: js_head)
  moreover from this obtain cs'' where "cs' = d # cs''" using starts_high(2) [OF 3(2)] by (metis js_head)
  ultimately show ?thesis using assms 3 rune_three [of a b d cs''] by simp
next
  case (4 a b d e t)
  then obtain cs' where b: "cs = b # cs'" "d # e # t = concat (map js_escape cs') @ CHR 0x22 # rest"
    using starts_high(3) [OF 4(2)] by (auto elim: js_head)
  then obtain cs'' where d: "cs' = d # cs''" "e # t = concat (map js_escape cs'') @ CHR 0x22 # rest"
    using starts_high(3) [OF 4(2)] by (metis js_head)
  then obtain cs3 where "cs'' = e # cs3" using starts_high(3) [OF 4(2)] by (metis js_head)
  then show ?thesis using assms 4 b(1) d(1) rune_four [of a b d e cs3] by (simp del: rune_length.simps)
qed simp

lemma js_escaped_length: "length s \<le> length (concat (map js_escape s))"
  by (induction s) (auto simp: js_escape_def Let_def)

lemma js_rune:
  assumes "rune_text p"
  shows "parse_chars (Suc k) (concat (map js_escape p) @ t) = prepend p (parse_chars k t)"
proof (cases "list_all is_ascii p")
  case True
  with assms obtain a where "p = [a]" "is_ascii a" by (rule_tac rune_text_cases) (auto dest: starts_high)
  then show ?thesis using js_escape_ascii [of a k t] by (simp del: parse_chars.simps)
next
  case False
  with assms have "list_all (\<lambda>c. \<not> is_ascii c) p"
    by (rule_tac rune_text_cases) (auto dest: starts_high)
  then have "concat (map js_escape p) = p" by (induction p) (simp_all add: js_escape_high)
  then show ?thesis using parse_rune [OF assms] False by (simp del: parse_chars.simps)
qed

lemma parse_js_escaped:
  "length s \<le> k \<Longrightarrow> parse_chars (Suc k) (concat (map js_escape s) @ CHR 0x22 # rest) = Some (to_valid s, rest)"
proof (induction s arbitrary: k rule: text_induct)
  case (rune p t)
  then obtain k' where k: "k = Suc k'" "length t \<le> k'" by (cases k; cases p) auto
  then have "parse_chars k (concat (map js_escape t) @ CHR 0x22 # rest) = Some (to_valid t, rest)"
    using rune.IH [of k'] by simp
  then show ?case
    using js_rune [OF rune(1), of k "concat (map js_escape t) @ CHR 0x22 # rest"]
    by (simp add: to_valid_rune_text [OF rune(1)] prepend_def del: parse_chars.simps to_valid.simps)
next
  case (broken c cs)
  then obtain k' where k: "k = Suc k'" "length cs \<le> k'" by (cases k) auto
  then have "parse_chars k (concat (map js_escape cs) @ CHR 0x22 # rest) = Some (to_valid cs, rest)"
    using broken.IH [of k'] by simp
  moreover have "c \<noteq> CHR 0x22" "\<not> (of_char c :: nat) < 32" using broken(1) by (auto simp: is_ascii_def)
  ultimately show ?case
    using broken js_broken [OF broken(2), of rest]
    by (simp add: js_escape_high prepend_def del: rune_length.simps)
qed simp

interpretation js: json_writer js_quote js_text
proof
  have "parse_chars (Suc (length (concat (map js_escape s) @ CHR 0x22 # rest))) (concat (map js_escape s) @ CHR 0x22 # rest) =
      Some (to_valid s, rest)" for s rest
    using js_escaped_length [of s] by (intro parse_js_escaped) simp
  then show "\<exists>body. js_quote s = CHR 0x22 # body \<and>
      (\<forall>rest. parse_chars (Suc (length (body @ rest))) (body @ rest) = Some (to_valid s, rest))" for s
    by (intro exI [of _ "concat (map js_escape s) @ [CHR 0x22]"]) (simp add: js_quote_def del: parse_chars.simps)
qed (simp_all add: member_with_def [abs_def])

section \<open>The text of a member\<close>

text \<open>The members of a written object, each with the very text that was written.\<close>

context json_writer begin

lemma members_written:
  "(\<forall>kv\<in>set kvs. numbers_ok (snd kv)) \<Longrightarrow> kvs \<noteq> [] \<Longrightarrow> length kvs \<le> n \<Longrightarrow>
     raw_members n (join_with '','' (map (member_with quote printed) kvs) @ CHR 0x7D # rest) =
       map (\<lambda>kv. (to_valid (fst kv), printed (snd kv))) kvs"
proof (induction kvs arbitrary: n)
  case (Cons kv kvs)
  note prems = Cons.prems and IH = Cons.IH
  obtain m where n: "n = Suc m" using prems(3) by (cases n) auto
  obtain k v where kv: "kv = (k, v)" by (cases kv)
  have wf: "numbers_ok v" using prems(1) kv by simp
  obtain c cs where start: "printed v = c # cs" "value_start c" using written_start [OF wf] by blast
  obtain body where body: "quote k = CHR 0x22 # body"
      "\<And>t. parse_chars (Suc (length (body @ t))) (body @ t) = Some (to_valid k, t)"
    using quoted [of k] by blast
  have member: "raw_members (Suc m) (member_with quote printed kv @ d # t) =
      (to_valid k, printed v) # (if d = CHR '','' then raw_members m t else [])"
    if d: "ends_value (d # t)" "\<not> is_json_ws d" for d t
  proof -
    let ?v = "printed v @ d # t"
    have skip: "skip_ws ?v = ?v" using start by simp
    have parsed: "parse_value (2 * length ?v + 2) ?v = Some (coerced v, d # t)"
      by (rule reads_backD [OF written_back [OF wf] _ d(1)]) simp
    have shape: "member_with quote printed kv @ d # t = CHR 0x22 # body @ CHR '':'' # ?v"
      by (simp add: member_with_def body(1) kv)
    have rest: "skip_ws (d # t) = d # t" using d(2) by (simp add: skip_ws_def)
    show ?thesis
      unfolding shape raw_members.simps
      using body(2) [of "CHR '':'' # ?v"] parsed skip rest
      by (simp add: Let_def del: parse_chars.simps parse_value.simps)
  qed
  show ?case
  proof (cases kvs)
    case Nil
    then show ?thesis using member [of "CHR 0x7D" rest] n kv by (simp add: is_json_ws_def)
  next
    case (Cons w ws)
    have "join_with '','' (map (member_with quote printed) (kv # kvs)) @ CHR 0x7D # rest =
        member_with quote printed kv @ CHR '','' # (join_with '','' (map (member_with quote printed) kvs) @ CHR 0x7D # rest)"
      using Cons by simp
    moreover have "raw_members m (join_with '','' (map (member_with quote printed) kvs) @ CHR 0x7D # rest) =
        map (\<lambda>kv. (to_valid (fst kv), printed (snd kv))) kvs"
      using prems n Cons by (intro IH) auto
    ultimately show ?thesis
      using member [of "CHR '',''"] n kv by (simp add: is_json_ws_def)
  qed
qed simp

lemma field_written:
  assumes "numbers_ok (JObj kvs)" "kvs \<noteq> []"
  shows "raw_field k (printed (JObj kvs) @ rest) =
    (case find_last (\<lambda>kv. key_matches k (fst kv)) (map (\<lambda>kv. (to_valid (fst kv), printed (snd kv))) kvs) of
       Some kv \<Rightarrow> snd kv | None \<Rightarrow> [])"
proof -
  let ?t = "join_with '','' (map (member_with quote printed) kvs) @ CHR 0x7D # rest"
  have shape: "printed (JObj kvs) @ rest = CHR 0x7B # ?t"
    by (simp add: printed_object)
  have "length kvs \<le> length (join_with '','' (map (member_with quote printed) kvs))"
  proof (induction kvs)
    case (Cons kv kvs)
    then show ?case by (cases kvs) (auto simp: member_with_def)
  qed simp
  then have "raw_members (length ?t) ?t = map (\<lambda>kv. (to_valid (fst kv), printed (snd kv))) kvs"
    using assms by (intro members_written) (auto simp: list_all_iff)
  then show ?thesis
    unfolding raw_field_def shape by (simp add: skip_ws_punct)
qed

end

text \<open>
  C15: A request that the extension writes with \<open>JSON.stringify\<close> is decoded to its fields, where they are
  valid UTF-8, and the parameters to the very text that was written, whatever characters it has:
  the comparison that tells a repeated terminal call from another one sees what the agent sent.
\<close>

theorem request_round_trip:
  assumes "numbers_ok params"
    and "list_all valid_utf8 [gq_run_id q, gq_invocation_id q, gq_role q, gq_tool q, gq_call_id q]"
  shows "decode_request (request_text q params) = Some (q\<lparr>gq_params := js_text params\<rparr>)"
proof -
  have ok: "numbers_ok (request_json q params)"
    using assms(1) by (simp add: request_json_def)
  have "parse_value (2 * length (request_text q params) + 2) (request_text q params) =
      Some (coerced (request_json q params), [newline])"
    unfolding request_text_def by (rule reads_backD [OF js.written_back [OF ok]]) simp_all
  then have first: "decode_first (request_text q params) = Some (coerced (request_json q params))"
    by (simp add: decode_first_def del: parse_value.simps)
  have raw: "raw_field ''params'' (request_text q params) = js_text params"
    unfolding request_text_def request_json_def
    by (subst js.field_written) (use ok in \<open>simp_all add: request_json_def key_matches_def to_lower_def to_lower_char_def\<close>)
  show ?thesis
    unfolding decode_request_def first raw
    using assms(2) by (simp add: request_json_def json_dec_defs to_lower_def to_lower_char_def to_valid_id)
qed

text \<open>A body with characters of HTML, a line break and a line separator.\<close>

definition sample_body :: string where
  "sample_body = ''a<b> & c'' @ [newline, CHR 0xE2, CHR 0x80, CHR 0xA8]"

theorem request_round_trip_witness:
  "decode_request (request_text \<lparr>gq_run_id = ''r'', gq_invocation_id = ''i'', gq_role = ''dev'', gq_tool = ''gm_dev_done'',
       gq_call_id = ''1'', gq_params = []\<rparr> (JObj [(''prBody'', JStr sample_body)])) =
     Some \<lparr>gq_run_id = ''r'', gq_invocation_id = ''i'', gq_role = ''dev'', gq_tool = ''gm_dev_done'', gq_call_id = ''1'',
       gq_params = js_text (JObj [(''prBody'', JStr sample_body)])\<rparr>"
  by (subst request_round_trip) simp_all

section \<open>Comments\<close>

text \<open>What is in an element is in the joined text, and lower case does not matter.\<close>

lemma contains_join:
  "x \<in> set xs \<Longrightarrow> contains_sub p (to_lower x) \<Longrightarrow> contains_sub p (to_lower (join_with sep xs))"
proof (induction sep xs rule: join_with.induct)
  case (3 sep a b xs)
  then show ?case by (auto intro: contains_sub_append_left contains_sub_append_right)
qed simp_all

lemma run_gh_fails:
  "e_exec (gm_env G) (rs_trace s) (Cmd [(''GH_TOKEN'', token)] dir (''gh'' # args)) = Inl e \<Longrightarrow>
     run_value (run_gh_with_env G token dir args) s = Inl (wrap_err (''gh '' @ join_with '' '' args @ '': '') e)"
  by (simp add: run_gh_with_env_def run_handle run_with_token_def exec_def run_value_call_env)

definition comment_call :: "reviewer_access \<Rightarrow> string \<Rightarrow> comment_params \<Rightarrow> cmd" where
  "comment_call cfg review p = Cmd [(''GH_TOKEN'', rt_token cfg)] (rt_repo_root cfg) (''gh'' # add_comment_args review p)"

lemma comment_failure:
  assumes "e_exec (gm_env G) (rs_trace s) (comment_call cfg review p) = Inl e"
  shows "run_value (add_review_comment G cfg review p) s =
    (if is_review_anchor_error (''gh '' @ join_with '' '' (add_comment_args review p) @ '': '' @ err_text e)
     then AnchorInvalid
     else CommentFailed (wrap_err ''add review thread: ''
       (wrap_err (''gh '' @ join_with '' '' (add_comment_args review p) @ '': '') e)))"
  using run_gh_fails [OF assms [unfolded comment_call_def]]
  by (simp add: add_review_comment_def run_handle)

lemma phrase_in_body:
  assumes "contains_sub ''not part of'' (to_lower (cp_body p))"
  shows "is_review_anchor_error (''gh '' @ join_with '' '' (add_comment_args review p) @ t)"
proof -
  have "contains_sub ''not part of'' (to_lower (''body='' @ cp_body p))"
    unfolding to_lower_append by (rule contains_sub_append_left [OF assms])
  then have "contains_sub ''not part of'' (to_lower (join_with '' '' (add_comment_args review p)))"
    by (rule contains_join [rotated]) (simp add: add_comment_args_def)
  then show ?thesis
    unfolding is_review_anchor_error_def to_lower_append
    by (intro disjI2 contains_sub_append_left contains_sub_append_right)
qed

text \<open>
  When \<open>gh\<close> fails to add a comment, the text of the comment itself can decide that its line is
  called invalid: a body with the words that are looked for turns every failure, of the network or
  of the token too, into an answer that the line is not part of the diff.
\<close>

theorem comment_text_decides_anchor:
  "case e_exec (gm_env G) (rs_trace s) (comment_call cfg review p) of
     Inl e \<Rightarrow>
       if contains_sub ''not part of'' (to_lower (cp_body p))
       then run_value (add_review_comment G cfg review p) s = AnchorInvalid
       else True
   | Inr _ \<Rightarrow> True"
proof (cases "e_exec (gm_env G) (rs_trace s) (comment_call cfg review p)")
  case (Inl e)
  have "contains_sub ''not part of'' (to_lower (cp_body p)) \<Longrightarrow>
      run_value (add_review_comment G cfg review p) s = AnchorInvalid"
    unfolding comment_failure [OF Inl] by (simp only: phrase_in_body if_True)
  then show ?thesis by (simp only: Inl sum.case if_bool_eq_conj simp_thms) blast
qed simp

section \<open>The CBM broker\<close>

text \<open>A line to the CBM broker: the listing of its tools, or a call for the configured project.\<close>

definition cbm_line :: "string \<Rightarrow> string \<Rightarrow> string \<Rightarrow> bool" where
  "cbm_line sub project line \<longleftrightarrow>
     line = tools_list_request \<or>
     (\<exists>args. line = cbm_marshal_request sub args \<and> distinct (map fst args) \<and> map_of args ''project'' = Some (JStr project))"

definition cbm_request :: "string \<Rightarrow> string \<Rightarrow> string \<Rightarrow> call \<Rightarrow> bool" where
  "cbm_request sock sub project c \<longleftrightarrow>
     (case c of CExec (Cmd [] dir [line]) _ \<Rightarrow> dir = sock \<and> cbm_line sub project line | _ \<Rightarrow> False)"

lemma map_of_decoded: "map_of (decode_raw_args G kvs) k = map_option (through_interface G) (map_of kvs k)"
  by (induction kvs) (auto simp: decode_raw_args_def)

lemma calls_socket: "(\<And>r. A (CExec (Cmd [] sock [line]) r)) \<Longrightarrow> upholds (only_calls A) (socket_call G sock line)"
  unfolding socket_call_def by (rule calls_call_env)

lemma last_values_distinct [simp]: "distinct (map fst (last_values kvs))"
  by (simp add: last_values_def comp_def)

lemma args_distinct:
  "(if raw = [] then Some [] else unmarshal_into dec_args raw) = Some args \<Longrightarrow> distinct (map fst args)"
  by (auto simp: unmarshal_into_def dec_args_def split: if_splits option.splits json.splits)

lemma parse_args_ends:
  "ends (parse_and_validate_code_args G sub sock raw b)
     (\<lambda>r _. case fst r of Inr kvs \<Rightarrow> distinct (map fst kvs) \<and> map_of kvs ''project'' = None | Inl _ \<Rightarrow> True)"
  unfolding parse_and_validate_code_args_def
  by (intro ends_option ends_if ends_return ends_bind ends_prod) (auto dest: args_distinct split: option.split)

lemma upholds_via:
  assumes "upholds (only_calls A) m" and "ends m (\<lambda>r _. P r)" and "\<And>r. P r \<Longrightarrow> upholds (only_calls A) (f r)"
  shows "upholds (only_calls A) (State_Monad.bind m f)"
  unfolding upholds_def
proof
  fix s
  have "P (run_value m s)" using ends_value [OF assms(2)] .
  then show "only_calls A s (final_state (State_Monad.bind m f) s)"
    using upholdsD [OF assms(1), of s] upholdsD [OF assms(3), of "run_value m s" "final_state m s"]
    by (simp add: calls.rel_trans)
qed

text \<open>
  A \<open>gm_code\<close> call reaches the CBM broker of the invocation only, with the listing of the tools
  or with the mapped tool and arguments in which the project is the configured one, once, whatever
  the agent put into the parameters.
\<close>

theorem code_calls_stay_in_project:
  "upholds (only_calls (cbm_request (gb_cbm_sock b) sub (gb_cbm_project b))) (handle_code_tool G sub raw b)"
proof -
  let ?A = "cbm_request (gb_cbm_sock b) sub (gb_cbm_project b)"
  have list_ok: "upholds (only_calls ?A) (socket_call G (gb_cbm_sock b) tools_list_request)"
    by (rule calls_socket) (simp add: cbm_request_def cbm_line_def)
  have call_ok: "upholds (only_calls ?A) (cbm_proxy_call G (gb_cbm_sock b) sub
      (decode_raw_args G (kvs @ [(''project'', JStr (gb_cbm_project b))])))"
    if "distinct (map fst kvs)" and "map_of kvs ''project'' = None" for kvs
  proof -
    let ?args = "decode_raw_args G (kvs @ [(''project'', JStr (gb_cbm_project b))])"
    have "map fst ?args = map fst kvs @ [''project'']" by (simp add: decode_raw_args_def comp_def)
    with that have "distinct (map fst ?args)" by (simp add: map_of_eq_None_iff)
    moreover have "map_of ?args ''project'' = Some (JStr (gb_cbm_project b))"
      using that(2) by (simp add: map_of_decoded map_add_def)
    ultimately have "?A (CExec (Cmd [] (gb_cbm_sock b) [cbm_marshal_request sub ?args]) r)" for r
      unfolding cbm_request_def cbm_line_def by auto
    then show ?thesis unfolding cbm_proxy_call_def by (intro emits calls_socket)
  qed
  have parse_ok: "upholds (only_calls ?A) (parse_and_validate_code_args G sub (gb_cbm_sock b) raw b)"
    unfolding parse_and_validate_code_args_def validate_args_against_schema_def get_cbm_schema_def
      fetch_cbm_schema_from_socket_def
    by (intro emits list_ok)
  show ?thesis
    unfolding handle_code_tool_def
    by (intro emits upholds_via [OF parse_ok parse_args_ends]; intro emits call_ok; auto)
qed

section \<open>The worktree\<close>

text \<open>The components of an absolute path, cleaned.\<close>

definition path_parts :: "string \<Rightarrow> string list" where
  "path_parts p = clean_components True [] (split_on (CHR ''/'') p)"

definition plain_part :: "string \<Rightarrow> bool" where
  "plain_part c \<longleftrightarrow> c \<noteq> [] \<and> c \<noteq> ''.'' \<and> c \<noteq> ''..'' \<and> CHR ''/'' \<notin> set c"

lemma clean_plain:
  "list_all plain_part acc \<Longrightarrow> \<forall>c\<in>set cs. CHR ''/'' \<notin> set c \<Longrightarrow> list_all plain_part (clean_components True acc cs)"
proof (induction cs arbitrary: acc)
  case Nil
  then show ?case by (simp add: list_all_iff)
next
  case (Cons c cs)
  have "list_all plain_part (tl acc)" using Cons.prems(1) by (cases acc) simp_all
  with Cons have "list_all plain_part (clean_components True (tl acc) cs)"
    "c \<noteq> [] \<Longrightarrow> c \<noteq> ''.'' \<Longrightarrow> c \<noteq> ''..'' \<Longrightarrow> list_all plain_part (clean_components True (c # acc) cs)"
    "list_all plain_part (clean_components True acc cs)"
    by (simp_all add: plain_part_def [of c])
  then show ?case by simp
qed

lemma split_no_sep: "x \<in> set (split_on c s) \<Longrightarrow> c \<notin> set x"
  by (induction s arbitrary: x) (auto split: list.splits if_splits)

lemma parts_plain: "list_all plain_part (path_parts p)"
  unfolding path_parts_def by (rule clean_plain) (auto dest: split_no_sep)

lemma clean_plain_id: "list_all plain_part cs \<Longrightarrow> clean_components True acc cs = rev acc @ cs"
  by (induction cs arbitrary: acc) (auto simp: plain_part_def)

lemma split_join: "cs \<noteq> [] \<Longrightarrow> list_all plain_part cs \<Longrightarrow> split_on (CHR ''/'') (join_with ''/'' cs) = cs"
proof (induction cs)
  case (Cons x xs)
  have x: "split_on (CHR ''/'') x = [x]" if "CHR ''/'' \<notin> set x" for x
    using that by (induction x) auto
  show ?case
  proof (cases xs)
    case Nil
    then show ?thesis using Cons x by (simp add: plain_part_def)
  next
    case (Cons y ys)
    with Cons.prems Cons.IH x [of x] split_on_append_line [of "CHR ''/''" x "join_with ''/'' xs"] show ?thesis
      by (simp add: plain_part_def)
  qed
qed simp

lemma path_clean_abs: "is_abs p \<Longrightarrow> path_clean p = CHR ''/'' # join_with ''/'' (path_parts p)"
  by (simp add: path_clean_def path_parts_def)

lemma path_parts_clean: "list_all plain_part cs \<Longrightarrow> path_parts (CHR ''/'' # join_with ''/'' cs) = cs"
  using clean_plain_id [of cs "[]"] split_join [of cs]
  by (cases "cs = []") (simp_all add: path_parts_def)

lemma resolved_shape:
  assumes "is_abs root" and "resolve_worktree_path root rel = Some p"
  shows "\<exists>cs. list_all plain_part cs \<and> p = CHR ''/'' # join_with ''/'' cs"
proof -
  have "is_abs (join_two root rel)"
    using assms(1) path_clean_abs [of root] path_clean_abs [of "root @ ''/'' @ rel"]
    by (cases root) (auto simp: join_two_def is_abs_def)
  from path_clean_abs [OF this] parts_plain [of "join_two root rel"]
  have "\<exists>cs. list_all plain_part cs \<and> path_clean (join_two root rel) = CHR ''/'' # join_with ''/'' cs" by blast
  moreover have "p = path_clean (join_two root rel)"
    using assms(2) by (auto simp: resolve_worktree_path_def Let_def split: if_splits)
  ultimately show ?thesis by simp
qed

lemma slash_prefix:
  assumes "list_all plain_part cs" "list_all plain_part rs"
    and "join_with ''/'' cs @ ''/'' = join_with ''/'' rs @ ''/'' @ t"
  shows "\<exists>more. cs = rs @ more"
proof (cases "rs = []")
  case False
  have "split_on (CHR ''/'') (join_with ''/'' cs) @ [[]] = rs @ split_on (CHR ''/'') t"
    using split_on_append_line [of "CHR ''/''" "join_with ''/'' cs" "[]"] split_on_append_line [of "CHR ''/''" "join_with ''/'' rs" t]
      split_join [OF False assms(2)] assms(3) by simp
  moreover obtain us where "split_on (CHR ''/'') t = us @ [last (split_on (CHR ''/'') t)]"
    by (metis append_butlast_last_id split_on_nonempty)
  ultimately have split: "split_on (CHR ''/'') (join_with ''/'' cs) = rs @ us"
    by (metis append_assoc append_same_eq butlast_snoc)
  show ?thesis
  proof (cases "cs = []")
    case True
    with split False assms(2) show ?thesis by (cases rs) (auto simp: plain_part_def)
  next
    case False
    with split split_join [OF False assms(1)] show ?thesis by simp
  qed
qed simp

text \<open>
  A directory that \<open>gm_repo_tree\<close> lists is below the worktree by its path: its components are
  those of the worktree and plain names after them, whatever path the reviewer asks for.
\<close>

theorem tree_stays_inside:
  "if is_abs root
   then (case resolve_worktree_path root rel of
           None \<Rightarrow> True
         | Some p \<Rightarrow> \<exists>more. path_parts p = path_parts root @ more \<and> list_all plain_part more)
   else True"
proof (cases "is_abs root \<and> resolve_worktree_path root rel \<noteq> None")
  case True
  then obtain p where abs: "is_abs root" and p: "resolve_worktree_path root rel = Some p" by blast
  obtain cs where cs: "list_all plain_part cs" "p = CHR ''/'' # join_with ''/'' cs"
    using resolved_shape [OF abs p] by blast
  let ?rs = "path_parts root"
  have rs: "list_all plain_part ?rs" "path_clean root = CHR ''/'' # join_with ''/'' ?rs"
    by (rule parts_plain, rule path_clean_abs [OF abs])
  have "p = path_clean root \<or> has_prefix (path_clean root @ ''/'') (p @ ''/'')"
    using p by (auto simp: resolve_worktree_path_def Let_def split: if_splits)
  then have "\<exists>more. cs = ?rs @ more"
  proof
    assume "p = path_clean root"
    then have "CHR ''/'' # join_with ''/'' cs = CHR ''/'' # join_with ''/'' ?rs"
      unfolding cs(2) rs(2) .
    then have "cs = ?rs" using path_parts_clean [OF cs(1)] path_parts_clean [OF rs(1)] by argo
    then show ?thesis by simp
  next
    assume "has_prefix (path_clean root @ ''/'') (p @ ''/'')"
    then obtain t where "join_with ''/'' cs @ ''/'' = join_with ''/'' ?rs @ ''/'' @ t"
      unfolding cs(2) rs(2) by (auto simp: has_prefix_iff)
    then show ?thesis by (rule slash_prefix [OF cs(1) rs(1)])
  qed
  then show ?thesis
    using p path_parts_clean [OF cs(1)] cs by auto
qed auto

end
