(* ===== verification/Gm_Race.thy ===== *)
theory Gm_Race
  imports Gm_Commit
begin

text \<open>
  The GM broker handles every connection in a goroutine of its own. This theory takes the terminal
  calls apart into the sections their mutexes make atomic and lets any number of calls interleave
  with each other and with project checks.
\<close>

section \<open>Calls in progress\<close>

datatype terminal_kind = DevDone | ReviewSubmit

record terminal_call =
  tc_kind :: terminal_kind
  tc_id :: string
  tc_raw :: string

definition tool_of :: "terminal_kind \<Rightarrow> string" where
  "tool_of k = (case k of DevDone \<Rightarrow> ''gm_dev_done'' | ReviewSubmit \<Rightarrow> ''gm_review_submit'')"

definition slot_of :: "terminal_kind \<Rightarrow> gm_broker \<Rightarrow> terminal_slot" where
  "slot_of k b = (case k of DevDone \<Rightarrow> gb_dev_slot b | ReviewSubmit \<Rightarrow> gb_review_slot b)"

definition set_slot :: "terminal_kind \<Rightarrow> terminal_slot \<Rightarrow> gm_broker \<Rightarrow> gm_broker" where
  "set_slot k ts b = (case k of DevDone \<Rightarrow> b\<lparr>gb_dev_slot := ts\<rparr> | ReviewSubmit \<Rightarrow> b\<lparr>gb_review_slot := ts\<rparr>)"

definition finish_slot :: "terminal_call \<Rightarrow> string \<Rightarrow> gm_broker \<Rightarrow> gm_broker" where
  "finish_slot c res b =
     (case tc_kind c of
        DevDone \<Rightarrow> finalize_dev_done_terminal (tc_id c) (tc_raw c) res b
      | ReviewSubmit \<Rightarrow> finalize_review_submit_terminal (tc_id c) (tc_raw c) res b)"

text \<open>Where a call is between two critical sections.\<close>

datatype term_phase =
    Arrived
  | Admitted
  | Holding
  | Looked dev_params "check_result option"
  | DevPassed dev_params
  | ReviewPassed review_params
  | Stored
  | Finishing string
  | Answered string

text \<open>What a gate makes of the data it has read and of the fingerprint it was given.\<close>

definition dev_gate_msg :: "check_result option \<Rightarrow> string result \<Rightarrow> string option" where
  "dev_gate_msg check fp =
     (case check of
        None \<Rightarrow> Some ''no prior gm_project_check in this invocation''
      | Some ck \<Rightarrow>
          if \<not> ck_ok ck then Some ''last gm_project_check was not green''
          else (case fp of
              Inl e \<Rightarrow> Some (''failed to compute working-tree fingerprint: '' @ err_text e)
            | Inr current \<Rightarrow>
                if current \<noteq> ck_fingerprint ck then Some ''working tree changed since last gm_project_check'' else None))"

definition review_gate_msg :: "reviewer_access \<Rightarrow> string result \<Rightarrow> string option" where
  "review_gate_msg cfg fp =
     (case rt_precheck cfg of
        None \<Rightarrow> Some ''no precheck result for this invocation; run verify first''
      | Some pre \<Rightarrow>
          if \<not> ps_ok pre then Some ''precheck was not ok (verify failed or tree was mutated)''
          else if ps_before pre \<noteq> ps_after pre then Some ''precheck mutated the working tree''
          else if rt_worktree cfg = [] then Some ''reviewer worktree path not configured''
          else (case fp of
              Inl e \<Rightarrow> Some (''failed to compute current working-tree fingerprint: '' @ err_text e)
            | Inr current \<Rightarrow>
                if current \<noteq> ps_after pre then Some ''working tree changed since precheck'' else None))"

text \<open>
  One critical section of one call, or the end of a project check. \<open>cs\<close> are the calls; the
  fingerprint a gate gets is whatever the worktree gives at that moment.
\<close>

inductive gm_step ::
  "gm_host \<Rightarrow> (nat \<Rightarrow> terminal_call) \<Rightarrow> gm_broker \<times> (nat \<Rightarrow> term_phase) \<Rightarrow> gm_broker \<times> (nat \<Rightarrow> term_phase) \<Rightarrow> bool"
  for G cs where
  conflict: "ph i = Arrived \<Longrightarrow> gb_terminal b \<noteq> [] \<Longrightarrow> gb_terminal b \<noteq> tool_of (tc_kind (cs i)) \<Longrightarrow>
    gm_step G cs (b, ph) (b, ph(i := Answered (err_result ''PROTOCOL_ERROR''
      (tool_of (tc_kind (cs i)) @ '': terminal '' @ gb_terminal b @ '' already accepted in this invocation''))))"
| admit: "ph i = Arrived \<Longrightarrow> gb_terminal b = [] \<or> gb_terminal b = tool_of (tc_kind (cs i)) \<Longrightarrow>
    gm_step G cs (b, ph) (b, ph(i := Admitted))"
| taken: "ph i = Admitted \<Longrightarrow>
    reserve_slot (tool_of (tc_kind (cs i))) [] (tc_id (cs i)) (tc_raw (cs i)) (slot_of (tc_kind (cs i)) b) = (Some res, ts) \<Longrightarrow>
    gm_step G cs (b, ph) (b, ph(i := Answered res))"
| reserve: "ph i = Admitted \<Longrightarrow>
    reserve_slot (tool_of (tc_kind (cs i))) [] (tc_id (cs i)) (tc_raw (cs i)) (slot_of (tc_kind (cs i)) b) = (None, ts) \<Longrightarrow>
    gm_step G cs (b, ph) (set_slot (tc_kind (cs i)) ts b, ph(i := Holding))"
| dev_invalid: "ph i = Holding \<Longrightarrow> tc_kind (cs i) = DevDone \<Longrightarrow> validate_dev_done_params G (tc_raw (cs i)) = Inl res \<Longrightarrow>
    gm_step G cs (b, ph) (b, ph(i := Finishing res))"
| dev_look: "ph i = Holding \<Longrightarrow> tc_kind (cs i) = DevDone \<Longrightarrow> validate_dev_done_params G (tc_raw (cs i)) = Inr p \<Longrightarrow>
    gm_step G cs (b, ph) (b, ph(i := Looked p (gb_last_check b)))"
| dev_reject: "ph i = Looked p check \<Longrightarrow> dev_gate_msg check fp = Some msg \<Longrightarrow>
    gm_step G cs (b, ph) (snd (reject_dev_done_gate msg b), ph(i := Finishing (fst (reject_dev_done_gate msg b))))"
| dev_pass: "ph i = Looked p check \<Longrightarrow> dev_gate_msg check (Inr current) = None \<Longrightarrow>
    gm_step G cs (b, ph) (b\<lparr>gb_fingerprint := current\<rparr>, ph(i := DevPassed p))"
| dev_store: "ph i = DevPassed p \<Longrightarrow>
    gm_step G cs (b, ph) (b\<lparr>gb_dev_done := Some p\<rparr>, ph(i := Stored))"
| review_invalid: "ph i = Holding \<Longrightarrow> tc_kind (cs i) = ReviewSubmit \<Longrightarrow>
    validate_review_submit_params G (tc_raw (cs i)) = Inl res \<Longrightarrow>
    gm_step G cs (b, ph) (release_review_submit_terminal b, ph(i := Answered res))"
| review_plain: "ph i = Holding \<Longrightarrow> tc_kind (cs i) = ReviewSubmit \<Longrightarrow>
    validate_review_submit_params G (tc_raw (cs i)) = Inr p \<Longrightarrow> rp_verdict p \<noteq> ''approved'' \<Longrightarrow>
    gm_step G cs (b, ph) (b, ph(i := ReviewPassed p))"
| review_pass: "ph i = Holding \<Longrightarrow> tc_kind (cs i) = ReviewSubmit \<Longrightarrow>
    validate_review_submit_params G (tc_raw (cs i)) = Inr p \<Longrightarrow> rp_verdict p = ''approved'' \<Longrightarrow>
    review_gate_msg (gb_reviewer b) fp = None \<Longrightarrow>
    gm_step G cs (b, ph) (b, ph(i := ReviewPassed p))"
| review_reject: "ph i = Holding \<Longrightarrow> tc_kind (cs i) = ReviewSubmit \<Longrightarrow>
    validate_review_submit_params G (tc_raw (cs i)) = Inr p \<Longrightarrow> rp_verdict p = ''approved'' \<Longrightarrow>
    review_gate_msg (gb_reviewer b) fp = Some msg \<Longrightarrow>
    gm_step G cs (b, ph) (snd (reject_reviewer_gate msg b), ph(i := Finishing (fst (reject_reviewer_gate msg b))))"
| review_store: "ph i = ReviewPassed p \<Longrightarrow>
    gm_step G cs (b, ph) (b\<lparr>gb_review := Some p\<rparr>, ph(i := Stored))"
| name: "ph i = Stored \<Longrightarrow>
    gm_step G cs (b, ph) (b\<lparr>gb_terminal := tool_of (tc_kind (cs i))\<rparr>, ph(i := Finishing accepted_result))"
| finish: "ph i = Finishing res \<Longrightarrow>
    gm_step G cs (b, ph) (finish_slot (cs i) res b, ph(i := Answered res))"
| check: "gm_step G cs (b, ph) (b\<lparr>gb_last_check := Some ck\<rparr>, ph)"

definition all_arrived :: "nat \<Rightarrow> term_phase" where
  "all_arrived i = Arrived"

section \<open>One holder of a slot\<close>

text \<open>The call is between the reservation and the end of the slot.\<close>

definition inside :: "term_phase \<Rightarrow> bool" where
  "inside p \<longleftrightarrow> (case p of Arrived \<Rightarrow> False | Admitted \<Rightarrow> False | Answered _ \<Rightarrow> False | _ \<Rightarrow> True)"

definition race_inv :: "(nat \<Rightarrow> terminal_call) \<Rightarrow> terminal_kind \<Rightarrow> gm_broker \<times> (nat \<Rightarrow> term_phase) \<Rightarrow> bool" where
  "race_inv cs k w \<longleftrightarrow>
     (\<forall>i. tc_kind (cs i) = k \<longrightarrow> inside (snd w i) \<longrightarrow>
        ts_pending (slot_of k (fst w)) \<and> ts_result (slot_of k (fst w)) = []) \<and>
     (\<forall>i j. tc_kind (cs i) = k \<longrightarrow> tc_kind (cs j) = k \<longrightarrow> inside (snd w i) \<longrightarrow> inside (snd w j) \<longrightarrow> i = j) \<and>
     (\<forall>i. tc_kind (cs i) = k \<longrightarrow> snd w i = Answered accepted_result \<longrightarrow>
        ts_result (slot_of k (fst w)) = accepted_result \<and> ts_call (slot_of k (fst w)) = tc_id (cs i) \<and>
        ts_raw (slot_of k (fst w)) = tc_raw (cs i))"

lemma inside_simps [simp]:
  "\<not> inside Arrived" "\<not> inside Admitted" "inside Holding" "inside (Looked p c)" "inside (DevPassed p)"
  "inside (ReviewPassed r)" "inside Stored" "inside (Finishing x)" "\<not> inside (Answered x)"
  by (simp_all add: inside_def)

text \<open>A step of a call that stays inside, or of nobody, and leaves the slot.\<close>

lemma race_inv_stay:
  assumes "race_inv cs k (b, ph)" and "slot_of k b' = slot_of k b"
    and "tc_kind (cs i) = k \<longrightarrow> (inside x \<longrightarrow> inside (ph i)) \<and> x \<noteq> Answered accepted_result"
  shows "race_inv cs k (b', ph(i := x))"
  using assms unfolding race_inv_def by auto

lemma slot_of_simps [simp]:
  "slot_of k (b\<lparr>gb_fingerprint := f\<rparr>) = slot_of k b" "slot_of k (b\<lparr>gb_dev_done := d\<rparr>) = slot_of k b"
  "slot_of k (b\<lparr>gb_review := r\<rparr>) = slot_of k b" "slot_of k (b\<lparr>gb_terminal := t\<rparr>) = slot_of k b"
  "slot_of k (b\<lparr>gb_last_check := c\<rparr>) = slot_of k b"
  "slot_of k (snd (reject_dev_done_gate m b)) = slot_of k b"
  "slot_of k (snd (reject_reviewer_gate m b)) = slot_of k b"
  by (simp_all add: slot_of_def reject_dev_done_gate_def reject_reviewer_gate_def split: terminal_kind.split)

lemma slot_of_set [simp]: "slot_of k (set_slot j ts b) = (if k = j then ts else slot_of k b)"
  by (cases k; cases j) (simp_all add: slot_of_def set_slot_def)

lemma slot_of_release:
  "slot_of k (release_review_submit_terminal b) =
     (if k = ReviewSubmit then (slot_of k b)\<lparr>ts_pending := False, ts_call := [], ts_raw := []\<rparr> else slot_of k b)"
  by (cases k) (simp_all add: slot_of_def release_review_submit_terminal_def)

lemma slot_of_finish:
  "slot_of k (finish_slot c res b) = (if k = tc_kind c then finalize_slot (tc_id c) (tc_raw c) res else slot_of k b)"
  by (cases k; cases "tc_kind c")
    (simp_all add: slot_of_def finish_slot_def finalize_dev_done_terminal_def finalize_review_submit_terminal_def split_beta)

lemma reserve_pending:
  "reserve_slot tool t call raw ts = (None, ts') \<Longrightarrow> \<not> ts_pending ts \<and> ts_pending ts' \<and> ts_result ts = [] \<and> ts_result ts' = []"
  by (auto simp: reserve_slot_def split: if_splits)

lemma race_inv_inside:
  "race_inv cs k (b, ph) \<Longrightarrow> tc_kind (cs i) = k \<Longrightarrow> inside (ph i) \<Longrightarrow> tc_kind (cs j) = k \<Longrightarrow>
     ph j \<noteq> Answered accepted_result"
  unfolding race_inv_def fst_conv snd_conv by (metis answers_nonempty(2))

lemma race_inv_step:
  assumes "gm_step G cs w w'" and inv: "race_inv cs k w"
  shows "race_inv cs k w'"
  using assms(1)
proof cases
  case (taken ph i b res ts)
  show ?thesis
  proof (cases "res = accepted_result \<and> tc_kind (cs i) = k")
    case True
    then show ?thesis
      using inv taken reserve_accepted [of "tool_of k" "[]" "tc_id (cs i)" "tc_raw (cs i)" "slot_of k b" ts]
      unfolding race_inv_def by auto
  next
    case False
    then show ?thesis using inv taken by (auto intro: race_inv_stay)
  qed
next
  case (reserve ph i b ts)
  then show ?thesis
    using inv reserve_pending [of "tool_of k" "[]" "tc_id (cs i)" "tc_raw (cs i)" "slot_of k b" ts]
    unfolding race_inv_def by (auto simp: answers_nonempty)
next
  case (review_invalid ph i res b)
  then obtain c m where "res = err_result c m" using invalid_is_error(2) by blast
  moreover have "k = ReviewSubmit \<Longrightarrow> tc_kind (cs j) = k \<Longrightarrow> ph j \<noteq> Answered accepted_result" for j
    using race_inv_inside [of cs k b ph i j] inv review_invalid by simp
  ultimately show ?thesis
    using inv review_invalid unfolding race_inv_def by (cases k) (auto simp: slot_of_release)
next
  case (finish ph i res b)
  have "tc_kind (cs i) = k \<Longrightarrow> tc_kind (cs j) = k \<Longrightarrow> ph j \<noteq> Answered accepted_result" for j
    using race_inv_inside [of cs k b ph i j] inv finish by simp
  then show ?thesis
    using inv finish unfolding race_inv_def by (cases "tc_kind (cs i) = k") (auto simp: slot_of_finish finalize_slot_def)
next
  case (check b ph ck)
  then show ?thesis using inv by (simp add: race_inv_def)
qed (use inv in \<open>auto intro!: race_inv_stay\<close>)

lemma race_inv_reachable:
  assumes "(gm_step G cs)\<^sup>*\<^sup>* (b0, all_arrived) w"
  shows "race_inv cs k w"
  using assms
proof (induction rule: rtranclp_induct)
  case base
  show ?case by (simp add: race_inv_def all_arrived_def)
qed (rule race_inv_step)

section \<open>A handler is one uninterrupted run\<close>

lemma run_check_dev_done_gate:
  "run_value (check_dev_done_gate G b) s =
     (case dev_gate_msg (gb_last_check b) (run_value (compute_fingerprint G (cc_worktree (gb_check_cfg b))) s) of
        Some msg \<Rightarrow> (Some (fst (reject_dev_done_gate msg b)), snd (reject_dev_done_gate msg b))
      | None \<Rightarrow>
          (None, b\<lparr>gb_fingerprint := projr (run_value (compute_fingerprint G (cc_worktree (gb_check_cfg b))) s)\<rparr>))"
  by (auto simp: check_dev_done_gate_def dev_gate_msg_def run_handle Let_def split_beta split: option.split sum.split)

lemma run_check_reviewer_gate:
  "run_value (check_reviewer_gate G b) s =
     (case review_gate_msg (gb_reviewer b) (run_value (compute_fingerprint G (rt_worktree (gb_reviewer b))) s) of
        Some msg \<Rightarrow> (Some (fst (reject_reviewer_gate msg b)), snd (reject_reviewer_gate msg b))
      | None \<Rightarrow> (None, b))"
  by (auto simp: check_reviewer_gate_def review_gate_msg_def run_handle Let_def split_beta split: option.split sum.split)

lemma dev_gate_passes: "dev_gate_msg check fp = None \<Longrightarrow> fp = Inr (projr fp)"
  by (auto simp: dev_gate_msg_def split: option.splits if_splits sum.splits)

lemma then_step: "gm_step G cs w w1 \<Longrightarrow> (gm_step G cs)\<^sup>*\<^sup>* w1 w2 \<Longrightarrow> (gm_step G cs)\<^sup>*\<^sup>* w w2"
  by (rule converse_rtranclp_into_rtranclp)

lemma one_step: "gm_step G cs w w1 \<Longrightarrow> (gm_step G cs)\<^sup>*\<^sup>* w w1"
  by (rule r_into_rtranclp)

lemma then_steps:
  "(gm_step G cs)\<^sup>*\<^sup>* w w1 \<Longrightarrow> (gm_step G cs)\<^sup>*\<^sup>* w1 w2 \<Longrightarrow> (gm_step G cs)\<^sup>*\<^sup>* w w2"
  by (rule rtranclp_trans)

lemma reserve_split:
  "reserve_slot tool accepted call raw ts =
     (if accepted \<noteq> [] \<and> accepted \<noteq> tool
      then (Some (err_result ''PROTOCOL_ERROR'' (tool @ '': terminal '' @ accepted @ '' already accepted in this invocation'')), ts)
      else reserve_slot tool [] call raw ts)"
  by (simp add: reserve_slot_def)

lemma dev_finish_run:
  "tc_kind (cs i) = DevDone \<Longrightarrow> gm_step G cs (b, ph(i := Finishing res))
     (finalize_dev_done_terminal (tc_id (cs i)) (tc_raw (cs i)) res b, ph(i := Answered res))"
  using gm_step.finish [of "ph(i := Finishing res)" i res G cs b] by (simp add: finish_slot_def)

lemma dev_pass_run:
  assumes "ph i = Holding" and "tc_kind (cs i) = DevDone" and "validate_dev_done_params G (tc_raw (cs i)) = Inr p"
    and "dev_gate_msg (gb_last_check b) (Inr current) = None"
  shows "(gm_step G cs)\<^sup>*\<^sup>* (b, ph)
    (finalize_dev_done_terminal (tc_id (cs i)) (tc_raw (cs i)) accepted_result
       (b\<lparr>gb_fingerprint := current, gb_dev_done := Some p, gb_terminal := ''gm_dev_done''\<rparr>),
     ph(i := Answered accepted_result))"
proof -
  let ?ph = "ph(i := Looked p (gb_last_check b))" and ?b1 = "b\<lparr>gb_fingerprint := current\<rparr>"
  note look = gm_step.dev_look [where ph = ph and i = i and b = b and cs = cs, OF assms(1,2,3)]
  have passed: "gm_step G cs (b, ?ph) (?b1, ph(i := DevPassed p))"
    using gm_step.dev_pass [of ?ph i p "gb_last_check b" current G cs b] assms(4) by simp
  have stored: "gm_step G cs (?b1, ph(i := DevPassed p)) (?b1\<lparr>gb_dev_done := Some p\<rparr>, ph(i := Stored))"
    using gm_step.dev_store [of "ph(i := DevPassed p)" i p G cs ?b1] by simp
  have named: "gm_step G cs (?b1\<lparr>gb_dev_done := Some p\<rparr>, ph(i := Stored))
      (?b1\<lparr>gb_dev_done := Some p, gb_terminal := ''gm_dev_done''\<rparr>, ph(i := Finishing accepted_result))"
    using gm_step.name [of "ph(i := Stored)" i G cs "?b1\<lparr>gb_dev_done := Some p\<rparr>"] assms(2) by (simp add: tool_of_def)
  from then_step [OF look then_step [OF passed then_step [OF stored
    then_step [OF named one_step [OF dev_finish_run [where i = i and cs = cs and ph = ph, OF assms(2)]]]]]]
  show ?thesis by simp
qed

text \<open>The steps after the reservation, which do not look at the slot again.\<close>

lemma dev_done_holding_run:
  assumes "ph i = Holding" and "tc_kind (cs i) = DevDone"
  shows "(gm_step G cs)\<^sup>*\<^sup>* (b, ph)
    (case validate_dev_done_params G (tc_raw (cs i)) of
       Inl res \<Rightarrow> (finalize_dev_done_terminal (tc_id (cs i)) (tc_raw (cs i)) res b, ph(i := Answered res))
     | Inr p \<Rightarrow>
         (case run_value (check_dev_done_gate G b) s of
            (Some res, b2) \<Rightarrow> (finalize_dev_done_terminal (tc_id (cs i)) (tc_raw (cs i)) res b2, ph(i := Answered res))
          | (None, b2) \<Rightarrow>
              (finalize_dev_done_terminal (tc_id (cs i)) (tc_raw (cs i)) accepted_result
                 (b2\<lparr>gb_dev_done := Some p, gb_terminal := ''gm_dev_done''\<rparr>), ph(i := Answered accepted_result))))"
proof -
  note finish_run = one_step [OF dev_finish_run [where i = i and cs = cs and ph = ph, OF assms(2)]]
  show ?thesis
  proof (cases "validate_dev_done_params G (tc_raw (cs i))")
    case (Inl res)
    then show ?thesis using then_step [OF gm_step.dev_invalid [where ph = ph and i = i and cs = cs, OF assms Inl] finish_run] by simp
  next
    case (Inr p)
    let ?fp = "run_value (compute_fingerprint G (cc_worktree (gb_check_cfg b))) s"
    let ?ph = "ph(i := Looked p (gb_last_check b))"
    note look = gm_step.dev_look [where ph = ph and i = i and b = b and cs = cs, OF assms Inr]
    show ?thesis
    proof (cases "dev_gate_msg (gb_last_check b) ?fp")
      case (Some msg)
      have "(gm_step G cs)\<^sup>*\<^sup>* (b, ?ph) (finalize_dev_done_terminal (tc_id (cs i)) (tc_raw (cs i))
          (fst (reject_dev_done_gate msg b)) (snd (reject_dev_done_gate msg b)),
          ph(i := Answered (fst (reject_dev_done_gate msg b))))"
        using then_step [OF gm_step.dev_reject [of ?ph i p "gb_last_check b" ?fp msg G cs b]] Some finish_run by simp
      from then_step [OF look this] show ?thesis by (simp add: Inr run_check_dev_done_gate Some)
    next
      case None
      then have "dev_gate_msg (gb_last_check b) (Inr (projr ?fp)) = None" using dev_gate_passes [OF None] by simp
      from dev_pass_run [where ph = ph and i = i and cs = cs and b = b, OF assms Inr this] show ?thesis by (simp add: Inr run_check_dev_done_gate None)
    qed
  qed
qed

lemma review_holding_run:
  assumes "ph i = Holding" and "tc_kind (cs i) = ReviewSubmit"
  shows "(gm_step G cs)\<^sup>*\<^sup>* (b, ph)
    (case validate_review_submit_params G (tc_raw (cs i)) of
       Inl res \<Rightarrow> (release_review_submit_terminal b, ph(i := Answered res))
     | Inr p \<Rightarrow>
         (case (if rp_verdict p = ''approved'' then run_value (check_reviewer_gate G b) s else (None, b)) of
            (Some res, b2) \<Rightarrow> (finalize_review_submit_terminal (tc_id (cs i)) (tc_raw (cs i)) res b2, ph(i := Answered res))
          | (None, b2) \<Rightarrow>
              (snd (accept_review (tc_id (cs i)) (tc_raw (cs i)) p b2), ph(i := Answered accepted_result))))"
proof (cases "validate_review_submit_params G (tc_raw (cs i))")
  case (Inl res)
  then show ?thesis
    using gm_step.review_invalid [where ph = ph and i = i and b = b and cs = cs, OF assms Inl] by simp
next
  case (Inr p)
  have finish_run: "(gm_step G cs)\<^sup>*\<^sup>* (b', ph(i := Finishing res))
      (finalize_review_submit_terminal (tc_id (cs i)) (tc_raw (cs i)) res b', ph(i := Answered res))" for b' res
    using gm_step.finish [of "ph(i := Finishing res)" i res G cs b'] assms(2) by (simp add: finish_slot_def)
  have passed_run: "(gm_step G cs)\<^sup>*\<^sup>* (b, ph(i := ReviewPassed p))
      (snd (accept_review (tc_id (cs i)) (tc_raw (cs i)) p b), ph(i := Answered accepted_result))"
  proof -
    have stored: "gm_step G cs (b, ph(i := ReviewPassed p)) (b\<lparr>gb_review := Some p\<rparr>, ph(i := Stored))"
      using gm_step.review_store [of "ph(i := ReviewPassed p)" i p G cs b] by simp
    have named: "gm_step G cs (b\<lparr>gb_review := Some p\<rparr>, ph(i := Stored))
        (b\<lparr>gb_review := Some p, gb_terminal := ''gm_review_submit''\<rparr>, ph(i := Finishing accepted_result))"
      using gm_step.name [of "ph(i := Stored)" i G cs "b\<lparr>gb_review := Some p\<rparr>"] assms(2) by (simp add: tool_of_def)
    from then_step [OF stored then_step [OF named finish_run]] show ?thesis by (simp add: accept_review_def)
  qed
  show ?thesis
  proof (cases "rp_verdict p = ''approved''")
    case False
    then show ?thesis
      using then_step [OF gm_step.review_plain [where ph = ph and i = i and b = b and cs = cs, OF assms Inr False] passed_run] Inr by simp
  next
    case True
    let ?fp = "run_value (compute_fingerprint G (rt_worktree (gb_reviewer b))) s"
    show ?thesis
    proof (cases "review_gate_msg (gb_reviewer b) ?fp")
      case None
      from then_step [OF gm_step.review_pass [where ph = ph and i = i and b = b and cs = cs, OF assms Inr True None] passed_run]
      show ?thesis by (simp add: Inr True run_check_reviewer_gate None)
    next
      case (Some msg)
      from then_step [OF gm_step.review_reject [where ph = ph and i = i and b = b and cs = cs, OF assms Inr True Some] finish_run]
      show ?thesis by (simp add: Inr True run_check_reviewer_gate Some)
    qed
  qed
qed

definition handle_terminal :: "gm_host \<Rightarrow> terminal_call \<Rightarrow> gm_broker \<Rightarrow> (string \<times> gm_broker) M" where
  "handle_terminal G c b =
     (case tc_kind c of
        DevDone \<Rightarrow> handle_dev_done G (tc_id c) (tc_raw c) b
      | ReviewSubmit \<Rightarrow> handle_review_submit G (tc_id c) (tc_raw c) b)"

definition reserve_terminal :: "terminal_call \<Rightarrow> gm_broker \<Rightarrow> string option \<times> gm_broker" where
  "reserve_terminal c b =
     (case tc_kind c of
        DevDone \<Rightarrow> reserve_dev_done_terminal (tc_id c) (tc_raw c) b
      | ReviewSubmit \<Rightarrow> reserve_review_submit_terminal (tc_id c) (tc_raw c) b)"

lemma reserve_terminal_slot:
  "reserve_terminal c b =
     (case reserve_slot (tool_of (tc_kind c)) (gb_terminal b) (tc_id c) (tc_raw c) (slot_of (tc_kind c) b) of
        (res, ts) \<Rightarrow> (res, set_slot (tc_kind c) ts b))"
  by (cases "tc_kind c")
    (simp_all add: reserve_terminal_def reserve_dev_done_terminal_def reserve_review_submit_terminal_def
      tool_of_def slot_of_def set_slot_def)

lemma set_slot_id: "set_slot k (slot_of k b) b = b"
  by (cases k) (simp_all add: set_slot_def slot_of_def)

lemma reserve_run:
  assumes "ph i = Arrived"
  shows "(gm_step G cs)\<^sup>*\<^sup>* (b, ph)
    (case reserve_terminal (cs i) b of
       (Some res, b1) \<Rightarrow> (b1, ph(i := Answered res))
     | (None, b1) \<Rightarrow> (b1, ph(i := Holding)))"
proof (cases "gb_terminal b \<noteq> [] \<and> gb_terminal b \<noteq> tool_of (tc_kind (cs i))")
  case True
  then show ?thesis
    using gm_step.conflict [where ph = ph and i = i and b = b and cs = cs and G = G, OF assms]
    by (simp add: reserve_terminal_slot reserve_slot_def set_slot_id)
next
  case False
  then have admit: "gm_step G cs (b, ph) (b, ph(i := Admitted))"
    using gm_step.admit [where ph = ph and i = i and b = b and cs = cs and G = G, OF assms] by blast
  obtain res ts where res: "reserve_slot (tool_of (tc_kind (cs i))) [] (tc_id (cs i)) (tc_raw (cs i))
      (slot_of (tc_kind (cs i)) b) = (res, ts)" by fastforce
  have eq: "reserve_terminal (cs i) b = (res, set_slot (tc_kind (cs i)) ts b)"
    unfolding reserve_terminal_slot by (subst reserve_split) (use False res in auto)
  show ?thesis
  proof (cases res)
    case (Some x)
    then have "ts = slot_of (tc_kind (cs i)) b" using res reserve_some by blast
    then have "gm_step G cs (b, ph(i := Admitted)) (b, ph(i := Answered x))"
      using gm_step.taken [of "ph(i := Admitted)" i cs b x ts G] res Some by simp
    from then_step [OF admit one_step [OF this]] show ?thesis
      using \<open>ts = _\<close> Some by (simp add: eq set_slot_id)
  next
    case None
    then have "gm_step G cs (b, ph(i := Admitted)) (set_slot (tc_kind (cs i)) ts b, ph(i := Holding))"
      using gm_step.reserve [of "ph(i := Admitted)" i cs b ts G] res by simp
    from then_step [OF admit one_step [OF this]] show ?thesis using None by (simp add: eq)
  qed
qed

lemma handler_run:
  assumes "ph i = Arrived"
  shows "(gm_step G cs)\<^sup>*\<^sup>* (b, ph)
    (snd (run_value (handle_terminal G (cs i) b) s), ph(i := Answered (fst (run_value (handle_terminal G (cs i) b) s))))"
proof -
  note start = reserve_run [where ph = ph and i = i and G = G and cs = cs and b = b, OF assms]
  obtain res b1 where res: "reserve_terminal (cs i) b = (res, b1)" by fastforce
  show ?thesis
  proof (cases res)
    case (Some x)
    with start res show ?thesis
      by (cases "tc_kind (cs i)")
        (simp_all add: handle_terminal_def reserve_terminal_def handle_dev_done_def handle_review_submit_def)
  next
    case None
    with start res have holding: "(gm_step G cs)\<^sup>*\<^sup>* (b, ph) (b1, ph(i := Holding))" by simp
    show ?thesis
    proof (cases "tc_kind (cs i)")
      case DevDone
      have "(gm_step G cs)\<^sup>*\<^sup>* (b1, ph(i := Holding))
          (snd (run_value (handle_terminal G (cs i) b) s), ph(i := Answered (fst (run_value (handle_terminal G (cs i) b) s))))"
        using dev_done_holding_run [of "ph(i := Holding)" i cs G b1 s] DevDone res None
        by (simp add: handle_terminal_def reserve_terminal_def handle_dev_done_def
            split: sum.splits prod.splits option.splits)
      with holding show ?thesis by (rule then_steps)
    next
      case ReviewSubmit
      have "(gm_step G cs)\<^sup>*\<^sup>* (b1, ph(i := Holding))
          (snd (run_value (handle_terminal G (cs i) b) s), ph(i := Answered (fst (run_value (handle_terminal G (cs i) b) s))))"
        using review_holding_run [of "ph(i := Holding)" i cs G b1 s] ReviewSubmit res None
        by (cases "validate_review_submit_params G (tc_raw (cs i))"; cases "run_value (check_reviewer_gate G b1) s";
            cases "fst (run_value (check_reviewer_gate G b1) s)")
          (auto simp: handle_terminal_def reserve_terminal_def handle_review_submit_def accept_review_def)
      with holding show ?thesis by (rule then_steps)
    qed
  qed
qed

text \<open>
  Each of the two terminal handlers, run to its end on its own, is a run of the critical sections
  of the interleaved broker: it leaves the same state and gives the same answer.
\<close>

theorem handler_is_a_run:
  "(gm_step G cs)\<^sup>*\<^sup>* (b, ph(i := Arrived))
    (snd (run_value (handle_terminal G (cs i) b) s), ph(i := Answered (fst (run_value (handle_terminal G (cs i) b) s))))"
  using handler_run [where ph = "ph(i := Arrived)" and i = i and b = b and cs = cs and G = G and s = s] by simp

section \<open>What interleaving can and cannot do\<close>

text \<open>Calls of one tool that were answered with an acceptance are repetitions of one call.\<close>

definition one_call_accepted :: "(nat \<Rightarrow> terminal_call) \<Rightarrow> (nat \<Rightarrow> term_phase) \<Rightarrow> nat \<Rightarrow> nat \<Rightarrow> bool" where
  "one_call_accepted cs ph i j \<longleftrightarrow>
     (if tc_kind (cs i) = tc_kind (cs j) \<and> ph i = Answered accepted_result \<and> ph j = Answered accepted_result
      then tc_id (cs i) = tc_id (cs j) \<and> tc_raw (cs i) = tc_raw (cs j) else True)"

lemma race_inv_one_call:
  assumes "\<And>k. race_inv cs k (b, ph)"
  shows "one_call_accepted cs ph i j"
  using assms [of "tc_kind (cs i)"] unfolding race_inv_def one_call_accepted_def by (simp; metis)

text \<open>Two calls of different tools, and the broker after a green project check.\<close>

definition sample_calls :: "nat \<Rightarrow> terminal_call" where
  "sample_calls i =
     (if i = 0
      then \<lparr>tc_kind = DevDone, tc_id = ''1'',
            tc_raw = json_text (JObj [(''summary'', JStr ''s''), (''commitMsg'', JStr ''c''), (''prTitle'', JStr ''t''),
              (''prBody'', JStr ''b'')])\<rparr>
      else \<lparr>tc_kind = ReviewSubmit, tc_id = ''2'',
            tc_raw = json_text (JObj [(''verdict'', JStr ''changes_requested''), (''confidence'', JStr ''high''),
              (''body'', JStr ''b'')])\<rparr>)"

definition sample_check :: check_result where
  "sample_check =
     \<lparr>ck_ok = True, ck_command = ''make'', ck_exit = 0, ck_output_file = [], ck_summary = ''verify passed'',
      ck_fingerprint = ''sha256:0''\<rparr>"

lemma sample_decodes:
  "unmarshal_into dec_dev_params (tc_raw (sample_calls 0)) =
     Some \<lparr>dp_summary = ''s'', dp_commit_msg = ''c'', dp_pr_title = ''t'', dp_pr_body = ''b''\<rparr>"
  "unmarshal_into dec_review_params (tc_raw (sample_calls 1)) =
     Some \<lparr>rp_verdict = ''changes_requested'', rp_body = ''b'', rp_confidence = ''high''\<rparr>"
  unfolding sample_calls_def if_P [OF refl] if_not_P [OF one_neq_zero] terminal_call.select_convs
  by (subst unmarshal_into_text;
      simp add: dec_dev_params_def dec_review_params_def json_dec_defs to_lower_def to_lower_char_def)+

lemma sample_valid:
  "validate_dev_done_params G (tc_raw (sample_calls 0)) =
     Inr \<lparr>dp_summary = ''s'', dp_commit_msg = ''c'', dp_pr_title = ''t'', dp_pr_body = ''b''\<rparr>"
  "validate_review_submit_params G (tc_raw (sample_calls 1)) =
     Inr \<lparr>rp_verdict = ''changes_requested'', rp_body = ''b'', rp_confidence = ''high''\<rparr>"
  unfolding validate_dev_done_params_def validate_review_submit_params_def sample_decodes by simp_all

definition sample_broker :: gm_broker where
  "sample_broker = new_broker \<lparr>cc_worktree = ''/w'', cc_command = ''make'', cc_env = []\<rparr> default_tools ''/t''"

text \<open>Both calls are admitted before either is accepted; then each runs to its end.\<close>

lemma racy_run:
  "\<exists>b ph. (gm_step G sample_calls)\<^sup>*\<^sup>* (sample_broker, all_arrived) (b, ph) \<and>
     ph 0 = Answered accepted_result \<and> ph 1 = Answered accepted_result \<and>
     gb_dev_done b \<noteq> None \<and> gb_review b \<noteq> None"
proof -
  let ?cs = sample_calls and ?b0 = "sample_broker\<lparr>gb_last_check := Some sample_check\<rparr>"
  let ?p0 = "all_arrived(0 := Admitted)" 
  let ?p1 = "?p0(1 := Admitted)"
  have kinds: "tc_kind (?cs 0) = DevDone" "tc_kind (?cs 1) = ReviewSubmit"
    by (simp_all add: sample_calls_def)
  have free: "gb_terminal ?b0 = []" "gb_dev_slot ?b0 = empty_slot" "gb_review_slot ?b0 = empty_slot"
      "gb_last_check ?b0 = Some sample_check"
    by (simp_all add: sample_broker_def new_broker_def)
  have checked: "gm_step G ?cs (sample_broker, all_arrived) (?b0, all_arrived)"
    by (rule gm_step.check)
  have admitted: "gm_step G ?cs (?b0, all_arrived) (?b0, ?p0)" "gm_step G ?cs (?b0, ?p0) (?b0, ?p1)"
    using gm_step.admit [of all_arrived 0 ?b0 ?cs G] gm_step.admit [of ?p0 1 ?b0 ?cs G] free
    by (simp_all add: all_arrived_def)
  define t0 where "t0 = empty_slot\<lparr>ts_pending := True, ts_call := tc_id (?cs 0), ts_raw := tc_raw (?cs 0)\<rparr>"
  define t1 where "t1 = empty_slot\<lparr>ts_pending := True, ts_call := tc_id (?cs 1), ts_raw := tc_raw (?cs 1)\<rparr>"
  let ?b1 = "set_slot DevDone t0 ?b0"
  have reserved0: "gm_step G ?cs (?b0, ?p1) (?b1, ?p1(0 := Holding))"
    using gm_step.reserve [of ?p1 0 ?cs ?b0 t0 G] kinds free
    by (simp add: reserve_slot_def slot_of_def tool_of_def t0_def empty_slot_def)
  have gate: "dev_gate_msg (gb_last_check ?b1) (Inr ''sha256:0'') = None"
    by (simp add: dev_gate_msg_def set_slot_def sample_check_def)
  have hold0: "(?p1(0 := Holding)) 0 = Holding" by simp
  obtain b2 where dev: "(gm_step G ?cs)\<^sup>*\<^sup>* (?b1, ?p1(0 := Holding)) (b2, ?p1(0 := Answered accepted_result))"
      "gb_review_slot b2 = empty_slot" "gb_dev_done b2 \<noteq> None"
    using dev_pass_run [where ph = "?p1(0 := Holding)" and i = 0 and cs = ?cs and G = G and b = ?b1,
        OF hold0 kinds(1) sample_valid(1) gate] free
    by (simp add: finalize_dev_done_terminal_def split_beta set_slot_def)
  let ?p2 = "?p1(0 := Answered accepted_result)"
  have reserved1: "gm_step G ?cs (b2, ?p2) (set_slot ReviewSubmit t1 b2, ?p2(1 := Holding))"
    using gm_step.reserve [of ?p2 1 ?cs b2 t1 G] kinds dev(2)
    by (simp add: reserve_slot_def slot_of_def tool_of_def t1_def empty_slot_def)
  have hold1: "(?p2(1 := Holding)) 1 = Holding" by simp
  have review: "(gm_step G ?cs)\<^sup>*\<^sup>* (set_slot ReviewSubmit t1 b2, ?p2(1 := Holding))
      (snd (accept_review (tc_id (?cs 1)) (tc_raw (?cs 1)) \<lparr>rp_verdict = ''changes_requested'', rp_body = ''b'', rp_confidence = ''high''\<rparr>
         (set_slot ReviewSubmit t1 b2)), ?p2(1 := Answered accepted_result))"
    using review_holding_run [where i = 1 and ph = "?p2(1 := Holding)" and cs = ?cs and G = G
        and b = "set_slot ReviewSubmit t1 b2", OF hold1 kinds(2)]
    by (simp add: sample_valid(2) [unfolded One_nat_def])
  note run = then_step [OF checked then_step [OF admitted(1) then_step [OF admitted(2) then_step [OF reserved0
    then_steps [OF dev(1) then_step [OF reserved1 review]]]]]]
  show ?thesis
    by (intro exI conjI, rule run)
      (use dev(3) in \<open>simp_all add: accept_review_def finalize_review_submit_terminal_def set_slot_def\<close>)
qed

text \<open>
  C14: However many terminal calls interleave, with each other and with project checks, the calls of
  one tool that are answered with an acceptance all have the same id and the same parameters: the
  reservation of the slot is exclusive.
\<close>

theorem interleaved_calls_accept_one:
  assumes "(gm_step G cs)\<^sup>*\<^sup>* (b0, all_arrived) (b, ph)"
  shows "one_call_accepted cs ph i j"
  by (rule race_inv_one_call) (rule race_inv_reachable [OF assms])

theorem interleaved_calls_accept_one_witness:
  "\<forall>G. \<exists>b ph. (gm_step G sample_calls)\<^sup>*\<^sup>* (sample_broker, all_arrived) (b, ph) \<and>
     ph 0 = Answered accepted_result \<and> one_call_accepted sample_calls ph 0 1"
proof
  fix G
  show "\<exists>b ph. (gm_step G sample_calls)\<^sup>*\<^sup>* (sample_broker, all_arrived) (b, ph) \<and>
     ph 0 = Answered accepted_result \<and> one_call_accepted sample_calls ph 0 1"
    using racy_run [of G] interleaved_calls_accept_one [of G sample_calls sample_broker _ _ 0 1] by blast
qed

text \<open>
  Calls of the two tools do not exclude each other: the check for the other tool is made before
  the slot is reserved and not again, so a \<open>gm_dev_done\<close> and a \<open>gm_review_submit\<close> that arrive together
  are both accepted in one invocation of a broker with the default tools.
\<close>

theorem both_terminals_accepted:
  "\<exists>b ph. (gm_step G sample_calls)\<^sup>*\<^sup>* (sample_broker, all_arrived) (b, ph) \<and>
     ph 0 = Answered accepted_result \<and> ph 1 = Answered accepted_result \<and>
     gb_dev_done b \<noteq> None \<and> gb_review b \<noteq> None"
  by (rule racy_run)

end
