(* ===== verification/Cbm_Broker.thy ===== *)
theory Cbm_Broker
  imports Gm_Dispatch
begin

text \<open>
  The CBM broker (\<open>internal/cbmbroker\<close>): one child process that speaks JSON-RPC over its standard
  streams, shared by any number of clients of a socket. First the texts of requests and responses,
  then the start, the end and the handshake as sequences of calls to the operating system, then
  the clients, the reader of the child's output and the table of pending requests as a step
  relation: a step is one section that holds a mutex, one atomic addition, one channel operation
  or one write to a stream.
\<close>

section \<open>Texts\<close>

text \<open>A \<open>map[string]json.RawMessage\<close>: the last text under each key; nil is the empty text.\<close>

definition raw_object :: "string \<Rightarrow> (string \<times> string) list" where
  "raw_object s =
     (case skip_ws s of
        c # cs \<Rightarrow> if c = CHR 0x7B then last_values (raw_members (length cs) cs) else []
      | [] \<Rightarrow> [])"

definition set_member :: "string \<Rightarrow> string \<Rightarrow> (string \<times> string) list \<Rightarrow> (string \<times> string) list" where
  "set_member k v kvs = filter (\<lambda>kv. fst kv \<noteq> k) kvs @ [(k, v)]"

definition raw_text :: "string \<Rightarrow> string" where
  "raw_text v = (if v = [] then ''null'' else compact False v)"

definition raw_object_text :: "(string \<times> string) list \<Rightarrow> string" where
  "raw_object_text kvs =
     CHR 0x7B # join_with '','' (map (\<lambda>k. quote_string k @ '':'' @ raw_text (the (map_of kvs k))) (sort_strings (map fst kvs)))
       @ [CHR 0x7D]"

text \<open>The id of a request as the client wrote it, empty when it has none.\<close>

definition client_request_id :: "string \<Rightarrow> string option" where
  "client_request_id line =
     (case unmarshal line of
        Some (JObj _) \<Rightarrow> Some (raw_field ''id'' line)
      | Some JNull \<Rightarrow> Some []
      | _ \<Rightarrow> None)"

text \<open>A call that returns a value, returns an error, or panics.\<close>

datatype 'a outcome = Panics | Fails | Returns 'a

text \<open>\<open>null\<close> leaves the map nil, and the assignment to it panics.\<close>

definition rewrite_request_id :: "string \<Rightarrow> int \<Rightarrow> string outcome" where
  "rewrite_request_id line i =
     (case unmarshal line of
        Some (JObj _) \<Rightarrow> Returns (raw_object_text (set_member ''id'' (itoa i) (raw_object line)) @ [newline])
      | Some JNull \<Rightarrow> Panics
      | _ \<Rightarrow> Fails)"

definition rewrite_response_id :: "string \<Rightarrow> string \<Rightarrow> string outcome" where
  "rewrite_response_id line client_id =
     (case unmarshal line of
        Some (JObj _) \<Rightarrow> Returns (raw_object_text (set_member ''id'' client_id (raw_object line)) @ [newline])
      | Some JNull \<Rightarrow> Panics
      | _ \<Rightarrow> Fails)"

definition response_id :: "string \<Rightarrow> int option" where
  "response_id line =
     (case unmarshal_into (get_int_ptr ''id'') line of Some (Some i) \<Rightarrow> Some i | _ \<Rightarrow> None)"

text \<open>\<open>writeErrorToConn\<close>; without an id the answer has the id \<open>null\<close>.\<close>

definition error_to_conn :: "string \<Rightarrow> int \<Rightarrow> string \<Rightarrow> string" where
  "error_to_conn cid code msg =
     raw_object_text
       [(''error'', json_text (JObj [(''code'', jint code), (''message'', JStr msg)])),
        (''id'', cid), (''jsonrpc'', json_text (JStr ''2.0''))] @ [newline]"

text \<open>What a pending client is sent when the child's output has ended.\<close>

definition child_exited_line :: "int \<Rightarrow> string" where
  "child_exited_line i =
     json_text (JObj
       [(''error'', JObj [(''code'', jint (-32603)), (''message'', JStr ''cbm: MCP child exited'')]),
        (''id'', jint i), (''jsonrpc'', JStr ''2.0'')])"

definition readJSONLine :: "string \<Rightarrow> string option" where
  "readJSONLine input =
     (if newline \<in> set input then Some (takeWhile (\<lambda>c. c \<noteq> newline) input @ [newline]) else None)"

text \<open>The handshake.\<close>

definition mcpVersion :: string where
  "mcpVersion = ''2024-11-05''"

definition initialize_request :: string where
  "initialize_request =
     json_text (JObj [(''id'', jint 1), (''jsonrpc'', JStr ''2.0''), (''method'', JStr ''initialize''),
       (''params'', JObj
          [(''capabilities'', JObj []),
           (''clientInfo'', JObj [(''name'', JStr ''golemic''), (''version'', JStr ''1.0'')]),
           (''protocolVersion'', JStr mcpVersion)])]) @ [newline]"

definition initialized_notification :: string where
  "initialized_notification =
     json_text (JObj [(''jsonrpc'', JStr ''2.0''), (''method'', JStr ''notifications/initialized'')]) @ [newline]"

section \<open>Start and end\<close>

text \<open>
  The calls to the operating system, with their error if they fail, and the end of a wait for a
  response. What they answer is a function of the calls before.
\<close>

datatype cbm_op =
    OpStdinPipe
  | OpStdoutPipe
  | OpStartChild
  | OpWriteChild string
  | OpCloseStdin
  | OpSigterm
  | OpSigkill
  | OpAwaitChild
  | OpMkdir string
  | OpChmod string nat
  | OpRemove string
  | OpListen string
  | OpCloseListener

datatype wait_end = Replied string | ChildExited | WaitEnded string

datatype cbm_event = Did cbm_op "string option" | Waited wait_end

record cbm_os =
  co_error :: "cbm_event list \<Rightarrow> cbm_op \<Rightarrow> string option"
  co_wait :: "cbm_event list \<Rightarrow> wait_end"

type_synonym 'a cbm_io = "(cbm_event list, 'a) state"

definition cbm_do :: "cbm_os \<Rightarrow> cbm_op \<Rightarrow> string option cbm_io" where
  "cbm_do O' op = State (\<lambda>h. let e = co_error O' h op in (e, h @ [Did op e]))"

definition cbm_wait :: "cbm_os \<Rightarrow> wait_end cbm_io" where
  "cbm_wait O' = State (\<lambda>h. let w = co_wait O' h in (w, h @ [Waited w]))"

definition send_and_wait :: "cbm_os \<Rightarrow> string \<Rightarrow> (string + string) cbm_io" where
  "send_and_wait O' req =
     do {
       e \<leftarrow> cbm_do O' (OpWriteChild req);
       (case e of
          Some m \<Rightarrow> State_Monad.return (Inl (''write to child: '' @ m))
        | None \<Rightarrow>
            do {
              w \<leftarrow> cbm_wait O';
              State_Monad.return (case w of
                  Replied line \<Rightarrow> Inr line
                | ChildExited \<Rightarrow> Inl ''MCP child exited''
                | WaitEnded m \<Rightarrow> Inl m)
            })
     }"

definition cbm_initialize :: "cbm_os \<Rightarrow> string option cbm_io" where
  "cbm_initialize O' =
     do {
       r \<leftarrow> send_and_wait O' initialize_request;
       (case r of
          Inl m \<Rightarrow> State_Monad.return (Some m)
        | Inr _ \<Rightarrow> cbm_do O' (OpWriteChild initialized_notification))
     }"

text \<open>\<open>terminateChild\<close>: \<open>OpAwaitChild\<close> fails when the grace period ends first.\<close>

definition terminate_child :: "cbm_os \<Rightarrow> unit cbm_io" where
  "terminate_child O' =
     do {
       _ \<leftarrow> cbm_do O' OpCloseStdin;
       _ \<leftarrow> cbm_do O' OpSigterm;
       e \<leftarrow> cbm_do O' OpAwaitChild;
       (case e of
          None \<Rightarrow> State_Monad.return ()
        | Some _ \<Rightarrow>
            do {
              _ \<leftarrow> cbm_do O' OpSigkill;
              _ \<leftarrow> cbm_do O' OpAwaitChild;
              State_Monad.return ()
            })
     }"

text \<open>The end of a start that has failed: close the child's input, stop it, and say why.\<close>

definition abandon :: "cbm_os \<Rightarrow> string \<Rightarrow> string option cbm_io" where
  "abandon O' m =
     do {
       _ \<leftarrow> cbm_do O' OpCloseStdin;
       _ \<leftarrow> terminate_child O';
       State_Monad.return (Some m)
     }"

definition open_listener :: "cbm_os \<Rightarrow> string \<Rightarrow> string option cbm_io" where
  "open_listener O' sock =
     do {
       e4 \<leftarrow> cbm_do O' (OpListen sock);
       (case e4 of Some m \<Rightarrow> abandon O' (''cbmbroker: listen '' @ sock @ '': '' @ m) | None \<Rightarrow>
        do {
          e5 \<leftarrow> cbm_do O' (OpChmod sock 384);
          (case e5 of None \<Rightarrow> State_Monad.return None | Some m \<Rightarrow>
           do {
             _ \<leftarrow> cbm_do O' OpCloseListener;
             _ \<leftarrow> cbm_do O' (OpRemove sock);
             abandon O' (''cbmbroker: chmod socket: '' @ m)
           })
        })
     }"

definition start_with_io :: "cbm_os \<Rightarrow> string \<Rightarrow> string option cbm_io" where
  "start_with_io O' sock =
     do {
       e1 \<leftarrow> cbm_initialize O';
       (case e1 of Some m \<Rightarrow> abandon O' (''cbmbroker: initialize: '' @ m) | None \<Rightarrow>
        do {
          e2 \<leftarrow> cbm_do O' (OpMkdir (path_dir sock));
          (case e2 of Some m \<Rightarrow> abandon O' (''cbmbroker: mkdir socket dir: '' @ m) | None \<Rightarrow>
           do {
             e3 \<leftarrow> cbm_do O' (OpChmod (path_dir sock) 448);
             (case e3 of Some m \<Rightarrow> abandon O' (''cbmbroker: chmod socket dir: '' @ m) | None \<Rightarrow>
              do {
                _ \<leftarrow> cbm_do O' (OpRemove sock);
                open_listener O' sock
              })
           })
        })
     }"

definition cbm_start :: "cbm_os \<Rightarrow> string \<Rightarrow> string option cbm_io" where
  "cbm_start O' sock =
     do {
       e1 \<leftarrow> cbm_do O' OpStdinPipe;
       (case e1 of Some m \<Rightarrow> State_Monad.return (Some (''cbmbroker: stdin pipe: '' @ m)) | None \<Rightarrow>
        do {
          e2 \<leftarrow> cbm_do O' OpStdoutPipe;
          (case e2 of Some m \<Rightarrow> State_Monad.return (Some (''cbmbroker: stdout pipe: '' @ m)) | None \<Rightarrow>
           do {
             e3 \<leftarrow> cbm_do O' OpStartChild;
             (case e3 of Some m \<Rightarrow> State_Monad.return (Some (''cbmbroker: start npx: '' @ m)) | None \<Rightarrow>
              start_with_io O' sock)
           })
        })
     }"

definition cbm_shutdown :: "cbm_os \<Rightarrow> string \<Rightarrow> unit cbm_io" where
  "cbm_shutdown O' sock =
     do {
       _ \<leftarrow> cbm_do O' OpCloseListener;
       _ \<leftarrow> terminate_child O';
       _ \<leftarrow> cbm_do O' (OpRemove sock);
       State_Monad.return ()
     }"

section \<open>What a start leaves behind\<close>

definition ops_of :: "cbm_event list \<Rightarrow> cbm_op list" where
  "ops_of h = concat (map (\<lambda>e. case e of Did op _ \<Rightarrow> [op] | Waited _ \<Rightarrow> []) h)"

definition did_ok :: "cbm_op \<Rightarrow> cbm_event list \<Rightarrow> bool" where
  "did_ok op h \<longleftrightarrow> Did op None \<in> set h"

text \<open>
  The child was told to end, and either has ended or was killed; the listener was closed and its
  socket removed.
\<close>

definition child_stopped :: "cbm_event list \<Rightarrow> bool" where
  "child_stopped h \<longleftrightarrow>
     OpCloseStdin \<in> set (ops_of h) \<and> OpSigterm \<in> set (ops_of h) \<and>
     (did_ok OpAwaitChild h \<or> OpSigkill \<in> set (ops_of h))"

definition listener_gone :: "string \<Rightarrow> cbm_event list \<Rightarrow> bool" where
  "listener_gone sock h \<longleftrightarrow>
     OpCloseListener \<in> set (ops_of h) \<and>
     OpRemove sock \<in> set (dropWhile (\<lambda>op. op \<noteq> OpCloseListener) (ops_of h))"

definition start_ok :: "string \<Rightarrow> string option \<times> cbm_event list \<Rightarrow> bool" where
  "start_ok sock out \<longleftrightarrow>
     (case out of
        (None, h) \<Rightarrow>
          did_ok (OpWriteChild initialize_request) h \<and> did_ok (OpWriteChild initialized_notification) h \<and>
          (\<exists>line. Waited (Replied line) \<in> set h) \<and> did_ok (OpListen sock) h \<and>
          did_ok (OpChmod (path_dir sock) 448) h \<and> did_ok (OpChmod sock 384) h \<and>
          OpSigterm \<notin> set (ops_of h) \<and> OpCloseListener \<notin> set (ops_of h)
      | (Some _, h) \<Rightarrow>
          (if did_ok OpStartChild h then child_stopped h else True) \<and>
          (if did_ok (OpListen sock) h then listener_gone sock h else True))"

lemma cbm_bind [simp]:
  "run_state (State_Monad.bind m f) h = (case run_state m h of (a, h') \<Rightarrow> run_state (f a) h')"
  by (simp add: State_Monad.bind_def)

lemma run_cbm_do [simp]:
  "run_state (cbm_do O' op) h = (co_error O' h op, h @ [Did op (co_error O' h op)])"
  by (simp add: cbm_do_def Let_def)

lemma run_cbm_wait [simp]: "run_state (cbm_wait O') h = (co_wait O' h, h @ [Waited (co_wait O' h)])"
  by (simp add: cbm_wait_def Let_def)

lemma run_cbm_return [simp]: "run_state (State_Monad.return a) h = (a, h)"
  by (simp add: State_Monad.return_def)

lemma ops_of_append [simp]: "ops_of (h @ h') = ops_of h @ ops_of h'"
  by (simp add: ops_of_def)

lemma ops_of_simps [simp]: "ops_of [] = []" "ops_of (Did op e # h) = op # ops_of h" "ops_of (Waited w # h) = ops_of h"
  by (simp_all add: ops_of_def)

lemma did_ok_simps [simp]:
  "\<not> did_ok op []" "did_ok op (h @ h') \<longleftrightarrow> did_ok op h \<or> did_ok op h'"
  "did_ok op (Did op' e # h) \<longleftrightarrow> op' = op \<and> e = None \<or> did_ok op h" "did_ok op (Waited w # h) \<longleftrightarrow> did_ok op h"
  by (auto simp: did_ok_def)

text \<open>Stopping the child appends to the trace, starts nothing, and stops it.\<close>

definition stops :: "cbm_event list \<Rightarrow> cbm_event list \<Rightarrow> bool" where
  "stops h h' \<longleftrightarrow>
     (\<exists>more. h' = h @ more \<and> child_stopped more \<and> (\<forall>s. \<not> did_ok (OpListen s) more) \<and> \<not> did_ok OpStartChild more)"

lemma terminate_stops: "stops h (snd (run_state (terminate_child O') h))"
  by (auto simp: terminate_child_def stops_def child_stopped_def split: option.splits)

lemma abandon_stops: "\<exists>h'. run_state (abandon O' m) h = (Some m, h') \<and> stops h h'"
  by (auto simp: abandon_def terminate_child_def stops_def child_stopped_def split: option.splits)

text \<open>A start in progress: the child runs, and nothing that must be undone later has been done.\<close>

definition starting :: "cbm_event list \<Rightarrow> bool" where
  "starting h \<longleftrightarrow>
     did_ok OpStartChild h \<and> (\<forall>s. \<not> did_ok (OpListen s) h) \<and> OpSigterm \<notin> set (ops_of h) \<and> OpCloseListener \<notin> set (ops_of h)"

definition shaken :: "cbm_event list \<Rightarrow> bool" where
  "shaken h \<longleftrightarrow>
     did_ok (OpWriteChild initialize_request) h \<and> did_ok (OpWriteChild initialized_notification) h \<and>
     (\<exists>line. Waited (Replied line) \<in> set h)"

lemma initialize_shakes:
  assumes "starting h" and "run_state (cbm_initialize O') h = (e, h')"
  shows "starting h' \<and> (e = None \<longrightarrow> shaken h')"
  using assms
  by (auto simp: cbm_initialize_def send_and_wait_def starting_def shaken_def split: option.splits sum.splits wait_end.splits)

lemma stopped_start_ok:
  assumes "stops h h'" and "\<And>s. did_ok (OpListen s) h \<Longrightarrow> listener_gone s h"
  shows "start_ok sock (Some m, h')"
proof -
  obtain more where h': "h' = h @ more" "child_stopped more" "\<not> did_ok (OpListen sock) more"
    using assms(1) by (auto simp: stops_def)
  have "listener_gone sock (h @ more)" if "listener_gone sock h"
    using that by (auto simp: listener_gone_def dropWhile_append1)
  then show ?thesis
    using h' assms(2) [of sock] by (auto simp: start_ok_def child_stopped_def)
qed

lemma abandon_ok:
  "(\<And>s. did_ok (OpListen s) h \<Longrightarrow> listener_gone s h) \<Longrightarrow> start_ok sock (run_state (abandon O' m) h)"
  using abandon_stops [of O' m h] stopped_start_ok by fastforce

lemma starting_Did:
  "starting h \<Longrightarrow> op \<notin> {OpSigterm, OpCloseListener} \<Longrightarrow> (\<forall>s. op \<noteq> OpListen s) \<or> e \<noteq> None \<Longrightarrow> starting (h @ [Did op e])"
  by (auto simp: starting_def)

lemma shaken_Did: "shaken h \<Longrightarrow> shaken (h @ [Did op e])"
  by (auto simp: shaken_def)

text \<open>From the socket on: the listener, and what is done when its mode cannot be set.\<close>

lemma listen_ok:
  assumes "starting h" and "shaken h" and "did_ok (OpChmod (path_dir sock) 448) h"
  shows "start_ok sock (run_state (open_listener O' sock) h)"
proof (cases "co_error O' h (OpListen sock)")
  case (Some m)
  have "starting (h @ [Did (OpListen sock) (Some m)])" using assms(1) by (rule starting_Did) auto
  then show ?thesis using Some by (auto simp: open_listener_def starting_def intro!: abandon_ok)
next
  case None
  let ?h = "h @ [Did (OpListen sock) None]"
  show ?thesis
  proof (cases "co_error O' ?h (OpChmod sock 384)")
    case None2: None
    show ?thesis using assms None None2 by (auto simp: open_listener_def start_ok_def starting_def shaken_def)
  next
    case (Some m)
    have "OpCloseListener \<notin> set (ops_of h)" "\<And>s. \<not> did_ok (OpListen s) h" using assms(1) by (auto simp: starting_def)
    then show ?thesis using None Some
      by (auto simp: open_listener_def listener_gone_def dropWhile_append intro!: abandon_ok)
  qed
qed

lemma start_with_io_ok:
  assumes "starting h"
  shows "start_ok sock (run_state (start_with_io O' sock) h)"
proof -
  have quiet: "start_ok sock (run_state (abandon O' m) h')" if "starting h'" for m h'
    using that by (intro abandon_ok) (simp add: starting_def)
  obtain e1 h1 where init: "run_state (cbm_initialize O') h = (e1, h1)" by fastforce
  note s1 = initialize_shakes [OF assms init]
  show ?thesis
  proof (cases e1)
    case (Some m)
    then show ?thesis using init quiet s1 by (simp add: start_with_io_def)
  next
    case None
    let ?e2 = "co_error O' h1 (OpMkdir (path_dir sock))" and ?h2 = "h1 @ [Did (OpMkdir (path_dir sock)) (co_error O' h1 (OpMkdir (path_dir sock)))]"
    have s2: "starting ?h2" "shaken ?h2" using s1 None by (auto intro: starting_Did shaken_Did)
    let ?e3 = "co_error O' ?h2 (OpChmod (path_dir sock) 448)" 
    let ?h3 = "?h2 @ [Did (OpChmod (path_dir sock) 448) ?e3]"
    have s3: "starting ?h3" "shaken ?h3" using s2 by (auto intro: starting_Did shaken_Did simp del: append_assoc)
    let ?h4 = "?h3 @ [Did (OpRemove sock) (co_error O' ?h3 (OpRemove sock))]"
    have s4: "starting ?h4" "shaken ?h4" using s3 by (auto intro: starting_Did shaken_Did simp del: append_assoc)
    have rest: "start_ok sock (run_state (start_with_io O' sock) h)" if "?e2 = None" "?e3 = None"
      using listen_ok [OF s4, of sock O'] that init None by (simp add: start_with_io_def)
    show ?thesis
      using quiet [OF s2(1)] quiet [OF s3(1)] rest init None
      by (cases ?e2; cases ?e3) (simp_all add: start_with_io_def)
  qed
qed

text \<open>
  Whatever calls fail, a start of the CBM broker leaves nothing half done: when it reports an
  error after it has started the child, it has closed the child's input and asked it to end, and the
  child has ended or was killed, and a listener it had opened is closed and its socket removed;
  when it reports none, the handshake was complete and the socket and its directory have modes for
  the owner only.
\<close>

theorem start_contract: "start_ok sock (run_state (cbm_start O' sock) [])"
proof -
  have "start_ok sock (Some m, h)" if "\<not> did_ok OpStartChild h" "\<not> did_ok (OpListen sock) h" for m h
    using that by (simp add: start_ok_def)
  then show ?thesis
    by (auto simp: cbm_start_def split: option.splits intro!: start_with_io_ok) (auto simp: starting_def)
qed

end
