(* ===== verification/Cbm_Clients.thy ===== *)
theory Cbm_Clients
  imports Cbm_Broker Gm_Requests
begin

text \<open>
  The clients of the CBM broker: every connection is handled by a goroutine of its own, another one
  reads the child's output, and all of them share the table of pending requests. A step is what
  one of them does between two points at which another could come in: a section under the mutex,
  the atomic increment, one operation on a channel.
\<close>

section \<open>The broker and its clients\<close>

datatype cbm_answer = NoAnswer | ErrorAnswer string | Forwarded string string

text \<open>
  Where \<open>handleClient\<close> is. The id the client sent is kept from \<open>ClParsed\<close> on; \<open>Forwarded\<close> has the line
  of the child and what was written to the connection.
\<close>

datatype client_phase =
    ClConnected
  | ClParsed string
  | ClNumbered string int string
  | ClRegistered string int string
  | ClWaiting string int
  | ClGivingUp string int string
  | ClClosed cbm_answer

text \<open>
  \<open>pending\<close> with the client each channel belongs to, \<open>nextID\<close>, \<open>dead\<close>, the channels, the line
  that the reader has taken out of the table for a client and not sent yet, what was written to
  the child, and whether the process has panicked. \<open>bs_ids\<close> remembers the internal id of each client.
\<close>

record cbm_state =
  bs_pending :: "int \<Rightarrow> nat option"
  bs_next :: int
  bs_dead :: bool
  bs_chan :: "nat \<Rightarrow> string option"
  bs_reader :: "(nat \<times> string) option"
  bs_sent :: "string list"
  bs_crashed :: bool
  bs_ids :: "nat \<Rightarrow> int option"
  bs_phase :: "nat \<Rightarrow> client_phase"

text \<open>After the handshake, which has used the id 1.\<close>

definition started_broker :: cbm_state where
  "started_broker =
     \<lparr>bs_pending = (\<lambda>_. None), bs_next = 1, bs_dead = False, bs_chan = (\<lambda>_. None), bs_reader = None, bs_sent = [],
      bs_crashed = False, bs_ids = (\<lambda>_. None), bs_phase = (\<lambda>_. ClConnected)\<rparr>"

definition set_phase :: "nat \<Rightarrow> client_phase \<Rightarrow> cbm_state \<Rightarrow> cbm_state" where
  "set_phase i p b = b\<lparr>bs_phase := (bs_phase b)(i := p)\<rparr>"

definition register_pending :: "int \<Rightarrow> nat \<Rightarrow> cbm_state \<Rightarrow> cbm_state option" where
  "register_pending n i b = (if bs_dead b then None else Some (b\<lparr>bs_pending := (bs_pending b)(n \<mapsto> i)\<rparr>))"

definition remove_pending :: "int \<Rightarrow> cbm_state \<Rightarrow> cbm_state" where
  "remove_pending n b = b\<lparr>bs_pending := (bs_pending b)(n := None)\<rparr>"

definition take_pending :: "int \<Rightarrow> cbm_state \<Rightarrow> nat option \<times> cbm_state" where
  "take_pending n b = (bs_pending b n, remove_pending n b)"

text \<open>The buffered channel of a client holds one line; a second one is dropped.\<close>

definition put_line :: "nat \<Rightarrow> string \<Rightarrow> cbm_state \<Rightarrow> cbm_state" where
  "put_line i line b =
     b\<lparr>bs_chan := (bs_chan b)(i := (case bs_chan b i of None \<Rightarrow> Some line | Some l \<Rightarrow> Some l))\<rparr>"

text \<open>\<open>failPending\<close>: each pending client gets the error line of its own id.\<close>

definition fail_pending :: "cbm_state \<Rightarrow> cbm_state" where
  "fail_pending b =
     b\<lparr>bs_chan := (\<lambda>i. case (bs_chan b i, bs_ids b i) of
          (None, Some n) \<Rightarrow> if bs_pending b n = Some i then Some (child_exited_line n) else None
        | (c, _) \<Rightarrow> c),
       bs_pending := (\<lambda>_. None), bs_dead := True\<rparr>"

text \<open>What is written to the client for a line of the child.\<close>

definition forward :: "string \<Rightarrow> string \<Rightarrow> string" where
  "forward line cid = (case rewrite_response_id line cid of Returns out \<Rightarrow> out | _ \<Rightarrow> line)"

text \<open>\<open>inp i\<close> is what the client of connection \<open>i\<close> sends before it stops.\<close>

inductive cbm_step :: "(nat \<Rightarrow> string) \<Rightarrow> cbm_state \<Rightarrow> cbm_state \<Rightarrow> bool" for inp where
  no_line: "\<not> bs_crashed b \<Longrightarrow> bs_phase b i = ClConnected \<Longrightarrow> readJSONLine (inp i) = None \<Longrightarrow>
    cbm_step inp b (set_phase i (ClClosed NoAnswer) b)"
| parse_error: "\<not> bs_crashed b \<Longrightarrow> bs_phase b i = ClConnected \<Longrightarrow> readJSONLine (inp i) = Some line \<Longrightarrow>
    client_request_id line = None \<Longrightarrow>
    cbm_step inp b (set_phase i (ClClosed (ErrorAnswer (error_to_conn [] (-32700) ''parse error''))) b)"
| parsed: "\<not> bs_crashed b \<Longrightarrow> bs_phase b i = ClConnected \<Longrightarrow> readJSONLine (inp i) = Some line \<Longrightarrow>
    client_request_id line = Some cid \<Longrightarrow>
    cbm_step inp b (set_phase i (ClParsed cid) b)"
| panic: "\<not> bs_crashed b \<Longrightarrow> bs_phase b i = ClParsed cid \<Longrightarrow> readJSONLine (inp i) = Some line \<Longrightarrow>
    rewrite_request_id line (bs_next b + 1) = Panics \<Longrightarrow>
    cbm_step inp b (b\<lparr>bs_next := bs_next b + 1, bs_crashed := True\<rparr>)"
| no_rewrite: "\<not> bs_crashed b \<Longrightarrow> bs_phase b i = ClParsed cid \<Longrightarrow> readJSONLine (inp i) = Some line \<Longrightarrow>
    rewrite_request_id line (bs_next b + 1) = Fails \<Longrightarrow>
    cbm_step inp b (set_phase i (ClClosed (ErrorAnswer (error_to_conn cid (-32603) ''internal error'')))
      (b\<lparr>bs_next := bs_next b + 1, bs_ids := (bs_ids b)(i \<mapsto> bs_next b + 1)\<rparr>))"
| numbered: "\<not> bs_crashed b \<Longrightarrow> bs_phase b i = ClParsed cid \<Longrightarrow> readJSONLine (inp i) = Some line \<Longrightarrow>
    rewrite_request_id line (bs_next b + 1) = Returns req \<Longrightarrow>
    cbm_step inp b (set_phase i (ClNumbered cid (bs_next b + 1) req)
      (b\<lparr>bs_next := bs_next b + 1, bs_ids := (bs_ids b)(i \<mapsto> bs_next b + 1)\<rparr>))"
| not_available: "\<not> bs_crashed b \<Longrightarrow> bs_phase b i = ClNumbered cid n req \<Longrightarrow> register_pending n i b = None \<Longrightarrow>
    cbm_step inp b (set_phase i (ClClosed (ErrorAnswer (error_to_conn cid (-32603) ''cbm: MCP broker not available''))) b)"
| registered: "\<not> bs_crashed b \<Longrightarrow> bs_phase b i = ClNumbered cid n req \<Longrightarrow> register_pending n i b = Some b' \<Longrightarrow>
    cbm_step inp b (set_phase i (ClRegistered cid n req) b')"
| write_failed: "\<not> bs_crashed b \<Longrightarrow> bs_phase b i = ClRegistered cid n req \<Longrightarrow>
    cbm_step inp b (set_phase i (ClGivingUp cid n ''cbm: write to MCP child failed'') b)"
| written: "\<not> bs_crashed b \<Longrightarrow> bs_phase b i = ClRegistered cid n req \<Longrightarrow>
    cbm_step inp b (set_phase i (ClWaiting cid n) (b\<lparr>bs_sent := bs_sent b @ [req]\<rparr>))"
| received: "\<not> bs_crashed b \<Longrightarrow> bs_phase b i = ClWaiting cid n \<Longrightarrow> bs_chan b i = Some line \<Longrightarrow>
    cbm_step inp b (set_phase i (ClClosed (Forwarded line (forward line cid))) (b\<lparr>bs_chan := (bs_chan b)(i := None)\<rparr>))"
| saw_dead: "\<not> bs_crashed b \<Longrightarrow> bs_phase b i = ClWaiting cid n \<Longrightarrow> bs_dead b \<Longrightarrow>
    cbm_step inp b (set_phase i (ClGivingUp cid n ''cbm: MCP broker died'') b)"
| timed_out: "\<not> bs_crashed b \<Longrightarrow> bs_phase b i = ClWaiting cid n \<Longrightarrow>
    cbm_step inp b (set_phase i (ClGivingUp cid n ''cbm: request timed out'') b)"
| gave_up: "\<not> bs_crashed b \<Longrightarrow> bs_phase b i = ClGivingUp cid n msg \<Longrightarrow>
    cbm_step inp b (set_phase i (ClClosed (ErrorAnswer (error_to_conn cid (-32603) msg))) (remove_pending n b))"
| reader_ignored: "\<not> bs_crashed b \<Longrightarrow> \<not> bs_dead b \<Longrightarrow> bs_reader b = None \<Longrightarrow>
    response_id line = None \<or> (response_id line = Some n \<and> fst (take_pending n b) = None) \<Longrightarrow>
    cbm_step inp b b"
| reader_took: "\<not> bs_crashed b \<Longrightarrow> \<not> bs_dead b \<Longrightarrow> bs_reader b = None \<Longrightarrow>
    response_id line = Some n \<Longrightarrow> take_pending n b = (Some i, b') \<Longrightarrow>
    cbm_step inp b (b'\<lparr>bs_reader := Some (i, line)\<rparr>)"
| reader_sent: "\<not> bs_crashed b \<Longrightarrow> bs_reader b = Some (i, line) \<Longrightarrow>
    cbm_step inp b ((put_line i line b)\<lparr>bs_reader := None\<rparr>)"
| reader_ended: "\<not> bs_crashed b \<Longrightarrow> \<not> bs_dead b \<Longrightarrow> bs_reader b = None \<Longrightarrow>
    cbm_step inp b (fail_pending b)"

abbreviation cbm_runs :: "(nat \<Rightarrow> string) \<Rightarrow> cbm_state \<Rightarrow> bool" where
  "cbm_runs inp \<equiv> (cbm_step inp)\<^sup>*\<^sup>* started_broker"

section \<open>Every line finds its own client\<close>

text \<open>The internal id a phase holds, and whether the client may be in the table.\<close>

definition phase_id :: "client_phase \<Rightarrow> int option" where
  "phase_id p =
     (case p of ClNumbered _ n _ \<Rightarrow> Some n | ClRegistered _ n _ \<Rightarrow> Some n | ClWaiting _ n \<Rightarrow> Some n
      | ClGivingUp _ n _ \<Rightarrow> Some n | _ \<Rightarrow> None)"

definition may_pend :: "client_phase \<Rightarrow> bool" where
  "may_pend p = (case p of ClRegistered _ _ _ \<Rightarrow> True | ClWaiting _ _ \<Rightarrow> True | ClGivingUp _ _ _ \<Rightarrow> True | _ \<Rightarrow> False)"

definition phase_cid :: "client_phase \<Rightarrow> string option" where
  "phase_cid p =
     (case p of ClParsed c \<Rightarrow> Some c | ClNumbered c _ _ \<Rightarrow> Some c | ClRegistered c _ _ \<Rightarrow> Some c | ClWaiting c _ \<Rightarrow> Some c
      | ClGivingUp c _ _ \<Rightarrow> Some c | _ \<Rightarrow> None)"

text \<open>The id in the request of a client, as it wrote it.\<close>

definition own_id :: "(nat \<Rightarrow> string) \<Rightarrow> nat \<Rightarrow> string option" where
  "own_id inp i = (case readJSONLine (inp i) of None \<Rightarrow> None | Some line \<Rightarrow> client_request_id line)"

definition ids_ok :: "cbm_state \<Rightarrow> bool" where
  "ids_ok b \<longleftrightarrow>
     1 \<le> bs_next b \<and>
     (\<forall>i n. bs_ids b i = Some n \<longrightarrow> 2 \<le> n \<and> n \<le> bs_next b) \<and>
     (\<forall>i j n. bs_ids b i = Some n \<longrightarrow> bs_ids b j = Some n \<longrightarrow> i = j) \<and>
     (\<forall>i n. phase_id (bs_phase b i) = Some n \<longrightarrow> bs_ids b i = Some n) \<and>
     (\<forall>i. bs_ids b i \<noteq> None \<longrightarrow> bs_phase b i \<noteq> ClConnected \<and> (\<forall>c. bs_phase b i \<noteq> ClParsed c))"

text \<open>A line for the internal id: one of the child with this id, or the error line made for it.\<close>

definition carries :: "string \<Rightarrow> int \<Rightarrow> bool" where
  "carries line n \<longleftrightarrow> response_id line = Some n \<or> line = child_exited_line n"

definition line_for :: "cbm_state \<Rightarrow> nat \<Rightarrow> string \<Rightarrow> bool" where
  "line_for b i line \<longleftrightarrow> (case bs_ids b i of None \<Rightarrow> False | Some n \<Rightarrow> carries line n)"

text \<open>A line that a client has not read yet is the only one for it: the client is in the table no more.\<close>

definition past_table :: "client_phase \<Rightarrow> bool" where
  "past_table p = (may_pend p \<or> (case p of ClClosed _ \<Rightarrow> True | _ \<Rightarrow> False))"

definition in_transit :: "cbm_state \<Rightarrow> nat \<Rightarrow> string \<Rightarrow> bool" where
  "in_transit b i line \<longleftrightarrow> bs_chan b i = Some line \<or> bs_reader b = Some (i, line)"

definition lines_ok :: "cbm_state \<Rightarrow> bool" where
  "lines_ok b \<longleftrightarrow>
     (\<forall>n i. bs_pending b n = Some i \<longrightarrow> bs_ids b i = Some n \<and> may_pend (bs_phase b i)) \<and>
     (\<forall>i line. in_transit b i line \<longrightarrow>
        line_for b i line \<and> (\<forall>n. bs_pending b n \<noteq> Some i) \<and> past_table (bs_phase b i))"

definition answers_ok :: "(nat \<Rightarrow> string) \<Rightarrow> cbm_state \<Rightarrow> bool" where
  "answers_ok inp b \<longleftrightarrow>
     (\<forall>i c. phase_cid (bs_phase b i) = Some c \<longrightarrow> own_id inp i = Some c) \<and>
     (\<forall>i line out. bs_phase b i = ClClosed (Forwarded line out) \<longrightarrow>
        line_for b i line \<and> (\<exists>c. own_id inp i = Some c \<and> out = forward line c))"

lemmas phase_defs = phase_id_def may_pend_def phase_cid_def

lemma phase_simps [simp]:
  "phase_id (ClClosed a) = None" "phase_id (ClNumbered c n r) = Some n" "phase_id (ClParsed c) = None"
  "phase_id (ClRegistered c n r) = Some n" "phase_id (ClWaiting c n) = Some n" "phase_id (ClGivingUp c n m) = Some n"
  "\<not> may_pend (ClClosed a)" "\<not> may_pend (ClNumbered c n r)" "\<not> may_pend (ClParsed c)" "\<not> may_pend ClConnected"
  "may_pend (ClRegistered c n r)" "may_pend (ClWaiting c n)" "may_pend (ClGivingUp c n m)"
  "phase_cid (ClClosed a) = None" "phase_cid (ClNumbered c n r) = Some c" "phase_cid (ClParsed c) = Some c"
  "phase_cid (ClRegistered c n r) = Some c" "phase_cid (ClWaiting c n) = Some c" "phase_cid (ClGivingUp c n m) = Some c"
  "phase_id ClConnected = None" "phase_cid ClConnected = None"
  by (simp_all add: phase_defs)

lemma set_phase_simps [simp]:
  "bs_pending (set_phase i p b) = bs_pending b" "bs_next (set_phase i p b) = bs_next b"
  "bs_dead (set_phase i p b) = bs_dead b" "bs_chan (set_phase i p b) = bs_chan b"
  "bs_reader (set_phase i p b) = bs_reader b" "bs_ids (set_phase i p b) = bs_ids b"
  "bs_crashed (set_phase i p b) = bs_crashed b" "bs_sent (set_phase i p b) = bs_sent b"
  "bs_phase (set_phase i p b) = (bs_phase b)(i := p)"
  by (simp_all add: set_phase_def)

lemmas broker_op_defs =
  register_pending_def remove_pending_def take_pending_def put_line_def fail_pending_def

lemma ids_okD:
  assumes "ids_ok b"
  shows "1 \<le> bs_next b" and "bs_ids b i = Some n \<Longrightarrow> 2 \<le> n" and "bs_ids b i = Some n \<Longrightarrow> n \<le> bs_next b"
    and "bs_ids b i = Some n \<Longrightarrow> bs_ids b j = Some n \<Longrightarrow> i = j"
    and "phase_id (bs_phase b i) = Some n \<Longrightarrow> bs_ids b i = Some n"
    and "bs_phase b i = ClParsed c \<Longrightarrow> bs_ids b i = None"
    and "bs_phase b i = ClConnected \<Longrightarrow> bs_ids b i = None"
  using assms unfolding ids_ok_def by (blast | fastforce)+

lemma ids_number:
  assumes "ids_ok b" and "bs_phase b i = ClParsed c" and "p = ClNumbered c (bs_next b + 1) req \<or> p = ClClosed a"
  shows "ids_ok (set_phase i p (b\<lparr>bs_next := bs_next b + 1, bs_ids := (bs_ids b)(i \<mapsto> bs_next b + 1)\<rparr>))"
proof -
  have bound: "bs_ids b j = Some n \<Longrightarrow> 2 \<le> n \<and> n < bs_next b + 1" for j n
    using ids_okD(2,3) [OF assms(1), of j n] by simp
  have ph: "phase_id (bs_phase b j) = Some n \<Longrightarrow> bs_ids b j = Some n" for j n
    by (rule ids_okD(5) [OF assms(1)])
  have inj: "bs_ids b j = Some n \<Longrightarrow> bs_ids b k = Some n \<Longrightarrow> j = k" for j k n
    by (rule ids_okD(4) [OF assms(1)])
  have early: "bs_phase b j = ClConnected \<Longrightarrow> bs_ids b j = None" "bs_phase b j = ClParsed c \<Longrightarrow> bs_ids b j = None" for j c
    using ids_okD(6,7) [OF assms(1), of j] by auto
  have parts: "1 \<le> bs_next b" "p \<noteq> ClConnected" "\<And>c'. p \<noteq> ClParsed c'"
      "\<And>n. phase_id p = Some n \<Longrightarrow> n = bs_next b + 1"
    using assms(3) ids_okD(1) [OF assms(1)] by auto
  have free: "bs_ids b j \<noteq> Some (bs_next b + 1)" for j using bound [of j "bs_next b + 1"] by auto
  show ?thesis
    unfolding ids_ok_def
    using parts free by (auto dest: bound ph inj early)
qed

lemma ids_stay:
  assumes "ids_ok b" and "bs_next b' = bs_next b" and "bs_ids b' = bs_ids b" and "bs_phase b' = (bs_phase b)(i := p)"
    and "p \<noteq> ClConnected" and "\<forall>c. p = ClParsed c \<longrightarrow> bs_phase b i = ClConnected"
    and "\<forall>n. phase_id p = Some n \<longrightarrow> phase_id (bs_phase b i) = Some n"
  shows "ids_ok b'"
  using assms unfolding ids_ok_def by auto

lemma ids_same:
  "ids_ok b \<Longrightarrow> bs_next b' = bs_next b \<Longrightarrow> bs_ids b' = bs_ids b \<Longrightarrow> bs_phase b' = bs_phase b \<Longrightarrow> ids_ok b'"
  by (simp add: ids_ok_def)

lemma ids_step:
  assumes "cbm_step inp b b'" and ok: "ids_ok b"
  shows "ids_ok b'"
  using assms(1)
proof cases
  case (no_rewrite i cid line)
  then show ?thesis using ids_number [OF ok no_rewrite(3)] by simp
next
  case (numbered i cid line req)
  then show ?thesis using ids_number [OF ok numbered(3)] by simp
next
  case (panic i cid line)
  have "ids_ok (b\<lparr>bs_next := bs_next b + 1, bs_crashed := True\<rparr>)"
    using ok unfolding ids_ok_def by fastforce
  then show ?thesis using panic by simp
next
  case (registered i cid n req b1)
  then show ?thesis by (intro ids_stay [OF ok, of _ i "ClRegistered cid n req"]) (auto simp: register_pending_def split: if_splits)
next
  case (reader_took line n i b1)
  then show ?thesis by (intro ids_same [OF ok]) (auto simp: broker_op_defs)
next
  case (reader_sent i line)
  then show ?thesis by (intro ids_same [OF ok]) (auto simp: broker_op_defs)
next
  case reader_ended
  then show ?thesis by (intro ids_same [OF ok]) (auto simp: broker_op_defs)
next
  case (gave_up i cid n msg)
  then show ?thesis by (intro ids_stay [OF ok, of _ i "ClClosed (ErrorAnswer (error_to_conn cid (-32603) msg))"]) (auto simp: broker_op_defs)
qed (use ok in \<open>auto intro: ids_stay\<close>)

lemma carriesI [simp]: "carries (child_exited_line n) n" "response_id line = Some n \<Longrightarrow> carries line n"
  by (simp_all add: carries_def)

lemma line_for_same: "bs_ids b' i = bs_ids b i \<Longrightarrow> line_for b i line \<Longrightarrow> line_for b' i line"
  by (simp add: line_for_def)

lemma line_for_numbered: "line_for b i line \<Longrightarrow> bs_ids b i \<noteq> None"
  by (auto simp: line_for_def split: option.splits)

lemma past_table_simps [simp]:
  "past_table (ClClosed a)" "may_pend p \<Longrightarrow> past_table p" "\<not> past_table (ClNumbered c n r)" "\<not> past_table (ClParsed c)"
  "\<not> past_table ClConnected"
  by (simp_all add: past_table_def)

lemma lines_okD:
  assumes "lines_ok b"
  shows "bs_pending b n = Some i \<Longrightarrow> bs_ids b i = Some n" and "bs_pending b n = Some i \<Longrightarrow> may_pend (bs_phase b i)"
    and "in_transit b i line \<Longrightarrow> line_for b i line" and "in_transit b i line \<Longrightarrow> bs_pending b n \<noteq> Some i"
    and "in_transit b i line \<Longrightarrow> past_table (bs_phase b i)"
  using assms unfolding lines_ok_def by blast+

lemma lines_okI:
  assumes "\<And>n i. bs_pending b n = Some i \<Longrightarrow> bs_ids b i = Some n"
    and "\<And>n i. bs_pending b n = Some i \<Longrightarrow> may_pend (bs_phase b i)"
    and "\<And>i line. in_transit b i line \<Longrightarrow> line_for b i line"
    and "\<And>i line n. in_transit b i line \<Longrightarrow> bs_pending b n \<noteq> Some i"
    and "\<And>i line. in_transit b i line \<Longrightarrow> past_table (bs_phase b i)"
  shows "lines_ok b"
  using assms unfolding lines_ok_def by blast

text \<open>A step that takes nothing into the table and no line on the way, and moves one client.\<close>

lemma lines_stay:
  assumes ok: "lines_ok b" and "\<And>n j. bs_pending b' n = Some j \<Longrightarrow> bs_pending b n = Some j"
    and "bs_ids b' = bs_ids b" and "\<And>j line. in_transit b' j line \<Longrightarrow> in_transit b j line"
    and "bs_phase b' = (bs_phase b)(i := p)" and "\<And>n. bs_pending b' n = Some i \<Longrightarrow> may_pend p"
    and "past_table (bs_phase b i) \<Longrightarrow> past_table p"
  shows "lines_ok b'"
proof (rule lines_okI)
  fix n j assume "bs_pending b' n = Some j"
  then show "bs_ids b' j = Some n" "may_pend (bs_phase b' j)"
    using lines_okD(1,2) [OF ok, of n j] assms by auto
next
  fix j line assume t: "in_transit b' j line"
  then show "line_for b' j line" "past_table (bs_phase b' j)"
    using lines_okD(3,5) [OF ok, of j line] assms by (auto intro: line_for_same)
  show "bs_pending b' n \<noteq> Some j" for n
    using lines_okD(4) [OF ok, of j line n] assms t by auto
qed

lemma lines_move:
  assumes "lines_ok b" and "may_pend (bs_phase b i) \<longrightarrow> may_pend p" and "past_table (bs_phase b i) \<longrightarrow> past_table p"
  shows "lines_ok (set_phase i p b)"
  using assms lines_okD(2) [OF assms(1), of _ i]
  by (intro lines_stay [OF assms(1), of _ i p]) (auto simp: in_transit_def)

lemma lines_sent: "lines_ok (b\<lparr>bs_sent := x\<rparr>) = lines_ok b"
  by (simp add: lines_ok_def line_for_def in_transit_def)

lemma lines_number:
  assumes ok: "lines_ok b" and "bs_ids b i = None" and "bs_pending b' = bs_pending b" and "bs_ids b' = (bs_ids b)(i \<mapsto> n)"
    and "bs_reader b' = bs_reader b" and "bs_chan b' = bs_chan b" and "bs_phase b' = (bs_phase b)(i := p)"
  shows "lines_ok b'"
proof -
  have "j \<noteq> i" if "in_transit b j line" for j line
    using lines_okD(3) [OF ok that] line_for_numbered assms(2) by blast
  moreover have "j \<noteq> i" if "bs_pending b m = Some j" for j m
    using lines_okD(1) [OF ok that] assms(2) by auto
  ultimately show ?thesis
    using lines_okD [OF ok] assms(3-) by (intro lines_okI) (auto simp: in_transit_def line_for_def split: if_splits)
qed

lemma lines_step:
  assumes "cbm_step inp b b'" and ids: "ids_ok b" and ok: "lines_ok b"
  shows "lines_ok b'"
  using assms(1)
proof cases
  case (no_rewrite i cid line)
  then show ?thesis using ids_okD(6) [OF ids no_rewrite(3)] by (intro lines_number [OF ok]) auto
next
  case (numbered i cid line req)
  then show ?thesis using ids_okD(6) [OF ids numbered(3)] by (intro lines_number [OF ok]) auto
next
  case (panic i cid line)
  then show ?thesis using ok by (simp add: lines_ok_def line_for_def in_transit_def)
next
  case (registered i cid n req b1)
  then have id: "bs_ids b i = Some n" using ids_okD(5) [OF ids, of i n] by simp
  have none: "\<not> in_transit b i line" for line
    using lines_okD(5) [OF ok, of i line] registered by auto
  show ?thesis
    using registered id none ok unfolding lines_ok_def
    by (auto simp: register_pending_def in_transit_def line_for_def split: if_splits)
next
  case (received i cid n line)
  then have "in_transit b i line" by (simp add: in_transit_def)
  then have "bs_pending b m \<noteq> Some i" for m by (rule lines_okD(4) [OF ok])
  with received show ?thesis
    by (intro lines_stay [OF ok, of _ i "ClClosed (Forwarded line (forward line cid))"]) (auto simp: in_transit_def split: if_splits)
next
  case (gave_up i cid n msg)
  then have "bs_ids b i = Some n" using ids_okD(5) [OF ids, of i n] by simp
  then have "bs_pending b m = Some i \<Longrightarrow> m = n" for m using lines_okD(1) [OF ok, of m i] by simp
  with gave_up show ?thesis
    by (intro lines_stay [OF ok, of _ i "ClClosed (ErrorAnswer (error_to_conn cid (-32603) msg))"])
      (auto simp: in_transit_def remove_pending_def split: if_splits)
next
  case (reader_took line n i b1)
  then have i: "bs_ids b i = Some n" "may_pend (bs_phase b i)" "bs_pending b n = Some i"
    using lines_okD(1,2) [OF ok, of n i] by (auto simp: take_pending_def)
  have uniq: "bs_pending b m = Some i \<Longrightarrow> m = n" for m using lines_okD(1) [OF ok, of m i] i by simp
  have b': "bs_pending b' = (bs_pending b)(n := None)" "bs_ids b' = bs_ids b" "bs_phase b' = bs_phase b"
      "bs_chan b' = bs_chan b" "bs_reader b' = Some (i, line)"
    using reader_took by (auto simp: broker_op_defs)
  have moved: "in_transit b j l \<or> j = i \<and> l = line" if "in_transit b' j l" for j l
    using that b' by (auto simp: in_transit_def)
  have here: "line_for b i line" using i reader_took(5) by (simp add: line_for_def)
  show ?thesis
  proof (rule lines_okI)
    fix m j assume "bs_pending b' m = Some j"
    then have "bs_pending b m = Some j" using b' by (auto split: if_splits)
    then show "bs_ids b' j = Some m" "may_pend (bs_phase b' j)"
      using lines_okD(1,2) [OF ok] b' by simp_all
  next
    fix j l assume t: "in_transit b' j l"
    then show "line_for b' j l" "past_table (bs_phase b' j)"
      using moved [OF t] lines_okD(3,5) [OF ok, of j l] here i b' by (auto simp: line_for_def)
    show "bs_pending b' m \<noteq> Some j" for m
      using moved [OF t] lines_okD(4) [OF ok, of j l m] uniq [of m] b' by (auto split: if_splits)
  qed
next
  case (reader_sent i line)
  then have "in_transit b' j l \<Longrightarrow> in_transit b j l" for j l
    by (auto simp: put_line_def in_transit_def split: option.splits if_splits)
  with reader_sent show ?thesis
    using lines_okD(2) [OF ok, of _ i]
    by (intro lines_stay [OF ok, of _ i "bs_phase b i"]) (auto simp: put_line_def)
next
  case reader_ended
  have b': "bs_pending b' = (\<lambda>_. None)" "bs_ids b' = bs_ids b" "bs_phase b' = bs_phase b"
    using reader_ended by (auto simp: fail_pending_def)
  have moved: "in_transit b i line \<or> (\<exists>n. bs_pending b n = Some i \<and> line = child_exited_line n)"
    if "in_transit b' i line" for i line
    using that reader_ended by (auto simp: fail_pending_def in_transit_def split: option.splits if_splits)
  show ?thesis
  proof (rule lines_okI)
    fix i line assume t: "in_transit b' i line"
    then show "line_for b' i line" "past_table (bs_phase b' i)"
      using moved [OF t] lines_okD(3,5) [OF ok, of i line] lines_okD(1,2) [OF ok] b' by (auto simp: line_for_def)
  qed (simp_all add: b')
next
  case (reader_ignored line n)
  then show ?thesis using ok by simp
qed (use ok in \<open>auto intro!: lines_move simp: lines_sent\<close>)

lemma answers_stay:
  assumes "answers_ok inp b" and "bs_ids b' = bs_ids b" and "bs_phase b' = (bs_phase b)(i := p)"
    and "\<forall>c. phase_cid p = Some c \<longrightarrow> own_id inp i = Some c" and "\<forall>line out. p \<noteq> ClClosed (Forwarded line out)"
  shows "answers_ok inp b'"
  using assms unfolding answers_ok_def line_for_def by auto

lemma answers_cid: "answers_ok inp b \<Longrightarrow> phase_cid (bs_phase b i) = Some c \<Longrightarrow> own_id inp i = Some c"
  by (simp add: answers_ok_def)

lemma answers_number:
  assumes "answers_ok inp b" and "bs_phase b i = ClParsed c" and "bs_ids b' = (bs_ids b)(i \<mapsto> n)"
    and "bs_phase b' = (bs_phase b)(i := p)" and "phase_cid p \<noteq> None \<longrightarrow> phase_cid p = Some c"
    and "\<forall>line out. p \<noteq> ClClosed (Forwarded line out)"
  shows "answers_ok inp b'"
  using assms answers_cid [OF assms(1), of i c] unfolding answers_ok_def line_for_def by auto

lemma answers_step:
  assumes "cbm_step inp b b'" and lines: "lines_ok b" and ok: "answers_ok inp b"
  shows "answers_ok inp b'"
  using assms(1)
proof cases
  case (parsed i line cid)
  then show ?thesis by (intro answers_stay [OF ok]) (auto simp: own_id_def)
next
  case (no_rewrite i cid line)
  then show ?thesis by (intro answers_number [OF ok no_rewrite(3)]) auto
next
  case (numbered i cid line req)
  then show ?thesis by (intro answers_number [OF ok numbered(3)]) auto
next
  case (received i cid n line)
  then have "own_id inp i = Some cid" by (intro answers_cid [OF ok]) simp
  moreover have "line_for b i line" using lines_okD(3) [OF lines, of i line] received by (simp add: in_transit_def)
  ultimately show ?thesis using received ok unfolding answers_ok_def line_for_def by auto
next
  case (panic i cid line)
  then show ?thesis using ok by (simp add: answers_ok_def line_for_def)
next
  case (registered i cid n req b1)
  then show ?thesis using answers_cid [OF ok, of i]
    by (intro answers_stay [OF ok, of _ i "ClRegistered cid n req"]) (auto simp: register_pending_def split: if_splits)
next
  case (gave_up i cid n msg)
  then show ?thesis
    by (intro answers_stay [OF ok, of _ i "ClClosed (ErrorAnswer (error_to_conn cid (-32603) msg))"]) (auto simp: remove_pending_def)
next
  case (reader_took line n i b1)
  then show ?thesis using ok by (auto simp: answers_ok_def line_for_def broker_op_defs)
next
  case (reader_sent i line)
  then show ?thesis using ok by (simp add: answers_ok_def line_for_def put_line_def)
next
  case reader_ended
  then show ?thesis using ok by (simp add: answers_ok_def line_for_def fail_pending_def)
qed (use ok answers_cid [OF ok] in \<open>auto intro: answers_stay\<close>)

lemma cbm_reachable:
  assumes "cbm_runs inp b"
  shows "ids_ok b \<and> lines_ok b \<and> answers_ok inp b"
  using assms
proof (induction rule: rtranclp_induct)
  case base
  show ?case by (simp add: ids_ok_def lines_ok_def in_transit_def answers_ok_def started_broker_def)
next
  case (step b b')
  then show ?case using ids_step lines_step answers_step by blast
qed

section \<open>What goes over the wire\<close>

text \<open>
  \<open>text\<close> is \<open>line\<close> with the id \<open>v\<close>: an object whose member \<open>id\<close> is \<open>v\<close> and whose other members are those of
  \<open>line\<close>, with their values as they were written.
\<close>

definition with_id :: "string \<Rightarrow> string \<Rightarrow> string \<Rightarrow> bool" where
  "with_id line v text \<longleftrightarrow>
     (\<exists>kvs. text = raw_object_text kvs @ [newline] \<and> map_of kvs ''id'' = Some v \<and>
        (\<forall>k. k \<noteq> ''id'' \<longrightarrow> map_of kvs k = map_of (raw_object line) k))"

lemma with_id_member: "with_id line v (raw_object_text (set_member ''id'' v (raw_object line)) @ [newline])"
proof -
  have "map_of (filter (\<lambda>kv. fst kv \<noteq> ''id'') kvs) k = (if k = ''id'' then None else map_of kvs k)"
    for k and kvs :: "(string \<times> string) list"
    by (induction kvs) auto
  then show ?thesis unfolding with_id_def set_member_def
    by (intro exI conjI) (auto simp: map_add_def split: option.split)
qed

lemma with_id_rewritten:
  "rewrite_request_id line n = Returns req \<Longrightarrow> with_id line (itoa n) req"
  "rewrite_response_id line c = Returns out \<Longrightarrow> with_id line c out"
  using with_id_member by (auto simp: rewrite_request_id_def rewrite_response_id_def split: option.splits json.splits)

lemma with_id_forward:
  assumes "carries line n"
  shows "with_id line c (forward line c)"
proof -
  have "\<exists>kvs. unmarshal line = Some (JObj kvs)"
  proof (cases "line = child_exited_line n")
    case True
    then show ?thesis
      unfolding child_exited_line_def by (simp add: unmarshal_json_text jint_def number_ok_itoa del: json_text.simps)
  next
    case False
    with assms show ?thesis
      by (auto simp: carries_def response_id_def unmarshal_into_def get_int_ptr_def get_field_def
          split: option.splits json.splits)
  qed
  then obtain out where "rewrite_response_id line c = Returns out" by (auto simp: rewrite_response_id_def)
  then show ?thesis using with_id_rewritten(2) by (simp add: forward_def)
qed

text \<open>The request of client \<open>i\<close> under its internal id, as the child gets it.\<close>

definition wire_request :: "(nat \<Rightarrow> string) \<Rightarrow> cbm_state \<Rightarrow> nat \<Rightarrow> string \<Rightarrow> bool" where
  "wire_request inp b i req \<longleftrightarrow>
     (case (bs_ids b i, readJSONLine (inp i)) of
        (Some n, Some line) \<Rightarrow> with_id line (itoa n) req
      | _ \<Rightarrow> False)"

definition phase_req :: "client_phase \<Rightarrow> string option" where
  "phase_req p = (case p of ClNumbered _ _ req \<Rightarrow> Some req | ClRegistered _ _ req \<Rightarrow> Some req | _ \<Rightarrow> None)"

definition has_written :: "client_phase \<Rightarrow> bool" where
  "has_written p = (case p of ClWaiting _ _ \<Rightarrow> True | ClClosed (Forwarded _ _) \<Rightarrow> True | _ \<Rightarrow> False)"

definition may_have_written :: "client_phase \<Rightarrow> bool" where
  "may_have_written p = (case p of ClWaiting _ _ \<Rightarrow> True | ClGivingUp _ _ _ \<Rightarrow> True | ClClosed _ \<Rightarrow> True | _ \<Rightarrow> False)"

lemma written_simps [simp]:
  "phase_req (ClNumbered c n r) = Some r" "phase_req (ClRegistered c n r) = Some r" "phase_req (ClClosed a) = None"
  "phase_req (ClParsed c) = None" "phase_req (ClWaiting c n) = None" "phase_req (ClGivingUp c n m) = None"
  "phase_req ClConnected = None"
  "has_written (ClWaiting c n)" "has_written (ClClosed (Forwarded l x))" "\<not> has_written (ClClosed (ErrorAnswer e))"
  "\<not> has_written (ClClosed NoAnswer)" "\<not> has_written ClConnected" "\<not> has_written (ClParsed c)"
  "\<not> has_written (ClNumbered c n r)" "\<not> has_written (ClRegistered c n r)" "\<not> has_written (ClGivingUp c n m)"
  "may_have_written (ClWaiting c n)" "may_have_written (ClClosed a)" "may_have_written (ClGivingUp c n m)"
  "\<not> may_have_written ClConnected" "\<not> may_have_written (ClParsed c)" "\<not> may_have_written (ClNumbered c n r)"
  "\<not> may_have_written (ClRegistered c n r)"
  by (simp_all add: phase_req_def has_written_def may_have_written_def)

text \<open>
  The lines written to the child are the requests of different clients, each under the internal id
  of its client; a client that waits, or was answered with a line of the child, is among them.
\<close>

definition wire_ok :: "(nat \<Rightarrow> string) \<Rightarrow> cbm_state \<Rightarrow> bool" where
  "wire_ok inp b \<longleftrightarrow>
     (\<exists>ws. distinct ws \<and> list_all2 (wire_request inp b) ws (bs_sent b) \<and>
        (\<forall>i\<in>set ws. may_have_written (bs_phase b i)) \<and> (\<forall>i. has_written (bs_phase b i) \<longrightarrow> i \<in> set ws)) \<and>
     (\<forall>i req. phase_req (bs_phase b i) = Some req \<longrightarrow> wire_request inp b i req)"

lemma wire_request_mono:
  "bs_ids b' i = bs_ids b i \<or> bs_ids b i = None \<Longrightarrow> wire_request inp b i req \<Longrightarrow> wire_request inp b' i req"
  by (auto simp: wire_request_def split: option.splits)

lemma wire_stay:
  assumes ok: "wire_ok inp b" and "bs_sent b' = bs_sent b" and "bs_phase b' = (bs_phase b)(i := p)"
    and ids: "\<And>j. bs_ids b' j = bs_ids b j \<or> bs_ids b j = None"
    and "\<And>req. phase_req p = Some req \<Longrightarrow> wire_request inp b' i req"
    and "may_have_written (bs_phase b i) \<Longrightarrow> may_have_written p" and "has_written p \<Longrightarrow> has_written (bs_phase b i)"
  shows "wire_ok inp b'"
proof -
  obtain ws where ws: "distinct ws" "list_all2 (wire_request inp b) ws (bs_sent b)"
      "\<forall>i\<in>set ws. may_have_written (bs_phase b i)" "\<forall>i. has_written (bs_phase b i) \<longrightarrow> i \<in> set ws"
    using ok unfolding wire_ok_def by blast
  have "list_all2 (wire_request inp b') ws (bs_sent b')"
    using ws(2) assms(2) wire_request_mono [OF ids] by (auto elim: list_all2_mono)
  moreover have "phase_req (bs_phase b' j) = Some req \<Longrightarrow> wire_request inp b' j req" for j req
    using ok assms(3,5) wire_request_mono [OF ids] unfolding wire_ok_def by (cases "j = i") auto
  ultimately show ?thesis
    using ws(1,3,4) assms(3,6,7) unfolding wire_ok_def by (intro conjI exI [of _ ws]) auto
qed

lemma wire_same:
  "wire_ok inp b \<Longrightarrow> bs_sent b' = bs_sent b \<Longrightarrow> bs_phase b' = bs_phase b \<Longrightarrow> bs_ids b' = bs_ids b \<Longrightarrow> wire_ok inp b'"
  unfolding wire_ok_def wire_request_def by simp

lemma wire_step:
  assumes "cbm_step inp b b'" and ids: "ids_ok b" and ok: "wire_ok inp b"
  shows "wire_ok inp b'"
  using assms(1)
proof cases
  case (no_rewrite i cid line)
  then show ?thesis
    using ids_okD(6) [OF ids no_rewrite(3)]
    by (intro wire_stay [OF ok, of _ i "ClClosed (ErrorAnswer (error_to_conn cid (-32603) ''internal error''))"]) auto
next
  case (numbered i cid line req)
  then show ?thesis
    using ids_okD(6) [OF ids numbered(3)] with_id_rewritten(1)
    by (intro wire_stay [OF ok, of _ i "ClNumbered cid (bs_next b + 1) req"]) (auto simp: wire_request_def)
next
  case (registered i cid n req b1)
  then have "wire_request inp b i req" using ok unfolding wire_ok_def by simp
  then show ?thesis
    using registered
    by (intro wire_stay [OF ok, of _ i "ClRegistered cid n req"])
      (auto simp: register_pending_def wire_request_def split: if_splits)
next
  case (written i cid n req)
  obtain ws where ws: "distinct ws" "list_all2 (wire_request inp b) ws (bs_sent b)"
      "\<forall>i\<in>set ws. may_have_written (bs_phase b i)" "\<forall>i. has_written (bs_phase b i) \<longrightarrow> i \<in> set ws"
    using ok unfolding wire_ok_def by blast
  have req: "wire_request inp b i req" using ok written unfolding wire_ok_def by simp
  have new: "i \<notin> set ws" using ws(3) written by force
  have same: "wire_request inp b' = wire_request inp b" using written by (auto simp: wire_request_def fun_eq_iff)
  have "distinct (ws @ [i]) \<and> list_all2 (wire_request inp b') (ws @ [i]) (bs_sent b') \<and>
      (\<forall>i\<in>set (ws @ [i]). may_have_written (bs_phase b' i)) \<and> (\<forall>j. has_written (bs_phase b' j) \<longrightarrow> j \<in> set (ws @ [i]))"
    using ws new req same written by (auto intro!: list_all2_appendI)
  moreover have "phase_req (bs_phase b' j) = Some r \<Longrightarrow> wire_request inp b' j r" for j r
    using ok same written unfolding wire_ok_def by (cases "j = i") auto
  ultimately show ?thesis unfolding wire_ok_def by blast
next
  case (received i cid n line)
  then show ?thesis
    by (intro wire_stay [OF ok, of _ i "ClClosed (Forwarded line (forward line cid))"]) auto
next
  case (gave_up i cid n msg)
  then show ?thesis
    by (intro wire_stay [OF ok, of _ i "ClClosed (ErrorAnswer (error_to_conn cid (-32603) msg))"]) (auto simp: remove_pending_def)
next
  case (panic i cid line)
  then show ?thesis by (intro wire_same [OF ok]) auto
next
  case (reader_took line n i b1)
  then show ?thesis by (intro wire_same [OF ok]) (auto simp: broker_op_defs)
next
  case (reader_sent i line)
  then show ?thesis by (intro wire_same [OF ok]) (auto simp: broker_op_defs)
next
  case reader_ended
  then show ?thesis by (intro wire_same [OF ok]) (auto simp: broker_op_defs)
next
  case (write_failed i cid n req)
  then show ?thesis
    by (intro wire_stay [OF ok, of _ i "ClGivingUp cid n ''cbm: write to MCP child failed''"]) auto
qed (use ok in \<open>auto intro!: wire_stay [OF ok]\<close>)

lemma wire_reachable: "cbm_runs inp b \<Longrightarrow> wire_ok inp b"
proof (induction rule: rtranclp_induct)
  case base
  show ?case by (auto simp: wire_ok_def started_broker_def intro: exI [of _ "[]"])
next
  case (step b b')
  then show ?case using cbm_reachable wire_step by blast
qed

lemma sent_has_client:
  "list_all2 P ws reqs \<Longrightarrow> i \<in> set ws \<Longrightarrow> \<exists>req\<in>set reqs. P i req"
  by (induction rule: list_all2_induct) auto

text \<open>
  Client \<open>i\<close> was answered with a line of the child only if the child got the request of this client
  under an internal id that no other client and not the handshake has, the line is for this id, and
  what was written to the client is this line with the id that the client itself had sent.
\<close>

definition own_answer :: "(nat \<Rightarrow> string) \<Rightarrow> cbm_state \<Rightarrow> nat \<Rightarrow> nat \<Rightarrow> bool" where
  "own_answer inp b i j \<longleftrightarrow>
     (case bs_phase b i of
        ClClosed (Forwarded answer out) \<Rightarrow>
          (case (bs_ids b i, readJSONLine (inp i)) of
             (Some n, Some request) \<Rightarrow>
               2 \<le> n \<and> (j = i \<or> bs_ids b j \<noteq> Some n) \<and> (\<exists>sent\<in>set (bs_sent b). with_id request (itoa n) sent) \<and>
               carries answer n \<and>
               (case client_request_id request of Some c \<Rightarrow> with_id answer c out | None \<Rightarrow> False)
           | _ \<Rightarrow> False)
      | _ \<Rightarrow> True)"

lemma reachable_own_answer:
  assumes "cbm_runs inp b"
  shows "own_answer inp b i j"
proof -
  note ok = cbm_reachable [OF assms, THEN conjunct1] cbm_reachable [OF assms, THEN conjunct2, THEN conjunct2]
  have "own_answer inp b i j" if closed: "bs_phase b i = ClClosed (Forwarded answer out)" for answer out
  proof -
    obtain c where c: "line_for b i answer" "own_id inp i = Some c" "out = forward answer c"
      using ok(2) closed unfolding answers_ok_def by blast
    then obtain n where n: "bs_ids b i = Some n" "carries answer n" by (auto simp: line_for_def split: option.splits)
    obtain request where r: "readJSONLine (inp i) = Some request" "client_request_id request = Some c"
      using c(2) by (auto simp: own_id_def split: option.splits)
    obtain ws where ws: "list_all2 (wire_request inp b) ws (bs_sent b)" "\<forall>i. has_written (bs_phase b i) \<longrightarrow> i \<in> set ws"
      using wire_reachable [OF assms] unfolding wire_ok_def by blast
    have "i \<in> set ws" using ws(2) closed by simp
    from sent_has_client [OF ws(1) this] obtain sent where
      sent: "sent \<in> set (bs_sent b)" "with_id request (itoa n) sent"
      using n(1) r(1) by (auto simp: wire_request_def)
    have "2 \<le> n" "j = i \<or> bs_ids b j \<noteq> Some n" using ids_okD(2,4) [OF ok(1) n(1)] by auto
    then show ?thesis
      using closed n r(1) sent unfolding own_answer_def
      by (simp add: r(2) c(3) with_id_forward [OF n(2)]) blast
  qed
  then show ?thesis by (auto simp: own_answer_def split: client_phase.split cbm_answer.split)
qed

text \<open>Nothing stays in the table for a client that has its answer.\<close>

definition table_clean :: "cbm_state \<Rightarrow> int \<Rightarrow> bool" where
  "table_clean b n \<longleftrightarrow>
     (case bs_pending b n of
        None \<Rightarrow> True
      | Some i \<Rightarrow> (case bs_phase b i of ClClosed _ \<Rightarrow> False | _ \<Rightarrow> True) \<and> \<not> bs_dead b)"

lemma dead_table: "cbm_runs inp b \<Longrightarrow> bs_dead b \<Longrightarrow> bs_pending b n = None"
proof (induction rule: rtranclp_induct)
  case base
  then show ?case by (simp add: started_broker_def)
next
  case (step b b')
  from step(2) step.prems step.IH show ?case
    by cases (auto simp: broker_op_defs split: if_splits)
qed

lemma reachable_table_clean:
  assumes "cbm_runs inp b"
  shows "table_clean b n"
proof (cases "bs_pending b n")
  case (Some i)
  have "lines_ok b" using cbm_reachable [OF assms] by blast
  from lines_okD(2) [OF this Some] show ?thesis
    using Some dead_table [OF assms, of n] by (auto simp: table_clean_def split: client_phase.split)
qed (simp add: table_clean_def)

section \<open>Runs\<close>

lemma cbm_then: "cbm_step inp b b1 \<Longrightarrow> (cbm_step inp)\<^sup>*\<^sup>* b1 b2 \<Longrightarrow> (cbm_step inp)\<^sup>*\<^sup>* b b2"
  by (rule converse_rtranclp_into_rtranclp)

text \<open>Two clients: a request that the child answers, and the text \<open>null\<close>.\<close>

definition sample_request :: json where
  "sample_request = JObj [(''id'', JStr ''a''), (''method'', JStr ''tools/list'')]"

definition sample_response :: string where
  "sample_response = json_text (JObj [(''id'', jint 2), (''result'', JObj [])])"

definition sample_input :: "nat \<Rightarrow> string" where
  "sample_input i = (if i = 0 then json_text sample_request else ''null'') @ [newline]"

lemma unmarshal_line:
  assumes "wf_json v"
  shows "unmarshal (json_text v @ [newline]) = Some v"
proof -
  have "parse_value (2 * length (json_text v @ [newline]) + 2) (json_text v @ [newline]) = Some (v, [newline])"
    by (rule parse_wf_text [OF assms]) (simp_all add: ends_value_def)
  then show ?thesis by (simp add: unmarshal_def skip_ws_def is_json_ws_def newline_def del: parse_value.simps)
qed

lemma read_line: "newline \<notin> set s \<Longrightarrow> readJSONLine (s @ [newline]) = Some (s @ [newline])"
  by (induction s) (auto simp: readJSONLine_def)

lemma sample_lines:
  "readJSONLine (sample_input 0) = Some (json_text sample_request @ [newline])"
  "readJSONLine (sample_input 1) = Some (''null'' @ [newline])"
  unfolding sample_input_def
  by (simp_all add: sample_request_def quote_string_def escape_char_def newline_def readJSONLine_def)

lemma sample_unmarshal:
  "unmarshal (json_text sample_request @ [newline]) = Some sample_request"
  "unmarshal (''null'' @ [newline]) = Some JNull"
  using unmarshal_line [of sample_request] unmarshal_line [of JNull] by (simp_all add: sample_request_def)

lemma atoi_two: "atoi (itoa 2) = Some 2"
  by (rule atoi_itoa) (simp_all add: max_int64_def)

lemma sample_response_id: "response_id sample_response = Some 2"
  unfolding response_id_def sample_response_def
  by (subst unmarshal_into_text) (simp_all add: json_dec_defs to_lower_def to_lower_char_def jint_def number_ok_itoa atoi_two)

lemma sample_id: "client_request_id (json_text sample_request @ [newline]) = Some (json_text (JStr ''a''))"
proof -
  have "raw_field ''id'' (json_text sample_request @ [newline]) = json_text (JStr ''a'')"
    unfolding sample_request_def
    by (subst go.field_written) (simp_all add: key_matches_def to_lower_def to_lower_char_def)
  then show ?thesis
    unfolding client_request_id_def sample_unmarshal by (simp add: sample_request_def)
qed

text \<open>The request gets its answer, whatever else the broker is doing.\<close>

lemma answered_run:
  "\<exists>b. cbm_runs sample_input b \<and>
     bs_phase b 0 = ClClosed (Forwarded sample_response (forward sample_response (json_text (JStr ''a''))))"
proof -
  let ?line = "json_text sample_request @ [newline]" and ?cid = "json_text (JStr ''a'')" and ?step = "cbm_step sample_input"
  obtain req where req: "rewrite_request_id ?line 2 = Returns req"
    unfolding rewrite_request_id_def sample_unmarshal by (simp add: sample_request_def)
  define b1 where "b1 = set_phase 0 (ClParsed ?cid) started_broker"
  define b2 where "b2 = set_phase 0 (ClNumbered ?cid 2 req) (b1\<lparr>bs_next := 2, bs_ids := (bs_ids b1)(0 \<mapsto> 2)\<rparr>)"
  define b3 where "b3 = set_phase 0 (ClRegistered ?cid 2 req) (b2\<lparr>bs_pending := (bs_pending b2)(2 \<mapsto> 0)\<rparr>)"
  define b4 where "b4 = set_phase 0 (ClWaiting ?cid 2) (b3\<lparr>bs_sent := bs_sent b3 @ [req]\<rparr>)"
  define b5 where "b5 = (remove_pending 2 b4)\<lparr>bs_reader := Some (0, sample_response)\<rparr>"
  define b6 where "b6 = (put_line 0 sample_response b5)\<lparr>bs_reader := None\<rparr>"
  define b7 where "b7 = set_phase 0 (ClClosed (Forwarded sample_response (forward sample_response ?cid)))
      (b6\<lparr>bs_chan := (bs_chan b6)(0 := None)\<rparr>)"
  note bs = b1_def b2_def b3_def b4_def b5_def b6_def b7_def started_broker_def broker_op_defs
  have "?step started_broker b1"
    unfolding b1_def by (rule parsed [where inp = sample_input and i = 0, OF _ _ sample_lines(1) sample_id]) (simp_all add: started_broker_def)
  moreover have "?step b1 b2"
    using numbered [of b1 0 ?cid sample_input ?line req] req sample_lines(1) by (simp add: bs)
  moreover have "?step b2 b3"
    using registered [of b2 0 ?cid 2 req "b2\<lparr>bs_pending := (bs_pending b2)(2 \<mapsto> 0)\<rparr>"] by (simp add: bs)
  moreover have "?step b3 b4"
    unfolding b4_def by (rule written) (simp_all add: bs)
  moreover have "?step b4 b5"
    unfolding b5_def by (rule reader_took [OF _ _ _ sample_response_id]) (simp_all add: bs)
  moreover have "?step b5 b6"
    unfolding b6_def by (rule reader_sent) (simp_all add: bs)
  moreover have "?step b6 b7"
    unfolding b7_def by (rule received) (simp_all add: bs)
  ultimately have "cbm_runs sample_input b7"
    by (meson cbm_then rtranclp.rtrancl_refl)
  moreover have "bs_phase b7 0 = ClClosed (Forwarded sample_response (forward sample_response ?cid))"
    by (simp add: b7_def)
  ultimately show ?thesis by blast
qed

text \<open>The texts of the sample: the id that the client sent is back in what it gets.\<close>

context json_writer begin

lemma object_written:
  assumes "numbers_ok (JObj kvs)" "kvs \<noteq> []"
  shows "raw_object (printed (JObj kvs) @ rest) = last_values (map (\<lambda>kv. (to_valid (fst kv), printed (snd kv))) kvs)"
proof -
  let ?t = "join_with '','' (map (member_with quote printed) kvs) @ CHR 0x7D # rest"
  have shape: "printed (JObj kvs) @ rest = CHR 0x7B # ?t"
    by (simp add: printed_object)
  have "length kvs \<le> length (join_with '','' (map (member_with quote printed) kvs))"
  proof (induction kvs)
    case (Cons kv kvs)
    then show ?case by (cases kvs) (auto simp: member_with_def)
  qed simp
  then have "raw_members (length ?t) ?t = map (\<lambda>kv. (to_valid (fst kv), printed (snd kv))) kvs"
    using assms by (intro members_written) (auto simp: list_all_iff)
  then show ?thesis
    unfolding raw_object_def shape by (simp add: skip_ws_punct)
qed

end

lemma sample_object: "raw_object sample_response = [(''id'', itoa 2), (''result'', ''{}'')]"
proof -
  have "numbers_ok (JObj [(''id'', jint 2), (''result'', JObj [])])" by (simp add: jint_def number_ok_itoa)
  from go.object_written [OF this, of "[]"] show ?thesis
    by (simp add: sample_response_def last_values_def jint_def del: json_text.simps(6)) simp
qed

lemma sample_forward:
  "unmarshal (forward sample_response (json_text (JStr ''a''))) = Some (JObj [(''id'', JStr ''a''), (''result'', JObj [])])"
proof -
  let ?v = "JObj [(''id'', JStr ''a''), (''result'', JObj [])]"
  have "unmarshal sample_response = Some (JObj [(''id'', jint 2), (''result'', JObj [])])"
    unfolding sample_response_def by (rule unmarshal_json_text) (simp add: jint_def number_ok_itoa)
  moreover have "raw_object_text (set_member ''id'' (json_text (JStr ''a'')) (raw_object sample_response)) = json_text ?v"
    by (simp add: sample_object set_member_def raw_object_text_def raw_text_def sort_strings_def quote_string_def
        html_escape_def escape_char_def is_json_ws_def)
  ultimately have "forward sample_response (json_text (JStr ''a'')) = json_text ?v @ [newline]"
    by (simp add: forward_def rewrite_response_id_def del: json_text.simps)
  then show ?thesis using unmarshal_line [of ?v] by (simp del: json_text.simps)
qed

text \<open>
  C24: However many clients share the child process and in whatever order their requests, the child's
  lines, timeouts and the end of the child interleave: a client that is answered with a line of
  the child had its request written to the child under an internal id of its own, which no other
  client and not the handshake has, the line is for this id, and what the client gets is the line
  with the id that it had sent itself.
\<close>

theorem answers_reach_their_client:
  assumes "cbm_runs inp b"
  shows "own_answer inp b i j"
  by (rule reachable_own_answer [OF assms])

theorem answers_reach_their_client_witness:
  "\<exists>b out. cbm_runs sample_input b \<and> bs_phase b 0 = ClClosed (Forwarded sample_response out) \<and> own_answer sample_input b 0 1 \<and>
     unmarshal out = Some (JObj [(''id'', JStr ''a''), (''result'', JObj [])])"
  using answered_run answers_reach_their_client sample_forward by blast

text \<open>
  The table of pending requests does not grow with the requests that were served: an entry
  belongs to a client that is still waiting, and after the end of the child there is none.
\<close>

theorem table_holds_waiting_only:
  assumes "cbm_runs inp b"
  shows "table_clean b n"
  by (rule reachable_table_clean [OF assms])

theorem table_holds_waiting_only_witness:
  "\<exists>b out. cbm_runs sample_input b \<and> bs_phase b 0 = ClClosed (Forwarded sample_response out) \<and> table_clean b 2"
  using answered_run table_holds_waiting_only by blast

text \<open>
  A client that sends the line \<open>null\<close> ends the process: it passes as a request without an id, and the
  rewriting of its id assigns to a nil map, which panics in a goroutine that nothing recovers.
\<close>

theorem null_request_panics: "\<exists>b. cbm_runs sample_input b \<and> bs_crashed b"
proof -
  let ?line = "''null'' @ [newline]"
  have cid: "client_request_id ?line = Some []" and req: "rewrite_request_id ?line n = Panics" for n
    unfolding client_request_id_def rewrite_request_id_def sample_unmarshal by simp_all
  define b1 where "b1 = set_phase 1 (ClParsed []) started_broker"
  have "cbm_step sample_input started_broker b1"
    unfolding b1_def by (rule parsed [where inp = sample_input and i = 1, OF _ _ sample_lines(2) cid]) (simp_all add: started_broker_def)
  moreover have "cbm_step sample_input b1 (b1\<lparr>bs_next := bs_next b1 + 1, bs_crashed := True\<rparr>)"
    by (rule panic [where inp = sample_input and i = 1, OF _ _ sample_lines(2) req]) (simp_all add: b1_def started_broker_def)
  ultimately have "cbm_runs sample_input (b1\<lparr>bs_next := bs_next b1 + 1, bs_crashed := True\<rparr>)"
    by (meson cbm_then rtranclp.rtrancl_refl)
  then show ?thesis by force
qed

end
