(* ===== verification/Health.thy ===== *)
theory Health
  imports Log_Text Agent "HOL-Library.Monad_Syntax"
begin

text \<open>
  Telemetry of a run (\<open>internal/telemetry\<close>) and the health of runs (\<open>internal/health\<close>): the records of
  spans that a run appends to its telemetry file, their text, and the verdict that \<open>golemic status\<close>
  gives on a run from its event log, its telemetry and a probe of its process. What the file
  system, the probe and the clock say is the record \<open>health_os\<close>; \<open>int(strconv.ParseFloat(t))\<close> is
  \<open>ho_float\<close>, \<open>None\<close> when the number is out of range.
\<close>

section \<open>Time\<close>

text \<open>
  Instants and durations are in nanoseconds. \<open>time.Parse\<close> with the layout RFC 3339 takes one digit
  for the hour and a fraction of a second after a dot or a comma besides.
\<close>

definition zero_time :: int where
  "zero_time = -62135596800 * 1000000000"

definition clamp64 :: "int \<Rightarrow> int" where
  "clamp64 i = max (- max_int64 - 1) (min max_int64 i)"

definition wrap64 :: "int \<Rightarrow> int" where
  "wrap64 i = (i + max_int64 + 1) mod (2 * (max_int64 + 1)) - max_int64 - 1"

text \<open>\<open>Time.Sub\<close>: the difference, or the nearest duration there is.\<close>

definition time_sub :: "int \<Rightarrow> int \<Rightarrow> int" where
  "time_sub t u = clamp64 (t - u)"

definition leap_year :: "int \<Rightarrow> bool" where
  "leap_year y \<longleftrightarrow> y mod 4 = 0 \<and> (y mod 100 \<noteq> 0 \<or> y mod 400 = 0)"

definition days_in :: "int \<Rightarrow> int \<Rightarrow> int" where
  "days_in m y = (if m = 2 then (if leap_year y then 29 else 28) else if m \<in> {4, 6, 9, 11} then 30 else 31)"

text \<open>Days from 1970-01-01 to a date, years counted from March.\<close>

definition days_from_epoch :: "int \<Rightarrow> int \<Rightarrow> int \<Rightarrow> int" where
  "days_from_epoch y m d =
     (let y' = (if m \<le> 2 then y - 1 else y); m' = (if m \<le> 2 then m + 9 else m - 3)
      in 365 * y' + y' div 4 - y' div 100 + y' div 400 + (153 * m' + 2) div 5 + d - 1 - 719468)"

definition digits_num :: "string \<Rightarrow> int option" where
  "digits_num s = (if s \<noteq> [] \<and> list_all is_digit s then atoi s else None)"

definition take_num :: "nat \<Rightarrow> string \<Rightarrow> (int \<times> string) option" where
  "take_num n s =
     (if length (take n s) < n then None
      else map_option (\<lambda>v. (v, drop n s)) (digits_num (take n s)))"

definition take_char :: "char \<Rightarrow> string \<Rightarrow> string option" where
  "take_char c s = (case s of [] \<Rightarrow> None | d # ds \<Rightarrow> if d = c then Some ds else None)"

definition take_hour :: "string \<Rightarrow> (int \<times> string) option" where
  "take_hour s =
     (if 2 \<le> length s \<and> is_digit (s ! 1) then take_num 2 s else take_num 1 s)"

definition take_fraction :: "string \<Rightarrow> int \<times> string" where
  "take_fraction s =
     (if 2 \<le> length s \<and> hd s \<in> {CHR ''.'', CHR '',''} \<and> is_digit (s ! 1)
      then (let ds = takeWhile is_digit (tl s)
            in (the (digits_num (take 9 (ds @ ''00000000''))), drop (Suc (length ds)) s))
      else (0, s))"

definition take_zone :: "string \<Rightarrow> (int \<times> string) option" where
  "take_zone s =
     (case s of [] \<Rightarrow> None
      | c # cs \<Rightarrow>
          if c = CHR ''Z'' then Some (0, cs)
          else do {
            (h, s1) \<leftarrow> take_num 2 cs;
            s2 \<leftarrow> take_char (CHR '':'') s1;
            (m, s3) \<leftarrow> take_num 2 s2;
            (if h \<le> 24 \<and> m \<le> 60 \<and> c \<in> {CHR ''+'', CHR ''-''}
             then Some ((if c = CHR ''-'' then - 1 else 1) * (h * 60 + m) * 60, s3) else None)
          })"

definition parse_rfc3339 :: "string \<Rightarrow> int option" where
  "parse_rfc3339 s =
     do {
       (y, s) \<leftarrow> take_num 4 s;
       s \<leftarrow> take_char (CHR ''-'') s;
       (mo, s) \<leftarrow> take_num 2 s;
       s \<leftarrow> take_char (CHR ''-'') s;
       (d, s) \<leftarrow> take_num 2 s;
       s \<leftarrow> take_char (CHR ''T'') s;
       (h, s) \<leftarrow> take_hour s;
       s \<leftarrow> take_char (CHR '':'') s;
       (mi, s) \<leftarrow> take_num 2 s;
       s \<leftarrow> take_char (CHR '':'') s;
       (sec, s) \<leftarrow> take_num 2 s;
       let (ns, s) = take_fraction s;
       (zone, s) \<leftarrow> take_zone s;
       (if s = [] \<and> 1 \<le> mo \<and> mo \<le> 12 \<and> 1 \<le> d \<and> d \<le> days_in mo y \<and> h < 24 \<and> mi < 60 \<and> sec < 60
       then Some ((days_from_epoch y mo d * 86400 + h * 3600 + mi * 60 + sec - zone) * 1000000000 + ns)
        else None)
     }"

lemmas rfc3339_defs =
  parse_rfc3339_def take_num_def take_char_def take_hour_def take_fraction_def take_zone_def digits_num_def is_digit_def
  digit_val_def atoi_def days_from_epoch_def days_in_def leap_year_def Let_def max_int64_def

lemma rfc3339_examples:
  "parse_rfc3339 ''1970-01-01T00:00:00Z'' = Some 0"
  "parse_rfc3339 ''0001-01-01T00:00:00Z'' = Some zero_time"
  "parse_rfc3339 ''2024-02-29T12:00:00.5+01:00'' = Some (1709204400 * 1000000000 + 500000000)"
  "parse_rfc3339 ''2023-02-29T12:00:00Z'' = None"
  by (simp_all add: rfc3339_defs zero_time_def)

text \<open>
  \<open>Duration.Round(time.Second)\<close> and the texts of \<open>fmtDuration\<close>; the largest duration stays what it
  is when rounding up would overflow.
\<close>

definition round_second :: "int \<Rightarrow> int" where
  "round_second d =
     (let r = d mod 1000000000 in
      if r + r < 1000000000 then d - r
      else if d + 1000000000 - r \<le> max_int64 then d + 1000000000 - r else max_int64)"

definition fmt_duration :: "int \<Rightarrow> string" where
  "fmt_duration d0 =
     (let d = round_second (max 0 d0); s = d div 1000000000; h = s div 3600; m = s div 60 mod 60
      in if d < 60 * 1000000000 then itoa s @ ''s''
         else if d < 3600 * 1000000000 then itoa (s div 60) @ ''m''
         else if m = 0 then itoa h @ ''h''
         else itoa h @ ''h'' @ itoa m @ ''m'')"

section \<open>Telemetry\<close>

record tele_record =
  tr_kind :: string
  tr_trace :: string
  tr_span :: string
  tr_parent :: string
  tr_name :: string
  tr_start :: string
  tr_end :: string
  tr_duration :: "int option"
  tr_status :: string
  tr_attrs :: "(string \<times> json) list"

abbreviation KindSpanStart :: string where "KindSpanStart \<equiv> ''span.start''"
abbreviation KindSpanEnd :: string where "KindSpanEnd \<equiv> ''span.end''"
abbreviation SpanRun :: string where "SpanRun \<equiv> ''run''"

text \<open>\<open>json.Marshal\<close> of a record: empty fields but the first three are left out, maps by key.\<close>

definition attrs_json :: "(string \<times> json) list \<Rightarrow> json" where
  "attrs_json kvs = JObj (map (\<lambda>k. (k, the (map_of kvs k))) (sort_strings (map fst kvs)))"

definition omit_str :: "string \<Rightarrow> string \<Rightarrow> (string \<times> json) list" where
  "omit_str k v = (if v = [] then [] else [(k, JStr v)])"

definition record_json :: "tele_record \<Rightarrow> json" where
  "record_json r =
     JObj ([(''kind'', JStr (tr_kind r)), (''trace_id'', JStr (tr_trace r)), (''span_id'', JStr (tr_span r))] @
       omit_str ''parent_span_id'' (tr_parent r) @ omit_str ''name'' (tr_name r) @ omit_str ''start_ts'' (tr_start r) @
       omit_str ''end_ts'' (tr_end r) @
       (case tr_duration r of None \<Rightarrow> [] | Some ms \<Rightarrow> [(''duration_ms'', jint ms)]) @
       omit_str ''status'' (tr_status r) @
       (if tr_attrs r = [] then [] else [(''attributes'', attrs_json (tr_attrs r))]))"

text \<open>
  \<open>FileSink\<close>: whether the file is open, and its text; \<open>fs_ok\<close> says of creating the directory, opening
  and writing whether each succeeds.
\<close>

record file_sink =
  fs_open :: bool
  fs_text :: string

definition sink_emit :: "bool \<times> bool \<times> bool \<Rightarrow> tele_record \<Rightarrow> file_sink \<Rightarrow> gerr option \<times> file_sink" where
  "sink_emit fs_ok r sk =
     (case fs_ok of (mkdir_ok, open_ok, write_ok) \<Rightarrow>
        if \<not> fs_open sk \<and> \<not> mkdir_ok then (Some (msg_err ''TELEMETRY_WRITE_FAILED: mkdir''), sk)
        else if \<not> fs_open sk \<and> \<not> open_ok then (Some (msg_err ''TELEMETRY_WRITE_FAILED: open''), sk)
        else if \<not> write_ok then (Some (msg_err ''TELEMETRY_WRITE_FAILED: write''), sk\<lparr>fs_open := True\<rparr>)
        else (None, \<lparr>fs_open = True, fs_text = fs_text sk @ json_text (record_json r) @ [newline]\<rparr>))"

text \<open>The record of the start of a span, and of its end.\<close>

definition span_start :: "string \<Rightarrow> string \<Rightarrow> string \<Rightarrow> (string \<times> json) list \<Rightarrow> string \<Rightarrow> string \<Rightarrow> tele_record" where
  "span_start trace parent name attrs span ts =
     \<lparr>tr_kind = KindSpanStart, tr_trace = trace, tr_span = span, tr_parent = parent, tr_name = name, tr_start = ts,
      tr_end = [], tr_duration = None, tr_status = [], tr_attrs = attrs\<rparr>"

definition span_end :: "string \<Rightarrow> string \<Rightarrow> string \<Rightarrow> (string \<times> json) list \<Rightarrow> string \<Rightarrow> int \<Rightarrow> tele_record" where
  "span_end trace span status attrs ts ms =
     \<lparr>tr_kind = KindSpanEnd, tr_trace = trace, tr_span = span, tr_parent = [], tr_name = [], tr_start = [],
      tr_end = ts, tr_duration = Some ms, tr_status = status, tr_attrs = attrs\<rparr>"

section \<open>Reading telemetry\<close>

datatype signal_end = NoProcess | SignalOk | SignalESRCH | SignalEPERM | SignalError

datatype dir_read = DirMissing | DirFailed string | DirEntries "(string \<times> bool) list"

datatype stat_end = StatOk | StatMissing | StatFailed string

record health_os =
  ho_float :: "string \<Rightarrow> int option"
  ho_file :: "string \<Rightarrow> string option"
  ho_dir :: "string \<Rightarrow> dir_read"
  ho_stat :: "string \<Rightarrow> stat_end"
  ho_signal :: "int \<Rightarrow> signal_end"
  ho_now :: int

text \<open>A value decodes into \<open>any\<close> when all its numbers are in range.\<close>

fun any_ok :: "(string \<Rightarrow> int option) \<Rightarrow> json \<Rightarrow> bool" where
  "any_ok F (JNum t) \<longleftrightarrow> F t \<noteq> None"
| "any_ok F (JArr xs) \<longleftrightarrow> list_all (any_ok F) xs"
| "any_ok F (JObj kvs) \<longleftrightarrow> list_all (\<lambda>kv. any_ok F (snd kv)) kvs"
| "any_ok F _ \<longleftrightarrow> True"

definition dec_attrs :: "(string \<Rightarrow> int option) \<Rightarrow> (string \<times> json) list \<Rightarrow> json \<Rightarrow> (string \<times> json) list option" where
  "dec_attrs F cur j =
     (case j of
        JNull \<Rightarrow> Some []
      | JObj kvs \<Rightarrow> if any_ok F j then Some (cur @ kvs) else None
      | _ \<Rightarrow> None)"

definition dec_record :: "(string \<Rightarrow> int option) \<Rightarrow> json \<Rightarrow> tele_record option" where
  "dec_record F j =
     (case (get_str ''kind'' j, get_str ''trace_id'' j, get_str ''span_id'' j, get_str ''parent_span_id'' j,
            get_str ''name'' j, get_str ''start_ts'' j, get_str ''end_ts'' j, get_int_ptr ''duration_ms'' j,
            get_str ''status'' j, get_field (dec_attrs F) [] ''attributes'' j) of
        (Some k, Some t, Some sp, Some p, Some n, Some st, Some e, Some d, Some stat, Some a) \<Rightarrow>
          Some \<lparr>tr_kind = k, tr_trace = t, tr_span = sp, tr_parent = p, tr_name = n, tr_start = st, tr_end = e,
                tr_duration = d, tr_status = stat, tr_attrs = a\<rparr>
      | _ \<Rightarrow> None)"

definition parse_telemetry_records :: "(string \<Rightarrow> int option) \<Rightarrow> string \<Rightarrow> tele_record list option" where
  "parse_telemetry_records F content =
     (case scan_lines content of
        Inl _ \<Rightarrow> None
      | Inr ls \<Rightarrow>
          (case concat (map (\<lambda>l. let t = trim_space l in
                if t = [] then [] else (case unmarshal_into (dec_record F) t of None \<Rightarrow> [] | Some r \<Rightarrow> [r])) ls) of
             [] \<Rightarrow> None
           | rs \<Rightarrow> Some rs))"

record telemetry_data =
  td_pid :: "int option"
  td_start :: int
  td_duration :: "int option"
  td_open :: "(string \<times> int) list"

definition end_of :: "tele_record list \<Rightarrow> string \<Rightarrow> tele_record option" where
  "end_of rs span = find_last (\<lambda>r. tr_kind r = KindSpanEnd \<and> tr_span r = span) rs"

definition extract_pid :: "(string \<Rightarrow> int option) \<Rightarrow> json \<Rightarrow> int option" where
  "extract_pid F v = (case v of JNum t \<Rightarrow> F t | _ \<Rightarrow> None)"

definition apply_run_span :: "(string \<Rightarrow> int option) \<Rightarrow> tele_record list \<Rightarrow> tele_record \<Rightarrow> telemetry_data \<Rightarrow> telemetry_data" where
  "apply_run_span F rs r td =
     (let td1 = (case parse_rfc3339 (tr_start r) of Some t \<Rightarrow> td\<lparr>td_start := t\<rparr> | None \<Rightarrow> td);
          td2 = (case map_of (rev (tr_attrs r)) ''pid'' of Some v \<Rightarrow> td1\<lparr>td_pid := extract_pid F v\<rparr> | None \<Rightarrow> td1)
      in case end_of rs (tr_span r) of Some e \<Rightarrow> td2\<lparr>td_duration := tr_duration e\<rparr> | None \<Rightarrow> td2)"

definition telemetry_step :: "(string \<Rightarrow> int option) \<Rightarrow> tele_record list \<Rightarrow> telemetry_data \<Rightarrow> tele_record \<Rightarrow> telemetry_data" where
  "telemetry_step F rs td r =
     (if tr_kind r \<noteq> KindSpanStart then td
      else if tr_name r = SpanRun then apply_run_span F rs r td
      else if end_of rs (tr_span r) = None
      then (case parse_rfc3339 (tr_start r) of
              Some t \<Rightarrow> td\<lparr>td_open := td_open td @ [(tr_name r, t)]\<rparr> | None \<Rightarrow> td)
      else td)"

definition empty_telemetry :: telemetry_data where
  "empty_telemetry = \<lparr>td_pid = None, td_start = zero_time, td_duration = None, td_open = []\<rparr>"

definition read_telemetry :: "health_os \<Rightarrow> string \<Rightarrow> telemetry_data option" where
  "read_telemetry H path =
     (case ho_file H path of
        None \<Rightarrow> None
      | Some content \<Rightarrow>
          map_option (\<lambda>rs. fold (\<lambda>r td. telemetry_step (ho_float H) rs td r) rs empty_telemetry)
            (parse_telemetry_records (ho_float H) content))"

section \<open>Reading events\<close>

record events_data =
  ed_issue :: int
  ed_outcome :: string
  ed_start :: int

definition no_events :: events_data where
  "no_events = \<lparr>ed_issue = 0, ed_outcome = [], ed_start = zero_time\<rparr>"

definition payload_into :: "(json \<Rightarrow> 'a option) \<Rightarrow> event \<Rightarrow> 'a option" where
  "payload_into d e = (case ev_payload e of None \<Rightarrow> None | Some j \<Rightarrow> d j)"

definition events_step :: "event \<Rightarrow> events_data \<Rightarrow> events_data" where
  "events_step e ed =
     (if ev_type e = EventRunStarted
      then (let ed1 = (case payload_into (get_int ''issue'') e of Some n \<Rightarrow> ed\<lparr>ed_issue := n\<rparr> | None \<Rightarrow> ed)
            in case parse_rfc3339 (ev_ts e) of Some t \<Rightarrow> ed1\<lparr>ed_start := t\<rparr> | None \<Rightarrow> ed1)
      else if ev_type e = EventRunFinished
      then (case payload_into (get_str ''outcome'') e of
              Some out \<Rightarrow> if out \<noteq> [] then ed\<lparr>ed_outcome := out\<rparr> else ed | None \<Rightarrow> ed)
      else ed)"

definition read_run_events :: "health_os \<Rightarrow> string \<Rightarrow> events_data" where
  "read_run_events H path =
     (case read_log (ho_file H path) of Inl _ \<Rightarrow> no_events | Inr es \<Rightarrow> fold events_step es no_events)"

section \<open>The verdict\<close>

abbreviation StatusRunning :: string where "StatusRunning \<equiv> ''running''"
abbreviation StatusStalled :: string where "StatusStalled \<equiv> ''stalled''"
abbreviation StatusWedged :: string where "StatusWedged \<equiv> ''wedged''"
abbreviation StatusFinished :: string where "StatusFinished \<equiv> ''finished''"
abbreviation StatusFailed :: string where "StatusFailed \<equiv> ''failed''"
abbreviation StatusIndeterminate :: string where "StatusIndeterminate \<equiv> ''indeterminate''"
abbreviation LivenessAlive :: string where "LivenessAlive \<equiv> ''alive''"
abbreviation LivenessDead :: string where "LivenessDead \<equiv> ''dead''"
abbreviation LivenessIndeterminate :: string where "LivenessIndeterminate \<equiv> ''indeterminate''"

record run_health =
  rh_run_id :: string
  rh_issue :: int
  rh_status :: string
  rh_phase :: string
  rh_age :: string
  rh_outcome :: string
  rh_pid :: "int option"
  rh_liveness :: string

definition os_liveness_probe :: "health_os \<Rightarrow> int \<Rightarrow> string" where
  "os_liveness_probe H pid =
     (case ho_signal H pid of
        NoProcess \<Rightarrow> LivenessDead
      | SignalOk \<Rightarrow> LivenessAlive
      | SignalESRCH \<Rightarrow> LivenessDead
      | SignalEPERM \<Rightarrow> LivenessAlive
      | SignalError \<Rightarrow> LivenessIndeterminate)"

definition DefaultStalledAfter :: int where
  "DefaultStalledAfter = 30 * 60 * 1000000000"

definition stalled_threshold :: "int \<Rightarrow> int" where
  "stalled_threshold stalled_after = (if stalled_after > 0 then stalled_after else DefaultStalledAfter)"

definition compute_age :: "events_data \<Rightarrow> telemetry_data option \<Rightarrow> int \<Rightarrow> string" where
  "compute_age ed tel t_now =
     (let rest = (if ed_start ed \<noteq> zero_time then fmt_duration (time_sub t_now (ed_start ed)) else ''-'')
      in case tel of
           None \<Rightarrow> rest
         | Some td \<Rightarrow>
             if td_start td \<noteq> zero_time
             then (case td_duration td of
                     Some ms \<Rightarrow>
                       if ed_outcome ed \<noteq> [] then fmt_duration (wrap64 (ms * 1000000))
                       else fmt_duration (time_sub t_now (td_start td))
                   | None \<Rightarrow> fmt_duration (time_sub t_now (td_start td)))
             else rest)"

text \<open>The loop over the open spans: the last one, and the first one past the threshold.\<close>

definition span_step :: "int \<Rightarrow> int \<Rightarrow> string \<times> int \<Rightarrow> string \<times> string \<Rightarrow> string \<times> string" where
  "span_step threshold t_now span acc =
     (fst span, if time_sub t_now (snd span) > threshold \<and> snd acc = [] then fst span else snd acc)"

definition classify_alive ::
  "int \<Rightarrow> string \<Rightarrow> int \<Rightarrow> int option \<Rightarrow> string \<Rightarrow> (string \<times> int) list \<Rightarrow> int \<Rightarrow> run_health" where
  "classify_alive stalled_after run_id issue pid age spans t_now =
     (case fold (span_step (stalled_threshold stalled_after) t_now) spans (''-'', []) of
        (current, stalled) \<Rightarrow>
          \<lparr>rh_run_id = run_id, rh_issue = issue,
           rh_status = (if stalled \<noteq> [] then StatusStalled else StatusRunning),
           rh_phase = (if stalled \<noteq> [] then stalled else current),
           rh_age = age, rh_outcome = [], rh_pid = pid, rh_liveness = LivenessAlive\<rparr>)"

definition classify ::
  "health_os \<Rightarrow> int \<Rightarrow> string \<Rightarrow> int \<Rightarrow> events_data \<Rightarrow> telemetry_data option \<Rightarrow> run_health" where
  "classify H stalled_after run_id issue ed tel =
     (let t_now = ho_now H;
          age = compute_age ed tel t_now;
          pid = (case tel of None \<Rightarrow> None | Some td \<Rightarrow> td_pid td);
          base = \<lparr>rh_run_id = run_id, rh_issue = issue, rh_status = StatusRunning, rh_phase = ''-'', rh_age = age,
                  rh_outcome = [], rh_pid = pid, rh_liveness = LivenessIndeterminate\<rparr>
      in if ed_outcome ed \<noteq> []
         then base\<lparr>rh_status := (if ed_outcome ed = ''success'' then StatusFinished else StatusFailed), rh_phase := [],
                   rh_outcome := ed_outcome ed,
                   rh_liveness := (if pid \<noteq> None then LivenessDead else LivenessIndeterminate)\<rparr>
         else (case (tel, pid) of
             (Some td, Some p) \<Rightarrow>
               (let l = os_liveness_probe H p in
                if l = LivenessDead then base\<lparr>rh_status := StatusWedged, rh_liveness := LivenessDead\<rparr>
                else if l = LivenessAlive then classify_alive stalled_after run_id issue pid age (td_open td) t_now
                else base\<lparr>rh_status := StatusIndeterminate\<rparr>)
           | _ \<Rightarrow> base\<lparr>rh_pid := None\<rparr>))"

fun split_n :: "nat \<Rightarrow> char \<Rightarrow> string \<Rightarrow> string list" where
  "split_n 0 c s = []"
| "split_n (Suc 0) c s = [s]"
| "split_n (Suc n) c s =
     (if c \<in> set s then takeWhile (\<lambda>d. d \<noteq> c) s # split_n n c (tl (dropWhile (\<lambda>d. d \<noteq> c) s)) else [s])"

definition issue_from_run_id :: "string \<Rightarrow> int" where
  "issue_from_run_id run_id =
     (case split_n 3 (CHR ''-'') run_id of
        p # n # _ \<Rightarrow> if p = ''issue'' then (case atoi n of Some i \<Rightarrow> i | None \<Rightarrow> 0) else 0
      | _ \<Rightarrow> 0)"

definition timestamp_suffix :: "string \<Rightarrow> string" where
  "timestamp_suffix run_id = rev (takeWhile (\<lambda>c. c \<noteq> CHR ''-'') (rev run_id))"

definition classify_dir :: "health_os \<Rightarrow> int \<Rightarrow> string \<Rightarrow> run_health" where
  "classify_dir H stalled_after dir =
     (let run_id = path_base dir;
          ed = read_run_events H (path_join [dir, ''events.jsonl''])
      in classify H stalled_after run_id (if ed_issue ed \<noteq> 0 then ed_issue ed else issue_from_run_id run_id) ed
           (read_telemetry H (path_join [dir, ''telemetry.jsonl''])))"

text \<open>
  Newest first. \<open>sort.Slice\<close> leaves the order of equal suffixes open; this is the order of an
  insertion sort, and nothing below depends on it.
\<close>

fun insert_newer :: "string \<Rightarrow> string list \<Rightarrow> string list" where
  "insert_newer d [] = [d]"
| "insert_newer d (e # es) =
     (if timestamp_suffix d \<noteq> timestamp_suffix e \<and> bytes_le (timestamp_suffix e) (timestamp_suffix d)
      then d # e # es else e # insert_newer d es)"

definition newest_first :: "string list \<Rightarrow> string list" where
  "newest_first ds = fold insert_newer ds []"

definition classify_all :: "health_os \<Rightarrow> int \<Rightarrow> string \<Rightarrow> run_health list result" where
  "classify_all H stalled_after rdir =
     (case ho_dir H rdir of
        DirMissing \<Rightarrow> Inr []
      | DirFailed m \<Rightarrow> Inl (msg_err (''RUNSDIR_READ_FAILED: cannot read runs directory: '' @ m))
      | DirEntries es \<Rightarrow>
          Inr (map (\<lambda>d. classify_dir H stalled_after (path_join [rdir, d])) (newest_first (map fst (filter snd es)))))"

definition classify_one :: "health_os \<Rightarrow> int \<Rightarrow> string \<Rightarrow> run_health result" where
  "classify_one H stalled_after run_dir =
     (case ho_stat H run_dir of
        StatMissing \<Rightarrow> Inl (msg_err (''RUN_NOT_FOUND: '' @ path_base run_dir))
      | StatFailed m \<Rightarrow> Inl (msg_err (''RUNSDIR_READ_FAILED: '' @ m))
      | StatOk \<Rightarrow> Inr (classify_dir H stalled_after run_dir))"

section \<open>The verdict as a table\<close>

text \<open>An open span with a name that is older than the threshold.\<close>

definition overdue :: "int \<Rightarrow> int \<Rightarrow> string \<times> int \<Rightarrow> bool" where
  "overdue threshold t_now span \<longleftrightarrow> time_sub t_now (snd span) > threshold \<and> fst span \<noteq> []"

definition verdict :: "health_os \<Rightarrow> int \<Rightarrow> events_data \<Rightarrow> telemetry_data option \<Rightarrow> string \<times> string \<times> string" where
  "verdict H stalled_after ed tel =
     (let pid = (case tel of None \<Rightarrow> None | Some td \<Rightarrow> td_pid td);
          spans = (case tel of None \<Rightarrow> [] | Some td \<Rightarrow> td_open td);
          late = find (overdue (stalled_threshold stalled_after) (ho_now H)) spans
      in if ed_outcome ed = ''success'' then (StatusFinished, [], if pid = None then LivenessIndeterminate else LivenessDead)
         else if ed_outcome ed \<noteq> [] then (StatusFailed, [], if pid = None then LivenessIndeterminate else LivenessDead)
         else (case pid of
             None \<Rightarrow> (StatusRunning, ''-'', LivenessIndeterminate)
           | Some p \<Rightarrow>
               (case ho_signal H p of
                  NoProcess \<Rightarrow> (StatusWedged, ''-'', LivenessDead)
                | SignalESRCH \<Rightarrow> (StatusWedged, ''-'', LivenessDead)
                | SignalError \<Rightarrow> (StatusIndeterminate, ''-'', LivenessIndeterminate)
                | _ \<Rightarrow>
                    (case late of
                       Some span \<Rightarrow> (StatusStalled, fst span, LivenessAlive)
                     | None \<Rightarrow> (StatusRunning, if spans = [] then ''-'' else fst (last spans), LivenessAlive)))))"

lemma fold_spans_current:
  "fst (fold (span_step th t_now) spans acc) = (if spans = [] then fst acc else fst (last spans))"
  by (induction spans arbitrary: acc) (auto simp: span_step_def)

lemma fold_spans_stalled:
  "snd (fold (span_step th t_now) spans acc) =
     (if snd acc \<noteq> [] then snd acc else (case find (overdue th t_now) spans of Some span \<Rightarrow> fst span | None \<Rightarrow> []))"
  by (induction spans arbitrary: acc) (auto simp: span_step_def overdue_def)

lemma find_overdue_name: "find (overdue th t_now) spans = Some span \<Longrightarrow> fst span \<noteq> []"
  by (induction spans) (auto simp: overdue_def split: if_splits)

text \<open>
  C25: The health of a run is the verdict of the table: finished or failed by the outcome in the event
  log, wedged when its process is gone, stalled in the first open span that has a name and is older
  than the threshold, running in the span that was opened last otherwise, and running without a
  phase when no process is known.
\<close>

theorem classify_is_verdict:
  "(let h = classify H stalled_after run_id issue ed tel in (rh_status h, rh_phase h, rh_liveness h)) =
     verdict H stalled_after ed tel"
proof -
  let ?spans = "\<lambda>td. fold (span_step (stalled_threshold stalled_after) (ho_now H)) (td_open td) (''-'', [])"
  show ?thesis
    using fold_spans_current [of "stalled_threshold stalled_after" "ho_now H" _ "(''-'', [])"]
      fold_spans_stalled [of "stalled_threshold stalled_after" "ho_now H" _ "(''-'', [])"]
      find_overdue_name [of "stalled_threshold stalled_after" "ho_now H"]
    by (auto simp: classify_def verdict_def classify_alive_def os_liveness_probe_def Let_def split_beta
        split: option.splits signal_end.splits)
qed

section \<open>Telemetry comes back\<close>

definition record_ok :: "(string \<Rightarrow> int option) \<Rightarrow> tele_record \<Rightarrow> bool" where
  "record_ok F r \<longleftrightarrow>
     (case tr_duration r of None \<Rightarrow> True | Some ms \<Rightarrow> - max_int64 - 1 \<le> ms \<and> ms \<le> max_int64) \<and>
     list_all valid_utf8 [tr_kind r, tr_trace r, tr_span r, tr_parent r, tr_name r, tr_start r, tr_end r, tr_status r] \<and>
     attrs_json (tr_attrs r) = JObj (tr_attrs r) \<and> wf_json (JObj (tr_attrs r)) \<and> any_ok F (JObj (tr_attrs r))"

definition record_line :: "tele_record \<Rightarrow> string" where
  "record_line r = json_text (record_json r)"

definition records_text :: "tele_record list \<Rightarrow> string" where
  "records_text rs = concat (map (\<lambda>r. record_line r @ [newline]) rs)"

lemma dec_over_omit_str:
  "dec_over d k cur (omit_str k' v) = (if key_matches k k' \<and> v \<noteq> [] then d cur (JStr v) else Some cur)"
  by (simp add: omit_str_def split: option.splits)

lemma record_json_wf: "record_ok F r \<Longrightarrow> wf_json (record_json r)"
  by (auto simp: record_ok_def record_json_def omit_str_def jint_def number_ok_itoa split: option.splits)

lemma dec_record_json: "record_ok F r \<Longrightarrow> dec_record F (record_json r) = Some r"
  by (cases "tr_duration r"; cases "tr_attrs r = []")
    (auto simp: record_ok_def record_json_def dec_record_def dec_over_append dec_over_omit_str json_dec_defs jint_def atoi_itoa
      dec_attrs_def to_lower_def to_lower_char_def)

lemma record_line_shape: "\<exists>m. record_line r = CHR 0x7B # m @ [CHR 0x7D]"
  by (simp add: record_line_def record_json_def)

lemma record_line_trimmed [simp]:
  "trim_space (record_line r) = record_line r" "drop_cr (record_line r) = record_line r" "record_line r \<noteq> []"
  using record_line_shape [of r]
  by (auto simp: trim_space_def trim_left_def trim_right_def is_space_def drop_cr_def)

lemma scan_records:
  assumes "list_all (record_ok F) rs" and "list_all (\<lambda>r. length (record_line r) < max_scan_token) rs"
  shows "scan_lines (records_text rs) = Inr (map record_line rs)"
proof -
  have "newline \<notin> set (record_line r)" if "r \<in> set rs" for r
    using that assms(1) by (auto simp: record_line_def list_all_iff intro!: json_no_newline record_json_wf)
  then have "split_on newline (records_text rs) = map record_line rs @ [[]]"
    using split_lines [of "map record_line rs"] by (simp add: records_text_def comp_def)
  then show ?thesis using assms(2) by (auto simp: scan_lines_def list_all_iff)
qed

lemma scan_long_record:
  assumes "list_all (record_ok F) rs" and "\<not> list_all (\<lambda>r. length (record_line r) < max_scan_token) rs"
  shows "\<exists>e. scan_lines (records_text rs) = Inl e"
proof -
  have "newline \<notin> set (record_line r)" if "r \<in> set rs" for r
    using that assms(1) by (auto simp: record_line_def list_all_iff intro!: json_no_newline record_json_wf)
  then have "split_on newline (records_text rs) = map record_line rs @ [[]]"
    using split_lines [of "map record_line rs"] by (simp add: records_text_def comp_def)
  then show ?thesis using assms(2) by (auto simp: scan_lines_def list_all_iff not_less)
qed

lemma unmarshal_record: "record_ok F r \<Longrightarrow> unmarshal_into (dec_record F) (record_line r) = Some r"
  unfolding record_line_def by (simp add: unmarshal_into_text [OF record_json_wf] dec_record_json)

text \<open>
  The telemetry that a run writes is the telemetry that the health check reads: every record of
  the file comes back, unless one line has 65536 bytes or more or there is no record, and then the
  file counts as absent.
\<close>

theorem telemetry_round_trip:
  assumes "list_all (record_ok F) rs"
  shows "parse_telemetry_records F (records_text rs) =
    (if rs \<noteq> [] \<and> list_all (\<lambda>r. length (record_line r) < max_scan_token) rs then Some rs else None)"
proof (cases "list_all (\<lambda>r. length (record_line r) < max_scan_token) rs")
  case True
  have "concat (map (\<lambda>l. let t = trim_space l in
      if t = [] then [] else (case unmarshal_into (dec_record F) t of None \<Rightarrow> [] | Some r \<Rightarrow> [r])) (map record_line rs)) = rs"
    using assms by (induction rs) (simp_all add: Let_def unmarshal_record)
  then show ?thesis
    using True scan_records [OF assms True]
    by (auto simp: parse_telemetry_records_def split: list.splits)
next
  case False
  then show ?thesis using scan_long_record [OF assms False] by (auto simp: parse_telemetry_records_def)
qed

definition sample_record :: tele_record where
  "sample_record = span_start ''0'' [] SpanRun [(''pid'', jint 42)] ''1'' ''2026-01-02T03:04:05Z''"

lemma sample_record_ok: "record_ok (\<lambda>_. Some 42) sample_record"
  by (simp add: record_ok_def sample_record_def span_start_def attrs_json_def jint_def number_ok_itoa sort_strings_def)

theorem telemetry_round_trip_witness:
  "parse_telemetry_records (\<lambda>_. Some 42) (records_text [sample_record, sample_record]) = Some [sample_record, sample_record]"
proof -
  have "length (record_line sample_record) < max_scan_token"
    by (simp add: record_line_def record_json_def sample_record_def span_start_def omit_str_def attrs_json_def jint_def
        sort_strings_def quote_string_def escape_char_def max_scan_token_def itoa_def nat_digits.simps)
  then show ?thesis
    using telemetry_round_trip [of "\<lambda>_. Some 42" "[sample_record, sample_record]"] sample_record_ok by simp
qed

section \<open>All runs\<close>

definition newer_eq :: "string \<Rightarrow> string \<Rightarrow> bool" where
  "newer_eq d e \<longleftrightarrow> bytes_le (timestamp_suffix e) (timestamp_suffix d)"

lemma insert_newer_set: "set (insert_newer d es) = insert d (set es)"
  by (induction es) auto

lemma newest_first_set: "set (newest_first ds) = set ds"
proof -
  have "set (fold insert_newer ds acc) = set ds \<union> set acc" for acc
    by (induction ds arbitrary: acc) (auto simp: insert_newer_set)
  then show ?thesis by (simp add: newest_first_def)
qed

lemma bytes_le_refl [simp]: "bytes_le s s"
  by (induction s) auto

lemma bytes_le_total: "bytes_le s t \<or> bytes_le t s"
proof (induction s t rule: bytes_le.induct)
  case (3 x xs y ys)
  then show ?case by (cases "(of_char x :: nat)" "of_char y :: nat" rule: linorder_cases) auto
qed auto

lemma bytes_le_trans: "bytes_le s t \<Longrightarrow> bytes_le t u \<Longrightarrow> bytes_le s u"
proof (induction s u arbitrary: t rule: bytes_le.induct)
  case (2 x xs)
  then show ?case by (cases t) auto
next
  case (3 x xs y ys)
  then show ?case by (cases t) auto
qed auto

lemma insert_newer_sorted:
  "sorted_wrt newer_eq es \<Longrightarrow> sorted_wrt newer_eq (insert_newer d es)"
proof (induction es)
  case (Cons e es)
  show ?case
  proof (cases "timestamp_suffix d \<noteq> timestamp_suffix e \<and> newer_eq d e")
    case True
    then have "newer_eq d f" if "f \<in> set es" for f
      using Cons.prems that bytes_le_trans by (auto simp: newer_eq_def)
    with True Cons.prems show ?thesis by (auto simp: newer_eq_def)
  next
    case False
    then have "newer_eq e d" using bytes_le_total by (auto simp: newer_eq_def)
    with False Cons show ?thesis by (auto simp: newer_eq_def insert_newer_set)
  qed
qed simp

lemma newest_first_sorted: "sorted_wrt newer_eq (newest_first ds)"
proof -
  have "sorted_wrt newer_eq acc \<Longrightarrow> sorted_wrt newer_eq (fold insert_newer ds acc)" for acc
    by (induction ds arbitrary: acc) (auto intro: insert_newer_sorted)
  then show ?thesis by (simp add: newest_first_def)
qed

lemma classify_run_id: "rh_run_id (classify_dir H stalled_after dir) = path_base dir"
  by (auto simp: classify_dir_def classify_def classify_alive_def Let_def split: option.split prod.split)

definition listing_ok :: "health_os \<Rightarrow> int \<Rightarrow> string \<Rightarrow> run_health list result \<Rightarrow> bool" where
  "listing_ok H stalled_after rdir res \<longleftrightarrow>
     (case (ho_dir H rdir, res) of
        (DirMissing, Inr hs) \<Rightarrow> hs = []
      | (DirFailed _, Inl _) \<Rightarrow> True
      | (DirEntries es, Inr hs) \<Rightarrow>
          (\<exists>ds. sorted_wrt newer_eq ds \<and> set ds = {d. (d, True) \<in> set es} \<and>
             hs = map (\<lambda>d. classify_dir H stalled_after (path_join [rdir, d])) ds)
      | _ \<Rightarrow> False)"

text \<open>
  The listing has one entry for every directory below the runs directory and for nothing else,
  the newest first by the time stamp in its name; a missing runs directory gives an empty listing.
\<close>

theorem listing_newest_first: "listing_ok H stalled_after rdir (classify_all H stalled_after rdir)"
proof (cases "ho_dir H rdir")
  case (DirEntries es)
  let ?ds = "newest_first (map fst (filter snd es))"
  have "set ?ds = {d. (d, True) \<in> set es}"
    by (force simp: newest_first_set)
  then show ?thesis
    using DirEntries newest_first_sorted [of "map fst (filter snd es)"] by (auto simp: listing_ok_def classify_all_def)
qed (simp_all add: listing_ok_def classify_all_def)

section \<open>Runs that never end in the listing\<close>

lemma fold_no_run_events:
  "list_all (\<lambda>e. ev_type e \<noteq> EventRunStarted \<and> ev_type e \<noteq> EventRunFinished) es \<Longrightarrow> fold events_step es ed = ed"
  by (induction es) (simp_all add: events_step_def)

text \<open>
  A directory whose event log has neither the start nor the end of a run and that has no
  telemetry, which is what the polling loop leaves next to the runs, is listed as
  running for ever, with the issue of its name and without an age.
\<close>

theorem loop_directory_shows_running:
  assumes "read_log (ho_file H (path_join [dir, ''events.jsonl''])) = Inr es"
    and "list_all (\<lambda>e. ev_type e \<noteq> EventRunStarted \<and> ev_type e \<noteq> EventRunFinished) es"
    and "ho_file H (path_join [dir, ''telemetry.jsonl'']) = None"
  shows "classify_dir H stalled_after dir =
    \<lparr>rh_run_id = path_base dir, rh_issue = issue_from_run_id (path_base dir), rh_status = StatusRunning, rh_phase = ''-'',
     rh_age = ''-'', rh_outcome = [], rh_pid = None, rh_liveness = LivenessIndeterminate\<rparr>"
  using assms
  by (simp add: classify_dir_def read_run_events_def fold_no_run_events no_events_def read_telemetry_def classify_def
      compute_age_def Let_def)

definition sample_os :: health_os where
  "sample_os =
     \<lparr>ho_float = (\<lambda>_. None), ho_file = (\<lambda>p. if p = path_join [''/r/loop-1'', ''events.jsonl''] then Some [] else None),
      ho_dir = (\<lambda>_. DirMissing), ho_stat = (\<lambda>_. StatOk), ho_signal = (\<lambda>_. NoProcess), ho_now = 0\<rparr>"

theorem loop_directory_shows_running_witness:
  "rh_status (classify_dir sample_os 0 ''/r/loop-1'') = StatusRunning"
  using loop_directory_shows_running [of sample_os "''/r/loop-1''" "[]" 0]
  by (simp add: sample_os_def path_join_def read_log_def scan_lines_def drop_blank_last_def)

end
