(* ===== verification/Preflight.thy ===== *)
theory Preflight
  imports Config Agent Host
begin

text \<open>
  The prerequisite checks (\<open>internal/preflight\<close>). They run commands, and in setup mode they create
  files that later checks read, so the state is the store of files with their modes and the
  history of what was done. What a command answers and which file operation fails, and how, is a
  function of that history (\<open>preflight_os\<close>); the embedded guidelines are \<open>po_template\<close>.
\<close>

section \<open>The host\<close>

datatype fs_op =
    FsStat string
  | FsMkdir string
  | FsWrite string string nat
  | FsRename string string
  | FsRemove string
  | FsRead string
  | FsOpen string

datatype pf_event = PfRun cmd "string result" | PfFs fs_op "string option" | PfPrint string

record preflight_os =
  po_exec :: "pf_event list \<Rightarrow> cmd \<Rightarrow> string result"
  po_fs :: "pf_event list \<Rightarrow> fs_op \<Rightarrow> string option"
  po_lookup :: "string \<Rightarrow> string option"
  po_template :: "string \<Rightarrow> string option"

record pf_state =
  pf_files :: "string \<Rightarrow> (string \<times> nat) option"
  pf_trace :: "pf_event list"

type_synonym 'a pf = "(pf_state, 'a) state"

abbreviation pf_return :: "'a \<Rightarrow> 'a pf" where
  "pf_return \<equiv> State_Monad.return"

definition pf_exec :: "preflight_os \<Rightarrow> cmd \<Rightarrow> string result pf" where
  "pf_exec P c =
     State (\<lambda>s. let r = po_exec P (pf_trace s) c in (r, s\<lparr>pf_trace := pf_trace s @ [PfRun c r]\<rparr>))"

definition pf_print :: "string \<Rightarrow> unit pf" where
  "pf_print l = State (\<lambda>s. ((), s\<lparr>pf_trace := pf_trace s @ [PfPrint l]\<rparr>))"

text \<open>A file operation: its effect on the store when it does not fail.\<close>

definition fs_effect :: "fs_op \<Rightarrow> (string \<Rightarrow> (string \<times> nat) option) \<Rightarrow> string \<Rightarrow> (string \<times> nat) option" where
  "fs_effect op files =
     (case op of
        FsWrite p content perm \<Rightarrow>
          files(p \<mapsto> (content, case files p of None \<Rightarrow> perm | Some f \<Rightarrow> snd f))
      | FsRename p q \<Rightarrow> files(q := files p, p := None)
      | FsRemove p \<Rightarrow> files(p := None)
      | _ \<Rightarrow> files)"

definition pf_fs :: "preflight_os \<Rightarrow> fs_op \<Rightarrow> string option pf" where
  "pf_fs P op =
     State (\<lambda>s. let e = po_fs P (pf_trace s) op
                in (e, \<lparr>pf_files = (if e = None then fs_effect op (pf_files s) else pf_files s),
                       pf_trace = pf_trace s @ [PfFs op e]\<rparr>))"

text \<open>\<open>os.Stat\<close> of a file: it is there, it is not, or the call fails.\<close>

datatype stat_result = Exists | Missing | StatError string

definition pf_stat :: "preflight_os \<Rightarrow> string \<Rightarrow> stat_result pf" where
  "pf_stat P p =
     do {
       e \<leftarrow> pf_fs P (FsStat p);
       s \<leftarrow> State_Monad.get;
       pf_return (case e of Some m \<Rightarrow> StatError m | None \<Rightarrow> if pf_files s p = None then Missing else Exists)
     }"

definition exit_code_of :: "gerr \<Rightarrow> int option" where
  "exit_code_of e = (case err_kind e of KExit n \<Rightarrow> Some n | _ \<Rightarrow> None)"

section \<open>Results\<close>

record check_outcome =
  co_name :: string
  co_ok :: bool
  co_details :: string

definition ok_result :: "string \<Rightarrow> check_outcome" where
  "ok_result name = \<lparr>co_name = name, co_ok = True, co_details = []\<rparr>"

definition failed_result :: "string \<Rightarrow> string \<Rightarrow> check_outcome" where
  "failed_result name details = \<lparr>co_name = name, co_ok = False, co_details = details\<rparr>"

definition all_ok :: "check_outcome list \<Rightarrow> bool" where
  "all_ok rs = list_all co_ok rs"

text \<open>\<open>ErrExit.Error\<close>.\<close>

definition exit_error_text :: "int \<Rightarrow> string \<Rightarrow> string" where
  "exit_error_text code stderr =
     ''exit code '' @ itoa code @ (if stderr \<noteq> [] then '': '' @ trim_space stderr else [])"

definition sanitize_err :: "gerr \<Rightarrow> string" where
  "sanitize_err e = (case exit_code_of e of Some n \<Rightarrow> ''exit code '' @ itoa n | None \<Rightarrow> err_text e)"

section \<open>Tools and the repository\<close>

definition check_version :: "preflight_os \<Rightarrow> string \<Rightarrow> string \<Rightarrow> check_outcome pf" where
  "check_version P tool name =
     do {
       r \<leftarrow> pf_exec P (Cmd [] [] [tool, ''--version'']);
       pf_return (case r of
           Inr _ \<Rightarrow> ok_result name
         | Inl e \<Rightarrow>
             (case exit_code_of e of
                Some n \<Rightarrow> failed_result name (tool @ '' --version exited with code '' @ itoa n)
              | None \<Rightarrow> failed_result name (tool @ '' not found: '' @ err_text e)))
     }"

definition check_gh_version :: "preflight_os \<Rightarrow> check_outcome pf" where
  "check_gh_version P = check_version P ''gh'' ''gh installiert''"

definition check_pi_version :: "preflight_os \<Rightarrow> check_outcome pf" where
  "check_pi_version P = check_version P ''pi'' ''pi installiert''"

definition is_ssh_url :: "string \<Rightarrow> bool" where
  "is_ssh_url url \<longleftrightarrow>
     has_prefix ''git@'' url \<or> has_prefix ''ssh://'' url \<or> has_prefix ''git://'' url \<or> has_prefix ''git+ssh://'' url"

definition mask_url :: "string \<Rightarrow> string" where
  "mask_url url =
     (if \<not> has_prefix ''https://'' url then url
      else (let rest = drop (length ''https://'') url in
            if CHR ''@'' \<notin> set rest then url
            else ''https://***@'' @ tl (dropWhile (\<lambda>c. c \<noteq> CHR ''@'') rest)))"

definition check_remote_url :: "string \<Rightarrow> check_outcome" where
  "check_remote_url url =
     (if url = [] then failed_result ''git'' ''remote 'origin' has empty URL''
      else if is_ssh_url url
      then failed_result ''git'' (''remote 'origin' URL must be HTTPS, got SSH-style URL: '' @ mask_url url)
      else if \<not> has_prefix ''https://'' url
      then failed_result ''git'' (''remote 'origin' URL must be HTTPS, got: '' @ mask_url url)
      else ok_result ''git'')"

definition check_git :: "preflight_os \<Rightarrow> string \<Rightarrow> check_outcome pf" where
  "check_git P root =
     do {
       r1 \<leftarrow> pf_exec P (Cmd [] [] [''git'', ''--version'']);
       (case r1 of
          Inl e \<Rightarrow> pf_return (failed_result ''git''
              (case exit_code_of e of
                 Some n \<Rightarrow> ''git --version exited with code '' @ itoa n
               | None \<Rightarrow> ''git not found: '' @ err_text e))
        | Inr _ \<Rightarrow>
            do {
              r2 \<leftarrow> pf_exec P (Cmd [] root [''git'', ''worktree'', ''list'']);
              (case r2 of
                 Inl e \<Rightarrow> pf_return (failed_result ''git'' (''git worktree list failed: '' @ err_text e))
               | Inr _ \<Rightarrow>
                   do {
                     r3 \<leftarrow> pf_exec P (Cmd [] root [''git'', ''config'', ''--get'', ''remote.origin.url'']);
                     pf_return (case r3 of
                         Inl e \<Rightarrow> failed_result ''git'' (''no remote 'origin' configured: '' @ err_text e)
                       | Inr out \<Rightarrow>
                           check_remote_url (trim_space out))
                   })
            })
     }"

section \<open>Scaffolding\<close>

text \<open>\<open>writeFileAtomic\<close>; \<open>KExist\<close> of the source is the result \<open>AlreadyThere\<close>.\<close>

datatype write_outcome = Written | AlreadyThere | NotWritten string

definition write_file_atomic :: "preflight_os \<Rightarrow> string \<Rightarrow> string \<Rightarrow> nat \<Rightarrow> write_outcome pf" where
  "write_file_atomic P p content perm =
     do {
       e1 \<leftarrow> pf_fs P (FsMkdir (path_dir p));
       (case e1 of Some m \<Rightarrow> pf_return (NotWritten (''mkdir '' @ path_dir p @ '': '' @ m)) | None \<Rightarrow>
        do {
          st \<leftarrow> pf_stat P p;
          (if st = Exists then pf_return AlreadyThere
           else do {
             e2 \<leftarrow> pf_fs P (FsWrite (p @ ''.tmp'') content perm);
             (case e2 of Some m \<Rightarrow> pf_return (NotWritten (''write '' @ p @ '': '' @ m)) | None \<Rightarrow>
              do {
                e3 \<leftarrow> pf_fs P (FsRename (p @ ''.tmp'') p);
                (case e3 of None \<Rightarrow> pf_return Written | Some m \<Rightarrow>
                 do {
                   _ \<leftarrow> pf_fs P (FsRemove (p @ ''.tmp''));
                   pf_return (NotWritten (''rename '' @ p @ '': '' @ m))
                 })
              })
           })
        })
     }"

text \<open>\<open>json.MarshalIndent\<close> with an indentation of \<open>w\<close> blanks; only empty arrays and objects stay on one line.\<close>

fun json_indent :: "nat \<Rightarrow> nat \<Rightarrow> json \<Rightarrow> string" where
  "json_indent w n (JArr xs) =
     (if xs = [] then ''[]''
      else ''['' @ join_with '','' (map (\<lambda>x. newline # replicate (w * Suc n) (CHR '' '') @ json_indent w (Suc n) x) xs) @
        newline # replicate (w * n) (CHR '' '') @ '']'')"
| "json_indent w n (JObj kvs) =
     (if kvs = [] then ''{}''
      else CHR 0x7B #
        join_with '','' (map (\<lambda>kv. newline # replicate (w * Suc n) (CHR '' '') @ quote_string (fst kv) @ '': '' @
          json_indent w (Suc n) (snd kv)) kvs) @
        newline # replicate (w * n) (CHR '' '') @ [CHR 0x7D])"
| "json_indent w n j = json_text j"

definition create_config :: "preflight_os \<Rightarrow> string \<Rightarrow> string \<Rightarrow> string option pf" where
  "create_config P p project =
     do {
       r \<leftarrow> write_file_atomic P p (json_indent 4 0 (config_json (DefaultConfig project))) 420;
       pf_return (case r of NotWritten m \<Rightarrow> Some m | _ \<Rightarrow> None)
     }"

definition copy_from_template :: "preflight_os \<Rightarrow> string \<Rightarrow> string \<Rightarrow> string \<Rightarrow> string option pf" where
  "copy_from_template P dir embedded name =
     do {
       st \<leftarrow> pf_stat P (path_join [dir, name]);
       (if st = Exists then pf_return None
        else (case po_template P embedded of
                None \<Rightarrow> pf_return (Some (''read template '' @ embedded))
              | Some content \<Rightarrow>
                  do {
                    e \<leftarrow> pf_fs P (FsWrite (path_join [dir, name]) content 420);
                    pf_return (map_option (\<lambda>m. ''write file: '' @ m) e)
                  }))
     }"

definition scaffolding_name :: string where
  "scaffolding_name = ''.golemic/ Scaffolding''"

definition check_scaffolding :: "preflight_os \<Rightarrow> bool \<Rightarrow> string \<Rightarrow> check_outcome pf" where
  "check_scaffolding P check_mode root =
     (let dir = path_join [root, ''.golemic'']; cfg = path_join [dir, ''config.json''];
          guide = path_join [dir, ''guidelines'']; project = path_base root;
          fail = (\<lambda>m. pf_return (failed_result scaffolding_name m))
      in do {
        st \<leftarrow> pf_stat P cfg;
        (if st = Exists then pf_return (ok_result scaffolding_name)
         else if check_mode then fail ''.golemic/config.json missing''
         else if project = [] \<or> project = ''.'' then fail ''cannot determine project name from repo root''
         else (case validate_project_name project of
            Some e \<Rightarrow> fail (''invalid project name: '' @ err_text e)
          | None \<Rightarrow>
              do {
                e1 \<leftarrow> create_config P cfg project;
                (case e1 of Some m \<Rightarrow> fail (''failed to create config.json: '' @ m) | None \<Rightarrow>
                 do {
                   e2 \<leftarrow> pf_fs P (FsMkdir guide);
                   (case e2 of Some m \<Rightarrow> fail (''failed to create guidelines directory: '' @ m) | None \<Rightarrow>
                    do {
                      e3 \<leftarrow> copy_from_template P guide ''templates/guidelines/dev.md'' ''dev.md'';
                      (case e3 of Some m \<Rightarrow> fail (''failed to create guidelines/dev.md: '' @ m) | None \<Rightarrow>
                       do {
                         e4 \<leftarrow> copy_from_template P guide ''templates/guidelines/reviewer.md'' ''reviewer.md'';
                         (case e4 of Some m \<Rightarrow> fail (''failed to create guidelines/reviewer.md: '' @ m) | None \<Rightarrow>
                          fail (''created '' @ [CHR 0xE2, CHR 0x80, CHR 0x94] @ '' please fill in config.json and guidelines''))
                       })
                    })
                 })
              }))
      })"

section \<open>Configuration and credentials\<close>

text \<open>\<open>config.Load\<close> on the store.\<close>

definition load_config_file :: "preflight_os \<Rightarrow> string \<Rightarrow> config result pf" where
  "load_config_file P root =
     (let p = path_join [root, ''.golemic'', ''config.json''] in
      do {
        st \<leftarrow> pf_stat P p;
        (if st = Missing then pf_return (load_config NoFile)
         else do {
           e \<leftarrow> pf_fs P (FsRead p);
           s \<leftarrow> State_Monad.get;
           pf_return (load_config (case (e, pf_files s p) of
               (None, Some (content, _)) \<Rightarrow> Contents content
             | _ \<Rightarrow> ReadError))
         })
      })"

definition check_config :: "preflight_os \<Rightarrow> string \<Rightarrow> (check_outcome \<times> config option) pf" where
  "check_config P root =
     do {
       r \<leftarrow> load_config_file P root;
       pf_return (case r of
           Inr cfg \<Rightarrow> (ok_result ''config.json valide'', Some cfg)
         | Inl e \<Rightarrow>
             (failed_result ''config.json valide''
                (if err_kind e = KNotExist then ''.golemic/config.json missing'' else err_text e), None))
     }"

definition load_cached_config :: "preflight_os \<Rightarrow> string \<Rightarrow> config option \<Rightarrow> config result pf" where
  "load_cached_config P root cached =
     (case cached of Some cfg \<Rightarrow> pf_return (Inr cfg) | None \<Rightarrow> load_config_file P root)"

definition load_credentials_file :: "preflight_os \<Rightarrow> string \<Rightarrow> string \<Rightarrow> credentials result pf" where
  "load_credentials_file P home project =
     (let p = path_join [home, ''.golemic'', project, ''credentials.json''];
          load = (\<lambda>f. pf_return (load_credentials home project f (po_lookup P)))
      in if home = [] \<or> \<not> valid_project_name project then load CredMissing
         else do {
           e \<leftarrow> pf_fs P (FsOpen p);
           s \<leftarrow> State_Monad.get;
           (case (e, pf_files s p) of
              (Some _, _) \<Rightarrow> load CredOpenError
            | (None, None) \<Rightarrow> load CredMissing
            | (None, Some (content, perm)) \<Rightarrow>
                if open_to_others perm then load (CredFile perm None)
                else do {
                  e2 \<leftarrow> pf_fs P (FsRead p);
                  load (CredFile perm (if e2 = None then Some content else None))
                })
         })"

definition scaffold_credentials_if_needed :: "preflight_os \<Rightarrow> string \<Rightarrow> string \<Rightarrow> unit pf" where
  "scaffold_credentials_if_needed P p project =
     do {
       st \<leftarrow> pf_stat P p;
       (if st \<noteq> Missing \<or> validate_project_name project \<noteq> None then pf_return ()
        else do {
          _ \<leftarrow> write_file_atomic P p
            (json_indent 4 0 (JObj [(''dev_token'', JStr ''${GOLEMIC_DEV_TOKEN}''),
              (''reviewer_token'', JStr ''${GOLEMIC_REVIEWER_TOKEN}'')])) 384;
          pf_return ()
        })
     }"

definition gh_whoami :: "preflight_os \<Rightarrow> string \<Rightarrow> string result pf" where
  "gh_whoami P token =
     do {
       r \<leftarrow> pf_exec P (Cmd [(''GH_TOKEN'', token)] [] [''gh'', ''api'', ''user'']);
       pf_return (case r of
           Inl e \<Rightarrow> Inl (msg_err (case exit_code_of e of
               Some n \<Rightarrow> ''gh api user: exit code '' @ itoa n
             | None \<Rightarrow> ''gh api user: '' @ err_text e))
         | Inr out \<Rightarrow>
             (case unmarshal_into (get_str ''login'') out of
                None \<Rightarrow> Inl (msg_err ''gh api user: invalid response'')
              | Some login \<Rightarrow> if login = [] then Inl (msg_err ''gh api user: empty login'') else Inr login))
     }"

definition check_credentials_check_mode :: "preflight_os \<Rightarrow> string \<Rightarrow> config \<Rightarrow> check_outcome pf" where
  "check_credentials_check_mode P home c =
     do {
       creds \<leftarrow> load_credentials_file P home (cf_project c);
       pf_return (case creds of
           Inl e \<Rightarrow> failed_result ''Credentials'' (err_text e)
         | Inr cr \<Rightarrow>
             if ct_dev_token cr = ct_reviewer_token cr then failed_result ''Credentials'' ''tokens identical''
             else ok_result ''Credentials'')
     }"

definition check_credentials :: "preflight_os \<Rightarrow> bool \<Rightarrow> string \<Rightarrow> string \<Rightarrow> config option \<Rightarrow> check_outcome pf" where
  "check_credentials P check_mode home root cached =
     (let fail = (\<lambda>m. pf_return (failed_result ''Credentials'' m)) in
      do {
        cfg \<leftarrow> load_cached_config P root cached;
        (case cfg of
           Inl e \<Rightarrow> fail (''cannot load config: '' @ err_text e)
         | Inr c \<Rightarrow>
             if check_mode
             then check_credentials_check_mode P home c
             else do {
               _ \<leftarrow> scaffold_credentials_if_needed P (path_join [home, ''.golemic'', cf_project c, ''credentials.json'']) (cf_project c);
               creds \<leftarrow> load_credentials_file P home (cf_project c);
               (case creds of
                  Inl e \<Rightarrow> fail (err_text e)
                | Inr cr \<Rightarrow>
                    do {
                      dev \<leftarrow> gh_whoami P (ct_dev_token cr);
                      (case dev of
                         Inl e \<Rightarrow> fail (''dev token invalid: '' @ sanitize_err e)
                       | Inr dev_login \<Rightarrow>
                           do {
                             rvw \<leftarrow> gh_whoami P (ct_reviewer_token cr);
                             (case rvw of
                                Inl e \<Rightarrow> fail (''reviewer token invalid: '' @ sanitize_err e)
                              | Inr rvw_login \<Rightarrow>
                                  if dev_login = rvw_login
                                  then fail (''dev and reviewer token use the same account ('' @ dev_login @ ''); they must be different'')
                                  else pf_return \<lparr>co_name = ''Credentials'', co_ok = True,
                                         co_details = ''dev='' @ ct_dev_source cr @ '', reviewer='' @ ct_reviewer_source cr\<rparr>)
                           })
                    })
             })
      })"

section \<open>Labels\<close>

definition required_labels :: "(string \<times> string \<times> string) list" where
  "required_labels =
     [(''in-progress'', ''fbca04'', ''Issue is currently claimed by an autonomous runner''),
      (''needs-human'', ''d93f0b'', ''Autonomous runner failed; requires human triage''),
      (''confidence:high'', ''0075ca'', ''Reviewer confidence: high''),
      (''confidence:medium'', ''e4e669'', ''Reviewer confidence: medium''),
      (''confidence:low'', ''d93f0b'', ''Reviewer confidence: low'')]"

definition fetch_existing_labels :: "preflight_os \<Rightarrow> string \<Rightarrow> string list result pf" where
  "fetch_existing_labels P token =
     do {
       r \<leftarrow> pf_exec P (Cmd [(''GH_TOKEN'', token)] [] [''gh'', ''label'', ''list'', ''--json'', ''name'']);
       pf_return (case r of
           Inl e \<Rightarrow> Inl (msg_err (''gh label list failed: '' @ sanitize_err e))
         | Inr out \<Rightarrow>
             (case unmarshal_into (dec_list (get_str ''name'') []) out of
                None \<Rightarrow> Inl (msg_err ''gh label list: invalid response'')
              | Some names \<Rightarrow> Inr names))
     }"

definition find_missing_labels :: "string list \<Rightarrow> string list" where
  "find_missing_labels existing = filter (\<lambda>n. n \<notin> set existing) (map fst required_labels)"

definition create_label_cmd :: "string \<Rightarrow> string \<times> string \<times> string \<Rightarrow> cmd" where
  "create_label_cmd token l =
     (case l of (name, color, descr) \<Rightarrow>
        Cmd [(''GH_TOKEN'', token)] []
          [''gh'', ''label'', ''create'', name, ''--color'', color, ''--description'', descr])"

fun create_labels :: "preflight_os \<Rightarrow> string \<Rightarrow> string list \<Rightarrow> (string \<times> string \<times> string) list \<Rightarrow> gerr option pf" where
  "create_labels P token existing [] = pf_return None"
| "create_labels P token existing (l # ls) =
     (if fst l \<in> set existing then create_labels P token existing ls
      else do {
        r \<leftarrow> pf_exec P (create_label_cmd token l);
        (case r of
           Inl e \<Rightarrow> pf_return (Some (msg_err (''gh label create '' @ fst l @ '' failed: '' @ sanitize_err e)))
         | Inr _ \<Rightarrow> create_labels P token existing ls)
      })"

definition create_missing_labels :: "preflight_os \<Rightarrow> string \<Rightarrow> string list \<Rightarrow> gerr option pf" where
  "create_missing_labels P token existing = create_labels P token existing required_labels"

definition check_labels :: "preflight_os \<Rightarrow> bool \<Rightarrow> string \<Rightarrow> string \<Rightarrow> config option \<Rightarrow> check_outcome pf" where
  "check_labels P check_mode home root cached =
     (let fail = (\<lambda>m. pf_return (failed_result ''labels'' m)) in
      do {
        cfg \<leftarrow> load_cached_config P root cached;
        (case cfg of
           Inl e \<Rightarrow> fail (''cannot load config: '' @ err_text e)
         | Inr c \<Rightarrow>
             do {
               creds \<leftarrow> load_credentials_file P home (cf_project c);
               (case creds of
                  Inl e \<Rightarrow> fail (''cannot load credentials: '' @ err_text e)
                | Inr cr \<Rightarrow>
                    do {
                      ls \<leftarrow> fetch_existing_labels P (ct_dev_token cr);
                      (case ls of
                         Inl e \<Rightarrow> fail (err_text e)
                       | Inr existing \<Rightarrow>
                           if check_mode
                           then (if find_missing_labels existing \<noteq> []
                                 then fail (''missing labels: '' @ join_with '', '' (find_missing_labels existing))
                                 else pf_return (ok_result ''labels''))
                           else do {
                             e \<leftarrow> create_missing_labels P (ct_dev_token cr) existing;
                             (case e of Some m \<Rightarrow> fail (err_text m) | None \<Rightarrow> pf_return (ok_result ''labels''))
                           })
                    })
             })
      })"

section \<open>All checks\<close>

definition result_line :: "check_outcome \<Rightarrow> string" where
  "result_line r = (if co_ok r then ''OK: '' @ co_name r else ''FAILED: '' @ co_name r @ '' - '' @ co_details r)"

fun print_lines :: "string list \<Rightarrow> unit pf" where
  "print_lines [] = pf_return ()"
| "print_lines (l # ls) = do { _ \<leftarrow> pf_print l; print_lines ls }"

definition run_checks :: "preflight_os \<Rightarrow> bool \<Rightarrow> string \<Rightarrow> string \<Rightarrow> check_outcome list pf" where
  "run_checks P check_mode home root =
     do {
       r1 \<leftarrow> check_gh_version P;
       r2 \<leftarrow> check_pi_version P;
       r3 \<leftarrow> check_git P root;
       r4 \<leftarrow> check_scaffolding P check_mode root;
       (r5, cached) \<leftarrow> check_config P root;
       r6 \<leftarrow> check_credentials P check_mode home root cached;
       r7 \<leftarrow> check_labels P check_mode home root cached;
       (let results = [r1, r2, r3, r4, r5, r6, r7] in
        do {
          _ \<leftarrow> print_lines (map result_line results @ [if all_ok results then ''ok'' else ''failed'']);
          pf_return results
        })
     }"

definition run_all :: "preflight_os \<Rightarrow> string \<Rightarrow> string \<Rightarrow> check_outcome list pf" where
  "run_all P home root = run_checks P False home root"

definition preflight_check :: "preflight_os \<Rightarrow> string \<Rightarrow> string \<Rightarrow> check_outcome list pf" where
  "preflight_check P home root = run_checks P True home root"

section \<open>What check mode does\<close>

text \<open>A relation between states that composes lifts from the primitive operations to all others.\<close>

locale io_relation =
  fixes Rel :: "'s \<Rightarrow> 's \<Rightarrow> bool"
  assumes io_refl: "Rel s s"
    and io_trans: "Rel s t \<Longrightarrow> Rel t u \<Longrightarrow> Rel s u"
begin

lemma io_return: "state_io_rel Rel (State_Monad.return a)"
  by (simp add: state_io_rel_def io_refl)

lemma io_get: "state_io_rel Rel State_Monad.get"
  by (simp add: state_io_rel_def io_refl)

lemma io_bind:
  "state_io_rel Rel m \<Longrightarrow> (\<And>a. state_io_rel Rel (f a)) \<Longrightarrow> state_io_rel Rel (State_Monad.bind m f)"
  unfolding state_io_rel_def by (auto split: prod.split) (metis io_trans snd_conv)

lemma io_if: "(c \<Longrightarrow> state_io_rel Rel m) \<Longrightarrow> (\<not> c \<Longrightarrow> state_io_rel Rel n) \<Longrightarrow> state_io_rel Rel (if c then m else n)"
  by simp

lemma io_option:
  "state_io_rel Rel m \<Longrightarrow> (\<And>a. state_io_rel Rel (f a)) \<Longrightarrow> state_io_rel Rel (case x of None \<Rightarrow> m | Some a \<Rightarrow> f a)"
  by (cases x) simp_all

lemma io_sum:
  "(\<And>a. state_io_rel Rel (f a)) \<Longrightarrow> (\<And>a. state_io_rel Rel (g a)) \<Longrightarrow> state_io_rel Rel (case x of Inl a \<Rightarrow> f a | Inr a \<Rightarrow> g a)"
  by (cases x) simp_all

lemma io_pair: "(\<And>a b. state_io_rel Rel (f a b)) \<Longrightarrow> state_io_rel Rel (case x of (a, b) \<Rightarrow> f a b)"
  by (cases x) simp

lemmas io_rules = io_return io_get io_bind io_if io_option io_sum io_pair

end

definition read_only_argv :: "string list list" where
  "read_only_argv =
     [[''gh'', ''--version''], [''pi'', ''--version''], [''git'', ''--version''], [''git'', ''worktree'', ''list''],
      [''git'', ''config'', ''--get'', ''remote.origin.url''], [''gh'', ''label'', ''list'', ''--json'', ''name'']]"

definition harmless :: "pf_event \<Rightarrow> bool" where
  "harmless e =
     (case e of
        PfRun c _ \<Rightarrow> cmd_argv c \<in> set read_only_argv
      | PfFs op _ \<Rightarrow> (case op of FsStat _ \<Rightarrow> True | FsRead _ \<Rightarrow> True | FsOpen _ \<Rightarrow> True | _ \<Rightarrow> False)
      | PfPrint _ \<Rightarrow> True)"

definition reads_only :: "pf_state \<Rightarrow> pf_state \<Rightarrow> bool" where
  "reads_only s t \<longleftrightarrow> pf_files t = pf_files s \<and> (\<exists>more. pf_trace t = pf_trace s @ more \<and> list_all harmless more)"

interpretation reads_only: io_relation reads_only
proof
  show "reads_only s s" for s by (simp add: reads_only_def)
  show "reads_only s t \<Longrightarrow> reads_only t u \<Longrightarrow> reads_only s u" for s t u by (auto simp: reads_only_def)
qed

lemma reads_only_exec: "cmd_argv c \<in> set read_only_argv \<Longrightarrow> state_io_rel reads_only (pf_exec P c)"
  by (simp add: state_io_rel_def reads_only_def pf_exec_def Let_def harmless_def)

lemma reads_only_print: "state_io_rel reads_only (pf_print l)"
  by (simp add: state_io_rel_def reads_only_def pf_print_def harmless_def)

lemma reads_only_fs:
  "state_io_rel reads_only (pf_fs P (FsStat p))" "state_io_rel reads_only (pf_fs P (FsRead p))" "state_io_rel reads_only (pf_fs P (FsOpen p))"
  by (simp_all add: state_io_rel_def reads_only_def pf_fs_def Let_def harmless_def fs_effect_def)

lemma reads_only_stat: "state_io_rel reads_only (pf_stat P p)"
  unfolding pf_stat_def by (intro reads_only.io_rules reads_only_fs)

lemma reads_only_print_lines: "state_io_rel reads_only (print_lines ls)"
  by (induction ls) (auto intro!: reads_only.io_rules reads_only_print)

lemma reads_only_version:
  "[tool, ''--version''] \<in> set read_only_argv \<Longrightarrow> state_io_rel reads_only (check_version P tool name)"
  unfolding check_version_def by (intro reads_only.io_rules reads_only_exec) simp

lemma reads_only_git: "state_io_rel reads_only (check_git P root)"
  unfolding check_git_def by (intro reads_only.io_rules reads_only_exec) (simp_all add: read_only_argv_def)

lemma reads_only_load_config: "state_io_rel reads_only (load_config_file P root)"
  unfolding load_config_file_def Let_def by (intro reads_only.io_rules reads_only_stat reads_only_fs)

lemma reads_only_cached: "state_io_rel reads_only (load_cached_config P root cached)"
  unfolding load_cached_config_def by (intro reads_only.io_rules reads_only_load_config)

lemma reads_only_load_credentials: "state_io_rel reads_only (load_credentials_file P home project)"
  unfolding load_credentials_file_def Let_def by (intro reads_only.io_rules reads_only_fs)

lemma reads_only_fetch_labels: "state_io_rel reads_only (fetch_existing_labels P token)"
  unfolding fetch_existing_labels_def by (intro reads_only.io_rules reads_only_exec) (simp add: read_only_argv_def)

lemma reads_only_scaffolding: "state_io_rel reads_only (check_scaffolding P True root)"
  unfolding check_scaffolding_def Let_def if_True by (intro reads_only.io_rules reads_only_stat)

lemma reads_only_config: "state_io_rel reads_only (check_config P root)"
  unfolding check_config_def by (intro reads_only.io_rules reads_only_load_config)

lemma reads_only_credentials: "state_io_rel reads_only (check_credentials P True home root cached)"
  unfolding check_credentials_def check_credentials_check_mode_def Let_def if_True by (intro reads_only.io_rules reads_only_cached reads_only_load_credentials)

lemma reads_only_labels: "state_io_rel reads_only (check_labels P True home root cached)"
  unfolding check_labels_def Let_def if_True
  by (intro reads_only.io_rules reads_only_cached reads_only_load_credentials reads_only_fetch_labels)

text \<open>
  C26: \<open>golemic preflight --check\<close> changes nothing: it writes, renames and removes no file, and the only
  commands it runs ask for versions, the worktrees, the remote and the labels.
\<close>

theorem check_is_read_only: "reads_only s (snd (run_state (preflight_check P home root) s))"
proof -
  have "state_io_rel reads_only (preflight_check P home root)"
    unfolding preflight_check_def run_checks_def check_gh_version_def check_pi_version_def Let_def
    by (intro reads_only.io_rules reads_only_version reads_only_git reads_only_scaffolding reads_only_config reads_only_credentials reads_only_labels
        reads_only_print_lines) (simp_all add: read_only_argv_def)
  then show ?thesis by (simp add: state_io_rel_def)
qed

section \<open>What setup mode does not do\<close>

text \<open>The name of the temporary file of an atomic write.\<close>

definition is_tmp :: "string \<Rightarrow> bool" where
  "is_tmp p \<longleftrightarrow> drop (length p - 4) p = ''.tmp''"

definition files_kept :: "pf_state \<Rightarrow> pf_state \<Rightarrow> bool" where
  "files_kept s t \<longleftrightarrow> (\<forall>p f. pf_files s p = Some f \<longrightarrow> \<not> is_tmp p \<longrightarrow> pf_files t p = Some f)"

interpretation kept: io_relation files_kept
proof
  show "files_kept s s" for s by (simp add: files_kept_def)
  show "files_kept s t \<Longrightarrow> files_kept t u \<Longrightarrow> files_kept s u" for s t u by (simp add: files_kept_def)
qed

definition stats_work :: "preflight_os \<Rightarrow> bool" where
  "stats_work P \<longleftrightarrow> (\<forall>h p. po_fs P h (FsStat p) = None)"

lemma is_tmp_append [simp]: "is_tmp (p @ ''.tmp'')"
  by (simp add: is_tmp_def)

lemma kept_quiet: "state_io_rel reads_only m \<Longrightarrow> state_io_rel files_kept m"
  by (auto simp: state_io_rel_def reads_only_def files_kept_def)

lemma kept_exec: "state_io_rel files_kept (pf_exec P c)"
  by (simp add: state_io_rel_def files_kept_def pf_exec_def Let_def)

lemma kept_mkdir: "state_io_rel files_kept (pf_fs P (FsMkdir p))"
  by (simp add: state_io_rel_def files_kept_def pf_fs_def Let_def fs_effect_def)

lemma run_pf_fs:
  "run_state (pf_fs P op) s =
     (po_fs P (pf_trace s) op,
      \<lparr>pf_files = (if po_fs P (pf_trace s) op = None then fs_effect op (pf_files s) else pf_files s),
       pf_trace = pf_trace s @ [PfFs op (po_fs P (pf_trace s) op)]\<rparr>)"
  by (simp add: pf_fs_def Let_def)

lemma run_pf_stat:
  "stats_work P \<Longrightarrow> run_state (pf_stat P p) s =
     (if pf_files s p = None then Missing else Exists, s\<lparr>pf_trace := pf_trace s @ [PfFs (FsStat p) None]\<rparr>)"
  by (simp add: pf_stat_def run_pf_fs stats_work_def fs_effect_def)

text \<open>A file is renamed over or written directly only where there was none.\<close>

lemma kept_write_file:
  assumes "stats_work P"
  shows "state_io_rel files_kept (write_file_atomic P p content perm)"
  unfolding state_io_rel_def write_file_atomic_def
  by (auto simp: run_pf_fs run_pf_stat [OF assms] fs_effect_def files_kept_def split: option.splits)

lemma kept_copy:
  assumes "stats_work P"
  shows "state_io_rel files_kept (copy_from_template P dir embedded name)"
  unfolding state_io_rel_def copy_from_template_def
  by (auto simp: run_pf_fs run_pf_stat [OF assms] fs_effect_def files_kept_def split: option.splits)

lemma kept_create_config: "stats_work P \<Longrightarrow> state_io_rel files_kept (create_config P p project)"
  unfolding create_config_def by (intro kept.io_rules kept_write_file)

lemma kept_stat: "state_io_rel files_kept (pf_stat P p)"
  by (rule kept_quiet [OF reads_only_stat])

lemma kept_scaffolding: "stats_work P \<Longrightarrow> state_io_rel files_kept (check_scaffolding P cm root)"
  unfolding check_scaffolding_def Let_def
  by (intro kept.io_rules kept_stat kept_create_config kept_mkdir kept_copy)

lemma kept_scaffold_credentials: "stats_work P \<Longrightarrow> state_io_rel files_kept (scaffold_credentials_if_needed P p project)"
  unfolding scaffold_credentials_if_needed_def by (intro kept.io_rules kept_stat kept_write_file)

lemma kept_whoami: "state_io_rel files_kept (gh_whoami P token)"
  unfolding gh_whoami_def by (intro kept.io_rules kept_exec)

lemma kept_credentials: "stats_work P \<Longrightarrow> state_io_rel files_kept (check_credentials P cm home root cached)"
  unfolding check_credentials_def check_credentials_check_mode_def Let_def
  by (intro kept.io_rules kept_quiet [OF reads_only_cached] kept_quiet [OF reads_only_load_credentials] kept_scaffold_credentials kept_whoami)

lemma kept_create_labels: "state_io_rel files_kept (create_labels P token existing ls)"
  by (induction ls) (auto intro!: kept.io_rules kept_exec)

lemma kept_labels: "state_io_rel files_kept (check_labels P cm home root cached)"
  unfolding check_labels_def create_missing_labels_def Let_def
  by (intro kept.io_rules kept_quiet [OF reads_only_cached] kept_quiet [OF reads_only_load_credentials]
      kept_quiet [OF reads_only_fetch_labels] kept_create_labels)

lemma kept_version: "state_io_rel files_kept (check_version P tool name)"
  unfolding check_version_def by (intro kept.io_rules kept_exec)

lemma kept_checks:
  assumes "stats_work P"
  shows "state_io_rel files_kept (run_checks P cm home root)"
  unfolding run_checks_def check_gh_version_def check_pi_version_def Let_def
  by (intro kept.io_rules kept_version kept_quiet [OF reads_only_git] kept_scaffolding [OF assms] kept_quiet [OF reads_only_config]
      kept_credentials [OF assms] kept_labels kept_quiet [OF reads_only_print_lines])

text \<open>
  C27: Setup mode overwrites nothing: as long as \<open>stat\<close> says the truth about files, every file that
  was there before keeps its content and its mode, except for temporary files left by another run.
\<close>

theorem setup_keeps_files:
  assumes "stats_work P"
  shows "files_kept s (snd (run_state (run_all P home root) s))"
  using kept_checks [OF assms] by (simp add: run_all_def state_io_rel_def)

definition sample_host :: preflight_os where
  "sample_host = \<lparr>po_exec = (\<lambda>_ _. Inl (msg_err ''not found'')), po_fs = (\<lambda>_ _. None), po_lookup = (\<lambda>_. None), po_template = (\<lambda>_. None)\<rparr>"

definition sample_store :: pf_state where
  "sample_store = \<lparr>pf_files = [''/r/app/.golemic/guidelines/dev.md'' \<mapsto> (''mine'', 384)], pf_trace = []\<rparr>"

theorem setup_keeps_files_witness:
  "pf_files (snd (run_state (run_all sample_host ''/h'' ''/r/app'') sample_store)) ''/r/app/.golemic/guidelines/dev.md'' =
     Some (''mine'', 384)"
  using setup_keeps_files [of sample_host sample_store "''/h''" "''/r/app''"]
  by (simp add: stats_work_def sample_host_def sample_store_def files_kept_def is_tmp_def)

section \<open>What the output says\<close>

definition check_names :: "string list" where
  "check_names =
     [''gh installiert'', ''pi installiert'', ''git'', scaffolding_name, ''config.json valide'', ''Credentials'', ''labels'']"

definition report_ok :: "check_outcome list \<times> pf_state \<Rightarrow> bool" where
  "report_ok out \<longleftrightarrow>
     (case out of (rs, s) \<Rightarrow>
        map co_name rs = check_names \<and>
        drop (length (pf_trace s) - 8) (pf_trace s) =
          map PfPrint (map result_line rs @ [if list_all co_ok rs then ''ok'' else ''failed'']))"

definition named :: "string \<Rightarrow> check_outcome pf \<Rightarrow> bool" where
  "named n m \<longleftrightarrow> (\<forall>s. co_name (fst (run_state m s)) = n)"

lemma named_simps [simp]: "co_name (ok_result n) = n" "co_name (failed_result n d) = n"
  by (simp_all add: ok_result_def failed_result_def)

lemma named_return: "co_name r = n \<Longrightarrow> named n (pf_return r)"
  by (simp add: named_def)

lemma named_bind: "(\<And>a. named n (f a)) \<Longrightarrow> named n (State_Monad.bind m f)"
  by (auto simp: named_def split: prod.split)

lemma named_if: "named n m \<Longrightarrow> named n m' \<Longrightarrow> named n (if c then m else m')"
  by simp

lemma named_option: "named n m \<Longrightarrow> (\<And>a. named n (f a)) \<Longrightarrow> named n (case x of None \<Rightarrow> m | Some a \<Rightarrow> f a)"
  by (cases x) simp_all

lemma named_sum: "(\<And>a. named n (f a)) \<Longrightarrow> (\<And>a. named n (g a)) \<Longrightarrow> named n (case x of Inl a \<Rightarrow> f a | Inr a \<Rightarrow> g a)"
  by (cases x) simp_all

lemmas named_rules = named_bind named_if named_option named_sum named_return

lemma named_version: "named name (check_version P tool name)"
  unfolding check_version_def by (intro named_rules) (simp split: sum.split option.split)

lemma named_remote_url [simp]: "co_name (check_remote_url url) = ''git''"
  by (simp add: check_remote_url_def)

lemma named_git: "named ''git'' (check_git P root)"
  unfolding check_git_def Let_def by (intro named_rules) (simp_all split: sum.split option.split)

lemma named_scaffolding: "named scaffolding_name (check_scaffolding P cm root)"
  unfolding check_scaffolding_def Let_def by (intro named_rules) simp_all

lemma named_config: "co_name (fst (fst (run_state (check_config P root) s))) = ''config.json valide''"
  by (simp add: check_config_def split_beta split: sum.split)

lemma named_credentials: "named ''Credentials'' (check_credentials P cm home root cached)"
  unfolding check_credentials_def check_credentials_check_mode_def Let_def by (intro named_rules) (simp_all split: sum.split)

lemma named_labels: "named ''labels'' (check_labels P cm home root cached)"
  unfolding check_labels_def Let_def by (intro named_rules) simp_all

lemma namedD: "named n m \<Longrightarrow> run_state m s = (r, t) \<Longrightarrow> co_name r = n"
  by (metis fst_conv named_def)

lemma run_print_lines: "run_state (print_lines ls) s = ((), s\<lparr>pf_trace := pf_trace s @ map PfPrint ls\<rparr>)"
  by (induction ls arbitrary: s) (simp_all add: pf_print_def)

text \<open>
  Both modes run the seven checks, whatever the outcome of the ones before, and print one line for
  each in their order and then \<open>ok\<close> exactly when all passed.
\<close>

theorem checks_are_reported: "report_ok (run_state (run_checks P check_mode home root) s)"
proof -
  obtain r1 s1 where 1: "run_state (check_version P ''gh'' ''gh installiert'') s = (r1, s1)" by fastforce
  obtain r2 s2 where 2: "run_state (check_version P ''pi'' ''pi installiert'') s1 = (r2, s2)" by fastforce
  obtain r3 s3 where 3: "run_state (check_git P root) s2 = (r3, s3)" by fastforce
  obtain r4 s4 where 4: "run_state (check_scaffolding P check_mode root) s3 = (r4, s4)" by fastforce
  obtain r5 cached s5 where 5: "run_state (check_config P root) s4 = ((r5, cached), s5)"
    by (metis prod.exhaust)
  obtain r6 s6 where 6: "run_state (check_credentials P check_mode home root cached) s5 = (r6, s6)" by fastforce
  obtain r7 s7 where 7: "run_state (check_labels P check_mode home root cached) s6 = (r7, s7)" by fastforce
  have "co_name r5 = ''config.json valide''" using named_config [of P root s4] 5 by simp
  then show ?thesis
    using namedD [OF named_version 1] namedD [OF named_version 2] namedD [OF named_git 3] namedD [OF named_scaffolding 4]
      namedD [OF named_credentials 6] namedD [OF named_labels 7]
    by (simp add: run_checks_def check_gh_version_def check_pi_version_def 1 2 3 4 5 6 7 report_ok_def check_names_def
        all_ok_def Let_def run_print_lines del: print_lines.simps)
qed

section \<open>The URL of the remote\<close>

lemma mask_url_plain: "\<not> has_prefix ''https://'' url \<Longrightarrow> mask_url url = url"
  by (simp add: mask_url_def)

text \<open>The answer of the last command of a check.\<close>

definition remote_url :: "pf_event list \<Rightarrow> string option" where
  "remote_url h =
     (case h of [] \<Rightarrow> None
      | _ \<Rightarrow> (case last h of
            PfRun c (Inr out) \<Rightarrow>
              if cmd_argv c = [''git'', ''config'', ''--get'', ''remote.origin.url''] then Some (trim_space out) else None
          | _ \<Rightarrow> None))"

definition url_shown :: "check_outcome \<Rightarrow> string \<Rightarrow> bool" where
  "url_shown r url \<longleftrightarrow>
     url = [] \<or> (has_prefix ''https://'' url \<and> \<not> is_ssh_url url) \<or>
     (\<not> co_ok r \<and> drop (length (co_details r) - length url) (co_details r) = url)"

definition shows_url :: "check_outcome \<times> pf_state \<Rightarrow> bool" where
  "shows_url out \<longleftrightarrow>
     (case remote_url (pf_trace (snd out)) of None \<Rightarrow> True | Some url \<Rightarrow> url_shown (fst out) url)"

lemma remote_url_snoc [simp]:
  "remote_url (h @ [PfRun c (Inl e)]) = None"
  "remote_url (h @ [PfRun c (Inr out)]) =
     (if cmd_argv c = [''git'', ''config'', ''--get'', ''remote.origin.url''] then Some (trim_space out) else None)"
  by (cases h; simp add: remote_url_def)+

lemma ssh_not_https: "is_ssh_url url \<Longrightarrow> \<not> has_prefix ''https://'' url"
  by (cases url) (auto simp: is_ssh_url_def has_prefix_def)

text \<open>
  The message about a remote that is not HTTPS shows its URL in full, a token in it included: the
  masking only works on the URLs that pass the check.
\<close>

theorem remote_url_is_shown: "shows_url (run_state (check_git P root) s)"
proof -
  have shown: "url_shown (check_remote_url url) url" for url
    using ssh_not_https [of url] by (auto simp: url_shown_def check_remote_url_def failed_result_def mask_url_plain)
  have run: "run_state (pf_exec P c) t = (po_exec P (pf_trace t) c, t\<lparr>pf_trace := pf_trace t @ [PfRun c (po_exec P (pf_trace t) c)]\<rparr>)" for c t
    by (simp add: pf_exec_def Let_def)
  obtain x1 t1 where 1: "run_state (pf_exec P (Cmd [] [] [''git'', ''--version''])) s = (x1, t1)" by fastforce
  obtain x2 t2 where 2: "run_state (pf_exec P (Cmd [] root [''git'', ''worktree'', ''list''])) t1 = (x2, t2)" by fastforce
  let ?ask = "Cmd [] root [''git'', ''config'', ''--get'', ''remote.origin.url'']"
  obtain x3 t3 where 3: "run_state (pf_exec P ?ask) t2 = (x3, t3)" by fastforce
  have "pf_trace t1 = pf_trace s @ [PfRun (Cmd [] [] [''git'', ''--version'']) x1]"
      "pf_trace t2 = pf_trace t1 @ [PfRun (Cmd [] root [''git'', ''worktree'', ''list'']) x2]"
      "pf_trace t3 = pf_trace t2 @ [PfRun ?ask x3]"
    using 1 2 3 by (auto simp: run)
  then have "shows_url (r, t1)" "shows_url (r, t2)" "shows_url (case x3 of Inl e \<Rightarrow> r | Inr out \<Rightarrow> check_remote_url (trim_space out), t3)" for r
    by (cases x1; cases x2; cases x3; simp add: shows_url_def shown del: append_assoc)+
  then show ?thesis
    by (cases x1; cases x2; cases x3; simp add: check_git_def 1 2 3)
qed

end
