(* ===== verification/Progress.thy ===== *)
theory Progress
  imports Health Loop Cbm_Broker
begin

text \<open>
  The progress lines of a run (\<open>internal/progress\<close>, \<open>runner_progress.go\<close>): one line for each event of
  the log and each tool call of an agent, and the reading of the growing activity file and event
  log that produces them. The glyphs are their UTF-8 bytes; \<open>V\<close> is what the verb \<open>%v\<close> prints for a
  JSON value that is no string.
\<close>

section \<open>Lines for events\<close>

definition g_play :: string where "g_play = [CHR 0xE2, CHR 0x96, CHR 0xB6, CHR '' '']"
definition g_check :: string where "g_check = [CHR 0xE2, CHR 0x9C, CHR 0x94, CHR '' '']"
definition g_cross :: string where "g_cross = [CHR 0xE2, CHR 0x9C, CHR 0x96, CHR '' '']"
definition g_again :: string where "g_again = [CHR 0xE2, CHR 0x86, CHR 0xBB, CHR '' '']"
definition g_dot :: string where "g_dot = [CHR '' '', CHR 0xC2, CHR 0xB7, CHR '' '']"
definition g_more :: string where "g_more = [CHR 0xE2, CHR 0x80, CHR 0xA6]"

text \<open>\<open>StepKey\<close> and \<open>EventKey\<close> are strings; one that names no key has no label and is not terminal.\<close>

definition step_of :: "string \<Rightarrow> step_key option" where
  "step_of s = find (\<lambda>k. step_name k = s) all_steps"

definition event_of :: "string \<Rightarrow> event_key option" where
  "event_of s = find (\<lambda>k. event_name k = s) all_events"

definition label_or :: "('k \<Rightarrow> string \<times> bool) \<Rightarrow> 'k option \<Rightarrow> string \<Rightarrow> string" where
  "label_or f k raw = (case k of None \<Rightarrow> raw | Some k \<Rightarrow> (case f k of (l, found) \<Rightarrow> if found then l else raw))"

definition format_step_transition_line :: "string \<Rightarrow> string \<Rightarrow> string \<Rightarrow> bool \<Rightarrow> string" where
  "format_step_transition_line from event to_step guarded =
     (let to_label = label_or step_label (step_of to_step) to_step in
      if (case step_of to_step of Some k \<Rightarrow> is_terminal_step k | None \<Rightarrow> False)
      then (if (case step_of to_step of Some k \<Rightarrow> is_success_terminal k | None \<Rightarrow> False)
            then g_check @ to_label else g_cross @ to_label)
      else if from = to_step \<and> guarded
      then g_again @ to_label @ '' ('' @ label_or event_label (event_of event) event @ '')''
      else g_play @ to_label)"

definition fmt_step_transition :: "json \<Rightarrow> string" where
  "fmt_step_transition p =
     (case (get_str ''from'' p, get_str ''event'' p, get_str ''to'' p, get_bool ''guarded'' p) of
        (Some f, Some e, Some t, Some g) \<Rightarrow>
          if t = [] then g_play @ ''step_transition'' else format_step_transition_line f e t g
      | _ \<Rightarrow> g_play @ ''step_transition'')"

text \<open>The formatters with one text field, which differ in the field, the line and the fallback.\<close>

definition with_text :: "string \<Rightarrow> (string \<Rightarrow> string) \<Rightarrow> string \<Rightarrow> json \<Rightarrow> string" where
  "with_text field line fallback p =
     (case get_str field p of
        Some v \<Rightarrow> if v \<noteq> [] then g_play @ line v else g_play @ fallback
      | None \<Rightarrow> g_play @ fallback)"

definition fmt_run_started :: "json \<Rightarrow> string" where
  "fmt_run_started p =
     (case (get_int ''issue'' p, get_str ''runId'' p) of
        (Some n, Some r) \<Rightarrow>
          if n > 0 then g_play @ ''run started (issue #'' @ itoa n @ '', runId '' @ r @ '')'' else g_play @ ''run started''
      | _ \<Rightarrow> g_play @ ''run started'')"

definition fmt_worktree_created :: "json \<Rightarrow> string" where
  "fmt_worktree_created = with_text ''role'' (\<lambda>v. ''worktree ready ('' @ v @ '')'') ''worktree ready''"

definition fmt_agent_completed :: "json \<Rightarrow> string" where
  "fmt_agent_completed p =
     (case (get_str ''role'' p, get_int ''exitCode'' p) of
        (Some r, Some n) \<Rightarrow>
          if r \<noteq> [] then g_play @ r @ '' completed (exit '' @ itoa n @ '')'' else g_play @ ''agent completed''
      | _ \<Rightarrow> g_play @ ''agent completed'')"

definition fmt_pr_opened :: "json \<Rightarrow> string" where
  "fmt_pr_opened = with_text ''prNumber'' (\<lambda>v. ''PR #'' @ v @ '' opened'') ''PR opened''"

definition fmt_review_submitted :: "json \<Rightarrow> string" where
  "fmt_review_submitted = with_text ''verdict'' (\<lambda>v. ''review: '' @ v) ''review submitted''"

definition fmt_ci_wait_finished :: "json \<Rightarrow> string" where
  "fmt_ci_wait_finished = with_text ''result'' (\<lambda>v. ''CI '' @ v) ''CI finished''"

text \<open>A field of any type; a value that does not decode (a number out of range) is \<open>None\<close> of \<open>V\<close>.\<close>

definition fmt_pr_merged :: "(json \<Rightarrow> string option) \<Rightarrow> json \<Rightarrow> string" where
  "fmt_pr_merged V p =
     (case get_field (\<lambda>_ v. Some v) JNull ''prNumber'' p of
        Some v \<Rightarrow>
          (case v of
             JNull \<Rightarrow> g_play @ ''PR merged''
           | JStr s \<Rightarrow> g_play @ ''PR #'' @ s @ '' merged''
           | _ \<Rightarrow> (case V v of Some t \<Rightarrow> g_play @ ''PR #'' @ t @ '' merged'' | None \<Rightarrow> g_play @ ''PR merged''))
      | None \<Rightarrow> g_play @ ''PR merged'')"

definition fmt_automerge_skipped :: "json \<Rightarrow> string" where
  "fmt_automerge_skipped = with_text ''reason'' (\<lambda>v. ''automerge skipped ('' @ v @ '')'') ''automerge skipped''"

definition fmt_automerge_failed :: "json \<Rightarrow> string" where
  "fmt_automerge_failed = with_text ''reason'' (\<lambda>v. ''automerge failed ('' @ v @ '')'') ''automerge failed''"

definition fmt_conflict_retry :: "json \<Rightarrow> string" where
  "fmt_conflict_retry = with_text ''result'' (\<lambda>v. ''conflict retry ('' @ v @ '')'') ''conflict retry''"

definition fmt_issue_claimed :: "json \<Rightarrow> string" where
  "fmt_issue_claimed p =
     (case get_int ''issue_number'' p of
        Some n \<Rightarrow> if n > 0 then g_play @ ''issue #'' @ itoa n @ '' claimed'' else g_play @ ''issue claimed''
      | None \<Rightarrow> g_play @ ''issue claimed'')"

definition fmt_issue_released :: "json \<Rightarrow> string" where
  "fmt_issue_released p =
     (case (get_int ''issue_number'' p, get_str ''reason'' p) of
        (Some n, Some r) \<Rightarrow>
          if n > 0 then g_play @ ''issue #'' @ itoa n @ '' released ('' @ r @ '')'' else g_play @ ''issue released''
      | _ \<Rightarrow> g_play @ ''issue released'')"

definition fmt_run_finished :: "json \<Rightarrow> string" where
  "fmt_run_finished = with_text ''outcome'' (\<lambda>v. ''run finished ('' @ v @ '')'') ''run finished''"

definition lifecycle_formatters :: "(json \<Rightarrow> string option) \<Rightarrow> (string \<times> (json \<Rightarrow> string)) list" where
  "lifecycle_formatters V =
     [(EventRunStarted, fmt_run_started), (EventWorktreeCreated, fmt_worktree_created),
      (EventStepTransition, fmt_step_transition), (EventAgentCompleted, fmt_agent_completed),
      (EventPROpened, fmt_pr_opened), (EventReviewSubmitted, fmt_review_submitted),
      (EventCIWaitFinished, fmt_ci_wait_finished), (EventPRMerged, fmt_pr_merged V),
      (EventAutomergeSkipped, fmt_automerge_skipped), (EventAutomergeFailed, fmt_automerge_failed),
      (EventAutomergeConflictRetry, fmt_conflict_retry), (EventIssueClaimed, fmt_issue_claimed),
      (EventIssueReleased, fmt_issue_released), (EventRunFinished, fmt_run_finished)]"

text \<open>An absent payload is the empty text, which no formatter can decode; an array stands for it here.\<close>

definition format_lifecycle_line :: "(json \<Rightarrow> string option) \<Rightarrow> event \<Rightarrow> string" where
  "format_lifecycle_line V e =
     (case map_of (lifecycle_formatters V) (ev_type e) of
        Some f \<Rightarrow> f (case ev_payload e of Some p \<Rightarrow> p | None \<Rightarrow> JArr [])
      | None \<Rightarrow> g_play @ ev_type e)"

section \<open>Lines for tool calls\<close>

definition maxArgsPreview :: nat where
  "maxArgsPreview = 120"

definition replace_breaks :: "string \<Rightarrow> string" where
  "replace_breaks s = map (\<lambda>c. if c = newline \<or> c = CHR 0x0D then CHR '' '' else c) s"

fun replace_crlf :: "string \<Rightarrow> string" where
  "replace_crlf (c # d # s) =
     (if c = CHR 0x0D \<and> d = newline then CHR '' '' # replace_crlf s else c # replace_crlf (d # s))"
| "replace_crlf s = s"

definition trim_preview :: "string \<Rightarrow> string" where
  "trim_preview s =
     (let t = replace_breaks (replace_crlf s) in if length t > maxArgsPreview then take maxArgsPreview t @ g_more else t)"

definition extract_string :: "string \<Rightarrow> string" where
  "extract_string raw =
     (if raw = [] then [] else (case unmarshal_into (dec_str []) raw of Some s \<Rightarrow> s | None \<Rightarrow> raw))"

text \<open>\<open>map[string]json.RawMessage\<close>: the texts of the members; \<open>null\<close> is the nil map.\<close>

definition args_preview :: "string \<Rightarrow> string \<Rightarrow> string" where
  "args_preview tool raw =
     (case unmarshal raw of
        Some (JObj _) \<Rightarrow>
          (let args = raw_object raw; member = (\<lambda>k. case map_of args k of Some t \<Rightarrow> t | None \<Rightarrow> []) in
           if tool = ''bash'' then trim_preview (extract_string (member ''command''))
           else if tool \<in> {''read'', ''write'', ''edit''} then trim_preview (extract_string (member ''path''))
           else trim_preview (raw_object_text args))
      | Some JNull \<Rightarrow> if tool \<in> {''bash'', ''read'', ''write'', ''edit''} then trim_preview [] else trim_preview ''null''
      | _ \<Rightarrow> trim_preview raw)"

definition format_tool_call_line :: "string \<Rightarrow> string \<Rightarrow> string \<Rightarrow> string" where
  "format_tool_call_line role tool raw = role @ g_dot @ tool @ '': '' @ args_preview tool raw"

section \<open>The frame around a prompt\<close>

definition agentContextPreviewLines :: nat where
  "agentContextPreviewLines = 12"

definition g_bar :: string where "g_bar = [CHR 0xE2, CHR 0x94, CHR 0x82, CHR '' '']"

record agent_context =
  ax_role :: string
  ax_model :: string
  ax_round :: int
  ax_attempt :: int
  ax_prompt :: string
  ax_prompt_file :: string
  ax_verbose :: bool

definition prompt_lines :: "string \<Rightarrow> string list" where
  "prompt_lines p = (let ls = split_on newline p in if last ls = [] then butlast ls else ls)"

definition format_agent_context :: "agent_context \<Rightarrow> string" where
  "format_agent_context p =
     (let lines = prompt_lines (ax_prompt p);
          header = [CHR 0xE2, CHR 0x94, CHR 0x8C, CHR 0xE2, CHR 0x94, CHR 0x80, CHR '' ''] @ ax_role p @ g_dot @ ax_model p @ g_dot @
            ''r'' @ itoa (ax_round p) @ ''/a'' @ itoa (ax_attempt p);
          body = (if ax_verbose p \<or> length lines \<le> agentContextPreviewLines then map (\<lambda>l. g_bar @ l) lines
                  else map (\<lambda>l. g_bar @ l) (take agentContextPreviewLines lines) @
                    [g_bar @ g_more @ '' ('' @ itoa (int (length lines - agentContextPreviewLines)) @ '' more lines omitted)'']);
          arrow = g_bar @ [CHR 0xE2, CHR 0x86, CHR 0x92, CHR '' ''] @ ax_prompt_file p
      in header @ concat (map (\<lambda>l. newline # l) (body @ [arrow])) @
           [newline, CHR 0xE2, CHR 0x94, CHR 0x94, CHR 0xE2, CHR 0x94, CHR 0x80])"

section \<open>Following the files\<close>

text \<open>\<open>activityEntry\<close>: type, tool and the text of the arguments.\<close>

definition dec_activity :: "string \<Rightarrow> (string \<times> string \<times> string) option" where
  "dec_activity line =
     (case unmarshal line of
        None \<Rightarrow> None
      | Some j \<Rightarrow>
          (case (get_str ''type'' j, get_str ''toolName'' j) of
             (Some ty, Some tool) \<Rightarrow> Some (ty, tool, raw_field ''args'' line)
           | _ \<Rightarrow> None))"

definition tool_call_lines :: "string \<Rightarrow> string \<Rightarrow> string list" where
  "tool_call_lines role line =
     (case dec_activity line of
        Some (ty, tool, args) \<Rightarrow>
          if ty = ''tool_execution_start'' \<and> tool \<noteq> [] then [format_tool_call_line role tool args] else []
      | None \<Rightarrow> [])"

text \<open>The lines that are printed, and the number of lines read; \<open>None\<close> is a file that cannot be opened.\<close>

definition emit_new_tool_calls :: "string \<Rightarrow> string option \<Rightarrow> nat \<Rightarrow> string list \<times> nat" where
  "emit_new_tool_calls role file start =
     (case file of
        None \<Rightarrow> ([], start)
      | Some content \<Rightarrow>
          (let ls = scanned_lines content in (concat (map (tool_call_lines role) (drop start ls)), length ls)))"

text \<open>The follower sees the file at each tick, and once more when it is stopped.\<close>

fun follow_activity :: "string \<Rightarrow> nat \<Rightarrow> string option list \<Rightarrow> string list" where
  "follow_activity role n [] = []"
| "follow_activity role n (f # fs) =
     (case emit_new_tool_calls role f n of (out, m) \<Rightarrow> out @ follow_activity role m fs)"

definition agentWrittenTypes :: "string list" where
  "agentWrittenTypes = [EventPROpened, EventReviewSubmitted, EventIssueClaimed, EventIssueReleased]"

text \<open>\<open>emitAgentWrittenEvents\<close>: what the log reads as, and the index that was reached.\<close>

definition emit_agent_written_events ::
  "(json \<Rightarrow> string option) \<Rightarrow> bool \<Rightarrow> event list result \<Rightarrow> nat \<Rightarrow> string list \<times> nat" where
  "emit_agent_written_events V is_quiet log index =
     (if is_quiet then ([], index)
      else (case log of
         Inl _ \<Rightarrow> ([], index)
       | Inr es \<Rightarrow>
           (map (format_lifecycle_line V) (filter (\<lambda>e. ev_type e \<in> set agentWrittenTypes) (drop index es)), length es)))"

text \<open>\<open>progressEventWriter.Write\<close>: the line is printed when the event was written.\<close>

definition progress_write :: "(json \<Rightarrow> string option) \<Rightarrow> bool \<Rightarrow> event \<Rightarrow> event list \<Rightarrow> gerr option \<times> event list \<times> string list" where
  "progress_write V io_ok e log =
     (case log_write io_ok e log of
        (None, log') \<Rightarrow> (None, log', [format_lifecycle_line V e])
      | (Some err, log') \<Rightarrow> (Some err, log', []))"

section \<open>Properties\<close>

lemma replace_breaks_one_line: "newline \<notin> set (replace_breaks s) \<and> CHR 0x0D \<notin> set (replace_breaks s)"
  by (auto simp: replace_breaks_def newline_def)

lemma trim_preview_bound: "length (trim_preview s) \<le> maxArgsPreview + 3"
  by (simp add: trim_preview_def Let_def g_more_def)

lemma trim_preview_one_line: "newline \<notin> set (trim_preview s)"
  using replace_breaks_one_line [of "replace_crlf s"]
  by (auto simp: trim_preview_def Let_def g_more_def newline_def dest: in_set_takeD)

lemma args_preview_shape: "\<exists>s. args_preview tool raw = trim_preview s"
  by (auto simp: args_preview_def Let_def split: option.split json.split)

definition tool_line_ok :: "string \<Rightarrow> string \<Rightarrow> string \<Rightarrow> bool" where
  "tool_line_ok role tool line \<longleftrightarrow>
     length line \<le> length role + length tool + length g_dot + 2 + maxArgsPreview + 3 \<and>
     (newline \<notin> set line \<or> newline \<in> set role \<or> newline \<in> set tool)"

text \<open>
  The line of a tool call is one line, whatever the agent put into the arguments, and at most 123
  bytes longer than the role, the tool and what separates them.
\<close>

theorem tool_call_line_bounded: "tool_line_ok role tool (format_tool_call_line role tool raw)"
proof -
  obtain s where "args_preview tool raw = trim_preview s" using args_preview_shape by blast
  then show ?thesis
    using trim_preview_bound [of s] trim_preview_one_line [of s]
    by (auto simp: tool_line_ok_def format_tool_call_line_def g_dot_def newline_def)
qed

text \<open>A line of the log is not: the texts of the payload are printed as they are.\<close>

definition broken_event :: event where
  "broken_event =
     \<lparr>ev_type = EventAutomergeFailed, ev_ts = [], ev_run_id = [], ev_turn_id = 0,
      ev_payload = Some (JObj [(''reason'', JStr (''exit code 1:'' @ [newline] @ ''GraphQL''))])\<rparr>"

text \<open>
  A progress line of an event can break into several: the reason of a failed merge is printed as it
  is, line breaks included.
\<close>

theorem lifecycle_line_breaks: "newline \<in> set (format_lifecycle_line V broken_event)"
  by (simp add: format_lifecycle_line_def lifecycle_formatters_def broken_event_def fmt_automerge_failed_def with_text_def
      json_dec_defs newline_def EventRunStarted_def EventWorktreeCreated_def EventStepTransition_def EventAgentCompleted_def
      EventPROpened_def EventReviewSubmitted_def EventCIWaitFinished_def EventPRMerged_def EventAutomergeSkipped_def
      EventAutomergeFailed_def)


definition file_of :: "string list \<Rightarrow> string" where
  "file_of ls = concat (map (\<lambda>l. l @ [newline]) ls)"

definition plain_line :: "string \<Rightarrow> bool" where
  "plain_line l \<longleftrightarrow> newline \<notin> set l \<and> CHR 0x0D \<notin> set l \<and> length l < activity_limit"

lemma scanned_file:
  assumes "list_all plain_line ls"
  shows "scanned_lines (file_of ls) = ls"
proof -
  have cr: "drop_cr l = l" if "plain_line l" for l
    using that by (auto simp: plain_line_def drop_cr_def dest: last_in_set)
  have "split_on newline (file_of ls) = ls @ [[]]"
    unfolding file_of_def using assms by (intro split_lines) (auto simp: list_all_iff plain_line_def)
  moreover have "map drop_cr ls = ls"
    using assms by (intro map_idI) (auto simp: list_all_iff cr)
  moreover have "takeWhile (\<lambda>l. length l < activity_limit) ls = ls"
    using assms by (auto simp: takeWhile_eq_all_conv list_all_iff plain_line_def)
  ultimately show ?thesis by (simp add: scanned_lines_def del: takeWhile_eq_all_conv)
qed





definition tool_start_json :: json where
  "tool_start_json =
     JObj [(''type'', JStr ''tool_execution_start''), (''toolName'', JStr ''bash''), (''args'', JObj [(''command'', JStr ''ls'')])]"

lemma tool_start_plain: "plain_line (json_text tool_start_json)"
  by (simp add: plain_line_def tool_start_json_def newline_def quote_string_def escape_char_def activity_limit_def)

lemma tool_start_printed: "tool_call_lines role (json_text tool_start_json) \<noteq> []"
proof -
  have wf: "wf_json tool_start_json" by (simp add: tool_start_json_def)
  have "unmarshal (json_text tool_start_json) = Some tool_start_json"
    using unmarshal_into_text [OF wf, of Some] by (auto simp: unmarshal_into_def split: option.splits)
  then show ?thesis
    by (simp add: tool_call_lines_def dec_activity_def tool_start_json_def json_dec_defs to_lower_def to_lower_char_def)
qed

lemma partial_first_line: "scanned_lines [c] = (if c = newline then [[]] else if c = CHR 0x0D then [[]] else [[c]])"
  by (simp add: scanned_lines_def newline_def drop_cr_def activity_limit_def)

lemma brace_no_call: "tool_call_lines role ''{'' = []"
proof -
  have "unmarshal ''{'' = None" by code_simp
  then show ?thesis by (simp add: tool_call_lines_def dec_activity_def)
qed

text \<open>
  A poll that falls into the write of a line counts the part that is there as a line, so the tool
  call it was the start of is never printed, not even by the last read; one poll of the finished file
  prints it.
\<close>

theorem partial_line_is_lost:
  "follow_activity role 0 [Some ''{'', Some (file_of [json_text tool_start_json]), Some (file_of [json_text tool_start_json])] = [] \<and>
   follow_activity role 0 [Some (file_of [json_text tool_start_json])] \<noteq> []"
proof -
  have f: "scanned_lines (file_of [json_text tool_start_json]) = [json_text tool_start_json]"
    by (rule scanned_file) (simp add: tool_start_plain)
  have p: "scanned_lines ''{'' = [''{'']"
    by (simp add: partial_first_line newline_def)
  show ?thesis
    by (simp add: emit_new_tool_calls_def f p brace_no_call tool_start_printed)
qed

end
