(* ===== verification/Prompt.thy ===== *)
theory Prompt
  imports Steps
begin

text \<open>
  The prompts of the agents (\<open>internal/prompt/prompt.go\<close>) and the choice among them
  (\<open>renderDevPrompt\<close>, \<open>renderReviewerPrompt\<close>). A template of \<open>text/template\<close> is its parse tree over the
  actions that the source uses; the texts are those of the source, piece by piece, with names for the
  characters that are not ASCII. The data of a template is the value of its Go struct.
\<close>

section \<open>Templates\<close>

datatype tvalue =
    TStr string
  | TInt int
  | TBool bool
  | TList "tvalue list"
  | TStruct "(string \<times> tvalue) list"

text \<open>\<open>{{.A.B}}\<close> is \<open>Put\<close>, \<open>{{if .A}}\<close> is \<open>When\<close>, \<open>{{range .A}}\<close> is \<open>Each\<close>; \<open>{{.}}\<close> is the empty path.\<close>

datatype tnode =
    Txt "string list"
  | Put "string list"
  | When "string list" "tnode list"
  | Each "string list" "tnode list"

fun field_of :: "tvalue \<Rightarrow> string list \<Rightarrow> tvalue option" where
  "field_of v [] = Some v"
| "field_of (TStruct fs) (f # p) = (case map_of fs f of None \<Rightarrow> None | Some v \<Rightarrow> field_of v p)"
| "field_of v (f # p) = None"

fun is_true :: "tvalue \<Rightarrow> bool" where
  "is_true (TStr s) \<longleftrightarrow> s \<noteq> []"
| "is_true (TInt i) \<longleftrightarrow> i \<noteq> 0"
| "is_true (TBool b) \<longleftrightarrow> b"
| "is_true (TList vs) \<longleftrightarrow> vs \<noteq> []"
| "is_true (TStruct fs) \<longleftrightarrow> True"

fun print_value :: "tvalue \<Rightarrow> string" where
  "print_value (TStr s) = s"
| "print_value (TInt i) = itoa i"
| "print_value (TBool b) = bool_text b"
| "print_value (TList vs) = CHR ''['' # join_with '' '' (map print_value vs) @ '']''"
| "print_value (TStruct fs) = CHR 0x7B # join_with '' '' (map (\<lambda>fv. print_value (snd fv)) fs) @ [CHR 0x7D]"

fun join_opts :: "string option list \<Rightarrow> string option" where
  "join_opts [] = Some []"
| "join_opts (None # xs) = None"
| "join_opts (Some s # xs) = map_option ((@) s) (join_opts xs)"

text \<open>\<open>Execute\<close>; \<open>None\<close> is an error, as that of a field that the data does not have.\<close>

fun exec_node :: "tvalue \<Rightarrow> tnode \<Rightarrow> string option" where
  "exec_node dot (Txt ps) = Some (concat ps)"
| "exec_node dot (Put p) = map_option print_value (field_of dot p)"
| "exec_node dot (When p ns) =
     (case field_of dot p of
        None \<Rightarrow> None
      | Some v \<Rightarrow> if is_true v then join_opts (map (exec_node dot) ns) else Some [])"
| "exec_node dot (Each p ns) =
     (case field_of dot p of
        Some (TList vs) \<Rightarrow> join_opts (map (\<lambda>v. join_opts (map (exec_node v) ns)) vs)
      | _ \<Rightarrow> None)"

definition execute_template :: "tnode list \<Rightarrow> tvalue \<Rightarrow> string option" where
  "execute_template ns dot = join_opts (map (exec_node dot) ns)"

section \<open>The texts\<close>

definition nl :: string where "nl = [newline]"
definition bt :: string where "bt = ''`''"
definition g_dash :: string where "g_dash = [CHR 0xE2, CHR 0x80, CHR 0x94]"
definition g_range :: string where "g_range = [CHR 0xE2, CHR 0x80, CHR 0x93]"
definition backslash :: string where "backslash = [CHR 0x5C]"

definition workingDirDirective :: "string list" where
  "workingDirDirective =
     [''## Working Directory'', nl, nl, ''Your '', bt, ''bash'', bt, '' tool starts each invocation with '', bt,
      ''cwd'', bt, '' already set to the worktree root. Do **not** prefix commands with '', bt, ''cd <path>'', bt,
      '' '', g_dash,
      '' it wastes tokens and clutters the run's progress display. If you must operate in a subdirectory for a single call, use a subshell, e.g. '',
      bt, ''(cd internal/foo && go test ./...)'', bt, ''.'']"

definition editOverWriteDirective :: "string list" where
  "editOverWriteDirective =
     [''## File Edits'', nl, nl, ''Prefer the '', bt, ''edit'', bt, '' tool over '', bt, ''write'', bt,
      '' when modifying a file that already exists. Reserve '', bt, ''write'', bt,
      '' for new files or when replacing substantially all of a file's content. A full-file '', bt, ''write'', bt,
      '' re-emits the entire file into the run context and grows tokens over a long run.'']"

definition noReReadDirective :: "string list" where
  "noReReadDirective =
     [''## File Re-reads'', nl, nl,
      ''Keep track of files you have already read during this run. Do **not** re-read an unchanged file in full '',
      g_dash,
      '' re-reading re-emits the whole file into the run context and grows tokens over a long run. If you only need part of a file, use a targeted '',
      bt, ''read'', bt,
      '' range (offset/limit) or a code-intelligence tool lookup instead. A fresh full read is correct when the file has changed since you last read it (e.g. after an '',
      bt, ''edit'', bt, '', '', bt, ''write'', bt, '', or a command that rewrote it).'']"

definition targetedCheckDirective :: "string list" where
  "targetedCheckDirective =
     [''## Targeted Verification'', nl, nl, ''During implementation, verify incrementally with '', bt, ''bash'', bt,
      '' commands scoped to the packages or files you changed (for a Go worktree, e.g. '', bt,
      ''go test ./internal/foo'', bt, ''). Do **not** re-run the full verification command after every edit '',
      g_dash, '' it is slow and wastes tokens. When you believe the change is complete, run '', bt,
      ''gm_project_check'', bt, '' once to confirm, and iterate only if it reports a failure. The full '', bt,
      ''gm_project_check'', bt, '' is the gate-qualifying step: '', bt, ''gm_dev_done'', bt,
      '' is not accepted unless the last '', bt, ''gm_project_check'', bt,
      '' was green with a matching working-tree fingerprint.'']"

definition scaffoldFrame :: "tnode list" where
  "scaffoldFrame =
     [
      Txt [''---'', nl,
        nl,
        ''## Guidelines'', nl,
        nl],
      Put [''Guidelines''],
      Txt [nl],
      When [''CodebaseMemory''] [
        Txt [nl,
          ''---'', nl,
          nl,
          ''## Code Intelligence'', nl,
          nl,
          ''The worktree is indexed into a code-intelligence graph. Use the following tools for structural exploration '',
          g_dash, '' they answer in one call instead of many:'', nl,
          nl,
          ''- '', bt, ''gm_code_search_graph'', bt, '' '', g_dash,
          '' find functions, classes, routes, variables (BM25 / regex / vector)'', nl,
          ''- '', bt, ''gm_code_search'', bt, '' '', g_dash, '' grep + graph enrichment for text patterns'', nl,
          ''- '', bt, ''gm_code_get_snippet'', bt, '' '', g_dash, '' read source for a qualified name'', nl,
          ''- '', bt, ''gm_code_trace_call_path'', bt, '' '', g_dash, '' trace callers/callees or data-flow paths'',
          nl,
          ''- '', bt, ''gm_code_query_graph'', bt, '' '', g_dash, '' Cypher query for multi-hop patterns'', nl,
          ''- '', bt, ''gm_code_get_architecture'', bt, '' '', g_dash,
          '' high-level overview: packages, clusters, entry points'', nl,
          ''- '', bt, ''gm_code_get_graph_schema'', bt, '' '', g_dash, '' node labels and edge types'', nl,
          ''- '', bt, ''gm_code_detect_changes'', bt, '' '', g_dash, '' detect files/symbols changed since a ref'', nl]],
      Txt [nl,
        ''---'', nl,
        nl],
      Put [''Directives''],
      Txt [nl,
        nl,
        ''---'', nl,
        nl,
        ''## Instructions'']]"

definition devUserTemplate :: "tnode list" where
  "devUserTemplate =
     [
      Txt [''# Task: Implement Issue #''],
      Put [''Issue'', ''Number''],
      Txt [nl,
        nl,
        ''**Title:** ''],
      Put [''Issue'', ''Title''],
      Txt [nl,
        nl,
        ''**Branch:** ''],
      Put [''Branch''],
      Txt [nl,
        nl,
        ''**Verification Command:** '', bt],
      Put [''VerifyCommand''],
      Txt [bt, nl,
        nl]] @
     scaffoldFrame @
     [
      Txt [nl,
        nl,
        ''1. **First, fetch the authoritative task specification:** run '', bt, ''gm_slice_get'', bt,
        '' for issue '', bt],
      Put [''Issue'', ''Number''],
      Txt [bt, ''. The output is the source of truth '', g_dash,
        '' do not rely on any summary rendered in the issue's web UI.'', nl,
        ''2. Understand the spec and the guidelines above.'', nl,
        ''3. Implement the necessary changes on branch '', bt],
      Put [''Branch''],
      Txt [bt, ''.'', nl,
        ''4. While implementing, run targeted '', bt, ''bash'', bt, '' checks scoped to what you changed (e.g. '',
        bt, ''go test ./internal/foo'', bt, ''). Reserve '', bt, ''gm_project_check'', bt,
        '' for a single confirming run.'', nl,
        ''5. When you believe the change is complete, run '', bt, ''gm_project_check'', bt,
        '' once. Fix any failures, then call '', bt, ''gm_dev_done'', bt, '' with:'', nl,
        ''   - '', bt, ''summary'', bt, '': a brief description of the changes made'', nl,
        ''   - '', bt, ''commitMsg'', bt, '': a Conventional Commit message, e.g. '', bt,
        ''feat(scope): description (''],
      Put [''Issue'', ''Number''],
      Txt ['')'', bt, nl,
        ''   - '', bt, ''prTitle'', bt, '': a concise PR title'', nl,
        ''   - '', bt, ''prBody'', bt, '': the PR description '', g_dash, '' **must** include '', bt, ''Closes #''],
      Put [''Issue'', ''Number''],
      Txt [bt, nl,
        nl,
        ''> **Important:** Do **not** run '', bt, ''git add'', bt, '', '', bt, ''git commit'', bt, '', or '', bt,
        ''git push'', bt, ''. The runner performs all of those steps automatically after '', bt, ''gm_dev_done'', bt,
        '' is accepted.'', nl]]"

definition reviewerUserTemplate :: "tnode list" where
  "reviewerUserTemplate =
     [
      Txt [''# Task: Review PR #''],
      Put [''PRNumber''],
      Txt ['' for Issue #''],
      Put [''Issue'', ''Number''],
      Txt [nl,
        nl,
        ''**Issue Title:** ''],
      Put [''Issue'', ''Title''],
      Txt [nl,
        nl]] @
     scaffoldFrame @
     [
      Txt [nl,
        nl],
      Put [''PrecheckBlock''],
      Txt [nl,
        nl,
        ''1. **First, fetch the authoritative task specification:** call '', bt, ''gm_slice_get'', bt, '' '', g_dash,
        '' its output is the source of truth for what the PR is supposed to do; do not rely on any summary in the web UI.'',
        nl,
        ''2. **Fetch the PR:** call '', bt, ''gm_pr_view'', bt, '' '', g_dash,
        '' it returns PR metadata, the unified diff, and the changed-files list.'', nl,
        ''3. **Navigate the repo:** use '', bt, ''gm_repo_tree'', bt, '' (directory listing) and '', bt, ''read'',
        bt, '' (file contents) to explore context around changed files.'', nl,
        ''4. Review the changes against the spec and the guidelines above. Do **not** run the verify command '',
        g_dash, '' the runner has already run it; see the Precheck Result above.'', nl,
        ''5. For each finding that can be anchored to a specific file and line, call '', bt,
        ''gm_review_submit_comment'', bt, '' with '', bt, ''{ path, line, body, severity }'', bt, ''.'', nl,
        ''   - If it returns '', bt, ''{ ok: false, code: \"ANCHOR_INVALID\" }'', bt,
        '', retry **once** with corrected coordinates.'', nl,
        ''   - If the second attempt also returns ANCHOR_INVALID, include the finding in the '', bt, ''body'', bt,
        '' of '', bt, ''gm_review_submit'', bt, '' instead.'', nl,
        ''6. After posting all inline comments, call **exactly one** '', bt, ''gm_review_submit'', bt, '' with '',
        bt, ''{ verdict, confidence, body }'', bt, ''.'', nl,
        ''   - '', bt, ''verdict'', bt, '': '', bt, ''\"approved\"'', bt, '' or '', bt, ''\"changes_requested\"'',
        bt, nl,
        ''   - '', bt, ''confidence'', bt, '': '', bt, ''\"high\"'', bt, '', '', bt, ''\"medium\"'', bt, '', or '',
        bt, ''\"low\"'', bt, nl,
        ''   - '', bt, ''body'', bt,
        '' must summarise all findings, including any that could not be anchored as inline comments.'', nl,
        ''   - **If the Precheck Result above was not ok, you MUST use '', bt, ''changes_requested'', bt,
        '' and explain why.**'', nl]]"

definition devRetryUserTemplate :: "tnode list" where
  "devRetryUserTemplate =
     [
      Txt [''# Dev Retry: Address Review Findings for Issue #''],
      Put [''Issue'', ''Number''],
      Txt [nl,
        nl,
        ''**Title:** ''],
      Put [''Issue'', ''Title''],
      Txt [nl,
        nl,
        ''**Branch:** ''],
      Put [''Branch''],
      Txt [nl,
        nl,
        ''**Verification Command:** '', bt],
      Put [''VerifyCommand''],
      Txt [bt, nl,
        nl,
        ''---'', nl,
        nl,
        ''## Reviewer Findings'', nl,
        nl,
        ''The reviewer has requested the following changes:'', nl,
        nl],
      Put [''Findings''],
      Txt [nl],
      When [''FindingsJSON''] [
        Txt [nl,
          ''## Inline Findings (FindingsJSON)'', nl,
          nl,
          ''The following JSON array contains the reviewer's inline comments anchored to specific code locations. Each entry has '',
          bt, ''path'', bt, '', '', bt, ''line'', bt, '', '', bt, ''side'', bt, '', and '', bt, ''body'', bt,
          '' fields. Navigate directly to each location to address the finding.'', nl,
          nl,
          bt, bt, bt, ''json'', nl],
        Put [''FindingsJSON''],
        Txt [nl,
          bt, bt, bt, nl]],
      Txt [nl]] @
     scaffoldFrame @
     [
      Txt [nl,
        nl,
        ''1. The reviewer findings above are the primary input for this retry. If you need the original task specification, run '',
        bt, ''gm_slice_get'', bt, '' for issue '', bt],
      Put [''Issue'', ''Number''],
      Txt [bt, '' '', g_dash,
        '' its output is the authoritative spec; do not rely on any summary rendered in the issue's web UI.'', nl,
        ''2. Address the reviewer'', backslash, ''u2019s findings above on branch '', bt],
      Put [''Branch''],
      Txt [bt, ''.'', nl,
        ''3. While fixing, run targeted '', bt, ''bash'', bt,
        '' checks scoped to what you changed. When all findings are addressed, run '', bt, ''gm_project_check'', bt,
        '' once to confirm. Fix any failures, then call '', bt, ''gm_dev_done'', bt,
        '' with summary, commitMsg, prTitle, and prBody.'', nl,
        nl,
        ''> **Important:** Do **not** run '', bt, ''git add'', bt, '', '', bt, ''git commit'', bt, '', or '', bt,
        ''git push'', bt, ''. The runner handles those steps. Do **not** open a new PR '', g_dash,
        '' the existing PR on branch '', bt],
      Put [''Branch''],
      Txt [bt, '' will be updated automatically.'', nl]]"

definition devGateRetryUserTemplate :: "tnode list" where
  "devGateRetryUserTemplate =
     [
      Txt [''# Gate Retry: Fix Verification Before Completing Issue #''],
      Put [''Issue'', ''Number''],
      Txt [nl,
        nl,
        ''**Title:** ''],
      Put [''Issue'', ''Title''],
      Txt [nl,
        nl,
        ''**Branch:** ''],
      Put [''Branch''],
      Txt [nl,
        nl,
        ''**Verification Command:** '', bt],
      Put [''VerifyCommand''],
      Txt [bt, nl,
        nl,
        ''**Previous gm_dev_done rejection:** ''],
      Put [''GateReason''],
      Txt [nl,
        nl]] @
     scaffoldFrame @
     [
      Txt [nl,
        nl,
        ''Your previous '', bt, ''gm_dev_done'', bt, '' call was rejected by the acceptance gate. To proceed:'', nl,
        nl,
        ''1. Run '', bt, ''gm_project_check'', bt, ''. It must return '', bt, ''ok: true'', bt,
        ''. Fix any failures.'', nl,
        ''2. Do **not** modify files after '', bt, ''gm_project_check'', bt, '' returns '', bt, ''ok: true'', bt,
        '' '', g_dash, '' the runner recomputes the working-tree fingerprint at '', bt, ''gm_dev_done'', bt,
        '' time and requires it to match.'', nl,
        ''3. Call '', bt, ''gm_dev_done'', bt, '' with summary, commitMsg, prTitle, and prBody.'', nl,
        ''   - '', bt, ''prBody'', bt, '' must include '', bt, ''Closes #''],
      Put [''Issue'', ''Number''],
      Txt [bt, ''.'', nl,
        nl,
        ''> **Important:** Do **not** run '', bt, ''git add'', bt, '', '', bt, ''git commit'', bt, '', or '', bt,
        ''git push'', bt, ''. The runner handles all of that.'', nl]]"

definition reviewerGateRetryUserTemplate :: "tnode list" where
  "reviewerGateRetryUserTemplate =
     [
      Txt [''# Reviewer Gate Retry: Re-review PR #''],
      Put [''PRNumber''],
      Txt ['' for Issue #''],
      Put [''Issue'', ''Number''],
      Txt [nl,
        nl,
        ''**Issue Title:** ''],
      Put [''Issue'', ''Title''],
      Txt [nl,
        nl,
        ''**Previous approval rejected:** ''],
      Put [''GateReason''],
      Txt [nl,
        nl]] @
     scaffoldFrame @
     [
      Txt [nl,
        nl],
      Put [''PrecheckBlock''],
      Txt [nl,
        nl,
        ''Your previous '', bt, ''gm_review_submit'', bt, '' with '', bt, ''verdict=\"approved\"'', bt,
        '' was rejected by the runner.'', nl,
        bt, ''approved'', bt,
        '' is only valid when the precheck was ok, the tree was not mutated, and the tree has not changed since the precheck.'',
        nl,
        nl,
        ''Please re-review and submit a valid verdict:'', nl,
        nl,
        ''1. Re-read the precheck result above carefully.'', nl,
        ''2. If the precheck was not ok: you **must** submit '', bt, ''changes_requested'', bt,
        '' and explain the failures in the body.'', nl,
        ''3. If the precheck was ok and the tree is unchanged: you may submit '', bt, ''approved'', bt, ''.'', nl,
        ''4. Call '', bt, ''gm_review_submit'', bt, '' with '', bt, ''{ verdict, confidence, body }'', bt,
        ''. The body must justify your verdict.'', nl,
        ''   Do **not** call any other tools first unless you need more context from '', bt, ''gm_pr_view'', bt,
        '' or '', bt, ''read'', bt, ''.'', nl]]"

definition devCIRetryUserTemplate :: "tnode list" where
  "devCIRetryUserTemplate =
     [
      Txt [''# CI Retry: Fix Failing Checks for Issue #''],
      Put [''Issue'', ''Number''],
      Txt [nl,
        nl,
        ''**Title:** ''],
      Put [''Issue'', ''Title''],
      Txt [nl,
        nl,
        ''**Branch:** ''],
      Put [''Branch''],
      Txt [nl,
        nl,
        ''**Verification Command:** '', bt],
      Put [''VerifyCommand''],
      Txt [bt, nl,
        nl,
        ''---'', nl,
        nl,
        ''## Failing CI Checks'', nl,
        nl,
        ''The following CI checks failed on the PR. Fix the failures and push to the same branch:'', nl,
        nl],
      Put [''FailedCheckInfo''],
      Txt [nl,
        nl]] @
     scaffoldFrame @
     [
      Txt [nl,
        nl,
        ''1. The failing checks above are the primary input for this retry. If you need the original task specification, run '',
        bt, ''gm_slice_get'', bt, '' for issue '', bt],
      Put [''Issue'', ''Number''],
      Txt [bt, '' '', g_dash,
        '' its output is the authoritative spec; do not rely on any summary rendered in the issue's web UI.'', nl,
        ''2. Diagnose and fix the failing CI checks described above on branch '', bt],
      Put [''Branch''],
      Txt [bt, ''.'', nl,
        ''3. Run the verification command locally: '', bt],
      Put [''VerifyCommand''],
      Txt [bt, nl,
        ''4. Stage and commit your changes: '', bt, ''git add -A && git commit -m \"<meaningful message>\"'', bt, nl,
        ''5. Push the branch: '', bt, ''git push origin ''],
      Put [''Branch''],
      Txt [bt, nl,
        ''6. **Do not open a new PR** '', g_dash, '' the existing PR on branch '', bt],
      Put [''Branch''],
      Txt [bt, '' will update automatically.'', nl]]"

definition devRebaseConflictResolveUserTemplate :: "tnode list" where
  "devRebaseConflictResolveUserTemplate =
     [
      Txt [''# Rebase Conflict Resolution: PR #''],
      Put [''PRNumber''],
      Txt [nl,
        nl,
        ''**Branch:** ''],
      Put [''Branch''],
      Txt [nl,
        nl,
        ''**Base:** ''],
      Put [''Base''],
      Txt [nl,
        nl,
        ''**Verification Command:** '', bt],
      Put [''VerifyCommand''],
      Txt [bt, nl,
        nl,
        ''**Conflicted Files:**'', nl],
      Each [''ConflictedFiles''] [
        Txt [''- ''],
        Put [],
        Txt [nl]],
      Txt [nl]] @
     scaffoldFrame @
     [
      Txt [nl,
        nl,
        ''Resolve all rebase conflicts and complete the rebase.'', nl,
        nl,
        ''1. For each conflicted file listed above, open the file and resolve all conflict markers ('', bt,
        ''<<<<<<<'', bt, '', '', bt, ''======='', bt, '', '', bt, ''>>>>>>>'', bt, '').'', nl,
        ''2. Stage the resolved files: '', bt, ''git add <file>'', bt, '' for each resolved file.'', nl,
        ''3. Continue the rebase: '', bt, ''git rebase --continue'', bt,
        ''. If further conflicts appear in subsequent commits, repeat steps 1'', g_range, ''3.'', nl,
        ''4. Run the verification command: '', bt],
      Put [''VerifyCommand''],
      Txt [bt, nl,
        ''5. If verification passes, you are done. Do not open a PR, submit a review, or emit any events.'', nl]]"

section \<open>Rendering\<close>

record issue_ref =
  ir_number :: int
  ir_title :: string

definition issue_value :: "issue_ref \<Rightarrow> tvalue" where
  "issue_value i = TStruct [(''Number'', TInt (ir_number i)), (''Title'', TStr (ir_title i))]"

text \<open>\<open>readGuidelines\<close>; \<open>F\<close> is what reading a file gives.\<close>

definition read_guidelines :: "(string \<Rightarrow> string result) \<Rightarrow> string \<Rightarrow> string result" where
  "read_guidelines F p =
     (case F p of
        Inr content \<Rightarrow> Inr content
      | Inl e \<Rightarrow> Inl (if err_kind e = KNotExist then msg_err (''guidelines file not found: '' @ p)
                   else wrap_err (''failed to read guidelines file '' @ p @ '': '') e))"

definition rendered :: "string \<Rightarrow> tnode list \<Rightarrow> tvalue \<Rightarrow> string result" where
  "rendered what ns dot =
     (case execute_template ns dot of
        None \<Rightarrow> Inl (msg_err (''failed to render '' @ what @ '' prompt template''))
      | Some s \<Rightarrow> Inr s)"

definition dev_directives :: "string list" where
  "dev_directives =
     workingDirDirective @ [nl, nl] @ editOverWriteDirective @ [nl, nl] @ noReReadDirective @ [nl, nl] @ targetedCheckDirective"

definition devTemplateData :: "issue_ref \<Rightarrow> string \<Rightarrow> string \<Rightarrow> string \<Rightarrow> bool \<Rightarrow> tvalue" where
  "devTemplateData issue branch verify guidelines cbm =
     TStruct [(''Issue'', issue_value issue), (''Branch'', TStr branch), (''VerifyCommand'', TStr verify),
       (''Guidelines'', TStr guidelines), (''CodebaseMemory'', TBool cbm), (''Directives'', TStr (concat dev_directives))]"

definition render_dev ::
  "(string \<Rightarrow> string result) \<Rightarrow> issue_ref \<Rightarrow> string \<Rightarrow> string \<Rightarrow> string \<Rightarrow> bool \<Rightarrow> string result" where
  "render_dev F issue branch verify path cbm =
     (case read_guidelines F path of
        Inl e \<Rightarrow> Inl e
      | Inr g \<Rightarrow> rendered ''dev'' devUserTemplate (devTemplateData issue branch verify g cbm))"

definition reviewerTemplateData :: "int \<Rightarrow> issue_ref \<Rightarrow> string \<Rightarrow> string \<Rightarrow> bool \<Rightarrow> string \<Rightarrow> tvalue" where
  "reviewerTemplateData pr issue verify guidelines cbm precheck =
     TStruct [(''PRNumber'', TInt pr), (''Issue'', issue_value issue), (''VerifyCommand'', TStr verify),
       (''Guidelines'', TStr guidelines), (''CodebaseMemory'', TBool cbm), (''Directives'', TStr (concat workingDirDirective)),
       (''PrecheckBlock'', TStr precheck)]"

definition render_reviewer ::
  "(string \<Rightarrow> string result) \<Rightarrow> int \<Rightarrow> issue_ref \<Rightarrow> string \<Rightarrow> string \<Rightarrow> bool \<Rightarrow> string \<Rightarrow> string result" where
  "render_reviewer F pr issue verify path cbm precheck =
     (case read_guidelines F path of
        Inl e \<Rightarrow> Inl e
      | Inr g \<Rightarrow> rendered ''reviewer'' reviewerUserTemplate (reviewerTemplateData pr issue verify g cbm precheck))"

definition devRetryTemplateData ::
  "issue_ref \<Rightarrow> string \<Rightarrow> string \<Rightarrow> string \<Rightarrow> string \<Rightarrow> string \<Rightarrow> bool \<Rightarrow> tvalue" where
  "devRetryTemplateData issue branch findings findings_json verify guidelines cbm =
     TStruct [(''Issue'', issue_value issue), (''Branch'', TStr branch), (''Findings'', TStr findings),
       (''FindingsJSON'', TStr findings_json), (''VerifyCommand'', TStr verify), (''Guidelines'', TStr guidelines),
       (''CodebaseMemory'', TBool cbm), (''Directives'', TStr (concat dev_directives))]"

definition render_dev_retry ::
  "(string \<Rightarrow> string result) \<Rightarrow> string \<Rightarrow> string \<Rightarrow> issue_ref \<Rightarrow> string \<Rightarrow> string \<Rightarrow> string \<Rightarrow> bool \<Rightarrow> string result" where
  "render_dev_retry F findings findings_json issue branch verify path cbm =
     (if findings = [] then Inl (msg_err ''EMPTY_FINDINGS: changes_requested review has an empty body'')
      else (case read_guidelines F path of
         Inl e \<Rightarrow> Inl e
       | Inr g \<Rightarrow> rendered ''dev retry'' devRetryUserTemplate
           (devRetryTemplateData issue branch findings findings_json verify g cbm)))"

text \<open>The literal leaves \<open>CodebaseMemory\<close> out, so it is false.\<close>

definition devGateRetryTemplateData :: "issue_ref \<Rightarrow> string \<Rightarrow> string \<Rightarrow> string \<Rightarrow> string \<Rightarrow> tvalue" where
  "devGateRetryTemplateData issue branch verify reason guidelines =
     TStruct [(''Issue'', issue_value issue), (''Branch'', TStr branch), (''VerifyCommand'', TStr verify),
       (''GateReason'', TStr reason), (''Guidelines'', TStr guidelines), (''Directives'', TStr (concat dev_directives)),
       (''CodebaseMemory'', TBool False)]"

definition render_dev_gate_retry ::
  "(string \<Rightarrow> string result) \<Rightarrow> string \<Rightarrow> issue_ref \<Rightarrow> string \<Rightarrow> string \<Rightarrow> string \<Rightarrow> string result" where
  "render_dev_gate_retry F reason issue branch verify path =
     (case read_guidelines F path of
        Inl e \<Rightarrow> Inl e
      | Inr g \<Rightarrow> rendered ''dev gate retry'' devGateRetryUserTemplate (devGateRetryTemplateData issue branch verify reason g))"

definition reviewerGateRetryTemplateData ::
  "string \<Rightarrow> int \<Rightarrow> issue_ref \<Rightarrow> string \<Rightarrow> string \<Rightarrow> bool \<Rightarrow> string \<Rightarrow> tvalue" where
  "reviewerGateRetryTemplateData reason pr issue verify guidelines cbm precheck =
     TStruct [(''GateReason'', TStr reason), (''PRNumber'', TInt pr), (''Issue'', issue_value issue),
       (''VerifyCommand'', TStr verify), (''Guidelines'', TStr guidelines), (''CodebaseMemory'', TBool cbm),
       (''Directives'', TStr (concat workingDirDirective)), (''PrecheckBlock'', TStr precheck)]"

definition render_reviewer_gate_retry ::
  "(string \<Rightarrow> string result) \<Rightarrow> string \<Rightarrow> int \<Rightarrow> issue_ref \<Rightarrow> string \<Rightarrow> string \<Rightarrow> string \<Rightarrow> bool \<Rightarrow> string result" where
  "render_reviewer_gate_retry F reason pr issue verify path precheck cbm =
     (case read_guidelines F path of
        Inl e \<Rightarrow> Inl e
      | Inr g \<Rightarrow> rendered ''reviewer gate retry'' reviewerGateRetryUserTemplate
          (reviewerGateRetryTemplateData reason pr issue verify g cbm precheck))"

definition devCIRetryTemplateData :: "issue_ref \<Rightarrow> string \<Rightarrow> string \<Rightarrow> string \<Rightarrow> string \<Rightarrow> tvalue" where
  "devCIRetryTemplateData issue branch info verify guidelines =
     TStruct [(''Issue'', issue_value issue), (''Branch'', TStr branch), (''FailedCheckInfo'', TStr info),
       (''VerifyCommand'', TStr verify), (''Guidelines'', TStr guidelines), (''CodebaseMemory'', TBool False),
       (''Directives'', TStr (concat dev_directives))]"

definition render_dev_ci_retry ::
  "(string \<Rightarrow> string result) \<Rightarrow> string \<Rightarrow> issue_ref \<Rightarrow> string \<Rightarrow> string \<Rightarrow> string \<Rightarrow> string result" where
  "render_dev_ci_retry F info issue branch verify path =
     (if info = [] then Inl (msg_err ''EMPTY_FAILED_CHECKS: no failed check info provided'')
      else (case read_guidelines F path of
         Inl e \<Rightarrow> Inl e
       | Inr g \<Rightarrow> rendered ''dev CI retry'' devCIRetryUserTemplate (devCIRetryTemplateData issue branch info verify g)))"

definition devRebaseConflictResolveTemplateData ::
  "int \<Rightarrow> string \<Rightarrow> string \<Rightarrow> string list \<Rightarrow> string \<Rightarrow> string \<Rightarrow> tvalue" where
  "devRebaseConflictResolveTemplateData pr branch base files verify guidelines =
     TStruct [(''PRNumber'', TInt pr), (''Branch'', TStr branch), (''Base'', TStr base),
       (''ConflictedFiles'', TList (map TStr files)), (''VerifyCommand'', TStr verify), (''Guidelines'', TStr guidelines),
       (''CodebaseMemory'', TBool False), (''Directives'', TStr (concat dev_directives))]"

definition render_dev_rebase_conflict_resolve ::
  "(string \<Rightarrow> string result) \<Rightarrow> int \<Rightarrow> string \<Rightarrow> string \<Rightarrow> string list \<Rightarrow> string \<Rightarrow> string \<Rightarrow> string result" where
  "render_dev_rebase_conflict_resolve F pr branch base files verify path =
     (if files = [] then Inl (msg_err ''EMPTY_CONFLICTED_FILES: conflictedFiles must not be empty'')
      else (case read_guidelines F path of
         Inl e \<Rightarrow> Inl e
       | Inr g \<Rightarrow> rendered ''dev rebase conflict resolve'' devRebaseConflictResolveUserTemplate
           (devRebaseConflictResolveTemplateData pr branch base files verify g)))"

section \<open>The prompt of an attempt\<close>

definition guidelines_path :: "rconfig \<Rightarrow> string \<Rightarrow> string" where
  "guidelines_path R role = path_join [r_repo_root R, ''.golemic'', ''guidelines'', role @ ''.md'']"

definition run_issue :: "rconfig \<Rightarrow> issue_ref" where
  "run_issue R = \<lparr>ir_number = r_issue_num R, ir_title = r_issue_title R\<rparr>"

definition render_dev_prompt :: "(string \<Rightarrow> string result) \<Rightarrow> rconfig \<Rightarrow> run_ctx \<Rightarrow> bool \<Rightarrow> string result" where
  "render_dev_prompt F R c cbm =
     (if rc_dev_attempt c > 0
      then render_dev_gate_retry F (rc_gate_reason c) (run_issue R) (r_branch R) (r_verify_command R) (guidelines_path R ''dev'')
      else if rc_dev_mode c = DevModeRetryWithFindings
      then render_dev_retry F (rc_findings c) (rc_findings_json c) (run_issue R) (r_branch R) (r_verify_command R)
             (guidelines_path R ''dev'') cbm
      else render_dev F (run_issue R) (r_branch R) (r_verify_command R) (guidelines_path R ''dev'') cbm)"

definition render_reviewer_prompt ::
  "(string \<Rightarrow> string result) \<Rightarrow> rconfig \<Rightarrow> int \<Rightarrow> string \<Rightarrow> string \<Rightarrow> bool \<Rightarrow> string result" where
  "render_reviewer_prompt F R pr precheck reason cbm =
     (if reason \<noteq> []
      then render_reviewer_gate_retry F reason pr (run_issue R) (r_verify_command R) (guidelines_path R ''reviewer'') precheck cbm
      else render_reviewer F pr (run_issue R) (r_verify_command R) (guidelines_path R ''reviewer'') cbm precheck)"

section \<open>Every field exists\<close>

fun defined_in :: "tvalue \<Rightarrow> tnode \<Rightarrow> bool" where
  "defined_in dot (Txt ps) \<longleftrightarrow> True"
| "defined_in dot (Put p) \<longleftrightarrow> field_of dot p \<noteq> None"
| "defined_in dot (When p ns) \<longleftrightarrow> field_of dot p \<noteq> None \<and> list_all (defined_in dot) ns"
| "defined_in dot (Each p ns) \<longleftrightarrow>
     (case field_of dot p of Some (TList vs) \<Rightarrow> list_all (\<lambda>v. list_all (defined_in v) ns) vs | _ \<Rightarrow> False)"

lemma join_opts_defined: "list_all (\<lambda>x. x \<noteq> None) xs \<Longrightarrow> join_opts xs = Some (concat (map the xs))"
  by (induction xs rule: join_opts.induct) auto

lemma join_opts_append:
  "join_opts (xs @ ys) =
     (case (join_opts xs, join_opts ys) of (Some a, Some b) \<Rightarrow> Some (a @ b) | _ \<Rightarrow> None)"
  by (induction xs rule: join_opts.induct) (auto split: option.splits)

lemma exec_defined: "defined_in dot n \<Longrightarrow> exec_node dot n \<noteq> None"
proof (induction dot n rule: exec_node.induct)
  case (3 dot p ns)
  then obtain v where v: "field_of dot p = Some v" "list_all (defined_in dot) ns" by auto
  have "list_all (\<lambda>x. x \<noteq> None) (map (exec_node dot) ns)" if "is_true v"
    using 3(1) [OF v(1) that] v(2) by (auto simp: list_all_iff)
  then show ?case using v(1) by (auto simp: join_opts_defined)
next
  case (4 dot p ns)
  then obtain vs where vs: "field_of dot p = Some (TList vs)" "list_all (\<lambda>v. list_all (defined_in v) ns) vs"
    by (auto split: option.splits tvalue.splits)
  have "list_all (\<lambda>x. x \<noteq> None) (map (exec_node v) ns)" if "v \<in> set vs" for v
    using vs that 4(1) by (auto simp: list_all_iff)
  then have "list_all (\<lambda>x. x \<noteq> None) (map (\<lambda>v. join_opts (map (exec_node v) ns)) vs)"
    by (auto simp: list_all_iff join_opts_defined)
  then show ?case using vs(1) by (simp add: join_opts_defined)
qed auto

lemma execute_defined: "list_all (defined_in dot) ns \<Longrightarrow> \<exists>s. execute_template ns dot = Some s"
  unfolding execute_template_def using exec_defined
  by (subst join_opts_defined) (auto simp: list_all_iff)

lemma execute_append:
  "execute_template (ns @ ms) dot =
     (case (execute_template ns dot, execute_template ms dot) of (Some a, Some b) \<Rightarrow> Some (a @ b) | _ \<Rightarrow> None)"
  by (simp add: execute_template_def join_opts_append)

text \<open>What is printed depends on the fields that the nodes name.\<close>

fun node_paths :: "tnode \<Rightarrow> string list list" where
  "node_paths (Txt ps) = []"
| "node_paths (Put p) = [p]"
| "node_paths (When p ns) = p # concat (map node_paths ns)"
| "node_paths (Each p ns) = [p]"

lemma exec_cong: "(\<And>p. p \<in> set (node_paths n) \<Longrightarrow> field_of d p = field_of d' p) \<Longrightarrow> exec_node d n = exec_node d' n"
proof (induction n)
  case (When p ns)
  then have same: "map (exec_node d) ns = map (exec_node d') ns" by auto
  show ?case using When.prems [of p] by (simp only: exec_node.simps same) simp
qed auto

lemma execute_cong:
  assumes "list_all (\<lambda>n. list_all (\<lambda>p. field_of d p = field_of d' p) (node_paths n)) ns"
  shows "execute_template ns d = execute_template ns d'"
proof -
  have same: "map (exec_node d) ns = map (exec_node d') ns"
    using assms by (auto simp: list_all_iff intro!: exec_cong)
  show ?thesis unfolding execute_template_def same ..
qed

text \<open>A text that is put between parts that do not depend on it.\<close>

definition embeds :: "(string \<Rightarrow> string result) \<Rightarrow> bool" where
  "embeds f \<longleftrightarrow> (\<exists>pre post. \<forall>g. f g = Inr (pre @ g @ post))"

lemma embedsI:
  assumes split: "ns = as @ [Put p] @ bs"
    and fields: "\<And>g. field_of (D g) p = Some (TStr g)"
    and outside: "\<And>g. list_all (\<lambda>n. list_all (\<lambda>q. field_of (D g) q = field_of (D []) q) (node_paths n)) (as @ bs)"
    and total: "list_all (defined_in (D [])) (as @ bs)"
  shows "embeds (\<lambda>g. rendered what ns (D g))"
proof -
  obtain pre post where pre: "execute_template as (D []) = Some pre" and post: "execute_template bs (D []) = Some post"
    using total execute_defined [of "D []"] by (metis list_all_append)
  have "execute_template as (D g) = Some pre" "execute_template bs (D g) = Some post" for g
    using execute_cong [of "D g" "D []"] outside [of g] pre post by simp_all
  moreover have "execute_template [Put p] (D g) = Some g" for g
    by (simp add: execute_template_def fields)
  ultimately have "rendered what ns (D g) = Inr (pre @ g @ post)" for g
    unfolding rendered_def split by (simp only: execute_append) simp
  then show ?thesis unfolding embeds_def by blast
qed

lemmas data_defs =
  devTemplateData_def reviewerTemplateData_def devRetryTemplateData_def devGateRetryTemplateData_def
  reviewerGateRetryTemplateData_def devCIRetryTemplateData_def devRebaseConflictResolveTemplateData_def issue_value_def

definition frame_before :: "tnode list" where
  "frame_before = takeWhile (\<lambda>n. n \<noteq> Put [''Guidelines'']) scaffoldFrame"

definition frame_after :: "tnode list" where
  "frame_after = tl (dropWhile (\<lambda>n. n \<noteq> Put [''Guidelines'']) scaffoldFrame)"

lemma frame_split: "scaffoldFrame = frame_before @ [Put [''Guidelines'']] @ frame_after"
  by (simp add: frame_before_def frame_after_def scaffoldFrame_def)

lemma frame_embeds:
  assumes split: "ns = as @ scaffoldFrame @ bs"
    and fields: "\<And>g. field_of (D g) [''Guidelines''] = Some (TStr g)"
    and outside: "\<And>g. list_all (\<lambda>n. list_all (\<lambda>q. field_of (D g) q = field_of (D []) q) (node_paths n))
      (as @ frame_before @ frame_after @ bs)"
    and total: "list_all (defined_in (D [])) (as @ frame_before @ frame_after @ bs)"
  shows "embeds (\<lambda>g. rendered what ns (D g))"
proof (rule embedsI)
  show "ns = (as @ frame_before) @ [Put [''Guidelines'']] @ (frame_after @ bs)"
    using split frame_split by simp
qed (use assms(2-4) in simp_all)

lemmas frame_defs = frame_before_def frame_after_def scaffoldFrame_def

lemma dev_embeds: "embeds (\<lambda>g. render_dev (\<lambda>_. Inr g) issue branch verify path cbm)"
  unfolding render_dev_def read_guidelines_def sum.case
  by (rule frame_embeds, rule devUserTemplate_def) (simp_all add: data_defs frame_defs)

lemma reviewer_embeds: "embeds (\<lambda>g. render_reviewer (\<lambda>_. Inr g) pr issue verify path cbm precheck)"
  unfolding render_reviewer_def read_guidelines_def sum.case
  by (rule frame_embeds, rule reviewerUserTemplate_def) (simp_all add: data_defs frame_defs)

lemma dev_retry_embeds:
  "findings \<noteq> [] \<Longrightarrow> embeds (\<lambda>g. render_dev_retry (\<lambda>_. Inr g) findings js issue branch verify path cbm)"
  unfolding render_dev_retry_def read_guidelines_def sum.case
  by (simp only: if_False, rule frame_embeds, rule devRetryUserTemplate_def) (simp_all add: data_defs frame_defs)

lemma dev_gate_retry_embeds: "embeds (\<lambda>g. render_dev_gate_retry (\<lambda>_. Inr g) reason issue branch verify path)"
  unfolding render_dev_gate_retry_def read_guidelines_def sum.case
  by (rule frame_embeds, rule devGateRetryUserTemplate_def) (simp_all add: data_defs frame_defs)

lemma reviewer_gate_retry_embeds:
  "embeds (\<lambda>g. render_reviewer_gate_retry (\<lambda>_. Inr g) reason pr issue verify path precheck cbm)"
  unfolding render_reviewer_gate_retry_def read_guidelines_def sum.case
  by (rule frame_embeds, rule reviewerGateRetryUserTemplate_def) (simp_all add: data_defs frame_defs)

lemma dev_ci_retry_embeds:
  "info \<noteq> [] \<Longrightarrow> embeds (\<lambda>g. render_dev_ci_retry (\<lambda>_. Inr g) info issue branch verify path)"
  unfolding render_dev_ci_retry_def read_guidelines_def sum.case
  by (simp only: if_False, rule frame_embeds, rule devCIRetryUserTemplate_def) (simp_all add: data_defs frame_defs)

lemma dev_rebase_embeds:
  "files \<noteq> [] \<Longrightarrow> embeds (\<lambda>g. render_dev_rebase_conflict_resolve (\<lambda>_. Inr g) pr branch base files verify path)"
  unfolding render_dev_rebase_conflict_resolve_def read_guidelines_def sum.case
  by (simp only: if_False, rule frame_embeds, rule devRebaseConflictResolveUserTemplate_def)
    (simp_all add: data_defs frame_defs list_all_iff)

section \<open>The prompt of an attempt\<close>

text \<open>
  C31: The prompt of a dev attempt is made for every context, issue and configuration: with readable
  guidelines it is a text that holds them as they are, between parts that do not depend on them, so
  template syntax in the guidelines is not evaluated. The one refusal is a retry without findings.
\<close>

theorem dev_prompt_contract:
  "if rc_dev_attempt c \<le> 0 \<and> rc_dev_mode c = DevModeRetryWithFindings \<and> rc_findings c = []
   then \<exists>e. \<forall>F. render_dev_prompt F R c cbm = Inl e
   else embeds (\<lambda>g. render_dev_prompt (\<lambda>_. Inr g) R c cbm)"
proof (cases "rc_dev_attempt c > 0")
  case True
  then show ?thesis using dev_gate_retry_embeds by (simp add: render_dev_prompt_def)
next
  case False
  show ?thesis
  proof (cases "rc_dev_mode c = DevModeRetryWithFindings")
    case True
    then show ?thesis
      using False dev_retry_embeds [of "rc_findings c" "rc_findings_json c" "run_issue R"]
      by (cases "rc_findings c = []") (simp_all add: render_dev_prompt_def render_dev_retry_def)
  next
    case False
    then show ?thesis
      using \<open>\<not> rc_dev_attempt c > 0\<close> dev_embeds by (simp add: render_dev_prompt_def)
  qed
qed

text \<open>
  The prompt of a reviewer attempt holds the guidelines as they are, and so does each prompt of a CI
  retry with information and of a conflict resolution with files.
\<close>

theorem other_prompts_contract:
  "embeds (\<lambda>g. render_reviewer_prompt (\<lambda>_. Inr g) R pr precheck reason cbm) \<and>
   (if info = [] then True else embeds (\<lambda>g. render_dev_ci_retry (\<lambda>_. Inr g) info issue branch verify path)) \<and>
   (if files = [] then True
    else embeds (\<lambda>g. render_dev_rebase_conflict_resolve (\<lambda>_. Inr g) pr branch base files verify path))"
proof (intro conjI)
  show "embeds (\<lambda>g. render_reviewer_prompt (\<lambda>_. Inr g) R pr precheck reason cbm)"
    using reviewer_embeds reviewer_gate_retry_embeds by (cases "reason = []") (simp_all add: render_reviewer_prompt_def)
  show "if info = [] then True else embeds (\<lambda>g. render_dev_ci_retry (\<lambda>_. Inr g) info issue branch verify path)"
    using dev_ci_retry_embeds [of info] by simp
  show "if files = [] then True
    else embeds (\<lambda>g. render_dev_rebase_conflict_resolve (\<lambda>_. Inr g) pr branch base files verify path)"
    using dev_rebase_embeds [of files] by simp
qed

section \<open>The tools a prompt names\<close>

definition named_tools :: "string list \<Rightarrow> string list" where
  "named_tools ps = filter (has_prefix ''gm_'') ps"






text \<open>
  The agent that resolves a conflict is told to run \<open>gm_project_check\<close> and to finish by
  \<open>gm_dev_done\<close>, and is given neither.
\<close>

theorem conflict_prompt_names_missing_tools:
  "set (named_tools dev_directives) = {''gm_project_check'', ''gm_dev_done''} \<and>
   set (named_tools dev_directives) \<inter> set baseDevTools = {}"
  by code_simp

end
