(* ===== verification/Agent_File.thy ===== *)
theory Agent_File
  imports Agent Template
begin

text \<open>
  The persona of a role (\<open>internal/agentfile\<close>, \<open>runner/agentfile.go\<close>): the file with its front matter,
  the model chain in it, and the temporary file with the body that an agent is started with; and the
  header of a run (\<open>runner_header.go\<close>). What the operating system answers is the record
  \<open>persona_os\<close>; what is done to temporary files is the list of operations.
\<close>

section \<open>The persona file\<close>

definition fence :: string where
  "fence = newline # ''---'' @ [newline]"

definition trim_prefix :: "string \<Rightarrow> string \<Rightarrow> string" where
  "trim_prefix p s = (if has_prefix p s then drop (length p) s else s)"

definition model_line :: "string \<Rightarrow> string" where
  "model_line frontmatter =
     (case find (has_prefix ''model:'') (split_on newline frontmatter) of
        None \<Rightarrow> []
      | Some line \<Rightarrow> trim_space (trim_prefix ''model:'' line))"

definition parse_persona :: "string \<Rightarrow> string \<Rightarrow> (string list \<times> string) result" where
  "parse_persona content name =
     (if \<not> has_prefix (''---'' @ [newline]) content
      then Inl (msg_err (''agentfile: '' @ name @ '': no frontmatter block (file must start with ---)''))
      else (case cut_at fence (drop 4 content) of
         None \<Rightarrow> Inl (msg_err (''agentfile: '' @ name @ '': unterminated frontmatter block''))
       | Some (frontmatter, rest) \<Rightarrow>
           (let body = trim_prefix [newline] rest; model_raw = model_line frontmatter in
            if model_raw = [] then Inl (msg_err (''agentfile: '' @ name @ '': missing or empty model: key in frontmatter''))
            else (case parse_model_chain model_raw of
               Inl e \<Rightarrow> Inl (wrap_err (''agentfile: '' @ name @ '': '') e)
             | Inr chain \<Rightarrow> Inr (chain, body)))))"

record persona_os =
  pe_stat :: "string \<Rightarrow> gerr option"
  pe_read :: "string \<Rightarrow> string result"
  pe_embedded :: "string \<Rightarrow> string result"
  pe_create :: "string result"
  pe_write :: "gerr option"
  pe_close :: "gerr option"

definition read_persona :: "persona_os \<Rightarrow> string \<Rightarrow> (string list \<times> string) result" where
  "read_persona P p =
     (case pe_read P p of
        Inl e \<Rightarrow> Inl (wrap_err (''agentfile: '' @ p @ '': '') e)
      | Inr content \<Rightarrow> parse_persona content p)"

definition embedded_persona :: "persona_os \<Rightarrow> string \<Rightarrow> (string list \<times> string) result" where
  "embedded_persona P role =
     (let p = ''personas/'' @ role @ ''.md'' in
      case pe_embedded P p of
        Inl e \<Rightarrow> Inl (wrap_err (''agentfile: embedded persona for '' @ role @ '': '') e)
      | Inr content \<Rightarrow> parse_persona content p)"

section \<open>The temporary file\<close>

datatype temp_op =
    TempCreate string
  | TempWrite string string
  | TempRemove string

text \<open>The files that the operations leave.\<close>

fun temp_files :: "(string \<rightharpoonup> string) \<Rightarrow> temp_op list \<Rightarrow> (string \<rightharpoonup> string)" where
  "temp_files fs [] = fs"
| "temp_files fs (TempCreate n # ops) = temp_files (fs(n \<mapsto> [])) ops"
| "temp_files fs (TempWrite n s # ops) = temp_files (fs(n \<mapsto> s)) ops"
| "temp_files fs (TempRemove n # ops) = temp_files (fs(n := None)) ops"

definition persona_file :: "string \<Rightarrow> string \<Rightarrow> string" where
  "persona_file root role = path_join [root, ''.golemic'', ''agents'', role @ ''.md'']"

definition choose_persona :: "persona_os \<Rightarrow> string \<Rightarrow> string \<Rightarrow> (string list \<times> string) result" where
  "choose_persona P root role =
     (case pe_stat P (persona_file root role) of
        None \<Rightarrow> read_persona P (persona_file root role)
      | Some e \<Rightarrow>
          if err_kind e = KNotExist then embedded_persona P role
          else Inl (wrap_err (''resolveAgentFile: stat '' @ persona_file root role @ '': '') e))"

text \<open>The name of the file and the model, and what was done; the cleanup is \<open>TempRemove\<close> of the name.\<close>

definition resolve_agent_file :: "persona_os \<Rightarrow> string \<Rightarrow> string \<Rightarrow> (string \<times> string) result \<times> temp_op list" where
  "resolve_agent_file P root role =
     (case choose_persona P root role of
        Inl e \<Rightarrow> (Inl e, [])
      | Inr (chain, body) \<Rightarrow>
          (case pe_create P of
             Inl e \<Rightarrow> (Inl (wrap_err (''resolveAgentFile: create temp for '' @ role @ '': '') e), [])
           | Inr n \<Rightarrow>
               (case pe_write P of
                  Some e \<Rightarrow> (Inl (wrap_err (''resolveAgentFile: write temp for '' @ role @ '': '') e), [TempCreate n, TempRemove n])
                | None \<Rightarrow>
                    (case pe_close P of
                       Some e \<Rightarrow> (Inl (wrap_err (''resolveAgentFile: close temp for '' @ role @ '': '') e),
                         [TempCreate n, TempWrite n body, TempRemove n])
                     | None \<Rightarrow> (Inr (n, join_with '', '' chain), [TempCreate n, TempWrite n body])))))"

section \<open>The header of a run\<close>

text \<open>\<open>Duration.String\<close>: the fraction of \<open>p\<close> digits without its last zeros, and the whole.\<close>

definition fraction_text :: "nat \<Rightarrow> nat \<Rightarrow> string" where
  "fraction_text p v =
     (let ds = nat_digits v; frac = rev (dropWhile (\<lambda>c. c = CHR ''0'') (rev (replicate (p - length ds) (CHR ''0'') @ ds)))
      in if v = 0 then [] else CHR ''.'' # frac)"

definition duration_text :: "int \<Rightarrow> string" where
  "duration_text d =
     (let u = nat (abs d); sign = (if d < 0 then ''-'' else []); s = u div 10 ^ 9 in
      if u = 0 then ''0s''
      else sign @
        (if u < 10 ^ 3 then nat_digits u @ ''ns''
         else if u < 10 ^ 6 then nat_digits (u div 10 ^ 3) @ fraction_text 3 (u mod 10 ^ 3) @ [CHR 0xC2, CHR 0xB5, CHR ''s'']
         else if u < 10 ^ 9 then nat_digits (u div 10 ^ 6) @ fraction_text 6 (u mod 10 ^ 6) @ ''ms''
         else (if s div 3600 > 0 then nat_digits (s div 3600) @ ''h'' else []) @
           (if s div 60 > 0 then nat_digits (s div 60 mod 60) @ ''m'' else []) @
           nat_digits (s mod 60) @ fraction_text 9 (u mod 10 ^ 9) @ ''s''))"

definition write_run_header :: "rconfig \<Rightarrow> int \<Rightarrow> int \<Rightarrow> string" where
  "write_run_header R timeout_seconds timeout_minutes =
     (let run_dir = path_join [runs_dir R, r_run_id R]; log = path_join [run_dir, ''events.jsonl''];
          timeout = (if timeout_seconds > 0 then duration (timeout_seconds * 10 ^ 9) else duration (timeout_minutes * 60 * 10 ^ 9))
      in concat (map (\<lambda>l. l @ [newline])
        [''golemic run'',
         ''Issue:          #'' @ itoa (r_issue_num R) @ '' '' @ r_issue_title R,
         ''Project:        '' @ r_project R,
         ''Run ID:         '' @ r_run_id R,
         ''Agents:         '' @ persona_file (r_repo_root R) ''dev'',
         ''                '' @ persona_file (r_repo_root R) ''reviewer'',
         ''Branch:         '' @ r_branch R,
         ''Timeout:        '' @ duration_text timeout,
         ''Event log:      '' @ log,
         ''Logs:           '' @ run_dir,
         ''Dev worktree:   '' @ dev_worktree_path R,
         ''Rev worktree:   '' @ review_worktree_path R,
         [], ''Tip: tail -f '' @ log, []]))"

section \<open>The chain through the model text\<close>

definition chain_entry :: "string \<Rightarrow> bool" where
  "chain_entry t \<longleftrightarrow> t \<noteq> [] \<and> trim_space t = t \<and> CHR '','' \<notin> set t"

lemma trim_right_prefix: "\<exists>t. s = trim_right p s @ t"
  unfolding trim_right_def by (metis rev_append rev_rev_ident takeWhile_dropWhile_id)

lemma trim_ends:
  assumes "trim_space s = c # cs"
  shows "\<not> is_space c" and "\<not> is_space (last (c # cs))"
proof -
  define t where "t = dropWhile is_space s"
  have r: "rev (dropWhile is_space (rev t)) = c # cs"
    using assms by (simp add: trim_space_def trim_left_def trim_right_def t_def)
  obtain u where u: "t = (c # cs) @ u" using trim_right_prefix [of t is_space] r by (auto simp: trim_right_def)
  then show "\<not> is_space c" using hd_dropWhile [of is_space s] by (simp add: t_def)
  have "dropWhile is_space (rev t) = rev (c # cs)" using arg_cong [OF r, of rev] by simp
  then show "\<not> is_space (last (c # cs))"
    by (metis hd_dropWhile hd_rev list.distinct(1) rev_is_Nil_conv)
qed

lemma trim_id:
  assumes "s = [] \<or> (\<not> is_space (hd s) \<and> \<not> is_space (last s))"
  shows "trim_space s = s"
proof (cases s)
  case (Cons c cs)
  have "dropWhile is_space (rev s) = rev s"
    using assms Cons by (cases "rev s") (auto simp: hd_rev [symmetric])
  then show ?thesis using assms Cons by (simp add: trim_space_def trim_left_def trim_right_def)
qed (simp add: trim_space_def trim_left_def trim_right_def)

lemma trim_space_idem [simp]: "trim_space (trim_space s) = trim_space s"
  by (rule trim_id) (use trim_ends [of s] in \<open>cases "trim_space s"; simp\<close>)

lemma trim_space_skip: "trim_space (CHR '' '' # s) = trim_space s"
  by (simp add: trim_space_def trim_left_def is_space_def)

lemma trim_space_set: "set (trim_space s) \<subseteq> set s"
  unfolding trim_space_def trim_left_def trim_right_def
  by (auto dest!: set_dropWhileD)

lemma split_on_free: "w \<in> set (split_on c s) \<Longrightarrow> c \<notin> set w"
  by (induction c s arbitrary: w rule: split_on.induct) (auto split: list.splits if_splits)

lemma split_on_none: "c \<notin> set s \<Longrightarrow> split_on c s = [s]"
  by (induction s) auto

lemma chain_entries_back:
  assumes "list_all chain_entry ts" and "distinct (chain @ ts)"
    and "list_all2 (\<lambda>p t. trim_space p = t) ps ts"
  shows "chain_entries chain ps = chain @ ts"
  using assms
proof (induction ps arbitrary: chain ts)
  case (Cons p ps)
  then obtain t ts' where ts: "ts = t # ts'" "trim_space p = t" "list_all2 (\<lambda>p t. trim_space p = t) ps ts'"
    by (auto simp: list_all2_Cons1)
  have t: "t \<noteq> []" "t \<notin> set chain" using Cons.prems(1,2) ts(1) by (auto simp: chain_entry_def)
  have "chain_entries (chain @ [t]) ps = (chain @ [t]) @ ts'"
    using Cons.prems(1,2) ts(1,3) t by (intro Cons.IH) auto
  then show ?case using t unfolding ts(1) by (simp add: Let_def ts(2))
qed simp

lemma chain_is_clean:
  assumes "parse_model_chain raw = Inr chain"
  shows "chain \<noteq> []" and "distinct chain" and "list_all chain_entry chain"
proof -
  let ?ts = "filter (\<lambda>t. t \<noteq> []) (map trim_space (split_on (CHR '','') raw))"
  have chain: "chain = first_occurrences ?ts"
    using assms by (auto simp: parse_model_chain_def chain_entries_reference Let_def split: if_splits)
  show "chain \<noteq> []" using assms by (auto simp: parse_model_chain_def Let_def split: if_splits)
  show "distinct chain" unfolding chain by (rule first_occurrences_distinct [THEN conjunct1])
  have "set chain = set ?ts" unfolding chain by (rule first_occurrences_distinct [THEN conjunct2])
  moreover have "chain_entry t" if t: "t \<in> set ?ts" for t
  proof -
    obtain w where w: "w \<in> set (split_on (CHR '','') raw)" "t = trim_space w" "t \<noteq> []" using t by auto
    then have "CHR '','' \<notin> set t" using split_on_free trim_space_set by blast
    then show ?thesis using w by (simp add: chain_entry_def)
  qed
  ultimately show "list_all chain_entry chain" by (simp add: list_all_iff)
qed

lemma split_joined:
  assumes "ts \<noteq> []" and "list_all chain_entry ts"
  shows "list_all2 (\<lambda>p t. trim_space p = t) (split_on (CHR '','') (join_with '', '' ts)) ts"
  using assms
proof (induction "'', ''" ts rule: join_with.induct)
  case (2 x)
  then have "split_on (CHR '','') x = [x]" by (simp add: split_on_none chain_entry_def)
  then show ?case using 2 by (simp add: chain_entry_def)
next
  case (3 x y ys)
  let ?r = "join_with '', '' (y # ys)"
  have x: "split_on (CHR '','') x = [x]" "trim_space x = x" using 3 by (simp_all add: split_on_none chain_entry_def)
  obtain w ws where w: "split_on (CHR '','') ?r = w # ws" by (metis neq_Nil_conv split_on_nonempty)
  have "split_on (CHR '','') (x @ '', '' @ ?r) = [x] @ (CHR '' '' # w) # ws"
    using split_on_append_line [of "CHR '',''" x "CHR '' '' # ?r"] w x by simp
  moreover have "list_all2 (\<lambda>p t. trim_space p = t) (w # ws) (y # ys)" using 3 w by simp
  ultimately show ?case using x by (auto simp: trim_space_skip)
qed simp

lemma chain_round_trip: "parse_model_chain raw = Inr chain \<Longrightarrow> parse_model_chain (join_with '', '' chain) = Inr chain"
  using chain_is_clean [of raw chain] split_joined [of chain]
    chain_entries_back [of chain "[]" "split_on (CHR '','') (join_with '', '' chain)"]
  by (subst parse_model_chain_def) (simp add: Let_def)

lemma parse_persona_chain:
  assumes "parse_persona content name = Inr (chain, body)"
  shows "parse_model_chain (join_with '', '' chain) = Inr chain"
  using assms chain_round_trip
  by (fastforce simp: parse_persona_def Let_def split: if_splits option.splits sum.splits prod.splits)

lemma choose_persona_chain:
  "choose_persona P root role = Inr (chain, body) \<Longrightarrow> parse_model_chain (join_with '', '' chain) = Inr chain"
  using parse_persona_chain
  by (auto simp: choose_persona_def read_persona_def embedded_persona_def Let_def split: option.splits if_splits sum.splits)

text \<open>What the caller may rely on, from any temporary files.\<close>

definition resolved_ok :: "(string \<rightharpoonup> string) \<Rightarrow> persona_os \<Rightarrow> string \<Rightarrow> string \<Rightarrow> bool" where
  "resolved_ok fs P root role \<longleftrightarrow>
     (case resolve_agent_file P root role of
        (Inl e, ops) \<Rightarrow> (case pe_create P of Inr n \<Rightarrow> temp_files (fs(n := None)) ops = fs(n := None) | Inl _ \<Rightarrow> temp_files fs ops = fs)
      | (Inr (n, model), ops) \<Rightarrow>
          (case choose_persona P root role of
             Inr (chain, body) \<Rightarrow>
               parse_model_chain model = Inr chain \<and> temp_files fs ops = fs(n \<mapsto> body) \<and>
               temp_files fs (ops @ [TempRemove n]) = fs(n := None)
           | Inl _ \<Rightarrow> False))"

lemma temp_files_append: "temp_files fs (xs @ ys) = temp_files (temp_files fs xs) ys"
proof (induction xs arbitrary: fs)
  case (Cons x xs)
  then show ?case by (cases x; simp only: append_Cons temp_files.simps)
qed simp

text \<open>
  C33: An agent that is started has the body of its persona in the temporary file and a model text from
  which the runner of the role reads back the chain of the persona; the cleanup removes the file. Every
  failure, also that of the write or of the close, leaves no temporary file.
\<close>

theorem persona_contract: "resolved_ok fs P root role"
  using choose_persona_chain [of P root role]
  by (auto simp: resolved_ok_def resolve_agent_file_def temp_files_append split: sum.splits option.splits prod.splits)

lemma trim_prefix_append: "trim_prefix p (p @ s) = s"
  by (simp add: trim_prefix_def)

section \<open>A written persona is read back\<close>

definition persona_text :: "string list \<Rightarrow> string \<Rightarrow> string" where
  "persona_text ls body = ''---'' @ [newline] @ join_with [newline] ls @ fence @ [newline] @ body"

text \<open>Lines of a front matter: none of them is a fence.\<close>

definition matter_line :: "string \<Rightarrow> bool" where
  "matter_line l \<longleftrightarrow> newline \<notin> set l \<and> l \<noteq> ''---''"

lemma cut_skip: "newline \<notin> set l \<Longrightarrow> cut_at fence (l @ s) = map_option (\<lambda>(a, b). (l @ a, b)) (cut_at fence s)"
proof (induction l)
  case (Cons c l)
  have "\<not> has_prefix fence (c # l @ s)" using Cons.prems by (auto simp: has_prefix_iff fence_def)
  then show ?case using Cons by (simp add: option.map_comp comp_def case_prod_beta)
qed (simp add: option.map_id)

lemma line_no_fence:
  assumes "matter_line l" and "s = newline # t"
  shows "\<not> has_prefix fence (newline # l @ s)"
proof
  assume "has_prefix fence (newline # l @ s)"
  then obtain u where "l @ newline # t = ''---'' @ newline # u"
    using assms(2) by (auto simp: has_prefix_iff fence_def)
  moreover have "newline \<notin> set ''---''" by (simp add: newline_def)
  ultimately have "takeWhile (\<lambda>c. c \<noteq> newline) (l @ newline # t) = ''---''"
    by (simp add: newline_def)
  moreover have "takeWhile (\<lambda>c. c \<noteq> newline) (l @ newline # t) = l"
    using assms(1) by (subst takeWhile_append2) (auto simp: matter_line_def)
  ultimately have "l = ''---''" by simp
  then show False using assms(1) by (simp add: matter_line_def)
qed

lemma cut_matter:
  assumes "ls \<noteq> []" and "list_all matter_line ls"
  shows "cut_at fence (join_with [newline] ls @ fence @ rest) = Some (join_with [newline] ls, rest)"
  using assms
proof (induction "[newline]" ls rule: join_with.induct)
  case (2 x)
  have "cut_at fence (fence @ rest) = Some ([], rest)" by (simp add: fence_def has_prefix_def)
  then show ?case using 2 by (simp add: cut_skip matter_line_def)
next
  case (3 x y ys)
  let ?r = "join_with [newline] (y # ys)"
  have "\<not> has_prefix fence (newline # ?r @ fence @ rest)"
  proof (cases ys)
    case Nil
    then show ?thesis using 3 line_no_fence [of y "fence @ rest"] by (simp add: fence_def)
  next
    case (Cons z zs)
    then show ?thesis using 3 line_no_fence [of y "newline # join_with [newline] ys @ fence @ rest"] by simp
  qed
  then have "cut_at fence (newline # ?r @ fence @ rest) = Some (newline # ?r, rest)" using 3 by simp
  then show ?case using 3 by (simp add: cut_skip matter_line_def)
qed simp

lemma split_joined_lines: "ls \<noteq> [] \<Longrightarrow> list_all matter_line ls \<Longrightarrow> split_on newline (join_with [newline] ls) = ls"
proof (induction "[newline]" ls rule: join_with.induct)
  case (3 x y ys)
  then show ?case using split_on_append_line [of newline x] by (simp add: split_on_none matter_line_def)
qed (simp_all add: split_on_none matter_line_def)

text \<open>
  A persona that is written as front matter and body is read back: the chain of its first model line
  and the body, line for line, whatever the other lines are.
\<close>

theorem persona_round_trip:
  assumes "ls \<noteq> []" and "list_all matter_line ls"
    and "find (has_prefix ''model:'') ls = Some (''model:'' @ raw)" and "parse_model_chain (trim_space raw) = Inr chain"
  shows "parse_persona (persona_text ls body) name = Inr (chain, body)"
proof -
  have cut: "cut_at fence (drop 4 (persona_text ls body)) = Some (join_with [newline] ls, newline # body)"
    using cut_matter [OF assms(1,2)] by (simp add: persona_text_def)
  have "model_line (join_with [newline] ls) = trim_space raw"
    by (simp only: model_line_def split_joined_lines [OF assms(1,2)] assms(3) option.case trim_prefix_append)
  moreover have "trim_space raw \<noteq> []" using assms(4) by (auto simp: parse_model_chain_def trim_id)
  moreover have "has_prefix (''---'' @ [newline]) (persona_text ls body)"
    by (simp add: persona_text_def has_prefix_def)
  moreover have "trim_prefix [newline] (newline # body) = body" by (simp add: trim_prefix_def has_prefix_def)
  ultimately show ?thesis using cut assms(4) by (simp add: parse_persona_def)
qed

theorem persona_round_trip_witness:
  "parse_persona (persona_text [''name: dev'', ''model: a, b,a''] ''You are.'') ''p'' = Inr ([''a'', ''b''], ''You are.'')"
proof (rule persona_round_trip)
  show "find (has_prefix ''model:'') [''name: dev'', ''model: a, b,a''] = Some (''model:'' @ '' a, b,a'')"
    by (simp add: has_prefix_def)
  show "parse_model_chain (trim_space '' a, b,a'') = Inr [''a'', ''b'']" by code_simp
qed (simp_all add: matter_line_def newline_def)

end
