(* ===== verification/Pi_Dir.thy ===== *)
theory Pi_Dir
  imports Preflight Gm_Dispatch
begin

text \<open>
  The agent directory of \<open>pi\<close> that golemic owns (\<open>agent/piagentdir.go\<close>): it is seeded with links to
  the entries of the user's directory, with the extension of golemic beside those of the user, and with
  settings that force compaction. The state is the file system below both directories, as the list of
  its paths, and the history of the operations; which operation or query fails, and how, is a function
  of that history. A link is followed as a whole path.
\<close>

section \<open>The file system\<close>

datatype node = NDir | NFile string | NLink string

type_synonym nodes = "(string \<times> node) list"

datatype os_err = ENotExist | EExist | EOther string

datatype dir_op =
    DMkdirAll string
  | DRemove string
  | DSymlink string string
  | DCreateTemp string
  | DWrite string string
  | DClose string
  | DRename string string

datatype dir_query = QStat string | QLstat string | QReadlink string | QReadDir string | QReadFile string

datatype dir_event = DidOp dir_op "os_err option" | DidQuery dir_query

record pi_os =
  pi_op_fault :: "dir_event list \<Rightarrow> dir_op \<Rightarrow> os_err option"
  pi_query_fault :: "dir_event list \<Rightarrow> dir_query \<Rightarrow> os_err option"
  pi_home :: "os_err + string"
  pi_lookup :: "string \<Rightarrow> string option"
  pi_temp_suffix :: "dir_event list \<Rightarrow> string"
  pi_float :: "string \<Rightarrow> string option"

record dir_state =
  ds_nodes :: nodes
  ds_trace :: "dir_event list"

type_synonym 'a pd = "(dir_state, 'a) state"

abbreviation pd_return :: "'a \<Rightarrow> 'a pd" where
  "pd_return \<equiv> State_Monad.return"

definition del_node :: "string \<Rightarrow> nodes \<Rightarrow> nodes" where
  "del_node p ns = filter (\<lambda>x. fst x \<noteq> p) ns"

definition put_node :: "string \<Rightarrow> node \<Rightarrow> nodes \<Rightarrow> nodes" where
  "put_node p n ns = (p, n) # del_node p ns"

text \<open>The path that is meant after links; too many links are an error.\<close>

fun resolve_link :: "nat \<Rightarrow> nodes \<Rightarrow> string \<Rightarrow> string option" where
  "resolve_link 0 ns p = None"
| "resolve_link (Suc n) ns p =
     (case map_of ns p of None \<Rightarrow> None | Some (NLink t) \<Rightarrow> resolve_link n ns t | Some _ \<Rightarrow> Some p)"

definition max_links :: nat where
  "max_links = 40"

definition child_name :: "string \<Rightarrow> string \<Rightarrow> string option" where
  "child_name d p =
     (if has_prefix (d @ ''/'') p
      then (let n = drop (length d + 1) p in if n \<noteq> [] \<and> CHR ''/'' \<notin> set n then Some n else None)
      else None)"

definition children :: "string \<Rightarrow> nodes \<Rightarrow> string list" where
  "children d ns = sort_strings (remdups (List.map_filter (\<lambda>x. child_name d (fst x)) ns))"

definition op_effect :: "dir_op \<Rightarrow> nodes \<Rightarrow> os_err + nodes" where
  "op_effect op ns =
     (case op of
        DMkdirAll p \<Rightarrow>
          (case map_of ns p of
             None \<Rightarrow> Inr (put_node p NDir ns)
           | Some _ \<Rightarrow> (case resolve_link max_links ns p of
               Some q \<Rightarrow> if map_of ns q = Some NDir then Inr ns else Inl (EOther ''not a directory'')
             | None \<Rightarrow> Inl EExist))
      | DRemove p \<Rightarrow>
          (case map_of ns p of
             None \<Rightarrow> Inl ENotExist
           | Some n \<Rightarrow> if n = NDir \<and> children p ns \<noteq> [] then Inl (EOther ''directory not empty'') else Inr (del_node p ns))
      | DSymlink t p \<Rightarrow> (if map_of ns p = None then Inr (put_node p (NLink t) ns) else Inl EExist)
      | DCreateTemp p \<Rightarrow> (if map_of ns p = None then Inr (put_node p (NFile []) ns) else Inl EExist)
      | DWrite p content \<Rightarrow> Inr (put_node p (NFile content) ns)
      | DClose p \<Rightarrow> Inr ns
      | DRename p q \<Rightarrow>
          (case map_of ns p of
             None \<Rightarrow> Inl ENotExist
           | Some n \<Rightarrow> if map_of ns q = Some NDir then Inl EExist else Inr (put_node q n (del_node p ns))))"

definition pd_do :: "pi_os \<Rightarrow> dir_op \<Rightarrow> os_err option pd" where
  "pd_do P op =
     State (\<lambda>s.
       case (case pi_op_fault P (ds_trace s) op of Some e \<Rightarrow> Inl e | None \<Rightarrow> op_effect op (ds_nodes s)) of
         Inl e \<Rightarrow> (Some e, s\<lparr>ds_trace := ds_trace s @ [DidOp op (Some e)]\<rparr>)
       | Inr ns \<Rightarrow> (None, \<lparr>ds_nodes = ns, ds_trace = ds_trace s @ [DidOp op None]\<rparr>))"

definition pd_ask :: "pi_os \<Rightarrow> dir_query \<Rightarrow> (nodes \<Rightarrow> os_err + 'a) \<Rightarrow> (os_err + 'a) pd" where
  "pd_ask P q f =
     State (\<lambda>s.
       (case pi_query_fault P (ds_trace s) q of Some e \<Rightarrow> Inl e | None \<Rightarrow> f (ds_nodes s),
        s\<lparr>ds_trace := ds_trace s @ [DidQuery q]\<rparr>))"

definition os_stat :: "pi_os \<Rightarrow> string \<Rightarrow> (os_err + unit) pd" where
  "os_stat P p =
     pd_ask P (QStat p) (\<lambda>ns. case resolve_link max_links ns p of None \<Rightarrow> Inl ENotExist | Some _ \<Rightarrow> Inr ())"

definition os_is_link :: "pi_os \<Rightarrow> string \<Rightarrow> (os_err + bool) pd" where
  "os_is_link P p =
     pd_ask P (QLstat p)
       (\<lambda>ns. case map_of ns p of None \<Rightarrow> Inl ENotExist | Some (NLink _) \<Rightarrow> Inr True | Some _ \<Rightarrow> Inr False)"

definition os_readlink :: "pi_os \<Rightarrow> string \<Rightarrow> (os_err + string) pd" where
  "os_readlink P p =
     pd_ask P (QReadlink p)
       (\<lambda>ns. case map_of ns p of None \<Rightarrow> Inl ENotExist | Some (NLink t) \<Rightarrow> Inr t | Some _ \<Rightarrow> Inl (EOther ''invalid argument''))"

definition os_read_dir :: "pi_os \<Rightarrow> string \<Rightarrow> (os_err + string list) pd" where
  "os_read_dir P p =
     pd_ask P (QReadDir p)
       (\<lambda>ns. case resolve_link max_links ns p of
          None \<Rightarrow> Inl ENotExist
        | Some q \<Rightarrow> if map_of ns q = Some NDir then Inr (children q ns) else Inl (EOther ''not a directory''))"

definition os_read_file :: "pi_os \<Rightarrow> string \<Rightarrow> (os_err + string) pd" where
  "os_read_file P p =
     pd_ask P (QReadFile p)
       (\<lambda>ns. case resolve_link max_links ns p of
          None \<Rightarrow> Inl ENotExist
        | Some q \<Rightarrow> (case map_of ns q of Some (NFile c) \<Rightarrow> Inr c | _ \<Rightarrow> Inl (EOther ''is a directory'')))"

section \<open>Links\<close>

text \<open>An outcome: a value, an error, named by what failed, or a panic.\<close>

datatype 'a prepared = Prepared 'a | Refused string | PreparePanics

definition verify_symlink_converged :: "pi_os \<Rightarrow> string \<Rightarrow> string \<Rightarrow> unit prepared pd" where
  "verify_symlink_converged P dst target =
     do {
       r \<leftarrow> os_readlink P dst;
       pd_return (if r = Inr target then Prepared () else Refused (''agent: create symlink '' @ dst))
     }"

definition ensure_symlink :: "pi_os \<Rightarrow> string \<Rightarrow> string \<Rightarrow> unit prepared pd" where
  "ensure_symlink P dst target =
     do {
       existing \<leftarrow> os_readlink P dst;
       (if existing = Inr target then pd_return (Prepared ())
        else do {
          removed \<leftarrow> (if existing \<noteq> Inl ENotExist then pd_do P (DRemove dst) else pd_return None);
          (if removed \<noteq> None \<and> removed \<noteq> Some ENotExist then pd_return (Refused (''agent: remove stale entry '' @ dst))
           else do {
             e \<leftarrow> pd_do P (DSymlink target dst);
             (case e of
                None \<Rightarrow> pd_return (Prepared ())
              | Some EExist \<Rightarrow> verify_symlink_converged P dst target
              | Some _ \<Rightarrow> pd_return (Refused (''agent: create symlink '' @ dst)))
           })
        })
     }"

text \<open>One link for each name; the first failure ends the loop.\<close>

fun link_all :: "pi_os \<Rightarrow> string \<Rightarrow> string \<Rightarrow> string list \<Rightarrow> unit prepared pd" where
  "link_all P dir src [] = pd_return (Prepared ())"
| "link_all P dir src (n # ns) =
     do {
       r \<leftarrow> ensure_symlink P (path_join [dir, n]) (path_join [src, n]);
       (case r of Prepared _ \<Rightarrow> link_all P dir src ns | _ \<Rightarrow> pd_return r)
     }"

definition seed_local_pi_agent_dir :: "pi_os \<Rightarrow> string \<Rightarrow> string \<Rightarrow> unit prepared pd" where
  "seed_local_pi_agent_dir P local_dir own_dir =
     do {
       r \<leftarrow> os_read_dir P local_dir;
       (case r of
          Inl _ \<Rightarrow> pd_return (Refused (''agent: read local pi agent dir '' @ local_dir))
        | Inr names \<Rightarrow>
            link_all P own_dir local_dir (filter (\<lambda>n. n \<noteq> ''settings.json'' \<and> n \<noteq> ''extensions'') names))
     }"

section \<open>Extensions\<close>

definition relink_extensions :: "pi_os \<Rightarrow> string \<Rightarrow> string \<Rightarrow> unit prepared pd" where
  "relink_extensions P ext_dir src_dir =
     (if src_dir = [] then pd_return (Prepared ())
      else do {
        r \<leftarrow> os_read_dir P src_dir;
        (case r of
           Inl _ \<Rightarrow> pd_return (Prepared ())
         | Inr names \<Rightarrow> link_all P ext_dir src_dir (filter (\<lambda>n. n \<noteq> ''golemic'') names))
      })"

definition replace_symlink_with_dir :: "pi_os \<Rightarrow> string \<Rightarrow> unit prepared pd" where
  "replace_symlink_with_dir P ext_dir =
     do {
       target \<leftarrow> os_readlink P ext_dir;
       e \<leftarrow> pd_do P (DRemove ext_dir);
       (if e \<noteq> None \<and> e \<noteq> Some ENotExist then pd_return (Refused (''agent: remove extensions symlink '' @ ext_dir))
        else do {
          e2 \<leftarrow> pd_do P (DMkdirAll ext_dir);
          (if e2 \<noteq> None then pd_return (Refused (''agent: create extensions dir '' @ ext_dir))
           else relink_extensions P ext_dir (case target of Inr t \<Rightarrow> t | Inl _ \<Rightarrow> []))
        })
     }"

definition expand_ext_symlink :: "pi_os \<Rightarrow> string \<Rightarrow> unit prepared pd" where
  "expand_ext_symlink P ext_dir =
     do {
       l \<leftarrow> os_is_link P ext_dir;
       (if l = Inr True then replace_symlink_with_dir P ext_dir else pd_return (Prepared ()))
     }"

definition stat_exists :: "pi_os \<Rightarrow> string \<Rightarrow> (os_err + bool) pd" where
  "stat_exists P p =
     (if p = [] then pd_return (Inr False)
      else do {
        r \<leftarrow> os_stat P p;
        pd_return (case r of Inr _ \<Rightarrow> Inr True | Inl ENotExist \<Rightarrow> Inr False | Inl e \<Rightarrow> Inl e)
      })"

definition seed_extensions :: "pi_os \<Rightarrow> string \<Rightarrow> string \<Rightarrow> string \<Rightarrow> unit prepared pd" where
  "seed_extensions P own_dir local_ext gm_src =
     (let ext_dir = path_join [own_dir, ''extensions''] in
      do {
        has_gm \<leftarrow> stat_exists P gm_src;
        (case has_gm of
           Inl _ \<Rightarrow> pd_return (Refused (''agent: stat gm extension source '' @ gm_src))
         | Inr False \<Rightarrow>
             do {
               there \<leftarrow> stat_exists P local_ext;
               (if there = Inr True then ensure_symlink P ext_dir local_ext else pd_return (Prepared ()))
             }
         | Inr True \<Rightarrow>
             do {
               r1 \<leftarrow> expand_ext_symlink P ext_dir;
               (case r1 of
                  Prepared _ \<Rightarrow>
                    do {
                      e \<leftarrow> pd_do P (DMkdirAll ext_dir);
                      (if e \<noteq> None then pd_return (Refused (''agent: create extensions dir '' @ ext_dir))
                       else do {
                         r2 \<leftarrow> relink_extensions P ext_dir local_ext;
                         (case r2 of
                            Prepared _ \<Rightarrow> ensure_symlink P (path_join [ext_dir, ''golemic'']) gm_src
                          | _ \<Rightarrow> pd_return r2)
                       })
                    }
                | _ \<Rightarrow> pd_return r1)
             })
      })"

section \<open>Settings\<close>

text \<open>A value as \<open>any\<close>: numbers through \<open>float64\<close>, whose text is \<open>F\<close>, objects as maps.\<close>

fun through_any :: "(string \<Rightarrow> string option) \<Rightarrow> json \<Rightarrow> json option" where
  "through_any F (JNum t) = map_option JNum (F t)"
| "through_any F (JArr xs) = map_option JArr (those (map (through_any F) xs))"
| "through_any F (JObj kvs) =
     map_option sorted_object (those (map (\<lambda>kv. map_option (Pair (fst kv)) (through_any F (snd kv))) kvs))"
| "through_any F j = Some j"

text \<open>The settings map after decoding: \<open>null\<close> sets the map to nil, and writing to it panics.\<close>

definition derived_settings :: "(string \<Rightarrow> string option) \<Rightarrow> string \<Rightarrow> json prepared" where
  "derived_settings F data =
     (let refused = Refused ''agent: parse local pi settings.json'';
          forced = (\<lambda>kvs. let compaction = (case map_of kvs ''compaction'' of Some (JObj c) \<Rightarrow> c | _ \<Rightarrow> []) in
            sorted_object (kvs @ [(''compaction'', sorted_object (compaction @ [(''enabled'', JBool True)]))]))
      in if data = [] then Prepared (forced [])
         else (case unmarshal data of
            None \<Rightarrow> refused
          | Some j \<Rightarrow>
              (case through_any F j of
                 Some (JObj kvs) \<Rightarrow> Prepared (forced kvs)
               | Some JNull \<Rightarrow> PreparePanics
               | _ \<Rightarrow> refused)))"

definition write_through :: "pi_os \<Rightarrow> string \<Rightarrow> string \<Rightarrow> string \<Rightarrow> unit prepared pd" where
  "write_through P tmp dst content =
     do {
       e1 \<leftarrow> pd_do P (DCreateTemp tmp);
       (if e1 \<noteq> None then pd_return (Refused (''agent: create temp file for '' @ dst))
        else do {
          e2 \<leftarrow> pd_do P (DWrite tmp content);
          (if e2 \<noteq> None then do {
             _ \<leftarrow> pd_do P (DClose tmp);
             _ \<leftarrow> pd_do P (DRemove tmp);
             pd_return (Refused (''agent: write '' @ dst))
           }
           else do {
             e3 \<leftarrow> pd_do P (DClose tmp);
             (if e3 \<noteq> None then do { _ \<leftarrow> pd_do P (DRemove tmp); pd_return (Refused (''agent: close temp '' @ dst)) }
              else do {
                e4 \<leftarrow> pd_do P (DRename tmp dst);
                (if e4 \<noteq> None then do { _ \<leftarrow> pd_do P (DRemove tmp); pd_return (Refused (''agent: rename '' @ dst)) }
                 else pd_return (Prepared ()))
              })
           })
        })
     }"

text \<open>The name of the temporary file is one of the directory that the system chooses.\<close>

definition write_pi_file_atomic :: "pi_os \<Rightarrow> string \<Rightarrow> string \<Rightarrow> string \<Rightarrow> unit prepared pd" where
  "write_pi_file_atomic P dir dst content =
     do {
       s \<leftarrow> State_Monad.get;
       write_through P (dir @ ''/'' @ path_base dst @ ''.tmp.'' @ pi_temp_suffix P (ds_trace s)) dst content
     }"

definition derive_settings :: "pi_os \<Rightarrow> string \<Rightarrow> string \<Rightarrow> unit prepared pd" where
  "derive_settings P local_dir own_dir =
     do {
       r \<leftarrow> os_read_file P (path_join [local_dir, ''settings.json'']);
       (case r of
          Inl (EOther m) \<Rightarrow> pd_return (Refused ''agent: read local pi settings.json'')
        | Inl EExist \<Rightarrow> pd_return (Refused ''agent: read local pi settings.json'')
        | _ \<Rightarrow>
            (case derived_settings (pi_float P) (case r of Inr data \<Rightarrow> data | Inl _ \<Rightarrow> []) of
               Prepared j \<Rightarrow> write_pi_file_atomic P own_dir (path_join [own_dir, ''settings.json'']) (json_indent 2 0 j)
             | Refused m \<Rightarrow> pd_return (Refused m)
             | PreparePanics \<Rightarrow> pd_return PreparePanics))
     }"

section \<open>Preparing the directory\<close>

definition resolve_local_pi_agent_dir :: "pi_os \<Rightarrow> string prepared" where
  "resolve_local_pi_agent_dir P =
     (case pi_lookup P ''PI_CODING_AGENT_DIR'' of
        Some d \<Rightarrow> if d \<noteq> [] then Prepared d
                  else (case pi_home P of Inl _ \<Rightarrow> Refused ''agent: cannot determine home directory''
                        | Inr h \<Rightarrow> Prepared (path_join [h, ''.pi'', ''agent'']))
      | None \<Rightarrow> (case pi_home P of Inl _ \<Rightarrow> Refused ''agent: cannot determine home directory''
                 | Inr h \<Rightarrow> Prepared (path_join [h, ''.pi'', ''agent''])))"

definition check_local_pi_dir :: "pi_os \<Rightarrow> string \<Rightarrow> string option pd" where
  "check_local_pi_dir P local_dir =
     do {
       r \<leftarrow> os_stat P local_dir;
       pd_return (case r of
           Inr _ \<Rightarrow> None
         | Inl ENotExist \<Rightarrow> Some (''pi agent dir not found at '' @ local_dir @ ''; pi must be installed (auto-install not yet supported)'')
         | Inl _ \<Rightarrow> Some (''agent: stat local pi agent dir '' @ local_dir))
     }"

definition resolve_golemic_home_dir :: "pi_os \<Rightarrow> string \<Rightarrow> string prepared" where
  "resolve_golemic_home_dir P override =
     (if override \<noteq> [] then Prepared override
      else (case pi_home P of Inl _ \<Rightarrow> Refused ''home directory'' | Inr h \<Rightarrow> Prepared h))"

definition prepare_pi_agent_dir :: "pi_os \<Rightarrow> string \<Rightarrow> string \<Rightarrow> string \<Rightarrow> string prepared pd" where
  "prepare_pi_agent_dir P local_dir gm_src override =
     do {
       bad \<leftarrow> check_local_pi_dir P local_dir;
       (case bad of Some m \<Rightarrow> pd_return (Refused m) | None \<Rightarrow>
        (case resolve_golemic_home_dir P override of
           Refused m \<Rightarrow> pd_return (Refused m)
         | PreparePanics \<Rightarrow> pd_return PreparePanics
         | Prepared home \<Rightarrow>
             (let dir = path_join [home, ''.golemic'', ''pi''] in
              do {
                e \<leftarrow> pd_do P (DMkdirAll dir);
                (if e \<noteq> None then pd_return (Refused (''agent: create golemic pi agent dir '' @ dir))
                 else do {
                   r1 \<leftarrow> seed_local_pi_agent_dir P local_dir dir;
                   (case r1 of Refused m \<Rightarrow> pd_return (Refused m) | PreparePanics \<Rightarrow> pd_return PreparePanics | Prepared _ \<Rightarrow>
                    do {
                      r2 \<leftarrow> seed_extensions P dir (path_join [local_dir, ''extensions'']) gm_src;
                      (case r2 of Refused m \<Rightarrow> pd_return (Refused m) | PreparePanics \<Rightarrow> pd_return PreparePanics | Prepared _ \<Rightarrow>
                       do {
                         r3 \<leftarrow> derive_settings P local_dir dir;
                         pd_return (case r3 of Refused m \<Rightarrow> Refused m | PreparePanics \<Rightarrow> PreparePanics | Prepared _ \<Rightarrow> Prepared dir)
                       })
                    })
                 })
              })))
     }"

section \<open>What the operations touch\<close>

definition lookup :: "dir_state \<Rightarrow> string \<Rightarrow> node option" where
  "lookup s p = map_of (ds_nodes s) p"

definition frame :: "string set \<Rightarrow> dir_state \<Rightarrow> dir_state \<Rightarrow> bool" where
  "frame S s t \<longleftrightarrow> (\<forall>p. p \<notin> S \<longrightarrow> lookup t p = lookup s p)"

interpretation frame: io_relation "frame S" for S
proof
  show "frame S s s" for s by (simp add: frame_def)
  show "frame S s t \<Longrightarrow> frame S t u \<Longrightarrow> frame S s u" for s t u by (simp add: frame_def)
qed

definition op_paths :: "dir_op \<Rightarrow> string set" where
  "op_paths op =
     (case op of DMkdirAll p \<Rightarrow> {p} | DRemove p \<Rightarrow> {p} | DSymlink t p \<Rightarrow> {p} | DCreateTemp p \<Rightarrow> {p}
      | DWrite p c \<Rightarrow> {p} | DClose p \<Rightarrow> {} | DRename p q \<Rightarrow> {p, q})"

lemma map_of_del [simp]: "map_of (del_node p ns) q = (if q = p then None else map_of ns q)"
  by (induction ns) (auto simp: del_node_def)

lemma map_of_put [simp]: "map_of (put_node p n ns) q = (if q = p then Some n else map_of ns q)"
  by (simp add: put_node_def)

lemma op_effect_frame: "op_effect op ns = Inr ns' \<Longrightarrow> q \<notin> op_paths op \<Longrightarrow> map_of ns' q = map_of ns q"
  by (auto simp: op_effect_def op_paths_def split: dir_op.splits option.splits if_splits)

lemma frame_do: "op_paths op \<subseteq> S \<Longrightarrow> state_io_rel (frame S) (pd_do P op)"
  using op_effect_frame
  by (fastforce simp: state_io_rel_def frame_def lookup_def pd_do_def split: option.splits sum.splits)

lemma frame_ask: "state_io_rel (frame S) (pd_ask P q f)"
  by (simp add: state_io_rel_def frame_def lookup_def pd_ask_def)

lemma frame_prepared:
  "(\<And>a. state_io_rel (frame S) (f a)) \<Longrightarrow> (\<And>m. state_io_rel (frame S) (g m)) \<Longrightarrow> state_io_rel (frame S) h \<Longrightarrow>
     state_io_rel (frame S) (case x of Prepared a \<Rightarrow> f a | Refused m \<Rightarrow> g m | PreparePanics \<Rightarrow> h)"
  by (cases x) simp_all

lemma frame_err:
  "state_io_rel (frame S) a \<Longrightarrow> state_io_rel (frame S) b \<Longrightarrow> (\<And>m. state_io_rel (frame S) (c m)) \<Longrightarrow>
     state_io_rel (frame S) (case x of ENotExist \<Rightarrow> a | EExist \<Rightarrow> b | EOther m \<Rightarrow> c m)"
  by (cases x) simp_all

lemma frame_bool:
  "state_io_rel (frame S) a \<Longrightarrow> state_io_rel (frame S) b \<Longrightarrow> state_io_rel (frame S) (case x of True \<Rightarrow> a | False \<Rightarrow> b)"
  by (cases x) simp_all

lemma frame_queries:
  "state_io_rel (frame S) (os_stat P p)" "state_io_rel (frame S) (os_is_link P p)" "state_io_rel (frame S) (os_readlink P p)"
  "state_io_rel (frame S) (os_read_dir P p)" "state_io_rel (frame S) (os_read_file P p)"
  by (simp_all add: os_stat_def os_is_link_def os_readlink_def os_read_dir_def os_read_file_def frame_ask)

lemmas frame_rules = frame.io_rules frame_prepared frame_err frame_bool frame_queries

lemma frame_ensure: "dst \<in> S \<Longrightarrow> state_io_rel (frame S) (ensure_symlink P dst target)"
  unfolding ensure_symlink_def verify_symlink_converged_def
  by (intro frame_rules frame_do) (simp_all add: op_paths_def)

lemma frame_link_all:
  "(\<And>n. n \<in> set ns \<Longrightarrow> path_join [dir, n] \<in> S) \<Longrightarrow> state_io_rel (frame S) (link_all P dir src ns)"
  by (induction ns) (auto intro!: frame_rules frame_ensure)

definition under :: "string \<Rightarrow> string \<Rightarrow> bool" where
  "under d p \<longleftrightarrow> p = d \<or> has_prefix (d @ ''/'') p"

lemma under_join: "d \<noteq> [] \<Longrightarrow> under d (path_join [d, n])"
  by (simp add: under_def path_join_def has_prefix_iff)


lemma join_nonempty: "d \<noteq> [] \<Longrightarrow> path_join [d, n] \<noteq> []"
  by (simp add: path_join_def)

lemma frame_relink: "d \<noteq> [] \<Longrightarrow> state_io_rel (frame (Collect (under d))) (relink_extensions P d src)"
  unfolding relink_extensions_def by (intro frame_rules frame_link_all) (simp add: under_join)

lemma frame_expand: "d \<noteq> [] \<Longrightarrow> state_io_rel (frame (Collect (under d))) (expand_ext_symlink P d)"
  unfolding expand_ext_symlink_def replace_symlink_with_dir_def
  by (intro frame_rules frame_relink frame_do) (simp_all add: op_paths_def under_def)

lemma frame_stat_exists: "state_io_rel (frame S) (stat_exists P p)"
  unfolding stat_exists_def by (intro frame_rules)

lemma frame_extensions:
  "d \<noteq> [] \<Longrightarrow> state_io_rel (frame (Collect (under (path_join [d, ''extensions''])))) (seed_extensions P d local gm)"
  unfolding seed_extensions_def Let_def
  by (intro frame_rules frame_stat_exists frame_ensure frame_expand frame_relink frame_do)
    (simp_all add: op_paths_def under_def[of _ "path_join [d, ''extensions'']"] under_join join_nonempty)






definition own_pi_dir :: "string \<Rightarrow> string" where
  "own_pi_dir home = path_join [home, ''.golemic'', ''pi'']"

lemma own_pi_dir_nonempty: "own_pi_dir home \<noteq> []"
  by (simp add: own_pi_dir_def path_join_def)



section \<open>What a prepared directory holds\<close>

definition linked :: "string \<Rightarrow> string \<Rightarrow> dir_state \<Rightarrow> bool" where
  "linked dst target s \<longleftrightarrow> lookup s dst = Some (NLink target)"

lemma run_ask: "run_state (pd_ask P q f) s = (r, t) \<Longrightarrow> ds_nodes t = ds_nodes s \<and> (\<forall>a. r = Inr a \<longrightarrow> f (ds_nodes s) = Inr a)"
  by (auto simp: pd_ask_def split: option.splits)

lemma readlink_linked: "run_state (os_readlink P dst) s = (Inr target, t) \<Longrightarrow> linked dst target t"
  unfolding os_readlink_def by (drule run_ask) (auto simp: linked_def lookup_def split: option.splits node.splits)

lemma symlink_linked: "run_state (pd_do P (DSymlink target dst)) s = (None, t) \<Longrightarrow> linked dst target t"
  by (auto simp: pd_do_def linked_def lookup_def op_effect_def split: option.splits sum.splits if_splits)

lemma ensure_linked:
  assumes "run_state (ensure_symlink P dst target) s = (Prepared (), t)"
  shows "linked dst target t"
  using assms readlink_linked symlink_linked
  by (fastforce simp: ensure_symlink_def verify_symlink_converged_def split: prod.splits if_splits option.splits os_err.splits)

lemma join_entry: "d \<noteq> [] \<Longrightarrow> n \<noteq> [] \<Longrightarrow> path_join [d, n] = d @ ''/'' @ n"
  by (simp add: path_join_def)

lemma linked_frame: "state_io_rel (frame S) m \<Longrightarrow> run_state m s = (r, t) \<Longrightarrow> p \<notin> S \<Longrightarrow> linked p tg s \<Longrightarrow> linked p tg t"
  by (metis frame_def linked_def snd_conv state_io_rel_def)

lemma link_all_linked:
  assumes "run_state (link_all P d src ns) s = (Prepared (), t)" and "d \<noteq> []" and "distinct ns" and "[] \<notin> set ns"
    and "n \<in> set ns"
  shows "linked (path_join [d, n]) (path_join [src, n]) t"
  using assms
proof (induction ns arbitrary: s)
  case (Cons m ns)
  obtain r s1 where e: "run_state (ensure_symlink P (path_join [d, m]) (path_join [src, m])) s = (r, s1)" by fastforce
  have r: "r = Prepared ()" and rest: "run_state (link_all P d src ns) s1 = (Prepared (), t)"
    using Cons.prems(1) e by (auto split: prepared.splits)
  show ?case
  proof (cases "n = m")
    case True
    have "state_io_rel (frame ((\<lambda>n. path_join [d, n]) ` set ns)) (link_all P d src ns)"
      by (rule frame_link_all) simp
    moreover have "path_join [d, m] \<noteq> path_join [d, k]" if "k \<in> set ns" for k
    proof -
      have "k \<noteq> []" "m \<noteq> []" "k \<noteq> m" using that Cons.prems(3,4) by auto
      then show ?thesis using Cons.prems(2) by (simp add: join_entry)
    qed
    ultimately have "linked (path_join [d, m]) tg s1 \<Longrightarrow> linked (path_join [d, m]) tg t" for tg
      using linked_frame [OF _ rest] by blast
    then show ?thesis using ensure_linked [OF e [unfolded r]] True by simp
  next
    case False
    then show ?thesis using Cons.IH [OF rest] Cons.prems by simp
  qed
qed simp

lemma insert_sorted_set: "set (insert_sorted x xs) = insert x (set xs)"
  by (induction xs) auto

lemma sort_strings_set [simp]: "set (sort_strings xs) = set xs"
  by (induction xs) (simp_all add: sort_strings_def insert_sorted_set)

lemma insert_sorted_distinct: "x \<notin> set xs \<Longrightarrow> distinct xs \<Longrightarrow> distinct (insert_sorted x xs)"
  by (induction xs) (auto simp: insert_sorted_set)

lemma sort_strings_distinct: "distinct xs \<Longrightarrow> distinct (sort_strings xs)"
proof (induction xs)
  case (Cons x xs)
  then have "x \<notin> set (sort_strings xs)" "distinct (sort_strings xs)" by simp_all
  then show ?case by (simp add: sort_strings_def insert_sorted_distinct)
qed (simp add: sort_strings_def)

lemma children_ok: "distinct (children d ns)" "n \<in> set (children d ns) \<Longrightarrow> n \<noteq> [] \<and> CHR ''/'' \<notin> set n"
  by (auto simp: children_def sort_strings_distinct List.map_filter_def child_name_def Let_def split: if_splits)

definition seeded_names :: "string \<Rightarrow> nodes \<Rightarrow> string list" where
  "seeded_names q ns = filter (\<lambda>n. n \<noteq> ''settings.json'' \<and> n \<noteq> ''extensions'') (children q ns)"

definition lists :: "nodes \<Rightarrow> string \<Rightarrow> string \<Rightarrow> bool" where
  "lists ns p q \<longleftrightarrow> resolve_link max_links ns p = Some q \<and> map_of ns q = Some NDir"

lemma seed_linked:
  assumes run: "run_state (seed_local_pi_agent_dir P local d) s = (Prepared (), t)" and "d \<noteq> []"
    and lists: "lists (ds_nodes s) local q" and n: "n \<in> set (seeded_names q (ds_nodes s))"
  shows "linked (path_join [d, n]) (path_join [local, n]) t"
proof -
  obtain r s1 where r: "run_state (os_read_dir P local) s = (r, s1)" by fastforce
  obtain names where names: "r = Inr names"
    and rest: "run_state (link_all P d local (filter (\<lambda>n. n \<noteq> ''settings.json'' \<and> n \<noteq> ''extensions'') names)) s1 = (Prepared (), t)"
    using run r by (auto simp: seed_local_pi_agent_dir_def split: sum.splits)
  have "names = children q (ds_nodes s)"
    using run_ask [OF r [unfolded os_read_dir_def]] lists names by (simp add: lists_def)
  then show ?thesis
    using link_all_linked [OF rest \<open>d \<noteq> []\<close>] n children_ok [where d = q and ns = "ds_nodes s"]
    by (auto simp: seeded_names_def)
qed

lemma linked_do: "run_state (pd_do P op) s = (r, t) \<Longrightarrow> p \<notin> op_paths op \<Longrightarrow> linked p tg s \<Longrightarrow> linked p tg t"
  by (rule linked_frame [OF frame_do [OF order_refl]])

lemma write_through_linked:
  assumes run: "run_state (write_through P tmp dst content) s = (Prepared (), t)" and "linked p tg s" and "p \<noteq> dst"
  shows "linked p tg t"
proof -
  obtain e1 s1 where 1: "run_state (pd_do P (DCreateTemp tmp)) s = (e1, s1)" by fastforce
  have "e1 = None" using run 1 by (auto simp: write_through_def split: if_splits)
  then have tmp: "p \<noteq> tmp"
    using 1 assms(2) by (auto simp: pd_do_def op_effect_def linked_def lookup_def split: option.splits sum.splits if_splits)
  have "state_io_rel (frame {tmp, dst}) (write_through P tmp dst content)"
    unfolding write_through_def by (intro frame_rules frame_do) (simp_all add: op_paths_def)
  then show ?thesis by (rule linked_frame [OF _ run]) (use tmp assms in simp_all)
qed

lemma write_linked:
  "run_state (write_pi_file_atomic P dir dst content) s = (Prepared (), t) \<Longrightarrow> linked p tg s \<Longrightarrow> p \<noteq> dst \<Longrightarrow> linked p tg t"
  unfolding write_pi_file_atomic_def by (auto simp: State_Monad.get_def intro: write_through_linked)

lemma derive_linked:
  assumes run: "run_state (derive_settings P local d) s = (Prepared (), t)"
    and "linked p tg s" and "p \<noteq> path_join [d, ''settings.json'']"
  shows "linked p tg t"
proof -
  obtain r s1 where r: "run_state (os_read_file P (path_join [local, ''settings.json''])) s = (r, s1)" by fastforce
  have "linked p tg s1" by (rule linked_frame [OF frame_queries(5) [of "{}"] r _ assms(2)]) simp
  moreover obtain c where "run_state (write_pi_file_atomic P d (path_join [d, ''settings.json'']) c) s1 = (Prepared (), t)"
    using run r by (auto simp: derive_settings_def split: sum.splits os_err.splits prepared.splits)
  ultimately show ?thesis using write_linked assms(3) by simp
qed

lemma seeded_apart:
  assumes "d \<noteq> []" and "n \<in> set (seeded_names q ns)"
  shows "path_join [d, n] \<notin> Collect (under (path_join [d, ''extensions'']))" and "path_join [d, n] \<noteq> path_join [d, ''settings.json'']"
proof -
  have n: "n \<noteq> []" "CHR ''/'' \<notin> set n" "n \<noteq> ''extensions''" "n \<noteq> ''settings.json''"
    using assms(2) children_ok(2) [of n q ns] by (auto simp: seeded_names_def)
  have "n \<noteq> ''extensions'' @ ''/'' @ x" for x using n(2) by (auto dest: arg_cong [where f = set])
  then show "path_join [d, n] \<notin> Collect (under (path_join [d, ''extensions'']))"
    using n assms(1) by (auto simp: under_def has_prefix_iff join_entry)
  show "path_join [d, n] \<noteq> path_join [d, ''settings.json'']" using n assms(1) by (simp add: join_entry)
qed

lemma mkdir_keeps_listing:
  assumes "run_state (pd_do P (DMkdirAll d)) s = (None, t)" and lists: "lists (ds_nodes s) local q"
  shows "lists (ds_nodes t) local q \<and> set (seeded_names q (ds_nodes s)) \<subseteq> set (seeded_names q (ds_nodes t))"
proof -
  have t: "ds_nodes t = ds_nodes s \<or> (map_of (ds_nodes s) d = None \<and> ds_nodes t = put_node d NDir (ds_nodes s))"
    using assms(1) by (auto simp: pd_do_def op_effect_def split: option.splits sum.splits if_splits)
  have keep: "resolve_link k ns p = Some r \<Longrightarrow> map_of ns d = None \<Longrightarrow> resolve_link k (put_node d NDir ns) p = Some r" for k ns p r
    by (induction k ns p rule: resolve_link.induct) (auto split: option.splits node.splits)
  have more: "set ns \<subseteq> set (put_node d NDir ns)" if "map_of ns d = None" for ns
    using that by (auto simp: put_node_def del_node_def map_of_eq_None_iff image_iff)
  have seeded: "set (seeded_names q ns) \<subseteq> set (seeded_names q ns')" if "set ns \<subseteq> set ns'" for ns ns'
    using that by (auto simp: seeded_names_def children_def List.map_filter_def)
  show ?thesis using t lists keep seeded [OF more [of "ds_nodes s"]] by (auto simp: lists_def)
qed

text \<open>
  C35: A directory that was prepared has a link to each entry of the user's directory, settings and
  extensions apart, whatever was there before: stale links and files of that name are replaced.
\<close>

theorem prepared_dir_links:
  assumes run: "run_state (prepare_pi_agent_dir P local gm override) s = (Prepared dir, t)"
    and lists: "lists (ds_nodes s) local q" and n: "n \<in> set (seeded_names q (ds_nodes s))"
  shows "linked (path_join [dir, n]) (path_join [local, n]) t"
proof -
  obtain b s1 where 1: "run_state (check_local_pi_dir P local) s = (b, s1)" by fastforce
  have b: "b = None" using run 1 by (auto simp: prepare_pi_agent_dir_def split: option.splits)
  obtain home where home: "resolve_golemic_home_dir P override = Prepared home"
    using run 1 b by (auto simp: prepare_pi_agent_dir_def split: prepared.splits)
  let ?d = "own_pi_dir home"
  obtain e s2 where 2: "run_state (pd_do P (DMkdirAll ?d)) s1 = (e, s2)" by fastforce
  obtain r3 s3 where 3: "run_state (seed_local_pi_agent_dir P local ?d) s2 = (r3, s3)" by fastforce
  obtain r4 s4 where 4: "run_state (seed_extensions P ?d (path_join [local, ''extensions'']) gm) s3 = (r4, s4)" by fastforce
  obtain r5 s5 where 5: "run_state (derive_settings P local ?d) s4 = (r5, s5)" by fastforce
  have all: "e = None \<and> r3 = Prepared () \<and> r5 = Prepared () \<and> dir = ?d \<and> s5 = t"
    using run 1 b home 2 3 4 5
    by (auto simp: prepare_pi_agent_dir_def own_pi_dir_def Let_def split: if_splits prepared.splits)
  have nodes: "ds_nodes s1 = ds_nodes s"
    using 1 by (auto simp: check_local_pi_dir_def os_stat_def pd_ask_def)
  have listing: "lists (ds_nodes s2) local q" "n \<in> set (seeded_names q (ds_nodes s2))"
    using mkdir_keeps_listing [of P ?d s1 s2 local q] 2 all lists n nodes by auto
  have "linked (path_join [?d, n]) (path_join [local, n]) s3"
    by (rule seed_linked [OF _ own_pi_dir_nonempty listing]) (use 3 all in simp)
  then have "linked (path_join [?d, n]) (path_join [local, n]) s4"
    by (rule linked_frame [OF frame_extensions [OF own_pi_dir_nonempty] 4 seeded_apart(1) [OF own_pi_dir_nonempty n]])
  then have "linked (path_join [?d, n]) (path_join [local, n]) s5"
    using derive_linked [of P local ?d s4 s5] 5 all seeded_apart(2) [OF own_pi_dir_nonempty n] by simp
  then show ?thesis using all by simp
qed

definition calm_os :: pi_os where
  "calm_os = \<lparr>pi_op_fault = (\<lambda>_ _. None), pi_query_fault = (\<lambda>_ _. None), pi_home = Inr ''/h'', pi_lookup = (\<lambda>_. None),
     pi_temp_suffix = (\<lambda>_. ''1''), pi_float = Some\<rparr>"

definition user_dir :: dir_state where
  "user_dir = \<lparr>ds_nodes = [(''/u'', NDir), (''/u/auth.json'', NFile ''k''), (''/h/.golemic/pi/auth.json'', NLink ''/old'')], ds_trace = []\<rparr>"

lemma user_dir_prepared: "fst (run_state (prepare_pi_agent_dir calm_os ''/u'' [] []) user_dir) = Prepared ''/h/.golemic/pi''"
  by code_simp

theorem prepared_dir_links_witness:
  "linked ''/h/.golemic/pi/auth.json'' ''/u/auth.json'' (snd (run_state (prepare_pi_agent_dir calm_os ''/u'' [] []) user_dir))"
proof -
  have "lists (ds_nodes user_dir) ''/u'' ''/u'' \<and> ''auth.json'' \<in> set (seeded_names ''/u'' (ds_nodes user_dir))" by code_simp
  then show ?thesis
    using prepared_dir_links [of calm_os "''/u''" "[]" "[]" user_dir "''/h/.golemic/pi''" _ "''/u''" "''auth.json''"] user_dir_prepared
    by (simp add: prod_eq_iff path_join_def)
qed

section \<open>Settings\<close>

lemma sorted_object_entries: "\<exists>xs. sorted_object kvs = JObj xs \<and> map_of xs = map_of (rev kvs)"
proof -
  let ?f = "\<lambda>k. (k, the (map_of (rev kvs) k))"
  have "map_of (map ?f (sort_strings (remdups (map fst kvs)))) k = map_of (rev kvs) k" for k
  proof (cases "k \<in> fst ` set kvs")
    case True
    then obtain v where "map_of (rev kvs) k = Some v" using map_of_eq_None_iff [of "rev kvs" k] by fastforce
    then show ?thesis using True by (simp add: map_of_map_restrict restrict_map_def)
  next
    case False
    moreover from this have "map_of (rev kvs) k = None" by (simp add: map_of_eq_None_iff)
    ultimately show ?thesis by (simp add: map_of_map_restrict restrict_map_def)
  qed
  then show ?thesis by (auto simp: sorted_object_def)
qed

text \<open>What the derived settings are, beside those of the user.\<close>

definition settings_ok :: "json \<Rightarrow> (string \<times> json) list \<Rightarrow> bool" where
  "settings_ok j user \<longleftrightarrow>
     (case j of
        JObj kvs \<Rightarrow>
          (case map_of kvs ''compaction'' of Some (JObj c) \<Rightarrow> map_of c ''enabled'' = Some (JBool True) | _ \<Rightarrow> False) \<and>
          map_of kvs = (map_of user)(''compaction'' := map_of kvs ''compaction'')
      | _ \<Rightarrow> False)"

lemma forced_ok:
  "settings_ok (sorted_object (rev user @ [(''compaction'', sorted_object (c @ [(''enabled'', JBool True)]))])) user"
proof -
  obtain cs where c: "sorted_object (c @ [(''enabled'', JBool True)]) = JObj cs" "map_of cs = map_of (rev (c @ [(''enabled'', JBool True)]))"
    using sorted_object_entries by blast
  obtain xs where x: "sorted_object (rev user @ [(''compaction'', JObj cs)]) = JObj xs"
    "map_of xs = map_of (rev (rev user @ [(''compaction'', JObj cs)]))"
    using sorted_object_entries by blast
  show ?thesis by (simp add: settings_ok_def c x)
qed

lemma map_of_rev_distinct: "distinct (map fst xs) \<Longrightarrow> map_of (rev xs) = map_of xs"
proof (induction xs)
  case (Cons x xs)
  have "map_of (rev xs) (fst x) = None"
    using Cons.prems by (simp add: map_of_eq_None_iff)
  then show ?case using Cons by (auto simp: map_add_def fun_eq_iff split: option.splits)
qed simp

lemma through_obj_keys: "through_any F v = Some (JObj kvs) \<Longrightarrow> map_of (rev kvs) = map_of kvs"
proof (cases v)
  case (JObj ms)
  assume "through_any F v = Some (JObj kvs)"
  then obtain us where "sorted_object us = JObj kvs" using JObj by auto
  from this [symmetric] have "map fst kvs = sort_strings (remdups (map fst us))" by (simp add: sorted_object_def comp_def)
  then have "distinct (map fst kvs)" by (simp add: sort_strings_distinct)
  then show ?thesis by (simp add: map_of_rev_distinct)
qed (auto split: option.splits)

definition user_settings :: "(string \<Rightarrow> string option) \<Rightarrow> string \<Rightarrow> (string \<times> json) list" where
  "user_settings F data =
     (case unmarshal data of
        Some v \<Rightarrow> (case through_any F v of Some (JObj user) \<Rightarrow> user | _ \<Rightarrow> [])
      | None \<Rightarrow> [])"

text \<open>
  C0: The derived settings have compaction enabled and every other member as the user's file gives it;
  a file that cannot be read as an object refuses, and the text \<open>null\<close> panics.
\<close>

theorem settings_force_compaction:
  "case derived_settings F data of
     Prepared j \<Rightarrow> settings_ok j (if data = [] then [] else user_settings F data)
   | Refused m \<Rightarrow> data \<noteq> [] \<and> unmarshal data \<noteq> Some JNull
   | PreparePanics \<Rightarrow> unmarshal data = Some JNull"
proof (cases "data = []")
  case True
  then show ?thesis using forced_ok [of "[]" "[]"] by (simp add: derived_settings_def)
next
  case False
  have null: "through_any F v = Some JNull \<longleftrightarrow> v = JNull" for v
    by (cases v) (auto simp: sorted_object_def split: option.splits)
  show ?thesis
  proof (cases "unmarshal data")
    case (Some v)
    show ?thesis
    proof (cases "\<exists>kvs. through_any F v = Some (JObj kvs)")
      case True
      then obtain kvs where kvs: "through_any F v = Some (JObj kvs)" by blast
      have "settings_ok j (rev kvs) \<Longrightarrow> settings_ok j kvs" for j
        by (simp only: settings_ok_def through_obj_keys [OF kvs])
      then show ?thesis
        using False Some kvs forced_ok [of "rev kvs"] by (simp add: derived_settings_def user_settings_def Let_def)
    next
      case no: False
      then show ?thesis
        using False Some null [of v] by (auto simp: derived_settings_def Let_def split: option.splits json.splits)
    qed
  qed (simp add: derived_settings_def False)
qed

theorem null_settings_panic: "derived_settings F ''null'' = PreparePanics"
  by code_simp

section \<open>Several processes and one link\<close>

datatype link_phase = LkStart | LkRemove | LkCreate | LkVerify | LkDone | LkFailed

text \<open>
  The system calls of \<open>ensureSymlink\<close> by processes that share \<open>dst\<close>, each call one step; \<open>d\<close> is what is
  at \<open>dst\<close>. A directory that is not empty is not removed.
\<close>

inductive link_step :: "string \<Rightarrow> node option \<times> (nat \<Rightarrow> link_phase) \<Rightarrow> node option \<times> (nat \<Rightarrow> link_phase) \<Rightarrow> bool" for target where
  lk_found: "ph i = LkStart \<Longrightarrow> d = Some (NLink target) \<Longrightarrow> link_step target (d, ph) (d, ph(i := LkDone))"
| lk_stale: "ph i = LkStart \<Longrightarrow> d = Some v \<Longrightarrow> v \<noteq> NLink target \<Longrightarrow> link_step target (d, ph) (d, ph(i := LkRemove))"
| lk_absent: "ph i = LkStart \<Longrightarrow> d = None \<Longrightarrow> link_step target (d, ph) (d, ph(i := LkCreate))"
| lk_removed: "ph i = LkRemove \<Longrightarrow> link_step target (d, ph) (None, ph(i := LkCreate))"
| lk_kept: "ph i = LkRemove \<Longrightarrow> d = Some NDir \<Longrightarrow> link_step target (d, ph) (d, ph(i := LkFailed))"
| lk_created: "ph i = LkCreate \<Longrightarrow> d = None \<Longrightarrow> link_step target (d, ph) (Some (NLink target), ph(i := LkDone))"
| lk_exists: "ph i = LkCreate \<Longrightarrow> d \<noteq> None \<Longrightarrow> link_step target (d, ph) (d, ph(i := LkVerify))"
| lk_converged: "ph i = LkVerify \<Longrightarrow> d = Some (NLink target) \<Longrightarrow> link_step target (d, ph) (d, ph(i := LkDone))"
| lk_diverged: "ph i = LkVerify \<Longrightarrow> d \<noteq> Some (NLink target) \<Longrightarrow> link_step target (d, ph) (d, ph(i := LkFailed))"

abbreviation link_runs :: "string \<Rightarrow> node option \<Rightarrow> node option \<times> (nat \<Rightarrow> link_phase) \<Rightarrow> bool" where
  "link_runs target d0 \<equiv> (link_step target)\<^sup>*\<^sup>* (d0, \<lambda>_. LkStart)"






text \<open>A process can fail all the same: a second one removes the good link that a third had met.\<close>

theorem racing_link_can_fail: "\<exists>d ph. link_runs target (Some (NLink (''x'' @ target))) (d, ph) \<and> ph 2 = LkFailed"
proof -
  let ?old = "Some (NLink (''x'' @ target))" and ?new = "Some (NLink target)"
  define p0 :: "nat \<Rightarrow> link_phase" where "p0 = (\<lambda>_. LkStart)"
  define p1 where "p1 = p0(0 := LkRemove)"
  define p2 where "p2 = p1(1 := LkRemove)"
  define p3 where "p3 = p2(0 := LkCreate)"
  define p4 where "p4 = p3(2 := LkCreate)"
  define p5 where "p5 = p4(0 := LkDone)"
  define p6 where "p6 = p5(2 := LkVerify)"
  define p7 where "p7 = p6(1 := LkCreate)"
  define p8 where "p8 = p7(2 := LkFailed)"
  note ps = p0_def p1_def p2_def p3_def p4_def p5_def p6_def p7_def
  have "link_step target (?old, p0) (?old, p1)" unfolding p1_def by (rule lk_stale [where v = "NLink (''x'' @ target)"]) (simp_all add: ps)
  moreover have "link_step target (?old, p1) (?old, p2)" unfolding p2_def by (rule lk_stale [where v = "NLink (''x'' @ target)"]) (simp_all add: ps)
  moreover have "link_step target (?old, p2) (None, p3)" unfolding p3_def by (rule lk_removed) (simp add: ps)
  moreover have "link_step target (None, p3) (None, p4)" unfolding p4_def by (rule lk_absent) (simp_all add: ps)
  moreover have "link_step target (None, p4) (?new, p5)" unfolding p5_def by (rule lk_created) (simp_all add: ps)
  moreover have "link_step target (?new, p5) (?new, p6)" unfolding p6_def by (rule lk_exists) (simp_all add: ps)
  moreover have "link_step target (?new, p6) (None, p7)" unfolding p7_def by (rule lk_removed) (simp add: ps)
  moreover have "link_step target (None, p7) (None, p8)" unfolding p8_def by (rule lk_diverged) (simp_all add: ps)
  ultimately have "link_runs target ?old (None, p8)"
    unfolding p0_def by (meson converse_rtranclp_into_rtranclp rtranclp.rtrancl_refl)
  moreover have "p8 2 = LkFailed" by (simp add: p8_def)
  ultimately show ?thesis by blast
qed



end
