(* ===== verification/Flags.thy ===== *)
theory Flags
  imports Run_Loop Json_Roundtrip
begin

text \<open>
  The arguments of the program (\<open>cmd/golemic/main.go\<close>): what the source uses of the package \<open>flag\<close>
  and of \<open>strconv\<close>, the flag sets of the subcommands, and the choice of the subcommand.
\<close>

section \<open>Numbers and truth values\<close>

definition digit_of :: "char \<Rightarrow> nat option" where
  "digit_of c =
     (let n = of_char (to_lower_char c) :: nat in
      if 48 \<le> n \<and> n \<le> 57 then Some (n - 48) else if 97 \<le> n \<and> n \<le> 122 then Some (n - 87) else None)"

text \<open>The digits of \<open>strconv.ParseUint\<close> with base 0, where an underscore is passed over.\<close>

fun base_digits :: "nat \<Rightarrow> nat \<Rightarrow> string \<Rightarrow> nat option" where
  "base_digits b acc [] = Some acc"
| "base_digits b acc (c # cs) =
     (if c = CHR ''_'' then base_digits b acc cs
      else (case digit_of c of None \<Rightarrow> None | Some d \<Rightarrow> if d \<ge> b then None else base_digits b (acc * b + d) cs))"

text \<open>\<open>underscoreOK\<close>: \<open>seen\<close> is what the last character was.\<close>

datatype char_seen = SeenNothing | SeenDigit | SeenUnderscore

fun underscores_ok :: "bool \<Rightarrow> char_seen \<Rightarrow> string \<Rightarrow> bool" where
  "underscores_ok hex prev [] \<longleftrightarrow> prev \<noteq> SeenUnderscore"
| "underscores_ok hex prev (c # cs) \<longleftrightarrow>
     (if (case digit_of c of Some d \<Rightarrow> d < 10 \<or> hex \<and> d < 16 | None \<Rightarrow> False) then underscores_ok hex SeenDigit cs
      else if c = CHR ''_'' then prev = SeenDigit \<and> underscores_ok hex SeenUnderscore cs
      else prev \<noteq> SeenUnderscore \<and> underscores_ok hex SeenNothing cs)"

definition base_of :: "string \<Rightarrow> nat \<times> string \<times> bool" where
  "base_of s =
     (if s = [] \<or> hd s \<noteq> CHR ''0'' then (10, s, False)
      else if length s \<ge> 3 \<and> to_lower_char (s ! 1) = CHR ''b'' then (2, drop 2 s, True)
      else if length s \<ge> 3 \<and> to_lower_char (s ! 1) = CHR ''o'' then (8, drop 2 s, True)
      else if length s \<ge> 3 \<and> to_lower_char (s ! 1) = CHR ''x'' then (16, drop 2 s, True)
      else (8, tl s, False))"

text \<open>\<open>strconv.ParseInt(s, 0, 64)\<close>.\<close>

definition parse_int0 :: "string \<Rightarrow> int option" where
  "parse_int0 s =
     (let neg = (s \<noteq> [] \<and> hd s = CHR ''-''); u = (if s \<noteq> [] \<and> hd s \<in> {CHR ''-'', CHR ''+''} then tl s else s) in
      if u = [] then None
      else (case base_of u of (b, ds, prefixed) \<Rightarrow>
        (case base_digits b 0 ds of
           None \<Rightarrow> None
         | Some n \<Rightarrow>
             if CHR ''_'' \<in> set ds \<and>
                \<not> underscores_ok (prefixed \<and> b = 16) (if prefixed then SeenDigit else SeenNothing) (if prefixed then ds else u)
             then None
             else (let v = (if neg then - int n else int n)
                   in if - max_int64 - 1 \<le> v \<and> v \<le> max_int64 then Some v else None))))"

definition parse_bool :: "string \<Rightarrow> bool option" where
  "parse_bool s =
     (if s \<in> {''1'', ''t'', ''T'', ''TRUE'', ''true'', ''True''} then Some True
      else if s \<in> {''0'', ''f'', ''F'', ''FALSE'', ''false'', ''False''} then Some False else None)"

section \<open>Flag sets\<close>

datatype flag_kind = FlagBool | FlagInt | FlagString

datatype flag_value = FvBool bool | FvInt int | FvString string

datatype flag_error = HelpRequested | BadSyntax string | NotDefined string | NeedsArgument string | InvalidValue string string

type_synonym flag_set = "(string \<times> flag_kind) list"

text \<open>A flag's name and its value, when it is given with an equals sign.\<close>

definition split_flag :: "string \<Rightarrow> string \<times> string option" where
  "split_flag f =
     (if f = [] then ([], None)
      else (let n = hd f # takeWhile (\<lambda>c. c \<noteq> CHR ''='') (tl f) in
            (n, if length n < length f then Some (drop (length n + 1) f) else None)))"

definition flag_value_of :: "flag_kind \<Rightarrow> string \<Rightarrow> flag_value option" where
  "flag_value_of k v =
     (case k of FlagBool \<Rightarrow> map_option FvBool (parse_bool v) | FlagInt \<Rightarrow> map_option FvInt (parse_int0 v) | FlagString \<Rightarrow> Some (FvString v))"

text \<open>\<open>FlagSet.Parse\<close>: the values in the order in which they are set, and the arguments that are left.\<close>

fun parse_flags :: "flag_set \<Rightarrow> string list \<Rightarrow> flag_error + ((string \<times> flag_value) list \<times> string list)" where
  "parse_flags fs [] = Inr ([], [])"
| "parse_flags fs (s # args) =
     (if length s < 2 \<or> hd s \<noteq> CHR ''-'' then Inr ([], s # args)
      else if s = ''--'' then Inr ([], args)
      else (let f = drop (if s ! 1 = CHR ''-'' then 2 else 1) s in
        if f = [] \<or> hd f = CHR ''-'' \<or> hd f = CHR ''='' then Inl (BadSyntax s)
        else (case split_flag f of (name, given) \<Rightarrow>
          (case map_of fs name of
             None \<Rightarrow> if name = ''help'' \<or> name = ''h'' then Inl HelpRequested else Inl (NotDefined name)
           | Some k \<Rightarrow>
               (let set = (\<lambda>v rest. case flag_value_of k v of
                      None \<Rightarrow> Inl (InvalidValue name v)
                    | Some x \<Rightarrow> map_sum id (\<lambda>(vs, left). ((name, x) # vs, left)) rest)
                in case given of
                     Some v \<Rightarrow> set v (parse_flags fs args)
                   | None \<Rightarrow>
                       if k = FlagBool then set ''true'' (parse_flags fs args)
                       else (case args of
                          [] \<Rightarrow> Inl (NeedsArgument name)
                        | v # rest \<Rightarrow> set v (parse_flags fs rest)))))))"

text \<open>The value of a variable that flags of several names set; the last one counts.\<close>

definition flag_of :: "string list \<Rightarrow> flag_value \<Rightarrow> (string \<times> flag_value) list \<Rightarrow> flag_value" where
  "flag_of names d vs = (case find_last (\<lambda>v. fst v \<in> set names) vs of Some v \<Rightarrow> snd v | None \<Rightarrow> d)"

definition flag_bool :: "string list \<Rightarrow> (string \<times> flag_value) list \<Rightarrow> bool" where
  "flag_bool names vs = (flag_of names (FvBool False) vs = FvBool True)"

definition flag_int :: "string list \<Rightarrow> (string \<times> flag_value) list \<Rightarrow> int" where
  "flag_int names vs = (case flag_of names (FvInt 0) vs of FvInt i \<Rightarrow> i | _ \<Rightarrow> 0)"

definition flag_string :: "string list \<Rightarrow> (string \<times> flag_value) list \<Rightarrow> string" where
  "flag_string names vs = (case flag_of names (FvString []) vs of FvString s \<Rightarrow> s | _ \<Rightarrow> [])"

section \<open>Subcommands\<close>

record run_options =
  op_issue :: int
  op_clean :: bool
  op_quiet :: bool
  op_verbose :: bool
  op_resume :: bool

record status_options =
  so_json :: bool
  so_stalled_after :: string
  so_run_id :: string

datatype command =
    CmdLoop
  | CmdHelp
  | CmdPreflight bool
  | CmdRun run_options
  | CmdStatus status_options
  | CmdNextIssue
  | CmdBadFlags flag_error
  | CmdRefused string
  | CmdUnknown string

definition knownCommands :: "(string \<times> string) list" where
  "knownCommands =
     [(''preflight'', ''Check prerequisites''),
      (''run'', ''Run the main process (golemic run --issue N)''),
      (''status'', ''Show run health status''),
      (''next-issue'', ''Return the next takeable GitHub issue (JSON)'')]"

definition pad_right :: "nat \<Rightarrow> string \<Rightarrow> string" where
  "pad_right n s = s @ replicate (n - length s) (CHR '' '')"

definition usage_text :: string where
  "usage_text =
     concat (map (\<lambda>l. l @ [newline])
       ([''Usage: golemic [command]'', [], ''  golemic            Start the autonomous polling loop'',
         ''  golemic --help     Show this help'', [], ''Available commands:''] @
        map (\<lambda>(n, d). ''  '' @ pad_right 13 n @ '' '' @ d) knownCommands))"

definition preflight_flags :: flag_set where
  "preflight_flags = [(''check'', FlagBool)]"

definition dispatch_preflight :: "string list \<Rightarrow> command" where
  "dispatch_preflight rest =
     (case parse_flags preflight_flags rest of
        Inl e \<Rightarrow> CmdBadFlags e
      | Inr (vs, _) \<Rightarrow> CmdPreflight (flag_bool [''check''] vs))"

definition run_flags :: flag_set where
  "run_flags =
     [(''issue'', FlagInt), (''clean'', FlagBool), (''quiet'', FlagBool), (''q'', FlagBool), (''verbose'', FlagBool),
      (''v'', FlagBool), (''resume'', FlagBool)]"

definition run_run :: "string list \<Rightarrow> command" where
  "run_run rest =
     (case parse_flags run_flags rest of
        Inl e \<Rightarrow> CmdBadFlags e
      | Inr (vs, _) \<Rightarrow>
          if flag_int [''issue''] vs \<le> 0 then CmdRefused ''--issue must be a positive integer''
          else CmdRun \<lparr>op_issue = flag_int [''issue''] vs, op_clean = flag_bool [''clean''] vs,
                 op_quiet = flag_bool [''quiet'', ''q''] vs, op_verbose = flag_bool [''verbose'', ''v''] vs,
                 op_resume = flag_bool [''resume''] vs\<rparr>)"

definition status_flags :: flag_set where
  "status_flags = [(''json'', FlagBool), (''stalled-after'', FlagString)]"

definition status_command :: "string list \<Rightarrow> command" where
  "status_command rest =
     (case parse_flags status_flags rest of
        Inl e \<Rightarrow> CmdBadFlags e
      | Inr (vs, left) \<Rightarrow>
          (let run_id = (case left of a # _ \<Rightarrow> a | [] \<Rightarrow> []) in
           if CHR ''/'' \<in> set run_id \<or> CHR 0x5C \<in> set run_id then CmdRefused ''runId must not contain path separators''
           else CmdStatus \<lparr>so_json = flag_bool [''json''] vs, so_stalled_after = flag_string [''stalled-after''] vs,
                  so_run_id = run_id\<rparr>))"

text \<open>
  \<open>runDispatch\<close>; the branch for a known command that no dispatcher takes is not reached, since each
  known command is one of those above it.
\<close>

definition run_dispatch :: "string list \<Rightarrow> command" where
  "run_dispatch args =
     (case args of
        _ # c # rest \<Rightarrow>
          if c = ''--help'' \<or> c = ''-h'' then CmdHelp
          else if c = ''preflight'' then dispatch_preflight rest
          else if c = ''run'' then run_run rest
          else if c = ''status'' then status_command rest
          else if c = ''next-issue'' then CmdNextIssue
          else if c \<in> set (map fst knownCommands) then CmdRefused ''not implemented''
          else CmdUnknown c
      | _ \<Rightarrow> CmdLoop)"

section \<open>Properties\<close>

lemma digit_of_digit_char: "d < 10 \<Longrightarrow> digit_of (digit_char d) = Some d"
  by (simp add: digit_of_def digit_char_def to_lower_char_def)

lemma digit_char_no_underscore: "d < 10 \<Longrightarrow> digit_char d \<noteq> CHR ''_''"
  using digit_val_digit_char [of d] by (auto simp: digit_val_def)

lemma base_digits_append:
  "base_digits b acc (xs @ ys) = (case base_digits b acc xs of None \<Rightarrow> None | Some n \<Rightarrow> base_digits b n ys)"
  by (induction b acc xs rule: base_digits.induct) (auto split: option.splits)

lemma base_digits_nat: "base_digits 10 0 (nat_digits n) = Some n"
proof (induction n rule: nat_digits.induct)
  case (1 n)
  show ?case
  proof (cases "n < 10")
    case True
    then show ?thesis by (subst nat_digits.simps) (simp add: digit_of_digit_char digit_char_no_underscore)
  next
    case False
    with 1 have "base_digits 10 0 (nat_digits (n div 10)) = Some (n div 10)" by simp
    with False show ?thesis
      by (subst nat_digits.simps) (simp add: base_digits_append digit_of_digit_char digit_char_no_underscore)
  qed
qed

lemma parse_int0_itoa:
  assumes "0 < n" and "n \<le> max_int64"
  shows "parse_int0 (itoa n) = Some n"
proof -
  let ?d = "nat_digits (nat n)"
  have "c \<noteq> CHR ''_'' \<and> c \<noteq> CHR ''-'' \<and> c \<noteq> CHR ''+''" if "c \<in> set ?d" for c
    using nat_digits_all_digits [OF that] digit_char_no_underscore digit_char_ne_sign by auto
  then have plain: "CHR ''_'' \<notin> set ?d" "hd ?d \<noteq> CHR ''-''" "hd ?d \<noteq> CHR ''+''" by auto
  have "hd ?d \<noteq> CHR ''0''" using nat_digits_head [of "nat n"] assms by auto
  then have "base_of ?d = (10, ?d, False)" by (simp add: base_of_def)
  then show ?thesis
    using assms plain base_digits_nat [of "nat n"] by (simp add: parse_int0_def itoa_def Let_def)
qed

lemma run_issue_args:
  assumes "0 < n" and "n \<le> max_int64"
  shows "run_dispatch [bin, ''run'', ''--issue'', itoa n] =
    CmdRun \<lparr>op_issue = n, op_clean = False, op_quiet = False, op_verbose = False, op_resume = False\<rparr>"
  using parse_int0_itoa [OF assms] assms
  by (simp add: run_dispatch_def run_run_def run_flags_def split_flag_def flag_value_of_def flag_int_def flag_bool_def
      flag_of_def Let_def)

text \<open>
  C30: The runner that the polling loop starts for an issue is a \<open>run\<close> of this issue, without any other
  option: the arguments that the loop writes are read back by the program.
\<close>

theorem started_runner_runs_issue:
  assumes "0 < n" and "n \<le> max_int64"
  shows "case runner_cmd L te n of
     Cmd _ _ argv \<Rightarrow> run_dispatch argv =
       CmdRun \<lparr>op_issue = n, op_clean = False, op_quiet = False, op_verbose = False, op_resume = False\<rparr>"
  using run_issue_args [OF assms] by (simp add: runner_cmd_def)

theorem started_runner_runs_issue_witness:
  "\<forall>L te. case runner_cmd L te 42 of
     Cmd _ _ argv \<Rightarrow> run_dispatch argv =
       CmdRun \<lparr>op_issue = 42, op_clean = False, op_quiet = False, op_verbose = False, op_resume = False\<rparr>"
  using started_runner_runs_issue [of 42] by (simp add: max_int64_def)

text \<open>
  What the subcommands accept: a run has a positive issue, and the run id of \<open>status\<close> has no path
  separator.
\<close>

definition command_ok :: "command \<Rightarrow> bool" where
  "command_ok c \<longleftrightarrow>
     (case c of
        CmdRun r \<Rightarrow> op_issue r > 0
      | CmdStatus st \<Rightarrow> CHR ''/'' \<notin> set (so_run_id st) \<and> CHR 0x5C \<notin> set (so_run_id st)
      | CmdRefused m \<Rightarrow> m \<noteq> ''not implemented''
      | _ \<Rightarrow> True)"

lemma dispatch_checks: "command_ok (run_dispatch args)"
  by (auto simp: command_ok_def run_dispatch_def dispatch_preflight_def run_run_def status_command_def knownCommands_def Let_def
      split: list.splits sum.splits prod.splits)

lemma parent_run_id_accepted:
  "run_dispatch [''golemic'', ''status'', ''..''] = CmdStatus \<lparr>so_json = False, so_stalled_after = [], so_run_id = ''..''\<rparr>"
  by code_simp

lemma octal_issue: "run_dispatch [''golemic'', ''run'', ''--issue'', ''010''] =
    CmdRun \<lparr>op_issue = 8, op_clean = False, op_quiet = False, op_verbose = False, op_resume = False\<rparr>"
  by code_simp

end
