(* ===== verification/Command_Line.thy ===== *)
theory Command_Line
  imports Machine Selector Flags Health Preflight Agent_File
begin

text \<open>
  The subcommands (\<open>cmd/golemic\<close>): the set-up of a run up to the loading of its issue (\<open>initRun\<close>), the
  next issue, the status of the runs, the start of the polling loop, and the exit code of each. The
  record \<open>cli\<close> holds what the process finds: the answers of commands, of the operating system for each
  part, the time stamp, and the parser of durations of the package \<open>time\<close>.
\<close>

record cli =
  cl_env :: env
  cl_host :: host
  cl_preflight :: preflight_os
  cl_files :: pf_state
  cl_health :: health_os
  cl_loop :: loop_env
  cl_executable :: "string result"
  cl_stamp :: string
  cl_parse_duration :: "string \<Rightarrow> int option"

section \<open>Project and credentials\<close>

definition load_project :: "cli \<Rightarrow> string \<Rightarrow> config result M" where
  "load_project C root =
     do {
       t \<leftarrow> get_trace;
       ret (load_config (host.ho_file (cl_host C) t (path_join [root, ''.golemic'', ''config.json''])))
     }"

definition load_project_credentials :: "cli \<Rightarrow> string \<Rightarrow> string \<Rightarrow> credentials result M" where
  "load_project_credentials C home project =
     do {
       t \<leftarrow> get_trace;
       ret (load_credentials home project
              (ho_cred_file (cl_host C) t (path_join [home, ''.golemic'', project, ''credentials.json'']))
              (ho_lookup (cl_host C)))
     }"

section \<open>Setting up a run\<close>

definition preflight_results :: "cli \<Rightarrow> string \<Rightarrow> string \<Rightarrow> check_outcome list" where
  "preflight_results C home root = fst (run_state (preflight_check (cl_preflight C) home root) (cl_files C))"

definition check_preflight :: "cli \<Rightarrow> string \<Rightarrow> string \<Rightarrow> int" where
  "check_preflight C home root = (if all_ok (preflight_results C home root) then 0 else 1)"

definition run_config :: "cli \<Rightarrow> run_options \<Rightarrow> string \<Rightarrow> string \<Rightarrow> config \<Rightarrow> credentials \<Rightarrow> rconfig" where
  "run_config C opts home root cfg creds =
     \<lparr>r_home = home, r_repo_root = root, r_project = cf_project cfg,
      r_run_id = ''issue-'' @ itoa (op_issue opts) @ ''-'' @ cl_stamp C,
      r_branch = branchPrefix @ itoa (op_issue opts), r_issue_num = op_issue opts,
      r_issue_title = [], r_issue_state = [], r_issue_labels = [],
      r_dev_token = ct_dev_token creds, r_reviewer_token = ct_reviewer_token creds,
      r_verify_command = cf_verify_command cfg, r_max_review_rounds = cf_max_review_rounds cfg,
      r_max_conflict_attempts = cf_max_conflict_resolution_attempts cfg,
      r_cbm_enabled = cf_codebase_memory_enabled cfg, r_clean = op_clean opts, r_resume = op_resume opts\<rparr>"

text \<open>
  \<open>initRun\<close> up to the event log: \<open>Inr\<close> is the run that starts, \<open>Inl\<close> the exit code; \<open>None\<close> is a search for the host repository that
  does not end.
\<close>

definition init_runner :: "cli \<Rightarrow> run_options \<Rightarrow> string \<Rightarrow> string \<Rightarrow> (int + rconfig) option M" where
  "init_runner C opts home cwd =
     do {
       r \<leftarrow> resolve_host_repo (Suc (length cwd)) (cl_env C) cwd;
       (case r of
          None \<Rightarrow> ret None
        | Some (Inl _) \<Rightarrow> ret (Some (Inl 1))
        | Some (Inr root) \<Rightarrow>
            if check_preflight C home root \<noteq> 0 then ret (Some (Inl (check_preflight C home root)))
            else handle (load_project C root) (\<lambda>_. ret (Some (Inl 1))) (\<lambda>cfg.
                 handle (load_project_credentials C home (cf_project cfg)) (\<lambda>_. ret (Some (Inl 1))) (\<lambda>creds.
                   ret (Some (Inr (run_config C opts home root cfg creds))))))
     }"

text \<open>The header goes to the standard error when the run starts.\<close>

definition header_shown :: "run_options \<Rightarrow> config \<Rightarrow> rconfig \<Rightarrow> string" where
  "header_shown opts cfg R =
     (if op_quiet opts then [] else write_run_header R (cf_timeout_seconds cfg) (cf_timeout_minutes cfg))"

text \<open>\<open>Runner.Run\<close>: the exit code, when the run ends.\<close>

definition run_runner :: "cli \<Rightarrow> run_options \<Rightarrow> string \<Rightarrow> string \<Rightarrow> rstate \<Rightarrow> (int option \<times> rstate) option" where
  "run_runner C opts home cwd s =
     (case run_state (init_runner C opts home cwd) s of
        (None, t) \<Rightarrow> None
      | (Some (Inl code), t) \<Rightarrow> Some (Some code, t)
      | (Some (Inr R), t) \<Rightarrow> runner_run (cl_env C) R t)"

text \<open>\<open>runRun\<close> after its flags.\<close>

definition run_command :: "cli \<Rightarrow> run_options \<Rightarrow> rstate \<Rightarrow> (int option \<times> rstate) option" where
  "run_command C opts s =
     (case (ho_home (cl_host C), ho_cwd (cl_host C)) of
        (Inr home, Inr cwd) \<Rightarrow> run_runner C opts home cwd s
      | _ \<Rightarrow> Some (Some 1, s))"

section \<open>Preflight\<close>

definition run_preflight :: "cli \<Rightarrow> string \<Rightarrow> string \<Rightarrow> bool \<Rightarrow> int" where
  "run_preflight C home root check_mode =
     (if all_ok (fst (run_state (if check_mode then preflight_check (cl_preflight C) home root
                                 else run_all (cl_preflight C) home root) (cl_files C)))
      then 0 else 1)"

definition preflight_command :: "cli \<Rightarrow> bool \<Rightarrow> int option M" where
  "preflight_command C check_mode =
     (case (ho_home (cl_host C), ho_cwd (cl_host C)) of
        (Inr home, Inr cwd) \<Rightarrow> do {
          r \<leftarrow> resolve_host_repo (Suc (length cwd)) (cl_env C) cwd;
          ret (case r of None \<Rightarrow> None | Some (Inl _) \<Rightarrow> Some 1 | Some (Inr root) \<Rightarrow> Some (run_preflight C home root check_mode))
        }
      | _ \<Rightarrow> ret (Some 1))"

section \<open>The next issue\<close>

text \<open>The slug and the token; the inner \<open>None\<close> is a failure, which is printed.\<close>

definition resolve_next_issue_context :: "cli \<Rightarrow> (string \<times> string) option option M" where
  "resolve_next_issue_context C =
     (case (ho_home (cl_host C), ho_cwd (cl_host C)) of
        (Inr home, Inr cwd) \<Rightarrow> do {
          r \<leftarrow> resolve_host_repo (Suc (length cwd)) (cl_env C) cwd;
          (case r of
             None \<Rightarrow> ret None
           | Some (Inl _) \<Rightarrow> ret (Some None)
           | Some (Inr root) \<Rightarrow>
               handle (load_project C root) (\<lambda>_. ret (Some None)) (\<lambda>cfg.
               handle (load_project_credentials C home (cf_project cfg)) (\<lambda>_. ret (Some None)) (\<lambda>creds.
               handle (run_in_dir (cl_env C) root [''git'', ''config'', ''--get'', ''remote.origin.url''])
                 (\<lambda>_. ret (Some None))
                 (\<lambda>url. ret (Some (case parse_github_slug url of
                    Inl _ \<Rightarrow> None
                  | Inr slug \<Rightarrow> Some (slug, ct_dev_token creds)))))))
        }
      | _ \<Rightarrow> ret (Some None))"

definition issue_json :: "sel_issue \<Rightarrow> json" where
  "issue_json i =
     JObj [(''number'', jint (si_number i)), (''title'', JStr (si_title i)), (''url'', JStr (si_url i)),
       (''labels'', JArr (map JStr (si_labels i)))]"

text \<open>The exit code and the standard output.\<close>

definition run_next_issue :: "cli \<Rightarrow> (int \<times> string) option M" where
  "run_next_issue C =
     do {
       ctx \<leftarrow> resolve_next_issue_context C;
       (case ctx of
          None \<Rightarrow> ret None
        | Some None \<Rightarrow> ret (Some (1, []))
        | Some (Some (slug, token)) \<Rightarrow>
            handle (next_issue (cl_env C) slug token) (\<lambda>_. ret (Some (1, [])))
              (\<lambda>issue. ret (Some (case issue of
                 None \<Rightarrow> (2, [])
               | Some i \<Rightarrow> (0, json_text (issue_json i) @ [newline])))))
     }"

section \<open>Status\<close>

definition or_dash :: "string \<Rightarrow> string" where
  "or_dash s = (if s = [] then ''-'' else s)"

definition pid_str :: "int option \<Rightarrow> string" where
  "pid_str p = (case p of None \<Rightarrow> ''-'' | Some n \<Rightarrow> itoa n)"

definition health_json :: "run_health \<Rightarrow> json" where
  "health_json h =
     JObj [(''run_id'', JStr (rh_run_id h)), (''issue'', jint (rh_issue h)), (''status'', JStr (rh_status h)),
       (''current_phase'', JStr (rh_phase h)), (''age_or_duration'', JStr (rh_age h)), (''outcome'', JStr (rh_outcome h)),
       (''pid'', (case rh_pid h of None \<Rightarrow> JNull | Some n \<Rightarrow> jint n)), (''liveness'', JStr (rh_liveness h))]"

definition emit_json :: "run_health list \<Rightarrow> string" where
  "emit_json runs = json_indent 2 0 (JArr (map health_json runs)) @ [newline]"

definition table_cells :: "run_health \<Rightarrow> string list" where
  "table_cells h =
     [rh_run_id h, itoa (rh_issue h), rh_status h, or_dash (rh_phase h), rh_age h, or_dash (rh_outcome h),
      pid_str (rh_pid h), rh_liveness h]"

text \<open>
  \<open>text/tabwriter\<close> on lines of cells without tabs and line breaks: each column but the last is two blanks
  wider than its widest cell. A character that starts no UTF-8 sequence has no width.
\<close>

definition text_width :: "string \<Rightarrow> nat" where
  "text_width s = length (filter (\<lambda>c. \<not> continuation c) s)"

definition pad_cell :: "nat \<Rightarrow> string \<Rightarrow> string" where
  "pad_cell w s = s @ replicate (w - text_width s) (CHR '' '')"

definition column_width :: "string list list \<Rightarrow> nat \<Rightarrow> nat" where
  "column_width rows i = foldr (\<lambda>r w. max (text_width (r ! i)) w) rows 0 + 2"

definition table_line :: "string list list \<Rightarrow> string list \<Rightarrow> string" where
  "table_line rows r =
     concat (map (\<lambda>i. pad_cell (column_width rows i) (r ! i)) [0..<length r - 1]) @ last r @ [newline]"

definition status_header :: "string list" where
  "status_header = [''RUN_ID'', ''ISSUE'', ''STATUS'', ''PHASE'', ''AGE'', ''OUTCOME'', ''PID'', ''LIVENESS'']"

definition emit_table :: "run_health list \<Rightarrow> string" where
  "emit_table runs = (let rows = status_header # map table_cells runs in concat (map (table_line rows) rows))"

definition parse_stalled_after :: "cli \<Rightarrow> string \<Rightarrow> int option" where
  "parse_stalled_after C s = (if s = [] then Some 0 else cl_parse_duration C s)"

definition config_timeout :: "config \<Rightarrow> int" where
  "config_timeout cfg =
     (if cf_timeout_seconds cfg > 0 then duration (cf_timeout_seconds cfg * 10 ^ 9)
      else duration (cf_timeout_minutes cfg * 60 * 10 ^ 9))"

definition resolve_runs_dir :: "cli \<Rightarrow> (string \<times> int) option option M" where
  "resolve_runs_dir C =
     (case (ho_home (cl_host C), ho_cwd (cl_host C)) of
        (Inr home, Inr cwd) \<Rightarrow> do {
          r \<leftarrow> resolve_host_repo (Suc (length cwd)) (cl_env C) cwd;
          (case r of
             None \<Rightarrow> ret None
           | Some (Inl _) \<Rightarrow> ret (Some None)
           | Some (Inr root) \<Rightarrow>
               handle (load_project C root) (\<lambda>_. ret (Some None)) (\<lambda>cfg.
                 ret (Some (Some (path_join [home, ''.golemic'', cf_project cfg, ''runs''], config_timeout cfg)))))
        }
      | _ \<Rightarrow> ret (Some None))"

definition status_single_run :: "cli \<Rightarrow> int \<Rightarrow> string \<Rightarrow> string \<Rightarrow> bool \<Rightarrow> int \<times> string" where
  "status_single_run C stalled runs run_id as_json =
     (case classify_one (cl_health C) stalled (path_clean (runs @ ''/'' @ run_id)) of
        Inl _ \<Rightarrow> (1, [])
      | Inr h \<Rightarrow> (0, if as_json then emit_json [h] else emit_table [h]))"

definition status_all_runs :: "cli \<Rightarrow> int \<Rightarrow> string \<Rightarrow> bool \<Rightarrow> int \<times> string" where
  "status_all_runs C stalled runs as_json =
     (case classify_all (cl_health C) stalled runs of
        Inl _ \<Rightarrow> (1, [])
      | Inr [] \<Rightarrow> (0, (if as_json then ''[]'' else ''no runs found'') @ [newline])
      | Inr hs \<Rightarrow> (0, if as_json then emit_json hs else emit_table hs))"

definition dispatch_status :: "cli \<Rightarrow> int \<Rightarrow> string \<Rightarrow> string \<Rightarrow> bool \<Rightarrow> int \<times> string" where
  "dispatch_status C stalled runs run_id as_json =
     (if run_id \<noteq> [] then status_single_run C stalled runs run_id as_json else status_all_runs C stalled runs as_json)"

definition run_status :: "cli \<Rightarrow> status_options \<Rightarrow> (int \<times> string) option M" where
  "run_status C opts =
     (case parse_stalled_after C (so_stalled_after opts) of
        None \<Rightarrow> ret (Some (1, []))
      | Some stalled \<Rightarrow> do {
          d \<leftarrow> resolve_runs_dir C;
          ret (case d of
              None \<Rightarrow> None
            | Some None \<Rightarrow> Some (1, [])
            | Some (Some (runs, timeout)) \<Rightarrow>
                Some (dispatch_status C (if stalled = 0 then timeout else stalled) runs (so_run_id opts) (so_json opts)))
        })"

section \<open>Starting the loop\<close>

definition loop_startup :: "cli \<Rightarrow> (string \<times> string \<times> string) option option M" where
  "loop_startup C =
     (case (cl_executable C, ho_home (cl_host C), ho_cwd (cl_host C)) of
        (Inr bin, Inr home, Inr cwd) \<Rightarrow> do {
          r \<leftarrow> resolve_host_repo (Suc (length cwd)) (cl_env C) cwd;
          (case r of
             None \<Rightarrow> ret None
           | Some (Inl _) \<Rightarrow> ret (Some None)
           | Some (Inr root) \<Rightarrow>
               handle (load_project C root) (\<lambda>_. ret (Some None)) (\<lambda>cfg.
               handle (load_project_credentials C home (cf_project cfg)) (\<lambda>_. ret (Some None)) (\<lambda>_.
               handle (run_in_dir (cl_env C) root [bin, ''preflight'', ''--check'']) (\<lambda>_. ret (Some None))
                 (\<lambda>_. ret (Some (Some (bin, root, cf_project cfg)))))))
        }
      | _ \<Rightarrow> ret (Some None))"

text \<open>\<open>runRunLoop\<close> for \<open>n\<close> ticks.\<close>

definition run_run_loop :: "nat \<Rightarrow> cli \<Rightarrow> int option M" where
  "run_run_loop n C =
     do {
       st \<leftarrow> loop_startup C;
       (case st of
          None \<Rightarrow> ret None
        | Some None \<Rightarrow> ret (Some 1)
        | Some (Some (bin, root, project)) \<Rightarrow> do {
            _ \<leftarrow> loop_run n (cl_env C) ((cl_loop C)\<lparr>lo_bin := bin, lo_repo_root := root, lo_project := project,
                 lo_home := (case ho_home (cl_host C) of Inr h \<Rightarrow> h | Inl _ \<Rightarrow> []), lo_host := cl_host C\<rparr>);
            ret (Some 0)
          })
     }"

section \<open>The program\<close>

text \<open>The exit code and the standard output of the subcommands that a model state gives; \<open>n\<close> bounds the ticks.\<close>

definition run_main :: "nat \<Rightarrow> cli \<Rightarrow> string list \<Rightarrow> rstate \<Rightarrow> (int option \<times> string) option" where
  "run_main n C args s =
     (case run_dispatch args of
        CmdHelp \<Rightarrow> Some (Some 0, usage_text)
      | CmdPreflight check_mode \<Rightarrow> map_option (\<lambda>c. (Some c, [])) (run_value (preflight_command C check_mode) s)
      | CmdRun opts \<Rightarrow> map_option (\<lambda>r. (fst r, [])) (run_command C opts s)
      | CmdStatus opts \<Rightarrow> map_option (\<lambda>(c, out). (Some c, out)) (run_value (run_status C opts) s)
      | CmdNextIssue \<Rightarrow> map_option (\<lambda>(c, out). (Some c, out)) (run_value (run_next_issue C) s)
      | CmdLoop \<Rightarrow> map_option (\<lambda>c. (Some c, [])) (run_value (run_run_loop n C) s)
      | CmdBadFlags _ \<Rightarrow> Some (Some 1, [])
      | CmdRefused _ \<Rightarrow> Some (Some 1, [])
      | CmdUnknown _ \<Rightarrow> Some (Some 1, []))"

section \<open>Properties\<close>


text \<open>Calls that only look for the repository.\<close>

definition looks_for_repo :: "call \<Rightarrow> bool" where
  "looks_for_repo c \<longleftrightarrow>
     (case c of
        CStat p b \<Rightarrow> True
      | CExec (Cmd v d argv) r \<Rightarrow> v = [] \<and> hd argv = ''git'' \<and> ''rev-parse'' \<in> set argv
      | _ \<Rightarrow> False)"

lemma looks_for_repo_simps [simp]: "looks_for_repo (CStat p b)"
  "looks_for_repo (CExec (Cmd v d argv) r) \<longleftrightarrow> v = [] \<and> hd argv = ''git'' \<and> ''rev-parse'' \<in> set argv"
  by (simp_all add: looks_for_repo_def)



lemma config_limits: "load_config f = Inr c \<Longrightarrow> config_ok c"
  using loaded_config_ok [of f] by simp

lemma credential_tokens: "load_credentials home project f lookup = Inr c \<Longrightarrow> ct_dev_token c \<noteq> [] \<and> ct_reviewer_token c \<noteq> []"
  using load_backed [of home project f lookup] by (simp add: credentials_backed_def)

lemma wp_get_trace [wp_simps]: "wp get_trace Q s = Q (rs_trace s) s"
  by (simp add: wp_def run_value_def final_state_def get_trace_def)

lemma ends_load_project:
  "(\<And>e. ends (h e) Q) \<Longrightarrow> (\<And>cfg. config_ok cfg \<Longrightarrow> ends (k cfg) Q) \<Longrightarrow> ends (handle (load_project C root) h k) Q"
  unfolding ends_def load_project_def
  by (rule allI, simp add: wp_simps split: sum.split, blast dest: config_limits)

lemma ends_load_credentials:
  "(\<And>e. ends (h e) Q) \<Longrightarrow> (\<And>c. ct_dev_token c \<noteq> [] \<and> ct_reviewer_token c \<noteq> [] \<Longrightarrow> ends (k c) Q) \<Longrightarrow>
     ends (handle (load_project_credentials C home project) h k) Q"
  unfolding ends_def load_project_credentials_def
  by (rule allI, simp add: wp_simps split: sum.split, blast dest: credential_tokens)

lemma ends_run_in_dir:
  "(\<And>e. ends (h e) Q) \<Longrightarrow>
     (\<And>out s. last (rs_trace s) = CExec (Cmd [] dir argv) (Inr out) \<Longrightarrow> wp (k out) Q s) \<Longrightarrow>
     ends (handle (run_in_dir E dir argv) h k) Q"
  unfolding ends_def run_in_dir_def exec_def by (auto simp: wp_simps split: sum.split)


definition checked_start :: "(string \<times> string \<times> string) option option \<Rightarrow> rstate \<Rightarrow> bool" where
  "checked_start r t \<longleftrightarrow>
     (case r of
        Some (Some (bin, root, project)) \<Rightarrow>
          (\<exists>out. last (rs_trace t) = CExec (Cmd [] root [bin, ''preflight'', ''--check'']) (Inr out)) \<and>
          run_dispatch [bin, ''preflight'', ''--check''] = CmdPreflight True
      | _ \<Rightarrow> True)"

lemma preflight_args: "run_dispatch [bin, ''preflight'', ''--check''] = CmdPreflight True"
  by (simp add: run_dispatch_def dispatch_preflight_def preflight_flags_def split_flag_def flag_value_of_def flag_bool_def
      flag_of_def parse_bool_def Let_def)

lemma startup_checked: "ends (loop_startup C) checked_start"
  unfolding loop_startup_def
  by (intro ends ends_load_project ends_load_credentials ends_run_in_dir; simp add: checked_start_def wp_simps preflight_args)


text \<open>
  The polling loop starts only after a successful call of the program itself, in the repository, with
  arguments that the program reads as its read-only preflight.
\<close>

theorem loop_starts_checked: "checked_start (run_value (loop_startup C) s) (final_state (loop_startup C) s)"
  using startup_checked by (simp add: ends_def wp_def)

section \<open>The table\<close>

definition table_row :: "string list \<Rightarrow> bool" where
  "table_row r \<longleftrightarrow> length r = 8"

lemma text_width_append [simp]: "text_width (a @ b) = text_width a + text_width b"
  by (simp add: text_width_def)

lemma pad_cell_width: "text_width s \<le> w \<Longrightarrow> text_width (pad_cell w s) = w"
  by (simp add: pad_cell_def) (simp add: text_width_def byte_in_def)

lemma column_fits: "r \<in> set rows \<Longrightarrow> text_width (r ! i) + 2 \<le> column_width rows i"
  by (induction rows) (auto simp: column_width_def)

text \<open>
  In the table of \<open>status\<close> each column starts at the same place in every line, two blanks or more
  after the cell before it.
\<close>

theorem table_aligned:
  "list_all (\<lambda>r. text_width (concat (map (\<lambda>i. pad_cell (column_width rows i) (r ! i)) [0..<k])) = sum_list (map (column_width rows) [0..<k]) \<and>
     text_width (r ! i) + 2 \<le> column_width rows i) rows"
proof -
  have "text_width (concat (map (\<lambda>i. pad_cell (column_width rows i) (r ! i)) [0..<k])) = sum_list (map (column_width rows) [0..<k])"
    if "r \<in> set rows" for r k
  proof (induction k)
    case (Suc k)
    have "text_width (r ! k) \<le> column_width rows k" using column_fits [OF that, of k] by simp
    then show ?case using Suc by (simp add: pad_cell_width)
  qed (simp add: text_width_def)
  then show ?thesis using column_fits by (auto simp: list_all_iff)
qed

end
