(* ===== verification/Activity_Usage.thy ===== *)
theory Activity_Usage
  imports Agent_Output Token_Usage
begin

text \<open>
  The usage of an invocation (\<open>parseActivityUsage\<close> and \<open>wrapEndSpanWithUsage\<close> of
  \<open>runner/tokenusage.go\<close>), read from the activity file that the output filter of \<open>internal/agent\<close>
  writes. The parameter \<open>F\<close> is \<open>int64\<close> of the \<open>float64\<close> that the text of a number stands for, \<open>None\<close>
  where it is out of range.
\<close>

section \<open>Reading the usage\<close>

definition dec_float :: "(string \<Rightarrow> int option) \<Rightarrow> int \<Rightarrow> json \<Rightarrow> int option" where
  "dec_float F cur j = (case j of JNum t \<Rightarrow> F t | JNull \<Rightarrow> Some cur | _ \<Rightarrow> None)"

definition dec_pi_usage :: "(string \<Rightarrow> int option) \<Rightarrow> json \<Rightarrow> token_usage option" where
  "dec_pi_usage F j =
     (case (get_field (dec_float F) 0 ''input'' j, get_field (dec_float F) 0 ''output'' j,
            get_field (dec_float F) 0 ''cacheRead'' j, get_field (dec_float F) 0 ''cacheWrite'' j) of
        (Some i, Some q, Some r, Some w) \<Rightarrow>
          Some \<lparr>tu_input = i, tu_output = q, tu_cache_read = r, tu_cache_write = w, tu_turns = 1\<rparr>
      | _ \<Rightarrow> None)"

text \<open>What one line adds: lines that are no update, or have no readable usage, are passed over.\<close>

definition line_usage :: "(string \<Rightarrow> int option) \<Rightarrow> string \<Rightarrow> token_usage" where
  "line_usage F line =
     (case unmarshal line of
        None \<Rightarrow> usage_zero
      | Some j \<Rightarrow>
          (case (get_str ''type'' j, get_raw ''usage'' j) of
             (Some t, Some (Some u)) \<Rightarrow>
               if t \<noteq> ''message_update'' then usage_zero
               else (case dec_pi_usage F u of None \<Rightarrow> usage_zero | Some v \<Rightarrow> v)
           | _ \<Rightarrow> usage_zero))"

definition usage_of_lines :: "(string \<Rightarrow> int option) \<Rightarrow> string list \<Rightarrow> token_usage" where
  "usage_of_lines F ls = fold (\<lambda>l total. usage_add total (line_usage F l)) ls usage_zero"

text \<open>The scanner has its default limit: it stops before the first longer line.\<close>

definition parse_activity_usage :: "(string \<Rightarrow> int option) \<Rightarrow> string option \<Rightarrow> token_usage" where
  "parse_activity_usage F file =
     (case file of
        None \<Rightarrow> usage_zero
      | Some text \<Rightarrow>
          (let ls = split_on newline text; ls' = (if last ls = [] then butlast ls else ls)
           in usage_of_lines F (map drop_cr (takeWhile (\<lambda>l. length l < max_scan_token) ls'))))"

section \<open>Usage in telemetry\<close>

definition token_usage_attrs :: "token_usage \<Rightarrow> string \<rightharpoonup> json" where
  "token_usage_attrs u =
     [''input_tokens'' \<mapsto> jint (tu_input u), ''output_tokens'' \<mapsto> jint (tu_output u),
      ''cache_read_tokens'' \<mapsto> jint (tu_cache_read u), ''cache_write_tokens'' \<mapsto> jint (tu_cache_write u),
      ''turns'' \<mapsto> jint (tu_turns u)]"

text \<open>The function that ends the span, as the attributes that it is given in the end.\<close>

definition wrap_end_span_with_usage :: "(string \<Rightarrow> (string \<rightharpoonup> json) \<Rightarrow> 'a) \<Rightarrow> token_usage \<Rightarrow> string \<Rightarrow> (string \<rightharpoonup> json) \<Rightarrow> 'a" where
  "wrap_end_span_with_usage end_span u = (\<lambda>status extra. end_span status (token_usage_attrs u ++ extra))"

lemma wrapped_usage_kept:
  "k \<notin> dom extra \<Longrightarrow> wrap_end_span_with_usage (\<lambda>_ attrs. attrs k) u status extra = token_usage_attrs u k"
  by (simp add: wrap_end_span_with_usage_def map_add_dom_app_simps)

section \<open>Properties\<close>

lemma usage_of_lines_Nil [simp]: "usage_of_lines F [] = usage_zero"
  by (simp add: usage_of_lines_def)

lemma usage_of_lines_snoc: "usage_of_lines F (ls @ [l]) = usage_add (usage_of_lines F ls) (line_usage F l)"
  by (simp add: usage_of_lines_def)

lemma usage_of_lines_append: "usage_of_lines F (as @ bs) = usage_add (usage_of_lines F as) (usage_of_lines F bs)"
  by (induction bs rule: rev_induct)
    (simp_all add: usage_of_lines_snoc usage_add_assoc flip: append_assoc)

lemma usage_of_lines_map:
  assumes "\<And>l. l \<in> set ls \<Longrightarrow> line_usage F (f l) = line_usage F l"
  shows "usage_of_lines F (map f ls) = usage_of_lines F ls"
  using assms by (induction ls rule: rev_induct) (simp_all add: usage_of_lines_snoc)

text \<open>The projection of an update has its usage.\<close>

lemma projected_usage: "project_message_update j = Some out \<Longrightarrow> get_raw ''usage'' out = get_raw ''usage'' j"
  by (auto simp: project_message_update_def get_raw_def get_field_def key_matches_def field_lower
      omit_none_def omit_empty_def dec_over_other split: option.splits if_splits)

lemma filtered_usage:
  assumes "newline \<notin> set l"
  shows "line_usage F (filtered l) = line_usage F l"
  using assms by (cases rule: filtered_projected) (simp_all add: line_usage_def projected_type projected_usage)

text \<open>
  C40: The usage that a run records of an agent is the sum over the lines that the agent printed: the filter
  on its output loses none of it. The one loss is a line that is too long for the scanner, which ends the
  count.
\<close>

theorem recorded_usage_is_printed_usage:
  assumes "list_all output_line ls"
  shows "parse_activity_usage F (Some (concat (map (\<lambda>l. filter_pi_line (l @ [newline])) ls))) =
    usage_of_lines F (takeWhile (\<lambda>l. length (filtered l) < max_scan_token) ls)"
proof -
  have "usage_of_lines F (map filtered (takeWhile P ls)) = usage_of_lines F (takeWhile P ls)" for P
    by (rule usage_of_lines_map)
      (use assms in \<open>auto intro: filtered_usage dest: set_takeWhileD simp: list_all_iff output_line_def\<close>)
  then show ?thesis
    using activity_lines [OF assms]
    by (simp add: activity_text_def parse_activity_usage_def takeWhile_map_length Let_def del: map_map)
qed

text \<open>One printed line: an update with its usage.\<close>

definition sample_update :: string where
  "sample_update =
     json_text (JObj [(''type'', JStr ''message_update''), (''usage'', JObj [(''input'', jint 7), (''output'', jint 2)])])"

theorem recorded_usage_is_printed_usage_witness:
  "tu_input (parse_activity_usage atoi (Some (concat (map (\<lambda>l. filter_pi_line (l @ [newline])) [sample_update, sample_update])))) = 14"
proof -
  have ok: "list_all output_line [sample_update, sample_update]" by code_simp
  have "length (filtered sample_update) < 200" "tu_input (line_usage atoi sample_update) = 7" by code_simp+
  then have "tu_input (usage_of_lines atoi (takeWhile (\<lambda>l. length (filtered l) < max_scan_token) [sample_update, sample_update])) = 14"
    by (simp add: max_scan_token_def usage_of_lines_def usage_add_def usage_zero_def)
  then show ?thesis using recorded_usage_is_printed_usage [OF ok, of atoi] by simp
qed

text \<open>What the limit of the scanner costs: nothing behind a long line is counted.\<close>

lemma long_line_hides_usage:
  assumes "newline \<notin> set l" and "max_scan_token \<le> length l"
  shows "parse_activity_usage F (Some (l @ newline # rest)) = usage_zero"
proof -
  have "split_on newline (l @ newline # rest) = l # split_on newline rest" using assms(1) by (rule split_on_line)
  then show ?thesis using assms(2) by (cases "split_on newline rest = [[]]") (auto simp: parse_activity_usage_def Let_def)
qed

end
