(* ===== verification/Invocations.thy ===== *)
theory Invocations
  imports Command_Line Prompt Gm_Commit
begin

text \<open>
  What the runner gives to \<open>RunRole\<close>: the configuration of each kind of agent invocation
  (\<open>buildDevAgentConfig\<close>, \<open>buildReviewerRoleConfig\<close>, \<open>buildCIRetryAgentConfig\<close>,
  \<open>buildRebaseConflictAgentConfig\<close>), the environment that the brokers add, and the prompt, together
  with the persona that \<open>resolveAgentFile\<close> wrote.
\<close>

section \<open>Timeouts\<close>

definition configured_timeout :: "config \<Rightarrow> int" where
  "configured_timeout cfg =
     (if cf_timeout_seconds cfg > 0 then duration (cf_timeout_seconds cfg * 10 ^ 9)
      else duration (cf_timeout_minutes cfg * 60 * 10 ^ 9))"

definition agent_timeout :: "config \<Rightarrow> int" where
  "agent_timeout cfg =
     (if cf_timeout_seconds cfg > 0 then duration (cf_timeout_seconds cfg * 10 ^ 9)
      else duration (cf_timeout_minutes cfg * 60 * 10 ^ 9))"

definition idle_timeout :: "config \<Rightarrow> int" where
  "idle_timeout cfg = duration (cf_agent_idle_timeout_minutes cfg * 60 * 10 ^ 9)"

section \<open>The environment of the brokers\<close>

definition gm_env :: "string \<Rightarrow> string list" where
  "gm_env sock = [''GOLEMIC_GM_SOCK='' @ sock]"

definition cbm_env :: "string \<Rightarrow> string \<Rightarrow> string list" where
  "cbm_env sock project = [''CBM_SOCK='' @ sock, ''CBM_PROJECT='' @ project]"

definition identity_env :: "rconfig \<Rightarrow> string \<Rightarrow> int \<Rightarrow> int \<Rightarrow> string list" where
  "identity_env R role round attempt =
     [''GOLEMIC_RUN_ID='' @ r_run_id R, ''GOLEMIC_INVOCATION_ID='' @ invocation_id R role round attempt,
      ''GOLEMIC_ROLE='' @ role]"

text \<open>The brokers of a dev invocation: \<open>gm\<close> always runs, \<open>cbm\<close> says whether the other one does.\<close>

definition dev_broker_env :: "rconfig \<Rightarrow> bool \<Rightarrow> int \<Rightarrow> int \<Rightarrow> string list" where
  "dev_broker_env R cbm round attempt =
     (if cbm then cbm_env (socket_path R ''cbm-dev-r'' round attempt) (''golemic-issue-'' @ itoa (r_issue_num R) @ ''-dev'') else []) @
     gm_env (socket_path R ''gm-dev-r'' round attempt) @ identity_env R ''dev'' round attempt"

definition reviewer_broker_env :: "rconfig \<Rightarrow> bool \<Rightarrow> bool \<Rightarrow> int \<Rightarrow> int \<Rightarrow> string list" where
  "reviewer_broker_env R cbm gm round attempt =
     (if cbm then cbm_env (path_join [runs_dir R, r_run_id R, ''cbm-reviewer.sock''])
                    (''golemic-issue-'' @ itoa (r_issue_num R) @ ''-reviewer'') else []) @
     (if gm then gm_env (socket_path R ''gm-reviewer-r'' round attempt) @ identity_env R ''reviewer'' round attempt else [])"

definition ci_retry_env :: "rconfig \<Rightarrow> bool \<Rightarrow> string list" where
  "ci_retry_env R gm = (if gm then gm_env (path_join [runs_dir R, r_run_id R, ''gm-ci-retry.sock'']) else [])"

section \<open>The configurations\<close>

text \<open>The tools that the environment allows.\<close>

definition has_gm_sock :: "string list \<Rightarrow> bool" where
  "has_gm_sock env \<longleftrightarrow> list_ex (has_prefix ''GOLEMIC_GM_SOCK='') env"

definition has_cbm_sock :: "string list \<Rightarrow> bool" where
  "has_cbm_sock env \<longleftrightarrow> list_ex (has_prefix ''CBM_SOCK='') env"

definition event_log_path :: "rconfig \<Rightarrow> string" where
  "event_log_path R = path_join [r_home R, ''.golemic'', r_project R, ''runs'', r_run_id R, ''events.jsonl'']"

text \<open>What each invocation shares; the poll interval and the number of retries are the defaults.\<close>

definition common_config :: "rconfig \<Rightarrow> config \<Rightarrow> string \<Rightarrow> string \<Rightarrow> string \<Rightarrow> int \<Rightarrow> role_cfg" where
  "common_config R cfg sys model prompt t =
     \<lparr>ro_role = [], ro_system_prompt = sys, ro_user_prompt = prompt, ro_worktree = dev_worktree_path R,
      ro_run_id = r_run_id R, ro_event_log = event_log_path R, ro_model = model, ro_timeout = configured_timeout cfg,
      ro_idle_timeout = idle_timeout cfg, ro_tools = baseDevTools, ro_runs_dir = runs_dir R, ro_round = 0,
      ro_attempt = 0, ro_turn = t, ro_env = [], ro_poll_interval = 0, ro_max_stall_retries = None\<rparr>"

definition build_dev_agent_config ::
  "rconfig \<Rightarrow> config \<Rightarrow> string \<Rightarrow> string \<Rightarrow> string \<Rightarrow> int \<Rightarrow> int \<Rightarrow> int \<Rightarrow> string list \<Rightarrow> role_cfg" where
  "build_dev_agent_config R cfg sys model prompt t round attempt env =
     (common_config R cfg sys model prompt t)
       \<lparr>ro_role := ''dev'', ro_round := round, ro_attempt := attempt, ro_env := env,
        ro_tools := baseDevTools @ (if has_gm_sock env then gmDevToolNames @ (if has_cbm_sock env then gmCodeToolNames else []) else [])\<rparr>"

definition build_reviewer_tool_list :: "string list \<Rightarrow> string list" where
  "build_reviewer_tool_list env =
     [''read''] @ (if has_gm_sock env then gmReviewerToolNames @ (if has_cbm_sock env then gmCodeToolNames else []) else [])"

definition build_reviewer_role_config ::
  "rconfig \<Rightarrow> config \<Rightarrow> string \<Rightarrow> string \<Rightarrow> string \<Rightarrow> int \<Rightarrow> int \<Rightarrow> int \<Rightarrow> string list \<Rightarrow> role_cfg" where
  "build_reviewer_role_config R cfg sys model prompt t round attempt env =
     (common_config R cfg sys model prompt t)
       \<lparr>ro_role := ''reviewer'', ro_worktree := review_worktree_path R, ro_round := round, ro_attempt := attempt,
        ro_env := env, ro_tools := build_reviewer_tool_list env\<rparr>"

definition build_ci_retry_agent_config ::
  "rconfig \<Rightarrow> config \<Rightarrow> string \<Rightarrow> string \<Rightarrow> string \<Rightarrow> int \<Rightarrow> int \<Rightarrow> string list \<Rightarrow> role_cfg" where
  "build_ci_retry_agent_config R cfg sys model prompt t fix_round env =
     (common_config R cfg sys model prompt t)
       \<lparr>ro_role := ''dev'', ro_attempt := fix_round, ro_env := env,
        ro_tools := baseDevTools @ (if env \<noteq> [] then gmDevToolNames else [])\<rparr>"

definition build_rebase_conflict_agent_config ::
  "rconfig \<Rightarrow> config \<Rightarrow> string \<Rightarrow> string \<Rightarrow> string \<Rightarrow> int \<Rightarrow> int \<Rightarrow> role_cfg" where
  "build_rebase_conflict_agent_config R cfg sys model prompt t attempt =
     (common_config R cfg sys model prompt t)
       \<lparr>ro_role := ''dev'', ro_timeout := agent_timeout cfg, ro_attempt := attempt\<rparr>"

section \<open>Invocations\<close>

text \<open>The four kinds, with what their prompts are made of.\<close>

datatype invocation =
    DevAttempt run_ctx bool                           \<comment> \<open>the context, the code-index broker\<close>
  | ReviewerAttempt int int int string string bool bool  \<comment> \<open>PR, round, attempt, precheck, reason, code index, broker\<close>
  | CiRetry string int bool                           \<comment> \<open>the failed checks, the fix round, the broker\<close>
  | ConflictAttempt int "string list" int             \<comment> \<open>PR, files, attempt\<close>

definition invocation_role :: "invocation \<Rightarrow> string" where
  "invocation_role v = (case v of ReviewerAttempt _ _ _ _ _ _ _ \<Rightarrow> ''reviewer'' | _ \<Rightarrow> ''dev'')"

definition invocation_prompt :: "(string \<Rightarrow> string result) \<Rightarrow> rconfig \<Rightarrow> invocation \<Rightarrow> string result" where
  "invocation_prompt F R v =
     (case v of
        DevAttempt c cbm \<Rightarrow> render_dev_prompt F R c cbm
      | ReviewerAttempt pr round attempt precheck reason cbm gm \<Rightarrow> render_reviewer_prompt F R pr precheck reason cbm
      | CiRetry info fix_round gm \<Rightarrow>
          render_dev_ci_retry F info (run_issue R) (r_branch R) (r_verify_command R) (guidelines_path R ''dev'')
      | ConflictAttempt pr files attempt \<Rightarrow>
          render_dev_rebase_conflict_resolve F pr (r_branch R) ''origin/main'' files (r_verify_command R)
            (guidelines_path R ''dev''))"

definition invocation_config :: "rconfig \<Rightarrow> config \<Rightarrow> string \<Rightarrow> string \<Rightarrow> string \<Rightarrow> int \<Rightarrow> invocation \<Rightarrow> role_cfg" where
  "invocation_config R cfg sys model prompt t v =
     (case v of
        DevAttempt c cbm \<Rightarrow>
          build_dev_agent_config R cfg sys model prompt t (rc_round c) (rc_dev_attempt c)
            (dev_broker_env R cbm (rc_round c) (rc_dev_attempt c))
      | ReviewerAttempt pr round attempt precheck reason cbm gm \<Rightarrow>
          build_reviewer_role_config R cfg sys model prompt t round attempt (reviewer_broker_env R cbm gm round attempt)
      | CiRetry info fix_round gm \<Rightarrow> build_ci_retry_agent_config R cfg sys model prompt t fix_round (ci_retry_env R gm)
      | ConflictAttempt pr files attempt \<Rightarrow> build_rebase_conflict_agent_config R cfg sys model prompt t (attempt - 1))"

section \<open>Every invocation is accepted\<close>

lemma duration_small: "0 \<le> n \<Longrightarrow> n < 2 ^ 63 \<Longrightarrow> duration n = n"
  by (simp add: duration_def sint_sbintrunc' signed_take_bit_int_eq_self)

definition timeouts_fit :: "config \<Rightarrow> bool" where
  "timeouts_fit cfg \<longleftrightarrow> cf_timeout_seconds cfg * 10 ^ 9 < 2 ^ 63 \<and> cf_timeout_minutes cfg * 60 * 10 ^ 9 < 2 ^ 63"

lemma timeouts_positive: "config_ok cfg \<Longrightarrow> timeouts_fit cfg \<Longrightarrow> configured_timeout cfg > 0 \<and> agent_timeout cfg > 0"
  by (simp add: config_ok_def timeouts_fit_def configured_timeout_def agent_timeout_def duration_small)

lemma path_base_plain:
  assumes "p \<noteq> []" and "CHR ''/'' \<notin> set p"
  shows "path_base p = p"
proof -
  have "trim_right (\<lambda>c. c = CHR ''/'') p = p"
    using assms by (cases p rule: rev_cases) (auto simp: trim_right_def)
  then show ?thesis using assms split_on_none [OF assms(2)] by (simp add: path_base_def Let_def)
qed

lemma itoa_no_slash: "CHR ''/'' \<notin> set (itoa n)"
proof -
  have slash: "digit_val (CHR ''/'') = None" by (simp add: digit_val_def)
  have "CHR ''/'' \<notin> set (nat_digits k)" for k
    using nat_digits_all_digits [of "CHR ''/''" k] digit_val_digit_char slash by (metis option.distinct(1))
  then show ?thesis by (simp add: itoa_def)
qed

lemma path_join_nonempty: "p \<in> set ps \<Longrightarrow> p \<noteq> [] \<Longrightarrow> path_join ps \<noteq> []"
proof -
  have "join_with ''/'' qs \<noteq> []" if "qs \<noteq> []" "\<forall>q\<in>set qs. q \<noteq> []" for qs
    using that by (induction "''/''" qs rule: join_with.induct) auto
  then show "p \<in> set ps \<Longrightarrow> p \<noteq> [] \<Longrightarrow> path_join ps \<noteq> []"
    unfolding path_join_def by (metis (mono_tags, lifting) filter_empty_conv mem_Collect_eq set_filter)
qed

text \<open>Every prompt starts with a text.\<close>

lemma rendered_nonempty: "rendered what (Txt ts # ns) dot = Inr s \<Longrightarrow> concat ts \<noteq> [] \<Longrightarrow> s \<noteq> []"
  by (auto simp: rendered_def execute_template_def split: option.splits)

lemmas render_defs =
  render_dev_def render_reviewer_def render_dev_retry_def render_dev_gate_retry_def render_reviewer_gate_retry_def
  render_dev_ci_retry_def render_dev_rebase_conflict_resolve_def

lemmas template_defs =
  devUserTemplate_def reviewerUserTemplate_def devRetryUserTemplate_def devGateRetryUserTemplate_def
  reviewerGateRetryUserTemplate_def devCIRetryUserTemplate_def devRebaseConflictResolveUserTemplate_def

lemma templates_start:
  "\<exists>ts ns. concat ts \<noteq> [] \<and> devUserTemplate = Txt ts # ns"
  "\<exists>ts ns. concat ts \<noteq> [] \<and> reviewerUserTemplate = Txt ts # ns"
  "\<exists>ts ns. concat ts \<noteq> [] \<and> devRetryUserTemplate = Txt ts # ns"
  "\<exists>ts ns. concat ts \<noteq> [] \<and> devGateRetryUserTemplate = Txt ts # ns"
  "\<exists>ts ns. concat ts \<noteq> [] \<and> reviewerGateRetryUserTemplate = Txt ts # ns"
  "\<exists>ts ns. concat ts \<noteq> [] \<and> devCIRetryUserTemplate = Txt ts # ns"
  "\<exists>ts ns. concat ts \<noteq> [] \<and> devRebaseConflictResolveUserTemplate = Txt ts # ns"
  by (simp_all add: template_defs)

lemma template_nonempty:
  "\<exists>ts ns. concat ts \<noteq> [] \<and> tm = Txt ts # ns \<Longrightarrow> rendered what tm dot = Inr s \<Longrightarrow> s \<noteq> []"
  using rendered_nonempty by blast

lemma prompt_nonempty: "invocation_prompt F R v = Inr s \<Longrightarrow> s \<noteq> []"
  by (cases v)
    (auto simp: invocation_prompt_def render_dev_prompt_def render_reviewer_prompt_def render_defs
      split: if_splits sum.splits dest: template_nonempty [OF templates_start(1)] template_nonempty [OF templates_start(2)]
        template_nonempty [OF templates_start(3)] template_nonempty [OF templates_start(4)]
        template_nonempty [OF templates_start(5)] template_nonempty [OF templates_start(6)]
        template_nonempty [OF templates_start(7)])

lemma invocation_fields [simp]:
  "ro_user_prompt (invocation_config R cfg sys model prompt t v) = prompt"
  "ro_model (invocation_config R cfg sys model prompt t v) = model"
  "ro_run_id (invocation_config R cfg sys model prompt t v) = r_run_id R"
  "ro_event_log (invocation_config R cfg sys model prompt t v) = event_log_path R"
  "ro_runs_dir (invocation_config R cfg sys model prompt t v) = runs_dir R"
  "ro_role (invocation_config R cfg sys model prompt t v) = invocation_role v"
  "ro_tools (invocation_config R cfg sys model prompt t v) \<noteq> []"
  by (cases v; simp add: invocation_config_def invocation_role_def build_dev_agent_config_def build_reviewer_role_config_def
      build_ci_retry_agent_config_def build_rebase_conflict_agent_config_def common_config_def build_reviewer_tool_list_def
      baseDevTools_def)+

lemma invocation_timeout:
  "ro_timeout (invocation_config R cfg sys model prompt t v) \<in> {configured_timeout cfg, agent_timeout cfg}"
  by (cases v; simp add: invocation_config_def build_dev_agent_config_def build_reviewer_role_config_def
      build_ci_retry_agent_config_def build_rebase_conflict_agent_config_def common_config_def)

lemma resolved_model:
  assumes "choose_persona P root role = Inr (chain, body)" and "fst (resolve_agent_file P root role) = Inr (sys, model)"
  shows "parse_model_chain model = Inr chain \<and> model \<noteq> []"
proof -
  have "model = join_with '', '' chain"
    using assms by (auto simp: resolve_agent_file_def split: sum.splits option.splits)
  then have "parse_model_chain model = Inr chain" using choose_persona_chain [OF assms(1)] by simp
  moreover have "parse_model_chain [] \<noteq> Inr chain" by (simp add: parse_model_chain_def trim_space_def trim_left_def trim_right_def)
  ultimately show ?thesis by metis
qed

text \<open>
  C38: Each agent invocation of a run, be it a dev or reviewer attempt, a retry after a failed check or the
  resolution of a conflict, passes the checks of \<open>RunRole\<close>: with a loaded configuration whose timeouts fit
  into 64 bits, a persona that was resolved and a prompt that was rendered, the models of the persona are
  run in their order.
\<close>

theorem invocations_accepted:
  assumes cfg: "config_ok cfg" "timeouts_fit cfg"
    and run: "r_run_id R = r_run_id (run_config C opts home root cfg creds)" "CHR ''/'' \<notin> set (cl_stamp C)"
    and persona: "choose_persona P (r_repo_root R) (invocation_role v) = Inr (chain, body)"
      "fst (resolve_agent_file P (r_repo_root R) (invocation_role v)) = Inr (sys, model)"
    and prompt: "invocation_prompt F R v = Inr prompt"
    and host: "rh_prompt_exists H" "rh_worktree_is_dir H" "rh_prepare_error H = None"
  shows "run_role H (invocation_config R cfg sys model prompt t v) procs activity =
    run_chain (effective_idle_timeout (invocation_config R cfg sys model prompt t v) (rh_idle_var H))
      (effective_max_stall_retries (invocation_config R cfg sys model prompt t v) (rh_retries_var H)) procs activity 0 chain []"
proof -
  have id: "path_base (r_run_id R) = r_run_id R" "r_run_id R \<noteq> []"
    using run itoa_no_slash by (auto simp: run_config_def intro!: path_base_plain)
  have paths: "event_log_path R \<noteq> []" "runs_dir R \<noteq> []"
    unfolding event_log_path_def runs_dir_def by (rule path_join_nonempty [where p = "''.golemic''"]; simp)+
  have "ro_timeout (invocation_config R cfg sys model prompt t v) > 0"
    using invocation_timeout [of R cfg sys model prompt t v] timeouts_positive [OF cfg] by auto
  moreover have "invocation_role v = ''dev'' \<or> invocation_role v = ''reviewer''"
    by (simp add: invocation_role_def split: invocation.split)
  ultimately have "check_role (invocation_config R cfg sys model prompt t v) True True = None"
    using id paths prompt_nonempty [OF prompt] resolved_model [OF persona] by (auto simp: check_role_def)
  then show ?thesis using host resolved_model [OF persona] by (simp add: run_role_def)
qed

text \<open>A repository whose persona of the dev agent names two models.\<close>

definition sample_personas :: persona_os where
  "sample_personas =
     \<lparr>pe_stat = (\<lambda>_. None), pe_read = (\<lambda>_. Inr (''---'' @ [newline] @ ''model: a, b'' @ [newline] @ ''---'' @ [newline] @ ''You are.'')),
      pe_embedded = (\<lambda>_. Inl (msg_err ''none'')), pe_create = Inr ''/tmp/p.md'', pe_write = None, pe_close = None\<rparr>"

theorem invocations_accepted_witness:
  "\<forall>C opts creds H t procs activity. \<exists>prompt.
     (let R = run_config (C\<lparr>cl_stamp := ''20240101T000000Z''\<rparr>) opts ''/h'' ''/r'' app_config creds;
          c = invocation_config R app_config ''/tmp/p.md'' ''a, b'' prompt t (CiRetry ''red'' 0 True);
          H' = H\<lparr>rh_prompt_exists := True, rh_worktree_is_dir := True, rh_prepare_error := None\<rparr>
      in invocation_prompt (\<lambda>_. Inr ''rules'') R (CiRetry ''red'' 0 True) = Inr prompt \<and>
         run_role H' c procs activity =
           run_chain (effective_idle_timeout c (rh_idle_var H')) (effective_max_stall_retries c (rh_retries_var H'))
             procs activity 0 [''a'', ''b''] [])"
proof (intro allI)
  fix C :: cli and opts :: run_options and creds :: credentials and H :: role_host and t :: int
    and procs :: "nat \<Rightarrow> nat \<Rightarrow> pi_process" and activity :: "nat \<Rightarrow> string option"
  let ?C = "C\<lparr>cl_stamp := ''20240101T000000Z''\<rparr>"
  let ?R = "run_config ?C opts ''/h'' ''/r'' app_config creds"
  obtain prompt where p: "invocation_prompt (\<lambda>_. Inr ''rules'') ?R (CiRetry ''red'' 0 True) = Inr prompt"
    using dev_ci_retry_embeds [of "''red''"] by (fastforce simp: invocation_prompt_def embeds_def)
  have role: "invocation_role (CiRetry ''red'' 0 True) = ''dev''" by (simp add: invocation_role_def)
  have chosen: "choose_persona sample_personas ''/r'' ''dev'' = Inr ([''a'', ''b''], ''You are.'')"
    and resolved: "fst (resolve_agent_file sample_personas ''/r'' ''dev'') = Inr (''/tmp/p.md'', ''a, b'')" by code_simp+
  have ok: "config_ok app_config" "timeouts_fit app_config"
    by (simp_all add: config_ok_def timeouts_fit_def app_config_def DefaultConfig_def)
  have root: "r_repo_root ?R = ''/r''" by (simp add: run_config_def)
  show "\<exists>prompt.
     (let R = ?R;
          c = invocation_config R app_config ''/tmp/p.md'' ''a, b'' prompt t (CiRetry ''red'' 0 True);
          H' = H\<lparr>rh_prompt_exists := True, rh_worktree_is_dir := True, rh_prepare_error := None\<rparr>
      in invocation_prompt (\<lambda>_. Inr ''rules'') R (CiRetry ''red'' 0 True) = Inr prompt \<and>
         run_role H' c procs activity =
           run_chain (effective_idle_timeout c (rh_idle_var H')) (effective_max_stall_retries c (rh_retries_var H'))
             procs activity 0 [''a'', ''b''] [])"
    unfolding Let_def
    by (intro exI [of _ prompt] conjI p invocations_accepted [where P = sample_personas and body = "''You are.''", OF ok refl _ _ _ p])
      (simp_all add: root role chosen resolved)
qed

text \<open>A timeout that does not fit becomes negative, and every invocation is refused.\<close>

lemma long_timeout_refused:
  "check_role (invocation_config R (app_config\<lparr>cf_timeout_seconds := 0, cf_timeout_minutes := 153722868\<rparr>) sys model prompt t v) a b \<noteq> None"
proof -
  have "duration (153722868 * 60 * 10 ^ 9) < 0" by (simp add: duration_def)
  then show ?thesis
    using invocation_timeout [of R "app_config\<lparr>cf_timeout_seconds := 0, cf_timeout_minutes := 153722868\<rparr>" sys model prompt t v]
    by (auto simp: check_role_def configured_timeout_def agent_timeout_def)
qed

section \<open>Sessions and transcripts\<close>

text \<open>The tools of a configuration are those that the run model passes on.\<close>

lemma sockets_in_env:
  "has_gm_sock (dev_broker_env R cbm round attempt)" "has_cbm_sock (dev_broker_env R cbm round attempt) = cbm"
  "has_gm_sock (reviewer_broker_env R cbm gm round attempt) = gm"
  "has_cbm_sock (reviewer_broker_env R cbm gm round attempt) = cbm"
  by (auto simp: has_gm_sock_def has_cbm_sock_def dev_broker_env_def reviewer_broker_env_def cbm_env_def gm_env_def
      identity_env_def has_prefix_def)

lemma invocation_tools:
  "ro_tools (invocation_config R cfg sys model prompt t v) =
     (case v of
        DevAttempt c cbm \<Rightarrow> dev_tools True cbm
      | ReviewerAttempt _ _ _ _ _ cbm gm \<Rightarrow> reviewer_tools gm cbm
      | CiRetry _ _ gm \<Rightarrow> baseDevTools @ (if gm then gmDevToolNames else [])
      | ConflictAttempt _ _ _ \<Rightarrow> baseDevTools)"
  by (cases v; simp add: invocation_config_def build_dev_agent_config_def build_reviewer_role_config_def
      build_ci_retry_agent_config_def build_rebase_conflict_agent_config_def common_config_def build_reviewer_tool_list_def
      sockets_in_env dev_tools_def reviewer_tools_def ci_retry_env_def gm_env_def)

lemma session_char_kept: "list_all session_char s \<Longrightarrow> sanitize_session_id s = s"
proof (induction s rule: sanitize_session_id.induct)
  case (2 c cs)
  then have "is_ascii c" by (auto simp: session_char_def byte_in_def is_ascii_def)
  then have "rune_length (c # cs) = 1" by (rule ascii_rune)
  with 2 show ?case by simp
qed simp

lemma itoa_session: "list_all session_char (itoa n)"
proof -
  have "session_char (digit_char d)" if "d < 10" for d
    using that by (simp add: session_char_def byte_in_def digit_char_def)
  then have "list_all session_char (nat_digits k)" for k
    using nat_digits_all_digits by (fastforce simp: list_all_iff)
  then show ?thesis by (simp add: itoa_def session_char_def)
qed

text \<open>
  C39: The attempts of a role in one round continue one session, and sessions of different rounds or roles
  are never mixed: two invocations of a run have the same session exactly when role and round agree.
\<close>

theorem sessions_by_round:
  assumes "r_run_id R = r_run_id (run_config C opts home root cfg creds)" and "list_all session_char (cl_stamp C)"
  shows "session_id (invocation_config R cfg sys model prompt t v) = session_id (invocation_config R cfg' sys' model' prompt' t' w) \<longleftrightarrow>
    invocation_role v = invocation_role w \<and>
    ro_round (invocation_config R cfg sys model prompt t v) = ro_round (invocation_config R cfg' sys' model' prompt' t' w)"
proof -
  have "list_all session_char (r_run_id R)"
    using assms itoa_session [of "op_issue opts"] by (simp add: run_config_def session_char_def byte_in_def)
  moreover have "list_all session_char (invocation_role v)" for v
    by (simp add: invocation_role_def session_char_def byte_in_def split: invocation.split)
  ultimately have "session_id (invocation_config R cfg sys model prompt t v) =
      r_run_id R @ ''-'' @ invocation_role v @ ''-r'' @ itoa (ro_round (invocation_config R cfg sys model prompt t v))"
    for cfg sys model prompt t v
    using itoa_session by (simp add: session_id_def session_char_kept session_char_def byte_in_def)
  moreover have "invocation_role v @ ''-r'' @ itoa n = invocation_role w @ ''-r'' @ itoa m \<longleftrightarrow>
      invocation_role v = invocation_role w \<and> n = m" for n m
    by (auto simp: invocation_role_def itoa_inj split: invocation.splits)
  ultimately show ?thesis by simp
qed

theorem sessions_by_round_witness:
  "\<forall>C opts creds sys model prompt t.
     (let R = run_config (C\<lparr>cl_stamp := ''20240101T000000Z''\<rparr>) opts ''/h'' ''/r'' app_config creds;
          session = \<lambda>v. session_id (invocation_config R app_config sys model prompt t v)
      in session (ReviewerAttempt 7 1 0 [] [] False True) = session (ReviewerAttempt 7 1 1 [] ''gate'' False True) \<and>
         session (ReviewerAttempt 7 1 0 [] [] False True) \<noteq> session (ReviewerAttempt 7 2 0 [] [] False True))"
proof (intro allI)
  fix C :: cli and opts :: run_options and creds :: credentials and sys model prompt :: string and t :: int
  let ?C = "C\<lparr>cl_stamp := ''20240101T000000Z''\<rparr>"
  let ?R = "run_config ?C opts ''/h'' ''/r'' app_config creds"
  have ok: "list_all session_char (cl_stamp ?C)" by (simp add: session_char_def byte_in_def)
  have by_round: "session_id (invocation_config ?R app_config sys model prompt t v) =
        session_id (invocation_config ?R app_config sys model prompt t w) \<longleftrightarrow>
      invocation_role v = invocation_role w \<and>
      ro_round (invocation_config ?R app_config sys model prompt t v) = ro_round (invocation_config ?R app_config sys model prompt t w)" for v w
    by (rule sessions_by_round [OF refl ok])
  show "let R = ?R; session = \<lambda>v. session_id (invocation_config R app_config sys model prompt t v)
      in session (ReviewerAttempt 7 1 0 [] [] False True) = session (ReviewerAttempt 7 1 1 [] ''gate'' False True) \<and>
         session (ReviewerAttempt 7 1 0 [] [] False True) \<noteq> session (ReviewerAttempt 7 2 0 [] [] False True)"
    unfolding Let_def by_round
    by (simp add: invocation_role_def) (simp add: invocation_config_def build_reviewer_role_config_def common_config_def)
qed

text \<open>
  A retry after a failed check and the resolution of a conflict both count their attempts from 0 in round
  0: they share the session and write the same transcript.
\<close>

lemma retries_share_transcript:
  "\<exists>v w. v = CiRetry info 0 gm \<and> w = ConflictAttempt pr files 1 \<and>
     (let c = invocation_config R cfg sys model prompt t v; d = invocation_config R cfg sys model prompt' t' w
      in session_id c = session_id d \<and>
         activity_path R (ro_role c) (ro_round c) (ro_attempt c) = activity_path R (ro_role d) (ro_round d) (ro_attempt d))"
  by (simp add: invocation_config_def build_ci_retry_agent_config_def build_rebase_conflict_agent_config_def common_config_def
      session_id_def)

end
