(* ===== verification/Gm_Socket.thy ===== *)
theory Gm_Socket
  imports Cbm_Broker
begin

text \<open>
  The life of the socket of a GM broker (\<open>StartWithFetcherAndProjectCheck\<close> and \<open>Shutdown\<close> of
  \<open>gmbroker/broker.go\<close>): the calls to the operating system with their outcome, and what the file
  system shows of the socket after each of them.
\<close>

section \<open>Start and shutdown\<close>

datatype socket_op =
    SoMkdir string nat
  | SoChmod string nat
  | SoRemove string
  | SoListen string
  | SoMkTemp
  | SoCloseListener
  | SoRemoveAll string

type_synonym socket_history = "(socket_op \<times> bool) list"

text \<open>Whether a call fails, and the directory that \<open>MkdirTemp\<close> makes, depend on the calls before.\<close>

record socket_os =
  sk_error :: "socket_history \<Rightarrow> socket_op \<Rightarrow> string option"
  sk_temp :: "socket_history \<Rightarrow> string"

definition sk_do :: "socket_os \<Rightarrow> socket_op \<Rightarrow> (socket_history, string option) state" where
  "sk_do S op = State (\<lambda>h. (sk_error S h op, h @ [(op, sk_error S h op = None)]))"

definition close_failed :: "socket_os \<Rightarrow> string \<Rightarrow> string \<Rightarrow> (socket_history, string + string) state" where
  "close_failed S sock m =
     do {
       _ \<leftarrow> sk_do S SoCloseListener;
       _ \<leftarrow> sk_do S (SoRemove sock);
       State_Monad.return (Inl m)
     }"

text \<open>The directory for the output of project checks.\<close>

definition make_log_dir :: "socket_os \<Rightarrow> string \<Rightarrow> (socket_history, string + string) state" where
  "make_log_dir S sock =
     do {
       dir \<leftarrow> State_Monad.get;
       e \<leftarrow> sk_do S SoMkTemp;
       (case e of
          Some m \<Rightarrow> close_failed S sock (''gmbroker: create project-check log dir: '' @ m)
        | None \<Rightarrow> State_Monad.return (Inr (sk_temp S dir)))
     }"

definition listen_private :: "socket_os \<Rightarrow> string \<Rightarrow> (socket_history, string + string) state" where
  "listen_private S sock =
     do {
       e1 \<leftarrow> sk_do S (SoListen sock);
       (case e1 of
          Some m \<Rightarrow> State_Monad.return (Inl (''gmbroker: listen '' @ sock @ '': '' @ m))
        | None \<Rightarrow> do {
            e2 \<leftarrow> sk_do S (SoChmod sock 384);
            (case e2 of
               Some m \<Rightarrow> close_failed S sock (''gmbroker: chmod socket: '' @ m)
             | None \<Rightarrow> make_log_dir S sock)
          })
     }"

text \<open>The result is the directory for logs, or an error.\<close>

definition gm_start :: "socket_os \<Rightarrow> string \<Rightarrow> (socket_history, string + string) state" where
  "gm_start S sock =
     do {
       e1 \<leftarrow> sk_do S (SoMkdir (path_dir sock) 448);
       (case e1 of
          Some m \<Rightarrow> State_Monad.return (Inl (''gmbroker: mkdir socket dir: '' @ m))
        | None \<Rightarrow> do {
            e2 \<leftarrow> sk_do S (SoChmod (path_dir sock) 448);
            (case e2 of
               Some m \<Rightarrow> State_Monad.return (Inl (''gmbroker: chmod socket dir: '' @ m))
             | None \<Rightarrow> do {
                 _ \<leftarrow> sk_do S (SoRemove sock);
                 listen_private S sock
               })
          })
     }"

definition gm_shutdown :: "socket_os \<Rightarrow> string \<Rightarrow> string \<Rightarrow> (socket_history, unit) state" where
  "gm_shutdown S sock log_dir =
     do {
       _ \<leftarrow> sk_do S SoCloseListener;
       _ \<leftarrow> sk_do S (SoRemove sock);
       _ \<leftarrow> (if log_dir \<noteq> [] then sk_do S (SoRemoveAll log_dir) else State_Monad.return None);
       State_Monad.return ()
     }"

section \<open>What the system shows\<close>

text \<open>
  The mode of the directory, the mode of the socket file, and whether the process listens. A new socket
  has the mode that the umask leaves; a close ends the listening even when it reports an error.
\<close>

record socket_view =
  vw_dir :: "nat option"
  vw_socket :: "nat option"
  vw_listening :: bool

definition view_step :: "nat \<Rightarrow> string \<Rightarrow> socket_op \<times> bool \<Rightarrow> socket_view \<Rightarrow> socket_view" where
  "view_step umask_mode sock = (\<lambda>(op, ok) v.
     case op of
       SoMkdir d m \<Rightarrow> if ok \<and> d = path_dir sock \<and> vw_dir v = None then v\<lparr>vw_dir := Some m\<rparr> else v
     | SoChmod p m \<Rightarrow>
         if \<not> ok then v
         else if p = path_dir sock then v\<lparr>vw_dir := Some m\<rparr>
         else if p = sock then v\<lparr>vw_socket := Some m\<rparr> else v
     | SoRemove p \<Rightarrow> if ok \<and> p = sock then v\<lparr>vw_socket := None\<rparr> else v
     | SoListen p \<Rightarrow> if ok \<and> p = sock then v\<lparr>vw_socket := Some umask_mode, vw_listening := True\<rparr> else v
     | SoMkTemp \<Rightarrow> v
     | SoCloseListener \<Rightarrow> v\<lparr>vw_listening := False, vw_socket := (if ok then None else vw_socket v)\<rparr>
     | SoRemoveAll _ \<Rightarrow> v)"

definition view_after :: "nat \<Rightarrow> string \<Rightarrow> socket_view \<Rightarrow> socket_history \<Rightarrow> socket_view" where
  "view_after um sock v h = fold (view_step um sock) h v"

text \<open>A socket that accepts connections is in a directory that only the user can enter.\<close>

definition private_view :: "socket_view \<Rightarrow> bool" where
  "private_view v \<longleftrightarrow> (if vw_listening v then vw_dir v = Some 448 else True)"

fun always_private :: "nat \<Rightarrow> string \<Rightarrow> socket_view \<Rightarrow> socket_history \<Rightarrow> bool" where
  "always_private um sock v [] \<longleftrightarrow> private_view v"
| "always_private um sock v (x # h) \<longleftrightarrow> private_view v \<and> always_private um sock (view_step um sock x v) h"

lemma always_private_append:
  "always_private um sock v (g @ h) \<longleftrightarrow> always_private um sock v g \<and> always_private um sock (view_after um sock v g) h"
proof (induction g arbitrary: v)
  case Nil
  then show ?case by (cases h) (auto simp: view_after_def)
qed (simp add: view_after_def)

lemma always_private_take: "always_private um sock v h \<Longrightarrow> private_view (view_after um sock v (take n h))"
  by (induction h arbitrary: v n) (auto simp: view_after_def take_Cons' split: if_splits)

lemma sk_bind [simp]:
  "run_state (State_Monad.bind m f) (h :: socket_history) = (case run_state m h of (a, h') \<Rightarrow> run_state (f a) h')"
  by (simp add: State_Monad.bind_def)

lemma run_sk_do [simp]: "run_state (sk_do S op) h = (sk_error S h op, h @ [(op, sk_error S h op = None)])"
  by (simp add: sk_do_def)

text \<open>What a start leaves: a private socket and its broker, or nothing that listens.\<close>

definition started_ok :: "nat \<Rightarrow> string \<Rightarrow> socket_view \<Rightarrow> (string + string) \<times> socket_history \<Rightarrow> bool" where
  "started_ok um sock v out \<longleftrightarrow>
     (case out of
        (Inr _, h) \<Rightarrow> view_after um sock v h = \<lparr>vw_dir = Some 448, vw_socket = Some 384, vw_listening = True\<rparr>
      | (Inl _, h) \<Rightarrow> \<not> vw_listening (view_after um sock v h))"

text \<open>The histories that a start can have.\<close>

lemma close_failed_history:
  assumes "run_state (close_failed S sock m) h = (r, h')"
  obtains a b where "r = Inl m" "h' = h @ [(SoCloseListener, a), (SoRemove sock, b)]"
  using assms by (auto simp: close_failed_def)

lemma make_log_dir_history:
  assumes "run_state (make_log_dir S sock) h = (r, h')"
  obtains d where "r = Inr d" "h' = h @ [(SoMkTemp, True)]"
  | m a b where "r = Inl m" "h' = h @ [(SoMkTemp, False), (SoCloseListener, a), (SoRemove sock, b)]"
proof (cases "sk_error S h SoMkTemp")
  case None
  then show ?thesis using assms by (intro that(1)) (auto simp: make_log_dir_def State_Monad.get_def)
next
  case (Some m)
  then have "run_state (close_failed S sock (''gmbroker: create project-check log dir: '' @ m)) (h @ [(SoMkTemp, False)]) = (r, h')"
    using assms by (simp add: make_log_dir_def State_Monad.get_def)
  then show ?thesis by (rule close_failed_history) (use that(2) in simp)
qed

lemma listen_private_history:
  assumes "run_state (listen_private S sock) h = (r, h')"
  obtains d where "r = Inr d" "h' = h @ [(SoListen sock, True), (SoChmod sock 384, True), (SoMkTemp, True)]"
  | m where "r = Inl m" "h' = h @ [(SoListen sock, False)]"
  | m a b where "r = Inl m"
      "h' = h @ [(SoListen sock, True), (SoChmod sock 384, False), (SoCloseListener, a), (SoRemove sock, b)]"
  | m a b where "r = Inl m"
      "h' = h @ [(SoListen sock, True), (SoChmod sock 384, True), (SoMkTemp, False), (SoCloseListener, a), (SoRemove sock, b)]"
proof (cases "sk_error S h (SoListen sock)")
  case None
  let ?h = "h @ [(SoListen sock, True)]"
  show ?thesis
  proof (cases "sk_error S ?h (SoChmod sock 384)")
    case 2: None
    then have "run_state (make_log_dir S sock) (?h @ [(SoChmod sock 384, True)]) = (r, h')"
      using assms None by (simp add: listen_private_def)
    then show ?thesis by (rule make_log_dir_history) (use that(1,4) in simp_all)
  next
    case (Some m)
    then have "run_state (close_failed S sock (''gmbroker: chmod socket: '' @ m)) (?h @ [(SoChmod sock 384, False)]) = (r, h')"
      using assms None by (simp add: listen_private_def)
    then show ?thesis by (rule close_failed_history) (use that(3) in simp)
  qed
next
  case (Some m)
  then show ?thesis using assms by (intro that(2)) (auto simp: listen_private_def)
qed

definition prepared_dir :: "string \<Rightarrow> bool \<Rightarrow> socket_history" where
  "prepared_dir sock a = [(SoMkdir (path_dir sock) 448, True), (SoChmod (path_dir sock) 448, True), (SoRemove sock, a)]"

lemma gm_start_history:
  assumes "run_state (gm_start S sock) [] = (r, h)"
  obtains m where "r = Inl m" "h = [(SoMkdir (path_dir sock) 448, False)]"
  | m where "r = Inl m" "h = [(SoMkdir (path_dir sock) 448, True), (SoChmod (path_dir sock) 448, False)]"
  | a where "run_state (listen_private S sock) (prepared_dir sock a) = (r, h)"
proof (cases "sk_error S [] (SoMkdir (path_dir sock) 448)")
  case 1: None
  show ?thesis
  proof (cases "sk_error S [(SoMkdir (path_dir sock) 448, True)] (SoChmod (path_dir sock) 448)")
    case None
    then show ?thesis using assms 1 by (intro that(3)) (simp add: gm_start_def prepared_dir_def)
  next
    case (Some m)
    then show ?thesis using assms 1 by (intro that(2)) (auto simp: gm_start_def)
  qed
next
  case (Some m)
  then show ?thesis using assms by (intro that(1)) (auto simp: gm_start_def)
qed

lemma start_private:
  assumes quiet: "\<not> vw_listening v" and dir: "path_dir sock \<noteq> sock" and run: "run_state (gm_start S sock) [] = (r, h)"
  shows "always_private um sock v h \<and> started_ok um sock v (r, h)"
  using run
proof (cases rule: gm_start_history)
  case (3 a)
  have dir_ready: "vw_dir (view_after um sock v (prepared_dir sock a)) = Some 448"
      "\<not> vw_listening (view_after um sock v (prepared_dir sock a))" "always_private um sock v (prepared_dir sock a)"
    using quiet dir by (auto simp: prepared_dir_def view_after_def view_step_def private_view_def)
  from 3 show ?thesis
    by (cases rule: listen_private_history)
      (use dir_ready dir in \<open>auto simp: always_private_append started_ok_def view_after_def view_step_def private_view_def\<close>)
qed (use quiet dir in \<open>auto simp: started_ok_def view_after_def view_step_def private_view_def\<close>)

text \<open>
  C0: At every moment of a start a socket that accepts connections is in a directory that only the user
  can enter. A start that succeeds leaves the socket listening with mode 0600; one that fails leaves
  nothing that listens.
\<close>

theorem socket_never_exposed:
  assumes "\<not> vw_listening v" and "path_dir sock \<noteq> sock" and "run_state (gm_start S sock) [] = (r, h)"
  shows "private_view (view_after um sock v (take n h)) \<and> started_ok um sock v (r, h)"
  using start_private [OF assms] always_private_take by blast

definition sample_sockets :: socket_os where
  "sample_sockets = \<lparr>sk_error = (\<lambda>h op. if op = SoMkTemp then Some ''disk full'' else None), sk_temp = (\<lambda>_. ''/tmp/l'')\<rparr>"

theorem socket_never_exposed_witness:
  "\<not> vw_listening (view_after 511 ''/r/gm.sock'' \<lparr>vw_dir = Some 493, vw_socket = None, vw_listening = False\<rparr>
     (snd (run_state (gm_start sample_sockets ''/r/gm.sock'') [])))"
proof -
  obtain r h where run: "run_state (gm_start sample_sockets ''/r/gm.sock'') [] = (r, h)" by fastforce
  have dir: "path_dir ''/r/gm.sock'' \<noteq> ''/r/gm.sock''" by code_simp
  have "isl r" using run by (auto simp: gm_start_def listen_private_def make_log_dir_def close_failed_def sample_sockets_def State_Monad.get_def)
  then show ?thesis
    using socket_never_exposed [OF _ dir run, of "\<lparr>vw_dir = Some 493, vw_socket = None, vw_listening = False\<rparr>" 511 0] run
    by (auto simp: started_ok_def split: sum.splits)
qed

text \<open>A shutdown ends the listening; the socket file is gone unless its removal fails.\<close>

lemma shutdown_ends:
  "\<not> vw_listening (view_after um sock v (snd (run_state (gm_shutdown S sock dir) [])))"
  by (simp add: gm_shutdown_def view_after_def view_step_def split: prod.split)

end
