(* ===== verification/Spec2Isabelle.thy ===== *)
theory Spec2Isabelle
  imports Machine Selector Claim Template Run_Loop Agent Gm_Commit Gm_Requests Gm_Race Cbm_Broker Cbm_Clients Health Preflight Progress Prompt Agent_File Pi_Dir Flags Command_Line Activity_Usage Invocations Gm_Socket
begin

text \<open>
  golemic drives a GitHub issue to a merged pull request: a dev agent writes the change, CI and a
  reviewer agent judge it, and the runner decides what happens next from the event log of the run.
  This library models the decisions, in Go under internal/, and proves what makes them correct.

  The program. \<open>internal/loop\<close> is a guarded transition machine; \<open>internal/runner\<close> instantiates it
  with five step handlers (PREPARE, RUN_DEV, SYNC_CI, RUN_REVIEWER, MERGE_PR), a transition table and
  a context. The handlers call git, gh, the agent processes and the brokers, and append to and read
  the event log (\<open>internal/eventlog\<close>). Worktrees are made and removed by \<open>internal/worktree\<close>.

  The model. Everything outside the source (git, gh, agents, files, the clock) is the record \<open>env\<close>,
  a parameter: functions from the whole history of calls to the next answer, so any behaviour that
  is a function of what happened so far is covered. An operation is a state monad over \<open>rstate\<close>: the
  history of calls with their answers, the log, the turn counter, the cached repository name and the
  token usage. The fields that \<open>initRun\<close> sets once are the record \<open>rconfig\<close>. Errors are values of a
  sum type that carry the text and the sentinel that \<open>errors.Is\<close> looks for.

  The theories, in import order:
    \<open>Prelude\<close>       strings, integers and sorting as Go has them, errors, shared collections;
    \<open>Json\<close>          encoding/json as the program uses it: decoding with Go's rules, printing, parsing;
    \<open>Event_Log\<close>     eventlog.go: validators, constructors, Write, Read, ResolveContext;
    \<open>Token_Usage\<close>   tokenusage.go: the aggregate of the \<open>run_finished\<close> event;
    \<open>World\<close>         the calls, the environment, the state, and the rules for composed operations: the
                  locale \<open>state_preorder\<close> lifts a relation from primitive calls to operations and is
                  interpreted for the growth of the history, for the kinds of calls made and (in
                  \<open>Merge\<close>) for merging on a green answer only;
    \<open>Loop\<close>          loop.go: the machine as a partial function, its step relation, and the locales
                  \<open>guarded_machine\<close> (no machine error) and \<open>ranked_machine\<close> (a run returns);
    \<open>Outcome\<close>       outcome.go: the queries over the log; getPRNumber;
    \<open>Loopdef\<close>       loopdef.go: the context, the terminals, the outcomes, the table;
    \<open>Worktree\<close>      worktree.go and worktreefingerprint;
    \<open>CI_Gate\<close>       ciwait.go: check classification, polling, the gate and its CI fix rounds;
    \<open>Merge\<close>         merge.go: the merge phase, conflict resolution, the sync gate;
    \<open>Dev\<close>           dev.go: one dev invocation, from the prompt to the pull request;
    \<open>Reviewer\<close>      reviewer.go: one reviewer invocation, the precheck, submitting the review;
    \<open>Resume\<close>        resume.go, collision.go, clean.go, issue.go;
    \<open>Steps\<close>         step_*.go: the five handlers and their postconditions;
    \<open>Review_Step\<close>   what RUN_REVIEWER guarantees about approvals and fresh reviews;
    \<open>Machine\<close>       machine.go and orchestrateRun, with the interpretations of the two locales.

  Bounds. Loops with a constant bound in the source are recursions on that bound (three reviewer
  attempts, two CI fix rounds, three merge attempts, the configured conflict attempts). A polling
  loop runs for as many ticks as the environment grants before the deadline. The machine's loop has
  no bound in the source, so it is a partial function whose value \<open>None\<close> is a run that does not
  return; \<open>run_terminates\<close> says when it returns.

  Not modelled: output on stdout and stderr, telemetry and progress (the program does not read them
  back); the rendering of prompts and the parsing of agent files and of activity files (answers of
  the environment); the test hooks (\<open>reviewerPrecheckFn\<close>, \<open>runAgentFn\<close>); preflight checks and the
  brokers' processes. The log of a run is a list of events: the step from lines to events is
  \<open>read_log\<close>, and that it fails is an answer of the environment.
\<close>

section \<open>A run as a whole\<close>

text \<open>The state of the machine when a run starts.\<close>

definition loop_start :: "rconfig \<Rightarrow> rstate \<Rightarrow> loop_state" where
  "loop_start R s =
     \<lparr>ls_ctx = initial_ctx (r_max_review_rounds R) (r_resume R), ls_seq = 0, ls_world = s\<rparr>"

lemma start_inv: "merges_guarded (rs_trace s) \<Longrightarrow> run_inv StepPrepare (loop_start R s)"
  by (simp add: run_inv_def loop_start_def initial_ctx_def valid_ctx_def loop_terminals_def)

lemma start_calm:
  "merges_guarded (rs_trace s) \<Longrightarrow> log_readable E \<Longrightarrow> main_still E \<Longrightarrow> calm_inv E StepPrepare (loop_start R s)"
  using start_inv [of s R] by (simp add: calm_inv_def loop_start_def initial_ctx_def)

lemma terminal_outcome_total:
  "loop_terminals f \<Longrightarrow> \<exists>outcome. terminal_outcome f =
     Some (outcome, if outcome \<in> {outcomeSuccess, outcomeSkipped} then 0 else 1)"
  by (auto simp: loop_terminals_def terminal_outcome_def terminal_outcome_table_def outcome_defs)

lemma run_step_machine_start:
  "run_step_machine E R (initial_ctx (r_max_review_rounds R) (r_resume R)) s =
     (case run_from (build_machine E R StepPrepare) StepPrepare (loop_start R s) of
        None \<Rightarrow> None
      | Some ((final, err), w) \<Rightarrow>
          Some (terminal_outcome (if err = None then final else StepTerminalDevFailed), ls_world w))"
  by (simp add: run_step_machine_def machine_run_def loop_start_def)

text \<open>The machine of a run ends without an error, in a terminal step and with the invariant.\<close>

lemma run_step_machine_ends:
  assumes "merges_guarded (rs_trace s)"
    and "run_step_machine E R (initial_ctx (r_max_review_rounds R) (r_resume R)) s = Some (out, t)"
  shows "merges_guarded (rs_trace t) \<and>
    (\<exists>outcome. out = Some (outcome, if outcome \<in> {outcomeSuccess, outcomeSkipped} then 0 else 1))"
proof -
  obtain final err w where run: "run_from (build_machine E R StepPrepare) StepPrepare (loop_start R s) = Some ((final, err), w)"
    and out: "out = terminal_outcome (if err = None then final else StepTerminalDevFailed)" "t = ls_world w"
    using assms(2) unfolding run_step_machine_start by (auto split: option.splits)
  have "loop_terminals final" "err = None" "run_inv final w"
    using runner.no_state_error [OF start_inv [OF assms(1)] run] by simp_all
  then show ?thesis using out terminal_outcome_total by (simp add: run_inv_def)
qed

lemma finish_run_keeps: "upholds keeps_guard (finish_run E R outcome)"
  unfolding finish_run_def clean_success_worktrees_def
  by (rule guard_no_merge) (intro emits no_merge_kinds; simp add: quietD [OF no_merge_kinds(1)] writesD [OF no_merge_kinds(2)])

lemma finish_run_reports:
  "\<exists>ok usage e. last (rs_trace (final_state (finish_run E R outcome) s)) = CLogWrite e ok \<and>
     ev_type e = EventRunFinished \<and> ev_payload e = Some (run_finished_payload outcome usage)"
  by (simp add: finish_run_def after_def write_run_event_def run_prims) blast

text \<open>
  C1: However git, GitHub, the agents, the file system and the clock answer, a run that starts
  with no call made merges a PR only immediately after GitHub answered that the check runs of a
  commit are green: every merge call of the whole run has such an answer as the call before it.
\<close>

theorem whole_run_merges_guarded:
  "case orchestrate_run E R (start_state log) of
     None \<Rightarrow> True | Some (code, t) \<Rightarrow> merges_guarded (rs_trace t)"
proof -
  have g: "merges_guarded (rs_trace (start_state log))" by (simp add: start_state_def)
  have "keeps_guard t (final_state (finish_run E R outcome) t)" for t outcome
    by (rule upholdsD [OF finish_run_keeps])
  then show ?thesis
    using run_step_machine_ends [OF g]
    by (auto simp: orchestrate_run_def keeps_guard_def split: option.split)
qed

text \<open>
  C2: A run that returns has ended in a terminal step without a machine error: it never reaches the
  panic on an unknown step, its exit code is 0 for the outcomes success and skipped and 1 for every
  other, and its last call is the \<open>run_finished\<close> event with that outcome.
\<close>

theorem run_outcome_reported:
  "case orchestrate_run E R (start_state log) of
     None \<Rightarrow> True
   | Some (code, t) \<Rightarrow>
       (\<exists>outcome usage e ok.
          code = Some (if outcome \<in> {outcomeSuccess, outcomeSkipped} then 0 else 1) \<and>
          last (rs_trace t) = CLogWrite e ok \<and> ev_type e = EventRunFinished \<and>
          ev_payload e = Some (run_finished_payload outcome usage))"
proof -
  have g: "merges_guarded (rs_trace (start_state log))" by (simp add: start_state_def)
  show ?thesis
  proof (cases "run_step_machine E R (initial_ctx (r_max_review_rounds R) (r_resume R)) (start_state log)")
    case None
    then show ?thesis by (simp add: orchestrate_run_def)
  next
    case (Some x)
    then obtain out t where "run_step_machine E R (initial_ctx (r_max_review_rounds R) (r_resume R))
        (start_state log) = Some (out, t)"
      by (cases x) simp
    with run_step_machine_ends [OF g this] obtain outcome where
      "orchestrate_run E R (start_state log) =
        Some (Some (if outcome \<in> {outcomeSuccess, outcomeSkipped} then 0 else 1),
              final_state (finish_run E R outcome) t)"
      by (auto simp: orchestrate_run_def)
    then show ?thesis using finish_run_reports [of E R outcome t] by (simp only: option.case prod.case) blast
  qed
qed

text \<open>
  C3: A run returns, with an exit code, whatever the commands and agents answer, as long as the
  event log can be read and the branch is never found behind \<open>origin/main\<close> in the merge step. The
  review rounds are bounded because every round that sends the work back has recorded a review.
\<close>

theorem run_terminates:
  assumes "log_readable E" and "main_still E"
  shows "\<exists>code t. orchestrate_run E R (start_state log) = Some (Some code, t)"
proof -
  have g: "merges_guarded (rs_trace (start_state log))" by (simp add: start_state_def)
  obtain f w where run: "run_from (build_machine E R StepPrepare) StepPrepare (loop_start R (start_state log)) = Some ((f, None), w)"
    using calm.run_returns [OF start_calm [OF g assms]] by blast
  then obtain out where "run_step_machine E R (initial_ctx (r_max_review_rounds R) (r_resume R)) (start_state log) = Some (out, ls_world w)"
    unfolding run_step_machine_start by simp
  with run_step_machine_ends [OF g this] show ?thesis
    by (auto simp: orchestrate_run_def)
qed

theorem run_terminates_witness:
  "\<forall>R log. \<exists>code t. orchestrate_run failing_env R (start_state log) = Some (Some code, t)"
proof (intro allI)
  fix R log
  have "log_readable failing_env" "main_still failing_env"
    by (simp_all add: failing_env_def log_readable_def main_still_def exit_code_is_def msg_err_def)
  then show "\<exists>code t. orchestrate_run failing_env R (start_state log) = Some (Some code, t)"
    by (rule run_terminates)
qed

text \<open>
  C8: In every state a run reaches, the resume verdict and the failure kind are documented values, a
  step that is not terminal is entered with fewer than three rejected attempts of the dev agent and
  no step with more than three, so the attempt guards of the table see 0 to 3 only.
\<close>

theorem reachable_attempts_bounded:
  assumes "(mstep (build_machine E R StepPrepare))\<^sup>*\<^sup>* (StepPrepare, loop_start R (start_state log)) (s, w)"
  shows "valid_ctx (ls_ctx w) \<and> 0 \<le> rc_dev_attempt (ls_ctx w) \<and>
    rc_dev_attempt (ls_ctx w) \<le> (if loop_terminals s then 3 else 2)"
proof -
  have "run_inv s w"
    using runner.steps_keep [OF assms] start_inv [of "start_state log" R] by (simp add: start_state_def)
  then show ?thesis by (auto simp: run_inv_def)
qed

theorem reachable_attempts_bounded_witness:
  "\<forall>E R log. \<exists>s w.
     mstep (build_machine E R StepPrepare) (StepPrepare, loop_start R (start_state log)) (s, w) \<and>
     valid_ctx (ls_ctx w) \<and> 0 \<le> rc_dev_attempt (ls_ctx w) \<and>
     rc_dev_attempt (ls_ctx w) \<le> (if loop_terminals s then 3 else 2)"
proof (intro allI)
  fix E R log
  have "run_inv StepPrepare (loop_start R (start_state log))"
    by (rule start_inv) (simp add: start_state_def)
  moreover have "\<not> m_terminals (build_machine E R StepPrepare) StepPrepare" by (simp add: loop_terminals_def)
  ultimately obtain s w where
    "dispatch (build_machine E R StepPrepare) StepPrepare (loop_start R (start_state log)) = (Next s, w)"
    using runner.one_transition by blast
  then have st: "mstep (build_machine E R StepPrepare) (StepPrepare, loop_start R (start_state log)) (s, w)"
    by (simp add: mstep_iff)
  then have "(mstep (build_machine E R StepPrepare))\<^sup>*\<^sup>* (StepPrepare, loop_start R (start_state log)) (s, w)"
    by (rule r_into_rtranclp)
  with st show "\<exists>s w. mstep (build_machine E R StepPrepare) (StepPrepare, loop_start R (start_state log)) (s, w) \<and>
     valid_ctx (ls_ctx w) \<and> 0 \<le> rc_dev_attempt (ls_ctx w) \<and>
     rc_dev_attempt (ls_ctx w) \<le> (if loop_terminals s then 3 else 2)"
    using reachable_attempts_bounded by blast
qed

text \<open>
  C4: When \<open>stepRunReviewer\<close> reports an approval, then in that same step git reported a clean
  reviewer worktree and GitHub a head commit, and the log holds a valid review event with the
  verdict \<open>approved\<close> for that commit and the context's round.
\<close>

theorem approval_is_backed:
  "if fst (run_value (step_run_reviewer E R c) s) = EventReviewApproved
   then approval R s (run_value (step_run_reviewer E R c) s) (final_state (step_run_reviewer E R c) s)
   else True"
  using step_reviewer_approval [of E R c s] by (simp add: wp_def)

text \<open>
  C5: With a readable log, \<open>stepRunReviewer\<close> reports a verdict (an approval, requested changes or a
  failed precheck) only if a review was recorded during the step: the round it leaves in the context
  is larger than the number of reviews before the step and at most the number after it.
\<close>

theorem verdict_is_fresh:
  assumes "log_readable E"
  shows "recorded s (run_value (step_run_reviewer E R c) s) (final_state (step_run_reviewer E R c) s)"
  using step_reviewer_recorded [OF assms, of R c s] by (simp add: wp_def)

theorem verdict_is_fresh_witness:
  "\<forall>R c s. recorded s (run_value (step_run_reviewer failing_env R c) s)
     (final_state (step_run_reviewer failing_env R c) s)"
proof -
  have "log_readable failing_env" by (simp add: failing_env_def log_readable_def)
  then show ?thesis using verdict_is_fresh by blast
qed

end
